(* ===== verification/Prelude.thy ===== *)
theory Prelude
  imports
    Main
    "HOL-Library.Signed_Division"
    "HOL-Library.Char_ord"
    "HOL-Library.List_Lexorder"
    "HOL-Library.Product_Lexorder"
begin

text \<open>
  Shared vocabulary of the development: fallible computations as sums, the machine integers
  \<open>i64\<close> and \<open>i128\<close> as ranges of \<^typ>\<open>int\<close> with the wrap-around and the checked operations
  written out, Rust's truncating division, rounding half away from zero, and the standard
  library's ordered map (\<open>BTreeMap\<close>) and priority queue (\<open>BinaryHeap\<close>) with the interfaces
  the components rely on.
\<close>

section \<open>Collections of rewrite rules\<close>

named_theorems result_simps \<open>inversion of fallible computations\<close>
named_theorems int_range \<open>machine integer ranges, unfolded to inequalities\<close>
named_theorems component_defs \<open>definitions of the model unfolded by its proofs\<close>

section \<open>Fallible computations\<close>

text \<open>
  \<open>Result<T, E>\<close> is \<open>'e + 'a\<close> with \<open>Inl\<close> the error. \<open>and_then\<close> is the \<open>?\<close> operator: the
  rest of the function runs only on success.
\<close>

definition and_then :: "'e + 'a \<Rightarrow> ('a \<Rightarrow> 'e + 'b) \<Rightarrow> 'e + 'b" where
  "and_then m k = (case m of Inl e \<Rightarrow> Inl e | Inr x \<Rightarrow> k x)"

lemma and_then_simps [simp]:
  "and_then (Inl e) k = Inl e"
  "and_then (Inr x) k = k x"
  by (simp_all add: and_then_def)

lemma and_then_cong [fundef_cong]:
  "m = m' \<Longrightarrow> (\<And>x. m' = Inr x \<Longrightarrow> k x = k' x) \<Longrightarrow> and_then m k = and_then m' k'"
  by (cases m') auto

lemma and_then_Inr_iff [result_simps]:
  "and_then m k = Inr y \<longleftrightarrow> (\<exists>x. m = Inr x \<and> k x = Inr y)"
  by (cases m) auto

lemma and_then_InrE:
  assumes "and_then m k = Inr y"
  obtains x where "m = Inr x" and "k x = Inr y"
  using assms by (auto simp: result_simps)

lemma and_then_Inl_iff:
  "and_then m k = Inl e \<longleftrightarrow> m = Inl e \<or> (\<exists>x. m = Inr x \<and> k x = Inl e)"
  by (cases m) auto

definition is_ok :: "'e + 'a \<Rightarrow> bool" where
  "is_ok m = (case m of Inl _ \<Rightarrow> False | Inr _ \<Rightarrow> True)"

lemma is_ok_simps [simp]: "is_ok (Inr x)" "\<not> is_ok (Inl e)"
  by (simp_all add: is_ok_def)

lemma is_ok_iff: "is_ok m \<longleftrightarrow> (\<exists>x. m = Inr x)"
  by (cases m) auto

definition map_ok :: "('a \<Rightarrow> 'b) \<Rightarrow> 'e + 'a \<Rightarrow> 'e + 'b" where
  "map_ok f m = and_then m (\<lambda>x. Inr (f x))"

lemma map_ok_simps [simp]: "map_ok f (Inr x) = Inr (f x)" "map_ok f (Inl e) = Inl e"
  by (simp_all add: map_ok_def)

lemma map_ok_Inr_iff [result_simps]: "map_ok f m = Inr y \<longleftrightarrow> (\<exists>x. m = Inr x \<and> y = f x)"
  by (cases m) auto

definition ok_or :: "'e \<Rightarrow> 'a option \<Rightarrow> 'e + 'a" where
  "ok_or e v = (case v of None \<Rightarrow> Inl e | Some x \<Rightarrow> Inr x)"

lemma ok_or_simps [simp]: "ok_or e None = Inl e" "ok_or e (Some x) = Inr x"
  by (simp_all add: ok_or_def)

lemma ok_or_Inr_iff [result_simps]: "ok_or e v = Inr x \<longleftrightarrow> v = Some x"
  by (cases v) auto

text \<open>A \<open>for\<close> loop whose body may return early: the state is threaded, the first error wins.\<close>

primrec fold_r :: "('s \<Rightarrow> 'a \<Rightarrow> 'e + 's) \<Rightarrow> 's \<Rightarrow> 'a list \<Rightarrow> 'e + 's" where
  "fold_r f s [] = Inr s"
| "fold_r f s (x # xs) = and_then (f s x) (\<lambda>s'. fold_r f s' xs)"

lemma fold_r_append: "fold_r f s (xs @ ys) = and_then (fold_r f s xs) (\<lambda>s'. fold_r f s' ys)"
  by (induction xs arbitrary: s) (auto simp: and_then_def split: sum.splits)

lemma fold_r_invariant:
  assumes "fold_r f s xs = Inr s'" and "P s"
    and "\<And>s x s''. x \<in> set xs \<Longrightarrow> P s \<Longrightarrow> f s x = Inr s'' \<Longrightarrow> P s''"
  shows "P s'"
  using assms
proof (induction xs arbitrary: s)
  case Nil
  then show ?case by simp
next
  case (Cons x xs)
  from Cons.prems(1) obtain u where u: "f s x = Inr u" "fold_r f u xs = Inr s'"
    by (auto simp: result_simps)
  with Cons.prems have "P u" by (meson list.set_intros(1))
  with u Cons.IH Cons.prems(3) show ?case by (meson list.set_intros(2))
qed

primrec map_r :: "('a \<Rightarrow> 'e + 'b) \<Rightarrow> 'a list \<Rightarrow> 'e + 'b list" where
  "map_r f [] = Inr []"
| "map_r f (x # xs) = and_then (f x) (\<lambda>y. and_then (map_r f xs) (\<lambda>ys. Inr (y # ys)))"

lemma map_r_Inr_iff: "map_r f xs = Inr ys \<longleftrightarrow> list_all2 (\<lambda>x y. f x = Inr y) xs ys"
proof (induction xs arbitrary: ys)
  case Nil
  then show ?case by auto
next
  case (Cons x xs)
  then show ?case by (cases ys) (auto simp: result_simps)
qed

section \<open>Machine integers\<close>

text \<open>
  A Rust \<open>i64\<close> is an \<^typ>\<open>int\<close> in range; the shipped profiles of the workspace leave overflow
  checks off, so a plain \<open>+\<close>, \<open>-\<close>, \<open>*\<close>, \<open>abs\<close> wraps around in two's complement
  (\<open>wrap64\<close>), \<open>checked_*\<close> returns no value out of range and \<open>saturating_*\<close> clamps.
\<close>

definition i64_min :: int where [int_range]: "i64_min = -9223372036854775808"
definition i64_max :: int where [int_range]: "i64_max = 9223372036854775807"
definition i128_min :: int where [int_range]: "i128_min = -170141183460469231731687303715884105728"
definition i128_max :: int where [int_range]: "i128_max = 170141183460469231731687303715884105727"

definition in_i64 :: "int \<Rightarrow> bool" where [int_range]: "in_i64 x \<longleftrightarrow> i64_min \<le> x \<and> x \<le> i64_max"
definition in_i128 :: "int \<Rightarrow> bool" where [int_range]: "in_i128 x \<longleftrightarrow> i128_min \<le> x \<and> x \<le> i128_max"

definition wrap64 :: "int \<Rightarrow> int" where
  "wrap64 x = (x + 9223372036854775808) mod 18446744073709551616 - 9223372036854775808"

definition checked64 :: "int \<Rightarrow> int option" where
  "checked64 x = (if in_i64 x then Some x else None)"

definition checked128 :: "int \<Rightarrow> int option" where
  "checked128 x = (if in_i128 x then Some x else None)"

definition sat64 :: "int \<Rightarrow> int" where
  "sat64 x = (if x < i64_min then i64_min else if i64_max < x then i64_max else x)"

lemma wrap64_id [simp]: "in_i64 x \<Longrightarrow> wrap64 x = x"
  by (simp add: wrap64_def int_range)

lemma wrap64_in_i64 [simp]: "in_i64 (wrap64 x)"
proof -
  have "0 \<le> (x + 9223372036854775808) mod 18446744073709551616"
    and "(x + 9223372036854775808) mod 18446744073709551616 < 18446744073709551616"
    by simp_all
  then show ?thesis by (simp add: wrap64_def int_range)
qed

lemma wrap64_diff: "wrap64 (x - wrap64 y) = wrap64 (x - y)"
proof -
  have "(x - wrap64 y + 9223372036854775808) mod 18446744073709551616
      = (x - y + 9223372036854775808) mod 18446744073709551616"
    unfolding wrap64_def by (simp add: mod_simps algebra_simps)
  then show ?thesis unfolding wrap64_def [of "x - wrap64 y"] wrap64_def [of "x - y"] by simp
qed

lemma checked64_Some_iff [result_simps]: "checked64 x = Some y \<longleftrightarrow> in_i64 x \<and> y = x"
  by (auto simp: checked64_def)

lemma checked128_Some_iff [result_simps]: "checked128 x = Some y \<longleftrightarrow> in_i128 x \<and> y = x"
  by (auto simp: checked128_def)

lemma sat64_in_i64 [simp]: "in_i64 (sat64 x)"
  by (simp add: sat64_def int_range)

lemma sat64_id [simp]: "in_i64 x \<Longrightarrow> sat64 x = x"
  by (simp add: sat64_def int_range)

lemma in_i64_between: "in_i64 a \<Longrightarrow> in_i64 b \<Longrightarrow> a \<le> x \<Longrightarrow> x \<le> b \<Longrightarrow> in_i64 x"
  by (simp add: int_range)

lemma in_i64_0 [simp]: "in_i64 0" and in_i64_1 [simp]: "in_i64 1"
  by (simp_all add: int_range)

lemma i64_product_in_i128:
  assumes "in_i64 a" and "in_i64 b"
  shows "\<bar>a * b\<bar> \<le> 85070591730234615865843651857942052864" and "in_i128 (a * b)"
proof -
  have "\<bar>a\<bar> \<le> 9223372036854775808" and "\<bar>b\<bar> \<le> 9223372036854775808"
    using assms by (auto simp: int_range abs_le_iff)
  then have "\<bar>a\<bar> * \<bar>b\<bar> \<le> 9223372036854775808 * 9223372036854775808"
    by (intro mult_mono) auto
  then show bound: "\<bar>a * b\<bar> \<le> 85070591730234615865843651857942052864"
    by (simp add: abs_mult)
  show "in_i128 (a * b)"
    using bound unfolding int_range by linarith
qed

section \<open>Truncating division and rounding\<close>

text \<open>
  Rust's \<open>/\<close> and \<open>%\<close> on signed integers truncate towards zero: \<^term>\<open>a sdiv b\<close> and
  \<^term>\<open>a smod b\<close>. The idiom \<open>(x + h) / d\<close> on non-negative and \<open>(x - h) / d\<close> on negative
  \<open>x\<close> is division rounding half away from zero.
\<close>

definition round_div :: "int \<Rightarrow> int \<Rightarrow> int" where
  "round_div x d = (if 0 \<le> x then (x + d sdiv 2) sdiv d else (x - d sdiv 2) sdiv d)"

lemma sdiv_nonneg_eq: "0 \<le> a \<Longrightarrow> 0 \<le> b \<Longrightarrow> a sdiv b = a div (b::int)"
  by (auto simp: signed_divide_int_def sgn_if)

lemma sdiv_neg_eq: "a \<le> 0 \<Longrightarrow> 0 \<le> b \<Longrightarrow> a sdiv b = - ((- a) div (b::int))"
  by (cases "a = 0") (auto simp: signed_divide_int_def sgn_if)

lemma smod_nonneg_eq: "0 \<le> a \<Longrightarrow> 0 \<le> b \<Longrightarrow> a smod b = a mod (b::int)"
  by (simp add: smod_mod_positive)

lemma smod_neg_eq: "a \<le> 0 \<Longrightarrow> 0 \<le> b \<Longrightarrow> a smod b = - ((- a) mod (b::int))"
  by (cases "a = 0") (auto simp: signed_modulo_int_def sgn_if)

lemma sdiv_abs_le: "0 < d \<Longrightarrow> \<bar>x sdiv d\<bar> \<le> \<bar>x::int\<bar>"
  using sdiv_int_range [of x d] by (auto simp: abs_le_iff)

lemma sdiv_mono_nonneg: "0 \<le> a \<Longrightarrow> a \<le> b \<Longrightarrow> 0 < d \<Longrightarrow> a sdiv d \<le> b sdiv (d::int)"
  by (simp add: sdiv_nonneg_eq zdiv_mono1)

lemma sdiv_sign:
  fixes x d :: int
  assumes "0 < d"
  shows "0 \<le> x \<Longrightarrow> 0 \<le> x sdiv d" and "x \<le> 0 \<Longrightarrow> x sdiv d \<le> 0"
  using assms by (simp_all add: sdiv_nonneg_eq sdiv_neg_eq pos_imp_zdiv_nonneg_iff)

lemma div_mult_bounds:
  fixes x d :: int
  assumes "0 < d"
  shows "x div d * d \<le> x" and "x < (x div d + 1) * d"
proof -
  have "x = x div d * d + x mod d" "0 \<le> x mod d" "x mod d < d" using assms by simp_all
  then show "x div d * d \<le> x" "x < (x div d + 1) * d" unfolding distrib_right by linarith+
qed

lemma round_div_minus: "round_div (- x) d = - round_div x d"
proof -
  have neg: "(- y - h) sdiv d = - ((y + h) sdiv d)" for y h :: int
    using minus_sdiv_eq [of "y + h" d] by simp
  have pos: "(h - y) sdiv d = - ((y - h) sdiv d)" for h y :: int
    using minus_sdiv_eq [of "y - h" d] by (simp add: algebra_simps)
  consider "x = 0" | "0 < x" | "x < 0" by linarith
  then show ?thesis
  proof cases
    case 1
    have "d sdiv 2 sdiv d = 0"
    proof (cases "0 \<le> d")
      case True
      then show ?thesis by (cases "d = 0") (simp_all add: sdiv_nonneg_eq)
    next
      case False
      then have "(- d) sdiv 2 sdiv (- d) = 0" by (simp add: sdiv_nonneg_eq del: minus_sdiv_eq sdiv_minus_eq)
      then show ?thesis by simp
    qed
    with 1 show ?thesis by (simp add: round_div_def)
  next
    case 2
    then show ?thesis by (simp add: round_div_def neg)
  next
    case 3
    then show ?thesis by (simp add: round_div_def pos [of "d sdiv 2" x])
  qed
qed

text \<open>
  The characterisation that every caller uses: the result is the integer nearest to \<open>x / d\<close>,
  a tie going away from zero.
\<close>

lemma round_div_nonneg:
  assumes "0 < d" and "0 \<le> x"
  shows "round_div x d = (x + d div 2) div d"
  using assms by (simp add: round_div_def sdiv_nonneg_eq pos_imp_zdiv_nonneg_iff)

lemma round_div_bounds_nonneg:
  assumes "0 < d" and "0 \<le> x"
  shows "2 * \<bar>round_div x d * d - x\<bar> \<le> d"
proof -
  define h where "h = d div 2"
  define r where "r = (x + h) mod d"
  have eq: "(x + h) div d * d - x = h - r"
    by (simp add: r_def minus_mod_eq_div_mult [symmetric])
  have "0 \<le> r" "r < d"
    using assms(1) by (simp_all add: r_def)
  moreover have "2 * h \<le> d" "d \<le> 2 * h + 1"
    unfolding h_def by presburger+
  ultimately have "2 * \<bar>h - r\<bar> \<le> d"
    by presburger
  then have "2 * \<bar>(x + d div 2) div d * d - x\<bar> \<le> d"
    using eq by (simp add: h_def)
  then show ?thesis
    by (simp add: round_div_nonneg [OF assms])
qed

lemma round_div_nearest:
  assumes "0 < d"
  shows "2 * \<bar>round_div x d * d - x\<bar> \<le> d"
proof (cases "0 \<le> x")
  case True
  with assms show ?thesis by (rule round_div_bounds_nonneg)
next
  case False
  then have "2 * \<bar>round_div (- x) d * d - (- x)\<bar> \<le> d"
    using assms by (intro round_div_bounds_nonneg) auto
  then show ?thesis
    by (simp add: round_div_minus abs_minus_commute)
qed

lemma round_div_sign:
  assumes "0 < d"
  shows "0 \<le> x \<Longrightarrow> 0 \<le> round_div x d" and "x \<le> 0 \<Longrightarrow> round_div x d \<le> 0"
proof -
  have nonneg: "0 \<le> round_div y d" if "0 \<le> y" for y
    using assms that by (simp add: round_div_nonneg pos_imp_zdiv_nonneg_iff)
  show "0 \<le> round_div x d" if "0 \<le> x" by (rule nonneg [OF that])
  show "round_div x d \<le> 0" if "x \<le> 0"
    using nonneg [of "- x"] that by (simp add: round_div_minus)
qed

lemma round_div_multiple: "0 < d \<Longrightarrow> round_div (k * d) d = k"
proof -
  assume d: "0 < d"
  have pos: "round_div (j * d) d = j" if "0 \<le> j" for j
  proof -
    have "d div 2 div d = 0" using d by simp
    then show ?thesis
      using d that by (simp add: round_div_nonneg)
  qed
  show ?thesis
  proof (cases "0 \<le> k")
    case True
    then show ?thesis by (rule pos)
  next
    case False
    then have "round_div (- k * d) d = - k" by (intro pos) simp
    then show ?thesis by (simp add: round_div_minus)
  qed
qed

lemma round_div_mono:
  assumes "0 < d" and "x \<le> y"
  shows "round_div x d \<le> round_div y d"
proof -
  have nonneg: "round_div a d \<le> round_div b d" if "0 \<le> a" "a \<le> b" for a b
    using assms(1) that by (simp add: round_div_nonneg zdiv_mono1)
  consider "0 \<le> x" | "y \<le> 0" | "x < 0" "0 < y" by linarith
  then show ?thesis
  proof cases
    case 1
    then show ?thesis using assms(2) by (rule nonneg)
  next
    case 2
    then have "round_div (- y) d \<le> round_div (- x) d"
      using assms(2) by (intro nonneg) auto
    then show ?thesis by (simp add: round_div_minus)
  next
    case 3
    then show ?thesis
      using round_div_sign [OF assms(1), of x] round_div_sign [OF assms(1), of y] by linarith
  qed
qed

lemma round_div_add_multiple:
  assumes "0 < d" and "0 \<le> k" and "0 \<le> x"
  shows "round_div (k * d + x) d = k + round_div x d"
  using assms by (simp add: round_div_nonneg add.assoc)

end
