(* ===== verification/Errors.thy ===== *)
theory Errors
  imports Prelude
begin

text \<open>
  The errors of the backtest crate (\<open>h5i-db-backtest/src/error.rs\<close>). Every constructor of
  \<open>BacktestError\<close> is kept with its fields; the text an \<open>Invalid\<close> error formats is kept as a
  short literal naming the check that failed, since no code branches on it.
\<close>

datatype backtest_error =
    Overflow string
  | NotFinite string
  | Parse string string
  | CausalityViolation int int
  | EmptyWindow int int
  | BookGap string int int
  | OutOfOrder string int int
  | UnknownInstrument string
  | UnknownOutcome string nat nat
  | Schema string string
  | Invalid string

type_synonym 'a res = "backtest_error + 'a"

abbreviation invalid :: "string \<Rightarrow> 'a res" where
  "invalid message \<equiv> Inl (Invalid message)"

end
