(* ===== verification/FixedPoint.thy ===== *)
theory FixedPoint
  imports Errors
begin

text \<open>
  Fixed-point money and the timestamps (\<open>h5i-db-backtest/src/types.rs\<close>). \<open>Price\<close>, \<open>Qty\<close> and
  \<open>Money\<close> come from one macro and are all a \<open>Raw\<close> (an \<open>i64\<close> in the default build) counting
  units of \<open>10\<^sup>-\<^sup>9\<close>; the macro's type name only appears in overflow errors and is an argument here.
  The \<open>wide\<close> build's \<open>Raw\<close> is an \<open>i128\<close>; its one function of its own, the split
  multiplication, is \<open>notional_wide\<close>.
\<close>

section \<open>Representation\<close>

type_synonym raw = int
type_synonym price = raw
type_synonym qty = raw
type_synonym money = raw
type_synonym unix_nanos = int

definition SCALE :: raw where "SCALE = 1000000000"

lemma SCALE_pos [simp]: "0 < SCALE" "0 \<le> SCALE" "SCALE \<noteq> 0" "0 < SCALE * SCALE"
  by (simp_all add: SCALE_def)

lemma SCALE_half: "SCALE sdiv 2 = 500000000"
  by (simp add: SCALE_def)

lemma SCALE_in_i64 [simp]: "in_i64 SCALE"
  by (simp add: SCALE_def int_range)

section \<open>The operations of the macro\<close>

definition from_units :: "string \<Rightarrow> raw \<Rightarrow> raw res" where
  "from_units nm units = ok_or (Overflow (nm @ ''::from_units'')) (checked64 (units * SCALE))"

definition checked_add :: "string \<Rightarrow> raw \<Rightarrow> raw \<Rightarrow> raw res" where
  "checked_add nm a b = ok_or (Overflow (nm @ ''::add'')) (checked64 (a + b))"

definition checked_sub :: "string \<Rightarrow> raw \<Rightarrow> raw \<Rightarrow> raw res" where
  "checked_sub nm a b = ok_or (Overflow (nm @ ''::sub'')) (checked64 (a - b))"

definition fixed_abs :: "raw \<Rightarrow> raw" where
  "fixed_abs a = wrap64 \<bar>a\<bar>"

definition fixed_neg :: "raw \<Rightarrow> raw" where
  "fixed_neg a = wrap64 (- a)"

abbreviation money_add :: "money \<Rightarrow> money \<Rightarrow> money res" where
  "money_add \<equiv> checked_add ''Money''"

abbreviation money_sub :: "money \<Rightarrow> money \<Rightarrow> money res" where
  "money_sub \<equiv> checked_sub ''Money''"

abbreviation qty_add :: "qty \<Rightarrow> qty \<Rightarrow> qty res" where
  "qty_add \<equiv> checked_add ''Qty''"

lemma from_units_Inr_iff [result_simps]:
  "from_units nm u = Inr r \<longleftrightarrow> in_i64 (u * SCALE) \<and> r = u * SCALE"
  by (auto simp: from_units_def result_simps)

lemma checked_add_Inr_iff [result_simps]:
  "checked_add nm a b = Inr c \<longleftrightarrow> in_i64 (a + b) \<and> c = a + b"
  by (auto simp: checked_add_def result_simps)

lemma checked_sub_Inr_iff [result_simps]:
  "checked_sub nm a b = Inr c \<longleftrightarrow> in_i64 (a - b) \<and> c = a - b"
  by (auto simp: checked_sub_def result_simps)

lemma fixed_abs_eq: "in_i64 a \<Longrightarrow> a \<noteq> i64_min \<Longrightarrow> fixed_abs a = \<bar>a\<bar>"
  unfolding fixed_abs_def by (intro wrap64_id) (auto simp: int_range abs_le_iff)

text \<open>Summing a list with \<open>checked_add\<close>, as every total of the crate is computed.\<close>

lemma fold_checked_add:
  assumes "fold_r (\<lambda>t x. checked_add nm t (g x)) t0 xs = Inr t"
  shows "t = t0 + sum_list (map g xs)"
  using assms by (induction xs arbitrary: t0) (force simp: result_simps add.assoc)+

section \<open>Narrowing and products\<close>

definition narrow :: "int \<Rightarrow> string \<Rightarrow> raw res" where
  "narrow v what = ok_or (Overflow what) (checked64 v)"

lemma narrow_Inr_iff [result_simps]: "narrow v what = Inr r \<longleftrightarrow> in_i64 v \<and> r = v"
  by (auto simp: narrow_def result_simps)

lemma narrow_ok [simp]: "in_i64 v \<Longrightarrow> narrow v what = Inr v"
  by (simp add: result_simps)

definition notional :: "price \<Rightarrow> qty \<Rightarrow> money res" where
  "notional price qty =
     (let product = price * qty;
          rounded = (if product \<ge> 0 then (product + SCALE sdiv 2) sdiv SCALE
                     else (product - SCALE sdiv 2) sdiv SCALE)
      in narrow rounded ''notional'')"

definition notional_wide :: "price \<Rightarrow> qty \<Rightarrow> money res" where
  "notional_wide a b =
     (let aw = a sdiv SCALE; ar = a smod SCALE;
          bw = b sdiv SCALE; br = b smod SCALE;
          err = Overflow ''notional''
      in and_then (ok_or err (Option.bind (checked128 (aw * bw)) (\<lambda>v. checked128 (v * SCALE))))
           (\<lambda>whole.
         and_then (ok_or err (Option.bind (checked128 (aw * br))
                     (\<lambda>v. Option.bind (checked128 (ar * bw)) (\<lambda>w. checked128 (v + w)))))
           (\<lambda>cross.
         and_then (ok_or err (checked128 (whole + cross)))
           (\<lambda>total.
         let fine = ar * br;
             rounded = (if fine \<ge> 0 then (fine + SCALE sdiv 2) sdiv SCALE
                        else (fine - SCALE sdiv 2) sdiv SCALE)
         in ok_or err (checked128 (total + rounded))))))"

lemma notional_eq: "notional p q = narrow (round_div (p * q) SCALE) ''notional''"
  by (simp add: notional_def round_div_def Let_def)

lemma notional_Inr_iff [result_simps]:
  "notional p q = Inr m \<longleftrightarrow> in_i64 (round_div (p * q) SCALE) \<and> m = round_div (p * q) SCALE"
  by (simp add: notional_eq result_simps)

lemma notional_nonneg: "notional p q = Inr m \<Longrightarrow> 0 \<le> p * q \<Longrightarrow> 0 \<le> m"
  by (auto simp: result_simps round_div_sign)

lemma notional_nonpos: "notional p q = Inr m \<Longrightarrow> p * q \<le> 0 \<Longrightarrow> m \<le> 0"
  by (auto simp: result_simps round_div_sign)

lemma notional_in_i64: "notional p q = Inr m \<Longrightarrow> in_i64 m"
  by (simp add: result_simps)

text \<open>
  The intermediate values of the default build fit the \<open>i128\<close> they are computed in, so leaving
  them as mathematical integers loses nothing.
\<close>

lemma notional_intermediates_fit:
  assumes "in_i64 p" and "in_i64 q"
  shows "in_i128 (p * q + 500000000)" and "in_i128 (p * q - 500000000)"
  using i64_product_in_i128 [OF assms] by (auto simp: int_range abs_le_iff)

lemma notional_total:
  assumes "\<bar>p * q\<bar> \<le> 9223372036854775807 * SCALE"
  shows "notional p q = Inr (round_div (p * q) SCALE)"
proof -
  have "round_div (p * q) SCALE \<le> round_div (9223372036854775807 * SCALE) SCALE"
    using assms by (intro round_div_mono) auto
  moreover have "round_div (- 9223372036854775807 * SCALE) SCALE \<le> round_div (p * q) SCALE"
    using assms by (intro round_div_mono) auto
  ultimately have "in_i64 (round_div (p * q) SCALE)"
    unfolding round_div_multiple [OF SCALE_pos(1)] by (simp add: int_range)
  then show ?thesis by (simp add: notional_eq)
qed

subsection \<open>The split multiplication of the wide build\<close>

lemma split_product:
  fixes a b S :: int
  assumes "0 < S"
  defines "A \<equiv> \<bar>a\<bar>" and "B \<equiv> \<bar>b\<bar>" and "s \<equiv> sgn a * sgn b"
  shows "a sdiv S * (b sdiv S) = s * (A div S * (B div S))"
    and "a sdiv S * (b smod S) = s * (A div S * (B mod S))"
    and "a smod S * (b sdiv S) = s * (A mod S * (B div S))"
    and "a smod S * (b smod S) = s * (A mod S * (B mod S))"
    and "a * b = s * (A * B)"
  using assms
  by (simp_all add: signed_divide_int_def signed_modulo_int_def mult_sgn_abs)
     (metis mult.assoc mult.commute sgn_mult abs_mult mult_sgn_abs)

lemma in_i128_shrink:
  assumes "in_i128 (s * y)" and "0 \<le> x" and "x \<le> y" and "s = -1 \<or> s = 0 \<or> s = 1"
  shows "in_i128 (s * x)"
  using assms by (auto simp: int_range)

lemma round_div_sign_factor:
  "s = -1 \<or> s = 0 \<or> s = 1 \<Longrightarrow> round_div (s * x) SCALE = s * round_div x SCALE"
  using round_div_multiple [of SCALE 0] by (auto simp: round_div_minus)

lemma round_div_split:
  assumes "0 \<le> A" and "0 \<le> B"
  shows "round_div (A * B) SCALE =
    A div SCALE * (B div SCALE) * SCALE + (A div SCALE * (B mod SCALE) + A mod SCALE * (B div SCALE))
      + round_div (A mod SCALE * (B mod SCALE)) SCALE"
proof -
  define K where "K = A div SCALE * (B div SCALE) * SCALE
    + (A div SCALE * (B mod SCALE) + A mod SCALE * (B div SCALE))"
  have "A * B = (A div SCALE * SCALE + A mod SCALE) * (B div SCALE * SCALE + B mod SCALE)"
    by simp
  also have "\<dots> = K * SCALE + A mod SCALE * (B mod SCALE)"
    by (simp only: K_def algebra_simps)
  finally have eq: "A * B = K * SCALE + A mod SCALE * (B mod SCALE)" .
  have "0 \<le> K" using assms by (simp add: K_def pos_imp_zdiv_nonneg_iff)
  then show ?thesis
    unfolding eq by (subst round_div_add_multiple) (simp_all add: K_def)
qed

lemma notional_wide_eq:
  "notional_wide a b = ok_or (Overflow ''notional'') (checked128 (round_div (a * b) SCALE))"
proof -
  define A B s where "A = \<bar>a\<bar>" and "B = \<bar>b\<bar>" and "s = sgn a * sgn b"
  note sp = split_product [OF SCALE_pos(1), of a b, folded A_def B_def s_def]
  have s: "s = -1 \<or> s = 0 \<or> s = 1" by (auto simp: s_def sgn_if)
  define w c1 c2 f where "w = A div SCALE * (B div SCALE)" and "c1 = A div SCALE * (B mod SCALE)"
    and "c2 = A mod SCALE * (B div SCALE)" and "f = A mod SCALE * (B mod SCALE)"
  define R where "R = w * SCALE + (c1 + c2) + round_div f SCALE"
  have AB: "0 \<le> A" "0 \<le> B" by (simp_all add: A_def B_def)
  then have nn: "0 \<le> w" "0 \<le> c1" "0 \<le> c2" "0 \<le> f"
    by (simp_all add: w_def c1_def c2_def f_def pos_imp_zdiv_nonneg_iff)
  then have rf: "0 \<le> round_div f SCALE" by (intro round_div_sign) simp_all
  have R: "round_div (a * b) SCALE = s * R"
    unfolding sp(5) round_div_sign_factor [OF s]
    by (simp add: R_def w_def c1_def c2_def f_def round_div_split [OF AB])
  have wS: "w \<le> w * SCALE" using nn by (simp add: SCALE_def)
  have fine: "(if s * f \<ge> 0 then (s * f + SCALE sdiv 2) sdiv SCALE
      else (s * f - SCALE sdiv 2) sdiv SCALE) = s * round_div f SCALE"
    unfolding round_div_sign_factor [OF s, symmetric] by (simp add: round_div_def)
  have shrink: "in_i128 (s * x)" if "in_i128 (s * R)" "0 \<le> x" "x \<le> R" for x
    using in_i128_shrink [OF that s] .
  have small: "w \<le> R" "w * SCALE \<le> R" "c1 \<le> R" "c2 \<le> R" "c1 + c2 \<le> R" "w * SCALE + (c1 + c2) \<le> R"
    using nn rf wS by (simp_all add: R_def)
  have total: "s * w * SCALE + (s * c1 + s * c2) + s * round_div f SCALE = s * R"
    by (simp add: R_def distrib_left mult.assoc)
  have unfolded: "notional_wide a b =
      and_then (ok_or (Overflow ''notional'')
          (Option.bind (checked128 (s * w)) (\<lambda>v. checked128 (v * SCALE)))) (\<lambda>whole.
      and_then (ok_or (Overflow ''notional'') (Option.bind (checked128 (s * c1))
          (\<lambda>v. Option.bind (checked128 (s * c2)) (\<lambda>u. checked128 (v + u))))) (\<lambda>cross.
      and_then (ok_or (Overflow ''notional'') (checked128 (whole + cross))) (\<lambda>t.
      ok_or (Overflow ''notional'') (checked128 (t + s * round_div f SCALE)))))"
    unfolding notional_wide_def Let_def sp(1-4) w_def [symmetric] c1_def [symmetric]
      c2_def [symmetric] f_def [symmetric] fine ..
  show ?thesis
  proof (cases "in_i128 (s * R)")
    case True
    then have "in_i128 (s * w)" "in_i128 (s * w * SCALE)" "in_i128 (s * c1)" "in_i128 (s * c2)"
      "in_i128 (s * c1 + s * c2)" "in_i128 (s * w * SCALE + (s * c1 + s * c2))"
      using shrink [OF True, of w] shrink [OF True, of "w * SCALE"] shrink [OF True, of c1]
        shrink [OF True, of c2] shrink [OF True, of "c1 + c2"]
        shrink [OF True, of "w * SCALE + (c1 + c2)"] small nn
      by (simp_all add: distrib_left mult.assoc)
    with True show ?thesis
      unfolding unfolded R by (simp add: checked128_def total)
  next
    case False
    then show ?thesis
      unfolding unfolded R by (simp add: checked128_def total)
  qed
qed

section \<open>Probabilities\<close>

definition PROBABILITY_MIN :: price where "PROBABILITY_MIN = 0"
definition PROBABILITY_MAX :: price where "PROBABILITY_MAX = SCALE"

definition complement :: "price \<Rightarrow> price res" where
  "complement p = checked_sub ''Price'' PROBABILITY_MAX p"

lemma complement_Inr_iff [result_simps]:
  "complement p = Inr r \<longleftrightarrow> in_i64 (SCALE - p) \<and> r = SCALE - p"
  by (simp add: complement_def PROBABILITY_MAX_def result_simps)

lemma complement_probability:
  assumes "0 \<le> p" and "p \<le> SCALE"
  shows "complement p = Inr (SCALE - p)"
  using assms by (simp add: result_simps SCALE_def int_range)

section \<open>Timestamps\<close>

definition checked_add_nanos :: "unix_nanos \<Rightarrow> int \<Rightarrow> unix_nanos res" where
  "checked_add_nanos t nanos = ok_or (Overflow ''UnixNanos'') (checked64 (t + nanos))"

lemma checked_add_nanos_Inr_iff [result_simps]:
  "checked_add_nanos t n = Inr u \<longleftrightarrow> in_i64 (t + n) \<and> u = t + n"
  by (auto simp: checked_add_nanos_def result_simps)

record stamps =
  ts_event :: unix_nanos
  ts_init :: unix_nanos

definition stamps_new :: "unix_nanos \<Rightarrow> unix_nanos \<Rightarrow> stamps res" where
  "stamps_new event init =
     (if init < event then Inl (CausalityViolation event init)
      else Inr \<lparr>ts_event = event, ts_init = init\<rparr>)"

definition stamps_immediate :: "unix_nanos \<Rightarrow> stamps" where
  "stamps_immediate ts = \<lparr>ts_event = ts, ts_init = ts\<rparr>"

definition delay_nanos :: "stamps \<Rightarrow> int" where
  "delay_nanos s = sat64 (ts_init s - ts_event s)"

lemma stamps_causal: "stamps_new e i = Inr s \<Longrightarrow> ts_event s \<le> ts_init s \<and> 0 \<le> delay_nanos s"
  by (auto simp: stamps_new_def delay_nanos_def sat64_def int_range split: if_splits)

section \<open>Sides\<close>

datatype side = Buy | Sell

fun opposite :: "side \<Rightarrow> side" where
  "opposite Buy = Sell"
| "opposite Sell = Buy"

fun signum :: "side \<Rightarrow> int" where
  "signum Buy = 1"
| "signum Sell = -1"

fun side_as_str :: "side \<Rightarrow> string" where
  "side_as_str Buy = ''buy''"
| "side_as_str Sell = ''sell''"

definition to_ascii_lowercase :: "string \<Rightarrow> string" where
  "to_ascii_lowercase =
     map (\<lambda>c. if CHR ''A'' \<le> c \<and> c \<le> CHR ''Z'' then char_of (of_char c + (32::nat)) else c)"

definition side_parse :: "string \<Rightarrow> side res" where
  "side_parse txt =
     (let t = to_ascii_lowercase txt
      in if t \<in> {''buy'', ''bid'', ''b''} then Inr Buy
         else if t \<in> {''sell'', ''ask'', ''offer'', ''s'', ''a''} then Inr Sell
         else Inl (Parse ''side'' t))"

lemma side_parse_as_str: "side_parse (side_as_str s) = Inr s"
proof (cases s)
  case Buy
  show ?thesis unfolding Buy by code_simp
next
  case Sell
  show ?thesis unfolding Sell by code_simp
qed

section \<open>Correctness of the products\<close>

text \<open>
  The specification of rounding: the multiple of \<open>d\<close> nearest to \<open>x\<close>, the one further from zero
  when \<open>x\<close> lies half way between two.
\<close>

definition nearest_away :: "int \<Rightarrow> int \<Rightarrow> int \<Rightarrow> bool" where
  "nearest_away x d m \<longleftrightarrow>
     2 * \<bar>m * d - x\<bar> \<le> d \<and> (2 * \<bar>m * d - x\<bar> = d \<longrightarrow> \<bar>x\<bar> < \<bar>m * d\<bar>)"

lemma nearest_away_minus: "nearest_away (- x) d (- m) = nearest_away x d m"
  by (simp add: nearest_away_def abs_minus_commute)

lemma round_div_tie:
  assumes "0 < d" and "0 \<le> x" and tie: "2 * \<bar>round_div x d * d - x\<bar> = d"
  shows "x < round_div x d * d"
proof -
  define h where "h = d div 2"
  define r where "r = (x + h) mod d"
  have eq: "round_div x d * d = x + h - r"
    using assms by (simp add: round_div_nonneg h_def r_def minus_mod_eq_div_mult [symmetric])
  have "0 \<le> r" "r < d" using assms(1) by (simp_all add: r_def)
  moreover have "2 * h \<le> d" "d \<le> 2 * h + 1" unfolding h_def by presburger+
  moreover have "2 * \<bar>h - r\<bar> = d" using tie eq by simp
  ultimately have "r < h" using assms(1) by presburger
  with eq show ?thesis by simp
qed

lemma nearest_away_round_div:
  assumes "0 < d"
  shows "nearest_away x d (round_div x d)"
proof -
  have pos: "nearest_away y d (round_div y d)" if "0 \<le> y" for y
    using round_div_nearest [OF assms, of y] round_div_tie [OF assms that] that
    by (auto simp: nearest_away_def)
  show ?thesis
  proof (cases "0 \<le> x")
    case True
    then show ?thesis by (rule pos)
  next
    case False
    then have "nearest_away (- x) d (round_div (- x) d)" by (intro pos) simp
    then show ?thesis by (simp add: round_div_minus nearest_away_minus)
  qed
qed

lemma nearest_away_step:
  assumes "0 < d" and "nearest_away x d m" and "nearest_away x d (m + 1)"
  shows False
proof -
  define P where "P = m * d"
  have near: "2 * \<bar>P - x\<bar> \<le> d" "2 * \<bar>P + d - x\<bar> \<le> d"
    using assms by (simp_all add: nearest_away_def P_def distrib_right)
  then have tie: "2 * (x - P) = d" using assms(1) by presburger
  then have "2 * \<bar>P - x\<bar> = d" "2 * \<bar>P + d - x\<bar> = d" using assms(1) by presburger+
  then have away: "\<bar>x\<bar> < \<bar>P\<bar>" "\<bar>x\<bar> < \<bar>P + d\<bar>"
    using assms by (simp_all add: nearest_away_def P_def distrib_right)
  show False
  proof (cases "0 \<le> m")
    case True
    then have "0 \<le> P" using assms(1) by (simp add: P_def)
    with away tie assms(1) show False by simp
  next
    case False
    then have "P \<le> (- 1) * d"
      unfolding P_def using assms(1) by (intro mult_right_mono) auto
    with away tie assms(1) show False by simp
  qed
qed

lemma close_to_same: "2 * \<bar>a - x\<bar> \<le> d \<Longrightarrow> 2 * \<bar>b - x\<bar> \<le> d \<Longrightarrow> \<bar>a - b\<bar> \<le> (d::int)"
  using abs_triangle_ineq4 [of "a - x" "b - x"] by simp

lemma nearest_away_iff:
  assumes "0 < d"
  shows "nearest_away x d m \<longleftrightarrow> m = round_div x d"
proof
  assume m: "nearest_away x d m"
  define r where "r = round_div x d"
  have r: "nearest_away x d r" using nearest_away_round_div [OF assms] by (simp add: r_def)
  have "\<bar>m * d - r * d\<bar> \<le> d"
    using m r by (intro close_to_same [of _ x]) (simp_all add: nearest_away_def)
  then have "\<bar>m - r\<bar> * d \<le> 1 * d"
    using assms by (simp add: left_diff_distrib [symmetric] abs_mult)
  then have "\<bar>m - r\<bar> \<le> 1" using assms by (simp only: mult_le_cancel_right)
  then consider "m = r" | "m = r + 1" | "r = m + 1" by fastforce
  then show "m = round_div x d"
    using nearest_away_step [OF assms] m r by cases (auto simp: r_def)
next
  assume "m = round_div x d"
  then show "nearest_away x d m" using nearest_away_round_div [OF assms] by simp
qed

text \<open>
  C14: \<open>notional\<close> multiplies a price by a quantity exactly and rounds once: it succeeds with \<open>m\<close>
  precisely when \<open>m\<close> is the \<open>i64\<close> nearest to the real product, ties going away from zero, and
  otherwise reports an overflow instead of wrapping.
\<close>

theorem notional_spec:
  "(notional p q = Inr m \<longleftrightarrow> in_i64 m \<and> nearest_away (p * q) SCALE m)
    \<and> (notional p q = Inl (Overflow ''notional'') \<longleftrightarrow> (\<nexists>m. in_i64 m \<and> nearest_away (p * q) SCALE m))"
  by (auto simp: notional_eq narrow_def checked64_def nearest_away_iff)

text \<open>
  C32: the \<open>wide\<close> build's split multiplication, which never forms the full product, agrees with the
  exact product rounded half away from zero over the whole range of \<open>i128\<close>: no partial product
  overflows unless the result itself does.
\<close>

theorem notional_wide_spec:
  "(notional_wide p q = Inr m \<longleftrightarrow> in_i128 m \<and> nearest_away (p * q) SCALE m)
    \<and> (notional_wide p q = Inl (Overflow ''notional'')
        \<longleftrightarrow> (\<nexists>m. in_i128 m \<and> nearest_away (p * q) SCALE m))"
  by (auto simp: notional_wide_eq checked128_def nearest_away_iff)

end
