(* ===== verification/Containers.thy ===== *)
theory Containers
  imports Prelude "HOL-Library.Multiset"
begin

text \<open>
  The two ordered containers of the Rust standard library that the program relies on for its
  determinism. A \<open>BTreeMap\<close> is an association list with strictly increasing keys, so that
  iterating the list is iterating the map in key order; a \<open>BinaryHeap<Reverse<_>>\<close> is a list
  sorted by key whose head is the next element to be popped. Each comes with the interface its
  clients use, as a locale, and the interpretation of that locale on the list representation.
\<close>

section \<open>Ordered maps\<close>

type_synonym ('k, 'v) btree_map = "('k \<times> 'v) list"

fun bt_insert :: "'k::linorder \<Rightarrow> 'v \<Rightarrow> ('k, 'v) btree_map \<Rightarrow> ('k, 'v) btree_map" where
  "bt_insert k v [] = [(k, v)]"
| "bt_insert k v (e # m) =
     (if k < fst e then (k, v) # e # m
      else if fst e < k then e # bt_insert k v m
      else (k, v) # m)"

definition bt_remove :: "'k \<Rightarrow> ('k, 'v) btree_map \<Rightarrow> ('k, 'v) btree_map" where
  "bt_remove k m = filter (\<lambda>e. fst e \<noteq> k) m"

definition bt_wf :: "('k::linorder, 'v) btree_map \<Rightarrow> bool" where
  "bt_wf m = sorted_wrt (<) (map fst m)"

abbreviation bt_get :: "('k, 'v) btree_map \<Rightarrow> 'k \<Rightarrow> 'v option" where
  "bt_get m \<equiv> map_of m"

abbreviation bt_keys :: "('k, 'v) btree_map \<Rightarrow> 'k list" where
  "bt_keys m \<equiv> map fst m"

lemma bt_wf_simps [simp]:
  "bt_wf []"
  "bt_wf (e # m) \<longleftrightarrow> (\<forall>k \<in> set (bt_keys m). fst e < k) \<and> bt_wf m"
  by (auto simp: bt_wf_def)

lemma bt_wf_distinct: "bt_wf m \<Longrightarrow> distinct (bt_keys m)"
  by (simp add: bt_wf_def strict_sorted_iff)

lemma set_keys_insert: "set (bt_keys (bt_insert k v m)) = insert k (set (bt_keys m))"
  by (induction k v m rule: bt_insert.induct) auto

lemma ball_keys_insert:
  "(\<forall>e \<in> set (bt_insert k v m). P (fst e)) \<longleftrightarrow> P k \<and> (\<forall>e \<in> set m. P (fst e))"
  by (induction k v m rule: bt_insert.induct) (auto simp: not_less_iff_gr_or_eq)

lemma bt_wf_insert: "bt_wf m \<Longrightarrow> bt_wf (bt_insert k v m)"
proof (induction k v m rule: bt_insert.induct)
  case (1 k v)
  then show ?case by simp
next
  case (2 k v e m)
  show ?case
  proof (cases "fst e < k")
    case True
    with 2 have "bt_wf (bt_insert k v m)" by auto
    with True 2(2) show ?thesis by (auto simp: ball_keys_insert)
  next
    case False
    with 2(2) show ?thesis by (auto intro: less_trans)
  qed
qed

lemma bt_get_insert:
  "bt_wf m \<Longrightarrow> bt_get (bt_insert k v m) k' = (if k' = k then Some v else bt_get m k')"
  by (induction k v m rule: bt_insert.induct) auto

lemma bt_get_remove: "bt_get (bt_remove k m) k' = (if k' = k then None else bt_get m k')"
  by (induction m) (auto simp: bt_remove_def)

lemma bt_wf_remove: "bt_wf m \<Longrightarrow> bt_wf (bt_remove k m)"
  by (induction m) (auto simp: bt_remove_def)

lemma bt_get_keys: "bt_get m k \<noteq> None \<longleftrightarrow> k \<in> set (bt_keys m)"
  by (simp add: map_of_eq_None_iff)

text \<open>What a client of an ordered map may rely on.\<close>

locale ordered_map =
  fixes empty :: 'm
    and insert :: "'k::linorder \<Rightarrow> 'v \<Rightarrow> 'm \<Rightarrow> 'm"
    and remove :: "'k \<Rightarrow> 'm \<Rightarrow> 'm"
    and get :: "'m \<Rightarrow> 'k \<Rightarrow> 'v option"
    and keys :: "'m \<Rightarrow> 'k list"
    and wf :: "'m \<Rightarrow> bool"
  assumes get_empty: "get empty k = None"
    and get_insert: "wf m \<Longrightarrow> get (insert k v m) k' = (if k' = k then Some v else get m k')"
    and get_remove: "wf m \<Longrightarrow> get (remove k m) k' = (if k' = k then None else get m k')"
    and wf_empty: "wf empty"
    and wf_insert: "wf m \<Longrightarrow> wf (insert k v m)"
    and wf_remove: "wf m \<Longrightarrow> wf (remove k m)"
    and keys_sorted: "wf m \<Longrightarrow> sorted_wrt (<) (keys m)"
    and keys_get: "wf m \<Longrightarrow> k \<in> set (keys m) \<longleftrightarrow> get m k \<noteq> None"
begin

lemma keys_by_content: "wf m \<Longrightarrow> wf n \<Longrightarrow> get m = get n \<Longrightarrow> keys m = keys n"
  by (rule strict_sorted_equal) (auto simp: keys_sorted keys_get)

lemma insert_commute:
  assumes "wf m" and "k \<noteq> k'"
  shows "keys (insert k v (insert k' v' m)) = keys (insert k' v' (insert k v m))"
    and "get (insert k v (insert k' v' m)) = get (insert k' v' (insert k v m))"
  using assms
  by (auto intro!: keys_by_content ext simp: wf_insert get_insert)

definition insert_all :: "('k \<times> 'v) list \<Rightarrow> 'm \<Rightarrow> 'm" where
  "insert_all es m = fold (\<lambda>e. insert (fst e) (snd e)) es m"

lemma wf_insert_all: "wf m \<Longrightarrow> wf (insert_all es m)"
  by (induction es arbitrary: m) (auto simp: insert_all_def wf_insert)

lemma get_insert_all:
  "wf m \<Longrightarrow> get (insert_all es m) k = (case map_of (rev es) k of None \<Rightarrow> get m k | Some v \<Rightarrow> Some v)"
proof (induction es arbitrary: m)
  case Nil
  then show ?case by (simp add: insert_all_def)
next
  case (Cons e es)
  have "insert_all (e # es) m = insert_all es (insert (fst e) (snd e) m)"
    by (simp add: insert_all_def)
  with Cons show ?case
    by (cases e) (auto simp: wf_insert get_insert map_add_def split: option.splits)
qed

text \<open>
  The content of a map filled from a list depends on the list's last binding of each key only,
  so its iteration order is independent of the order of the insertions.
\<close>

lemma insert_all_order_irrelevant:
  assumes "map_of (rev es) = map_of (rev fs)"
  shows "keys (insert_all es empty) = keys (insert_all fs empty)"
  using assms
  by (intro keys_by_content) (auto simp: wf_insert_all wf_empty get_insert_all)

end

interpretation bt: ordered_map "[]" bt_insert bt_remove bt_get bt_keys bt_wf
proof
  show "sorted_wrt (<) (bt_keys m)" if "bt_wf m" for m :: "('k::linorder, 'v) btree_map"
    using that by (simp add: bt_wf_def)
  show "k \<in> set (bt_keys m) \<longleftrightarrow> bt_get m k \<noteq> None" for m :: "('k::linorder, 'v) btree_map" and k
    by (simp only: bt_get_keys)
qed (simp_all add: bt_get_insert bt_get_remove bt_wf_insert bt_wf_remove)

lemma bt_eqI:
  fixes m n :: "('k::linorder, 'v) btree_map"
  assumes "bt_wf m" and "bt_wf n" and "bt_get m = bt_get n"
  shows "m = n"
proof -
  have "set m = set n"
    using assms by (simp add: bt_wf_distinct map_of_inject_set)
  moreover have "bt_keys m = bt_keys n"
    using assms by (rule bt.keys_by_content)
  ultimately show ?thesis
    using assms(1) by (intro map_inj_on [of fst m n]) (auto dest: bt_wf_distinct simp: distinct_map)
qed

lemma bt_mem_iff: "bt_wf m \<Longrightarrow> (k, v) \<in> set m \<longleftrightarrow> bt_get m k = Some v"
  by (simp add: bt_wf_distinct map_of_eq_Some_iff)

lemma bt_values_insert:
  "bt_wf m \<Longrightarrow> e \<in> set (bt_insert k v m) \<Longrightarrow> e = (k, v) \<or> e \<in> set m"
  by (cases e) (auto simp: bt_mem_iff bt_wf_insert bt_get_insert split: if_splits)

lemma bt_values_remove: "e \<in> set (bt_remove k m) \<Longrightarrow> e \<in> set m"
  by (simp add: bt_remove_def)

lemma bt_insert_nonempty [simp]: "bt_insert k v m \<noteq> []"
  by (cases m) auto

lemma bt_wf_last_max:
  "bt_wf m \<Longrightarrow> m \<noteq> [] \<Longrightarrow> k \<in> set (bt_keys m) \<Longrightarrow> k \<le> fst (last m)"
  by (induction m) (auto simp: less_imp_le)

lemma bt_wf_hd_min:
  "bt_wf m \<Longrightarrow> m \<noteq> [] \<Longrightarrow> k \<in> set (bt_keys m) \<Longrightarrow> fst (hd m) \<le> k"
  by (cases m) (auto simp: less_imp_le)

section \<open>Priority queues\<close>

definition pq_push :: "('a \<Rightarrow> 'k::linorder) \<Rightarrow> 'a \<Rightarrow> 'a list \<Rightarrow> 'a list" where
  "pq_push f x q = insort_key f x q"

definition pq_pop :: "'a list \<Rightarrow> ('a \<times> 'a list) option" where
  "pq_pop q = (case q of [] \<Rightarrow> None | x # xs \<Rightarrow> Some (x, xs))"

definition pq_peek :: "'a list \<Rightarrow> 'a option" where
  "pq_peek q = map_option fst (pq_pop q)"

definition pq_wf :: "('a \<Rightarrow> 'k::linorder) \<Rightarrow> 'a list \<Rightarrow> bool" where
  "pq_wf f q = sorted (map f q)"

lemma pq_pop_simps [simp]: "pq_pop [] = None" "pq_pop (x # xs) = Some (x, xs)"
  by (simp_all add: pq_pop_def)

lemma pq_peek_simps [simp]: "pq_peek [] = None" "pq_peek (x # xs) = Some x"
  by (simp_all add: pq_peek_def)

lemma pq_wf_simps [simp]:
  "pq_wf f []"
  "pq_wf f (x # xs) \<longleftrightarrow> (\<forall>y \<in> set xs. f x \<le> f y) \<and> pq_wf f xs"
  by (auto simp: pq_wf_def)

lemma pq_wf_push [simp]: "pq_wf f (pq_push f x q) = pq_wf f q"
  by (simp add: pq_wf_def pq_push_def sorted_insort_key)

lemma set_pq_push [simp]: "set (pq_push f x q) = insert x (set q)"
  by (simp add: pq_push_def set_insort_key)

lemma distinct_pq_push [simp]: "distinct (pq_push f x q) \<longleftrightarrow> x \<notin> set q \<and> distinct q"
  by (simp add: pq_push_def distinct_insort)

lemma length_pq_push [simp]: "length (pq_push f x q) = Suc (length q)"
  by (simp add: pq_push_def)

lemma mset_pq_push [simp]: "mset (pq_push f x q) = add_mset x (mset q)"
  by (simp add: pq_push_def)

lemma sum_list_pq_push:
  "sum_list (map g (pq_push f x q)) = g x + (sum_list (map g q) :: 'b::comm_monoid_add)"
  unfolding pq_push_def by (induction q) (simp_all add: ac_simps)

text \<open>What a client of a min-heap may rely on.\<close>

locale min_heap =
  fixes key :: "'a \<Rightarrow> 'k::linorder"
    and push :: "'a \<Rightarrow> 'q \<Rightarrow> 'q"
    and pop :: "'q \<Rightarrow> ('a \<times> 'q) option"
    and elems :: "'q \<Rightarrow> 'a multiset"
    and wf :: "'q \<Rightarrow> bool"
  assumes elems_push: "elems (push x q) = add_mset x (elems q)"
    and pop_None: "pop q = None \<longleftrightarrow> elems q = {#}"
    and pop_elems: "pop q = Some (x, q') \<Longrightarrow> elems q = add_mset x (elems q')"
    and pop_min: "wf q \<Longrightarrow> pop q = Some (x, q') \<Longrightarrow> y \<in># elems q' \<Longrightarrow> key x \<le> key y"
    and wf_push: "wf q \<Longrightarrow> wf (push x q)"
    and wf_pop: "wf q \<Longrightarrow> pop q = Some (x, q') \<Longrightarrow> wf q'"
begin

text \<open>
  Popping, possibly pushing an element with a key no smaller, and popping again never goes
  backwards: the step on which every replay and timer order below rests.
\<close>

lemma pop_push_pop_mono:
  assumes "wf q" and "pop q = Some (x, q1)" and "q2 = q1 \<or> (\<exists>y. q2 = push y q1 \<and> key x \<le> key y)"
    and "pop q2 = Some (z, q3)"
  shows "key x \<le> key z"
proof -
  have "z \<in># elems q2"
    using pop_elems [OF assms(4)] by simp
  then show ?thesis
    using assms(3) pop_min [OF assms(1,2)] by (auto simp: elems_push)
qed

lemma pop_is_least:
  assumes "wf q" and "pop q = Some (x, q')" and "y \<in># elems q"
  shows "key x \<le> key y"
  using assms pop_elems [OF assms(2)] pop_min [OF assms(1,2)] by auto

end

interpretation pq: min_heap f "pq_push f" pq_pop mset "pq_wf f" for f :: "'a \<Rightarrow> 'k::linorder"
  by unfold_locales (auto simp: pq_pop_def split: list.splits)

end
