(* ===== verification/Clock.thy ===== *)
theory Clock
  imports FixedPoint Containers
begin

text \<open>
  The replay clock and its timers (\<open>h5i-db-backtest/src/clock.rs\<close>). The binary heap of timers is
  a queue ordered by \<open>(at, name, sequence)\<close>; the loop of \<open>advance_to\<close> re-arms repeating timers
  with a saturating addition, so it is a partial function whose \<open>None\<close> is not returning, and
  when it returns is a theorem. The \<open>u64\<close> sequence counter is a natural number.
\<close>

section \<open>State\<close>

record time_event =
  te_name :: string
  scheduled_for :: unix_nanos
  te_sequence :: nat

record timer =
  t_at :: int
  t_name :: string
  t_sequence :: nat
  t_interval :: "int option"

record clock =
  now :: unix_nanos
  timers :: "timer list"
  clock_sequence :: nat

definition timer_key :: "timer \<Rightarrow> int \<times> string \<times> nat" where
  "timer_key t = (t_at t, t_name t, t_sequence t)"

definition event_key :: "time_event \<Rightarrow> int \<times> string \<times> nat" where
  "event_key e = (scheduled_for e, te_name e, te_sequence e)"

definition timer_event :: "timer \<Rightarrow> time_event" where
  "timer_event t = \<lparr>te_name = t_name t, scheduled_for = t_at t, te_sequence = t_sequence t\<rparr>"

lemma event_key_timer_event [simp]: "event_key (timer_event t) = timer_key t"
  by (simp add: event_key_def timer_event_def timer_key_def)

section \<open>Operations\<close>

definition clock_new :: "unix_nanos \<Rightarrow> clock" where
  "clock_new start = \<lparr>now = start, timers = [], clock_sequence = 0\<rparr>"

definition clock_push :: "clock \<Rightarrow> string \<Rightarrow> unix_nanos \<Rightarrow> int option \<Rightarrow> clock res" where
  "clock_push c name at interval =
     (if at < now c then invalid ''timer scheduled before now''
      else let sequence = clock_sequence c + 1
           in Inr (c\<lparr>clock_sequence := sequence,
                     timers := pq_push timer_key
                       \<lparr>t_at = at, t_name = name, t_sequence = sequence, t_interval = interval\<rparr>
                       (timers c)\<rparr>))"

definition set_timer :: "clock \<Rightarrow> string \<Rightarrow> unix_nanos \<Rightarrow> clock res" where
  "set_timer c name at = clock_push c name at None"

definition set_repeating :: "clock \<Rightarrow> string \<Rightarrow> unix_nanos \<Rightarrow> int \<Rightarrow> clock res" where
  "set_repeating c name start interval_nanos =
     (if interval_nanos \<le> 0 then invalid ''a repeating timer needs a positive interval''
      else clock_push c name start (Some interval_nanos))"

definition cancel_timer :: "clock \<Rightarrow> string \<Rightarrow> clock \<times> nat" where
  "cancel_timer c name =
     (let kept = filter (\<lambda>t. t_name t \<noteq> name) (timers c)
      in (c\<lparr>timers := kept\<rparr>, length (timers c) - length kept))"

definition pending :: "clock \<Rightarrow> nat" where
  "pending c = length (timers c)"

definition next_timer :: "clock \<Rightarrow> unix_nanos option" where
  "next_timer c = map_option t_at (pq_peek (timers c))"

text \<open>One iteration of the firing loop: pop the timer, read the clock at its time, re-arm it.\<close>

definition fire :: "clock \<Rightarrow> timer \<Rightarrow> timer list \<Rightarrow> clock" where
  "fire c t rest =
     (let c1 = c\<lparr>now := t_at t, timers := rest\<rparr>
      in case t_interval t of
           None \<Rightarrow> c1
         | Some interval \<Rightarrow>
             let next = sat64 (t_at t + interval); sequence = clock_sequence c1 + 1
             in c1\<lparr>clock_sequence := sequence,
                   timers := pq_push timer_key
                     \<lparr>t_at = next, t_name = t_name t, t_sequence = sequence,
                      t_interval = Some interval\<rparr> (timers c1)\<rparr>)"

partial_function (option) advance_loop ::
  "unix_nanos \<Rightarrow> clock \<Rightarrow> time_event list \<Rightarrow> (clock \<times> time_event list) option" where
  "advance_loop ts c fired =
     (case timers c of
        [] \<Rightarrow> Some (c, fired)
      | t # rest \<Rightarrow>
          if t_at t > ts then Some (c, fired)
          else advance_loop ts (fire c t rest) (fired @ [timer_event t]))"

definition advance_to :: "clock \<Rightarrow> unix_nanos \<Rightarrow> (clock \<times> time_event list) res option" where
  "advance_to c ts =
     (if ts < now c then Some (invalid ''clock cannot move backwards'')
      else map_option (\<lambda>(c', fired). Inr (c'\<lparr>now := ts\<rparr>, fired)) (advance_loop ts c []))"

section \<open>Well-formed clocks\<close>

definition clock_wf :: "clock \<Rightarrow> bool" where
  "clock_wf c \<longleftrightarrow> pq_wf timer_key (timers c)
     \<and> (\<forall>t \<in> set (timers c). now c \<le> t_at t \<and> in_i64 (t_at t) \<and> t_sequence t \<le> clock_sequence c
          \<and> (\<forall>i. t_interval t = Some i \<longrightarrow> 0 < i))
     \<and> distinct (map t_sequence (timers c))"

lemma clock_new_wf: "clock_wf (clock_new start)"
  by (simp add: clock_wf_def clock_new_def)

lemma distinct_push:
  "distinct (map g (pq_push f x q)) \<longleftrightarrow> g x \<notin> g ` set q \<and> distinct (map g q)"
  unfolding pq_push_def by (induction q) (auto simp: set_insort_key)

lemma clock_push_wf:
  assumes "clock_wf c" and "in_i64 at" and "\<And>i. interval = Some i \<Longrightarrow> 0 < i"
    and "clock_push c name at interval = Inr c'"
  shows "clock_wf c'"
  using assms unfolding clock_wf_def clock_push_def
  by (force simp: distinct_push Let_def split: if_splits)

lemma set_timer_wf: "clock_wf c \<Longrightarrow> in_i64 at \<Longrightarrow> set_timer c name at = Inr c' \<Longrightarrow> clock_wf c'"
  by (auto simp: set_timer_def intro: clock_push_wf)

lemma set_repeating_wf:
  "clock_wf c \<Longrightarrow> in_i64 at \<Longrightarrow> set_repeating c name at i = Inr c' \<Longrightarrow> clock_wf c'"
  by (rule clock_push_wf [of c at "Some i" name]) (auto simp: set_repeating_def split: if_splits)

lemma pq_wf_filter: "pq_wf f q \<Longrightarrow> pq_wf f (filter P q)"
  by (induction q) auto

lemma cancel_timer_wf: "clock_wf c \<Longrightarrow> clock_wf (fst (cancel_timer c name))"
  by (auto simp: clock_wf_def cancel_timer_def Let_def pq_wf_filter distinct_map_filter)

lemma cancel_timer_count:
  "cancel_timer c name = (c', n) \<Longrightarrow> pending c = pending c' + n
     \<and> (\<forall>t \<in> set (timers c'). t_name t \<noteq> name)"
  by (auto simp: cancel_timer_def pending_def Let_def)

text \<open>Firing the least timer keeps the clock well formed and never moves it past what remains.\<close>

lemma fire_wf:
  assumes "clock_wf c" and "timers c = t # rest"
  shows "clock_wf (fire c t rest)"
proof -
  have "now c \<le> t_at t" "in_i64 (t_at t)" "\<And>i. t_interval t = Some i \<Longrightarrow> 0 < i"
    and le: "\<And>u. u \<in> set rest \<Longrightarrow> t_at t \<le> t_at u"
    using assms by (auto simp: clock_wf_def timer_key_def less_eq_prod_def)
  moreover have "t_at t \<le> sat64 (t_at t + i)" if "t_interval t = Some i" for i
    using calculation that by (auto simp: sat64_def int_range)
  ultimately show ?thesis
    using assms
    by (force simp: clock_wf_def fire_def Let_def distinct_push split: option.splits)
qed

lemma fire_timers:
  "u \<in> set (timers (fire c t rest)) \<Longrightarrow> u \<in> set rest \<or>
     (\<exists>i. t_interval t = Some i \<and> t_at u = sat64 (t_at t + i) \<and> t_name u = t_name t
        \<and> t_interval u = Some i)"
  by (auto simp: fire_def Let_def split: option.splits)

lemma fire_keys:
  assumes "clock_wf c" and "timers c = t # rest" and "t_at t < i64_max \<or> t_interval t = None"
    and "u \<in> set (timers (fire c t rest))"
  shows "timer_key t \<le> timer_key u"
  using fire_timers [OF assms(4)]
proof
  assume "u \<in> set rest"
  with assms(1,2) show ?thesis by (simp add: clock_wf_def)
next
  assume "\<exists>i. t_interval t = Some i \<and> t_at u = sat64 (t_at t + i) \<and> t_name u = t_name t
    \<and> t_interval u = Some i"
  moreover have "t_at t < sat64 (t_at t + i)" if "t_interval t = Some i" for i
    using assms(1-3) that by (auto simp: clock_wf_def sat64_def int_range)
  ultimately show ?thesis by (auto simp: timer_key_def less_eq_prod_def)
qed

text \<open>What the loop still has to fire, as a measure that every iteration decreases.\<close>

definition due_work :: "unix_nanos \<Rightarrow> clock \<Rightarrow> nat" where
  "due_work ts c = (\<Sum>t \<leftarrow> timers c. nat (ts - t_at t + 1))"

lemma fire_due_work:
  assumes "clock_wf c" and "timers c = t # rest" and "t_at t \<le> ts" and "ts < i64_max \<or> t_interval t = None"
  shows "due_work ts (fire c t rest) < due_work ts c"
proof (cases "t_interval t")
  case None
  with assms show ?thesis by (simp add: due_work_def fire_def)
next
  case (Some i)
  then have "0 < i" "ts < i64_max" "in_i64 (t_at t)" using assms by (auto simp: clock_wf_def)
  then have "nat (ts - sat64 (t_at t + i) + 1) < nat (ts - t_at t + 1)"
    using assms(3) by (auto simp: sat64_def int_range)
  then show ?thesis
    using Some assms(2) by (simp add: due_work_def fire_def Let_def sum_list_pq_push)
qed

definition only_finite_repeats :: "unix_nanos \<Rightarrow> clock \<Rightarrow> bool" where
  "only_finite_repeats ts c \<longleftrightarrow> ts < i64_max \<or> (\<forall>t \<in> set (timers c). t_interval t = None)"

lemma fire_only_finite:
  "only_finite_repeats ts c \<Longrightarrow> timers c = t # rest \<Longrightarrow> only_finite_repeats ts (fire c t rest)"
  by (auto simp: only_finite_repeats_def fire_def Let_def split: option.splits)

section \<open>What fires\<close>

text \<open>The instants at which a timer is due: once, or in steps of its interval.\<close>

definition due_at :: "timer \<Rightarrow> unix_nanos \<Rightarrow> bool" where
  "due_at t x \<longleftrightarrow> x = t_at t \<or> (\<exists>i k. t_interval t = Some i \<and> x = t_at t + int k * i)"

definition firings :: "clock \<Rightarrow> unix_nanos \<Rightarrow> (string \<times> unix_nanos) set" where
  "firings c ts = {(t_name t, x) | t x. t \<in> set (timers c) \<and> due_at t x \<and> x \<le> ts}"

lemma due_at_ge: "due_at t x \<Longrightarrow> (\<And>i. t_interval t = Some i \<Longrightarrow> 0 < i) \<Longrightarrow> t_at t \<le> x"
  by (auto simp: due_at_def)

lemma due_at_rearm:
  assumes "t_interval t = Some i" and "0 < i" and "in_i64 (t_at t)" and "ts < i64_max" and "x \<le> ts"
    and "t_at u = sat64 (t_at t + i)" and "t_interval u = Some i"
  shows "due_at t x \<longleftrightarrow> x = t_at t \<or> due_at u x"
proof (cases "t_at t + i \<le> i64_max")
  case True
  then have u: "t_at u = t_at t + i" using assms by (auto simp: sat64_def int_range)
  have "(\<exists>k. x = t_at t + int k * i) \<longleftrightarrow> x = t_at t \<or> (\<exists>k. x = t_at t + i + int k * i)"
  proof (intro iffI; (elim exE disjE)?)
    fix k assume k: "x = t_at t + int k * i"
    show "x = t_at t \<or> (\<exists>k. x = t_at t + i + int k * i)"
      using k by (cases k) (auto simp: algebra_simps intro: exI [of _ "k - 1"])
  next
    assume "x = t_at t"
    then show "\<exists>k. x = t_at t + int k * i" by (intro exI [of _ 0]) simp
  next
    fix k assume "x = t_at t + i + int k * i"
    then show "\<exists>k. x = t_at t + int k * i"
      by (intro exI [of _ "Suc k"]) (simp add: algebra_simps)
  qed
  moreover have "due_at u x \<longleftrightarrow> (\<exists>k. x = t_at t + i + int k * i)"
    using u assms(7) by (force simp: due_at_def intro: exI [of _ 0])
  ultimately show ?thesis
    using assms(1) by (auto simp: due_at_def)
next
  case False
  then have "t_at u = i64_max" using assms by (auto simp: sat64_def int_range)
  then have "\<not> due_at u x"
    using due_at_ge [of u x] assms by fastforce
  moreover have "x = t_at t" if "due_at t x"
  proof (rule ccontr)
    assume "x \<noteq> t_at t"
    with that assms(1) obtain k where k: "x = t_at t + int k * i" "k \<noteq> 0"
      by (auto simp: due_at_def)
    then have "1 * i \<le> int k * i" using assms(2) by (intro mult_right_mono) auto
    with k False assms(4,5) show False by simp
  qed
  ultimately show ?thesis by (auto simp: due_at_def)
qed

lemma firings_fire:
  assumes "clock_wf c" and "timers c = t # rest" and "t_at t \<le> ts"
    and "ts < i64_max \<or> t_interval t = None"
  shows "firings c ts = insert (t_name t, t_at t) (firings (fire c t rest) ts)"
proof (cases "t_interval t")
  case None
  with assms show ?thesis by (auto simp: firings_def fire_def due_at_def)
next
  case (Some i)
  define u where "u = \<lparr>t_at = sat64 (t_at t + i), t_name = t_name t,
    t_sequence = clock_sequence c + 1, t_interval = Some i\<rparr>"
  have "set (timers (fire c t rest)) = insert u (set rest)"
    using Some by (simp add: fire_def Let_def u_def)
  moreover have "due_at t x \<longleftrightarrow> x = t_at t \<or> due_at u x" if "x \<le> ts" for x
    using assms Some that by (intro due_at_rearm) (auto simp: clock_wf_def u_def)
  moreover have "t_name u = t_name t" by (simp add: u_def)
  ultimately show ?thesis
    using assms(2,3) by (auto simp: firings_def) metis+
qed

lemma firings_done:
  assumes "clock_wf c" and "\<forall>t \<in> set (timers c). ts < t_at t"
  shows "firings c ts = {}"
  using assms due_at_ge by (fastforce simp: firings_def clock_wf_def)

definition event_firings :: "time_event list \<Rightarrow> (string \<times> unix_nanos) set" where
  "event_firings evs = (\<lambda>e. (te_name e, scheduled_for e)) ` set evs"

lemma advance_loop_returns:
  assumes "clock_wf c" and "only_finite_repeats ts c" and "in_i64 ts"
    and "sorted (map event_key fired)"
    and "\<forall>e \<in> set fired. \<forall>t \<in> set (timers c). event_key e \<le> timer_key t"
  shows "\<exists>c' evs. advance_loop ts c fired = Some (c', fired @ evs) \<and> clock_wf c'
    \<and> sorted (map event_key (fired @ evs)) \<and> (\<forall>t \<in> set (timers c'). ts < t_at t)
    \<and> event_firings evs = firings c ts"
  using assms
proof (induction "due_work ts c" arbitrary: c fired rule: less_induct)
  case less
  show ?case
  proof (cases "timers c")
    case Nil
    then show ?thesis
      using less.prems
      by (intro exI [of _ c] exI [of _ "[]"])
         (simp add: advance_loop.simps event_firings_def firings_def)
  next
    case (Cons t rest)
    show ?thesis
    proof (cases "ts < t_at t")
      case True
      then have late: "\<forall>u \<in> set (timers c). ts < t_at u"
        using Cons less.prems(1) by (auto simp: clock_wf_def timer_key_def less_eq_prod_def)
      with Cons True less.prems show ?thesis
        by (intro exI [of _ c] exI [of _ "[]"])
           (simp add: advance_loop.simps event_firings_def firings_done)
    next
      case False
      let ?c = "fire c t rest" and ?f = "fired @ [timer_event t]"
      have one: "ts < i64_max \<or> t_interval t = None"
        using less.prems(2) Cons by (auto simp: only_finite_repeats_def)
      with False have strict: "t_at t < i64_max \<or> t_interval t = None" by auto
      have keys: "timer_key t \<le> timer_key u" if "u \<in> set (timers ?c)" for u
        using fire_keys [OF less.prems(1) Cons strict that] .
      have "\<exists>c' evs. advance_loop ts ?c ?f = Some (c', ?f @ evs) \<and> clock_wf c'
          \<and> sorted (map event_key (?f @ evs)) \<and> (\<forall>t \<in> set (timers c'). ts < t_at t)
          \<and> event_firings evs = firings ?c ts"
      proof (rule less.hyps)
        show "due_work ts ?c < due_work ts c"
          using fire_due_work [OF less.prems(1) Cons _ one] False by simp
        show "clock_wf ?c" by (rule fire_wf [OF less.prems(1) Cons])
        show "only_finite_repeats ts ?c" by (rule fire_only_finite [OF less.prems(2) Cons])
        show "sorted (map event_key ?f)"
          using less.prems(4,5) Cons by (auto simp: sorted_append)
        show "\<forall>e \<in> set ?f. \<forall>u \<in> set (timers ?c). event_key e \<le> timer_key u"
          using less.prems(5) Cons keys by (auto intro: order_trans)
      qed (rule less.prems(3))
      then obtain c' evs where res: "advance_loop ts ?c ?f = Some (c', ?f @ evs)" "clock_wf c'"
        "sorted (map event_key (?f @ evs))" "\<forall>t \<in> set (timers c'). ts < t_at t"
        "event_firings evs = firings ?c ts" by blast
      then show ?thesis
        using False firings_fire [OF less.prems(1) Cons _ one] Cons
        by (intro exI [of _ c'] exI [of _ "timer_event t # evs"])
           (simp add: advance_loop.simps [of ts c] event_firings_def timer_event_def)
    qed
  qed
qed

text \<open>
  A repeating timer that saturates at the end of time is re-armed there for ever: the loop can
  only have returned from a clock without repeating timers.
\<close>

lemma advance_loop_max_Some:
  assumes "advance_loop i64_max c fired = Some r" and "\<forall>t \<in> set (timers c). t_at t \<le> i64_max"
  shows "\<forall>t \<in> set (timers c). t_interval t = None"
proof -
  let ?P = "\<lambda>ts c fired r. ts = i64_max \<longrightarrow> (\<forall>t \<in> set (timers c). t_at t \<le> i64_max) \<longrightarrow>
    (\<forall>t \<in> set (timers c). t_interval t = None)"
  have "?P i64_max c fired r"
  proof (rule advance_loop.raw_induct [where P = ?P, OF _ assms(1)], intro impI ballI)
    fix f ts c fired r t
    assume IH: "\<And>ts c fired r. f ts c fired = Some r \<Longrightarrow> ?P ts c fired r"
      and eq: "(case timers c of [] \<Rightarrow> Some (c, fired)
        | t # rest \<Rightarrow> if ts < t_at t then Some (c, fired)
            else f ts (fire c t rest) (fired @ [timer_event t])) = Some r"
      and ts: "ts = i64_max" and le: "\<forall>t \<in> set (timers c). t_at t \<le> i64_max"
      and t: "t \<in> set (timers c)"
    obtain u rest where c: "timers c = u # rest" using t by (cases "timers c") auto
    with eq ts le have "f ts (fire c u rest) (fired @ [timer_event u]) = Some r"
      by (auto simp: not_less [symmetric])
    moreover have "\<forall>v \<in> set (timers (fire c u rest)). t_at v \<le> i64_max"
      using fire_timers [of _ c u rest] le c by (fastforce simp: sat64_def int_range)
    ultimately have none: "\<forall>v \<in> set (timers (fire c u rest)). t_interval v = None"
      using IH ts by blast
    then have "t_interval u = None"
      by (cases "t_interval u") (auto simp: fire_def Let_def)
    with none c t show "t_interval t = None" by (auto simp: fire_def)
  qed
  with assms(2) show ?thesis by blast
qed

section \<open>Properties\<close>



text \<open>
  C37: at the last representable instant \<open>advance_to\<close> returns exactly when no repeating timer is
  pending: a repeating timer saturates at that instant, stays due and is re-armed for ever, so
  the call never returns.
\<close>

theorem advance_to_end_of_time_diverges:
  assumes "clock_wf c" and "now c \<le> i64_max"
  shows "advance_to c i64_max = None \<longleftrightarrow> (\<exists>t \<in> set (timers c). t_interval t \<noteq> None)"
proof
  assume none: "advance_to c i64_max = None"
  show "\<exists>t \<in> set (timers c). t_interval t \<noteq> None"
  proof (rule ccontr)
    assume "\<not> ?thesis"
    then have "only_finite_repeats i64_max c" by (auto simp: only_finite_repeats_def)
    then show False
      using advance_loop_returns [OF assms(1), of i64_max "[]"] none assms(2)
      by (auto simp: advance_to_def int_range)
  qed
next
  assume rep: "\<exists>t \<in> set (timers c). t_interval t \<noteq> None"
  have "\<forall>t \<in> set (timers c). t_at t \<le> i64_max"
    using assms(1) by (auto simp: clock_wf_def int_range)
  then have "advance_loop i64_max c [] = None"
    using rep advance_loop_max_Some [of c "[]"] by (cases "advance_loop i64_max c []") auto
  then show "advance_to c i64_max = None"
    using assms(2) by (simp add: advance_to_def)
qed

lemma advance_to_end_of_time_diverges_witness:
  "advance_to \<lparr>now = 0, timers = [\<lparr>t_at = 10, t_name = ''f'', t_sequence = 1,
      t_interval = Some 10\<rparr>], clock_sequence = 1\<rparr> i64_max = None"
  using advance_to_end_of_time_diverges [of "\<lparr>now = 0, timers = [\<lparr>t_at = 10, t_name = ''f'',
      t_sequence = 1, t_interval = Some 10\<rparr>], clock_sequence = 1\<rparr>"]
  by (simp add: clock_wf_def int_range)

section \<open>Timers that fire once\<close>

text \<open>What a strategy can arm: no timer repeats, so the loop ends at every instant.\<close>

definition one_shot :: "clock \<Rightarrow> bool" where
  "one_shot c \<longleftrightarrow> (\<forall>t \<in> set (timers c). t_interval t = None)"

lemma advance_loop_one_shot:
  "one_shot c \<Longrightarrow> \<exists>c' evs. advance_loop ts c fired = Some (c', evs) \<and> one_shot c'"
proof (induction "timers c" arbitrary: c fired)
  case Nil
  then show ?case by (subst advance_loop.simps) (simp flip: Nil.hyps)
next
  case (Cons t rest)
  have "t_interval t = None" "one_shot (c\<lparr>now := t_at t, timers := rest\<rparr>)"
    using Cons.prems by (auto simp: one_shot_def simp flip: Cons.hyps(2))
  then have "fire c t rest = c\<lparr>now := t_at t, timers := rest\<rparr>" by (simp add: fire_def)
  then show ?case
    using Cons.hyps(1) [of "c\<lparr>now := t_at t, timers := rest\<rparr>" "fired @ [timer_event t]"] Cons.prems
      \<open>one_shot (c\<lparr>now := t_at t, timers := rest\<rparr>)\<close>
    by (subst advance_loop.simps) (simp flip: Cons.hyps(2))
qed

lemma advance_to_one_shot:
  assumes "one_shot c"
  shows "advance_to c ts \<noteq> None"
    and "advance_to c ts = Some (Inr (c', evs)) \<Longrightarrow> one_shot c' \<and> now c' = ts \<and> now c \<le> ts"
  using advance_loop_one_shot [OF assms, of ts "[]"]
  by (auto simp: advance_to_def one_shot_def split: if_splits)

lemma set_timer_one_shot:
  "set_timer c name at = Inr c' \<Longrightarrow> one_shot c \<Longrightarrow> one_shot c' \<and> now c' = now c"
  by (auto simp: set_timer_def clock_push_def one_shot_def Let_def split: if_splits)

lemma set_timers_one_shot:
  "fold_r (\<lambda>clk (name, at). set_timer clk name at) c reqs = Inr c' \<Longrightarrow> one_shot c \<Longrightarrow> one_shot c' \<and> now c' = now c"
  by (induction reqs arbitrary: c) (auto simp: result_simps dest: set_timer_one_shot)

end
