(* ===== verification/Currencies.thy ===== *)
theory Currencies
  imports Containers FixedPoint
begin

text \<open>
  Currencies, exchange rates and haircuts (\<open>h5i-db-backtest/src/currency.rs\<close>). A currency is its
  normalised code; codes are ASCII texts, for which Rust's character classes are those below.
\<close>

section \<open>Texts\<close>

definition is_whitespace :: "char \<Rightarrow> bool" where
  "is_whitespace c \<longleftrightarrow> (let n = (of_char c :: nat) in 9 \<le> n \<and> n \<le> 13 \<or> n = 32)"

definition is_ascii_alphanumeric :: "char \<Rightarrow> bool" where
  "is_ascii_alphanumeric c \<longleftrightarrow> (let n = (of_char c :: nat)
     in 48 \<le> n \<and> n \<le> 57 \<or> 65 \<le> n \<and> n \<le> 90 \<or> 97 \<le> n \<and> n \<le> 122)"

definition ascii_upper :: "char \<Rightarrow> char" where
  "ascii_upper c = (let n = (of_char c :: nat) in if 97 \<le> n \<and> n \<le> 122 then char_of (n - 32) else c)"

definition trim :: "string \<Rightarrow> string" where
  "trim s = rev (dropWhile is_whitespace (rev (dropWhile is_whitespace s)))"

definition to_ascii_uppercase :: "string \<Rightarrow> string" where
  "to_ascii_uppercase s = map ascii_upper s"

section \<open>Currencies and rates\<close>

type_synonym currency = string

definition currency_new :: "string \<Rightarrow> currency res" where
  "currency_new code =
     (let trimmed = trim code
      in if trimmed = [] \<or> length trimmed > 12 then invalid ''currency code must be 1 to 12 characters''
         else if \<not> list_all (\<lambda>c. is_ascii_alphanumeric c \<or> c = CHR ''.'') trimmed
         then invalid ''currency code must be alphanumeric''
         else Inr (to_ascii_uppercase trimmed))"

datatype fx_error = NoRate currency currency

type_synonym fx_book = "(currency \<times> currency, price) btree_map"

definition fx_set :: "fx_book \<Rightarrow> currency \<Rightarrow> currency \<Rightarrow> price \<Rightarrow> fx_book res" where
  "fx_set fx base quote rate =
     (if \<not> rate > 0 then invalid ''exchange rate must be positive''
      else Inr (bt_insert (base, quote) rate fx))"

definition fx_rate :: "fx_book \<Rightarrow> currency \<Rightarrow> currency \<Rightarrow> fx_error + price" where
  "fx_rate fx src dst =
     (if src = dst then Inr SCALE
      else case bt_get fx (src, dst) of
        Some rate \<Rightarrow> Inr rate
      | None \<Rightarrow>
          (case bt_get fx (dst, src) of
             Some rate \<Rightarrow>
               if rate > 0
               then case narrow ((SCALE * SCALE) sdiv rate) ''Currency::inverse_rate'' of
                      Inl _ \<Rightarrow> Inl (NoRate src dst)
                    | Inr inv_rate \<Rightarrow> Inr inv_rate
               else Inl (NoRate src dst)
           | None \<Rightarrow> Inl (NoRate src dst)))"

definition fx_convert :: "fx_book \<Rightarrow> money \<Rightarrow> currency \<Rightarrow> currency \<Rightarrow> fx_error + money" where
  "fx_convert fx amount src dst =
     (if src = dst then Inr amount
      else and_then (fx_rate fx src dst) (\<lambda>rate.
        case notional rate amount of Inl _ \<Rightarrow> Inl (NoRate src dst) | Inr m \<Rightarrow> Inr m))"

definition fx_pairs :: "fx_book \<Rightarrow> (currency \<times> currency) list" where
  "fx_pairs fx = bt_keys fx"

type_synonym haircuts = "(currency, price) btree_map"

definition haircut_set :: "haircuts \<Rightarrow> currency \<Rightarrow> price \<Rightarrow> haircuts res" where
  "haircut_set h c factor =
     (if \<not> factor > 0 \<or> factor > SCALE then invalid ''haircut factor must be in (0, 1]''
      else Inr (bt_insert c factor h))"

definition haircut_factor :: "haircuts \<Rightarrow> currency \<Rightarrow> price" where
  "haircut_factor h c = (case bt_get h c of None \<Rightarrow> SCALE | Some f \<Rightarrow> f)"

definition haircut_apply :: "haircuts \<Rightarrow> money \<Rightarrow> currency \<Rightarrow> money res" where
  "haircut_apply h amount c = notional (haircut_factor h c) amount"

section \<open>Codes\<close>

lemma ascii_upper_alnum: "is_ascii_alphanumeric c \<Longrightarrow> is_ascii_alphanumeric (ascii_upper c)"
  by (auto simp: is_ascii_alphanumeric_def ascii_upper_def Let_def)

lemma ascii_upper_idem: "ascii_upper (ascii_upper c) = ascii_upper c"
  by (auto simp: ascii_upper_def Let_def)

lemma alnum_not_space: "is_ascii_alphanumeric c \<or> c = CHR ''.'' \<Longrightarrow> \<not> is_whitespace c"
  by (auto simp: is_ascii_alphanumeric_def is_whitespace_def Let_def)

lemma upper_dot: "ascii_upper (CHR ''.'') = CHR ''.''"
  by (simp add: ascii_upper_def)

lemma trim_no_space: "\<forall>c \<in> set s. \<not> is_whitespace c \<Longrightarrow> trim s = s"
proof -
  assume "\<forall>c \<in> set s. \<not> is_whitespace c"
  then have "dropWhile is_whitespace t = t" if "set t \<subseteq> set s" for t
    using that by (cases t) auto
  then show ?thesis by (simp add: trim_def)
qed

lemma ascii_upper_ok_iff:
  "is_ascii_alphanumeric (ascii_upper x) \<or> ascii_upper x = CHR ''.''
   \<longleftrightarrow> is_ascii_alphanumeric x \<or> x = CHR ''.''"
proof (cases "97 \<le> (of_char x :: nat) \<and> of_char x \<le> (122 :: nat)")
  case True
  then have "is_ascii_alphanumeric x" by (simp add: is_ascii_alphanumeric_def)
  with ascii_upper_alnum show ?thesis by blast
next
  case False
  then have "ascii_upper x = x" unfolding ascii_upper_def Let_def by (simp only: if_False)
  then show ?thesis by simp
qed

lemma currency_new_iff:
  "currency_new code = Inr c \<longleftrightarrow>
     c = to_ascii_uppercase (trim code) \<and> c \<noteq> [] \<and> length c \<le> 12
     \<and> (\<forall>x \<in> set c. is_ascii_alphanumeric x \<or> x = CHR ''.'')"
proof -
  have "(\<forall>x \<in> set (map ascii_upper t). is_ascii_alphanumeric x \<or> x = CHR ''.'')
      \<longleftrightarrow> list_all (\<lambda>x. is_ascii_alphanumeric x \<or> x = CHR ''.'') t" for t
    by (induction t) (simp_all add: ascii_upper_ok_iff)
  then show ?thesis
    unfolding currency_new_def Let_def to_ascii_uppercase_def by (cases "trim code = []") (auto simp del: set_map)
qed

text \<open>
  A currency code is normalised once. Any accepted code is non-empty, at most twelve characters
  and its own normal form, and every spelling that differs from it only in surrounding white space
  and letter case gives the same currency.
\<close>

theorem currency_new_normalises:
  assumes "currency_new code = Inr c"
  shows "currency_new c = Inr c \<and> c \<noteq> [] \<and> length c \<le> 12
    \<and> (\<forall>code'. to_ascii_uppercase (trim code') = to_ascii_uppercase (trim code) \<longrightarrow> currency_new code' = Inr c)"
proof -
  have c: "c = to_ascii_uppercase (trim code)"
    and ok: "\<forall>x \<in> set c. is_ascii_alphanumeric x \<or> x = CHR ''.''"
    using assms by (simp_all add: currency_new_iff)
  have "trim c = c" using ok by (intro trim_no_space ballI alnum_not_space) blast
  moreover have "to_ascii_uppercase c = c" by (simp add: c to_ascii_uppercase_def ascii_upper_idem)
  ultimately show ?thesis using assms unfolding currency_new_iff by metis
qed

lemma currency_new_normalises_witness:
  "currency_new '' usdc '' = Inr ''USDC'' \<and> currency_new ''USDC'' = Inr ''USDC''
   \<and> currency_new ''uSdC'' = Inr ''USDC''"
proof -
  have run: "currency_new '' usdc '' = Inr ''USDC''" by code_simp
  have "to_ascii_uppercase (trim ''uSdC'') = to_ascii_uppercase (trim '' usdc '')" by code_simp
  with currency_new_normalises [OF run] run show ?thesis by blast
qed

section \<open>Conversion\<close>

definition fx_wf :: "fx_book \<Rightarrow> bool" where
  "fx_wf fx \<longleftrightarrow> bt_wf fx \<and> (\<forall>pair rate. bt_get fx pair = Some rate \<longrightarrow> 0 < rate \<and> in_i64 rate)"

lemma fx_wf_set: "fx_wf fx \<Longrightarrow> in_i64 rate \<Longrightarrow> fx_set fx b q rate = Inr fx' \<Longrightarrow> fx_wf fx'"
  by (auto simp: fx_set_def fx_wf_def bt_wf_insert bt_get_insert split: if_splits)

lemma inverse_rate_fits: "0 < rate \<Longrightarrow> in_i64 ((SCALE * SCALE) sdiv rate)"
proof -
  assume "0 < rate"
  then have "\<bar>(SCALE * SCALE) sdiv rate\<bar> \<le> \<bar>SCALE * SCALE\<bar>" by (rule sdiv_abs_le)
  then show ?thesis by (auto simp: SCALE_def int_range abs_le_iff)
qed

lemma fx_rate_nonneg: "fx_wf fx \<Longrightarrow> fx_rate fx src dst = Inr r \<Longrightarrow> 0 \<le> r"
  by (auto simp: fx_rate_def fx_wf_def result_simps less_imp_le sdiv_sign
      split: if_splits option.splits sum.splits)

lemma fx_convert_0: "fx_convert fx 0 src dst = Inr m \<Longrightarrow> m = 0"
proof -
  assume run: "fx_convert fx 0 src dst = Inr m"
  have "notional r 0 = Inr 0" for r
    by (simp add: notional_Inr_iff round_div_def SCALE_def)
  with run show ?thesis by (auto simp: fx_convert_def and_then_Inr_iff split: if_splits)
qed

text \<open>
  Conversion never invents a rate. A pair converts exactly when it is the identity or one of its
  two directions is known; the direct rate is used as it is and the inverse is the reciprocal
  truncated to the raw unit; the converted amount is the exactly rounded product and keeps the sign
  of the amount.
\<close>

theorem fx_rate_known:
  assumes "fx_wf fx"
  shows "fx_rate fx src dst =
    (if src = dst then Inr SCALE
     else case (bt_get fx (src, dst), bt_get fx (dst, src)) of
       (Some rate, _) \<Rightarrow> Inr rate
     | (None, Some rate) \<Rightarrow> Inr ((SCALE * SCALE) div rate)
     | (None, None) \<Rightarrow> Inl (NoRate src dst))
   \<and> (fx_convert fx amount src dst = Inr m \<longrightarrow>
       (src = dst \<and> m = amount) \<or> (\<exists>rate. fx_rate fx src dst = Inr rate \<and> m = round_div (rate * amount) SCALE
          \<and> (0 \<le> amount \<longrightarrow> 0 \<le> m) \<and> (amount \<le> 0 \<longrightarrow> m \<le> 0)))"
proof -
  have inv: "narrow ((SCALE * SCALE) sdiv rate) w = Inr ((SCALE * SCALE) div rate)" if "0 < rate" for rate w
    using inverse_rate_fits [OF that] that by (simp add: sdiv_nonneg_eq)
  have rate: "fx_rate fx src dst =
    (if src = dst then Inr SCALE
     else case (bt_get fx (src, dst), bt_get fx (dst, src)) of
       (Some rate, _) \<Rightarrow> Inr rate
     | (None, Some rate) \<Rightarrow> Inr ((SCALE * SCALE) div rate)
     | (None, None) \<Rightarrow> Inl (NoRate src dst))"
    using assms by (auto simp: fx_rate_def fx_wf_def inv split: option.splits)
  note pos = fx_rate_nonneg [OF assms]
  have "(0 \<le> amount \<longrightarrow> 0 \<le> round_div (r * amount) SCALE)
      \<and> (amount \<le> 0 \<longrightarrow> round_div (r * amount) SCALE \<le> 0)" if "0 \<le> r" for r
    using that by (auto intro!: round_div_sign simp: mult_nonneg_nonpos)
  moreover have "\<exists>rate. fx_rate fx src dst = Inr rate \<and> m = round_div (rate * amount) SCALE"
    if "fx_convert fx amount src dst = Inr m" "src \<noteq> dst"
  proof -
    from that obtain r where r: "fx_rate fx src dst = Inr r"
      and "(case notional r amount of Inl _ \<Rightarrow> Inl (NoRate src dst) | Inr m \<Rightarrow> Inr m) = Inr m"
      by (auto simp: fx_convert_def and_then_Inr_iff)
    then have "notional r amount = Inr m" by (cases "notional r amount") simp_all
    with r show ?thesis by (auto simp: notional_Inr_iff)
  qed
  moreover have "m = amount" if "fx_convert fx amount src dst = Inr m" "src = dst"
    using that by (simp add: fx_convert_def)
  ultimately show ?thesis using pos by (intro conjI rate) metis
qed

lemma fx_rate_known_witness:
  "fx_rate [((''EUR'', ''USD''), 1250000000)] ''USD'' ''EUR'' = Inr 800000000
   \<and> fx_convert [((''EUR'', ''USD''), 1250000000)] 10 ''USD'' ''EUR'' = Inr 8"
proof -
  have wf: "fx_wf [((''EUR'', ''USD''), 1250000000)]"
    by (auto simp: fx_wf_def int_range split: if_splits)
  have "fx_rate [((''EUR'', ''USD''), 1250000000)] ''USD'' ''EUR'' = Inr 800000000"
    using fx_rate_known [OF wf, of "''USD''" "''EUR''"] by (simp add: SCALE_def)
  then show ?thesis
    by (simp add: fx_convert_def notional_def Let_def SCALE_def signed_divide_int_def int_range)
qed

text \<open>
  The truncated reciprocal of a rate above \<open>10\<^sup>9\<close> is zero, so the inverse conversion of any amount
  is zero rather than an unknown rate.
\<close>

lemma large_rate_inverse_is_zero:
  assumes "fx_set [] b q rate = Inr fx" and "b \<noteq> q" and "SCALE * SCALE < rate"
  shows "fx_convert fx amount q b = Inr 0"
proof -
  have fx: "fx = [((b, q), rate)]" and pos: "0 < rate"
    using assms(1) by (auto simp: fx_set_def split: if_splits)
  have "(SCALE * SCALE) sdiv rate = 0"
    using assms(3) pos by (simp add: sdiv_nonneg_eq div_pos_pos_trivial)
  then have "fx_rate fx q b = Inr 0"
    using assms(2) pos by (simp add: fx fx_rate_def)
  then show ?thesis
    using assms(2) by (simp add: fx_convert_def notional_eq round_div_def SCALE_def)
qed

definition haircuts_wf :: "haircuts \<Rightarrow> bool" where
  "haircuts_wf h \<longleftrightarrow> bt_wf h \<and> (\<forall>c f. bt_get h c = Some f \<longrightarrow> 0 < f \<and> f \<le> SCALE)"

lemma haircuts_wf_set: "haircuts_wf h \<Longrightarrow> haircut_set h c f = Inr h' \<Longrightarrow> haircuts_wf h'"
  by (auto simp: haircut_set_def haircuts_wf_def bt_wf_insert bt_get_insert split: if_splits)

lemma haircut_factor_bounds: "haircuts_wf h \<Longrightarrow> 0 < haircut_factor h c \<and> haircut_factor h c \<le> SCALE"
  by (auto simp: haircut_factor_def haircuts_wf_def split: option.splits)

lemma haircut_apply_bounds:
  assumes "haircuts_wf h" and "in_i64 amount"
  shows "\<exists>m. haircut_apply h amount c = Inr m \<and> \<bar>m\<bar> \<le> \<bar>amount\<bar>
    \<and> (0 \<le> amount \<longrightarrow> 0 \<le> m) \<and> (amount \<le> 0 \<longrightarrow> m \<le> 0)
    \<and> (bt_get h c = None \<longrightarrow> m = amount)"
proof -
  let ?f = "haircut_factor h c"
  have f: "0 < ?f" "?f \<le> SCALE" using haircut_factor_bounds [OF assms(1)] by auto
  let ?m = "round_div (?f * amount) SCALE"
  have "?f * amount \<le> amount * SCALE \<and> 0 \<le> ?m \<and> ?m \<le> amount" if "0 \<le> amount"
  proof -
    have "?f * amount \<le> amount * SCALE"
      using mult_right_mono [OF f(2) that] by (simp add: mult.commute)
    from round_div_mono [OF SCALE_pos(1) this] f that show ?thesis
      using \<open>?f * amount \<le> amount * SCALE\<close> by (simp add: round_div_multiple round_div_sign)
  qed
  moreover have "amount \<le> ?m \<and> ?m \<le> 0" if "amount \<le> 0"
  proof -
    have "amount * SCALE \<le> ?f * amount"
      using mult_right_mono_neg [OF f(2) that] by (simp add: mult.commute)
    from round_div_mono [OF SCALE_pos(1) this] f that show ?thesis
      by (simp add: round_div_multiple round_div_sign mult_nonneg_nonpos)
  qed
  ultimately have m: "\<bar>?m\<bar> \<le> \<bar>amount\<bar>" "0 \<le> amount \<longrightarrow> 0 \<le> ?m" "amount \<le> 0 \<longrightarrow> ?m \<le> 0"
    and "in_i64 ?m"
    using assms(2) by (cases "0 \<le> amount"; auto simp: int_range)+
  moreover have "?m = amount" if "bt_get h c = None"
    using that by (simp add: haircut_factor_def mult.commute [of SCALE] round_div_multiple)
  ultimately show ?thesis
    by (intro exI [of _ ?m]) (simp add: haircut_apply_def notional_eq)
qed

text \<open>
  A haircut only ever discounts: on any reachable table, applying it to an amount in range
  succeeds, keeps its sign and never increases its magnitude; an unlisted currency counts in full.
\<close>

theorem haircut_discounts:
  assumes "haircuts_wf h" and "in_i64 amount"
  shows "\<exists>m. haircut_apply h amount c = Inr m \<and> \<bar>m\<bar> \<le> \<bar>amount\<bar>
    \<and> (0 \<le> amount \<longrightarrow> 0 \<le> m) \<and> (amount \<le> 0 \<longrightarrow> m \<le> 0)
    \<and> (bt_get h c = None \<longrightarrow> m = amount)"
  using assms by (rule haircut_apply_bounds)

lemma haircut_discounts_witness:
  "haircut_apply [(''EUR'', 900000000)] 10 ''EUR'' = Inr 9 \<and> (9::int) \<le> 10"
proof -
  have wf: "haircuts_wf [(''EUR'', 900000000)]"
    by (auto simp: haircuts_wf_def SCALE_def split: if_splits)
  have run: "haircut_apply [(''EUR'', 900000000)] 10 ''EUR'' = Inr 9"
    by (simp add: haircut_apply_def haircut_factor_def notional_def Let_def SCALE_def
        signed_divide_int_def int_range)
  with haircut_discounts [OF wf, of 10 "''EUR''"] show ?thesis by (simp add: int_range)
qed

end
