(* ===== verification/Window.thy ===== *)
theory Window
  imports FixedPoint
begin

text \<open>
  Half-open time windows and coverage accounting (\<open>h5i-db-backtest/src/window.rs\<close>). A loop that
  splits a window into chunks is a partial function whose value \<open>None\<close> is not returning; the
  panic of \<open>i64::clamp\<close> on inverted bounds is \<open>None\<close> in \<open>coverage_partial\<close>. The float-valued
  \<open>ratio\<close> and its \<open>require\<close> gate are not modelled.
\<close>

section \<open>Windows\<close>

record time_window =
  w_start :: unix_nanos
  w_end :: unix_nanos

definition window_new :: "unix_nanos \<Rightarrow> unix_nanos \<Rightarrow> time_window res" where
  "window_new s e = (if e \<le> s then Inl (EmptyWindow s e) else Inr \<lparr>w_start = s, w_end = e\<rparr>)"

definition from_inclusive_end :: "unix_nanos \<Rightarrow> unix_nanos \<Rightarrow> time_window res" where
  "from_inclusive_end s l = and_then (checked_add_nanos l 1) (\<lambda>e. window_new s e)"

definition w_last :: "time_window \<Rightarrow> unix_nanos" where
  "w_last w = wrap64 (w_end w - 1)"

definition duration_nanos :: "time_window \<Rightarrow> int" where
  "duration_nanos w = wrap64 (w_end w - w_start w)"

definition w_contains :: "time_window \<Rightarrow> unix_nanos \<Rightarrow> bool" where
  "w_contains w ts \<longleftrightarrow> ts \<ge> w_start w \<and> ts < w_end w"

definition overlaps :: "time_window \<Rightarrow> time_window \<Rightarrow> bool" where
  "overlaps a b \<longleftrightarrow> w_start a < w_end b \<and> w_start b < w_end a"

definition intersect :: "time_window \<Rightarrow> time_window \<Rightarrow> time_window option" where
  "intersect a b =
     (let s = max (w_start a) (w_start b); e = min (w_end a) (w_end b)
      in if e > s then Some \<lparr>w_start = s, w_end = e\<rparr> else None)"

definition w_union :: "time_window \<Rightarrow> time_window \<Rightarrow> time_window" where
  "w_union a b = \<lparr>w_start = min (w_start a) (w_start b), w_end = max (w_end a) (w_end b)\<rparr>"

partial_function (option) chunks_loop ::
  "unix_nanos \<Rightarrow> int \<Rightarrow> unix_nanos \<Rightarrow> time_window list \<Rightarrow> time_window list option" where
  "chunks_loop e chunk cursor out =
     (if cursor < e
      then let nxt = min (sat64 (cursor + chunk)) e
           in chunks_loop e chunk nxt (out @ [\<lparr>w_start = cursor, w_end = nxt\<rparr>])
      else Some out)"

definition chunks :: "time_window \<Rightarrow> int \<Rightarrow> time_window list res option" where
  "chunks w chunk =
     (if chunk \<le> 0 then Some (invalid ''chunk size must be positive'')
      else map_option Inr (chunks_loop (w_end w) chunk (w_start w) []))"

text \<open>What every constructor guarantees, for timestamps that are \<open>i64\<close> values.\<close>

definition window_wf :: "time_window \<Rightarrow> bool" where
  "window_wf w \<longleftrightarrow> in_i64 (w_start w) \<and> in_i64 (w_end w) \<and> w_start w < w_end w"

lemma window_new_wf: "in_i64 s \<Longrightarrow> in_i64 e \<Longrightarrow> window_new s e = Inr w \<Longrightarrow> window_wf w"
  by (auto simp: window_new_def window_wf_def split: if_splits)

lemma window_new_Inr_iff [result_simps]:
  "window_new s e = Inr w \<longleftrightarrow> s < e \<and> w = \<lparr>w_start = s, w_end = e\<rparr>"
  by (auto simp: window_new_def)

lemma from_inclusive_end_contains:
  "from_inclusive_end s l = Inr w \<Longrightarrow> w_contains w t \<longleftrightarrow> s \<le> t \<and> t \<le> l"
  by (auto simp: from_inclusive_end_def result_simps w_contains_def)

lemma w_last_contains: "window_wf w \<Longrightarrow> w_contains w (w_last w) \<and> \<not> w_contains w (w_last w + 1)"
proof -
  assume wf: "window_wf w"
  then have "in_i64 (w_end w - 1)" by (auto simp: window_wf_def int_range)
  then show ?thesis using wf by (auto simp: w_last_def w_contains_def window_wf_def)
qed

lemma intersect_contains:
  "w_contains a t \<and> w_contains b t \<longleftrightarrow> (\<exists>w. intersect a b = Some w \<and> w_contains w t)"
  by (auto simp: intersect_def w_contains_def Let_def)

lemma intersect_wf: "window_wf a \<Longrightarrow> window_wf b \<Longrightarrow> intersect a b = Some w \<Longrightarrow> window_wf w"
  by (auto simp: intersect_def window_wf_def Let_def min_def max_def split: if_splits)

lemma overlaps_iff_intersect:
  "window_wf a \<Longrightarrow> window_wf b \<Longrightarrow> overlaps a b \<longleftrightarrow> intersect a b \<noteq> None"
  by (auto simp: overlaps_def intersect_def window_wf_def Let_def)

lemma w_union_least:
  "w_contains a t \<or> w_contains b t \<Longrightarrow> w_contains (w_union a b) t"
  by (auto simp: w_union_def w_contains_def)

section \<open>Chunks tile the window\<close>

fun tiles :: "unix_nanos \<Rightarrow> unix_nanos \<Rightarrow> time_window list \<Rightarrow> bool" where
  "tiles a b [] = (a = b)"
| "tiles a b (w # ws) = (w_start w = a \<and> w_start w < w_end w \<and> tiles (w_end w) b ws)"

lemma tiles_le: "tiles a b ws \<Longrightarrow> a \<le> b"
  by (induction a b ws rule: tiles.induct) auto

lemma tiles_start: "tiles a b ws \<Longrightarrow> i < length ws \<Longrightarrow> a \<le> w_start (ws ! i)"
proof (induction ws arbitrary: a i)
  case Nil
  then show ?case by simp
next
  case (Cons w ws)
  then show ?case
    by (cases i) (auto intro: order_trans less_imp_le)
qed

lemma tiles_covers:
  "tiles a b ws \<Longrightarrow> a \<le> t \<Longrightarrow> t < b \<Longrightarrow> \<exists>!i. i < length ws \<and> w_contains (ws ! i) t"
proof (induction a b ws rule: tiles.induct)
  case (1 a b)
  then show ?case by simp
next
  case (2 a b w ws)
  have late: "w_end w \<le> w_start (ws ! i)" if "i < length ws" for i
    using tiles_start [of "w_end w" b ws i] that 2 by simp
  show ?case
  proof (cases "t < w_end w")
    case True
    then have "w_contains ((w # ws) ! i) t \<longleftrightarrow> i = 0" if "i < length (w # ws)" for i
      using that 2 late [of "i - 1"] by (cases i) (auto simp: w_contains_def)
    then show ?thesis by (metis length_Cons zero_less_Suc)
  next
    case False
    with 2 obtain i where i: "i < length ws" "w_contains (ws ! i) t"
      and uniq: "\<And>j. j < length ws \<Longrightarrow> w_contains (ws ! j) t \<Longrightarrow> j = i"
      by auto
    have "j = Suc i" if "j < length (w # ws)" "w_contains ((w # ws) ! j) t" for j
      using that False uniq [of "j - 1"] by (cases j) (auto simp: w_contains_def)
    with i show ?thesis by (intro ex1I [of _ "Suc i"]) auto
  qed
qed

lemma chunks_loop_tiles:
  assumes "in_i64 e" and "in_i64 cursor" and "cursor \<le> e" and "0 < chunk"
  shows "\<exists>ws. chunks_loop e chunk cursor out = Some (out @ ws) \<and> tiles cursor e ws
    \<and> (\<forall>w \<in> set ws. w_end w - w_start w \<le> chunk)
    \<and> (\<forall>w \<in> set (butlast ws). w_end w - w_start w = chunk)"
  using assms
proof (induction "nat (e - cursor)" arbitrary: cursor out rule: less_induct)
  case less
  show ?case
  proof (cases "cursor < e")
    case False
    with less.prems have "cursor = e" by simp
    then show ?thesis by (intro exI [of _ "[]"]) (simp add: chunks_loop.simps)
  next
    case True
    define nxt where "nxt = min (sat64 (cursor + chunk)) e"
    have nxt: "cursor < nxt" "nxt \<le> e" "in_i64 nxt" "nxt - cursor \<le> chunk"
      "nxt < e \<longrightarrow> nxt - cursor = chunk"
      using True less.prems by (auto simp: nxt_def sat64_def int_range min_def)
    then obtain ws where ws: "chunks_loop e chunk nxt (out @ [\<lparr>w_start = cursor, w_end = nxt\<rparr>])
        = Some (out @ [\<lparr>w_start = cursor, w_end = nxt\<rparr>] @ ws)" "tiles nxt e ws"
      "\<forall>w \<in> set ws. w_end w - w_start w \<le> chunk"
      "\<forall>w \<in> set (butlast ws). w_end w - w_start w = chunk"
      using less.hyps [of nxt "out @ [\<lparr>w_start = cursor, w_end = nxt\<rparr>]"] True less.prems by auto
    have "ws = [] \<longrightarrow> nxt = e" "ws \<noteq> [] \<longrightarrow> nxt < e"
      using ws(2) by (cases ws; fastforce dest: tiles_le)+
    then show ?thesis
      using True ws nxt
      by (intro exI [of _ "\<lparr>w_start = cursor, w_end = nxt\<rparr> # ws"])
         (auto simp: chunks_loop.simps [of e chunk cursor] Let_def simp flip: nxt_def)
  qed
qed

section \<open>Coverage\<close>

record coverage =
  requested :: time_window
  loaded :: "time_window option"
  missing_nanos :: int

definition coverage_empty :: "time_window \<Rightarrow> coverage" where
  "coverage_empty req = \<lparr>requested = req, loaded = None, missing_nanos = duration_nanos req\<rparr>"

definition coverage_complete :: "time_window \<Rightarrow> coverage" where
  "coverage_complete req = \<lparr>requested = req, loaded = Some req, missing_nanos = 0\<rparr>"

text \<open>\<open>i64::clamp\<close> panics when its bounds are inverted.\<close>

definition clamp64 :: "int \<Rightarrow> int \<Rightarrow> int \<Rightarrow> int option" where
  "clamp64 x lo hi = (if hi < lo then None else Some (max lo (min hi x)))"

definition coverage_partial :: "time_window \<Rightarrow> time_window \<Rightarrow> time_window list \<Rightarrow> coverage option" where
  "coverage_partial req load gaps =
     (let clipped = intersect load req;
          missing0 = (case clipped of
              Some window \<Rightarrow> wrap64 (duration_nanos req - duration_nanos window)
            | None \<Rightarrow> duration_nanos req);
          missing = (case clipped of
              None \<Rightarrow> missing0
            | Some window \<Rightarrow> fold (\<lambda>gap m. case intersect gap window of
                  Some overlap \<Rightarrow> wrap64 (m + duration_nanos overlap)
                | None \<Rightarrow> m) gaps missing0)
      in map_option (\<lambda>m. \<lparr>requested = req, loaded = clipped, missing_nanos = m\<rparr>)
           (clamp64 missing 0 (duration_nanos req)))"

definition coverage_is_complete :: "coverage \<Rightarrow> bool" where
  "coverage_is_complete c \<longleftrightarrow> missing_nanos c = 0 \<and> loaded c = Some (requested c)"

text \<open>The instants of a window, and the instants of the request that did not load.\<close>

definition instants :: "time_window \<Rightarrow> int set" where
  "instants w = {w_start w..<w_end w}"

definition absent :: "time_window \<Rightarrow> time_window \<Rightarrow> time_window list \<Rightarrow> int set" where
  "absent req load gaps =
     {t \<in> instants req. t \<notin> instants load \<or> (\<exists>g \<in> set gaps. t \<in> instants g)}"

lemma instants_contains: "t \<in> instants w \<longleftrightarrow> w_contains w t"
  by (simp add: instants_def w_contains_def)

lemma finite_instants [simp]: "finite (instants w)"
  by (simp add: instants_def)

lemma duration_card:
  assumes "window_wf w" and "in_i64 (w_end w - w_start w)"
  shows "duration_nanos w = int (card (instants w))"
  using assms by (simp add: duration_nanos_def instants_def window_wf_def)

lemma intersect_instants:
  "instants a \<inter> instants b = (case intersect a b of None \<Rightarrow> {} | Some w \<Rightarrow> instants w)"
  by (auto simp: instants_def intersect_def Let_def)

lemma intersect_short:
  assumes "window_wf a" and "window_wf b" and "intersect a b = Some w"
    and "in_i64 (w_end b - w_start b)"
  shows "window_wf w" and "in_i64 (w_end w - w_start w)"
    and "duration_nanos w = int (card (instants a \<inter> instants b))"
proof -
  show wf: "window_wf w" using assms(1-3) by (rule intersect_wf)
  show fits: "in_i64 (w_end w - w_start w)"
    using assms by (auto simp: intersect_def window_wf_def int_range Let_def split: if_splits)
  show "duration_nanos w = int (card (instants a \<inter> instants b))"
    using duration_card [OF wf fits] assms(3) by (simp add: intersect_instants)
qed

lemma fold_gaps_card:
  assumes "window_wf window" and "in_i64 (w_end window - w_start window)"
    and "\<forall>g \<in> set gaps. window_wf g"
    and "\<And>g h. g \<in> set gaps \<Longrightarrow> h \<in> set gaps \<Longrightarrow> g \<noteq> h \<Longrightarrow> instants g \<inter> instants h = {}"
    and "distinct gaps" and "0 \<le> m"
    and "in_i64 (m + int (card (instants window \<inter> (\<Union>g \<in> set gaps. instants g))))"
  shows "fold (\<lambda>gap m. case intersect gap window of
      Some overlap \<Rightarrow> wrap64 (m + duration_nanos overlap) | None \<Rightarrow> m) gaps m
    = m + int (card (instants window \<inter> (\<Union>g \<in> set gaps. instants g)))"
  using assms(3-)
proof (induction gaps arbitrary: m)
  case Nil
  then show ?case by simp
next
  case (Cons g gs)
  let ?rest = "instants window \<inter> (\<Union>h \<in> set gs. instants h)"
  let ?d = "int (card (instants g \<inter> instants window))"
  have "instants window \<inter> (\<Union>h \<in> set (g # gs). instants h) = (instants g \<inter> instants window) \<union> ?rest"
    by auto
  moreover have "(instants g \<inter> instants window) \<inter> ?rest = {}"
    using Cons.prems(2)[of g] Cons.prems(3) by fastforce
  ultimately have card: "int (card (instants window \<inter> (\<Union>h \<in> set (g # gs). instants h)))
      = ?d + int (card ?rest)"
    by (simp add: card_Un_disjoint)
  with Cons.prems(4,5) have "in_i64 (m + ?d)"
    by (auto simp: int_range)
  moreover have "window_wf g" using Cons.prems(1) by simp
  ultimately have step: "(case intersect g window of
      Some overlap \<Rightarrow> wrap64 (m + duration_nanos overlap) | None \<Rightarrow> m) = m + ?d"
    using intersect_short [OF _ assms(1) _ assms(2), of g]
    by (auto simp: intersect_instants split: option.splits)
  show ?case
    using Cons.IH [of "m + ?d"] Cons.prems card by (simp add: step add.assoc)
qed

lemma absent_card:
  "card (absent req load gaps) = card (instants req - instants load)
     + card ((instants req \<inter> instants load) \<inter> (\<Union>g \<in> set gaps. instants g))"
proof -
  have "absent req load gaps = (instants req - instants load)
      \<union> ((instants req \<inter> instants load) \<inter> (\<Union>g \<in> set gaps. instants g))"
    by (auto simp: absent_def)
  moreover have "(instants req - instants load)
      \<inter> ((instants req \<inter> instants load) \<inter> (\<Union>g \<in> set gaps. instants g)) = {}"
    by auto
  ultimately show ?thesis by (simp add: card_Un_disjoint)
qed

section \<open>Properties\<close>

text \<open>
  C28: splitting a window into chunks always returns, the chunks tile the window exactly (each
  starts where the previous ends, none is empty, every instant lies in exactly one), none is
  longer than asked and only the last one may be shorter.
\<close>

theorem chunks_tile:
  assumes "window_wf w" and "0 < chunk"
  shows "\<exists>ws. chunks w chunk = Some (Inr ws) \<and> tiles (w_start w) (w_end w) ws
    \<and> (\<forall>t. w_contains w t \<longrightarrow> (\<exists>!i. i < length ws \<and> w_contains (ws ! i) t))
    \<and> (\<forall>v \<in> set ws. w_end v - w_start v \<le> chunk)
    \<and> (\<forall>v \<in> set (butlast ws). w_end v - w_start v = chunk)"
proof -
  obtain ws where ws: "chunks_loop (w_end w) chunk (w_start w) [] = Some ws"
    "tiles (w_start w) (w_end w) ws" "\<forall>v \<in> set ws. w_end v - w_start v \<le> chunk"
    "\<forall>v \<in> set (butlast ws). w_end v - w_start v = chunk"
    using chunks_loop_tiles [of "w_end w" "w_start w" chunk "[]"] assms
    by (auto simp: window_wf_def)
  moreover have "\<exists>!i. i < length ws \<and> w_contains (ws ! i) t" if "w_contains w t" for t
    using that ws(2) by (intro tiles_covers) (auto simp: w_contains_def)
  ultimately show ?thesis
    using assms(2) by (simp add: chunks_def)
qed

lemma chunks_tile_witness:
  "\<exists>ws. chunks \<lparr>w_start = 0, w_end = 10\<rparr> 4 = Some (Inr ws) \<and> tiles 0 10 ws
    \<and> (\<forall>v \<in> set ws. w_end v - w_start v \<le> 4)"
  using chunks_tile [of "\<lparr>w_start = 0, w_end = 10\<rparr>" 4]
  by (auto simp: window_wf_def int_range)

text \<open>
  Coverage counts instants: for a request whose length fits an \<open>i64\<close> and declared gaps that do
  not overlap each other, \<open>missing_nanos\<close> is the number of instants of the request that lie
  outside the loaded span or inside a gap, and coverage is complete exactly when there is none.
\<close>

theorem coverage_counts_absent:
  assumes "window_wf req" and "window_wf load" and "\<forall>g \<in> set gaps. window_wf g"
    and "in_i64 (w_end req - w_start req)" and "distinct gaps"
    and "\<And>g h. g \<in> set gaps \<Longrightarrow> h \<in> set gaps \<Longrightarrow> g \<noteq> h \<Longrightarrow> instants g \<inter> instants h = {}"
  shows "\<exists>c. coverage_partial req load gaps = Some c \<and> requested c = req
    \<and> missing_nanos c = int (card (absent req load gaps))
    \<and> (coverage_is_complete c \<longleftrightarrow> absent req load gaps = {})"
proof -
  let ?A = "absent req load gaps"
  have fin: "finite ?A" by (simp add: absent_def)
  have sub: "card ?A \<le> card (instants req)"
    by (rule card_mono) (auto simp: absent_def)
  note dreq = duration_card [OF assms(1,4)]
  have fits: "in_i64 (int (card (instants req)))"
    using dreq by (metis duration_nanos_def wrap64_in_i64)
  have missing: "(case intersect load req of None \<Rightarrow> duration_nanos req
      | Some window \<Rightarrow> fold (\<lambda>gap m. case intersect gap window of
            Some overlap \<Rightarrow> wrap64 (m + duration_nanos overlap) | None \<Rightarrow> m) gaps
          (wrap64 (duration_nanos req - duration_nanos window))) = int (card ?A)"
  proof (cases "intersect load req")
    case None
    then have "instants load \<inter> instants req = {}" by (simp add: intersect_instants)
    then have "?A = instants req" by (auto simp: absent_def)
    with None dreq show ?thesis by simp
  next
    case (Some window)
    note w = intersect_short [OF assms(2,1) Some assms(4)]
    have inst: "instants window = instants req \<inter> instants load"
      using Some by (simp add: intersect_instants [of load req] Int_commute)
    have diff: "int (card (instants req - instants load))
        = duration_nanos req - duration_nanos window"
      using card_Diff_subset_Int [of "instants req" "instants load"]
        card_mono [of "instants req" "instants req \<inter> instants load"]
      by (simp add: dreq w(3) Int_commute of_nat_diff)
    moreover from diff have "wrap64 (duration_nanos req - duration_nanos window)
        = int (card (instants req - instants load))"
      using sub fits absent_card [of req load gaps]
      by (simp add: int_range) 
    moreover have "in_i64 (int (card (instants req - instants load))
        + int (card (instants window \<inter> (\<Union>g \<in> set gaps. instants g))))"
      using sub fits absent_card [of req load gaps] by (simp add: int_range inst)
    ultimately show ?thesis
      using fold_gaps_card [OF w(1,2) assms(3,6,5)] Some absent_card [of req load gaps]
      by (simp add: inst)
  qed
  have "coverage_partial req load gaps
      = Some \<lparr>requested = req, loaded = intersect load req, missing_nanos = int (card ?A)\<rparr>"
    unfolding coverage_partial_def using missing sub dreq
    by (auto simp: clamp64_def Let_def split: option.splits)
  moreover have "intersect load req = Some req" if "?A = {}"
  proof -
    have "w_start req \<in> instants load" "w_end req - 1 \<in> instants load"
      using that assms(1) by (auto simp: absent_def instants_def window_wf_def)
    then show ?thesis
      using assms(1) by (cases req) (auto simp: intersect_def instants_def window_wf_def Let_def)
  qed
  ultimately show ?thesis
    using fin by (auto simp: coverage_is_complete_def)
qed

lemma coverage_counts_absent_witness:
  "\<exists>c. coverage_partial \<lparr>w_start = 0, w_end = 10\<rparr> \<lparr>w_start = 2, w_end = 20\<rparr> [\<lparr>w_start = 4, w_end = 5\<rparr>] = Some c
    \<and> missing_nanos c = int (card (absent \<lparr>w_start = 0, w_end = 10\<rparr> \<lparr>w_start = 2, w_end = 20\<rparr>
        [\<lparr>w_start = 4, w_end = 5\<rparr>]))"
  using coverage_counts_absent [of "\<lparr>w_start = 0, w_end = 10\<rparr>" "\<lparr>w_start = 2, w_end = 20\<rparr>"
      "[\<lparr>w_start = 4, w_end = 5\<rparr>]"]
  by (auto simp: window_wf_def int_range)

end
