(* ===== verification/Corporate.thy ===== *)
theory Corporate
  imports Window Containers
begin

text \<open>
  Corporate actions, ticker histories and universes (\<open>h5i-db-backtest/src/corporate.rs\<close>).
  \<open>SymbolRegistry::assign\<close> mutates the registry before it can fail, so its model returns the new
  registry beside the result; \<open>resolve\<close> indexes the first span of a ticker without a check in its
  error branch, and \<open>None\<close> is that panic.
\<close>

type_synonym instrument_id = string

section \<open>Actions\<close>

datatype corporate_action = Split price | Dividend money | Delist price

fun action_kind :: "corporate_action \<Rightarrow> string" where
  "action_kind (Split ratio) = ''split''"
| "action_kind (Dividend per_share) = ''dividend''"
| "action_kind (Delist final_price) = ''delist''"

fun action_validate :: "corporate_action \<Rightarrow> unit res" where
  "action_validate (Split ratio) =
     (if \<not> ratio > 0 then invalid ''a split ratio must be positive'' else Inr ())"
| "action_validate (Dividend per_share) =
     (if per_share < 0 then invalid ''a dividend must not be negative'' else Inr ())"
| "action_validate (Delist final_price) =
     (if final_price < 0 then invalid ''a delisting price must not be negative'' else Inr ())"

definition split_position :: "price \<Rightarrow> qty \<Rightarrow> price \<Rightarrow> (qty \<times> price) res" where
  "split_position ratio quantity price =
     (if \<not> ratio > 0 then invalid ''split ratio must be positive''
      else let new_quantity = (quantity * ratio) sdiv SCALE;
               new_price = (price * SCALE) sdiv ratio
           in and_then (narrow new_quantity ''split_position quantity'') (\<lambda>q.
              and_then (narrow new_price ''split_position price'') (\<lambda>p. Inr (q, p))))"

lemma split_position_Inr_iff [result_simps]:
  "split_position r q p = Inr (q', p') \<longleftrightarrow> 0 < r \<and> q' = (q * r) sdiv SCALE \<and> p' = (p * SCALE) sdiv r
     \<and> in_i64 q' \<and> in_i64 p'"
  by (auto simp: split_position_def result_simps Let_def)

lemma abs_sdiv: "0 < d \<Longrightarrow> \<bar>x sdiv d\<bar> = \<bar>x\<bar> div (d::int)"
  by (auto simp: signed_divide_int_def abs_mult sgn_if pos_imp_zdiv_nonneg_iff)

lemma split_position_abs:
  assumes "split_position r q p = Inr (q', p')"
  shows "\<bar>q'\<bar> = (\<bar>q\<bar> * r) div SCALE" and "\<bar>p'\<bar> = (\<bar>p\<bar> * SCALE) div r"
  using assms by (auto simp: result_simps abs_sdiv abs_mult)

lemma split_position_sign:
  "split_position r q p = Inr (q', p') \<Longrightarrow> 0 \<le> q \<Longrightarrow> 0 \<le> q'"
  "split_position r q p = Inr (q', p') \<Longrightarrow> q \<le> 0 \<Longrightarrow> q' \<le> 0"
  by (auto simp: result_simps sdiv_sign mult_nonpos_nonneg)

text \<open>
  The value a position loses to truncation: with \<open>X = Q r = Q' S + a\<close> and \<open>Y = P S = P' r + b\<close>
  the products differ by \<open>Q' S b + a P' r + a b\<close>, each term below the matching multiple of \<open>r S\<close>.
\<close>

lemma truncation_loss:
  fixes Q P r S :: int
  assumes "0 < r" and "0 < S" and "0 \<le> Q" and "0 \<le> P"
  defines "Q' \<equiv> (Q * r) div S" and "P' \<equiv> (P * S) div r"
  shows "Q' * P' \<le> Q * P" and "Q * P - Q' * P' \<le> Q' + P'"
proof -
  define a b where "a = (Q * r) mod S" and "b = (P * S) mod r"
  have X: "Q * r = Q' * S + a" and Y: "P * S = P' * r + b"
    by (simp_all add: Q'_def P'_def a_def b_def)
  have ab: "0 \<le> a" "a < S" "0 \<le> b" "b < r" using assms by (simp_all add: a_def b_def)
  have nn: "0 \<le> Q'" "0 \<le> P'" using assms by (simp_all add: Q'_def P'_def pos_imp_zdiv_nonneg_iff)
  have "(Q * P - Q' * P') * (r * S) = (Q * r) * (P * S) - Q' * P' * (r * S)"
    by (simp add: algebra_simps)
  also have "\<dots> = Q' * S * b + a * (P' * r) + a * b"
    unfolding X Y by (simp add: algebra_simps)
  finally have diff: "(Q * P - Q' * P') * (r * S) = Q' * S * b + a * (P' * r) + a * b" .
  have rS: "0 < r * S" using assms by simp
  have "0 \<le> (Q * P - Q' * P') * (r * S)"
    unfolding diff using ab nn assms by simp
  then show "Q' * P' \<le> Q * P" using rS by (simp add: zero_le_mult_iff)
  have "Q' * S * b \<le> Q' * S * r" "a * (P' * r) \<le> S * (P' * r)"
    using ab nn assms by (auto intro!: mult_left_mono mult_right_mono)
  moreover have "a * b < S * r"
    using ab assms by (intro mult_strict_mono') auto
  ultimately have "(Q * P - Q' * P') * (r * S) < (Q' + P' + 1) * (r * S)"
    unfolding diff by (simp add: algebra_simps)
  then have "Q * P - Q' * P' < Q' + P' + 1" using rS by (simp only: mult_less_cancel_right)
  then show "Q * P - Q' * P' \<le> Q' + P'" by simp
qed

section \<open>Ticker histories\<close>

record symbol_span =
  ss_ticker :: string
  ss_instrument :: instrument_id
  ss_span :: time_window

type_synonym symbol_registry = "(string, symbol_span list) btree_map"

definition assign :: "symbol_registry \<Rightarrow> string \<Rightarrow> instrument_id \<Rightarrow> unix_nanos
    \<Rightarrow> symbol_registry \<times> unit res" where
  "assign reg ticker instrument from =
     (let spans = (case bt_get reg ticker of None \<Rightarrow> [] | Some spans \<Rightarrow> spans);
          reg0 = bt_insert ticker spans reg;
          finish = (\<lambda>spans1. case window_new from i64_max of
              Inl e \<Rightarrow> (bt_insert ticker spans1 reg0, Inl e)
            | Inr span \<Rightarrow> (bt_insert ticker (spans1 @ [\<lparr>ss_ticker = ticker,
                ss_instrument = instrument, ss_span = span\<rparr>]) reg0, Inr ()))
      in if spans = [] then finish []
         else let previous = last spans
              in if from \<le> w_start (ss_span previous)
                 then (reg0, invalid ''ticker is already held'')
                 else case window_new (w_start (ss_span previous)) from of
                        Inl e \<Rightarrow> (reg0, Inl e)
                      | Inr span \<Rightarrow> finish (butlast spans @ [previous\<lparr>ss_span := span\<rparr>]))"

definition resolve :: "symbol_registry \<Rightarrow> string \<Rightarrow> unix_nanos \<Rightarrow> instrument_id res option" where
  "resolve reg ticker at =
     (case bt_get reg ticker of
        None \<Rightarrow> Some (Inl (UnknownInstrument ticker))
      | Some spans \<Rightarrow>
          (case find (\<lambda>entry. w_contains (ss_span entry) at) spans of
             Some entry \<Rightarrow> Some (Inr (ss_instrument entry))
           | None \<Rightarrow> if spans = [] then None
                     else Some (invalid ''ticker referred to nothing at that instant'')))"

definition resolve_unique :: "symbol_registry \<Rightarrow> string \<Rightarrow> instrument_id res" where
  "resolve_unique reg ticker =
     (case bt_get reg ticker of
        None \<Rightarrow> Inl (UnknownInstrument ticker)
      | Some [entry] \<Rightarrow> Inr (ss_instrument entry)
      | Some _ \<Rightarrow> invalid ''resolve it with a date'')"

definition registry_spans :: "symbol_registry \<Rightarrow> symbol_span list" where
  "registry_spans reg = concat (map snd reg)"

text \<open>A gapless chain of spans ending at the end of time.\<close>

fun chained :: "symbol_span list \<Rightarrow> bool" where
  "chained [] = True"
| "chained [s] = (w_start (ss_span s) < i64_max \<and> w_end (ss_span s) = i64_max)"
| "chained (s # t # ss) = (w_start (ss_span s) < w_end (ss_span s)
     \<and> w_end (ss_span s) = w_start (ss_span t) \<and> chained (t # ss))"

definition registry_wf :: "symbol_registry \<Rightarrow> bool" where
  "registry_wf reg \<longleftrightarrow> bt_wf reg \<and> (\<forall>ticker spans. bt_get reg ticker = Some spans \<longrightarrow> chained spans)"

lemma chained_extend:
  assumes "chained spans" and "spans \<noteq> []" and "w_start (ss_span (last spans)) < from"
    and "from < i64_max" and "w_start (ss_span new) = from" and "w_end (ss_span new) = i64_max"
  shows "chained (butlast spans @ [(last spans)\<lparr>ss_span :=
      \<lparr>w_start = w_start (ss_span (last spans)), w_end = from\<rparr>\<rparr>, new])"
  using assms
proof (induction spans rule: chained.induct)
  case (3 s t ss)
  then show ?case by (cases ss) auto
qed auto

text \<open>
  The abstract history of a ticker: who held it from when. Appending to the history is what
  \<open>assign\<close> does, and the holder at an instant is the last one who took it by then.
\<close>

definition history :: "symbol_span list \<Rightarrow> (unix_nanos \<times> instrument_id) list" where
  "history spans = map (\<lambda>s. (w_start (ss_span s), ss_instrument s)) spans"

definition holder :: "(unix_nanos \<times> instrument_id) list \<Rightarrow> unix_nanos \<Rightarrow> instrument_id option" where
  "holder h at = map_option snd (find (\<lambda>e. fst e \<le> at) (rev h))"

definition ticker_history :: "symbol_registry \<Rightarrow> string \<Rightarrow> (unix_nanos \<times> instrument_id) list" where
  "ticker_history reg ticker =
     history (case bt_get reg ticker of None \<Rightarrow> [] | Some spans \<Rightarrow> spans)"

lemma history_extend:
  "spans \<noteq> [] \<Longrightarrow> history (butlast spans @ [(last spans)\<lparr>ss_span := \<lparr>w_start = w_start (ss_span (last spans)), w_end = e\<rparr>\<rparr>, new])
     = history spans @ [(w_start (ss_span new), ss_instrument new)]"
  by (induction spans) (auto simp: history_def)

lemma find_rev_snoc: "find P (rev (xs @ [x])) = (if P x then Some x else find P (rev xs))"
  by simp

lemma find_append: "find P (xs @ ys) = (case find P xs of None \<Rightarrow> find P ys | Some x \<Rightarrow> Some x)"
  by (induction xs) auto

lemma chained_first_le: "chained (s # ss) \<Longrightarrow> t \<in> set ss \<Longrightarrow> w_end (ss_span s) \<le> w_start (ss_span t)"
proof (induction ss arbitrary: s)
  case (Cons u us)
  then have eq: "w_end (ss_span s) = w_start (ss_span u)" and ch: "chained (u # us)"
    by simp_all
  from ch have "w_start (ss_span u) < w_end (ss_span u)" by (cases us) simp_all
  moreover have "w_end (ss_span u) \<le> w_start (ss_span t)" if "t \<in> set us"
    by (rule Cons.IH [OF ch that])
  ultimately show ?case using eq Cons.prems(2) by auto
qed simp

lemma chained_resolve:
  assumes "chained spans" and "at < i64_max"
  shows "map_option ss_instrument (find (\<lambda>entry. w_contains (ss_span entry) at) spans)
    = holder (history spans) at"
  using assms
proof (induction spans rule: chained.induct)
  case 1
  then show ?case by (simp add: holder_def history_def)
next
  case (2 s)
  then show ?case by (auto simp: holder_def history_def w_contains_def)
next
  case (3 s t ss)
  have split: "holder (history (s # t # ss)) at = (case holder (history (t # ss)) at of
      None \<Rightarrow> (if w_start (ss_span s) \<le> at then Some (ss_instrument s) else None) | Some i \<Rightarrow> Some i)"
    by (auto simp: holder_def history_def find_append split: option.splits)
  show ?case
  proof (cases "w_contains (ss_span s) at")
    case True
    have "\<not> w_start (ss_span u) \<le> at" if "u \<in> set (t # ss)" for u
      using chained_first_le [OF 3(2) that] True by (auto simp: w_contains_def)
    then have "holder (history (t # ss)) at = None"
      by (auto simp: holder_def history_def find_None_iff)
    with True show ?thesis by (simp add: split w_contains_def)
  next
    case False
    have IH: "map_option ss_instrument (find (\<lambda>entry. w_contains (ss_span entry) at) (t # ss))
        = holder (history (t # ss)) at"
      using 3 by auto
    show ?thesis
    proof (cases "at < w_start (ss_span s)")
      case True
      have "\<not> w_start (ss_span u) \<le> at" if "u \<in> set (t # ss)" for u
        using chained_first_le [OF 3(2) that] True 3(2) by auto
      then have "holder (history (t # ss)) at = None"
        by (auto simp: holder_def history_def find_None_iff)
      with IH False True show ?thesis by (simp add: split)
    next
      case late: False
      with False 3(2) have "w_start (ss_span t) \<le> at" by (auto simp: w_contains_def)
      then have "holder (history (t # ss)) at \<noteq> None"
        by (auto simp: holder_def history_def find_None_iff)
      with IH False show ?thesis by (auto simp: split)
    qed
  qed
qed

lemma assign_Inr:
  assumes "registry_wf reg" and "assign reg ticker i from = (reg', Inr ())"
  shows "registry_wf reg' \<and> from < i64_max
    \<and> ticker_history reg' ticker = ticker_history reg ticker @ [(from, i)]
    \<and> (\<forall>other. other \<noteq> ticker \<longrightarrow> bt_get reg' other = bt_get reg other)"
proof -
  define spans where "spans = (case bt_get reg ticker of None \<Rightarrow> [] | Some spans \<Rightarrow> spans)"
  have wf: "bt_wf reg" and ch: "chained spans"
    using assms(1) by (auto simp: registry_wf_def spans_def split: option.splits)
  have from_lt: "from < i64_max"
    using assms(2) by (auto simp: assign_def Let_def window_new_def split: if_splits)
  let ?new = "\<lparr>ss_ticker = ticker, ss_instrument = i,
    ss_span = \<lparr>w_start = from, w_end = i64_max\<rparr>\<rparr>"
  let ?spans = "if spans = [] then [?new] else butlast spans @ [(last spans)\<lparr>ss_span :=
    \<lparr>w_start = w_start (ss_span (last spans)), w_end = from\<rparr>\<rparr>, ?new]"
  have later: "w_start (ss_span (last spans)) < from" if "spans \<noteq> []"
    using assms(2) that by (auto simp: assign_def Let_def simp flip: spans_def split: if_splits)
  have reg': "reg' = bt_insert ticker ?spans (bt_insert ticker spans reg)"
    using assms(2) from_lt later
    by (auto simp: assign_def Let_def window_new_def simp flip: spans_def split: if_splits)
  have "chained ?spans"
    using chained_extend [OF ch _ later from_lt] from_lt by auto
  moreover have "history ?spans = history spans @ [(from, i)]"
    using history_extend [of spans] by (auto simp: history_def)
  ultimately show ?thesis
    using wf assms(1) from_lt
    by (auto simp: reg' registry_wf_def ticker_history_def bt_get_insert bt_wf_insert
        simp flip: spans_def)
qed

text \<open>
  The specification of \<open>assign\<close> on histories: an assignment is accepted when it starts before the
  end of time and after the last accepted one, and is otherwise ignored.
\<close>

definition accepts :: "(unix_nanos \<times> instrument_id) list \<Rightarrow> unix_nanos \<Rightarrow> bool" where
  "accepts h from \<longleftrightarrow> from < i64_max \<and> (h = [] \<or> fst (last h) < from)"

fun record_assignment :: "string \<Rightarrow> string \<times> instrument_id \<times> unix_nanos
    \<Rightarrow> (unix_nanos \<times> instrument_id) list \<Rightarrow> (unix_nanos \<times> instrument_id) list" where
  "record_assignment ticker (t, i, from) h =
     (if t = ticker \<and> accepts h from then h @ [(from, i)] else h)"

definition spec_history :: "(string \<times> instrument_id \<times> unix_nanos) list \<Rightarrow> string
    \<Rightarrow> (unix_nanos \<times> instrument_id) list" where
  "spec_history ops ticker = fold (record_assignment ticker) ops []"

definition assign_run :: "(string \<times> instrument_id \<times> unix_nanos) list \<Rightarrow> symbol_registry" where
  "assign_run ops = fold (\<lambda>(t, i, from) reg. fst (assign reg t i from)) ops []"

lemma history_last: "spans \<noteq> [] \<Longrightarrow> fst (last (history spans)) = w_start (ss_span (last spans))"
  by (simp add: history_def last_map)

lemma chained_last_end: "chained spans \<Longrightarrow> spans \<noteq> [] \<Longrightarrow> w_end (ss_span (last spans)) = i64_max"
  by (induction spans rule: chained.induct) auto

lemma assign_Inl:
  assumes "registry_wf reg" and "assign reg ticker i from = (reg', Inl e)" and "from \<le> i64_max"
  shows "\<not> accepts (ticker_history reg ticker) from
    \<and> reg' = bt_insert ticker (case bt_get reg ticker of None \<Rightarrow> [] | Some spans \<Rightarrow> spans) reg"
proof -
  define spans where "spans = (case bt_get reg ticker of None \<Rightarrow> [] | Some spans \<Rightarrow> spans)"
  have ch: "chained spans" and wf: "bt_wf reg"
    using assms(1) by (auto simp: registry_wf_def spans_def split: option.splits)
  have idem: "bt_insert ticker spans (bt_insert ticker spans reg) = bt_insert ticker spans reg"
    using wf by (intro bt_eqI ext) (simp_all add: bt_wf_insert bt_get_insert)
  have same: "butlast spans @ [(last spans)\<lparr>ss_span :=
      \<lparr>w_start = w_start (ss_span (last spans)), w_end = i64_max\<rparr>\<rparr>] = spans" if "spans \<noteq> []"
  proof -
    have "(last spans)\<lparr>ss_span := \<lparr>w_start = w_start (ss_span (last spans)), w_end = i64_max\<rparr>\<rparr> = last spans"
      using chained_last_end [OF ch that] by (cases "last spans"; cases "ss_span (last spans)") auto
    with that show ?thesis by simp
  qed
  have hist: "ticker_history reg ticker = history spans"
    by (simp add: ticker_history_def spans_def)
  have start: "w_start (ss_span (last spans)) < i64_max" if "spans \<noteq> []"
    using ch that by (induction spans rule: chained.induct) auto
  consider (first) "spans = []" "\<not> from < i64_max"
    | (early) "spans \<noteq> []" "from \<le> w_start (ss_span (last spans))" "reg' = bt_insert ticker spans reg"
    | (late) "spans \<noteq> []" "w_start (ss_span (last spans)) < from" "\<not> from < i64_max"
    using assms(2)
    by (auto simp: assign_def Let_def window_new_def simp flip: spans_def split: if_splits)
  then show ?thesis
  proof cases
    case first
    with assms(2) idem show ?thesis
      by (auto simp: assign_def Let_def window_new_def accepts_def simp flip: spans_def)
  next
    case early
    then show ?thesis
      by (auto simp: accepts_def hist history_last history_def [of "[]"] simp flip: spans_def)
         (auto simp: history_def)
  next
    case late
    with assms(3) have [simp]: "from = i64_max" by simp
    have "reg' = bt_insert ticker (butlast spans @ [(last spans)\<lparr>ss_span :=
        \<lparr>w_start = w_start (ss_span (last spans)), w_end = i64_max\<rparr>\<rparr>]) (bt_insert ticker spans reg)"
      using assms(2) late start
      by (auto simp: assign_def Let_def window_new_def simp flip: spans_def split: if_splits)
    then show ?thesis
      using same late(1) idem by (simp add: accepts_def flip: spans_def)
  qed
qed

lemma assign_accepts:
  assumes "assign reg t i from = (reg', Inr ())"
  shows "accepts (ticker_history reg t) from"
proof -
  define spans where "spans = (case bt_get reg t of None \<Rightarrow> [] | Some spans \<Rightarrow> spans)"
  have "spans = [] \<or> w_start (ss_span (last spans)) < from" and "from < i64_max"
    using assms by (auto simp: assign_def Let_def window_new_def simp flip: spans_def split: if_splits)
  then show ?thesis
    using history_last [of spans]
    by (cases "spans = []") (auto simp: accepts_def ticker_history_def history_def simp flip: spans_def)
qed

lemma assign_step:
  assumes "registry_wf reg" and "from \<le> i64_max"
  shows "registry_wf (fst (assign reg t i from))
    \<and> ticker_history (fst (assign reg t i from)) ticker
        = record_assignment ticker (t, i, from) (ticker_history reg ticker)
    \<and> (bt_get (fst (assign reg t i from)) ticker \<noteq> None \<longleftrightarrow> ticker = t \<or> bt_get reg ticker \<noteq> None)"
proof (cases "assign reg t i from")
  case (Pair reg' r)
  show ?thesis
  proof (cases r)
    case (Inl e)
    have wf: "bt_wf reg" and ch: "\<And>k ss. bt_get reg k = Some ss \<Longrightarrow> chained ss"
      using assms(1) by (auto simp: registry_wf_def)
    note fails = assign_Inl [OF assms(1) Pair [unfolded Inl] assms(2)]
    have "registry_wf reg'"
      using fails wf ch
      by (auto simp: registry_wf_def bt_wf_insert bt_get_insert split: option.splits if_splits)
    moreover have "ticker_history reg' ticker = ticker_history reg ticker"
      using fails wf by (auto simp: ticker_history_def bt_get_insert split: option.splits)
    ultimately show ?thesis
      using fails wf Pair by (auto simp: bt_get_insert)
  next
    case (Inr u)
    then have ok: "assign reg t i from = (reg', Inr ())" using Pair by simp
    note succeeds = assign_Inr [OF assms(1) ok]
    have "accepts (ticker_history reg t) from"
      using assign_accepts [OF ok] .
    moreover have "bt_get reg' t \<noteq> None"
      using succeeds by (cases "bt_get reg' t") (auto simp: ticker_history_def history_def)
    ultimately show ?thesis
      using succeeds ok by (auto simp: ticker_history_def)
  qed
qed

lemma assign_run_snoc:
  "assign_run (ops @ [(t, i, from)]) = fst (assign (assign_run ops) t i from)"
  by (simp add: assign_run_def)

lemma spec_history_snoc:
  "spec_history (ops @ [op]) ticker = record_assignment ticker op (spec_history ops ticker)"
  by (simp add: spec_history_def)

lemma assign_run_refines:
  assumes "\<forall>(t, i, from) \<in> set ops. from \<le> i64_max"
  shows "registry_wf (assign_run ops) \<and> ticker_history (assign_run ops) ticker = spec_history ops ticker
    \<and> (bt_get (assign_run ops) ticker \<noteq> None \<longleftrightarrow> ticker \<in> fst ` set ops)"
  using assms
proof (induction ops rule: rev_induct)
  case Nil
  then show ?case
    by (simp add: assign_run_def spec_history_def registry_wf_def ticker_history_def history_def)
next
  case (snoc op ops)
  obtain t i since where op: "op = (t, i, since)" by (cases op)
  with snoc have IH: "registry_wf (assign_run ops)"
      "ticker_history (assign_run ops) ticker = spec_history ops ticker"
      "bt_get (assign_run ops) ticker \<noteq> None \<longleftrightarrow> ticker \<in> fst ` set ops" and le: "since \<le> i64_max"
    by auto
  show ?case
    using assign_step [OF IH(1) le, of t i ticker] IH
    by (auto simp: op assign_run_snoc spec_history_snoc simp del: record_assignment.simps)
qed

lemma resolve_eq_holder:
  assumes "registry_wf reg" and "at < i64_max"
  shows "resolve reg ticker at = (case bt_get reg ticker of
      None \<Rightarrow> Some (Inl (UnknownInstrument ticker))
    | Some spans \<Rightarrow> (case holder (history spans) at of
        Some i \<Rightarrow> Some (Inr i)
      | None \<Rightarrow> if history spans = [] then None
                else Some (invalid ''ticker referred to nothing at that instant'')))"
proof (cases "bt_get reg ticker")
  case None
  then show ?thesis by (simp add: resolve_def)
next
  case (Some spans)
  then have "chained spans" using assms(1) by (auto simp: registry_wf_def)
  from chained_resolve [OF this assms(2), symmetric] Some show ?thesis
    by (auto simp: resolve_def history_def split: option.splits)
qed

text \<open>
  C20: resolving a ticker answers from its history. After any sequence of assignments, accepted or
  refused, \<open>resolve\<close> at an instant before the end of time returns the instrument of the last accepted
  assignment that had started by then, and reports an error before the first one: no gap separates
  two holders. A ticker never mentioned is unknown, and one whose only assignments were refused makes
  \<open>resolve\<close> panic.
\<close>

theorem resolve_refines_history:
  assumes "\<forall>(t, i, from) \<in> set ops. from \<le> i64_max" and "at < i64_max"
  shows "resolve (assign_run ops) ticker at =
    (if ticker \<notin> fst ` set ops then Some (Inl (UnknownInstrument ticker))
     else case holder (spec_history ops ticker) at of
            Some i \<Rightarrow> Some (Inr i)
          | None \<Rightarrow> if spec_history ops ticker = [] then None
                    else Some (invalid ''ticker referred to nothing at that instant''))"
proof -
  note run = assign_run_refines [OF assms(1), of ticker]
  show ?thesis
    using resolve_eq_holder [OF run [THEN conjunct1] assms(2)] run
    by (cases "bt_get (assign_run ops) ticker") (auto simp: ticker_history_def)
qed

lemma resolve_refines_history_witness:
  "resolve (assign_run [(''ABC'', ''old'', 10), (''ABC'', ''late'', 5), (''ABC'', ''new'', 20)]) ''ABC'' 25
     = Some (Inr ''new'')"
  using resolve_refines_history [of "[(''ABC'', ''old'', 10), (''ABC'', ''late'', 5), (''ABC'', ''new'', 20)]" 25 "''ABC''"]
  by (simp add: spec_history_def accepts_def holder_def i64_max_def)


section \<open>Splits\<close>

lemma sdiv_scale_zero [simp]: "(0::int) sdiv d = 0"
  by (simp add: signed_divide_int_def)

text \<open>
  C33: a split never increases the value of a position and loses at most the new quantity plus the
  new price in raw product units, and it keeps the direction of the position.
\<close>

theorem split_position_value:
  assumes "split_position r q p = Inr (q', p')"
  shows "\<bar>q' * p'\<bar> \<le> \<bar>q * p\<bar> \<and> \<bar>q * p\<bar> - \<bar>q' * p'\<bar> \<le> \<bar>q'\<bar> + \<bar>p'\<bar>
    \<and> (q' = 0 \<or> sgn q' = sgn q)"
proof -
  have r: "0 < r" and SC: "0 < SCALE" using assms by (auto simp: result_simps SCALE_def)
  note loss = truncation_loss [OF r SC abs_ge_zero [of q] abs_ge_zero [of p],
      folded split_position_abs [OF assms]]
  have "sgn q' = sgn q" if "q' \<noteq> 0"
    using split_position_sign [OF assms] that by (cases "0 \<le> q") (auto simp: sgn_if)
  with loss show ?thesis by (auto simp: abs_mult)
qed

lemma split_position_value_witness:
  "split_position 1500000000 3 1000 = Inr (4, 666)
   \<and> \<bar>4 * 666\<bar> \<le> \<bar>3 * 1000 :: int\<bar> \<and> \<bar>3 * 1000 :: int\<bar> - \<bar>4 * 666\<bar> \<le> \<bar>4\<bar> + \<bar>666\<bar>"
proof -
  have run: "split_position 1500000000 3 1000 = Inr (4, 666)"
    by (simp add: split_position_def narrow_def checked64_def SCALE_def int_range signed_divide_int_def Let_def)
  from split_position_value [OF run] run show ?thesis by simp
qed

lemma scaled_div_le:
  fixes Q r r' S :: int
  assumes "0 \<le> Q" and "0 < r" and "0 < r'" and "0 < S" and "r * r' \<le> S * S"
  shows "(Q * r div S) * r' div S \<le> Q"
proof -
  have "Q * r = (Q * r div S) * S + (Q * r) mod S" by simp
  moreover have "0 \<le> (Q * r) mod S" using assms(4) by simp
  ultimately have "(Q * r div S) * S \<le> Q * r" by linarith
  then have "(Q * r div S) * S * r' \<le> Q * r * r'"
    using assms(3) by (simp add: mult_right_mono)
  also have "\<dots> \<le> Q * (S * S)"
    using assms by (simp add: mult.assoc mult_left_mono)
  finally have "((Q * r div S) * r') * S \<le> (Q * S) * S" by (simp add: ac_simps)
  then have "(Q * r div S) * r' \<le> Q * S" using assms(4) by simp
  then have "(Q * r div S) * r' div S \<le> Q * S div S" using assms(4) by (intro zdiv_mono1)
  then show ?thesis using assms(4) by simp
qed

text \<open>
  Splitting by a ratio and back by one whose product with it is at most one never manufactures
  size. The hypothesis on the product is needed: the comment in the source promises it for the
  inverse ratio, and the inverse of 1.5 rounded to the nearest raw unit is above the exact one.
\<close>

theorem split_round_trip_shrinks:
  assumes "split_position r q p = Inr (q1, p1)" and "split_position r' q1 p1 = Inr (q2, p2)"
    and "r * r' \<le> SCALE * SCALE"
  shows "\<bar>q2\<bar> \<le> \<bar>q\<bar>"
  using scaled_div_le [of "\<bar>q\<bar>" r r' SCALE] assms
    split_position_abs(1) [OF assms(1)] split_position_abs(1) [OF assms(2)]
  by (auto simp: result_simps SCALE_def)

lemma split_round_trip_shrinks_witness:
  "split_position 3000000000 7 9 = Inr (21, 3) \<and> split_position 333333333 21 3 = Inr (6, 9)
   \<and> \<bar>6::int\<bar> \<le> \<bar>7\<bar>"
proof -
  have runs: "split_position 3000000000 7 9 = Inr (21, 3)" "split_position 333333333 21 3 = Inr (6, 9)"
    by (simp_all add: split_position_def narrow_def checked64_def SCALE_def int_range signed_divide_int_def Let_def)
  from split_round_trip_shrinks [OF runs] runs show ?thesis by (simp add: SCALE_def)
qed

lemma split_back_by_rounded_inverse_grows:
  "split_position 1500000000 2000000000000000000 1 = Inr (3000000000000000000, 0)
   \<and> split_position 666666667 3000000000000000000 0 = Inr (2000000001000000000, 0)"
  by (simp add: split_position_def narrow_def checked64_def SCALE_def int_range signed_divide_int_def Let_def)

section \<open>Universes\<close>

type_synonym universe = "(instrument_id, time_window list) btree_map"

definition universe_add :: "universe \<Rightarrow> instrument_id \<Rightarrow> time_window \<Rightarrow> universe" where
  "universe_add u instrument span =
     bt_insert instrument ((case bt_get u instrument of None \<Rightarrow> [] | Some spans \<Rightarrow> spans) @ [span]) u"

definition universe_contains :: "universe \<Rightarrow> instrument_id \<Rightarrow> unix_nanos \<Rightarrow> bool" where
  "universe_contains u instrument at =
     (case bt_get u instrument of
        None \<Rightarrow> False
      | Some spans \<Rightarrow> list_ex (\<lambda>span. w_contains span at) spans)"

definition members_at :: "universe \<Rightarrow> unix_nanos \<Rightarrow> instrument_id list" where
  "members_at u at = map fst (filter (\<lambda>(_, spans). list_ex (\<lambda>span. w_contains span at) spans) u)"

lemma universe_add_wf: "bt_wf u \<Longrightarrow> bt_wf (universe_add u i span)"
  by (simp add: universe_add_def bt_wf_insert)

lemma universe_add_contains:
  "bt_wf u \<Longrightarrow> universe_contains (universe_add u i span) j at
     \<longleftrightarrow> universe_contains u j at \<or> (j = i \<and> w_contains span at)"
  by (auto simp: universe_contains_def universe_add_def bt_get_insert split: option.splits)

lemma members_at_iff:
  assumes "bt_wf u"
  shows "i \<in> set (members_at u at) \<longleftrightarrow> universe_contains u i at"
  using bt_mem_iff [OF assms]
  by (force simp: members_at_def universe_contains_def split: option.splits)

lemma members_at_sorted: "bt_wf u \<Longrightarrow> sorted_wrt (<) (members_at u at)"
  unfolding members_at_def bt_wf_def
  by (induction u) (auto split: prod.splits)

end
