(* ===== verification/Orders.thy ===== *)
theory Orders
  imports Corporate
begin

text \<open>
  Orders, triggers and fills (\<open>h5i-db-backtest/src/order.rs\<close>). Identifiers of instruments are
  strings, outcomes and order numbers natural numbers.
\<close>

section \<open>Data\<close>

type_synonym order_id = nat
type_synonym outcome_id = nat

datatype order_kind = Market | Limit price

datatype time_in_force = GoodTilCancel | ImmediateOrCancel | FillOrKill

datatype order_status = InFlight | Untriggered | Accepted | PartiallyFilled | Filled | Cancelled | Rejected

fun is_terminal :: "order_status \<Rightarrow> bool" where
  "is_terminal Filled = True"
| "is_terminal Cancelled = True"
| "is_terminal Rejected = True"
| "is_terminal _ = False"

fun status_as_str :: "order_status \<Rightarrow> string" where
  "status_as_str InFlight = ''in_flight''"
| "status_as_str Untriggered = ''untriggered''"
| "status_as_str Accepted = ''accepted''"
| "status_as_str PartiallyFilled = ''partially_filled''"
| "status_as_str Filled = ''filled''"
| "status_as_str Cancelled = ''cancelled''"
| "status_as_str Rejected = ''rejected''"

datatype trigger_direction = Above | Below

record trigger =
  trg_price :: price
  trg_direction :: trigger_direction

definition stop_loss :: "side \<Rightarrow> price \<Rightarrow> trigger" where
  "stop_loss s p = \<lparr>trg_price = p, trg_direction = (case s of Sell \<Rightarrow> Below | Buy \<Rightarrow> Above)\<rparr>"

definition take_profit :: "side \<Rightarrow> price \<Rightarrow> trigger" where
  "take_profit s p = \<lparr>trg_price = p, trg_direction = (case s of Sell \<Rightarrow> Above | Buy \<Rightarrow> Below)\<rparr>"

definition trigger_above :: "price \<Rightarrow> trigger" where
  "trigger_above p = \<lparr>trg_price = p, trg_direction = Above\<rparr>"

definition trigger_below :: "price \<Rightarrow> trigger" where
  "trigger_below p = \<lparr>trg_price = p, trg_direction = Below\<rparr>"

definition fires_at :: "trigger \<Rightarrow> price \<Rightarrow> bool" where
  "fires_at t reference = (case trg_direction t of
     Above \<Rightarrow> reference \<ge> trg_price t | Below \<Rightarrow> reference \<le> trg_price t)"

record order =
  o_id :: order_id
  o_instrument :: instrument_id
  o_outcome :: outcome_id
  o_side :: side
  o_kind :: order_kind
  o_quantity :: qty
  o_filled :: qty
  o_time_in_force :: time_in_force
  o_status :: order_status
  o_submitted_at :: unix_nanos
  o_accepted_at :: "unix_nanos option"
  o_reject_reason :: "string option"
  o_tag :: "string option"
  o_reduce_only :: bool
  o_trigger :: "trigger option"
  o_post_only :: bool

section \<open>Operations\<close>

definition order_new :: "order_id \<Rightarrow> instrument_id \<Rightarrow> outcome_id \<Rightarrow> side \<Rightarrow> order_kind \<Rightarrow> qty
    \<Rightarrow> time_in_force \<Rightarrow> unix_nanos \<Rightarrow> order res" where
  "order_new i instrument outcome s kind quantity tif submitted_at =
     (if \<not> quantity > 0 then invalid ''order quantity must be positive''
      else Inr \<lparr>o_id = i, o_instrument = instrument, o_outcome = outcome, o_side = s, o_kind = kind,
        o_quantity = quantity, o_filled = 0, o_time_in_force = tif, o_status = InFlight,
        o_submitted_at = submitted_at, o_accepted_at = None, o_reject_reason = None, o_tag = None,
        o_reduce_only = False, o_trigger = None, o_post_only = False\<rparr>)"

definition order_market :: "order_id \<Rightarrow> instrument_id \<Rightarrow> outcome_id \<Rightarrow> side \<Rightarrow> qty \<Rightarrow> unix_nanos
    \<Rightarrow> order res" where
  "order_market i instrument outcome s quantity submitted_at =
     order_new i instrument outcome s Market quantity ImmediateOrCancel submitted_at"

definition order_limit :: "order_id \<Rightarrow> instrument_id \<Rightarrow> outcome_id \<Rightarrow> side \<Rightarrow> price \<Rightarrow> qty
    \<Rightarrow> unix_nanos \<Rightarrow> order res" where
  "order_limit i instrument outcome s lim quantity submitted_at =
     order_new i instrument outcome s (Limit lim) quantity GoodTilCancel submitted_at"

definition with_time_in_force :: "order \<Rightarrow> time_in_force \<Rightarrow> order" where
  "with_time_in_force ord tif = ord\<lparr>o_time_in_force := tif\<rparr>"

definition with_tag :: "order \<Rightarrow> string \<Rightarrow> order" where
  "with_tag ord tag = ord\<lparr>o_tag := Some tag\<rparr>"

definition reduce_only :: "order \<Rightarrow> order" where
  "reduce_only ord = ord\<lparr>o_reduce_only := True\<rparr>"

definition post_only :: "order \<Rightarrow> order" where
  "post_only ord = ord\<lparr>o_post_only := True\<rparr>"

definition with_trigger :: "order \<Rightarrow> trigger \<Rightarrow> order" where
  "with_trigger ord t = ord\<lparr>o_trigger := Some t\<rparr>"

definition remaining :: "order \<Rightarrow> qty" where
  "remaining ord = wrap64 (o_quantity ord - o_filled ord)"

definition is_open :: "order \<Rightarrow> bool" where
  "is_open ord \<longleftrightarrow> \<not> is_terminal (o_status ord)"

definition limit_price :: "order \<Rightarrow> price option" where
  "limit_price ord = (case o_kind ord of Market \<Rightarrow> None | Limit lim \<Rightarrow> Some lim)"

definition record_fill :: "order \<Rightarrow> qty \<Rightarrow> order res" where
  "record_fill ord quantity =
     and_then (qty_add (o_filled ord) quantity) (\<lambda>filled.
       if filled > o_quantity ord then invalid ''order would overfill''
       else let ord1 = ord\<lparr>o_filled := filled\<rparr>
            in Inr (ord1\<lparr>o_status := if o_filled ord1 = o_quantity ord1 then Filled
                                     else PartiallyFilled\<rparr>))"

record fill =
  f_order_id :: order_id
  f_instrument :: instrument_id
  f_outcome :: outcome_id
  f_side :: side
  f_price :: price
  f_quantity :: qty
  f_commission :: money
  f_is_taker :: bool
  f_ts :: unix_nanos
  f_tag :: "string option"

section \<open>Filling an order\<close>

definition order_wf :: "order \<Rightarrow> bool" where
  "order_wf ord \<longleftrightarrow> 0 < o_quantity ord \<and> in_i64 (o_quantity ord) \<and> 0 \<le> o_filled ord
     \<and> o_filled ord \<le> o_quantity ord
     \<and> (o_status ord = Filled \<longleftrightarrow> o_filled ord = o_quantity ord)"

lemma order_new_wf: "order_new i n oc s k q tif t = Inr ord \<Longrightarrow> in_i64 q \<Longrightarrow> order_wf ord \<and> remaining ord = q"
  by (auto simp: order_new_def order_wf_def remaining_def split: if_splits)

lemma order_wf_remaining:
  "order_wf ord \<Longrightarrow> remaining ord = o_quantity ord - o_filled ord"
  unfolding remaining_def by (intro wrap64_id) (auto simp: order_wf_def int_range)

lemma record_fill_Inr_iff:
  assumes "order_wf ord" and "0 \<le> q"
  shows "is_ok (record_fill ord q) \<longleftrightarrow> q \<le> remaining ord"
  using assms
  by (auto simp: record_fill_def order_wf_remaining checked_add_def checked64_def order_wf_def int_range Let_def)

lemma record_fill_wf:
  assumes "order_wf ord" and "0 \<le> q" and "record_fill ord q = Inr ord'"
  shows "order_wf ord' \<and> o_filled ord' = o_filled ord + q \<and> o_quantity ord' = o_quantity ord
    \<and> remaining ord' = remaining ord - q \<and> (is_open ord' \<longleftrightarrow> 0 < remaining ord')"
proof -
  have eq: "ord' = ord\<lparr>o_filled := o_filled ord + q,
      o_status := if o_filled ord + q = o_quantity ord then Filled else PartiallyFilled\<rparr>"
    and le: "o_filled ord + q \<le> o_quantity ord"
    using assms(3) by (auto simp: record_fill_def result_simps Let_def split: if_splits)
  have wf: "order_wf ord'" using assms(1,2) le by (auto simp: eq order_wf_def)
  show ?thesis
    using wf order_wf_remaining [OF wf] order_wf_remaining [OF assms(1)] le
    by (auto simp: eq is_open_def)
qed

text \<open>The fills the venue attempts, each recorded or refused.\<close>

definition attempt_fill :: "order \<Rightarrow> qty \<Rightarrow> order" where
  "attempt_fill ord q = (case record_fill ord q of Inl _ \<Rightarrow> ord | Inr ord' \<Rightarrow> ord')"

fun greedy_fills :: "qty \<Rightarrow> qty list \<Rightarrow> qty" where
  "greedy_fills left [] = 0"
| "greedy_fills left (q # qs) =
     (if q \<le> left then q + greedy_fills (left - q) qs else greedy_fills left qs)"

text \<open>
  C25: an order is never overfilled. Whatever sequence of non-negative fills is attempted on a new
  order, exactly those that fit the remaining quantity are recorded, the filled quantity is their sum
  and never exceeds the order, and the order is closed exactly when it is completely filled.
\<close>

theorem fills_never_exceed_order:
  assumes "order_new i n oc s k quantity tif t = Inr ord" and "in_i64 quantity" and "\<forall>q \<in> set qs. 0 \<le> q"
  shows "let ord' = foldl attempt_fill ord qs
    in o_filled ord' = greedy_fills quantity qs \<and> o_filled ord' \<le> quantity
       \<and> remaining ord' = quantity - o_filled ord'
       \<and> (is_terminal (o_status ord') \<longleftrightarrow> remaining ord' = 0)"
proof -
  have run: "order_wf (foldl attempt_fill od qs) \<and> o_quantity (foldl attempt_fill od qs) = o_quantity od
      \<and> o_filled (foldl attempt_fill od qs) = o_filled od + greedy_fills (remaining od) qs
      \<and> (is_open (foldl attempt_fill od qs) \<longleftrightarrow> 0 < remaining (foldl attempt_fill od qs))"
    if "order_wf od" "is_open od \<longleftrightarrow> 0 < remaining od" for od
    using assms(3) that
  proof (induction qs arbitrary: od)
    case (Cons q qs)
    show ?case
    proof (cases "record_fill od q")
      case (Inl e)
      with Cons show ?thesis
        using record_fill_Inr_iff [of od q] by (auto simp: attempt_fill_def)
    next
      case (Inr od')
      with Cons show ?thesis
        using record_fill_Inr_iff [of od q] record_fill_wf [of od q od']
        by (auto simp: attempt_fill_def)
    qed
  qed simp
  note new = order_new_wf [OF assms(1,2)]
  have "o_quantity ord = quantity" "o_filled ord = 0" "is_open ord" "0 < quantity"
    using assms(1) by (auto simp: order_new_def is_open_def split: if_splits)
  with run [of ord] new order_wf_remaining [of "foldl attempt_fill ord qs"] show ?thesis
    by (auto simp: Let_def is_open_def order_wf_def)
qed

lemma fills_never_exceed_order_witness:
  "o_filled (foldl attempt_fill
     (case order_new 1 ''X'' 0 Buy Market 10 ImmediateOrCancel 0 of Inr ord \<Rightarrow> ord) [4, 7, 6]) = 10"
proof -
  let ?ord = "case order_new 1 ''X'' 0 Buy Market 10 ImmediateOrCancel 0 of Inr ord \<Rightarrow> ord"
  have new: "order_new 1 ''X'' 0 Buy Market 10 ImmediateOrCancel 0 = Inr ?ord"
    by (simp add: order_new_def)
  have "o_filled (foldl attempt_fill ?ord [4, 7, 6]) = greedy_fills 10 [4, 7, 6]"
    using fills_never_exceed_order [OF new, of "[4, 7, 6]"] unfolding Let_def by (simp add: int_range)
  then show ?thesis by simp
qed

text \<open>A stop and a take-profit on the same side and price watch opposite directions.\<close>

lemma triggers_opposite:
  "fires_at (stop_loss s p) r \<or> fires_at (take_profit s p) r"
  "fires_at (stop_loss s p) r \<and> fires_at (take_profit s p) r \<longleftrightarrow> r = p"
  by (auto simp: fires_at_def stop_loss_def take_profit_def split: side.splits)

end
