(* ===== verification/Instruments.thy ===== *)
theory Instruments
  imports Currencies Orders
begin

text \<open>
  Instruments, price grids and complete sets (\<open>h5i-db-backtest/src/instrument.rs\<close>). The hash map of
  an \<open>InstrumentSet\<close> is only observed through lookups, its size and its sorted keys, so it is the
  same ordered association list as the other maps. An outcome number is a \<open>u16\<close>, so
  \<open>outcome_count\<close> keeps the low sixteen bits of the number of outcomes.
\<close>

section \<open>Data\<close>

datatype instrument_kind = PredictionMarket | Perpetual | Spot

fun is_probability :: "instrument_kind \<Rightarrow> bool" where
  "is_probability PredictionMarket = True"
| "is_probability _ = False"

fun is_funded :: "instrument_kind \<Rightarrow> bool" where
  "is_funded PredictionMarket = True"
| "is_funded Spot = True"
| "is_funded Perpetual = False"

datatype price_rule = Tick | SignificantFigures nat nat

record instrument =
  i_id :: instrument_id
  venue :: string
  i_kind :: instrument_kind
  outcomes :: "string list"
  tick_size :: price
  lot_size :: qty
  settlement_currency :: currency
  expiration :: "unix_nanos option"
  settlement_observable :: "unix_nanos option"
  neg_risk :: bool
  price_rule :: price_rule

section \<open>Constructors\<close>

definition instrument_id_new :: "string \<Rightarrow> instrument_id res" where
  "instrument_id_new i = (if trim i = [] then invalid ''instrument id must not be empty'' else Inr i)"

definition prediction_market :: "string \<Rightarrow> string \<Rightarrow> string list \<Rightarrow> instrument res" where
  "prediction_market i ven outs =
     (if length outs < 2 then invalid ''a prediction market needs at least two outcomes''
      else and_then (instrument_id_new i) (\<lambda>iid.
           and_then (currency_new ''USDC'') (\<lambda>cur.
             Inr \<lparr>i_id = iid, venue = ven, i_kind = PredictionMarket, outcomes = outs,
                  tick_size = SCALE sdiv 10000, lot_size = SCALE, settlement_currency = cur,
                  expiration = None, settlement_observable = None, neg_risk = False,
                  price_rule = Tick\<rparr>)))"

definition binary_market :: "string \<Rightarrow> string \<Rightarrow> instrument res" where
  "binary_market i ven = prediction_market i ven [''YES'', ''NO'']"

definition spot :: "string \<Rightarrow> string \<Rightarrow> instrument res" where
  "spot i ven =
     and_then (instrument_id_new i) (\<lambda>iid.
     and_then (currency_new ''USDC'') (\<lambda>cur.
       Inr \<lparr>i_id = iid, venue = ven, i_kind = Spot, outcomes = [''-''],
            tick_size = SCALE sdiv 100, lot_size = SCALE sdiv 1000, settlement_currency = cur,
            expiration = None, settlement_observable = None, neg_risk = False,
            price_rule = Tick\<rparr>))"

definition perpetual :: "string \<Rightarrow> string \<Rightarrow> instrument res" where
  "perpetual i ven =
     and_then (instrument_id_new i) (\<lambda>iid.
     and_then (currency_new ''USDC'') (\<lambda>cur.
       Inr \<lparr>i_id = iid, venue = ven, i_kind = Perpetual, outcomes = [''-''],
            tick_size = SCALE sdiv 100, lot_size = SCALE sdiv 1000, settlement_currency = cur,
            expiration = None, settlement_observable = None, neg_risk = False,
            price_rule = Tick\<rparr>))"

definition with_tick_size :: "instrument \<Rightarrow> price \<Rightarrow> instrument" where
  "with_tick_size ins tick = ins\<lparr>tick_size := tick\<rparr>"

definition with_lot_size :: "instrument \<Rightarrow> qty \<Rightarrow> instrument" where
  "with_lot_size ins lot = ins\<lparr>lot_size := lot\<rparr>"

definition with_settlement_currency :: "instrument \<Rightarrow> currency \<Rightarrow> instrument" where
  "with_settlement_currency ins cur = ins\<lparr>settlement_currency := cur\<rparr>"

definition with_expiration :: "instrument \<Rightarrow> unix_nanos \<Rightarrow> instrument" where
  "with_expiration ins at = ins\<lparr>expiration := Some at\<rparr>"

definition with_settlement_observable :: "instrument \<Rightarrow> unix_nanos \<Rightarrow> instrument" where
  "with_settlement_observable ins at = ins\<lparr>settlement_observable := Some at\<rparr>"

definition with_neg_risk :: "instrument \<Rightarrow> bool \<Rightarrow> instrument" where
  "with_neg_risk ins flag = ins\<lparr>neg_risk := flag\<rparr>"

definition with_price_rule :: "instrument \<Rightarrow> price_rule \<Rightarrow> instrument res" where
  "with_price_rule ins rule =
     (case rule of
        SignificantFigures significant_figures max_decimals \<Rightarrow>
          if significant_figures = 0 \<or> significant_figures > 18
          then invalid ''a significant-figure limit must lie in 1..=18''
          else if max_decimals > 9
          then invalid ''decimal places exceed the fixed-point scale''
          else Inr (ins\<lparr>tick_size := 10 ^ (9 - max_decimals), price_rule := rule\<rparr>)
      | Tick \<Rightarrow> Inr (ins\<lparr>price_rule := rule\<rparr>))"

section \<open>Outcomes\<close>

definition outcome_count :: "instrument \<Rightarrow> nat" where
  "outcome_count ins = length (outcomes ins) mod 65536"

definition outcome_ids :: "instrument \<Rightarrow> outcome_id list" where
  "outcome_ids ins = [0..<outcome_count ins]"

definition supports_complete_set :: "instrument \<Rightarrow> bool" where
  "supports_complete_set ins \<longleftrightarrow>
     i_kind ins = PredictionMarket \<and> (outcome_count ins = 2 \<or> neg_risk ins)"

definition outcome :: "instrument \<Rightarrow> outcome_id \<Rightarrow> string res" where
  "outcome ins oc =
     (if oc < length (outcomes ins) then Inr (outcomes ins ! oc)
      else Inl (UnknownOutcome (i_id ins) oc (outcome_count ins)))"

definition check_outcome :: "instrument \<Rightarrow> outcome_id \<Rightarrow> unit res" where
  "check_outcome ins oc = map_ok (\<lambda>_. ()) (outcome ins oc)"

section \<open>Prices\<close>

definition is_whole :: "price \<Rightarrow> bool" where
  "is_whole price \<longleftrightarrow> price smod SCALE = 0"

fun strip_zeros :: "nat \<Rightarrow> nat" where
  "strip_zeros n = (if 0 < n \<and> n mod 10 = 0 then strip_zeros (n div 10) else n)"

declare strip_zeros.simps [simp del]

fun count_digits :: "nat \<Rightarrow> nat" where
  "count_digits n = (if 0 < n then Suc (count_digits (n div 10)) else 0)"

declare count_digits.simps [simp del]

definition count_significant_figures :: "price \<Rightarrow> nat" where
  "count_significant_figures price =
     (let raw = nat \<bar>price\<bar>
      in if raw = 0 then 0 else count_digits (strip_zeros raw))"

definition check_price :: "instrument \<Rightarrow> price \<Rightarrow> unit res" where
  "check_price ins price =
     (if is_probability (i_kind ins) \<and> (price < PROBABILITY_MIN \<or> price > PROBABILITY_MAX)
      then invalid ''price is outside [0, 1]''
      else if tick_size ins > 0 \<and> price smod tick_size ins \<noteq> 0
      then invalid ''price is not a multiple of the tick size''
      else case price_rule ins of
             SignificantFigures significant_figures _ \<Rightarrow>
               if \<not> is_whole price \<and> count_significant_figures price > significant_figures
               then invalid ''price carries too many significant figures''
               else Inr ()
           | Tick \<Rightarrow> Inr ())"

definition truncate_to_significant_figures :: "raw \<Rightarrow> nat \<Rightarrow> raw" where
  "truncate_to_significant_figures raw figures =
     (if figures = 0 \<or> raw = 0 then raw
      else let magnitude = nat \<bar>raw\<bar>
           in if magnitude mod nat SCALE = 0 then raw
              else let digits = count_digits magnitude
                   in if digits \<le> figures then raw
                      else let drop = 10 ^ (digits - figures) in raw - raw smod drop)"

definition round_to_tick :: "instrument \<Rightarrow> price \<Rightarrow> price" where
  "round_to_tick ins price =
     (let tick = tick_size ins;
          raw = (if tick > 0 then price - price smod tick else price)
      in case price_rule ins of
           SignificantFigures significant_figures _ \<Rightarrow>
             truncate_to_significant_figures raw significant_figures
         | Tick \<Rightarrow> raw)"

definition completeness_error :: "instrument \<Rightarrow> price list \<Rightarrow> price res" where
  "completeness_error ins prices =
     (if length prices \<noteq> length (outcomes ins) then invalid ''wrong number of prices''
      else Inr (wrap64 (wrap64 (sum_list prices) - SCALE)))"

definition uniform_prices :: "nat \<Rightarrow> price list res" where
  "uniform_prices n =
     (if n = 0 then invalid ''cannot split one unit across zero outcomes''
      else let base = SCALE sdiv int n;
               remainder = SCALE smod int n
           in Inr (map (\<lambda>i. if i < nat remainder then base + 1 else base) [0..<n]))"

definition largest_index :: "price list \<Rightarrow> nat" where
  "largest_index ps = foldl (\<lambda>best i. if ps ! i > ps ! best then i else best) 0 [1..<length ps]"

definition normalise_to_one :: "price list \<Rightarrow> price list res" where
  "normalise_to_one prices =
     (if prices = [] then invalid ''cannot normalise an empty price set''
      else let total = sum_list prices
           in if total \<le> 0 \<or> list_ex (\<lambda>p. p < 0) prices
              then invalid ''outcome prices must be non-negative and sum to more than zero''
              else and_then (map_r (\<lambda>p. narrow ((p * SCALE) sdiv total) ''normalise_to_one'') prices)
                (\<lambda>scaled.
                   let residual = wrap64 (SCALE - wrap64 (sum_list scaled))
                   in if residual \<noteq> 0
                      then let largest = largest_index scaled
                           in Inr (scaled[largest := wrap64 (scaled ! largest + residual)])
                      else Inr scaled))"

section \<open>The set of instruments\<close>

type_synonym instrument_set = "(instrument_id, instrument) btree_map"

definition set_insert :: "instrument_set \<Rightarrow> instrument \<Rightarrow> instrument_set res" where
  "set_insert m ins =
     (if bt_get m (i_id ins) \<noteq> None then invalid ''instrument is already registered''
      else Inr (bt_insert (i_id ins) ins m))"

definition set_get :: "instrument_set \<Rightarrow> instrument_id \<Rightarrow> instrument res" where
  "set_get m i = ok_or (UnknownInstrument i) (bt_get m i)"

definition set_contains :: "instrument_set \<Rightarrow> instrument_id \<Rightarrow> bool" where
  "set_contains m i \<longleftrightarrow> bt_get m i \<noteq> None"

definition set_ids :: "instrument_set \<Rightarrow> instrument_id list" where
  "set_ids m = bt_keys m"

section \<open>Complete sets\<close>

lemma sum_list_indicator: "sum_list (map (\<lambda>i. if i < r then b + 1 else b) [0..<n]) = int n * b + int (min r n)"
  by (induction n) (auto simp: algebra_simps min_def)

lemma uniform_prices_exact:
  assumes "0 < n"
  shows "\<exists>ps. uniform_prices n = Inr ps \<and> length ps = n \<and> sum_list ps = SCALE
    \<and> (\<forall>p \<in> set ps. \<forall>p' \<in> set ps. \<bar>p - p'\<bar> \<le> 1)"
proof -
  have eqs: "SCALE sdiv int n = SCALE div int n" "SCALE smod int n = SCALE mod int n"
    by (simp_all add: sdiv_nonneg_eq smod_nonneg_eq)
  have r: "nat (SCALE mod int n) < n" using assms by (simp add: nat_less_iff)
  have "int n * (SCALE div int n) + SCALE mod int n = SCALE" by simp
  then have "sum_list (map (\<lambda>i. if i < nat (SCALE mod int n) then SCALE div int n + 1
      else SCALE div int n) [0..<n]) = SCALE"
    using r assms by (simp add: sum_list_indicator)
  then show ?thesis
    using assms by (auto simp: uniform_prices_def eqs Let_def)
qed

text \<open>
  Splitting one unit evenly is exact: for any number of outcomes the prices sum to exactly one
  and no two of them differ by more than one raw unit.
\<close>

theorem uniform_prices_sum_to_one:
  assumes "0 < n"
  shows "\<exists>ps. uniform_prices n = Inr ps \<and> length ps = n \<and> sum_list ps = SCALE
    \<and> (\<forall>p \<in> set ps. \<forall>p' \<in> set ps. \<bar>p - p'\<bar> \<le> 1)"
  using uniform_prices_exact [OF assms] .

lemma uniform_prices_sum_to_one_witness:
  "\<exists>ps. uniform_prices 3 = Inr ps \<and> length ps = 3 \<and> sum_list ps = SCALE"
  using uniform_prices_sum_to_one [of 3] by auto

lemma largest_index_max:
  assumes "ps \<noteq> []"
  shows "largest_index ps < length ps \<and> (\<forall>i < length ps. ps ! i \<le> ps ! largest_index ps)"
proof -
  have "foldl (\<lambda>best i. if ps ! i > ps ! best then i else best) 0 [1..<n] < n
      \<and> (\<forall>i < n. ps ! i \<le> ps ! foldl (\<lambda>best i. if ps ! i > ps ! best then i else best) 0 [1..<n])"
    if "0 < n" for n
    using that
  proof (induction n)
    case (Suc n)
    show ?case
    proof (cases "n = 0")
      case False
      with Suc.IH show ?thesis by (auto simp: upt_Suc less_Suc_eq)
    qed simp
  qed simp
  from this [of "length ps"] assms show ?thesis by (simp add: largest_index_def)
qed

lemma sum_list_update_int: "i < length xs \<Longrightarrow> sum_list (xs[i := xs ! i + d]) = sum_list xs + (d::int)"
  by (induction xs arbitrary: i) (auto split: nat.splits)

lemma sum_floor_bounds:
  fixes S t :: int
  assumes "0 < t" and "\<forall>p \<in> set ps. 0 \<le> p"
  shows "sum_list (map (\<lambda>p. p * S div t) ps) * t \<le> sum_list ps * S"
    and "ps \<noteq> [] \<Longrightarrow> sum_list ps * S < (sum_list (map (\<lambda>p. p * S div t) ps) + int (length ps)) * t"
proof -
  have lo: "p * S div t * t \<le> p * S" and hi: "p * S < (p * S div t + 1) * t" for p
    by (rule div_mult_bounds [OF assms(1)])+
  show "sum_list (map (\<lambda>p. p * S div t) ps) * t \<le> sum_list ps * S"
  proof (induction ps)
    case (Cons p ps)
    then show ?case using lo [of p] by (simp add: distrib_right)
  qed simp
  show "sum_list ps * S < (sum_list (map (\<lambda>p. p * S div t) ps) + int (length ps)) * t" if "ps \<noteq> []"
    using that
  proof (induction ps)
    case (Cons p ps)
    then show ?case using hi [of p] by (cases "ps = []") (simp_all add: distrib_right)
  qed simp
qed

lemma sum_list_nonneg_ge: "\<forall>p \<in> set ps. 0 \<le> (p::int) \<Longrightarrow> x \<in> set ps \<Longrightarrow> x \<le> sum_list ps"
proof (induction ps)
  case (Cons p ps)
  then show ?case using sum_list_nonneg [of ps] by auto
qed simp

text \<open>The truncated shares: each fits, and together they miss one by less than a raw unit per outcome.\<close>

definition floors :: "price list \<Rightarrow> price list" where
  "floors prices = map (\<lambda>p. p * SCALE div sum_list prices) prices"

lemma floors_facts:
  assumes "\<forall>p \<in> set prices. 0 \<le> p" and "0 < sum_list prices"
  shows "map_r (\<lambda>p. narrow ((p * SCALE) sdiv sum_list prices) ''normalise_to_one'') prices = Inr (floors prices)"
    and "\<forall>x \<in> set (floors prices). 0 \<le> x" and "sum_list (floors prices) \<le> SCALE"
    and "SCALE < sum_list (floors prices) + int (length prices)"
proof -
  let ?t = "sum_list prices"
  have ne: "prices \<noteq> []" using assms(2) by auto
  have le: "p * SCALE div ?t \<le> SCALE" and nn: "0 \<le> p * SCALE div ?t" if "p \<in> set prices" for p
  proof -
    have "p \<le> ?t" using sum_list_nonneg_ge [OF assms(1) that] .
    then have "p * SCALE \<le> SCALE * ?t" using assms(1) that by (simp add: mult.commute mult_left_mono)
    then have "p * SCALE div ?t \<le> SCALE * ?t div ?t" using assms(2) by (intro zdiv_mono1)
    then show "p * SCALE div ?t \<le> SCALE" using assms(2) by simp
    show "0 \<le> p * SCALE div ?t" using assms that by (simp add: pos_imp_zdiv_nonneg_iff)
  qed
  have fits: "narrow ((p * SCALE) sdiv ?t) w = Inr (p * SCALE div ?t)" if "p \<in> set prices" for p w
    using le [OF that] nn [OF that] assms that
    by (simp add: sdiv_nonneg_eq) (simp add: result_simps int_range SCALE_def)
  show "map_r (\<lambda>p. narrow ((p * SCALE) sdiv ?t) ''normalise_to_one'') prices = Inr (floors prices)"
    using fits by (auto simp: map_r_Inr_iff floors_def list_all2_conv_all_nth)
  note bounds = sum_floor_bounds [OF assms(2,1), of SCALE, folded floors_def]
  show "\<forall>x \<in> set (floors prices). 0 \<le> x" using nn by (auto simp: floors_def)
  show "sum_list (floors prices) \<le> SCALE"
  proof -
    have "sum_list (floors prices) * ?t \<le> SCALE * ?t" using bounds(1) by (simp add: mult.commute)
    then show ?thesis using assms(2) by simp
  qed
  show "SCALE < sum_list (floors prices) + int (length prices)"
  proof -
    have "SCALE * ?t < (sum_list (floors prices) + int (length prices)) * ?t"
      using bounds(2) [OF ne] by (simp add: mult.commute)
    then show ?thesis using assms(2) by simp
  qed
qed



section \<open>Rounding onto the grid\<close>

lemma count_digits_0 [simp]: "count_digits 0 = 0"
  by (simp add: count_digits.simps)

lemma count_digits_pos: "0 < n \<Longrightarrow> count_digits n = Suc (count_digits (n div 10))"
  by (simp add: count_digits.simps)

lemma count_digits_mono: "m \<le> n \<Longrightarrow> count_digits m \<le> count_digits n"
proof (induction n arbitrary: m rule: less_induct)
  case (less n)
  then show ?case
    using div_le_mono [OF less.prems, of 10]
    by (cases "m = 0") (auto simp: count_digits_pos [of m] count_digits_pos [of n])
qed

lemma strip_zeros_le: "count_digits (strip_zeros n) \<le> count_digits n"
proof (induction n rule: strip_zeros.induct)
  case (1 n)
  then show ?case
    by (subst strip_zeros.simps) (auto simp: count_digits_pos [of n] le_Suc_eq)
qed

lemma strip_zeros_10: "0 < m \<Longrightarrow> strip_zeros (10 * m) = strip_zeros m"
  by (subst strip_zeros.simps) simp

lemma significant_digits:
  assumes "0 < m"
  shows "count_digits (strip_zeros (10 ^ k * m)) + k \<le> count_digits (10 ^ k * m)"
proof (induction k)
  case 0
  then show ?case by (simp add: strip_zeros_le)
next
  case (Suc k)
  have pos: "0 < 10 ^ k * m" using assms by simp
  have "10 ^ Suc k * m = 10 * (10 ^ k * m)" by simp
  with Suc show ?case
    using pos by (simp only: strip_zeros_10 [OF pos] count_digits_pos [of "10 * (10 ^ k * m)"]) simp
qed

lemma smod_abs_le: "\<bar>x - x smod d\<bar> \<le> \<bar>x\<bar>" and smod_sign: "0 \<le> x \<Longrightarrow> 0 \<le> x - x smod d"
  if "0 < d" for x d :: int
proof -
  have eq: "x - x smod d = x sdiv d * d" using sdiv_mult_smod_eq [of x d] by simp
  show "\<bar>x - x smod d\<bar> \<le> \<bar>x\<bar>"
  proof (cases "0 \<le> x")
    case True
    then show ?thesis
      using that div_mult_bounds(1) [OF that, of x] unfolding eq
      by (simp add: sdiv_nonneg_eq pos_imp_zdiv_nonneg_iff)
  next
    case False
    then show ?thesis
      using that div_mult_bounds(1) [OF that, of "- x"] unfolding eq
      by (simp add: sdiv_neg_eq abs_mult pos_imp_zdiv_nonneg_iff)
  qed
  show "0 \<le> x - x smod d" if "0 \<le> x"
    using that \<open>0 < d\<close> unfolding eq by (simp add: sdiv_sign)
qed

lemma smod_dvd: "0 < d \<Longrightarrow> d dvd (x - x smod (d::int))"
  using sdiv_mult_smod_eq [of x d] by (metis add_diff_cancel_right' dvd_triv_right)

lemma smod_eq_0_iff: "0 < d \<Longrightarrow> x smod d = 0 \<longleftrightarrow> d dvd (x::int)"
  by (cases "0 \<le> x") (simp_all add: smod_nonneg_eq smod_neg_eq mod_eq_0_iff_dvd)

lemma whole_iff: "is_whole x \<longleftrightarrow> SCALE dvd x"
  by (simp add: is_whole_def smod_eq_0_iff)

lemma whole_magnitude: "nat \<bar>r\<bar> mod nat SCALE = 0 \<longleftrightarrow> is_whole r"
proof -
  have "int (nat \<bar>r\<bar> mod nat SCALE) = \<bar>r\<bar> mod SCALE" by (simp add: zmod_int)
  then have "nat \<bar>r\<bar> mod nat SCALE = 0 \<longleftrightarrow> \<bar>r\<bar> mod SCALE = 0" by linarith
  then show ?thesis by (simp add: whole_iff mod_eq_0_iff_dvd)
qed

text \<open>Truncation either keeps the number or clears everything below a power of ten.\<close>

lemma truncate_cases:
  assumes "0 < figures"
  obtains (kept) "truncate_to_significant_figures r figures = r"
      and "is_whole r \<or> count_significant_figures r \<le> figures"
    | (cut) k where "truncate_to_significant_figures r figures = r - r smod 10 ^ k"
      and "count_digits (nat \<bar>r\<bar>) = k + figures"
proof (cases "r = 0 \<or> is_whole r \<or> count_digits (nat \<bar>r\<bar>) \<le> figures")
  case True
  then have "truncate_to_significant_figures r figures = r"
    by (auto simp: truncate_to_significant_figures_def Let_def whole_magnitude)
  moreover have "is_whole r \<or> count_significant_figures r \<le> figures"
    using True strip_zeros_le [of "nat \<bar>r\<bar>"] by (auto simp: count_significant_figures_def Let_def)
  ultimately show ?thesis by (rule kept)
next
  case False
  then have "truncate_to_significant_figures r figures = r - r smod 10 ^ (count_digits (nat \<bar>r\<bar>) - figures)"
    using assms by (auto simp: truncate_to_significant_figures_def Let_def whole_magnitude)
  with False show ?thesis by (intro cut) auto
qed

lemma cut_figures:
  assumes "count_digits (nat \<bar>r\<bar>) = k + figures"
  shows "count_significant_figures (r - r smod 10 ^ k) \<le> figures"
proof -
  let ?r = "r - r smod 10 ^ k"
  have "10 ^ k dvd \<bar>?r\<bar>" using smod_dvd [of "10 ^ k" r] by simp
  then have "10 ^ k dvd nat \<bar>?r\<bar>" by (metis int_nat_eq abs_ge_zero int_dvd_int_iff of_nat_numeral of_nat_power)
  then obtain m where m: "nat \<bar>?r\<bar> = 10 ^ k * m" ..
  show ?thesis
  proof (cases "?r = 0")
    case False
    then have "0 < m" using m by (cases m) auto
    have "count_digits (nat \<bar>?r\<bar>) \<le> k + figures"
      unfolding assms [symmetric] using smod_abs_le [of "10 ^ k" r] by (intro count_digits_mono nat_mono) simp
    with significant_digits [OF \<open>0 < m\<close>, of k] False show ?thesis
      by (simp add: count_significant_figures_def Let_def m)
  qed (simp add: count_significant_figures_def)
qed

lemma truncate_figures:
  assumes "0 < figures"
  shows "\<bar>truncate_to_significant_figures r figures\<bar> \<le> \<bar>r\<bar>
    \<and> (0 \<le> r \<longrightarrow> 0 \<le> truncate_to_significant_figures r figures)
    \<and> (is_whole (truncate_to_significant_figures r figures)
        \<or> count_significant_figures (truncate_to_significant_figures r figures) \<le> figures)
    \<and> ((10::int) ^ j dvd r \<longrightarrow> 10 ^ j dvd truncate_to_significant_figures r figures)"
  using assms
proof (cases rule: truncate_cases [of figures r])
  case kept
  then show ?thesis by simp
next
  case (cut k)
  have "10 ^ j dvd r - r smod 10 ^ k" if dv: "(10::int) ^ j dvd r"
  proof (cases "j \<le> k")
    case True
    then show ?thesis
      using smod_dvd [of "10 ^ k" r] le_imp_power_dvd [OF True, of "10::int"] by (auto intro: dvd_trans)
  next
    case False
    then have "(10::int) ^ k dvd r" using le_imp_power_dvd [of k j "10::int"] dv by (auto intro: dvd_trans)
    with dv show ?thesis by (simp add: smod_eq_0_iff [THEN iffD2])
  qed
  then show ?thesis
    using cut smod_abs_le [of "10 ^ k" r] smod_sign [of "10 ^ k" r] cut_figures [OF cut(2)] by simp
qed

text \<open>
  What the constructors guarantee of a price grid: a positive tick, which under a
  significant-figure rule is a power of ten.
\<close>

definition grid_wf :: "instrument \<Rightarrow> bool" where
  "grid_wf ins \<longleftrightarrow> (case price_rule ins of
      Tick \<Rightarrow> 0 < tick_size ins
    | SignificantFigures figures decimals \<Rightarrow>
        0 < figures \<and> decimals \<le> 9 \<and> tick_size ins = 10 ^ (9 - decimals))"

lemma with_price_rule_grid: "with_price_rule ins rule = Inr ins' \<Longrightarrow> grid_wf ins \<Longrightarrow> rule \<noteq> Tick \<Longrightarrow> grid_wf ins'"
  by (auto simp: with_price_rule_def grid_wf_def split: price_rule.splits if_splits)

lemma round_to_tick_facts:
  assumes "grid_wf ins"
  shows "\<bar>round_to_tick ins p\<bar> \<le> \<bar>p\<bar> \<and> (0 \<le> p \<longrightarrow> 0 \<le> round_to_tick ins p)
    \<and> round_to_tick ins p smod tick_size ins = 0
    \<and> (\<forall>figures decimals. price_rule ins = SignificantFigures figures decimals \<longrightarrow>
         is_whole (round_to_tick ins p) \<or> count_significant_figures (round_to_tick ins p) \<le> figures)"
proof -
  define r where "r = p - p smod tick_size ins"
  have tick: "0 < tick_size ins" using assms by (auto simp: grid_wf_def split: price_rule.splits)
  have r: "\<bar>r\<bar> \<le> \<bar>p\<bar>" "0 \<le> p \<longrightarrow> 0 \<le> r" "tick_size ins dvd r"
    using smod_abs_le [OF tick, of p] smod_sign [OF tick, of p] smod_dvd [OF tick, of p] by (auto simp: r_def)
  show ?thesis
  proof (cases "price_rule ins")
    case Tick
    then have "round_to_tick ins p = r" using tick by (simp add: round_to_tick_def r_def)
    with r tick Tick show ?thesis by (simp add: smod_eq_0_iff)
  next
    case (SignificantFigures figures decimals)
    then have eq: "round_to_tick ins p = truncate_to_significant_figures r figures"
      using tick by (simp add: round_to_tick_def r_def)
    have fg: "0 < figures" "tick_size ins = 10 ^ (9 - decimals)"
      using assms SignificantFigures by (auto simp: grid_wf_def)
    show ?thesis
      using truncate_figures [OF fg(1), of r "9 - decimals"] r fg(2) SignificantFigures
      by (auto simp: eq smod_eq_0_iff)
  qed
qed

text \<open>
  C30: rounding produces a price the venue accepts. For every instrument whose grid the constructors
  set, rounding never moves a price away from zero, the result passes \<open>check_price\<close> (for a
  probability instrument, whenever the price was a probability), and a price that passes is its own
  rounding when the grid is a plain tick.
\<close>

theorem round_to_tick_is_accepted:
  assumes "grid_wf ins" and "is_probability (i_kind ins) \<longrightarrow> 0 \<le> p \<and> p \<le> SCALE"
  shows "check_price ins (round_to_tick ins p) = Inr () \<and> \<bar>round_to_tick ins p\<bar> \<le> \<bar>p\<bar>
    \<and> (price_rule ins = Tick \<and> check_price ins p = Inr () \<longrightarrow> round_to_tick ins p = p)"
proof -
  note facts = round_to_tick_facts [OF assms(1), of p]
  have "check_price ins (round_to_tick ins p) = Inr ()"
    using facts assms(2)
    by (auto simp: check_price_def PROBABILITY_MIN_def PROBABILITY_MAX_def not_less
        split: price_rule.splits)
  moreover have "round_to_tick ins p = p" if "price_rule ins = Tick" "check_price ins p = Inr ()"
    using that assms(1) by (auto simp: check_price_def round_to_tick_def grid_wf_def Let_def split: if_splits)
  ultimately show ?thesis using facts by blast
qed

definition sample_instrument :: instrument where
  "sample_instrument = \<lparr>i_id = ''X'', venue = ''v'', i_kind = Perpetual, outcomes = [''-''],
     tick_size = 1000, lot_size = SCALE, settlement_currency = ''USDC'', expiration = None,
     settlement_observable = None, neg_risk = False, price_rule = SignificantFigures 5 6\<rparr>"

lemma round_to_tick_is_accepted_witness:
  "check_price sample_instrument (round_to_tick sample_instrument 1234567890) = Inr ()
   \<and> round_to_tick sample_instrument 1234567890 = 1234500000"
proof -
  have "grid_wf sample_instrument" by (simp add: grid_wf_def sample_instrument_def)
  from round_to_tick_is_accepted [OF this, of 1234567890]
  have "check_price sample_instrument (round_to_tick sample_instrument 1234567890) = Inr ()"
    by (simp add: sample_instrument_def)
  then show ?thesis
    by (simp add: round_to_tick_def sample_instrument_def truncate_to_significant_figures_def
        count_digits.simps SCALE_def Let_def smod_nonneg_eq)
qed

end
