(* ===== verification/Positions.thy ===== *)
theory Positions
  imports Orders
begin

text \<open>
  Positions as a fold over fills, and the portfolio (\<open>h5i-db-backtest/src/position.rs\<close>). Both
  \<open>apply\<close> functions change fields before their last fallible step, so their models return the new
  state beside the result; the plain \<open>i64\<close> sums, products and absolute values wrap.
\<close>

section \<open>A position\<close>

type_synonym position_key = "instrument_id \<times> outcome_id"

record position =
  p_instrument :: instrument_id
  p_outcome :: outcome_id
  p_quantity :: qty
  p_average_price :: price
  p_realized_pnl :: money
  p_commissions :: money
  p_fill_count :: nat

definition position_new :: "instrument_id \<Rightarrow> outcome_id \<Rightarrow> position" where
  "position_new instrument outcome =
     \<lparr>p_instrument = instrument, p_outcome = outcome, p_quantity = 0, p_average_price = 0,
      p_realized_pnl = 0, p_commissions = 0, p_fill_count = 0\<rparr>"

definition is_flat :: "position \<Rightarrow> bool" where
  "is_flat p \<longleftrightarrow> p_quantity p = 0"

text \<open>The first half of \<open>apply\<close>: the price and the realised profit.\<close>

definition reprice :: "position \<Rightarrow> fill \<Rightarrow> position res" where
  "reprice p f =
     (let signed = wrap64 (f_quantity f * signum (f_side f));
          before = p_quantity p;
          after = wrap64 (before + signed)
      in if before = 0 \<or> (before > 0) = (signed > 0)
         then let existing = p_average_price p * fixed_abs before;
                  incoming = f_price f * fixed_abs signed;
                  total = fixed_abs before + fixed_abs signed
              in if total = 0 then Inr (p\<lparr>p_average_price := 0\<rparr>)
                 else and_then (narrow ((existing + incoming) sdiv total) ''Position::average_price'')
                        (\<lambda>a. Inr (p\<lparr>p_average_price := a\<rparr>))
         else let closing = min (fixed_abs signed) (fixed_abs before);
                  direction = (if before > 0 then 1 else -1);
                  per_unit = wrap64 (wrap64 (f_price f - p_average_price p) * direction)
              in and_then (notional per_unit closing) (\<lambda>realized.
                 and_then (money_add (p_realized_pnl p) realized) (\<lambda>pnl.
                   let p1 = p\<lparr>p_realized_pnl := pnl\<rparr>
                   in Inr (if after = 0 then p1\<lparr>p_average_price := 0\<rparr>
                           else if (after > 0) \<noteq> (before > 0) then p1\<lparr>p_average_price := f_price f\<rparr>
                           else p1))))"

definition position_apply :: "position \<Rightarrow> fill \<Rightarrow> position \<times> unit res" where
  "position_apply p f =
     (case reprice p f of
        Inl e \<Rightarrow> (p, Inl e)
      | Inr p1 \<Rightarrow>
          let p2 = p1\<lparr>p_quantity := wrap64 (p_quantity p + wrap64 (f_quantity f * signum (f_side f)))\<rparr>
          in case money_add (p_commissions p2) (f_commission f) of
               Inl e \<Rightarrow> (p2, Inl e)
             | Inr c \<Rightarrow>
                 let p3 = p2\<lparr>p_commissions := c\<rparr>
                 in case money_sub (p_realized_pnl p3) (f_commission f) of
                      Inl e \<Rightarrow> (p3, Inl e)
                    | Inr r \<Rightarrow> (p3\<lparr>p_realized_pnl := r, p_fill_count := p_fill_count p3 + 1\<rparr>, Inr ()))"

definition position_apply_split :: "position \<Rightarrow> price \<Rightarrow> position res" where
  "position_apply_split p ratio =
     (if is_flat p then Inr p
      else and_then (split_position ratio (p_quantity p) (p_average_price p)) (\<lambda>(quantity, basis).
        Inr (p\<lparr>p_quantity := quantity, p_average_price := basis\<rparr>)))"

definition unrealized_pnl :: "position \<Rightarrow> price \<Rightarrow> money res" where
  "unrealized_pnl p mark =
     (if is_flat p then Inr 0
      else notional (wrap64 (mark - p_average_price p)) (p_quantity p))"

definition exposure :: "position \<Rightarrow> price \<Rightarrow> money res" where
  "exposure p mark = notional mark (p_quantity p)"

section \<open>The portfolio\<close>

record portfolio =
  positions :: "(position_key, position) btree_map"
  marks :: "(position_key, price) btree_map"

definition portfolio_new :: portfolio where
  "portfolio_new = \<lparr>positions = [], marks = []\<rparr>"

definition fill_key :: "fill \<Rightarrow> position_key" where
  "fill_key f = (f_instrument f, f_outcome f)"

definition portfolio_apply :: "portfolio \<Rightarrow> fill \<Rightarrow> portfolio \<times> unit res" where
  "portfolio_apply pf f =
     (let p = (case bt_get (positions pf) (fill_key f) of
                 None \<Rightarrow> position_new (f_instrument f) (f_outcome f) | Some p \<Rightarrow> p)
      in case position_apply p f of
           (p', r) \<Rightarrow> (pf\<lparr>positions := bt_insert (fill_key f) p' (positions pf)\<rparr>, r))"

definition portfolio_step :: "portfolio \<Rightarrow> fill \<Rightarrow> portfolio res" where
  "portfolio_step pf f = (case portfolio_apply pf f of (pf', r) \<Rightarrow> and_then r (\<lambda>_. Inr pf'))"

definition portfolio_replay :: "fill list \<Rightarrow> portfolio res" where
  "portfolio_replay fills = fold_r portfolio_step portfolio_new fills"

fun split_positions :: "instrument_id \<Rightarrow> price \<Rightarrow> (position_key, position) btree_map
    \<Rightarrow> (position_key, position) btree_map \<times> unit res" where
  "split_positions instrument ratio [] = ([], Inr ())"
| "split_positions instrument ratio ((k, p) # ps) =
     (if p_instrument p = instrument
      then case position_apply_split p ratio of
             Inl e \<Rightarrow> ((k, p) # ps, Inl e)
           | Inr p' \<Rightarrow> (case split_positions instrument ratio ps of (ps', r) \<Rightarrow> ((k, p') # ps', r))
      else case split_positions instrument ratio ps of (ps', r) \<Rightarrow> ((k, p) # ps', r))"

definition portfolio_apply_split :: "portfolio \<Rightarrow> instrument_id \<Rightarrow> price \<Rightarrow> portfolio \<times> unit res" where
  "portfolio_apply_split pf instrument ratio =
     (case split_positions instrument ratio (positions pf) of
        (ps, r) \<Rightarrow> (pf\<lparr>positions := ps\<rparr>, r))"

definition dividend_due :: "portfolio \<Rightarrow> instrument_id \<Rightarrow> money \<Rightarrow> money res" where
  "dividend_due pf instrument per_share =
     fold_r (\<lambda>total p.
       if p_instrument p \<noteq> instrument \<or> is_flat p then Inr total
       else and_then (notional per_share (p_quantity p)) (\<lambda>due. money_add total due))
     0 (map snd (positions pf))"

definition portfolio_mark :: "portfolio \<Rightarrow> instrument_id \<Rightarrow> outcome_id \<Rightarrow> price \<Rightarrow> portfolio" where
  "portfolio_mark pf instrument outcome price =
     pf\<lparr>marks := bt_insert (instrument, outcome) price (marks pf)\<rparr>"

definition position_of :: "portfolio \<Rightarrow> instrument_id \<Rightarrow> outcome_id \<Rightarrow> position option" where
  "position_of pf instrument outcome = bt_get (positions pf) (instrument, outcome)"

definition open_positions :: "portfolio \<Rightarrow> position list" where
  "open_positions pf = filter (\<lambda>p. \<not> is_flat p) (map snd (positions pf))"

definition portfolio_realized_pnl :: "portfolio \<Rightarrow> money res" where
  "portfolio_realized_pnl pf =
     fold_r (\<lambda>total p. money_add total (p_realized_pnl p)) 0 (map snd (positions pf))"

definition portfolio_commissions :: "portfolio \<Rightarrow> money res" where
  "portfolio_commissions pf =
     fold_r (\<lambda>total p. money_add total (p_commissions p)) 0 (map snd (positions pf))"

definition portfolio_unrealized_pnl :: "portfolio \<Rightarrow> money res" where
  "portfolio_unrealized_pnl pf =
     fold_r (\<lambda>total p. case bt_get (marks pf) (p_instrument p, p_outcome p) of
         None \<Rightarrow> Inr total
       | Some mark \<Rightarrow> and_then (unrealized_pnl p mark) (\<lambda>u. money_add total u))
     0 (map snd (positions pf))"

definition unmarked :: "portfolio \<Rightarrow> position list" where
  "unmarked pf = filter (\<lambda>p. \<not> is_flat p \<and> bt_get (marks pf) (p_instrument p, p_outcome p) = None)
     (map snd (positions pf))"

definition gross_exposure :: "portfolio \<Rightarrow> money res" where
  "gross_exposure pf =
     fold_r (\<lambda>total p. case bt_get (marks pf) (p_instrument p, p_outcome p) of
         None \<Rightarrow> Inr total
       | Some mark \<Rightarrow> and_then (exposure p mark) (\<lambda>e. money_add total (fixed_abs e)))
     0 (map snd (positions pf))"

section \<open>One fill\<close>

definition signed_quantity :: "fill \<Rightarrow> int" where
  "signed_quantity f = f_quantity f * signum (f_side f)"

definition fill_ok :: "fill \<Rightarrow> bool" where
  "fill_ok f \<longleftrightarrow> 0 < f_quantity f \<and> in_i64 (f_quantity f) \<and> 0 \<le> f_price f \<and> in_i64 (f_price f)"

definition position_wf :: "position \<Rightarrow> bool" where
  "position_wf p \<longleftrightarrow> 0 \<le> p_average_price p \<and> in_i64 (p_average_price p)
     \<and> (p_quantity p = 0 \<longrightarrow> p_average_price p = 0)"

text \<open>Profit before costs, so that commissions drop out of the comparison with the cash flow.\<close>

definition gross_pnl :: "position \<Rightarrow> int" where
  "gross_pnl p = p_realized_pnl p + p_commissions p"

lemma abs_signed_quantity: "0 < f_quantity f \<Longrightarrow> \<bar>signed_quantity f\<bar> = f_quantity f"
  by (cases "f_side f") (auto simp: signed_quantity_def)

lemma signed_quantity_fits: "fill_ok f \<Longrightarrow> in_i64 (signed_quantity f)"
  by (cases "f_side f") (auto simp: signed_quantity_def fill_ok_def int_range)

lemma fixed_abs_fits: "\<bar>a\<bar> \<le> i64_max \<Longrightarrow> fixed_abs a = \<bar>a\<bar>"
  unfolding fixed_abs_def by (intro wrap64_id) (auto simp: int_range)

text \<open>The arithmetic of \<open>apply\<close> when nothing overflows an \<open>i64\<close>.\<close>

lemma reprice_exact:
  assumes "position_wf p" and "fill_ok f" and "\<bar>p_quantity p\<bar> + f_quantity f \<le> i64_max"
  defines "q \<equiv> p_quantity p" and "s \<equiv> signed_quantity f"
    and "a \<equiv> p_average_price p" and "x \<equiv> f_price f"
  shows "reprice p f =
    (if q = 0 \<or> (q > 0) = (s > 0)
     then and_then (narrow ((a * \<bar>q\<bar> + x * \<bar>s\<bar>) sdiv (\<bar>q\<bar> + \<bar>s\<bar>)) ''Position::average_price'')
            (\<lambda>a'. Inr (p\<lparr>p_average_price := a'\<rparr>))
     else and_then (notional ((x - a) * sgn q) (min \<bar>s\<bar> \<bar>q\<bar>)) (\<lambda>realized.
          and_then (money_add (p_realized_pnl p) realized) (\<lambda>pnl.
            Inr (p\<lparr>p_realized_pnl := pnl,
                   p_average_price := if q + s = 0 then 0
                     else if (q + s > 0) \<noteq> (q > 0) then x else a\<rparr>))))"
proof -
  have s: "wrap64 (f_quantity f * signum (f_side f)) = s"
    using signed_quantity_fits [OF assms(2)] by (simp add: s_def signed_quantity_def)
  have as: "\<bar>s\<bar> = f_quantity f" "0 < \<bar>s\<bar>"
    using assms(2) by (auto simp: s_def abs_signed_quantity fill_ok_def)
  have "\<bar>q\<bar> \<le> i64_max" "\<bar>s\<bar> \<le> i64_max" and fits: "in_i64 (q + s)"
    using assms(3) as by (auto simp: q_def int_range)
  then have fits: "in_i64 (q + s)" "fixed_abs q = \<bar>q\<bar>" "fixed_abs s = \<bar>s\<bar>"
    by (auto simp: fixed_abs_fits)
  have diff: "in_i64 (x - a)" "in_i64 (a - x)"
    using assms(1,2) by (auto simp: x_def a_def position_wf_def fill_ok_def int_range)
  have unit: "wrap64 (wrap64 (x - a) * (if q > 0 then 1 else -1)) = (x - a) * sgn q" if "q \<noteq> 0"
    using diff that by (auto simp: sgn_if)
  have total: "\<bar>q\<bar> + \<bar>s\<bar> \<noteq> 0" using as by linarith
  have same: "p\<lparr>p_realized_pnl := r, p_average_price := a\<rparr> = p\<lparr>p_realized_pnl := r\<rparr>" for r
    by (cases p) (simp add: a_def)
  show ?thesis
    using fits total unit
    by (auto simp: same reprice_def Let_def s simp flip: q_def a_def x_def cong: if_cong)
qed

lemma weighted_average_bounds:
  fixes a x m n :: int
  assumes "0 \<le> a" and "0 \<le> x" and "0 \<le> m" and "0 < n"
  defines "v \<equiv> (a * m + x * n) sdiv (m + n)"
  shows "0 \<le> v" and "v \<le> max a x" and "0 \<le> a * m + x * n - v * (m + n)"
    and "a * m + x * n - v * (m + n) < m + n"
proof -
  have nn: "0 \<le> a * m + x * n" and d: "0 < m + n" using assms by auto
  have v: "v = (a * m + x * n) div (m + n)" unfolding v_def using nn d by (simp add: sdiv_nonneg_eq)
  show "0 \<le> v" using nn d by (simp add: v pos_imp_zdiv_nonneg_iff)
  have "a * m \<le> max a x * m" "x * n \<le> max a x * n" using assms by (auto intro: mult_right_mono)
  then have "a * m + x * n \<le> max a x * (m + n)" by (simp add: distrib_left)
  then have "v \<le> max a x * (m + n) div (m + n)" unfolding v using d by (intro zdiv_mono1)
  then show "v \<le> max a x" using d by simp
  have eq: "a * m + x * n - v * (m + n) = (a * m + x * n) mod (m + n)"
    unfolding v by (simp add: minus_div_mult_eq_mod)
  show "0 \<le> a * m + x * n - v * (m + n)" "a * m + x * n - v * (m + n) < m + n"
    unfolding eq using d by simp_all
qed

text \<open>
  The step of the accounting identity: one fill moves \<open>gross profit - basis + cash paid\<close> by no more
  than the rounding of one division.
\<close>

definition basis :: "position \<Rightarrow> int" where
  "basis p = p_quantity p * p_average_price p"

lemma position_apply_Inr:
  assumes "position_apply p f = (p', Inr ())"
  obtains p1 where "reprice p f = Inr p1"
    and "p' = p1\<lparr>p_quantity := wrap64 (p_quantity p + wrap64 (f_quantity f * signum (f_side f))),
      p_commissions := p_commissions p1 + f_commission f,
      p_realized_pnl := p_realized_pnl p1 - f_commission f, p_fill_count := p_fill_count p1 + 1\<rparr>"
  using assms
  by (auto simp: position_apply_def Let_def result_simps split: sum.splits)

lemma reprice_step:
  assumes "reprice p f = Inr p1" and "position_wf p" and "fill_ok f"
    and "\<bar>p_quantity p\<bar> + f_quantity f \<le> i64_max"
  defines "q' \<equiv> p_quantity p + signed_quantity f"
  shows "p1 = p\<lparr>p_realized_pnl := p_realized_pnl p1, p_average_price := p_average_price p1\<rparr>
    \<and> (0 \<le> p_average_price p1 \<and> in_i64 (p_average_price p1) \<and> (q' = 0 \<longrightarrow> p_average_price p1 = 0))
    \<and> \<bar>(p_realized_pnl p1 - p_realized_pnl p) * SCALE - q' * p_average_price p1 + basis p
          + signed_quantity f * f_price f\<bar> \<le> max (SCALE div 2) \<bar>q'\<bar>"
proof -
  define q s a x where "q = p_quantity p" and "s = signed_quantity f" and "a = p_average_price p"
    and "x = f_price f"
  note defs = q_def [symmetric] s_def [symmetric] a_def [symmetric] x_def [symmetric]
  have rng: "0 \<le> a" "in_i64 a" "0 \<le> x" "in_i64 x" "s \<noteq> 0" "q = 0 \<Longrightarrow> a = 0"
    using assms(2,3) abs_signed_quantity [of f]
    by (auto simp: q_def s_def a_def x_def position_wf_def fill_ok_def)
  note ex = reprice_exact [OF assms(2-4), unfolded defs]
  show ?thesis
  proof (cases "q = 0 \<or> (q > 0) = (s > 0)")
    case True
    define v where "v = (a * \<bar>q\<bar> + x * \<bar>s\<bar>) sdiv (\<bar>q\<bar> + \<bar>s\<bar>)"
    note wab = weighted_average_bounds [of a x "\<bar>q\<bar>" "\<bar>s\<bar>", folded v_def]
    have vb: "0 \<le> v" "v \<le> max a x" using wab rng by auto
    have p1: "p1 = p\<lparr>p_average_price := v\<rparr>" and iv: "in_i64 v"
      using assms(1) unfolding ex [unfolded if_P [OF True], folded v_def] by (auto simp: result_simps)
    define t where "t = sgn s"
    have t: "s = t * \<bar>s\<bar>" "q = t * \<bar>q\<bar>" "\<bar>t\<bar> = 1" "\<bar>q + s\<bar> = \<bar>q\<bar> + \<bar>s\<bar>"
      using True rng(5) by (auto simp: t_def sgn_if)
    have "- (t * m + t * n) * v + t * m * a + t * n * x = t * (a * m + x * n - v * (m + n))" for m n
      by (simp add: algebra_simps)
    from this [of "\<bar>q\<bar>" "\<bar>s\<bar>"]
    have "- (q + s) * v + q * a + s * x = t * (a * \<bar>q\<bar> + x * \<bar>s\<bar> - v * (\<bar>q\<bar> + \<bar>s\<bar>))"
      by (simp only: t(1,2) [symmetric])
    then have "\<bar>- (q + s) * v + q * a + s * x\<bar> \<le> \<bar>q + s\<bar>"
      using t(3,4) wab rng by (simp add: abs_mult)
    then have "\<bar>q * a - (q + s) * v + s * x\<bar> \<le> \<bar>q + s\<bar>"
      by (simp add: algebra_simps)
    moreover have "q + s \<noteq> 0" using t(4) rng(5) by auto
    ultimately show ?thesis
      using p1 vb iv by (auto simp: q'_def basis_def defs)
  next
    case False
    define pu c where "pu = (x - a) * sgn q" and "c = min \<bar>s\<bar> \<bar>q\<bar>"
    define av where "av = (if q + s = 0 then 0 else if (q + s > 0) \<noteq> (q > 0) then x else a)"
    have p1: "p1 = p\<lparr>p_realized_pnl := p_realized_pnl p + round_div (pu * c) SCALE, p_average_price := av\<rparr>"
      using assms(1) unfolding ex [unfolded if_not_P [OF False], folded pu_def c_def av_def]
      by (auto simp: result_simps)
    have avr: "0 \<le> av" "in_i64 av" "q + s = 0 \<Longrightarrow> av = 0" using rng by (auto simp: av_def)
    have cash: "pu * c = (q + s) * av - q * a - s * x"
    proof -
      consider "q + s = 0" | "q + s > 0" "q > 0" "s < 0" | "q + s < 0" "q < 0" "s > 0"
        | "q + s < 0" "q > 0" "s < 0" | "q + s > 0" "q < 0" "s > 0"
        using False rng(5) by fastforce
      then show ?thesis
      proof cases
        case 1
        then have "s = - q" by simp
        then show ?thesis by (auto simp: av_def pu_def c_def sgn_if algebra_simps)
      qed (use False in \<open>auto simp: av_def pu_def c_def sgn_if min_def algebra_simps\<close>)
    qed
    have "2 * \<bar>round_div (pu * c) SCALE * SCALE - pu * c\<bar> \<le> SCALE"
      by (rule round_div_nearest) simp
    then have "\<bar>round_div (pu * c) SCALE * SCALE - (q + s) * av + q * a + s * x\<bar> \<le> SCALE div 2"
      unfolding cash by (simp add: SCALE_def)
    then show ?thesis
      using p1 avr by (auto simp: q'_def basis_def defs)
  qed
qed

lemma position_apply_step:
  assumes "position_apply p f = (p', Inr ())" and "position_wf p" and "fill_ok f"
    and "\<bar>p_quantity p\<bar> + f_quantity f \<le> i64_max"
  shows "position_wf p' \<and> p_quantity p' = p_quantity p + signed_quantity f
    \<and> p_commissions p' = p_commissions p + f_commission f \<and> p_fill_count p' = p_fill_count p + 1
    \<and> p_instrument p' = p_instrument p \<and> p_outcome p' = p_outcome p
    \<and> \<bar>(gross_pnl p' * SCALE - basis p') - (gross_pnl p * SCALE - basis p) + signed_quantity f * f_price f\<bar>
        \<le> max (SCALE div 2) \<bar>p_quantity p'\<bar>"
proof -
  from assms(1) obtain p1 where p1: "reprice p f = Inr p1"
    and p': "p' = p1\<lparr>p_quantity := wrap64 (p_quantity p + wrap64 (f_quantity f * signum (f_side f))),
      p_commissions := p_commissions p1 + f_commission f,
      p_realized_pnl := p_realized_pnl p1 - f_commission f, p_fill_count := p_fill_count p1 + 1\<rparr>"
    by (rule position_apply_Inr)
  note st = reprice_step [OF p1 assms(2-4)]
  have q: "p_quantity p' = p_quantity p + signed_quantity f"
  proof -
    have "\<bar>signed_quantity f\<bar> = f_quantity f" using assms(3) by (auto simp: abs_signed_quantity fill_ok_def)
    with assms(4) have "in_i64 (p_quantity p + signed_quantity f)" by (auto simp: int_range)
    then show ?thesis
      using signed_quantity_fits [OF assms(3)] by (simp add: p' flip: signed_quantity_def)
  qed
  have same: "p_commissions p1 = p_commissions p" "p_fill_count p1 = p_fill_count p"
    "p_instrument p1 = p_instrument p" "p_outcome p1 = p_outcome p"
    using st by (metis position.select_convs position.update_convs position.surjective)+
  have pr: "p_realized_pnl p' + p_commissions p' = p_realized_pnl p1 + p_commissions p"
    by (simp add: p' same)
  have "(gross_pnl p' * SCALE - basis p') - (gross_pnl p * SCALE - basis p) + signed_quantity f * f_price f
      = (p_realized_pnl p1 - p_realized_pnl p) * SCALE
        - (p_quantity p + signed_quantity f) * p_average_price p1 + basis p + signed_quantity f * f_price f"
    unfolding gross_pnl_def pr basis_def [of p'] q by (simp add: p' algebra_simps)
  with st q same show ?thesis
    by (auto simp: position_wf_def p')
qed

section \<open>A history of fills\<close>

definition position_step :: "position \<Rightarrow> fill \<Rightarrow> position res" where
  "position_step p f = (case position_apply p f of (p', r) \<Rightarrow> and_then r (\<lambda>_. Inr p'))"

lemma position_step_Inr_iff: "position_step p f = Inr p' \<longleftrightarrow> position_apply p f = (p', Inr ())"
  by (auto simp: position_step_def result_simps split: prod.splits)

definition volume :: "fill list \<Rightarrow> int" where
  "volume fills = sum_list (map f_quantity fills)"

definition cash_paid :: "fill list \<Rightarrow> int" where
  "cash_paid fills = sum_list (map (\<lambda>f. signed_quantity f * f_price f) fills)"

lemma volume_nonneg: "\<forall>f \<in> set fills. fill_ok f \<Longrightarrow> 0 \<le> volume fills"
  by (induction fills) (auto simp: volume_def fill_ok_def)

lemma position_history:
  assumes "fold_r position_step p fills = Inr p'" and "position_wf p" and "\<forall>f \<in> set fills. fill_ok f"
    and "\<bar>p_quantity p\<bar> + volume fills \<le> B" and "B \<le> i64_max"
  shows "position_wf p' \<and> p_quantity p' = p_quantity p + sum_list (map signed_quantity fills)
    \<and> p_commissions p' = p_commissions p + sum_list (map f_commission fills)
    \<and> p_fill_count p' = p_fill_count p + length fills
    \<and> \<bar>(gross_pnl p' * SCALE - basis p') - (gross_pnl p * SCALE - basis p) + cash_paid fills\<bar>
        \<le> int (length fills) * max (SCALE div 2) B"
  using assms
proof (induction fills arbitrary: p)
  case Nil
  then show ?case by (simp add: cash_paid_def)
next
  case (Cons f fills)
  from Cons.prems(1) obtain p1 where p1: "position_apply p f = (p1, Inr ())"
    and rest: "fold_r position_step p1 fills = Inr p'"
    by (auto simp: result_simps position_step_Inr_iff)
  have ok: "fill_ok f" and oks: "\<forall>f \<in> set fills. fill_ok f" using Cons.prems(3) by auto
  have vol: "volume (f # fills) = f_quantity f + volume fills" by (simp add: volume_def)
  note step = position_apply_step [OF p1 Cons.prems(2) ok]
  have fits: "\<bar>p_quantity p\<bar> + f_quantity f \<le> i64_max"
    using Cons.prems(4,5) vol volume_nonneg [OF oks] by linarith
  have abs1: "\<bar>p_quantity p1\<bar> \<le> \<bar>p_quantity p\<bar> + f_quantity f"
    using step [OF fits] ok abs_signed_quantity [of f] by (auto simp: fill_ok_def)
  have IH: "position_wf p' \<and> p_quantity p' = p_quantity p1 + sum_list (map signed_quantity fills)
    \<and> p_commissions p' = p_commissions p1 + sum_list (map f_commission fills)
    \<and> p_fill_count p' = p_fill_count p1 + length fills
    \<and> \<bar>(gross_pnl p' * SCALE - basis p') - (gross_pnl p1 * SCALE - basis p1) + cash_paid fills\<bar>
        \<le> int (length fills) * max (SCALE div 2) B"
    using step [OF fits] oks rest Cons.prems(4,5) vol abs1 by (intro Cons.IH) auto
  have "\<bar>p_quantity p1\<bar> \<le> B" using abs1 Cons.prems(4) vol volume_nonneg [OF oks] by linarith
  then have b: "max (SCALE div 2) \<bar>p_quantity p1\<bar> \<le> max (SCALE div 2) B" by auto
  have moved: "\<bar>gross_pnl p1 * SCALE - basis p1 - (gross_pnl p * SCALE - basis p) + signed_quantity f * f_price f\<bar>
      \<le> max (SCALE div 2) \<bar>p_quantity p1\<bar>"
    using step [OF fits] by blast
  have len: "int (length (f # fills)) * M = M + int (length fills) * M" for M
    by (simp add: distrib_right)
  have "cash_paid (f # fills) = signed_quantity f * f_price f + cash_paid fills"
    by (simp add: cash_paid_def)
  then have "\<bar>(gross_pnl p' * SCALE - basis p') - (gross_pnl p * SCALE - basis p) + cash_paid (f # fills)\<bar>
      \<le> int (length (f # fills)) * max (SCALE div 2) B"
    using IH [THEN conjunct2, THEN conjunct2, THEN conjunct2, THEN conjunct2] moved b
    by (simp only: len) linarith
  then show ?case using IH step [OF fits] by simp
qed

text \<open>
  C11: a position is the fold of its fills. When the traded volume fits an \<open>i64\<close>, the quantity is
  the signed sum of the fills, commissions are their sum, a flat position has a zero average, and
  profit agrees with the cash flow: realised profit before costs, less the cost basis still held,
  equals minus the cash paid, up to one division's rounding per fill.
\<close>

theorem position_accounts_for_fills:
  assumes "fold_r position_step (position_new i oc) fills = Inr p"
    and "\<forall>f \<in> set fills. fill_ok f" and "volume fills \<le> i64_max"
  shows "p_quantity p = sum_list (map signed_quantity fills)
    \<and> p_commissions p = sum_list (map f_commission fills) \<and> p_fill_count p = length fills
    \<and> (is_flat p \<longrightarrow> p_average_price p = 0)
    \<and> \<bar>gross_pnl p * SCALE - basis p + cash_paid fills\<bar>
        \<le> int (length fills) * max (SCALE div 2) (volume fills)"
proof -
  have "position_wf (position_new i oc)" "gross_pnl (position_new i oc) = 0" "basis (position_new i oc) = 0"
    by (simp_all add: position_new_def position_wf_def gross_pnl_def basis_def)
  then show ?thesis
    using position_history [OF assms(1) _ assms(2) _ assms(3)]
    by (simp add: position_wf_def is_flat_def) (simp add: position_new_def)
qed

definition sample_fill :: "side \<Rightarrow> qty \<Rightarrow> price \<Rightarrow> fill" where
  "sample_fill s q x = \<lparr>f_order_id = 1, f_instrument = ''X'', f_outcome = 0, f_side = s, f_price = x,
     f_quantity = q, f_commission = 1, f_is_taker = True, f_ts = 0, f_tag = None\<rparr>"

lemma position_accounts_for_fills_witness:
  "\<exists>p. fold_r position_step (position_new ''X'' 0)
         [sample_fill Buy 2000000000 5, sample_fill Sell 3000000000 8] = Inr p
     \<and> p_quantity p = -1000000000 \<and> p_average_price p = 8"
proof -
  let ?fills = "[sample_fill Buy 2000000000 5, sample_fill Sell 3000000000 8]"
  obtain p where p: "fold_r position_step (position_new ''X'' 0) ?fills = Inr p" "p_average_price p = 8"
    by (simp add: position_step_def position_apply_def reprice_def position_new_def sample_fill_def
        Let_def narrow_def notional_def checked_add_def checked_sub_def checked64_def int_range
        wrap64_def fixed_abs_def SCALE_def signed_divide_int_def)
  have "p_quantity p = sum_list (map signed_quantity ?fills)"
    using position_accounts_for_fills [OF p(1)]
    by (simp add: fill_ok_def sample_fill_def int_range volume_def)
  then show ?thesis
    using p by (simp add: signed_quantity_def sample_fill_def)
qed

text \<open>Replaying a whole history keeps one position per key, and each sees only its own fills.\<close>

definition fills_of :: "position_key \<Rightarrow> fill list \<Rightarrow> fill list" where
  "fills_of k fills = filter (\<lambda>f. fill_key f = k) fills"

lemma portfolio_step_Inr:
  assumes "portfolio_step pf f = Inr pf'"
  obtains p' where "position_step (case bt_get (positions pf) (fill_key f) of
        None \<Rightarrow> position_new (f_instrument f) (f_outcome f) | Some p \<Rightarrow> p) f = Inr p'"
    and "pf' = pf\<lparr>positions := bt_insert (fill_key f) p' (positions pf)\<rparr>"
  using assms
  by (auto simp: portfolio_step_def portfolio_apply_def position_step_def Let_def result_simps
      split: prod.splits)

lemma portfolio_replay_snoc:
  "portfolio_replay (fills @ [f]) = and_then (portfolio_replay fills) (\<lambda>pf. portfolio_step pf f)"
  by (cases "portfolio_replay fills") (auto simp: portfolio_replay_def fold_r_append and_then_def split: sum.splits)

text \<open>
  C23: replaying a fill history rebuilds every position. The portfolio holds a position exactly for
  the keys that were traded, in key order, and each is the fold of the fills of its own key, in order:
  no other instrument or outcome touches it.
\<close>

theorem replay_projects_to_positions:
  assumes "portfolio_replay fills = Inr pf"
  shows "bt_wf (positions pf) \<and> set (bt_keys (positions pf)) = fill_key ` set fills
    \<and> (\<forall>i oc p. position_of pf i oc = Some p \<longrightarrow>
         fold_r position_step (position_new i oc) (fills_of (i, oc) fills) = Inr p)"
  using assms
proof (induction fills arbitrary: pf rule: rev_induct)
  case Nil
  then show ?case by (auto simp: portfolio_replay_def portfolio_new_def position_of_def)
next
  case (snoc f fills)
  from snoc.prems obtain pf0 where pf0: "portfolio_replay fills = Inr pf0" "portfolio_step pf0 f = Inr pf"
    by (auto simp: portfolio_replay_snoc result_simps)
  note IH = snoc.IH [OF pf0(1)]
  from pf0(2) obtain p' where
    p': "position_step (case bt_get (positions pf0) (fill_key f) of
        None \<Rightarrow> position_new (f_instrument f) (f_outcome f) | Some p \<Rightarrow> p) f = Inr p'"
    and pf: "pf = pf0\<lparr>positions := bt_insert (fill_key f) p' (positions pf0)\<rparr>"
    by (rule portfolio_step_Inr)
  have none: "fills_of (fill_key f) fills = []" if "bt_get (positions pf0) (fill_key f) = None"
  proof -
    have "fill_key f \<notin> fill_key ` set fills"
      using IH that bt_get_keys [of "positions pf0" "fill_key f"] by simp
    then show ?thesis by (simp add: fills_of_def filter_empty_conv image_iff) metis
  qed
  have hit: "fold_r position_step (position_new (f_instrument f) (f_outcome f))
      (fills_of (fill_key f) (fills @ [f])) = Inr p'"
    using IH p' none
    by (auto simp: fills_of_def fold_r_append position_of_def fill_key_def split: option.splits)
  have "fold_r position_step (position_new i oc) (fills_of (i, oc) (fills @ [f])) = Inr p"
    if "position_of pf i oc = Some p" for i oc p
  proof (cases "(i, oc) = fill_key f")
    case True
    with that hit IH show ?thesis by (auto simp: pf position_of_def bt_get_insert fill_key_def)
  next
    case False
    with that IH show ?thesis
      by (auto simp: pf position_of_def bt_get_insert fills_of_def)
  qed
  moreover have "bt_wf (positions pf)" using IH by (simp add: pf bt_wf_insert)
  moreover have "set (bt_keys (positions pf)) = fill_key ` set (fills @ [f])"
    using IH unfolding pf by (simp add: set_keys_insert del: set_map)
  ultimately show ?case by blast
qed

lemma replay_projects_to_positions_witness:
  "\<exists>pf. portfolio_replay [sample_fill Buy 2000000000 5] = Inr pf \<and> bt_keys (positions pf) = [(''X'', 0)]
     \<and> bt_wf (positions pf)"
proof -
  obtain pf :: portfolio where pf: "portfolio_replay [sample_fill Buy 2000000000 5] = Inr pf"
      "bt_keys (positions pf) = [(''X'', 0)]"
    by (simp add: portfolio_replay_def portfolio_step_def portfolio_apply_def portfolio_new_def
        position_apply_def reprice_def position_new_def sample_fill_def fill_key_def
        Let_def narrow_def notional_def checked_add_def checked_sub_def checked64_def int_range
        wrap64_def fixed_abs_def SCALE_def signed_divide_int_def)
  with replay_projects_to_positions [OF pf(1)] show ?thesis by (intro exI [of _ pf]) simp
qed

end
