(* ===== verification/Accounts.thy ===== *)
theory Accounts
  imports Instruments Positions
begin

text \<open>
  Multi-currency balances, margin and liquidation (\<open>h5i-db-backtest/src/account.rs\<close>). The trait
  \<open>MarginModel\<close> is a record of its two methods, so that a boxed model is a value; its contract is
  the locale \<open>margin_rules\<close>, interpreted for each of the three models the module provides. The
  constructors that take a leverage as an \<open>f64\<close> are modelled from the outcome of their float check
  and the \<open>Price\<close> the conversion yields; the \<open>f64\<close> margin ratio is not modelled.
\<close>

section \<open>Margin models\<close>

record margin_model =
  initial_margin :: "instrument \<Rightarrow> qty \<Rightarrow> price \<Rightarrow> money res"
  maintenance_margin :: "instrument \<Rightarrow> qty \<Rightarrow> price \<Rightarrow> money res"

definition cash_initial_margin :: "instrument \<Rightarrow> qty \<Rightarrow> price \<Rightarrow> money res" where
  "cash_initial_margin ins quantity mark =
     and_then (if is_probability (i_kind ins) \<and> quantity < 0 then complement mark else Inr mark)
       (\<lambda>per_unit. map_ok fixed_abs (notional per_unit quantity))"

definition cash_maintenance_margin :: "instrument \<Rightarrow> qty \<Rightarrow> price \<Rightarrow> money res" where
  "cash_maintenance_margin ins quantity mark = Inr 0"

definition cash_margin :: margin_model where
  "cash_margin = \<lparr>initial_margin = cash_initial_margin, maintenance_margin = cash_maintenance_margin\<rparr>"

record linear_margin =
  initial_rate :: price
  maintenance_rate :: price

definition linear_from_leverage :: "bool \<Rightarrow> price res \<Rightarrow> linear_margin res" where
  "linear_from_leverage finite_and_at_least_1 inverse_leverage =
     (if \<not> finite_and_at_least_1 then invalid ''leverage must be finite and at least 1''
      else and_then inverse_leverage (\<lambda>initial.
             Inr \<lparr>initial_rate = initial, maintenance_rate = initial sdiv 2\<rparr>))"

definition linear_new :: "price res \<Rightarrow> price res \<Rightarrow> linear_margin res" where
  "linear_new initial_arg maintenance_arg =
     and_then initial_arg (\<lambda>initial. and_then maintenance_arg (\<lambda>maintenance.
       if maintenance > initial then invalid ''maintenance margin must not exceed initial margin''
       else Inr \<lparr>initial_rate = initial, maintenance_rate = maintenance\<rparr>))"

definition requirement :: "price \<Rightarrow> qty \<Rightarrow> price \<Rightarrow> money res" where
  "requirement rate quantity mark =
     and_then (map_ok fixed_abs (notional mark quantity)) (\<lambda>gross. notional rate gross)"

definition linear_model :: "linear_margin \<Rightarrow> margin_model" where
  "linear_model lm = \<lparr>initial_margin = (\<lambda>ins q mark. requirement (initial_rate lm) q mark),
                      maintenance_margin = (\<lambda>ins q mark. requirement (maintenance_rate lm) q mark)\<rparr>"

record per_instrument_margin =
  by_instrument :: "(instrument_id, linear_margin) btree_map"
  default_model :: linear_margin

definition per_instrument_new :: "bool \<Rightarrow> price res \<Rightarrow> per_instrument_margin res" where
  "per_instrument_new finite_and_at_least_1 inverse_leverage =
     and_then (linear_from_leverage finite_and_at_least_1 inverse_leverage) (\<lambda>lm.
       Inr \<lparr>by_instrument = [], default_model = lm\<rparr>)"

definition with_leverage :: "per_instrument_margin \<Rightarrow> instrument_id \<Rightarrow> bool \<Rightarrow> price res
    \<Rightarrow> per_instrument_margin res" where
  "with_leverage pm i finite_and_at_least_1 inverse_leverage =
     and_then (linear_from_leverage finite_and_at_least_1 inverse_leverage) (\<lambda>lm.
       Inr (pm\<lparr>by_instrument := bt_insert i lm (by_instrument pm)\<rparr>))"

definition model_for :: "per_instrument_margin \<Rightarrow> instrument \<Rightarrow> linear_margin" where
  "model_for pm ins = (case bt_get (by_instrument pm) (i_id ins) of
     None \<Rightarrow> default_model pm | Some lm \<Rightarrow> lm)"

definition per_instrument_model :: "per_instrument_margin \<Rightarrow> margin_model" where
  "per_instrument_model pm =
     \<lparr>initial_margin = (\<lambda>ins q mark. initial_margin (linear_model (model_for pm ins)) ins q mark),
      maintenance_margin = (\<lambda>ins q mark. maintenance_margin (linear_model (model_for pm ins)) ins q mark)\<rparr>"

section \<open>Balances\<close>

record valuation =
  v_total :: money
  v_currency :: currency
  v_unconvertible :: "(currency \<times> money) list"

definition valuation_is_complete :: "valuation \<Rightarrow> bool" where
  "valuation_is_complete v \<longleftrightarrow> v_unconvertible v = []"

record account =
  balances :: "(currency, money) btree_map"
  reporting :: currency
  account_haircuts :: haircuts
  margin :: margin_model

definition account_new :: "currency \<Rightarrow> margin_model \<Rightarrow> account" where
  "account_new rep model = \<lparr>balances = [], reporting = rep, account_haircuts = [], margin = model\<rparr>"

definition balance :: "account \<Rightarrow> currency \<Rightarrow> money" where
  "balance a cur = (case bt_get (balances a) cur of None \<Rightarrow> 0 | Some m \<Rightarrow> m)"

definition deposit :: "account \<Rightarrow> currency \<Rightarrow> money \<Rightarrow> account" where
  "deposit a cur amount = a\<lparr>balances := bt_insert cur (wrap64 (balance a cur + amount)) (balances a)\<rparr>"

definition account_cash :: "currency \<Rightarrow> money \<Rightarrow> account" where
  "account_cash rep starting = deposit (account_new rep cash_margin) rep starting"

definition with_haircuts :: "account \<Rightarrow> haircuts \<Rightarrow> account" where
  "with_haircuts a h = a\<lparr>account_haircuts := h\<rparr>"

definition account_apply :: "account \<Rightarrow> currency \<Rightarrow> money \<Rightarrow> account \<times> unit res" where
  "account_apply a cur delta =
     (let a1 = a\<lparr>balances := bt_insert cur (balance a cur) (balances a)\<rparr>
      in case money_add (balance a1 cur) delta of
           Inl e \<Rightarrow> (a1, Inl e)
         | Inr m \<Rightarrow> (a1\<lparr>balances := bt_insert cur m (balances a1)\<rparr>, Inr ()))"

text \<open>Add a converted amount to the total, or name the balance that has no rate.\<close>

definition value_balance :: "fx_error + money \<Rightarrow> currency \<times> money \<Rightarrow> valuation \<Rightarrow> valuation res" where
  "value_balance converted entry v =
     (case converted of
        Inr m \<Rightarrow> map_ok (\<lambda>t. v\<lparr>v_total := t\<rparr>) (money_add (v_total v) m)
      | Inl _ \<Rightarrow> Inr (v\<lparr>v_unconvertible := v_unconvertible v @ [entry]\<rparr>))"

definition cash_entry :: "account \<Rightarrow> fx_book \<Rightarrow> valuation \<Rightarrow> currency \<times> money \<Rightarrow> valuation res" where
  "cash_entry a fx v entry =
     (case entry of (cur, amount) \<Rightarrow>
        if amount = 0 then Inr v
        else value_balance (fx_convert fx amount cur (reporting a)) (cur, amount) v)"

definition cash_value :: "account \<Rightarrow> fx_book \<Rightarrow> valuation res" where
  "cash_value a fx =
     fold_r (cash_entry a fx) \<lparr>v_total = 0, v_currency = reporting a, v_unconvertible = []\<rparr> (balances a)"

definition collateral_entry :: "account \<Rightarrow> fx_book \<Rightarrow> valuation \<Rightarrow> currency \<times> money \<Rightarrow> valuation res" where
  "collateral_entry a fx v entry =
     (case entry of (cur, amount) \<Rightarrow>
        if \<not> amount > 0
        then value_balance (fx_convert fx amount cur (reporting a)) (cur, amount) v
        else and_then (haircut_apply (account_haircuts a) amount cur) (\<lambda>after_haircut.
               value_balance (fx_convert fx after_haircut cur (reporting a)) (cur, amount) v))"

definition collateral :: "account \<Rightarrow> fx_book \<Rightarrow> valuation res" where
  "collateral a fx =
     fold_r (collateral_entry a fx) \<lparr>v_total = 0, v_currency = reporting a, v_unconvertible = []\<rparr>
       (balances a)"

section \<open>Requirements\<close>

record margin_req =
  r_initial :: money
  r_maintenance :: money
  r_unmarked :: "position_key list"

definition margin_requirement :: "margin_model \<Rightarrow> position list \<Rightarrow> instrument_set
    \<Rightarrow> (instrument_id \<Rightarrow> outcome_id \<Rightarrow> price option) \<Rightarrow> margin_req res" where
  "margin_requirement model ps instruments mark =
     fold_r (\<lambda>r p.
       if is_flat p then Inr r
       else case mark (p_instrument p) (p_outcome p) of
              None \<Rightarrow> Inr (r\<lparr>r_unmarked := r_unmarked r @ [(p_instrument p, p_outcome p)]\<rparr>)
            | Some found \<Rightarrow>
                and_then (set_get instruments (p_instrument p)) (\<lambda>ins.
                and_then (initial_margin model ins (p_quantity p) found) (\<lambda>i.
                and_then (money_add (r_initial r) i) (\<lambda>initial.
                and_then (maintenance_margin model ins (p_quantity p) found) (\<lambda>m.
                and_then (money_add (r_maintenance r) m) (\<lambda>maintenance.
                  Inr (r\<lparr>r_initial := initial, r_maintenance := maintenance\<rparr>)))))))
     \<lparr>r_initial = 0, r_maintenance = 0, r_unmarked = []\<rparr> ps"

record margin_status =
  ms_equity :: money
  ms_initial :: money
  ms_maintenance :: money
  ms_liquidatable :: bool
  ms_incomplete :: bool

definition available :: "margin_status \<Rightarrow> money" where
  "available s = wrap64 (ms_equity s - ms_initial s)"

definition margin_state :: "valuation \<Rightarrow> money \<Rightarrow> margin_req \<Rightarrow> margin_status res" where
  "margin_state coll marked req =
     and_then (money_add (v_total coll) marked) (\<lambda>equity.
       let incomplete = (\<not> valuation_is_complete coll \<or> r_unmarked req \<noteq> [])
       in Inr \<lparr>ms_equity = equity, ms_initial = r_initial req, ms_maintenance = r_maintenance req,
               ms_liquidatable = (\<not> incomplete \<and> r_maintenance req \<noteq> 0 \<and> equity < r_maintenance req),
               ms_incomplete = incomplete\<rparr>)"

definition scaled :: "price \<Rightarrow> price \<Rightarrow> price res" where
  "scaled price fraction = narrow ((price * fraction) sdiv SCALE) ''scaled''"

section \<open>The contract of a margin model\<close>

text \<open>
  Sizes whose notional, and that of the complementary price, fit money: beyond them \<open>abs\<close> of the
  most negative value wraps.
\<close>

definition margin_dom :: "qty \<Rightarrow> price \<Rightarrow> bool" where
  "margin_dom q p \<longleftrightarrow> \<bar>p * q\<bar> \<le> i64_max * SCALE \<and> \<bar>(SCALE - p) * q\<bar> \<le> i64_max * SCALE"

text \<open>Opening takes at least what surviving takes, and neither is negative.\<close>

locale margin_rules =
  fixes initial :: "instrument \<Rightarrow> qty \<Rightarrow> price \<Rightarrow> money res"
    and maintenance :: "instrument \<Rightarrow> qty \<Rightarrow> price \<Rightarrow> money res"
  assumes maintenance_le_initial:
    "margin_dom q p \<Longrightarrow> initial ins q p = Inr i \<Longrightarrow> maintenance ins q p = Inr m \<Longrightarrow> 0 \<le> m \<and> m \<le> i"
begin

text \<open>Summed over a book, the order is kept.\<close>

lemma requirement_ordered:
  assumes "margin_requirement \<lparr>initial_margin = initial, maintenance_margin = maintenance\<rparr>
      ps instruments mark = Inr r"
    and "\<And>p found. p \<in> set ps \<Longrightarrow> mark (p_instrument p) (p_outcome p) = Some found
      \<Longrightarrow> margin_dom (p_quantity p) found"
  shows "0 \<le> r_maintenance r \<and> r_maintenance r \<le> r_initial r"
  using assms(1) unfolding margin_requirement_def
proof (rule fold_r_invariant)
  fix r p r'
  assume p: "p \<in> set ps" and r: "0 \<le> r_maintenance r \<and> r_maintenance r \<le> r_initial r"
    and step: "(if is_flat p then Inr r
       else case mark (p_instrument p) (p_outcome p) of
              None \<Rightarrow> Inr (r\<lparr>r_unmarked := r_unmarked r @ [(p_instrument p, p_outcome p)]\<rparr>)
            | Some found \<Rightarrow>
                and_then (set_get instruments (p_instrument p)) (\<lambda>ins.
                and_then (initial_margin \<lparr>initial_margin = initial, maintenance_margin = maintenance\<rparr> ins (p_quantity p) found) (\<lambda>i.
                and_then (money_add (r_initial r) i) (\<lambda>i'.
                and_then (maintenance_margin \<lparr>initial_margin = initial, maintenance_margin = maintenance\<rparr> ins (p_quantity p) found) (\<lambda>m.
                and_then (money_add (r_maintenance r) m) (\<lambda>m'.
                  Inr (r\<lparr>r_initial := i', r_maintenance := m'\<rparr>))))))) = Inr r'"
  show "0 \<le> r_maintenance r' \<and> r_maintenance r' \<le> r_initial r'"
    using step r maintenance_le_initial assms(2) [OF p]
    by (fastforce simp: result_simps split: if_splits option.splits)
qed simp

text \<open>An account that could still open something is not liquidated.\<close>

lemma openable_not_liquidatable:
  assumes "margin_requirement \<lparr>initial_margin = initial, maintenance_margin = maintenance\<rparr>
      ps instruments mark = Inr r"
    and "\<And>p found. p \<in> set ps \<Longrightarrow> mark (p_instrument p) (p_outcome p) = Some found
      \<Longrightarrow> margin_dom (p_quantity p) found"
    and "margin_state coll marked r = Inr s" and "r_initial r \<le> ms_equity s"
  shows "\<not> ms_liquidatable s"
  using requirement_ordered [OF assms(1,2)] assms(3,4)
  by (auto simp: margin_state_def result_simps Let_def)

end

lemma notional_abs_fits:
  assumes "notional p q = Inr n" and "\<bar>p * q\<bar> \<le> i64_max * SCALE"
  shows "fixed_abs n = \<bar>n\<bar>"
proof -
  have "- (i64_max * SCALE) \<le> p * q" "p * q \<le> i64_max * SCALE" using assms(2) by linarith+
  then have "round_div (- i64_max * SCALE) SCALE \<le> round_div (p * q) SCALE"
    "round_div (p * q) SCALE \<le> round_div (i64_max * SCALE) SCALE"
    by (intro round_div_mono; simp)+
  then have "\<bar>n\<bar> \<le> i64_max"
    using assms(1) by (simp only: round_div_multiple SCALE_pos) (auto simp: result_simps)
  then show ?thesis by (rule fixed_abs_fits)
qed

interpretation cash: margin_rules cash_initial_margin cash_maintenance_margin
proof
  show "0 \<le> m \<and> m \<le> i"
    if "margin_dom q p" "cash_initial_margin ins q p = Inr i" "cash_maintenance_margin ins q p = Inr m"
    for q p ins i m
    using that
    by (auto simp: cash_initial_margin_def cash_maintenance_margin_def margin_dom_def result_simps
        notional_abs_fits complement_Inr_iff split: if_splits)
qed

definition linear_wf :: "linear_margin \<Rightarrow> bool" where
  "linear_wf lm \<longleftrightarrow> 0 \<le> maintenance_rate lm \<and> maintenance_rate lm \<le> initial_rate lm"

definition per_instrument_wf :: "per_instrument_margin \<Rightarrow> bool" where
  "per_instrument_wf pm \<longleftrightarrow> bt_wf (by_instrument pm) \<and> linear_wf (default_model pm)
     \<and> (\<forall>i lm. bt_get (by_instrument pm) i = Some lm \<longrightarrow> linear_wf lm)"

lemma linear_from_leverage_wf:
  "linear_from_leverage ok (Inr r) = Inr lm \<Longrightarrow> 0 \<le> r \<Longrightarrow> linear_wf lm"
  by (auto simp: linear_from_leverage_def linear_wf_def sdiv_nonneg_eq split: if_splits)

lemma linear_new_wf: "linear_new a (Inr m) = Inr lm \<Longrightarrow> 0 \<le> m \<Longrightarrow> linear_wf lm"
  by (auto simp: linear_new_def linear_wf_def result_simps split: if_splits)

lemma with_leverage_wf:
  "with_leverage pm i ok (Inr r) = Inr pm' \<Longrightarrow> 0 \<le> r \<Longrightarrow> per_instrument_wf pm \<Longrightarrow> per_instrument_wf pm'"
  by (auto simp: with_leverage_def per_instrument_wf_def result_simps bt_wf_insert bt_get_insert
      linear_from_leverage_wf split: if_splits)

lemma requirement_mono:
  assumes "requirement r q p = Inr m" and "requirement r' q p = Inr m'" and "margin_dom q p"
    and "0 \<le> r" and "r \<le> r'"
  shows "0 \<le> m \<and> m \<le> m'"
proof -
  obtain n where n: "notional p q = Inr n" "notional r (fixed_abs n) = Inr m" "notional r' (fixed_abs n) = Inr m'"
    using assms(1,2) by (auto simp: requirement_def and_then_Inr_iff map_ok_Inr_iff)
  have "fixed_abs n = \<bar>n\<bar>" using notional_abs_fits [OF n(1)] assms(3) by (simp add: margin_dom_def)
  with n assms(4,5) show ?thesis
    by (auto simp: notional_Inr_iff intro!: round_div_sign round_div_mono mult_right_mono)
qed

lemma per_instrument_margin_rules:
  assumes "per_instrument_wf pm"
  shows "margin_rules (initial_margin (per_instrument_model pm)) (maintenance_margin (per_instrument_model pm))"
proof
  fix q p ins i m
  assume dom: "margin_dom q p" and "initial_margin (per_instrument_model pm) ins q p = Inr i"
    and "maintenance_margin (per_instrument_model pm) ins q p = Inr m"
  moreover have "linear_wf (model_for pm ins)"
    using assms by (auto simp: model_for_def per_instrument_wf_def split: option.splits)
  ultimately show "0 \<le> m \<and> m \<le> i"
    using requirement_mono [OF _ _ dom] by (auto simp: per_instrument_model_def linear_model_def linear_wf_def)
qed

text \<open>
  C24: a position that can be opened is not at once liquidated. Under per-instrument leverage with
  non-negative rates, the maintenance requirement of any book is between zero and the initial one, so
  while equity covers the initial requirement the margin state never declares a liquidation; and it
  declares none at all when something could not be valued.
\<close>

theorem openable_is_not_liquidatable:
  assumes "per_instrument_wf pm"
    and "margin_requirement (per_instrument_model pm) ps instruments mark = Inr r"
    and "\<And>p found. p \<in> set ps \<Longrightarrow> mark (p_instrument p) (p_outcome p) = Some found
      \<Longrightarrow> margin_dom (p_quantity p) found"
    and "margin_state coll marked r = Inr s"
  shows "0 \<le> ms_maintenance s \<and> ms_maintenance s \<le> ms_initial s
    \<and> (ms_initial s \<le> ms_equity s \<longrightarrow> \<not> ms_liquidatable s) \<and> (ms_incomplete s \<longrightarrow> \<not> ms_liquidatable s)"
proof -
  have eta: "\<lparr>initial_margin = initial_margin (per_instrument_model pm),
      maintenance_margin = maintenance_margin (per_instrument_model pm)\<rparr> = per_instrument_model pm"
    by simp
  note rules = per_instrument_margin_rules [OF assms(1)]
  have "0 \<le> r_maintenance r \<and> r_maintenance r \<le> r_initial r"
    using margin_rules.requirement_ordered [OF rules, unfolded eta, OF assms(2,3)] by blast
  moreover have "\<not> ms_liquidatable s" if "r_initial r \<le> ms_equity s"
    using margin_rules.openable_not_liquidatable [OF rules, unfolded eta, OF assms(2,3,4) that] by blast
  ultimately show ?thesis
    using assms(4) by (auto simp: margin_state_def result_simps Let_def)
qed

definition sample_position :: "qty \<Rightarrow> position" where
  "sample_position q = (position_new ''X'' 0)\<lparr>p_quantity := q, p_average_price := 100\<rparr>"

definition sample_margin :: per_instrument_margin where
  "sample_margin = \<lparr>by_instrument = [],
     default_model = \<lparr>initial_rate = 100000000, maintenance_rate = 50000000\<rparr>\<rparr>"

lemma openable_is_not_liquidatable_witness:
  "\<exists>r s. margin_requirement (per_instrument_model sample_margin) [sample_position 2000000000]
      [(''X'', sample_instrument)] (\<lambda>_ _. Some 1000) = Inr r
    \<and> margin_state \<lparr>v_total = 300, v_currency = ''USDC'', v_unconvertible = []\<rparr> 0 r = Inr s
    \<and> ms_initial s = 200 \<and> ms_maintenance s = 100 \<and> \<not> ms_liquidatable s"
proof -
  let ?r = "\<lparr>r_initial = 200, r_maintenance = 100, r_unmarked = []\<rparr>"
  have req: "margin_requirement (per_instrument_model sample_margin) [sample_position 2000000000]
      [(''X'', sample_instrument)] (\<lambda>_ _. Some 1000) = Inr ?r"
    by (simp add: margin_requirement_def is_flat_def sample_position_def position_new_def set_get_def
        per_instrument_model_def linear_model_def model_for_def sample_margin_def requirement_def
        notional_def narrow_def checked64_def checked_add_def SCALE_def int_range fixed_abs_def
        wrap64_def signed_divide_int_def Let_def)
  obtain s where st: "margin_state \<lparr>v_total = 300, v_currency = ''USDC'', v_unconvertible = []\<rparr> 0 ?r = Inr s"
      and eqs: "ms_initial s = 200" "ms_maintenance s = 100" "ms_equity s = 300"
    by (simp add: margin_state_def checked_add_def checked64_def int_range valuation_is_complete_def Let_def)
  have "per_instrument_wf sample_margin"
    by (simp add: per_instrument_wf_def sample_margin_def linear_wf_def)
  moreover have "margin_dom (p_quantity p) found"
    if "p \<in> set [sample_position 2000000000]" "Some 1000 = Some found" for p found
    using that by (simp add: sample_position_def position_new_def margin_dom_def SCALE_def int_range)
  ultimately have "\<not> ms_liquidatable s"
    using openable_is_not_liquidatable [OF _ req _ st] eqs by simp
  with req st eqs show ?thesis by blast
qed

text \<open>A fully funded book has no maintenance requirement.\<close>

lemma cash_never_liquidated:
  assumes "margin_requirement cash_margin ps instruments mark = Inr r" and "margin_state coll marked r = Inr s"
  shows "\<not> ms_liquidatable s"
proof -
  have "r_maintenance r = 0"
    using assms(1) unfolding margin_requirement_def
    by (rule fold_r_invariant)
       (auto simp: cash_margin_def cash_maintenance_margin_def result_simps split: if_splits option.splits)
  then show ?thesis using assms(2) by (auto simp: margin_state_def result_simps Let_def)
qed

section \<open>Valuing balances\<close>

lemma fx_convert_mono:
  assumes "fx_wf fx" and "fx_convert fx a src dst = Inr m" and "0 \<le> a'" and "a' \<le> a"
  shows "\<exists>m'. fx_convert fx a' src dst = Inr m' \<and> m' \<le> m"
proof (cases "src = dst")
  case True
  with assms show ?thesis by (simp add: fx_convert_def)
next
  case False
  then obtain r where r: "fx_rate fx src dst = Inr r"
    and n: "(case notional r a of Inl _ \<Rightarrow> Inl (NoRate src dst) | Inr m \<Rightarrow> Inr m) = Inr m"
    using assms(2) by (auto simp: fx_convert_def and_then_Inr_iff)
  then have m: "notional r a = Inr m" by (cases "notional r a") simp_all
  have r0: "0 \<le> r" by (rule fx_rate_nonneg [OF assms(1) r])
  have "round_div (r * a') SCALE \<le> round_div (r * a) SCALE" "0 \<le> round_div (r * a') SCALE"
    using r0 assms(3,4) by (auto intro!: round_div_mono round_div_sign mult_left_mono)
  moreover have "in_i64 (round_div (r * a) SCALE)" "m = round_div (r * a) SCALE"
    using m by (auto simp: notional_Inr_iff)
  ultimately have "notional r a' = Inr (round_div (r * a') SCALE)" "round_div (r * a') SCALE \<le> m"
    by (auto simp: notional_Inr_iff intro: in_i64_between [OF in_i64_0])
  with r False show ?thesis by (simp add: fx_convert_def)
qed

lemma value_balance_Inr:
  "value_balance (Inr m) e v = Inr v' \<Longrightarrow> v_total v' = v_total v + m \<and> v_unconvertible v' = v_unconvertible v"
  "value_balance (Inl x) e v = Inr v' \<Longrightarrow> v_total v' = v_total v \<and> v_unconvertible v' = v_unconvertible v @ [e]"
  by (auto simp: value_balance_def result_simps)

lemma value_balance_grows:
  "value_balance m e v = Inr v' \<Longrightarrow> set (v_unconvertible v) \<subseteq> set (v_unconvertible v')"
  by (cases m) (auto dest: value_balance_Inr)

lemma cash_fold_unconvertible:
  assumes "fold_r (cash_entry a fx) v0 bs = Inr v1" and "v_unconvertible v1 = []"
  shows "v_unconvertible v0 = []"
  using assms
proof (induction bs arbitrary: v0)
  case (Cons b bs)
  then obtain v' where v': "cash_entry a fx v0 b = Inr v'" "v_unconvertible v' = []"
    by (auto simp: result_simps)
  then show ?case
    by (auto simp: cash_entry_def value_balance_def result_simps split: prod.splits if_splits sum.splits)
qed simp

lemma entry_order:
  assumes "fx_wf fx" and "haircuts_wf (account_haircuts a)" and "in_i64 amount"
    and "cash_entry a fx v (cur, amount) = Inr v'" and "v_unconvertible v' = []"
    and "collateral_entry a fx c (cur, amount) = Inr c'"
    and "v_total c \<le> v_total v" and "\<forall>(cur, amount) \<in> set (v_unconvertible c). amount = 0"
  shows "v_total c' \<le> v_total v' \<and> (\<forall>(cur, amount) \<in> set (v_unconvertible c'). amount = 0)"
proof -
  let ?conv = "\<lambda>x. fx_convert fx x cur (reporting a)"
  have zero: "m = 0" if "?conv 0 = Inr m" for m
    using fx_convert_0 [OF that] .
  have ok: "\<exists>m. ?conv amount = Inr m \<and> v_total v' = v_total v + m" if "amount \<noteq> 0"
    using assms(4,5) that value_balance_Inr [of _ "(cur, amount)" v v']
    by (cases "?conv amount") (auto simp: cash_entry_def)
  consider "amount = 0" | "amount < 0" | "0 < amount" by linarith
  then show ?thesis
  proof cases
    case 1
    then have "value_balance (?conv 0) (cur, 0) c = Inr c'" "v' = v"
      using assms(4,6) by (auto simp: cash_entry_def collateral_entry_def)
    then show ?thesis
      using assms(7,8) zero value_balance_Inr [of _ "(cur, 0)" c c'] by (cases "?conv 0") auto
  next
    case 2
    then obtain m where "?conv amount = Inr m" "v_total v' = v_total v + m" using ok by auto
    moreover from this have "value_balance (Inr m) (cur, amount) c = Inr c'"
      using assms(6) 2 by (simp add: collateral_entry_def)
    ultimately show ?thesis using assms(7,8) value_balance_Inr(1) [of m "(cur, amount)" c c'] by simp
  next
    case 3
    then obtain m where m: "?conv amount = Inr m" "v_total v' = v_total v + m" using ok by auto
    obtain h where h: "haircut_apply (account_haircuts a) amount cur = Inr h" "0 \<le> h" "h \<le> amount"
      using haircut_apply_bounds [OF assms(2,3), of cur] 3 by auto
    obtain m' where m': "?conv h = Inr m'" "m' \<le> m"
      using fx_convert_mono [OF assms(1) m(1) h(2,3)] by auto
    then have "value_balance (Inr m') (cur, amount) c = Inr c'"
      using assms(6) 3 h by (simp add: collateral_entry_def)
    then show ?thesis using assms(7,8) m m' value_balance_Inr(1) [of m' "(cur, amount)" c c'] by simp
  qed
qed

lemma valuation_order:
  assumes "fx_wf fx" and "haircuts_wf (account_haircuts a)"
    and "fold_r (cash_entry a fx) v0 bs = Inr v" and "v_unconvertible v = []"
    and "fold_r (collateral_entry a fx) c0 bs = Inr c" and "\<forall>b \<in> set bs. in_i64 (snd b)"
    and "v_total c0 \<le> v_total v0" and "\<forall>(cur, amount) \<in> set (v_unconvertible c0). amount = 0"
  shows "v_total c \<le> v_total v \<and> (\<forall>(cur, amount) \<in> set (v_unconvertible c). amount = 0)"
  using assms(3-)
proof (induction bs arbitrary: v0 c0)
  case (Cons b bs)
  obtain cur amount where b: "b = (cur, amount)" by (cases b)
  from Cons.prems obtain v' c' where v': "cash_entry a fx v0 b = Inr v'" "fold_r (cash_entry a fx) v' bs = Inr v"
    and c': "collateral_entry a fx c0 b = Inr c'" "fold_r (collateral_entry a fx) c' bs = Inr c"
    by (auto simp: result_simps)
  have "in_i64 amount" using Cons.prems(4) by (simp add: b)
  note step = entry_order [OF assms(1,2) this v'(1) [unfolded b] cash_fold_unconvertible [OF v'(2) Cons.prems(2)]
      c'(1) [unfolded b] Cons.prems(5,6)]
  show ?case
    using Cons.IH [OF v'(2) Cons.prems(2) c'(2)] step Cons.prems(4) by auto
qed simp


definition sample_account :: "money \<Rightarrow> account" where
  "sample_account eur = \<lparr>balances = [(''EUR'', eur), (''USD'', 100)], reporting = ''USD'',
     account_haircuts = [(''USD'', 900000000)], margin = cash_margin\<rparr>"


text \<open>
  C36: an emptied balance blocks liquidation. Cash valuation skips a zero balance, but collateral lists
  it as unconvertible when its currency has no rate, and a partial valuation is never liquidated: an
  account holding nothing in a currency without a rate is never liquidatable, however far its equity
  is below the maintenance requirement.
\<close>

theorem zero_balance_blocks_liquidation:
  assumes "(cur, 0) \<in> set (balances a)" and "\<forall>m. fx_convert fx 0 cur (reporting a) \<noteq> Inr m"
    and "collateral a fx = Inr c" and "margin_state c marked req = Inr s"
  shows "ms_incomplete s \<and> \<not> ms_liquidatable s"
proof -
  have grows: "set (v_unconvertible c0) \<subseteq> set (v_unconvertible c1)"
    if "fold_r (collateral_entry a fx) c0 bs = Inr c1" for c0 c1 bs
    using that
  proof (induction bs arbitrary: c0)
    case (Cons b bs)
    then obtain c' where "collateral_entry a fx c0 b = Inr c'" "set (v_unconvertible c') \<subseteq> set (v_unconvertible c1)"
      by (auto simp: result_simps)
    then show ?case
      by (auto simp: collateral_entry_def result_simps split: prod.splits if_splits
          dest!: value_balance_grows)
  qed simp
  obtain xs ys where split: "balances a = xs @ (cur, 0) # ys"
    using assms(1) by (auto simp: in_set_conv_decomp)
  obtain c0 c1 where "collateral_entry a fx c0 (cur, 0) = Inr c1" "fold_r (collateral_entry a fx) c1 ys = Inr c"
    using assms(3) unfolding collateral_def split by (auto simp: fold_r_append result_simps)
  moreover from this(1) have "(cur, 0) \<in> set (v_unconvertible c1)"
    using assms(2) by (cases "fx_convert fx 0 cur (reporting a)") (auto simp: collateral_entry_def value_balance_def)
  ultimately have "v_unconvertible c \<noteq> []" using grows [of c1 ys c] by auto
  then show ?thesis
    using assms(4) by (auto simp: margin_state_def result_simps Let_def valuation_is_complete_def)
qed

lemma zero_balance_blocks_liquidation_witness:
  "\<exists>c s. collateral (sample_account 0) [] = Inr c
     \<and> margin_state c 0 \<lparr>r_initial = 2000, r_maintenance = 1000, r_unmarked = []\<rparr> = Inr s
     \<and> ms_equity s < ms_maintenance s \<and> \<not> ms_liquidatable s"
proof -
  let ?c = "\<lparr>v_total = 90, v_currency = ''USD'', v_unconvertible = [(''EUR'', 0)]\<rparr> :: valuation"
  have c: "collateral (sample_account 0) [] = Inr ?c"
    by (simp add: collateral_def collateral_entry_def sample_account_def fx_convert_def fx_rate_def
        value_balance_def haircut_apply_def haircut_factor_def notional_def narrow_def
        checked_add_def checked64_def int_range SCALE_def signed_divide_int_def Let_def)
  obtain s where s: "margin_state ?c 0 \<lparr>r_initial = 2000, r_maintenance = 1000, r_unmarked = []\<rparr> = Inr s"
      "ms_equity s < ms_maintenance s"
    by (simp add: margin_state_def checked_add_def checked64_def int_range Let_def)
  have "\<not> ms_liquidatable s"
    using zero_balance_blocks_liquidation [OF _ _ c s(1), of "''EUR''"]
    by (simp add: sample_account_def fx_convert_def fx_rate_def)
  with c s show ?thesis by blast
qed

end
