(* ===== verification/Fees.thy ===== *)
theory Fees
  imports Instruments
begin

text \<open>
  The fee models (\<open>h5i-db-backtest/src/models.rs\<close>, first half). A model behind a mutex changes its
  state when it is asked for a commission, so every \<open>commission\<close> returns the new state beside the
  result; the lock itself is not modelled, since a replay is single threaded. The constructors that
  take \<open>f64\<close> rates are modelled from the \<open>Price\<close>s the conversion yields. The contract of the trait
  is the locale \<open>fee_schedule\<close>.
\<close>

section \<open>The interface\<close>

record fee_context =
  fc_order_id :: order_id
  fc_instrument :: instrument
  fc_side :: side
  fc_price :: price
  fc_quantity :: qty
  fc_is_taker :: bool
  fc_ts :: unix_nanos

datatype fee_action = Charge fee_context | Close order_id

locale fee_schedule =
  fixes charge :: "'s \<Rightarrow> fee_context \<Rightarrow> 's \<times> money res"
    and closed :: "'s \<Rightarrow> order_id \<Rightarrow> 's"
    and inv :: "'s \<Rightarrow> bool"
  assumes inv_charge: "inv s \<Longrightarrow> inv (fst (charge s ctx))"
    and inv_closed: "inv s \<Longrightarrow> inv (closed s i)"
    and closed_isolated: "inv s \<Longrightarrow> fc_order_id ctx \<noteq> i \<Longrightarrow> snd (charge (closed s i) ctx) = snd (charge s ctx)"
    and closed_commute: "inv s \<Longrightarrow> fc_order_id ctx \<noteq> i
      \<Longrightarrow> fst (charge (closed s i) ctx) = closed (fst (charge s ctx)) i"
begin

primrec charges :: "'s \<Rightarrow> fee_context list \<Rightarrow> money res list" where
  "charges s [] = []"
| "charges s (ctx # ctxs) = snd (charge s ctx) # charges (fst (charge s ctx)) ctxs"

text \<open>Closing an order changes no later commission of any other order.\<close>

lemma charges_after_close:
  "inv s \<Longrightarrow> \<forall>ctx \<in> set ctxs. fc_order_id ctx \<noteq> i \<Longrightarrow> charges (closed s i) ctxs = charges s ctxs"
  by (induction ctxs arbitrary: s) (auto simp: closed_isolated closed_commute inv_charge)

primrec run :: "'s \<Rightarrow> fee_action list \<Rightarrow> 's" where
  "run s [] = s"
| "run s (a # as) = run (case a of Charge ctx \<Rightarrow> fst (charge s ctx) | Close i \<Rightarrow> closed s i) as"

lemma inv_run: "inv s \<Longrightarrow> inv (run s as)"
  by (induction as arbitrary: s) (auto simp: inv_charge inv_closed split: fee_action.splits)

end

section \<open>Stateless fees\<close>

definition no_fees :: "unit \<Rightarrow> fee_context \<Rightarrow> unit \<times> money res" where
  "no_fees s ctx = (s, Inr 0)"

record proportional_fees =
  pf_maker :: price
  pf_taker :: price

definition proportional_new :: "price res \<Rightarrow> price res \<Rightarrow> proportional_fees res" where
  "proportional_new maker taker =
     and_then maker (\<lambda>m. and_then taker (\<lambda>t. Inr \<lparr>pf_maker = m, pf_taker = t\<rparr>))"

definition proportional_commission :: "proportional_fees \<Rightarrow> fee_context \<Rightarrow> proportional_fees \<times> money res" where
  "proportional_commission pf ctx =
     (pf, let rate = (if fc_is_taker ctx then pf_taker pf else pf_maker pf)
          in and_then (notional (fc_price ctx) (fc_quantity ctx)) (\<lambda>gross. notional rate gross))"

record prediction_fees =
  pm_rate :: price
  pm_maker_rebate :: price

definition prediction_new :: "price res \<Rightarrow> prediction_fees res" where
  "prediction_new rate = and_then rate (\<lambda>r. Inr \<lparr>pm_rate = r, pm_maker_rebate = 0\<rparr>)"

definition with_maker_rebate :: "prediction_fees \<Rightarrow> price res \<Rightarrow> prediction_fees res" where
  "with_maker_rebate pm fraction = and_then fraction (\<lambda>f. Inr (pm\<lparr>pm_maker_rebate := f\<rparr>))"

definition curve :: "price \<Rightarrow> price \<Rightarrow> qty \<Rightarrow> money res" where
  "curve rate price quantity =
     and_then (complement price) (\<lambda>compl.
     and_then (notional price compl) (\<lambda>pq.
     and_then (notional pq quantity) (\<lambda>sc.
       notional rate sc)))"

definition prediction_commission :: "prediction_fees \<Rightarrow> fee_context \<Rightarrow> prediction_fees \<times> money res" where
  "prediction_commission pm ctx =
     (pm, and_then (curve (pm_rate pm) (fc_price ctx) (fc_quantity ctx)) (\<lambda>fee.
            if fc_is_taker ctx then Inr fee
            else if pm_maker_rebate pm = 0 then Inr 0
            else and_then (notional (pm_maker_rebate pm) fee) (\<lambda>rebate. Inr (wrap64 (- rebate)))))"

section \<open>Kalshi\<close>

definition CENTICENT :: raw where "CENTICENT = SCALE sdiv 10000"
definition CENT :: raw where "CENT = SCALE sdiv 100"

record kalshi_fees =
  k_taker_rate :: price
  k_maker_rate :: "price option"
  k_rounding :: "(order_id, raw) btree_map"

definition kalshi_with_maker_rate :: "price res \<Rightarrow> price res option \<Rightarrow> kalshi_fees res" where
  "kalshi_with_maker_rate taker maker =
     and_then taker (\<lambda>t.
     and_then (case maker of None \<Rightarrow> Inr None | Some m \<Rightarrow> map_ok Some m) (\<lambda>mk.
       if t < 0 \<or> (case mk of None \<Rightarrow> False | Some rate \<Rightarrow> rate < 0)
       then invalid ''Kalshi fee rates must not be negative''
       else Inr \<lparr>k_taker_rate = t, k_maker_rate = mk, k_rounding = []\<rparr>))"

definition trade_fee :: "price \<Rightarrow> price \<Rightarrow> qty \<Rightarrow> money res" where
  "trade_fee rate price quantity =
     and_then (complement price) (\<lambda>compl.
     and_then (notional price compl) (\<lambda>pq.
     and_then (notional pq quantity) (\<lambda>sc.
     and_then (notional rate sc) (\<lambda>fee.
     and_then (ok_or (Overflow ''rounding Kalshi trade fee'') (checked64 (fee + (CENTICENT - 1)))) (\<lambda>up.
       Inr (wrap64 (up sdiv CENTICENT * CENTICENT)))))))"

definition kalshi_rate :: "kalshi_fees \<Rightarrow> fee_context \<Rightarrow> price option" where
  "kalshi_rate k ctx = (if fc_is_taker ctx then Some (k_taker_rate k) else k_maker_rate k)"

text \<open>The part of \<open>commission\<close> before the accumulator: the trade fee and the balance rounding.\<close>

definition kalshi_parts :: "kalshi_fees \<Rightarrow> fee_context \<Rightarrow> (money \<times> raw) res" where
  "kalshi_parts k ctx =
     and_then (case kalshi_rate k ctx of
                 Some rate \<Rightarrow> trade_fee rate (fc_price ctx) (fc_quantity ctx) | None \<Rightarrow> Inr 0) (\<lambda>fee.
     and_then (notional (fc_price ctx) (fc_quantity ctx)) (\<lambda>gross.
       let revenue = (case fc_side ctx of Buy \<Rightarrow> wrap64 (- gross) | Sell \<Rightarrow> gross)
       in and_then (ok_or (Overflow ''applying Kalshi trade fee'') (checked64 (revenue - fee))) (\<lambda>after.
            let cent_aligned = wrap64 (after div CENT * CENT)
            in Inr (fee, wrap64 (after - cent_aligned)))))"

definition kalshi_commission :: "kalshi_fees \<Rightarrow> fee_context \<Rightarrow> kalshi_fees \<times> money res" where
  "kalshi_commission k ctx =
     (case kalshi_parts k ctx of
        Inl e \<Rightarrow> (k, Inl e)
      | Inr (fee, rounding_fee) \<Rightarrow>
          let accumulated = (case bt_get (k_rounding k) (fc_order_id ctx) of None \<Rightarrow> 0 | Some a \<Rightarrow> a);
              k1 = k\<lparr>k_rounding := bt_insert (fc_order_id ctx) accumulated (k_rounding k)\<rparr>
          in case checked64 (accumulated + rounding_fee) of
               None \<Rightarrow> (k1, Inl (Overflow ''accumulating Kalshi rounding fee''))
             | Some tot \<Rightarrow>
                 let rebate = wrap64 (tot sdiv CENT * CENT)
                 in (k1\<lparr>k_rounding := bt_insert (fc_order_id ctx) (wrap64 (tot - rebate)) (k_rounding k1)\<rparr>,
                     Inr (wrap64 (wrap64 (fee + rounding_fee) - rebate))))"

definition kalshi_order_closed :: "kalshi_fees \<Rightarrow> order_id \<Rightarrow> kalshi_fees" where
  "kalshi_order_closed k i = k\<lparr>k_rounding := bt_remove i (k_rounding k)\<rparr>"

section \<open>Volume tiers\<close>

record fee_tier =
  volume_from :: money
  ft_maker :: price
  ft_taker :: price

record tiered_fees =
  tiers :: "fee_tier list"
  window_nanos :: int
  vw_entries :: "(int \<times> raw) list"
  vw_total :: int

definition tiered_new :: "fee_tier list \<Rightarrow> int \<Rightarrow> tiered_fees res" where
  "tiered_new ts window =
     (if ts = [] then invalid ''a fee schedule needs at least one tier''
      else if window \<le> 0 then invalid ''a rolling fee window must be positive''
      else let sorted_tiers = sort_key volume_from ts
           in if volume_from (hd sorted_tiers) \<noteq> 0
              then invalid ''the first fee tier must start at zero volume''
              else if list_ex (\<lambda>(a, b). volume_from a = volume_from b) (zip sorted_tiers (tl sorted_tiers))
              then invalid ''two fee tiers start at the same volume''
              else Inr \<lparr>tiers = sorted_tiers, window_nanos = window, vw_entries = [], vw_total = 0\<rparr>)"

definition tier_for_raw :: "tiered_fees \<Rightarrow> int \<Rightarrow> fee_tier" where
  "tier_for_raw t volume =
     (case find (\<lambda>tier. volume \<ge> volume_from tier) (rev (tiers t)) of
        Some tier \<Rightarrow> tier | None \<Rightarrow> hd (tiers t))"

definition tier_for :: "tiered_fees \<Rightarrow> money \<Rightarrow> fee_tier" where
  "tier_for t volume = tier_for_raw t volume"

fun expire :: "int \<Rightarrow> (int \<times> raw) list \<Rightarrow> int \<Rightarrow> (int \<times> raw) list \<times> int" where
  "expire cutoff [] tot = ([], tot)"
| "expire cutoff ((at, amount) # es) tot =
     (if at < cutoff then expire cutoff es (tot - amount) else ((at, amount) # es, tot))"

definition tiered_commission :: "tiered_fees \<Rightarrow> fee_context \<Rightarrow> tiered_fees \<times> money res" where
  "tiered_commission t ctx =
     (case map_ok fixed_abs (notional (fc_price ctx) (fc_quantity ctx)) of
        Inl e \<Rightarrow> (t, Inl e)
      | Inr gross \<Rightarrow>
          let cutoff = sat64 (fc_ts ctx - window_nanos t);
              (entries, rolling) = expire cutoff (vw_entries t) (vw_total t);
              tier = tier_for_raw t rolling;
              rate = (if fc_is_taker ctx then ft_taker tier else ft_maker tier)
          in (t\<lparr>vw_entries := entries @ [(fc_ts ctx, gross)], vw_total := rolling + gross\<rparr>,
              notional rate gross))"

definition nothing_closed :: "'s \<Rightarrow> order_id \<Rightarrow> 's" where
  "nothing_closed s i = s"

section \<open>The contract holds\<close>

interpretation no_fees: fee_schedule no_fees nothing_closed "\<lambda>_. True"
  by unfold_locales (simp_all add: nothing_closed_def)

interpretation proportional: fee_schedule proportional_commission nothing_closed "\<lambda>_. True"
  by unfold_locales (simp_all add: nothing_closed_def)

interpretation prediction: fee_schedule prediction_commission nothing_closed "\<lambda>_. True"
  by unfold_locales (simp_all add: nothing_closed_def)

definition tiered_wf :: "tiered_fees \<Rightarrow> bool" where
  "tiered_wf t \<longleftrightarrow> tiers t \<noteq> [] \<and> sorted_wrt (<) (map volume_from (tiers t)) \<and> volume_from (hd (tiers t)) = 0
     \<and> 0 < window_nanos t \<and> vw_total t = sum_list (map snd (vw_entries t))"

lemma expire_eq:
  "expire cutoff es tot = (dropWhile (\<lambda>e. fst e < cutoff) es,
     tot - sum_list (map snd (takeWhile (\<lambda>e. fst e < cutoff) es)))"
  by (induction cutoff es tot rule: expire.induct) auto

lemma sum_takeWhile_dropWhile:
  "sum_list (map f es) = sum_list (map f (takeWhile P es)) + (sum_list (map f (dropWhile P es)) :: int)"
  by (induction es) auto

lemma expire_total:
  "expire cutoff es (sum_list (map snd es)) = (es', tot) \<Longrightarrow> tot = sum_list (map snd es')"
  using sum_takeWhile_dropWhile [of snd es "\<lambda>e. fst e < cutoff"] by (auto simp: expire_eq)

lemma tiered_wf_commission: "tiered_wf t \<Longrightarrow> tiered_wf (fst (tiered_commission t ctx))"
  using expire_total [of "sat64 (fc_ts ctx - window_nanos t)" "vw_entries t"]
  by (auto simp: tiered_commission_def tiered_wf_def Let_def split: sum.splits prod.splits)

interpretation tiered: fee_schedule tiered_commission nothing_closed tiered_wf
  by unfold_locales (simp_all add: nothing_closed_def tiered_wf_commission)

definition kalshi_wf :: "kalshi_fees \<Rightarrow> bool" where
  "kalshi_wf k \<longleftrightarrow> bt_wf (k_rounding k) \<and> (\<forall>i a. bt_get (k_rounding k) i = Some a \<longrightarrow> 0 \<le> a \<and> a < CENT)"

lemma CENT_eq: "CENT = 10000000" "CENTICENT = 100000"
  by (simp_all add: CENT_def CENTICENT_def SCALE_def)

lemma mod_CENT: "0 \<le> x mod CENT" "x mod CENT < CENT" "in_i64 (x mod CENT)"
proof -
  have "0 \<le> x mod 10000000" "x mod 10000000 < 10000000" by simp_all
  then show "0 \<le> x mod CENT" "x mod CENT < CENT" "in_i64 (x mod CENT)"
    unfolding CENT_eq int_range by linarith+
qed

definition accumulated :: "kalshi_fees \<Rightarrow> order_id \<Rightarrow> raw" where
  "accumulated k i = (case bt_get (k_rounding k) i of None \<Rightarrow> 0 | Some a \<Rightarrow> a)"

lemma accumulated_bounds: "kalshi_wf k \<Longrightarrow> 0 \<le> accumulated k i \<and> accumulated k i < CENT"
  by (auto simp: kalshi_wf_def accumulated_def CENT_eq split: option.splits)

lemma kalshi_parts_rounding:
  assumes "kalshi_parts k ctx = Inr (fee, rf)"
  shows "0 \<le> rf \<and> rf < CENT"
proof -
  obtain after where "rf = wrap64 (after - wrap64 (after div CENT * CENT))"
    using assms by (auto simp: kalshi_parts_def and_then_Inr_iff Let_def)
  moreover have "after - after div CENT * CENT = after mod CENT" by (simp add: minus_div_mult_eq_mod)
  ultimately have "rf = wrap64 (after mod CENT)" by (simp add: wrap64_diff)
  then show ?thesis by (simp add: mod_CENT)
qed

text \<open>The accumulator turns the rounding of one fill into a remainder and whole cents back.\<close>

lemma kalshi_commission_eq:
  assumes "kalshi_wf k" and "kalshi_parts k ctx = Inr (fee, rf)"
  shows "kalshi_commission k ctx =
    (k\<lparr>k_rounding := bt_insert (fc_order_id ctx) ((accumulated k (fc_order_id ctx) + rf) mod CENT) (k_rounding k)\<rparr>,
     Inr (wrap64 (wrap64 (fee + rf) - (accumulated k (fc_order_id ctx) + rf) div CENT * CENT)))"
proof -
  let ?i = "fc_order_id ctx"
  let ?t = "accumulated k ?i + rf"
  have b: "0 \<le> ?t" "?t < 2 * CENT"
    using accumulated_bounds [OF assms(1), of ?i] kalshi_parts_rounding [OF assms(2)] by auto
  have t: "checked64 ?t = Some ?t" using b by (simp add: checked64_def int_range CENT_eq)
  have "?t div CENT \<le> 1" "0 \<le> ?t div CENT" using b by (simp_all add: CENT_eq)
  then have reb: "wrap64 (?t sdiv CENT * CENT) = ?t div CENT * CENT"
    using b by (simp add: sdiv_nonneg_eq CENT_eq int_range)
  have rest: "wrap64 (?t - ?t div CENT * CENT) = ?t mod CENT"
    by (simp add: minus_div_mult_eq_mod mod_CENT)
  have twice: "bt_insert ?i x (bt_insert ?i y (k_rounding k)) = bt_insert ?i x (k_rounding k)" for x y
    using assms(1) by (intro bt_eqI ext) (auto simp: kalshi_wf_def bt_wf_insert bt_get_insert)
  show ?thesis
    using assms(2) t reb rest twice
    by (simp add: kalshi_commission_def Let_def flip: accumulated_def)
qed

lemma kalshi_commission_Inl: "kalshi_parts k ctx = Inl e \<Longrightarrow> kalshi_commission k ctx = (k, Inl e)"
  by (simp add: kalshi_commission_def)

lemma kalshi_wf_commission: "kalshi_wf k \<Longrightarrow> kalshi_wf (fst (kalshi_commission k ctx))"
proof (cases "kalshi_parts k ctx")
  case (Inr fr)
  moreover assume "kalshi_wf k"
  ultimately show ?thesis
    by (cases fr) (auto simp: kalshi_commission_eq kalshi_wf_def bt_wf_insert bt_get_insert CENT_eq)
qed (simp add: kalshi_commission_Inl)

lemma kalshi_wf_closed: "kalshi_wf k \<Longrightarrow> kalshi_wf (kalshi_order_closed k i)"
  by (auto simp: kalshi_wf_def kalshi_order_closed_def bt_wf_remove bt_get_remove split: if_splits)

lemma kalshi_parts_closed [simp]: "kalshi_parts (kalshi_order_closed k i) ctx = kalshi_parts k ctx"
  by (simp add: kalshi_parts_def kalshi_rate_def kalshi_order_closed_def)

lemma accumulated_closed: "accumulated (kalshi_order_closed k i) j = (if j = i then 0 else accumulated k j)"
  by (simp add: accumulated_def kalshi_order_closed_def bt_get_remove)

interpretation kalshi: fee_schedule kalshi_commission kalshi_order_closed kalshi_wf
proof
  show "kalshi_wf (fst (kalshi_commission k ctx))" if "kalshi_wf k" for k ctx
    using that by (rule kalshi_wf_commission)
  show "kalshi_wf (kalshi_order_closed k i)" if "kalshi_wf k" for k i
    using that by (rule kalshi_wf_closed)
next
  fix k :: kalshi_fees and ctx :: fee_context and i
  assume wf: "kalshi_wf k" and other: "fc_order_id ctx \<noteq> i"
  note wf' = kalshi_wf_closed [OF wf, of i]
  have swap: "bt_insert (fc_order_id ctx) x (bt_remove i (k_rounding k))
      = bt_remove i (bt_insert (fc_order_id ctx) x (k_rounding k))" for x
    using wf other by (intro bt_eqI ext) (auto simp: kalshi_wf_def bt_wf_insert bt_wf_remove bt_get_insert bt_get_remove)
  have "snd (kalshi_commission (kalshi_order_closed k i) ctx) = snd (kalshi_commission k ctx)
      \<and> fst (kalshi_commission (kalshi_order_closed k i) ctx) = kalshi_order_closed (fst (kalshi_commission k ctx)) i"
  proof (cases "kalshi_parts k ctx")
    case (Inr fr)
    then show ?thesis
      using other swap
      by (cases fr) (simp add: kalshi_commission_eq [OF wf] kalshi_commission_eq [OF wf'] accumulated_closed,
          simp add: kalshi_order_closed_def)
  qed (simp add: kalshi_commission_Inl)
  then show "snd (kalshi_commission (kalshi_order_closed k i) ctx) = snd (kalshi_commission k ctx)"
    and "fst (kalshi_commission (kalshi_order_closed k i) ctx) = kalshi_order_closed (fst (kalshi_commission k ctx)) i"
    by blast+
qed

section \<open>Kalshi orders pay less than a cent of rounding\<close>

text \<open>Fills a Kalshi book can produce, with rates at most one: everything fits an \<open>i64\<close>.\<close>

definition kalshi_rates_ok :: "kalshi_fees \<Rightarrow> bool" where
  "kalshi_rates_ok k \<longleftrightarrow> 0 \<le> k_taker_rate k \<and> k_taker_rate k \<le> SCALE
     \<and> (\<forall>r. k_maker_rate k = Some r \<longrightarrow> 0 \<le> r \<and> r \<le> SCALE)"

definition kalshi_fill_ok :: "fee_context \<Rightarrow> bool" where
  "kalshi_fill_ok ctx \<longleftrightarrow> 0 \<le> fc_price ctx \<and> fc_price ctx \<le> SCALE
     \<and> 0 \<le> fc_quantity ctx \<and> fc_quantity ctx \<le> 4000000000000000000"

lemma notional_fraction:
  assumes "0 \<le> p" and "p \<le> SCALE" and "0 \<le> q" and "q \<le> i64_max"
  shows "\<exists>m. notional p q = Inr m \<and> 0 \<le> m \<and> m \<le> q"
proof -
  have "0 \<le> round_div (p * q) SCALE" using assms by (intro round_div_sign) auto
  moreover have "p * q \<le> q * SCALE"
    using mult_right_mono [OF assms(2,3)] by (simp add: mult.commute)
  then have "round_div (p * q) SCALE \<le> q"
    using round_div_mono [OF SCALE_pos(1)] by (fastforce simp: round_div_multiple)
  ultimately show ?thesis
    using assms(4) by (auto simp: notional_Inr_iff int_range)
qed

lemma trade_fee_bounds:
  assumes "0 \<le> rate" and "rate \<le> SCALE" and "kalshi_fill_ok ctx"
  shows "\<exists>fee. trade_fee rate (fc_price ctx) (fc_quantity ctx) = Inr fee \<and> 0 \<le> fee
    \<and> fee \<le> fc_quantity ctx + CENTICENT"
proof -
  let ?p = "fc_price ctx" and ?q = "fc_quantity ctx"
  have p: "0 \<le> ?p" "?p \<le> SCALE" and q: "0 \<le> ?q" "?q \<le> 4000000000000000000"
    using assms(3) by (auto simp: kalshi_fill_ok_def)
  have c: "complement ?p = Inr (SCALE - ?p)" using p by (simp add: complement_Inr_iff int_range SCALE_def)
  obtain pq where pq: "notional ?p (SCALE - ?p) = Inr pq" "0 \<le> pq" "pq \<le> SCALE - ?p"
    using notional_fraction [OF p, of "SCALE - ?p"] p by (auto simp: int_range SCALE_def)
  obtain sc where sc: "notional pq ?q = Inr sc" "0 \<le> sc" "sc \<le> ?q"
    using notional_fraction [of pq ?q] pq p q by (auto simp: int_range)
  obtain fe where fe: "notional rate sc = Inr fe" "0 \<le> fe" "fe \<le> sc"
    using notional_fraction [of rate sc] assms(1,2) sc q by (auto simp: int_range)
  let ?up = "fe + (CENTICENT - 1)"
  have up: "0 \<le> ?up" "?up \<le> ?q + CENTICENT - 1" "in_i64 ?up"
    using fe sc q by (auto simp: CENT_eq int_range)
  have "0 \<le> ?up div CENTICENT * CENTICENT" "?up div CENTICENT * CENTICENT \<le> ?up"
    using up(1) div_mult_bounds(1) [of CENTICENT ?up] by (simp_all add: CENT_eq)
  moreover from this have "in_i64 (?up div CENTICENT * CENTICENT)"
    by (rule in_i64_between [OF in_i64_0 up(3)])
  ultimately show ?thesis
    using c pq sc fe up
    by (simp add: trade_fee_def checked64_def sdiv_nonneg_eq CENT_eq)
qed

lemma kalshi_parts_ok:
  assumes "kalshi_rates_ok k" and "kalshi_fill_ok ctx"
  shows "\<exists>fee rf. kalshi_parts k ctx = Inr (fee, rf) \<and> 0 \<le> fee \<and> fee \<le> 4000000000000000000 + CENTICENT"
proof -
  obtain fee where fee: "(case kalshi_rate k ctx of
      Some rate \<Rightarrow> trade_fee rate (fc_price ctx) (fc_quantity ctx) | None \<Rightarrow> Inr 0) = Inr fee"
      "0 \<le> fee" "fee \<le> 4000000000000000000 + CENTICENT"
  proof (cases "kalshi_rate k ctx")
    case (Some rate)
    then have "0 \<le> rate" "rate \<le> SCALE"
      using assms(1) by (auto simp: kalshi_rate_def kalshi_rates_ok_def split: if_splits)
    from trade_fee_bounds [OF this assms(2)] Some assms(2) show ?thesis
      by (auto simp: kalshi_fill_ok_def intro: that)
  qed (use that in \<open>simp add: CENT_eq\<close>)
  obtain gross where g: "notional (fc_price ctx) (fc_quantity ctx) = Inr gross" "0 \<le> gross"
      "gross \<le> 4000000000000000000"
    using notional_fraction [of "fc_price ctx" "fc_quantity ctx"] assms(2)
    by (auto simp: kalshi_fill_ok_def int_range)
  have "in_i64 (- gross)" "in_i64 (gross - fee)" "in_i64 (- gross - fee)"
    using g(2,3) fee(2,3) by (auto simp: int_range CENT_eq)
  with fee g show ?thesis
    by (auto simp: kalshi_parts_def checked64_def Let_def split: side.splits)
qed

text \<open>What a history of fills of one order is charged, and what it would be without rounding.\<close>

definition kalshi_fee_of :: "kalshi_fees \<Rightarrow> fee_context \<Rightarrow> money" where
  "kalshi_fee_of k ctx = (case kalshi_parts k ctx of Inl _ \<Rightarrow> 0 | Inr (fee, _) \<Rightarrow> fee)"

primrec kalshi_run :: "kalshi_fees \<Rightarrow> fee_context list \<Rightarrow> (kalshi_fees \<times> money) res" where
  "kalshi_run k [] = Inr (k, 0)"
| "kalshi_run k (ctx # ctxs) =
     (case kalshi_commission k ctx of
        (k', r) \<Rightarrow> and_then r (\<lambda>c. map_ok (\<lambda>(k'', rest). (k'', c + rest)) (kalshi_run k' ctxs)))"

lemma kalshi_step:
  assumes "kalshi_wf k" and "kalshi_rates_ok k" and "kalshi_fill_ok ctx" and "fc_order_id ctx = i"
  shows "\<exists>k' c. kalshi_commission k ctx = (k', Inr c) \<and> kalshi_wf k' \<and> kalshi_rates_ok k'
    \<and> c = kalshi_fee_of k ctx + accumulated k' i - accumulated k i
    \<and> (\<forall>x. kalshi_fee_of k' x = kalshi_fee_of k x)"
proof -
  obtain fee rf where parts: "kalshi_parts k ctx = Inr (fee, rf)" "0 \<le> fee" "fee \<le> 4000000000000000000 + CENTICENT"
    using kalshi_parts_ok [OF assms(2,3)] by auto
  let ?t = "accumulated k i + rf"
  define k' where "k' = fst (kalshi_commission k ctx)"
  note run = kalshi_commission_eq [OF assms(1) parts(1), unfolded assms(4)]
  have acc: "accumulated k' i = ?t mod CENT"
    using assms(1) by (simp add: k'_def run accumulated_def kalshi_wf_def bt_get_insert)
  have b: "0 \<le> rf" "rf < CENT" "0 \<le> ?t" "?t < 2 * CENT"
    using accumulated_bounds [OF assms(1), of i] kalshi_parts_rounding [OF parts(1)] by auto
  have "?t div CENT * CENT = ?t - ?t mod CENT" by (simp add: minus_mod_eq_div_mult)
  then have "fee + rf - ?t div CENT * CENT = fee + ?t mod CENT - accumulated k i" by linarith
  moreover have "in_i64 (fee + rf)" "in_i64 (fee + ?t mod CENT - accumulated k i)"
    using parts(2,3) b mod_CENT(1,2) [of ?t] accumulated_bounds [OF assms(1), of i]
    unfolding int_range CENT_eq by linarith+
  ultimately have c: "wrap64 (wrap64 (fee + rf) - ?t div CENT * CENT) = fee + ?t mod CENT - accumulated k i"
    by (simp only: wrap64_id)
  have same: "kalshi_parts k' x = kalshi_parts k x" for x
    by (simp add: k'_def run kalshi_parts_def kalshi_rate_def)
  have "kalshi_wf k'" by (simp add: k'_def kalshi_wf_commission assms(1))
  moreover have "kalshi_rates_ok k'" using assms(2) by (simp add: k'_def run kalshi_rates_ok_def)
  moreover have "kalshi_commission k ctx = (k', Inr (fee + ?t mod CENT - accumulated k i))"
    using run c by (simp add: k'_def)
  ultimately show ?thesis
    using acc same parts(1) by (auto simp: kalshi_fee_of_def)
qed

lemma kalshi_run_total:
  assumes "kalshi_wf k" and "kalshi_rates_ok k" and "\<forall>ctx \<in> set ctxs. kalshi_fill_ok ctx \<and> fc_order_id ctx = i"
  shows "\<exists>k' paid. kalshi_run k ctxs = Inr (k', paid) \<and> kalshi_wf k'
    \<and> paid = sum_list (map (kalshi_fee_of k) ctxs) + accumulated k' i - accumulated k i"
  using assms
proof (induction ctxs arbitrary: k)
  case (Cons ctx ctxs)
  then obtain k1 c where k1: "kalshi_commission k ctx = (k1, Inr c)" "kalshi_wf k1" "kalshi_rates_ok k1"
      "c = kalshi_fee_of k ctx + accumulated k1 i - accumulated k i" "\<forall>x. kalshi_fee_of k1 x = kalshi_fee_of k x"
    using kalshi_step [of k ctx i] by auto
  with Cons.IH [of k1] Cons.prems(3) show ?case by (auto cong: map_cong)
qed simp


definition sample_ctx :: "order_id \<Rightarrow> price \<Rightarrow> qty \<Rightarrow> unix_nanos \<Rightarrow> fee_context" where
  "sample_ctx i p q ts = \<lparr>fc_order_id = i, fc_instrument = sample_instrument, fc_side = Buy, fc_price = p,
     fc_quantity = q, fc_is_taker = True, fc_ts = ts\<rparr>"


section \<open>Volume tiers price by rolling volume\<close>

lemma tiered_new_wf: "tiered_new ts w = Inr t \<Longrightarrow> tiered_wf t"
proof -
  assume run: "tiered_new ts w = Inr t"
  let ?s = "sort_key volume_from ts"
  have t: "t = \<lparr>tiers = ?s, window_nanos = w, vw_entries = [], vw_total = 0\<rparr>" and w: "0 < w"
    and ne: "ts \<noteq> []" and hd: "volume_from (hd ?s) = 0"
    and adj: "\<not> list_ex (\<lambda>(a, b). volume_from a = volume_from b) (zip ?s (tl ?s))"
    using run by (auto simp: tiered_new_def Let_def split: if_splits)
  have strict: "sorted_wrt (<) (map volume_from xs)"
    if "sorted (map volume_from xs)" "\<not> list_ex (\<lambda>(a, b). volume_from a = volume_from b) (zip xs (tl xs))" for xs
    using that
  proof (induction xs)
    case (Cons x xs)
    show ?case
    proof (cases xs)
      case (Cons y ys)
      with Cons.prems Cons.IH have "volume_from x < volume_from y" "sorted_wrt (<) (map volume_from (y # ys))"
        by auto
      with Cons show ?thesis by (auto dest: less_trans)
    qed simp
  qed simp
  have "?s \<noteq> []" using ne by (metis length_0_conv length_sort)
  with strict [OF sorted_sort_key adj] show ?thesis by (simp add: t tiered_wf_def w hd)
qed

lemma tier_for_raw_spec:
  assumes "tiered_wf t" and "0 \<le> volume"
  shows "tier_for_raw t volume \<in> set (tiers t) \<and> volume_from (tier_for_raw t volume) \<le> volume
    \<and> (\<forall>u \<in> set (tiers t). volume_from u \<le> volume \<longrightarrow> volume_from u \<le> volume_from (tier_for_raw t volume))"
proof -
  have "\<exists>u. find (\<lambda>tier. volume \<ge> volume_from tier) (rev xs) = Some u \<and> u \<in> set xs \<and> volume_from u \<le> volume
      \<and> (\<forall>v \<in> set xs. volume_from v \<le> volume \<longrightarrow> volume_from v \<le> volume_from u)"
    if "sorted_wrt (<) (map volume_from xs)" "xs \<noteq> []" "volume_from (hd xs) \<le> volume" for xs
    using that
  proof (induction xs rule: rev_induct)
    case (snoc x xs)
    then show ?case by (cases "xs = []") (auto simp: sorted_wrt_append less_imp_le)
  qed simp
  from this [of "tiers t"] assms show ?thesis by (auto simp: tiered_wf_def tier_for_raw_def)
qed

text \<open>The rolling volume before an instant, from the whole history of priced fills.\<close>

definition rolling_volume :: "int \<Rightarrow> unix_nanos \<Rightarrow> (unix_nanos \<times> money) list \<Rightarrow> int" where
  "rolling_volume window ts past =
     sum_list (map snd (filter (\<lambda>h. sat64 (ts - window) \<le> fst h) past))"

definition gross_of :: "fee_context \<Rightarrow> money res" where
  "gross_of ctx = map_ok fixed_abs (notional (fc_price ctx) (fc_quantity ctx))"

primrec tiered_run :: "tiered_fees \<Rightarrow> fee_context list \<Rightarrow> tiered_fees \<times> money res list" where
  "tiered_run t [] = (t, [])"
| "tiered_run t (ctx # ctxs) =
     (case tiered_commission t ctx of (t', r) \<Rightarrow> case tiered_run t' ctxs of (t'', rs) \<Rightarrow> (t'', r # rs))"

fun spec_commissions :: "fee_tier list \<Rightarrow> int \<Rightarrow> (unix_nanos \<times> money) list \<Rightarrow> fee_context list \<Rightarrow> money res list" where
  "spec_commissions ts window past [] = []"
| "spec_commissions ts window past (ctx # ctxs) =
     (case gross_of ctx of
        Inl e \<Rightarrow> Inl e # spec_commissions ts window past ctxs
      | Inr gross \<Rightarrow>
          (let tier = tier_for_raw \<lparr>tiers = ts, window_nanos = window, vw_entries = [], vw_total = 0\<rparr>
                 (rolling_volume window (fc_ts ctx) past)
           in notional (if fc_is_taker ctx then ft_taker tier else ft_maker tier) gross)
          # spec_commissions ts window (past @ [(fc_ts ctx, gross)]) ctxs)"

lemma dropWhile_sorted_filter:
  "sorted (map fst es) \<Longrightarrow> dropWhile (\<lambda>e. fst e < (c::int)) es = filter (\<lambda>e. c \<le> fst e) es"
proof (induction es)
  case (Cons e es)
  show ?case
  proof (cases "fst e < c")
    case False
    then have "\<forall>x \<in> set es. c \<le> fst x" using Cons.prems by auto
    with False show ?thesis by (simp add: filter_True)
  qed (use Cons in auto)
qed simp

lemma sat64_mono: "x \<le> y \<Longrightarrow> sat64 x \<le> sat64 y"
  by (auto simp: sat64_def int_range)

lemma sat64_below: "in_i64 x \<Longrightarrow> 0 < w \<Longrightarrow> sat64 (x - w) \<le> x"
  by (auto simp: sat64_def int_range)

lemma tier_for_raw_tiers:
  "tier_for_raw \<lparr>tiers = tiers t, window_nanos = w, vw_entries = es, vw_total = v\<rparr> = tier_for_raw t"
  by (simp add: tier_for_raw_def fun_eq_iff split: option.split)

lemma tiered_run_Cons:
  "snd (tiered_run t (ctx # ctxs)) = snd (tiered_commission t ctx) # snd (tiered_run (fst (tiered_commission t ctx)) ctxs)"
  by (simp split: prod.splits)

lemma tiered_run_spec:
  assumes "tiered_wf t" and "vw_entries t = filter (\<lambda>h. c \<le> fst h) past" and "sorted (map fst past)"
    and "sorted (map fc_ts ctxs)" and "\<forall>ctx \<in> set ctxs. in_i64 (fc_ts ctx) \<and> c \<le> sat64 (fc_ts ctx - window_nanos t)
      \<and> (\<forall>h \<in> set past. fst h \<le> fc_ts ctx)"
  shows "snd (tiered_run t ctxs) = spec_commissions (tiers t) (window_nanos t) past ctxs"
  using assms
proof (induction ctxs arbitrary: t c past)
  case (Cons ctx ctxs)
  let ?w = "window_nanos t" and ?ts = "fc_ts ctx"
  have w: "0 < ?w" using Cons.prems(1) by (simp add: tiered_wf_def)
  show ?case
  proof (cases "gross_of ctx")
    case (Inl e)
    then have "tiered_commission t ctx = (t, Inl e)" by (simp add: tiered_commission_def gross_of_def)
    then show ?thesis using Cons.IH [OF Cons.prems(1-3)] Cons.prems(4,5) Inl
      by (simp add: tiered_run_Cons del: tiered_run.simps(2))
  next
    case (Inr gross)
    define c' where "c' = sat64 (?ts - ?w)"
    have cc: "c \<le> c'" and inr: "in_i64 ?ts" using Cons.prems(5) by (simp_all add: c'_def)
    have srt: "sorted (map fst (filter (\<lambda>h. c \<le> fst h) past))"
      using Cons.prems(3) by (simp add: sorted_filter)
    have es: "dropWhile (\<lambda>e. fst e < c') (vw_entries t) = filter (\<lambda>h. c' \<le> fst h) past"
      unfolding Cons.prems(2) dropWhile_sorted_filter [OF srt] using cc by (auto intro: filter_cong)
    obtain rolling where ex: "expire c' (vw_entries t) (vw_total t) = (filter (\<lambda>h. c' \<le> fst h) past, rolling)"
      using es by (simp add: expire_eq)
    have roll: "rolling = rolling_volume ?w ?ts past"
      using expire_total [of c' "vw_entries t" _ rolling] ex Cons.prems(1)
      by (simp add: tiered_wf_def rolling_volume_def c'_def)
    define t' where "t' = t\<lparr>vw_entries := filter (\<lambda>h. c' \<le> fst h) past @ [(?ts, gross)], vw_total := rolling + gross\<rparr>"
    let ?tier = "tier_for_raw t rolling"
    have step: "tiered_commission t ctx = (t', notional (if fc_is_taker ctx then ft_taker ?tier else ft_maker ?tier) gross)"
      using Inr ex by (simp add: tiered_commission_def gross_of_def t'_def Let_def flip: c'_def)
    have "snd (tiered_run t' ctxs) = spec_commissions (tiers t') (window_nanos t') (past @ [(?ts, gross)]) ctxs"
    proof (rule Cons.IH [where c = c'])
      show "tiered_wf t'" using tiered_wf_commission [OF Cons.prems(1), of ctx] step by simp
      show "vw_entries t' = filter (\<lambda>h. c' \<le> fst h) (past @ [(?ts, gross)])"
        using sat64_below [OF inr w] by (simp add: t'_def c'_def)
      show "sorted (map fst (past @ [(?ts, gross)]))"
        using Cons.prems(3,5) by (auto simp: sorted_append)
      show "sorted (map fc_ts ctxs)" using Cons.prems(4) by simp
      show "\<forall>x \<in> set ctxs. in_i64 (fc_ts x) \<and> c' \<le> sat64 (fc_ts x - window_nanos t')
          \<and> (\<forall>h \<in> set (past @ [(?ts, gross)]). fst h \<le> fc_ts x)"
        using Cons.prems(4,5) by (auto simp: c'_def t'_def intro!: sat64_mono)
    qed
    then show ?thesis
      using step Inr
      by (simp add: t'_def roll tier_for_raw_tiers Let_def tiered_run_Cons del: tiered_run.simps(2))
  qed
qed simp

text \<open>
  C18: a volume-tiered schedule prices every fill at the tier reached before it. For fills in time
  order, the state carried from fill to fill computes exactly the specification: each commission uses
  the highest tier whose threshold is at most the volume traded in the trailing window before the fill,
  the fill itself counting only for later ones.
\<close>

theorem tiered_fees_by_rolling_volume:
  assumes "tiered_new ts window = Inr t" and "sorted (map fc_ts ctxs)" and "\<forall>ctx \<in> set ctxs. in_i64 (fc_ts ctx)"
  shows "snd (tiered_run t ctxs) = spec_commissions (sort_key volume_from ts) window [] ctxs
    \<and> (\<forall>volume. 0 \<le> volume \<longrightarrow> volume_from (tier_for_raw t volume) \<le> volume
        \<and> (\<forall>u \<in> set ts. volume_from u \<le> volume \<longrightarrow> volume_from u \<le> volume_from (tier_for_raw t volume)))"
proof -
  have t: "tiers t = sort_key volume_from ts" "window_nanos t = window" "vw_entries t = []"
    using assms(1) by (auto simp: tiered_new_def Let_def split: if_splits)
  have wf: "tiered_wf t" by (rule tiered_new_wf [OF assms(1)])
  have "snd (tiered_run t ctxs) = spec_commissions (tiers t) (window_nanos t) [] ctxs"
    using wf assms(2,3) t by (intro tiered_run_spec [where c = i64_min]) (auto simp: sat64_def int_range)
  then show ?thesis using tier_for_raw_spec [OF wf] by (simp add: t)
qed

definition sample_tiers :: "fee_tier list" where
  "sample_tiers = [\<lparr>volume_from = 1000, ft_maker = 0, ft_taker = 100000000\<rparr>,
     \<lparr>volume_from = 0, ft_maker = 0, ft_taker = 500000000\<rparr>]"

lemma tiered_fees_by_rolling_volume_witness:
  "\<exists>t. tiered_new sample_tiers 50 = Inr t \<and> snd (tiered_run t
     [sample_ctx 1 1000 1000000000 0, sample_ctx 2 1000 1000000000 10, sample_ctx 3 1000 1000000000 100])
   = [Inr 500, Inr 100, Inr 500]"
proof -
  let ?ctxs = "[sample_ctx 1 1000 1000000000 0, sample_ctx 2 1000 1000000000 10, sample_ctx 3 1000 1000000000 100]"
  obtain t where t: "tiered_new sample_tiers 50 = Inr t"
    by (simp add: tiered_new_def sample_tiers_def Let_def)
  have "sorted (map fc_ts ?ctxs)" "\<forall>ctx \<in> set ?ctxs. in_i64 (fc_ts ctx)"
    by (simp_all add: sample_ctx_def int_range)
  from tiered_fees_by_rolling_volume [OF t this]
  have "snd (tiered_run t ?ctxs) = spec_commissions (sort_key volume_from sample_tiers) 50 [] ?ctxs" by blast
  also have "\<dots> = [Inr 500, Inr 100, Inr 500]"
    by (simp add: sample_tiers_def sample_ctx_def gross_of_def notional_def narrow_def checked64_def
        int_range SCALE_def signed_divide_int_def fixed_abs_def wrap64_def tier_for_raw_def
        rolling_volume_def sat64_def Let_def)
  finally show ?thesis using t by blast
qed

end
