(* ===== verification/Book.thy ===== *)
theory Book
  imports Corporate
begin

text \<open>
  The level-two order book (\<open>h5i-db-backtest/src/book.rs\<close>): reconstruction from snapshots and
  incremental updates, the gap rule, requoting at a split, and the walk of a taker. Each side is an
  ordered map from raw price to size. \<open>apply_split\<close> replaces the bids before it can fail on the
  asks, so its model returns the book beside the result. Plain \<open>i64\<close> sums wrap.
\<close>

section \<open>State\<close>

datatype book_action = Set | Delete | Clear

record book_delta =
  bd_action :: book_action
  bd_side :: side
  bd_price :: price
  bd_size :: qty

definition delta_set :: "side \<Rightarrow> price \<Rightarrow> qty \<Rightarrow> book_delta" where
  "delta_set s p q = \<lparr>bd_action = Set, bd_side = s, bd_price = p, bd_size = q\<rparr>"

definition delta_delete :: "side \<Rightarrow> price \<Rightarrow> book_delta" where
  "delta_delete s p = \<lparr>bd_action = Delete, bd_side = s, bd_price = p, bd_size = 0\<rparr>"

definition delta_clear :: "side \<Rightarrow> book_delta" where
  "delta_clear s = \<lparr>bd_action = Clear, bd_side = s, bd_price = 0, bd_size = 0\<rparr>"

datatype book_status = Fresh | Stale unix_nanos

type_synonym levels = "(raw, qty) btree_map"

record order_book =
  bids :: levels
  asks :: levels
  book_status :: "book_status option"
  last_update :: "unix_nanos option"

definition book_new :: order_book where
  "book_new = \<lparr>bids = [], asks = [], book_status = None, last_update = None\<rparr>"

definition is_fresh :: "order_book \<Rightarrow> bool" where
  "is_fresh b \<longleftrightarrow> book_status b = Some Fresh"

section \<open>Updates\<close>

fun insert_levels :: "(price \<times> qty) list \<Rightarrow> levels \<Rightarrow> levels" where
  "insert_levels [] m = m"
| "insert_levels ((price, sz) # ls) m =
     insert_levels ls (if sz > 0 then bt_insert price sz m else m)"

definition apply_snapshot :: "order_book \<Rightarrow> (price \<times> qty) list \<Rightarrow> (price \<times> qty) list
    \<Rightarrow> unix_nanos \<Rightarrow> order_book res" where
  "apply_snapshot b new_bids new_asks ts =
     Inr (b\<lparr>bids := insert_levels new_bids [], asks := insert_levels new_asks [],
            book_status := Some Fresh, last_update := Some ts\<rparr>)"

definition mark_gap :: "order_book \<Rightarrow> unix_nanos \<Rightarrow> order_book" where
  "mark_gap b ts = b\<lparr>bids := [], asks := [], book_status := Some (Stale ts), last_update := Some ts\<rparr>"

definition delta_side :: "book_delta \<Rightarrow> levels \<Rightarrow> levels" where
  "delta_side delta side =
     (case bd_action delta of
        Set \<Rightarrow> if bd_size delta > 0 then bt_insert (bd_price delta) (bd_size delta) side
               else bt_remove (bd_price delta) side
      | Delete \<Rightarrow> bt_remove (bd_price delta) side
      | Clear \<Rightarrow> [])"

definition apply_delta :: "order_book \<Rightarrow> string \<Rightarrow> book_delta \<Rightarrow> unix_nanos \<Rightarrow> order_book res" where
  "apply_delta b instrument delta ts =
     (case book_status b of
        Some (Stale since) \<Rightarrow> Inl (BookGap instrument ts since)
      | None \<Rightarrow> Inl (BookGap instrument ts ts)
      | Some Fresh \<Rightarrow>
          Inr ((case bd_side delta of
                  Buy \<Rightarrow> b\<lparr>bids := delta_side delta (bids b)\<rparr>
                | Sell \<Rightarrow> b\<lparr>asks := delta_side delta (asks b)\<rparr>)\<lparr>last_update := Some ts\<rparr>))"

definition split_level :: "price \<Rightarrow> levels \<Rightarrow> raw \<times> qty \<Rightarrow> levels res" where
  "split_level ratio out level =
     and_then (split_position ratio (snd level) (fst level)) (\<lambda>(size, price).
       if \<not> size > 0 then Inr out
       else and_then (qty_add (case bt_get out price of None \<Rightarrow> 0 | Some q \<Rightarrow> q) size)
              (\<lambda>total. Inr (bt_insert price total out)))"

definition split_side :: "levels \<Rightarrow> price \<Rightarrow> levels res" where
  "split_side levels ratio = fold_r (split_level ratio) [] levels"

definition book_apply_split :: "order_book \<Rightarrow> price \<Rightarrow> unix_nanos \<Rightarrow> order_book \<times> unit res" where
  "book_apply_split b ratio ts =
     (case split_side (bids b) ratio of
        Inl e \<Rightarrow> (b, Inl e)
      | Inr new_bids \<Rightarrow>
          let b1 = b\<lparr>bids := new_bids\<rparr>
          in case split_side (asks b1) ratio of
               Inl e \<Rightarrow> (b1, Inl e)
             | Inr new_asks \<Rightarrow> (b1\<lparr>asks := new_asks, last_update := Some ts\<rparr>, Inr ()))"

section \<open>Queries\<close>

definition best_bid :: "order_book \<Rightarrow> (price \<times> qty) option" where
  "best_bid b = (if bids b = [] then None else Some (last (bids b)))"

definition best_ask :: "order_book \<Rightarrow> (price \<times> qty) option" where
  "best_ask b = (case asks b of [] \<Rightarrow> None | level # _ \<Rightarrow> Some level)"

definition spread :: "order_book \<Rightarrow> price option" where
  "spread b = (case (best_bid b, best_ask b) of
       (Some (bid, _), Some (ask, _)) \<Rightarrow> Some (wrap64 (ask - bid))
     | _ \<Rightarrow> None)"

definition mid :: "order_book \<Rightarrow> price option" where
  "mid b = (case (best_bid b, best_ask b) of
       (Some (bid, _), Some (ask, _)) \<Rightarrow>
         let s = wrap64 (bid + ask);
             away = (if s \<ge> 0 then wrap64 (s + 1) else wrap64 (s - 1))
         in Some (away sdiv 2)
     | _ \<Rightarrow> None)"

definition levels_of :: "order_book \<Rightarrow> side \<Rightarrow> (price \<times> qty) list" where
  "levels_of b s = (case s of Buy \<Rightarrow> rev (bids b) | Sell \<Rightarrow> asks b)"

definition depth :: "order_book \<Rightarrow> side \<Rightarrow> nat" where
  "depth b s = (case s of Buy \<Rightarrow> length (bids b) | Sell \<Rightarrow> length (asks b))"

definition quantity_at :: "order_book \<Rightarrow> side \<Rightarrow> price \<Rightarrow> qty option" where
  "quantity_at b s p = (case s of Buy \<Rightarrow> bt_get (bids b) p | Sell \<Rightarrow> bt_get (asks b) p)"

record book_walk =
  bw_fills :: "(price \<times> qty) list"
  bw_unfilled :: qty

definition acceptable :: "side \<Rightarrow> price option \<Rightarrow> price \<Rightarrow> bool" where
  "acceptable taker limit price =
     (case limit of
        None \<Rightarrow> True
      | Some cap \<Rightarrow> (case taker of Buy \<Rightarrow> price \<le> cap | Sell \<Rightarrow> price \<ge> cap))"

definition visit :: "side \<Rightarrow> price option \<Rightarrow> raw \<times> qty \<Rightarrow> book_walk \<Rightarrow> bool \<times> book_walk" where
  "visit taker limit level w =
     (if bw_unfilled w \<le> 0 then (False, w)
      else if \<not> acceptable taker limit (fst level) then (False, w)
      else let take = min (bw_unfilled w) (snd level);
               w' = (if take > 0
                     then w\<lparr>bw_fills := bw_fills w @ [(fst level, take)],
                            bw_unfilled := bw_unfilled w - take\<rparr>
                     else w)
           in (bw_unfilled w' > 0, w'))"

fun walk_loop :: "side \<Rightarrow> price option \<Rightarrow> (raw \<times> qty) list \<Rightarrow> book_walk \<Rightarrow> book_walk" where
  "walk_loop taker limit [] w = w"
| "walk_loop taker limit (level # ls) w =
     (case visit taker limit level w of
        (continue, w') \<Rightarrow> if continue then walk_loop taker limit ls w' else w')"

definition walk :: "order_book \<Rightarrow> side \<Rightarrow> qty \<Rightarrow> price option \<Rightarrow> book_walk" where
  "walk b taker qty limit =
     walk_loop taker limit (case taker of Buy \<Rightarrow> asks b | Sell \<Rightarrow> rev (bids b))
       \<lparr>bw_fills = [], bw_unfilled = qty\<rparr>"

definition filled :: "book_walk \<Rightarrow> qty" where
  "filled w = wrap64 (sum_list (map snd (bw_fills w)))"

definition average_price :: "book_walk \<Rightarrow> price option" where
  "average_price w =
     (let total = filled w
      in if total = 0 then None
         else let weighted = sum_list (map (\<lambda>(p, q). p * q) (bw_fills w));
                  rounded = (if weighted \<ge> 0 then (weighted + total sdiv 2) sdiv total
                             else (weighted - total sdiv 2) sdiv total)
              in (case narrow rounded ''BookWalk::average_price'' of Inl _ \<Rightarrow> None | Inr p \<Rightarrow> Some p))"

section \<open>Well-formed books\<close>

definition levels_wf :: "levels \<Rightarrow> bool" where
  "levels_wf m \<longleftrightarrow> bt_wf m \<and> (\<forall>level \<in> set m. 0 < snd level)"

definition book_wf :: "order_book \<Rightarrow> bool" where
  "book_wf b \<longleftrightarrow> levels_wf (bids b) \<and> levels_wf (asks b) \<and> (\<not> is_fresh b \<longrightarrow> bids b = [] \<and> asks b = [])"

lemma levels_wf_Nil [simp]: "levels_wf []"
  by (simp add: levels_wf_def)

lemma levels_wf_insert [intro]: "levels_wf m \<Longrightarrow> 0 < q \<Longrightarrow> levels_wf (bt_insert p q m)"
  by (auto simp: levels_wf_def bt_wf_insert dest: bt_values_insert)

lemma levels_wf_remove [intro]: "levels_wf m \<Longrightarrow> levels_wf (bt_remove p m)"
  by (auto simp: levels_wf_def bt_wf_remove dest: bt_values_remove)

lemma levels_wf_insert_levels: "levels_wf m \<Longrightarrow> levels_wf (insert_levels ls m)"
  by (induction ls m rule: insert_levels.induct) (simp_all add: levels_wf_insert)

lemma levels_wf_delta: "levels_wf m \<Longrightarrow> levels_wf (delta_side d m)"
  by (auto simp: delta_side_def split: book_action.splits)

lemma levels_wf_get_pos: "levels_wf m \<Longrightarrow> bt_get m p = Some q \<Longrightarrow> 0 < q"
  by (force simp: levels_wf_def dest: map_of_SomeD)

lemma split_level_wf:
  assumes "split_level ratio out level = Inr out'" and "levels_wf out"
  shows "levels_wf out'"
  using assms levels_wf_get_pos [OF assms(2)]
  by (fastforce simp: split_level_def result_simps split: if_splits option.splits)

lemma split_side_wf: "split_side m ratio = Inr out \<Longrightarrow> levels_wf out"
  unfolding split_side_def
  by (erule fold_r_invariant) (auto intro: split_level_wf)

section \<open>The gap rule\<close>

text \<open>
  The updates as a sequence of operations. A delta is refused on an untrusted book and only a
  snapshot makes a book trusted.
\<close>

datatype book_op =
    Snapshot "(price \<times> qty) list" "(price \<times> qty) list"
  | Gap
  | Delta book_delta
  | SplitBy price

definition run_op :: "string \<Rightarrow> order_book \<Rightarrow> unix_nanos \<times> book_op \<Rightarrow> order_book" where
  "run_op instrument b event =
     (case event of (ts, op) \<Rightarrow>
        (case op of
           Snapshot bs as \<Rightarrow> (case apply_snapshot b bs as ts of Inl _ \<Rightarrow> b | Inr b' \<Rightarrow> b')
         | Gap \<Rightarrow> mark_gap b ts
         | Delta d \<Rightarrow> (case apply_delta b instrument d ts of Inl _ \<Rightarrow> b | Inr b' \<Rightarrow> b')
         | SplitBy r \<Rightarrow> (case book_apply_split b r ts of (b', _) \<Rightarrow> b')))"

definition run_ops :: "string \<Rightarrow> (unix_nanos \<times> book_op) list \<Rightarrow> order_book" where
  "run_ops instrument ops = foldl (run_op instrument) book_new ops"

lemma not_fresh_new [simp]: "\<not> is_fresh book_new"
  by (simp add: is_fresh_def book_new_def)

lemma book_wf_new: "book_wf book_new"
  by (simp add: book_wf_def book_new_def)

lemma book_wf_snapshot: "apply_snapshot b bs as ts = Inr b' \<Longrightarrow> book_wf b'"
  by (auto simp: apply_snapshot_def book_wf_def is_fresh_def levels_wf_insert_levels)

lemma book_wf_gap: "book_wf (mark_gap b ts)"
  by (simp add: mark_gap_def book_wf_def)

lemma book_wf_delta: "book_wf b \<Longrightarrow> apply_delta b i d ts = Inr b' \<Longrightarrow> book_wf b'"
  by (auto simp: apply_delta_def book_wf_def is_fresh_def levels_wf_delta
      split: option.splits book_status.splits side.splits)

lemma split_side_Nil [simp]: "split_side [] ratio = Inr []"
  by (simp add: split_side_def)

lemma book_wf_split: "book_wf b \<Longrightarrow> book_wf (fst (book_apply_split b ratio ts))"
  by (auto simp: book_apply_split_def book_wf_def is_fresh_def Let_def
      dest: split_side_wf split: sum.splits)

lemma book_wf_run_op: "book_wf b \<Longrightarrow> book_wf (run_op i b event)"
  using book_wf_split [of b]
  by (auto simp: run_op_def book_wf_gap intro: book_wf_snapshot book_wf_delta
      split: prod.splits book_op.splits sum.splits)
     (metis fst_conv)

lemma book_wf_run_ops: "book_wf (run_ops i ops)"
  unfolding run_ops_def
  by (induction ops rule: rev_induct) (auto simp: book_wf_new book_wf_run_op)

text \<open>Whether the operations so far leave a trusted book: the last snapshot or gap decides.\<close>

fun trusted_after :: "bool \<Rightarrow> book_op \<Rightarrow> bool" where
  "trusted_after t (Snapshot _ _) = True"
| "trusted_after t Gap = False"
| "trusted_after t (Delta _) = t"
| "trusted_after t (SplitBy _) = t"

lemma fresh_run_op: "is_fresh (run_op i b (ts, op)) = trusted_after (is_fresh b) op"
  by (cases op)
     (auto simp: run_op_def apply_snapshot_def mark_gap_def apply_delta_def book_apply_split_def
        is_fresh_def Let_def split: option.splits book_status.splits side.splits sum.splits)

text \<open>
  C21: the gap rule. Whatever updates arrive, the book stays well formed (price-ordered sides,
  positive sizes), it is trusted exactly when a snapshot arrived after every declared gap, an
  untrusted book has no levels, an incremental update succeeds exactly on a trusted one, and refusing
  it names the gap.
\<close>

theorem gap_rule:
  "book_wf (run_ops i ops)
   \<and> is_fresh (run_ops i ops) = foldl trusted_after False (map snd ops)
   \<and> (\<not> is_fresh (run_ops i ops) \<longrightarrow> levels_of (run_ops i ops) s = [])
   \<and> (is_ok (apply_delta (run_ops i ops) i d ts) \<longleftrightarrow> is_fresh (run_ops i ops))
   \<and> (apply_delta (mark_gap (run_ops i ops) gap) i d ts = Inl (BookGap i ts gap))"
proof -
  have fresh: "is_fresh (run_ops i ops) = foldl trusted_after False (map snd ops)"
    unfolding run_ops_def
    by (induction ops rule: rev_induct)
       (auto simp: fresh_run_op not_fresh_new)
  moreover have "levels_of (run_ops i ops) s = []" if "\<not> is_fresh (run_ops i ops)"
    using book_wf_run_ops [of i ops] that by (auto simp: book_wf_def levels_of_def split: side.splits)
  moreover have "is_ok (apply_delta b i d ts) \<longleftrightarrow> is_fresh b" for b
    by (auto simp: apply_delta_def is_fresh_def split: option.splits book_status.splits)
  moreover have "apply_delta (mark_gap b gap) i d ts = Inl (BookGap i ts gap)" for b
    by (simp add: apply_delta_def mark_gap_def)
  ultimately show ?thesis
    using book_wf_run_ops by blast
qed

text \<open>The premise inside the statement of the gap rule is met by a book that saw a gap.\<close>

lemma gap_rule_witness:
  "levels_of (run_ops ''X'' [(1, Snapshot [(5, 1)] [(7, 2)]), (2, Gap)]) Buy = []
   \<and> is_fresh (run_ops ''X'' [(1, Snapshot [(5, 1)] [(7, 2)]), (2, Gap), (3, Snapshot [(4, 1)] [])])"
  using gap_rule [of "''X''" "[(1, Snapshot [(5, 1)] [(7, 2)]), (2, Gap)]" Buy]
    gap_rule [of "''X''" "[(1, Snapshot [(5, 1)] [(7, 2)]), (2, Gap), (3, Snapshot [(4, 1)] [])]"]
  by simp

section \<open>The content of a trusted book\<close>

text \<open>
  The specification of the levels: a book is either untrusted or two maps from price to displayed
  size, which a snapshot replaces and a delta updates in one point.
\<close>

type_synonym side_view = "raw \<Rightarrow> qty option"

definition snapshot_view :: "(price \<times> qty) list \<Rightarrow> side_view" where
  "snapshot_view ls = map_of (rev (filter (\<lambda>l. 0 < snd l) ls))"

definition delta_view :: "book_delta \<Rightarrow> side_view \<Rightarrow> side_view" where
  "delta_view d v =
     (if bd_action d = Clear then (\<lambda>_. None)
      else v(bd_price d := if bd_action d = Set \<and> 0 < bd_size d then Some (bd_size d) else None))"

fun spec_op :: "(side_view \<times> side_view) option \<Rightarrow> book_op \<Rightarrow> (side_view \<times> side_view) option" where
  "spec_op v (Snapshot bs as) = Some (snapshot_view bs, snapshot_view as)"
| "spec_op v Gap = None"
| "spec_op v (Delta d) = map_option (\<lambda>(vb, va).
     case bd_side d of Buy \<Rightarrow> (delta_view d vb, va) | Sell \<Rightarrow> (vb, delta_view d va)) v"
| "spec_op v (SplitBy r) = v"

definition book_view :: "order_book \<Rightarrow> (side_view \<times> side_view) option" where
  "book_view b = (if is_fresh b then Some (bt_get (bids b), bt_get (asks b)) else None)"

lemma insert_levels_get:
  "bt_wf m \<Longrightarrow> bt_get (insert_levels ls m) = bt_get m ++ snapshot_view ls"
proof (induction ls m rule: insert_levels.induct)
  case (1 m)
  then show ?case by (simp add: snapshot_view_def)
next
  case (2 price sz ls m)
  then show ?case
    by (auto simp: snapshot_view_def bt_wf_insert bt_get_insert map_add_def fun_eq_iff
        split: option.splits)
qed

lemma delta_side_get: "bt_wf m \<Longrightarrow> bt_get (delta_side d m) = delta_view d (bt_get m)"
  by (auto simp: delta_side_def delta_view_def bt_get_insert bt_get_remove fun_eq_iff
      split: book_action.splits)

lemma book_view_run_op:
  assumes "book_wf b" and "\<And>r. op \<noteq> SplitBy r"
  shows "book_view (run_op i b (ts, op)) = spec_op (book_view b) op"
proof (cases op)
  case (Delta d)
  with assms(1) show ?thesis
    by (auto simp: run_op_def book_view_def is_fresh_def apply_delta_def delta_side_get book_wf_def
        levels_wf_def split: option.splits book_status.splits side.splits)
qed (use assms in \<open>auto simp: run_op_def book_view_def is_fresh_def apply_snapshot_def mark_gap_def
      insert_levels_get\<close>)

text \<open>
  C13: the levels of a book are those its feed defines. After any sequence of snapshots, deltas and
  gaps, each accepted or refused, the book is trusted with exactly the displayed sizes of the last
  snapshot changed by the later deltas, or untrusted; in particular nothing before the last snapshot
  and nothing across a gap contributes.
\<close>

theorem book_refines_feed:
  assumes "\<forall>r. SplitBy r \<notin> snd ` set ops"
  shows "book_view (run_ops i ops) = foldl spec_op None (map snd ops)"
  using assms
proof (induction ops rule: rev_induct)
  case Nil
  then show ?case by (simp add: run_ops_def book_view_def is_fresh_def book_new_def)
next
  case (snoc op ops)
  then show ?case
    using book_view_run_op [OF book_wf_run_ops [of i ops], of "snd op" i "fst op"]
    by (cases op) (auto simp: run_ops_def)
qed

lemma book_refines_feed_witness:
  "quantity_at (run_ops ''X'' [(1, Snapshot [(5, 1), (4, 0)] [(7, 2)]), (2, Delta (delta_set Buy 6 3)),
      (3, Delta (delta_set Sell 7 0))]) Buy 6 = Some 3"
proof -
  let ?ops = "[(1::unix_nanos, Snapshot [(5, 1), (4, 0)] [(7, 2)]), (2, Delta (delta_set Buy 6 3)),
      (3, Delta (delta_set Sell 7 0))]"
  have "book_view (run_ops ''X'' ?ops) = foldl spec_op None (map snd ?ops)"
    by (rule book_refines_feed) auto
  then show ?thesis
    by (auto simp: book_view_def quantity_at_def delta_set_def delta_view_def split: if_splits)
qed

text \<open>
  Requoting: the size at a post-split price is the sum of the post-split sizes of the levels that
  round onto it.
\<close>

definition split_size :: "price \<Rightarrow> (raw \<times> qty) \<Rightarrow> qty" where
  "split_size r level = (snd level * r) sdiv SCALE"

definition split_price :: "price \<Rightarrow> (raw \<times> qty) \<Rightarrow> price" where
  "split_price r level = (fst level * SCALE) sdiv r"

definition split_total :: "price \<Rightarrow> (raw \<times> qty) list \<Rightarrow> price \<Rightarrow> qty" where
  "split_total r ls p = sum_list (map (split_size r) (filter (\<lambda>l. split_price r l = p) ls))"

definition size_at :: "levels \<Rightarrow> price \<Rightarrow> qty" where
  "size_at m p = (case bt_get m p of None \<Rightarrow> 0 | Some q \<Rightarrow> q)"

lemma split_level_size:
  assumes "split_level r out level = Inr out'" and "levels_wf out" and "0 \<le> snd level"
  shows "size_at out' p = size_at out p + (if split_price r level = p then split_size r level else 0)"
proof -
  have r: "0 < r" using assms(1) by (auto simp: split_level_def result_simps)
  have "0 \<le> split_size r level"
    using r assms(3) by (simp add: split_size_def sdiv_sign)
  then show ?thesis
    using assms
    by (auto simp: split_level_def result_simps size_at_def split_size_def split_price_def
        bt_get_insert levels_wf_def split: if_splits option.splits)
qed

text \<open>
  Requoting a side at a split conserves what is displayed: at every post-split price the size is
  the sum of the converted sizes of the old levels that round onto it, and the result is again a
  price-ordered side of positive sizes.
\<close>

theorem split_side_content:
  assumes "split_side m r = Inr out" and "levels_wf m"
  shows "size_at out p = split_total r m p \<and> levels_wf out"
proof -
  have "size_at out' p = size_at out0 p + split_total r ls p"
    if "fold_r (split_level r) out0 ls = Inr out'" "levels_wf out0" "\<forall>l \<in> set ls. 0 < snd l"
    for out0 out' ls
    using that
  proof (induction ls arbitrary: out0)
    case Nil
    then show ?case by (simp add: split_total_def)
  next
    case (Cons l ls)
    then obtain mid where "split_level r out0 l = Inr mid" "fold_r (split_level r) mid ls = Inr out'"
      by (auto simp: result_simps)
    with Cons show ?case
      using split_level_size [of r out0 l mid p] split_level_wf [of r out0 l mid]
      by (simp add: split_total_def)
  qed
  from this [of "[]" m out] assms show ?thesis
    using split_side_wf [OF assms(1)] by (auto simp: split_side_def size_at_def [of "[]"] levels_wf_def)
qed

lemma split_side_content_witness:
  "split_side [(10, 3), (11, 4)] 2000000000 = Inr [(5, 14)] \<and> size_at [(5, 14)] 5 = 14"
proof -
  have run: "split_side [(10, 3), (11, 4)] 2000000000 = Inr [(5, 14)]"
    by (simp add: split_side_def split_level_def split_position_def narrow_def checked64_def
        checked_add_def SCALE_def int_range signed_divide_int_def Let_def)
  with split_side_content [OF run, of 5] show ?thesis
    by (simp add: levels_wf_def split_total_def split_size_def split_price_def SCALE_def
        signed_divide_int_def)
qed

section \<open>Walking the book\<close>

text \<open>
  What a taker of \<open>qty\<close> gets from levels it finds acceptable, best first: each level in full until
  the quantity runs out.
\<close>

fun consume :: "qty \<Rightarrow> (price \<times> qty) list \<Rightarrow> (price \<times> qty) list" where
  "consume rem [] = []"
| "consume rem ((p, s) # ls) =
     (if rem \<le> 0 then [] else (p, min rem s) # consume (rem - min rem s) ls)"

abbreviation total_size :: "(price \<times> qty) list \<Rightarrow> qty" where
  "total_size ls \<equiv> sum_list (map snd ls)"

lemma total_size_nonneg: "\<forall>l \<in> set ls. 0 < snd l \<Longrightarrow> 0 \<le> total_size ls"
  by (induction ls) auto

lemma consume_nonpos [simp]: "rem \<le> 0 \<Longrightarrow> consume rem ls = []"
  by (cases ls) auto

lemma walk_loop_consume:
  assumes "\<forall>l \<in> set ls. 0 < snd l"
  shows "walk_loop taker limit ls \<lparr>bw_fills = fs, bw_unfilled = rem\<rparr>
    = \<lparr>bw_fills = fs @ consume rem (takeWhile (\<lambda>l. acceptable taker limit (fst l)) ls),
       bw_unfilled = rem - total_size (consume rem (takeWhile (\<lambda>l. acceptable taker limit (fst l)) ls))\<rparr>"
  using assms
proof (induction ls arbitrary: fs rem)
  case (Cons l ls)
  then show ?case
    by (cases l; cases "rem \<le> snd l") (auto simp: visit_def Let_def min_def)
qed simp

lemma total_size_consume:
  "\<forall>l \<in> set ls. 0 < snd l \<Longrightarrow> 0 \<le> rem \<Longrightarrow> total_size (consume rem ls) = min rem (total_size ls)"
proof (induction rem ls rule: consume.induct)
  case (2 rem p s ls)
  then show ?case using total_size_nonneg [of ls] by (auto simp: min_def)
qed simp

lemma consume_prefix:
  assumes "\<forall>l \<in> set ls. 0 < snd l" and "i < length (consume rem ls)"
  shows "i < length ls \<and> fst (consume rem ls ! i) = fst (ls ! i)
    \<and> 0 < snd (consume rem ls ! i) \<and> snd (consume rem ls ! i) \<le> snd (ls ! i)
    \<and> (Suc i < length (consume rem ls) \<longrightarrow> consume rem ls ! i = ls ! i)"
  using assms
proof (induction rem ls arbitrary: i rule: consume.induct)
  case (2 rem p s ls)
  then show ?case
  proof (cases i)
    case 0
    with 2 show ?thesis by (auto simp: min_def split: if_splits)
  next
    case (Suc j)
    with 2 show ?thesis by (auto split: if_splits)
  qed
qed simp

text \<open>The side a taker walks, best price first, and the order of its prices.\<close>

definition taker_levels :: "order_book \<Rightarrow> side \<Rightarrow> (price \<times> qty) list" where
  "taker_levels b taker = levels_of b (opposite taker)"

definition better :: "side \<Rightarrow> price \<Rightarrow> price \<Rightarrow> bool" where
  "better taker p p' = (case taker of Buy \<Rightarrow> p < p' | Sell \<Rightarrow> p > p')"

lemma walk_eq:
  assumes "book_wf b"
  shows "walk b taker qty limit =
    (let acc = takeWhile (\<lambda>l. acceptable taker limit (fst l)) (taker_levels b taker)
     in \<lparr>bw_fills = consume qty acc, bw_unfilled = qty - total_size (consume qty acc)\<rparr>)"
proof -
  have "\<forall>l \<in> set (taker_levels b taker). 0 < snd l"
    using assms by (cases taker) (auto simp: taker_levels_def levels_of_def book_wf_def levels_wf_def)
  moreover have "walk b taker qty limit
      = walk_loop taker limit (taker_levels b taker) \<lparr>bw_fills = [], bw_unfilled = qty\<rparr>"
    by (cases taker) (auto simp: walk_def taker_levels_def levels_of_def)
  ultimately show ?thesis by (simp add: walk_loop_consume Let_def)
qed

lemma taker_levels_pos: "book_wf b \<Longrightarrow> l \<in> set (taker_levels b taker) \<Longrightarrow> 0 < snd l"
  by (cases taker) (auto simp: taker_levels_def levels_of_def book_wf_def levels_wf_def)

lemma taker_levels_sorted: "book_wf b \<Longrightarrow> sorted_wrt (\<lambda>l l'. better taker (fst l) (fst l')) (taker_levels b taker)"
  by (cases taker) (auto simp: taker_levels_def levels_of_def better_def book_wf_def
      levels_wf_def bt_wf_def sorted_wrt_map sorted_wrt_rev)

lemma takeWhile_filter_sorted:
  assumes "sorted_wrt R xs" and "\<And>x y. R x y \<Longrightarrow> P y \<Longrightarrow> P x"
  shows "takeWhile P xs = filter P xs"
  using assms(1)
proof (induction xs)
  case (Cons x xs)
  show ?case
  proof (cases "P x")
    case False
    then have "\<forall>y \<in> set xs. \<not> P y" using Cons.prems assms(2) by auto
    with False show ?thesis by (simp add: filter_False)
  qed (use Cons in auto)
qed simp

lemma acceptable_better: "better taker p p' \<Longrightarrow> acceptable taker limit p' \<Longrightarrow> acceptable taker limit p"
  by (auto simp: better_def acceptable_def split: side.splits option.splits)

lemma acceptable_levels:
  "book_wf b \<Longrightarrow> takeWhile (\<lambda>l. acceptable taker limit (fst l)) (taker_levels b taker)
     = filter (\<lambda>l. acceptable taker limit (fst l)) (taker_levels b taker)"
  by (rule takeWhile_filter_sorted [OF taker_levels_sorted]) (auto intro: acceptable_better)

lemma consume_subset:
  assumes "\<forall>l \<in> set ls. 0 < snd l" and "(p, q) \<in> set (consume rem ls)"
  shows "0 < q \<and> (\<exists>s. (p, s) \<in> set ls \<and> q \<le> s)"
proof -
  from assms(2) obtain i where i: "i < length (consume rem ls)" "consume rem ls ! i = (p, q)"
    by (auto simp: in_set_conv_nth)
  from consume_prefix [OF assms(1) i(1)] i(2) show ?thesis
    by (metis fst_conv nth_mem prod.collapse snd_conv)
qed

lemma consume_priority:
  assumes "\<forall>l \<in> set ls. 0 < snd l" and "sorted_wrt (\<lambda>l l'. better taker (fst l) (fst l')) ls"
    and "(p, q) \<in> set (consume rem ls)" and "(p', s') \<in> set ls" and "better taker p' p"
  shows "(p', s') \<in> set (consume rem ls)"
proof -
  from assms(3) obtain i where i: "i < length (consume rem ls)" "consume rem ls ! i = (p, q)"
    by (auto simp: in_set_conv_nth)
  from assms(4) obtain j where j: "j < length ls" "ls ! j = (p', s')"
    by (auto simp: in_set_conv_nth)
  note at_i = consume_prefix [OF assms(1) i(1)]
  have "j < i"
  proof (rule ccontr)
    assume "\<not> j < i"
    then consider "j = i" | "i < j" by linarith
    then show False
    proof cases
      case 1
      with at_i i j assms(5) show ?thesis by (auto simp: better_def split: side.splits)
    next
      case 2
      then have "better taker p p'"
        using sorted_wrt_nth_less [OF assms(2) 2 j(1)] at_i i j by simp
      with assms(5) show ?thesis by (auto simp: better_def split: side.splits)
    qed
  qed
  then have "consume rem ls ! j = ls ! j" and "j < length (consume rem ls)"
    using consume_prefix [OF assms(1), of j rem] i(1) by auto
  then show ?thesis using j by (metis nth_mem)
qed

text \<open>What a limit means: a buyer pays at most the cap, a seller receives at least it.\<close>

definition within_limit :: "side \<Rightarrow> price option \<Rightarrow> price \<Rightarrow> bool" where
  "within_limit taker limit p \<longleftrightarrow> (\<forall>cap. limit = Some cap \<longrightarrow> (taker = Buy \<longrightarrow> p \<le> cap) \<and> (taker = Sell \<longrightarrow> cap \<le> p))"

lemma acceptable_iff: "acceptable taker limit p = within_limit taker limit p"
  by (auto simp: acceptable_def within_limit_def split: option.splits side.splits)

text \<open>
  C12: walking the book fills as much as is possible and at the best prices. On a well-formed book,
  what is filled and what is not add up to the order, the unfilled part is what the levels within the
  limit could not cover, every fill respects the limit and the displayed size of its level, and a level is
  touched only when every better-priced one was taken in full.
\<close>

theorem walk_best_execution:
  assumes "book_wf b" and "0 \<le> qty" and "in_i64 qty" and w_def: "w = walk b taker qty limit"
    and acc_def: "acc = filter (\<lambda>l. within_limit taker limit (fst l)) (taker_levels b taker)"
  shows "filled w + bw_unfilled w = qty \<and> bw_unfilled w = max 0 (qty - total_size acc)
    \<and> (\<forall>(p, q) \<in> set (bw_fills w). 0 < q \<and> within_limit taker limit p
         \<and> (\<exists>s. (p, s) \<in> set (taker_levels b taker) \<and> q \<le> s))
    \<and> (\<forall>(p, q) \<in> set (bw_fills w). \<forall>(p', s') \<in> set (taker_levels b taker).
         better taker p' p \<longrightarrow> (p', s') \<in> set (bw_fills w))"
proof -
  have pos: "\<forall>l \<in> set acc. 0 < snd l"
    using taker_levels_pos [OF assms(1)] by (auto simp: acc_def)
  have srt: "sorted_wrt (\<lambda>l l'. better taker (fst l) (fst l')) acc"
    unfolding acc_def by (intro sorted_wrt_filter taker_levels_sorted assms(1))
  have w: "w = \<lparr>bw_fills = consume qty acc, bw_unfilled = qty - total_size (consume qty acc)\<rparr>"
    by (simp add: w_def walk_eq [OF assms(1)] acceptable_levels [OF assms(1)] acc_def acceptable_iff [symmetric] Let_def)
  have tot: "total_size (consume qty acc) = min qty (total_size acc)"
    by (rule total_size_consume [OF pos assms(2)])
  have "in_i64 (total_size (consume qty acc))"
    unfolding tot using assms(2,3) total_size_nonneg [OF pos] by (auto simp: int_range min_def)
  then have "filled w + bw_unfilled w = qty"
    by (simp add: filled_def w)
  moreover have "bw_unfilled w = max 0 (qty - total_size acc)"
    by (simp add: w tot min_def max_def)
  moreover have "0 < q \<and> within_limit taker limit p \<and> (\<exists>s. (p, s) \<in> set (taker_levels b taker) \<and> q \<le> s)"
    if "(p, q) \<in> set (bw_fills w)" for p q
    using consume_subset [OF pos, of p q qty] that by (auto simp: w acc_def)
  moreover have "(p', s') \<in> set (bw_fills w)"
    if fill: "(p, q) \<in> set (bw_fills w)" and lvl: "(p', s') \<in> set (taker_levels b taker)" and bet: "better taker p' p"
    for p q p' s'
  proof -
    have "within_limit taker limit p" using consume_subset [OF pos, of p q qty] fill by (auto simp: w acc_def)
    with lvl bet have "(p', s') \<in> set acc" using acceptable_better by (auto simp: acc_def acceptable_iff)
    from consume_priority [OF pos srt _ this bet] fill show ?thesis by (simp add: w)
  qed
  ultimately show ?thesis by fast
qed

lemma walk_best_execution_witness:
  "bw_unfilled (walk (run_ops ''X'' [(1, Snapshot [(4, 9)] [(7, 2), (6, 1), (9, 5)])]) Buy 4 (Some 8)) = 1
   \<and> bw_fills (walk (run_ops ''X'' [(1, Snapshot [(4, 9)] [(7, 2), (6, 1), (9, 5)])]) Buy 4 (Some 8))
     = [(6, 1), (7, 2)]"
proof -
  let ?b = "run_ops ''X'' [(1, Snapshot [(4, 9)] [(7, 2), (6, 1), (9, 5)])]"
  have asks: "asks ?b = [(6, 1), (7, 2), (9, 5)]"
    by (simp add: run_ops_def run_op_def apply_snapshot_def book_new_def)
  have "bw_unfilled (walk ?b Buy 4 (Some 8))
      = max 0 (4 - total_size (filter (\<lambda>l. within_limit Buy (Some 8) (fst l)) (taker_levels ?b Buy)))"
    by (rule walk_best_execution [OF book_wf_run_ops _ _ refl refl, THEN conjunct2, THEN conjunct1])
       (simp_all add: int_range)
  then show ?thesis
    by (simp add: taker_levels_def levels_of_def asks within_limit_def acceptable_def walk_def visit_def Let_def)
qed

lemma weighted_bounds:
  assumes "\<forall>(p, q) \<in> set fs. lo \<le> p \<and> p \<le> hi \<and> 0 < (q::int)"
  shows "lo * total_size fs \<le> sum_list (map (\<lambda>(p, q). p * q) fs)"
    and "sum_list (map (\<lambda>(p, q). p * q) fs) \<le> hi * total_size fs"
  using assms
  by (induction fs) (auto simp: distrib_left intro!: add_mono mult_right_mono)

text \<open>
  The average price of a walk that filled anything is always reported, is the nearest raw unit to
  the size-weighted mean (ties away from zero), and lies between any bounds on the fill prices, so in
  particular within the limit.
\<close>

theorem average_price_within_fills:
  assumes "\<forall>(p, q) \<in> set (bw_fills w). lo \<le> p \<and> p \<le> hi \<and> 0 < q" and "bw_fills w \<noteq> []"
    and "in_i64 lo" and "in_i64 hi" and "in_i64 (total_size (bw_fills w))"
  shows "\<exists>a. average_price w = Some a \<and> lo \<le> a \<and> a \<le> hi
    \<and> 2 * \<bar>a * filled w - sum_list (map (\<lambda>(p, q). p * q) (bw_fills w))\<bar> \<le> filled w"
proof -
  let ?T = "total_size (bw_fills w)" and ?W = "sum_list (map (\<lambda>(p, q). p * q) (bw_fills w))"
  have pos: "\<forall>l \<in> set (bw_fills w). 0 < snd l" using assms(1) by auto
  have T: "0 < ?T"
    using assms(2) pos total_size_nonneg [of "tl (bw_fills w)"] by (cases "bw_fills w") auto
  define a where "a = round_div ?W ?T"
  have lo: "lo \<le> a"
    using round_div_mono [OF T weighted_bounds(1) [OF assms(1)]] by (simp add: a_def round_div_multiple T)
  have hi: "a \<le> hi"
    using round_div_mono [OF T weighted_bounds(2) [OF assms(1)]] by (simp add: a_def round_div_multiple T)
  have a: "average_price w = Some a"
    using T in_i64_between [OF assms(3,4) lo hi] assms(5)
    by (simp add: average_price_def filled_def Let_def a_def round_div_def)
  then show ?thesis
    using lo hi round_div_nearest [OF T, of ?W] assms(5) by (simp add: filled_def a_def)
qed

lemma average_price_within_fills_witness:
  "average_price \<lparr>bw_fills = [(10, 1), (11, 1)], bw_unfilled = 0\<rparr> = Some 11 \<and> (10::int) \<le> 11"
proof -
  have "\<exists>a. average_price \<lparr>bw_fills = [(10, 1), (11, 1)], bw_unfilled = 0\<rparr> = Some a \<and> 10 \<le> a \<and> a \<le> 11
      \<and> 2 * \<bar>a * filled \<lparr>bw_fills = [(10, 1), (11, 1)], bw_unfilled = 0\<rparr> - 21\<bar>
        \<le> filled \<lparr>bw_fills = [(10, 1), (11, 1)], bw_unfilled = 0\<rparr>"
    using average_price_within_fills [of "\<lparr>bw_fills = [(10, 1), (11, 1)], bw_unfilled = 0\<rparr>" 10 11]
    by (simp add: int_range)
  then show ?thesis
    by (simp add: average_price_def filled_def narrow_def checked64_def int_range Let_def wrap64_def
        signed_divide_int_def)
qed

end
