(* ===== verification/Venue_Models.thy ===== *)
theory Venue_Models
  imports Book Orders
begin

text \<open>
  The latency and fill models (\<open>h5i-db-backtest/src/models.rs\<close>, second half). Each trait is a record
  of its methods, with the default methods filled in where an implementation leaves them out. The
  \<open>VenueModule\<close> trait has no implementation and no caller, so it is not modelled.
\<close>

section \<open>Latency\<close>

record latency_model =
  insert_nanos :: int
  cancel_nanos :: int

definition no_latency :: latency_model where
  "no_latency = \<lparr>insert_nanos = 0, cancel_nanos = 0\<rparr>"

definition constant_latency_millis :: "int \<Rightarrow> int \<Rightarrow> latency_model" where
  "constant_latency_millis ins can =
     \<lparr>insert_nanos = wrap64 (ins * 1000000), cancel_nanos = wrap64 (can * 1000000)\<rparr>"

section \<open>Fills\<close>

record fill_model =
  book_for_fill :: "order_book \<Rightarrow> order \<Rightarrow> order_book option"
  preserves_book_prices :: bool
  passive_fills_on_trade_at_price :: bool
  uses_queue_position :: bool
  fills_on_unknown_aggressor :: bool

definition default_fill_model :: fill_model where
  "default_fill_model = \<lparr>book_for_fill = (\<lambda>_ _. None), preserves_book_prices = False,
     passive_fills_on_trade_at_price = False, uses_queue_position = False,
     fills_on_unknown_aggressor = False\<rparr>"

definition book_fills :: fill_model where
  "book_fills = default_fill_model\<lparr>preserves_book_prices := True\<rparr>"

definition queue_position_fills :: "bool \<Rightarrow> fill_model" where
  "queue_position_fills fill_on_unknown = default_fill_model\<lparr>preserves_book_prices := True,
     uses_queue_position := True, fills_on_unknown_aggressor := fill_on_unknown\<rparr>"

record tick_slippage =
  ts_ticks :: int
  ts_tick_size :: price

definition shift_levels :: "raw \<Rightarrow> (price \<times> qty) list \<Rightarrow> (price \<times> qty) list" where
  "shift_levels d ls = map (\<lambda>(p, q). (wrap64 (p + d), q)) ls"

definition slippage_book :: "tick_slippage \<Rightarrow> order_book \<Rightarrow> order \<Rightarrow> order_book option" where
  "slippage_book sl book ord =
     (if ts_ticks sl = 0 then None
      else let shift = wrap64 (ts_ticks sl * ts_tick_size sl);
               (bid_shift, ask_shift) = (case o_side ord of Buy \<Rightarrow> (0, shift) | Sell \<Rightarrow> (wrap64 (- shift), 0));
               new_bids = shift_levels bid_shift (levels_of book Buy);
               new_asks = shift_levels ask_shift (levels_of book Sell)
           in case apply_snapshot book_new new_bids new_asks
                     (case last_update book of None \<Rightarrow> 0 | Some ts \<Rightarrow> ts) of
                Inl _ \<Rightarrow> None
              | Inr synthetic \<Rightarrow> Some synthetic)"

definition tick_slippage_model :: "tick_slippage \<Rightarrow> fill_model" where
  "tick_slippage_model sl = default_fill_model\<lparr>book_for_fill := slippage_book sl\<rparr>"

section \<open>Slippage is a translation of the book\<close>

text \<open>Rebuilding a side from its own levels, in either order, gives the side back.\<close>

lemma snapshot_view_wf:
  assumes "levels_wf m"
  shows "snapshot_view m = bt_get m" and "snapshot_view (rev m) = bt_get m"
proof -
  have "filter (\<lambda>l. 0 < snd l) m = m" using assms by (auto simp: levels_wf_def filter_id_conv)
  moreover have "map_of (rev m) = map_of m"
    using assms by (intro map_of_inject_set [THEN iffD2]) (auto simp: levels_wf_def rev_map [symmetric] dest: bt_wf_distinct)
  ultimately show "snapshot_view m = bt_get m" "snapshot_view (rev m) = bt_get m"
    by (simp_all add: snapshot_view_def flip: rev_filter)
qed

lemma insert_levels_rebuild:
  assumes "levels_wf m"
  shows "insert_levels m [] = m" and "insert_levels (rev m) [] = m"
  using assms snapshot_view_wf [OF assms] levels_wf_insert_levels [of "[]"]
  by (auto intro!: bt_eqI simp: levels_wf_def insert_levels_get)

lemma shift_levels_wf:
  assumes "levels_wf m" and "\<forall>l \<in> set m. in_i64 (fst l + d)"
  shows "levels_wf (shift_levels d m)"
proof -
  have "shift_levels d m = map (\<lambda>(p, q). (p + d, q)) m"
    using assms(2) by (auto simp: shift_levels_def)
  then show ?thesis
    using assms(1) by (auto simp: levels_wf_def bt_wf_def sorted_wrt_map case_prod_unfold)
qed

lemma rev_shift_levels: "shift_levels d (rev m) = rev (shift_levels d m)"
  by (simp add: shift_levels_def rev_map)

lemma shift_levels_0: "\<forall>l \<in> set m. in_i64 (fst l) \<Longrightarrow> shift_levels 0 m = m"
  unfolding shift_levels_def by (rule map_idI) auto

definition slip :: "side \<Rightarrow> raw \<Rightarrow> raw" where
  "slip s d = d * signum s"

text \<open>Every price of the taken side moved by the slip and every other price stays in range.\<close>

definition slip_fits :: "order_book \<Rightarrow> side \<Rightarrow> raw \<Rightarrow> bool" where
  "slip_fits b s d \<longleftrightarrow> in_i64 d \<and> in_i64 (- d)
     \<and> (\<forall>l \<in> set (bids b) \<union> set (asks b). in_i64 (fst l) \<and> in_i64 (fst l + slip s d))"

lemma slippage_book_levels:
  assumes "book_wf b" and "ts_ticks sl \<noteq> 0" and "d = ts_ticks sl * ts_tick_size sl"
    and "slip_fits b (o_side ord) d"
  shows "\<exists>b'. slippage_book sl b ord = Some b' \<and> book_wf b'
    \<and> taker_levels b' (o_side ord) = map (\<lambda>(p, q). (p + slip (o_side ord) d, q)) (taker_levels b (o_side ord))"
proof -
  have wf: "levels_wf (bids b)" "levels_wf (asks b)" using assms(1) by (auto simp: book_wf_def)
  have rng: "\<forall>l \<in> set (bids b). in_i64 (fst l)" "\<forall>l \<in> set (asks b). in_i64 (fst l)"
    "\<forall>l \<in> set (bids b). in_i64 (fst l + slip (o_side ord) d)" "\<forall>l \<in> set (asks b). in_i64 (fst l + slip (o_side ord) d)"
    and d: "wrap64 d = d" "wrap64 (- d) = - d"
    using assms(4) by (auto simp: slip_fits_def)
  have map_eq: "shift_levels x m = map (\<lambda>(p, q). (p + x, q)) m" if "\<forall>l \<in> set m. in_i64 (fst l + x)" for x m
    using that by (auto simp: shift_levels_def)
  show ?thesis
  proof (cases "o_side ord")
    case Buy
    have "levels_wf (shift_levels d (asks b))" using rng wf by (intro shift_levels_wf) (auto simp: Buy slip_def)
    then show ?thesis
      using assms(2) rng wf d insert_levels_rebuild map_eq [of "asks b" d]
      by (auto simp: slippage_book_def Buy Let_def levels_of_def apply_snapshot_def rev_shift_levels shift_levels_0
          book_wf_def is_fresh_def taker_levels_def slip_def simp flip: assms(3))
  next
    case Sell
    have "levels_wf (shift_levels (- d) (bids b))" using rng wf by (intro shift_levels_wf) (auto simp: Sell slip_def)
    moreover from this have "insert_levels (shift_levels (- d) (rev (bids b))) [] = shift_levels (- d) (bids b)"
      by (simp add: rev_shift_levels insert_levels_rebuild)
    moreover have "rev (shift_levels (- d) (bids b)) = map (\<lambda>(p, q). (p - d, q)) (rev (bids b))"
      using map_eq [of "rev (bids b)" "- d"] rng(3) by (simp add: Sell slip_def rev_shift_levels)
    ultimately show ?thesis
      using assms(2) rng wf d insert_levels_rebuild
      by (auto simp: slippage_book_def Sell Let_def levels_of_def apply_snapshot_def shift_levels_0
          book_wf_def is_fresh_def taker_levels_def slip_def simp flip: assms(3))
  qed
qed

lemma consume_shift: "consume q (map (\<lambda>(p, s). (p + d, s)) ls) = map (\<lambda>(p, s). (p + d, s)) (consume q ls)"
  by (induction q ls rule: consume.induct) auto

lemma snd_shift [simp]: "snd \<circ> (\<lambda>(p, s). (p + d, s)) = snd"
  by auto

text \<open>
  Slippage moves the price and nothing else. Matching a taker against the synthetic book fills the
  same quantities, level by level, as the recorded book with every price moved against the taker by
  the configured number of ticks, provided the moved prices fit.
\<close>

theorem slippage_translates_fills:
  assumes "book_wf b" and "ts_ticks sl \<noteq> 0" and "slip_fits b (o_side ord) (ts_ticks sl * ts_tick_size sl)"
  shows "\<exists>b'. book_for_fill (tick_slippage_model sl) b ord = Some b'
    \<and> bw_fills (walk b' (o_side ord) qty None)
       = map (\<lambda>(p, q). (p + signum (o_side ord) * (ts_ticks sl * ts_tick_size sl), q))
           (bw_fills (walk b (o_side ord) qty None))
    \<and> bw_unfilled (walk b' (o_side ord) qty None) = bw_unfilled (walk b (o_side ord) qty None)"
proof -
  obtain b' where b': "slippage_book sl b ord = Some b'" "book_wf b'"
      "taker_levels b' (o_side ord) = map (\<lambda>(p, q). (p + slip (o_side ord) (ts_ticks sl * ts_tick_size sl), q))
        (taker_levels b (o_side ord))"
    using slippage_book_levels [OF assms(1,2) refl assms(3)] by auto
  have all: "takeWhile (\<lambda>l. acceptable s None (fst l)) ls = ls" for s ls
    by (simp add: acceptable_def takeWhile_eq_all_conv)
  show ?thesis
    using b'
    by (simp add: walk_eq [OF assms(1)] walk_eq [OF b'(2)] Let_def all consume_shift tick_slippage_model_def
        slip_def mult.commute [of "signum (o_side ord)"])
qed

lemma slippage_translates_fills_witness:
  "\<exists>b' ord. order_market 1 ''X'' 0 Buy 3 0 = Inr ord
     \<and> book_for_fill (tick_slippage_model \<lparr>ts_ticks = 2, ts_tick_size = 5\<rparr>)
         (run_ops ''X'' [(1, Snapshot [(90, 9)] [(100, 2), (101, 4)])]) ord = Some b'
     \<and> bw_fills (walk b' Buy 3 None) = [(110, 2), (111, 1)]"
proof -
  let ?b = "run_ops ''X'' [(1, Snapshot [(90, 9)] [(100, 2), (101, 4)])]"
  obtain ord where ord: "order_market 1 ''X'' 0 Buy 3 0 = Inr ord" "o_side ord = Buy"
    by (simp add: order_market_def order_new_def)
  have lv: "asks ?b = [(100, 2), (101, 4)]" "bids ?b = [(90, 9)]"
    by (simp_all add: run_ops_def run_op_def apply_snapshot_def book_new_def)
  have "slip_fits ?b (o_side ord) (2 * 5)"
    by (simp add: slip_fits_def lv ord(2) slip_def int_range)
  then obtain b' where "book_for_fill (tick_slippage_model \<lparr>ts_ticks = 2, ts_tick_size = 5\<rparr>) ?b ord = Some b'"
      "bw_fills (walk b' Buy 3 None) = map (\<lambda>(p, q). (p + 10, q)) (bw_fills (walk ?b Buy 3 None))"
    using slippage_translates_fills [OF book_wf_run_ops, of "\<lparr>ts_ticks = 2, ts_tick_size = 5\<rparr>" "''X''"
        "[(1, Snapshot [(90, 9)] [(100, 2), (101, 4)])]" ord 3] ord(2) by auto
  moreover have "bw_fills (walk ?b Buy 3 None) = [(100, 2), (101, 1)]"
    by (simp add: walk_def lv visit_def acceptable_def Let_def)
  ultimately show ?thesis using ord(1) by auto
qed

end
