(* ===== verification/L3_Book.thy ===== *)
theory L3_Book
  imports Containers FixedPoint
begin

text \<open>
  The order-by-order book (\<open>h5i-db-backtest/src/l3.rs\<close>). The hash map of orders is only looked up,
  so it is an association list; price levels are an ordered map from a numeric side and a price to
  the queue of order ids, front first. The book refines a single list of resting orders in arrival
  order, which is the specification queue position is read from.
\<close>

section \<open>State\<close>

type_synonym venue_order_id = nat

datatype mbo_message =
    Add venue_order_id side price qty
  | Cancel venue_order_id
  | Execute venue_order_id qty
  | Reduce venue_order_id qty

fun mbo_order_id :: "mbo_message \<Rightarrow> venue_order_id" where
  "mbo_order_id (Add i _ _ _) = i"
| "mbo_order_id (Cancel i) = i"
| "mbo_order_id (Execute i _) = i"
| "mbo_order_id (Reduce i _) = i"

fun mbo_kind :: "mbo_message \<Rightarrow> string" where
  "mbo_kind (Add _ _ _ _) = ''add''"
| "mbo_kind (Cancel _) = ''cancel''"
| "mbo_kind (Execute _ _) = ''execute''"
| "mbo_kind (Reduce _ _) = ''reduce''"

record resting =
  rs_side :: side
  rs_price :: price
  rs_size :: qty

record l3_book =
  l3_orders :: "(venue_order_id, resting) btree_map"
  l3_levels :: "(nat \<times> raw, venue_order_id list) btree_map"

definition side_key :: "side \<Rightarrow> nat" where
  "side_key s = (case s of Buy \<Rightarrow> 0 | Sell \<Rightarrow> 1)"

definition level_key :: "side \<Rightarrow> price \<Rightarrow> nat \<times> raw" where
  "level_key s p = (side_key s, p)"

definition l3_new :: l3_book where
  "l3_new = \<lparr>l3_orders = [], l3_levels = []\<rparr>"

section \<open>Messages\<close>

definition l3_add :: "l3_book \<Rightarrow> venue_order_id \<Rightarrow> side \<Rightarrow> price \<Rightarrow> qty \<Rightarrow> l3_book res" where
  "l3_add b i s p sz =
     (if \<not> sz > 0 then invalid ''an order joining the book must have positive size''
      else if bt_get (l3_orders b) i \<noteq> None then invalid ''venue order is already on the book''
      else Inr (b\<lparr>l3_orders := bt_insert i \<lparr>rs_side = s, rs_price = p, rs_size = sz\<rparr> (l3_orders b),
                  l3_levels := bt_insert (level_key s p)
                    ((case bt_get (l3_levels b) (level_key s p) of None \<Rightarrow> [] | Some q \<Rightarrow> q) @ [i])
                    (l3_levels b)\<rparr>))"

definition l3_cancel :: "l3_book \<Rightarrow> venue_order_id \<Rightarrow> l3_book \<times> qty" where
  "l3_cancel b i =
     (case bt_get (l3_orders b) i of
        None \<Rightarrow> (b, 0)
      | Some r \<Rightarrow>
          let b1 = b\<lparr>l3_orders := bt_remove i (l3_orders b)\<rparr>;
              key = level_key (rs_side r) (rs_price r)
          in ((case bt_get (l3_levels b1) key of
                 None \<Rightarrow> b1
               | Some queue \<Rightarrow>
                   let kept = filter (\<lambda>j. j \<noteq> i) queue
                   in b1\<lparr>l3_levels := if kept = [] then bt_remove key (l3_levels b1)
                                      else bt_insert key kept (l3_levels b1)\<rparr>),
              rs_size r))"

definition l3_execute :: "l3_book \<Rightarrow> venue_order_id \<Rightarrow> qty \<Rightarrow> l3_book \<times> qty" where
  "l3_execute b i sz =
     (case bt_get (l3_orders b) i of
        None \<Rightarrow> (b, 0)
      | Some r \<Rightarrow>
          let executed = min sz (rs_size r);
              r1 = r\<lparr>rs_size := wrap64 (rs_size r - executed)\<rparr>;
              b1 = b\<lparr>l3_orders := bt_insert i r1 (l3_orders b)\<rparr>
          in (if \<not> rs_size r1 > 0 then fst (l3_cancel b1 i) else b1, executed))"

definition l3_reduce :: "l3_book \<Rightarrow> venue_order_id \<Rightarrow> qty \<Rightarrow> l3_book res" where
  "l3_reduce b i new_size =
     (case bt_get (l3_orders b) i of
        None \<Rightarrow> Inr b
      | Some r \<Rightarrow>
          if new_size > rs_size r then invalid ''order cannot grow in place''
          else if \<not> new_size > 0 then Inr (fst (l3_cancel b i))
          else Inr (b\<lparr>l3_orders := bt_insert i (r\<lparr>rs_size := new_size\<rparr>) (l3_orders b)\<rparr>))"

fun l3_apply :: "l3_book \<Rightarrow> mbo_message \<Rightarrow> l3_book res" where
  "l3_apply b (Add i s p sz) = l3_add b i s p sz"
| "l3_apply b (Cancel i) = Inr (fst (l3_cancel b i))"
| "l3_apply b (Execute i sz) = Inr (fst (l3_execute b i sz))"
| "l3_apply b (Reduce i new_size) = l3_reduce b i new_size"

section \<open>Queries\<close>

definition order_size :: "l3_book \<Rightarrow> venue_order_id \<Rightarrow> qty" where
  "order_size b i = (case bt_get (l3_orders b) i of None \<Rightarrow> 0 | Some r \<Rightarrow> rs_size r)"

fun ahead_loop :: "l3_book \<Rightarrow> venue_order_id \<Rightarrow> raw \<Rightarrow> venue_order_id list \<Rightarrow> qty option" where
  "ahead_loop b i ahead [] = None"
| "ahead_loop b i ahead (j # js) =
     (if j = i then Some ahead else ahead_loop b i (wrap64 (ahead + order_size b j)) js)"

definition size_ahead_of :: "l3_book \<Rightarrow> venue_order_id \<Rightarrow> qty option" where
  "size_ahead_of b i =
     Option.bind (bt_get (l3_orders b) i) (\<lambda>r.
     Option.bind (bt_get (l3_levels b) (level_key (rs_side r) (rs_price r))) (\<lambda>queue.
       ahead_loop b i 0 queue))"

definition l3_size_at :: "l3_book \<Rightarrow> side \<Rightarrow> price \<Rightarrow> qty" where
  "l3_size_at b s p =
     (case bt_get (l3_levels b) (level_key s p) of
        None \<Rightarrow> 0 | Some queue \<Rightarrow> wrap64 (sum_list (map (order_size b) queue)))"

definition side_prices :: "l3_book \<Rightarrow> side \<Rightarrow> price list" where
  "side_prices b s = map snd (filter (\<lambda>k. fst k = side_key s) (bt_keys (l3_levels b)))"

definition l3_best_bid :: "l3_book \<Rightarrow> price option" where
  "l3_best_bid b = (case side_prices b Buy of [] \<Rightarrow> None | ps \<Rightarrow> Some (Max (set ps)))"

definition l3_best_ask :: "l3_book \<Rightarrow> price option" where
  "l3_best_ask b = (case side_prices b Sell of [] \<Rightarrow> None | ps \<Rightarrow> Some (Min (set ps)))"

definition l3_levels_of :: "l3_book \<Rightarrow> side \<Rightarrow> (price \<times> qty) list" where
  "l3_levels_of b s =
     (let out = filter (\<lambda>l. snd l > 0) (map (\<lambda>p. (p, l3_size_at b s p)) (side_prices b s))
      in case s of Buy \<Rightarrow> sort_key (\<lambda>l. - fst l) out | Sell \<Rightarrow> sort_key fst out)"

section \<open>The specification: one queue in arrival order\<close>

type_synonym arrivals = "(venue_order_id \<times> resting) list"

definition entry_key :: "venue_order_id \<times> resting \<Rightarrow> nat \<times> raw" where
  "entry_key e = level_key (rs_side (snd e)) (rs_price (snd e))"

definition resize :: "venue_order_id \<Rightarrow> qty \<Rightarrow> arrivals \<Rightarrow> arrivals" where
  "resize i sz L = (if sz > 0 then map (\<lambda>e. if fst e = i then (fst e, snd e\<lparr>rs_size := sz\<rparr>) else e) L
                    else filter (\<lambda>e. fst e \<noteq> i) L)"

fun spec_message :: "arrivals \<Rightarrow> mbo_message \<Rightarrow> arrivals" where
  "spec_message L (Add i s p sz) =
     (if sz > 0 \<and> map_of L i = None then L @ [(i, \<lparr>rs_side = s, rs_price = p, rs_size = sz\<rparr>)] else L)"
| "spec_message L (Cancel i) = filter (\<lambda>e. fst e \<noteq> i) L"
| "spec_message L (Execute i sz) =
     (case map_of L i of None \<Rightarrow> L | Some r \<Rightarrow> resize i (rs_size r - min sz (rs_size r)) L)"
| "spec_message L (Reduce i new_size) =
     (case map_of L i of None \<Rightarrow> L | Some r \<Rightarrow> if new_size > rs_size r then L else resize i new_size L)"

definition queue_of :: "arrivals \<Rightarrow> nat \<times> raw \<Rightarrow> venue_order_id list option" where
  "queue_of L k = (let q = map fst (filter (\<lambda>e. entry_key e = k) L) in if q = [] then None else Some q)"

definition l3_rel :: "l3_book \<Rightarrow> arrivals \<Rightarrow> bool" where
  "l3_rel b L \<longleftrightarrow> bt_wf (l3_orders b) \<and> bt_wf (l3_levels b) \<and> distinct (map fst L)
     \<and> bt_get (l3_orders b) = map_of L \<and> bt_get (l3_levels b) = queue_of L
     \<and> (\<forall>e \<in> set L. 0 < rs_size (snd e) \<and> in_i64 (rs_size (snd e)))"

lemma l3_rel_new: "l3_rel l3_new []"
  by (auto simp: l3_rel_def l3_new_def queue_of_def fun_eq_iff)

lemma map_of_filter_ne: "map_of (filter (\<lambda>e. fst e \<noteq> i) L) = (map_of L)(i := None)"
  by (induction L) auto

lemma map_of_resize:
  "map_of (map (\<lambda>e. if fst e = i then (fst e, f (snd e)) else e) L) i = map_option f (map_of L i)"
  "j \<noteq> i \<Longrightarrow> map_of (map (\<lambda>e. if fst e = i then (fst e, f (snd e)) else e) L) j = map_of L j"
  by (induction L) auto

lemma queue_of_filter_ne:
  assumes "distinct (map fst L)" and "map_of L i = Some r"
  shows "queue_of (filter (\<lambda>e. fst e \<noteq> i) L) k =
    (if k = level_key (rs_side r) (rs_price r)
     then let kept = filter (\<lambda>j. j \<noteq> i) (map fst (filter (\<lambda>e. entry_key e = k) L))
          in if kept = [] then None else Some kept
     else queue_of L k)"
proof -
  have same: "filter (\<lambda>e. entry_key e = k) (filter (\<lambda>e. fst e \<noteq> i) L) = filter (\<lambda>e. entry_key e = k) L"
    if "k \<noteq> level_key (rs_side r) (rs_price r)"
  proof -
    have "e = (i, r)" if "e \<in> set L" "fst e = i" for e
      using that assms by (metis map_of_is_SomeI option.inject prod.collapse)
    with that show ?thesis by (auto simp: entry_key_def intro!: filter_cong)
  qed
  have swap: "map fst (filter (\<lambda>e. entry_key e = k) (filter (\<lambda>e. fst e \<noteq> i) L))
      = filter (\<lambda>j. j \<noteq> i) (map fst (filter (\<lambda>e. entry_key e = k) L))"
    by (simp add: filter_map o_def conj_commute)
  show ?thesis
  proof (cases "k = level_key (rs_side r) (rs_price r)")
    case True
    then show ?thesis unfolding queue_of_def swap by simp
  next
    case False
    then show ?thesis unfolding queue_of_def same [OF False] by simp
  qed
qed

lemma queue_of_resize: "queue_of (map (\<lambda>e. if fst e = i then (fst e, snd e\<lparr>rs_size := sz\<rparr>) else e) L) = queue_of L"
proof -
  have "map fst (filter (\<lambda>e. entry_key e = k) (map (\<lambda>e. if fst e = i then (fst e, snd e\<lparr>rs_size := sz\<rparr>) else e) L))
      = map fst (filter (\<lambda>e. entry_key e = k) L)" for k
    by (induction L) (auto simp: entry_key_def)
  then show ?thesis by (simp add: queue_of_def fun_eq_iff)
qed

section \<open>Refinement\<close>

lemma l3_rel_cancel:
  assumes "l3_rel b L"
  shows "l3_rel (fst (l3_cancel b i)) (filter (\<lambda>e. fst e \<noteq> i) L)"
proof (cases "map_of L i")
  case None
  then have "filter (\<lambda>e. fst e \<noteq> i) L = L" by (auto simp: filter_id_conv map_of_eq_None_iff)
  with None assms show ?thesis by (simp add: l3_cancel_def l3_rel_def)
next
  case (Some r)
  let ?k = "level_key (rs_side r) (rs_price r)"
  let ?kept = "filter (\<lambda>j. j \<noteq> i) (map fst (filter (\<lambda>e. entry_key e = ?k) L))"
  have rel: "bt_wf (l3_orders b)" "bt_wf (l3_levels b)" "distinct (map fst L)"
    "bt_get (l3_orders b) = map_of L" "bt_get (l3_levels b) = queue_of L"
    using assms by (auto simp: l3_rel_def)
  have "(i, r) \<in> set L" using Some by (rule map_of_SomeD)
  then have q: "queue_of L ?k = Some (map fst (filter (\<lambda>e. entry_key e = ?k) L))"
    by (force simp: queue_of_def filter_empty_conv entry_key_def Let_def)
  have b': "fst (l3_cancel b i) = b\<lparr>l3_orders := bt_remove i (l3_orders b),
      l3_levels := if ?kept = [] then bt_remove ?k (l3_levels b) else bt_insert ?k ?kept (l3_levels b)\<rparr>"
    using Some rel q by (simp add: l3_cancel_def Let_def)
  have "bt_get (l3_levels (fst (l3_cancel b i))) = queue_of (filter (\<lambda>e. fst e \<noteq> i) L)"
    by (rule ext) (simp add: b' queue_of_filter_ne [OF rel(3) Some] bt_get_insert [OF rel(2)]
        bt_get_remove rel(5) Let_def)
  moreover have "bt_get (l3_orders (fst (l3_cancel b i))) = map_of (filter (\<lambda>e. fst e \<noteq> i) L)"
    by (rule ext) (simp add: b' bt_get_remove rel(4) map_of_filter_ne)
  moreover have "distinct (map fst (filter (\<lambda>e. fst e \<noteq> i) L))"
    using rel(3) by (rule distinct_map_filter)
  ultimately show ?thesis
    using assms rel(1,2) by (auto simp: l3_rel_def b' bt_wf_insert bt_wf_remove)
qed

lemma l3_rel_resize:
  assumes "l3_rel b L" and "map_of L i = Some r" and "0 < sz" and "in_i64 sz"
  shows "l3_rel (b\<lparr>l3_orders := bt_insert i (r\<lparr>rs_size := sz\<rparr>) (l3_orders b)\<rparr>) (resize i sz L)"
proof -
  let ?L = "map (\<lambda>e. if fst e = i then (fst e, snd e\<lparr>rs_size := sz\<rparr>) else e) L"
  have wf: "bt_wf (l3_orders b)" and get: "bt_get (l3_orders b) = map_of L"
    using assms(1) by (auto simp: l3_rel_def)
  have "bt_get (bt_insert i (r\<lparr>rs_size := sz\<rparr>) (l3_orders b)) = map_of ?L"
    using assms(2) map_of_resize [where i = i and f = "\<lambda>x. x\<lparr>rs_size := sz\<rparr>" and L = L]
    by (intro ext) (auto simp: bt_get_insert [OF wf] get)
  moreover have "map fst ?L = map fst L" by simp
  ultimately show ?thesis
    using assms by (auto simp: l3_rel_def resize_def bt_wf_insert queue_of_resize simp del: map_map)
qed

lemma l3_rel_add:
  assumes "l3_rel b L" and "0 < sz" and "in_i64 sz" and "map_of L i = None"
  shows "\<exists>b'. l3_add b i s p sz = Inr b' \<and> l3_rel b' (L @ [(i, \<lparr>rs_side = s, rs_price = p, rs_size = sz\<rparr>)])"
proof -
  let ?r = "\<lparr>rs_side = s, rs_price = p, rs_size = sz\<rparr>"
  have rel: "bt_wf (l3_orders b)" "bt_wf (l3_levels b)" "bt_get (l3_orders b) = map_of L"
    "bt_get (l3_levels b) = queue_of L"
    using assms by (auto simp: l3_rel_def)
  have fresh: "i \<notin> fst ` set L" using assms(4) by (simp add: map_of_eq_None_iff)
  let ?b = "b\<lparr>l3_orders := bt_insert i ?r (l3_orders b), l3_levels := bt_insert (level_key s p)
      ((case queue_of L (level_key s p) of None \<Rightarrow> [] | Some q \<Rightarrow> q) @ [i]) (l3_levels b)\<rparr>"
  have run: "l3_add b i s p sz = Inr ?b" using assms(2,4) rel by (simp add: l3_add_def)
  have "bt_get (l3_levels ?b) = queue_of (L @ [(i, ?r)])"
    by (rule ext) (auto simp: bt_get_insert [OF rel(2)] rel(4) queue_of_def entry_key_def Let_def)
  moreover have "bt_get (l3_orders ?b) = map_of (L @ [(i, ?r)])"
    using assms(4) by (intro ext) (auto simp: bt_get_insert [OF rel(1)] rel(3) map_add_def split: option.splits)
  ultimately have "l3_rel ?b (L @ [(i, ?r)])"
    using assms(1-3) fresh by (auto simp: l3_rel_def bt_wf_insert)
  with run show ?thesis by blast
qed

definition message_ok :: "mbo_message \<Rightarrow> bool" where
  "message_ok m = (case m of Add _ _ _ sz \<Rightarrow> in_i64 sz | Execute _ sz \<Rightarrow> 0 \<le> sz | _ \<Rightarrow> True)"

definition l3_step :: "l3_book \<Rightarrow> mbo_message \<Rightarrow> l3_book" where
  "l3_step b m = (case l3_apply b m of Inl _ \<Rightarrow> b | Inr b' \<Rightarrow> b')"

lemma l3_rel_sizes: "l3_rel b L \<Longrightarrow> map_of L i = Some r \<Longrightarrow> 0 < rs_size r \<and> in_i64 (rs_size r)"
  by (auto simp: l3_rel_def dest: map_of_SomeD)

lemma l3_step_refines:
  assumes "l3_rel b L" and "message_ok m"
  shows "l3_rel (l3_step b m) (spec_message L m)"
proof (cases m)
  case (Add i s p sz)
  show ?thesis
  proof (cases "0 < sz \<and> map_of L i = None")
    case True
    then show ?thesis
      using l3_rel_add [OF assms(1), of sz i s p] assms(2) Add by (auto simp: l3_step_def message_ok_def)
  next
    case False
    moreover have "bt_get (l3_orders b) = map_of L" using assms(1) by (simp add: l3_rel_def)
    ultimately show ?thesis using assms(1) Add by (auto simp: l3_step_def l3_add_def)
  qed
next
  case (Cancel i)
  then show ?thesis using l3_rel_cancel [OF assms(1)] by (simp add: l3_step_def)
next
  case (Execute i sz)
  have get: "bt_get (l3_orders b) i = map_of L i" using assms(1) by (simp add: l3_rel_def)
  show ?thesis
  proof (cases "map_of L i")
    case (Some r)
    define n where "n = rs_size r - min sz (rs_size r)"
    have sz: "0 \<le> n" "in_i64 n" "0 < rs_size r"
      using l3_rel_sizes [OF assms(1) Some] assms(2) Execute by (auto simp: n_def message_ok_def int_range)
    let ?b1 = "b\<lparr>l3_orders := bt_insert i (r\<lparr>rs_size := n\<rparr>) (l3_orders b)\<rparr>"
    have step: "l3_step b m = (if 0 < n then ?b1 else fst (l3_cancel ?b1 i))"
      using Execute Some get sz by (simp add: l3_step_def l3_execute_def Let_def flip: n_def)
    have "fst (l3_cancel ?b1 i) = fst (l3_cancel b i)"
    proof -
      have "bt_remove i (bt_insert i x (l3_orders b)) = bt_remove i (l3_orders b)" for x
        using assms(1) by (intro bt_eqI ext) (auto simp: l3_rel_def bt_wf_insert bt_wf_remove bt_get_insert bt_get_remove)
      moreover have "bt_wf (l3_orders b)" using assms(1) by (simp add: l3_rel_def)
      ultimately show ?thesis
        using Some get by (auto simp: l3_cancel_def bt_get_insert Let_def split: option.splits)
    qed
    moreover have "spec_message L m = resize i n L" using Execute Some by (simp add: n_def)
    ultimately show ?thesis
      using step l3_rel_resize [OF assms(1) Some _ sz(2)] l3_rel_cancel [OF assms(1), of i] sz(1)
      by (cases "0 < n") (simp_all add: resize_def)
  qed (use Execute assms get in \<open>simp add: l3_step_def l3_execute_def\<close>)
next
  case (Reduce i n)
  have get: "bt_get (l3_orders b) i = map_of L i" using assms(1) by (simp add: l3_rel_def)
  show ?thesis
  proof (cases "map_of L i")
    case (Some r)
    show ?thesis
    proof (cases "0 < n \<and> n \<le> rs_size r")
      case True
      then have "in_i64 n" using l3_rel_sizes [OF assms(1) Some] by (auto simp: int_range)
      with True show ?thesis
        using l3_rel_resize [OF assms(1) Some, of n] Reduce Some get by (simp add: l3_step_def l3_reduce_def)
    next
      case False
      then show ?thesis
        using assms(1) l3_rel_cancel [OF assms(1), of i] l3_rel_sizes [OF assms(1) Some] Reduce Some get
        by (auto simp: l3_step_def l3_reduce_def resize_def)
    qed
  qed (use Reduce assms get in \<open>simp add: l3_step_def l3_reduce_def\<close>)
qed

section \<open>Queue position\<close>

text \<open>The size in front of an order: what arrived before it at the same level and still rests.\<close>

definition ahead :: "arrivals \<Rightarrow> venue_order_id \<Rightarrow> int" where
  "ahead L i = (case map_of L i of
     None \<Rightarrow> 0
   | Some r \<Rightarrow> sum_list (map (\<lambda>e. rs_size (snd e))
       (filter (\<lambda>e. entry_key e = level_key (rs_side r) (rs_price r)) (takeWhile (\<lambda>e. fst e \<noteq> i) L))))"

lemma wrap64_add: "wrap64 (wrap64 x + y) = wrap64 (x + y)"
  using wrap64_diff [of y "- x"] wrap64_diff [of y "- wrap64 x"]
  by (simp add: wrap64_def mod_simps algebra_simps)

lemma ahead_loop_eq:
  "i \<in> set q \<Longrightarrow> ahead_loop b i (wrap64 a) q
     = Some (wrap64 (a + sum_list (map (order_size b) (takeWhile (\<lambda>j. j \<noteq> i) q))))"
  by (induction q arbitrary: a) (auto simp: wrap64_add add.assoc)

lemma size_ahead_of_eq:
  assumes "l3_rel b L"
  shows "size_ahead_of b i = (if map_of L i = None then None else Some (wrap64 (ahead L i)))"
proof (cases "map_of L i")
  case None
  then show ?thesis using assms by (simp add: size_ahead_of_def l3_rel_def)
next
  case (Some r)
  let ?k = "level_key (rs_side r) (rs_price r)"
  let ?F = "filter (\<lambda>e. entry_key e = ?k) L"
  have mem: "(i, r) \<in> set L" using Some by (rule map_of_SomeD)
  then have q: "bt_get (l3_levels b) ?k = Some (map fst ?F)" and iq: "i \<in> set (map fst ?F)"
    using assms by (force simp: l3_rel_def queue_of_def filter_empty_conv entry_key_def Let_def)+
  have prefix: "takeWhile (\<lambda>j. j \<noteq> i) (map fst (filter P M)) = map fst (filter P (takeWhile (\<lambda>e. fst e \<noteq> i) M))"
    if "\<forall>e \<in> set M. fst e = i \<longrightarrow> P e" for P and M :: arrivals
    using that by (induction M) auto
  have uniq: "\<forall>e \<in> set L. fst e = i \<longrightarrow> entry_key e = ?k"
    using assms Some by (auto simp: l3_rel_def entry_key_def) (metis map_of_is_SomeI option.inject)
  have size: "order_size b j = rs_size x" if "(j, x) \<in> set L" for j x
    using assms that by (auto simp: order_size_def l3_rel_def)
  have "size_ahead_of b i = Some (wrap64 (sum_list (map (order_size b) (takeWhile (\<lambda>j. j \<noteq> i) (map fst ?F)))))"
    using ahead_loop_eq [OF iq, of b 0] Some assms q by (simp add: size_ahead_of_def l3_rel_def)
  also have "map (order_size b) (takeWhile (\<lambda>j. j \<noteq> i) (map fst ?F))
      = map (\<lambda>e. rs_size (snd e)) (filter (\<lambda>e. entry_key e = ?k) (takeWhile (\<lambda>e. fst e \<noteq> i) L))"
    using prefix [OF uniq] by (auto simp: o_def size dest!: set_takeWhileD)
  finally show ?thesis using Some by (simp add: ahead_def)
qed

definition l3_run :: "mbo_message list \<Rightarrow> l3_book" where
  "l3_run ms = foldl l3_step l3_new ms"

definition spec_run :: "mbo_message list \<Rightarrow> arrivals" where
  "spec_run ms = foldl spec_message [] ms"

lemma l3_run_refines:
  assumes "\<forall>m \<in> set ms. message_ok m"
  shows "l3_rel (l3_run ms) (spec_run ms)"
  using assms unfolding l3_run_def spec_run_def
  by (induction ms rule: rev_induct) (auto simp: l3_rel_new l3_step_refines)

text \<open>
  C15: queue position is a fact of the feed. After any sequence of messages, accepted or refused, the
  book's answer to "how much is ahead of this order" is the total size of the orders that arrived
  before it at the same side and price and still rest (as an \<open>i64\<close>), and it is undefined exactly for
  orders that are not on the book.
\<close>

theorem size_ahead_is_arrival_order:
  assumes "\<forall>m \<in> set ms. message_ok m"
  shows "size_ahead_of (l3_run ms) i
    = (if map_of (spec_run ms) i = None then None else Some (wrap64 (ahead (spec_run ms) i)))"
  using l3_run_refines [OF assms] by (rule size_ahead_of_eq)

lemma size_ahead_is_arrival_order_witness:
  "size_ahead_of (l3_run [Add 1 Buy 100 5, Add 2 Buy 100 7, Add 3 Sell 100 9, Add 4 Buy 100 2,
      Execute 1 2, Cancel 2]) 4 = Some 3"
proof -
  let ?ms = "[Add 1 Buy 100 5, Add 2 Buy 100 7, Add 3 Sell 100 9, Add 4 Buy 100 2, Execute 1 2, Cancel 2]"
  have "\<forall>m \<in> set ?ms. message_ok m" by (simp add: message_ok_def int_range)
  from size_ahead_is_arrival_order [OF this, of 4] show ?thesis
    by (simp add: spec_run_def resize_def ahead_def entry_key_def level_key_def side_key_def int_range)
qed

text \<open>Messages about other orders only ever shorten the queue in front of an order.\<close>

definition ahead_at :: "nat \<times> raw \<Rightarrow> venue_order_id \<Rightarrow> arrivals \<Rightarrow> int" where
  "ahead_at k i L = sum_list (map (\<lambda>e. rs_size (snd e))
     (filter (\<lambda>e. entry_key e = k) (takeWhile (\<lambda>e. fst e \<noteq> i) L)))"

lemma ahead_at_Cons:
  "ahead_at k i (e # L) = (if fst e = i then 0
     else (if entry_key e = k then rs_size (snd e) else 0) + ahead_at k i L)"
  by (simp add: ahead_at_def)

lemma ahead_at_nonneg: "\<forall>e \<in> set L. 0 < rs_size (snd e) \<Longrightarrow> 0 \<le> ahead_at k i L"
  by (induction L) (auto simp: ahead_at_Cons ahead_at_def [of _ _ "[]"])

lemma ahead_at_append: "i \<in> fst ` set L \<Longrightarrow> ahead_at k i (L @ L') = ahead_at k i L"
  by (induction L) (auto simp: ahead_at_Cons)

lemma ahead_at_filter:
  "\<forall>e \<in> set L. 0 < rs_size (snd e) \<Longrightarrow> j \<noteq> i \<Longrightarrow> ahead_at k i (filter (\<lambda>e. fst e \<noteq> j) L) \<le> ahead_at k i L"
  by (induction L) (auto simp: ahead_at_Cons)

lemma ahead_at_resize:
  assumes "\<forall>e \<in> set L. fst e = j \<longrightarrow> sz \<le> rs_size (snd e)"
  shows "ahead_at k i (map (\<lambda>e. if fst e = j then (fst e, snd e\<lparr>rs_size := sz\<rparr>) else e) L) \<le> ahead_at k i L"
  using assms
proof (induction L)
  case (Cons e L)
  then show ?case by (cases "fst e = j") (auto simp: ahead_at_Cons entry_key_def)
qed (simp add: ahead_at_def)

definition other_message :: "venue_order_id \<Rightarrow> mbo_message \<Rightarrow> bool" where
  "other_message i m \<longleftrightarrow> mbo_order_id m \<noteq> i"

lemma spec_message_other:
  assumes "other_message i m" and "map_of L i = Some r"
  shows "map_of (spec_message L m) i = Some r"
  using assms map_of_resize(2) [where j = i and L = L]
  by (cases m) (auto simp: other_message_def map_of_filter_ne resize_def map_add_Some_iff split: option.splits)

text \<open>
  C26: an order never loses its place. Whatever messages about other orders arrive, the size ahead of
  a resting order never grows: cancels, reductions and executions in front of it advance it, later
  arrivals queue behind it, and a refused increase changes nothing.
\<close>

theorem queue_position_never_worsens:
  assumes "\<forall>m \<in> set ms. message_ok m" and "message_ok m" and "other_message i m"
    and "size_ahead_of (l3_run ms) i \<noteq> None" and "in_i64 (ahead (spec_run ms) i)"
  shows "\<exists>a a'. size_ahead_of (l3_run ms) i = Some a \<and> size_ahead_of (l3_run (ms @ [m])) i = Some a'
    \<and> 0 \<le> a' \<and> a' \<le> a"
proof -
  let ?L = "spec_run ms"
  have rel: "l3_rel (l3_run ms) ?L" by (rule l3_run_refines [OF assms(1)])
  have rel': "l3_rel (l3_run (ms @ [m])) (spec_message ?L m)"
    using l3_run_refines [of "ms @ [m]"] assms(1,2) by (auto simp: spec_run_def)
  have pos: "\<forall>e \<in> set ?L. 0 < rs_size (snd e)" and pos': "\<forall>e \<in> set (spec_message ?L m). 0 < rs_size (snd e)"
    and dis: "distinct (map fst ?L)"
    using rel rel' by (auto simp: l3_rel_def)
  obtain r where r: "map_of ?L i = Some r"
    using assms(4) size_ahead_of_eq [OF rel, of i] by (cases "map_of ?L i") auto
  let ?k = "level_key (rs_side r) (rs_price r)"
  have mem: "i \<in> fst ` set ?L" using r by (metis map_of_eq_None_iff option.distinct(1))
  have own: "sz \<le> rs_size (snd e)" if "map_of ?L j = Some x" "sz \<le> rs_size x" "e \<in> set ?L" "fst e = j" for j x sz e
    using that dis by (metis map_of_is_SomeI option.inject prod.collapse)
  have "ahead_at ?k i (spec_message ?L m) \<le> ahead_at ?k i ?L"
  proof (cases m)
    case (Add j s p sz)
    then show ?thesis using ahead_at_append [OF mem] by simp
  next
    case (Cancel j)
    then show ?thesis using ahead_at_filter [OF pos] assms(3) by (simp add: other_message_def)
  next
    case (Execute j sz)
    then show ?thesis
      using ahead_at_filter [OF pos, of j i] ahead_at_resize [of ?L j] assms(2,3) own [of j]
      by (auto simp: other_message_def message_ok_def resize_def split: option.splits)
  next
    case (Reduce j sz)
    then show ?thesis
      using ahead_at_filter [OF pos, of j i] ahead_at_resize [of ?L j] assms(3) own [of j]
      by (auto simp: other_message_def resize_def split: option.splits)
  qed
  moreover have "0 \<le> ahead_at ?k i (spec_message ?L m)" by (rule ahead_at_nonneg [OF pos'])
  moreover have "ahead ?L i = ahead_at ?k i ?L" by (simp add: ahead_def r ahead_at_def)
  moreover have "ahead (spec_message ?L m) i = ahead_at ?k i (spec_message ?L m)"
    using spec_message_other [OF assms(3) r] by (simp add: ahead_def ahead_at_def)
  ultimately show ?thesis
    using size_ahead_of_eq [OF rel, of i] size_ahead_of_eq [OF rel', of i] r spec_message_other [OF assms(3) r]
      assms(5) in_i64_between [OF in_i64_0 assms(5)] by simp
qed

lemma queue_position_never_worsens_witness:
  "\<exists>a a'. size_ahead_of (l3_run [Add 1 Buy 100 5, Add 2 Buy 100 7]) 2 = Some a
     \<and> size_ahead_of (l3_run ([Add 1 Buy 100 5, Add 2 Buy 100 7] @ [Execute 1 2])) 2 = Some a' \<and> 0 \<le> a' \<and> a' \<le> a"
proof (rule queue_position_never_worsens)
  show "size_ahead_of (l3_run [Add 1 Buy 100 5, Add 2 Buy 100 7]) 2 \<noteq> None"
    by (simp add: l3_run_def l3_step_def l3_new_def l3_add_def size_ahead_of_def level_key_def side_key_def)
  show "in_i64 (ahead (spec_run [Add 1 Buy 100 5, Add 2 Buy 100 7]) 2)"
    by (simp add: spec_run_def ahead_def entry_key_def level_key_def side_key_def int_range)
qed (simp_all add: message_ok_def other_message_def int_range)

text \<open>
  Executions are the one message whose size is not checked: a negative one makes the order larger
  in place and keeps its priority, which \<open>reduce\<close> refuses to do.
\<close>

lemma negative_execution_grows_order:
  "size_ahead_of (l3_run [Add 1 Buy 100 5, Add 2 Buy 100 7]) 2 = Some 5"
  "size_ahead_of (l3_run [Add 1 Buy 100 5, Add 2 Buy 100 7, Execute 1 (- 3)]) 2 = Some 8"
  by (simp_all add: l3_run_def l3_step_def l3_new_def l3_add_def l3_execute_def size_ahead_of_def
      level_key_def side_key_def order_size_def wrap64_def Let_def)

end
