(* ===== verification/Events.thy ===== *)
theory Events
  imports Book Orders
begin

text \<open>What flows through a replay (\<open>h5i-db-backtest/src/event.rs\<close>).\<close>

datatype market_event =
    BookSnapshot "(price \<times> qty) list" "(price \<times> qty) list"
  | BookDelta book_delta
  | FeedGap
  | Trade price qty "side option"
  | Funding price
  | Corporate corporate_action
  | Bar price price price price qty
  | Reference "price option" "price option"

fun event_kind :: "market_event \<Rightarrow> string" where
  "event_kind (BookSnapshot _ _) = ''book_snapshot''"
| "event_kind (BookDelta _) = ''book_delta''"
| "event_kind FeedGap = ''gap''"
| "event_kind (Trade _ _ _) = ''trade''"
| "event_kind (Funding _) = ''funding''"
| "event_kind (Corporate _) = ''corporate''"
| "event_kind (Bar _ _ _ _ _) = ''bar''"
| "event_kind (Reference _ _) = ''reference''"

record event_record =
  e_stamps :: stamps
  e_instrument :: instrument_id
  e_outcome :: outcome_id
  e_event :: market_event

definition event_record_new :: "stamps \<Rightarrow> instrument_id \<Rightarrow> outcome_id \<Rightarrow> market_event \<Rightarrow> event_record" where
  "event_record_new st i oc ev = \<lparr>e_stamps = st, e_instrument = i, e_outcome = oc, e_event = ev\<rparr>"

definition record_ts :: "event_record \<Rightarrow> unix_nanos" where
  "record_ts r = ts_init (e_stamps r)"

end
