(* ===== verification/Replays.thy ===== *)
theory Replays
  imports Events
begin

text \<open>
  Merging sorted streams into one replay order (\<open>h5i-db-backtest/src/replay.rs\<close>). A lazy source is
  the finite list of the results it will yield. \<open>next_record\<close> changes the streams before it can fail,
  so it returns the replay beside the result; \<open>None\<close> is its panic on a heap key without a head
  record, which the invariant excludes. The \<open>u64\<close> counters are natural numbers.
\<close>

section \<open>State\<close>

definition GAP :: nat where "GAP = 0"
definition SNAPSHOT :: nat where "SNAPSHOT = 10"
definition DELTA :: nat where "DELTA = 20"
definition CORPORATE :: nat where "CORPORATE = 5"
definition REFERENCE :: nat where "REFERENCE = 7"
definition TRADE :: nat where "TRADE = 30"
definition FUNDING :: nat where "FUNDING = 35"
definition BAR :: nat where "BAR = 40"

text \<open>The derived order of \<open>Key\<close> compares its fields in the order of their declaration.\<close>

type_synonym replay_key = "int \<times> nat \<times> nat \<times> nat"

record stream_state =
  s_name :: string
  s_priority :: nat
  s_source :: "event_record res list"
  s_head :: "event_record option"
  s_arrival :: nat
  s_last_ts :: "int option"

record replay =
  rp_streams :: "stream_state list"
  rp_heap :: "replay_key list"
  rp_last_emitted :: "unix_nanos option"
  rp_emitted :: nat

section \<open>Operations\<close>

definition pull :: "stream_state \<Rightarrow> stream_state \<times> event_record option res" where
  "pull st =
     (case s_source st of
        [] \<Rightarrow> (st, Inr None)
      | Inl e # rest \<Rightarrow> (st\<lparr>s_source := rest\<rparr>, Inl e)
      | Inr r # rest \<Rightarrow>
          let st1 = st\<lparr>s_source := rest\<rparr>; ts = record_ts r
          in case s_last_ts st1 of
               Some previous \<Rightarrow>
                 if ts < previous then (st1, Inl (OutOfOrder (s_name st1) ts previous))
                 else (st1\<lparr>s_last_ts := Some ts\<rparr>, Inr (Some r))
             | None \<Rightarrow> (st1\<lparr>s_last_ts := Some ts\<rparr>, Inr (Some r)))"

definition stream_key :: "nat \<Rightarrow> stream_state \<Rightarrow> event_record \<Rightarrow> replay_key" where
  "stream_key i st r = (record_ts r, s_priority st, i, s_arrival st)"

definition take_head :: "stream_state \<Rightarrow> stream_state" where
  "take_head st = st\<lparr>s_head := None\<rparr>"

text \<open>The rest of \<open>next_record\<close> once the popped stream was asked for its next record.\<close>

definition refill :: "replay \<Rightarrow> nat \<Rightarrow> replay_key list \<Rightarrow> event_record
    \<Rightarrow> stream_state \<times> event_record option res \<Rightarrow> replay \<times> event_record option res" where
  "refill rp i heap r pulled =
     (case pulled of
        (st1, Inl e) \<Rightarrow> (rp\<lparr>rp_heap := heap, rp_streams := (rp_streams rp)[i := st1]\<rparr>, Inl e)
      | (st1, Inr None) \<Rightarrow>
          (rp\<lparr>rp_heap := heap, rp_streams := (rp_streams rp)[i := st1],
              rp_last_emitted := Some (record_ts r), rp_emitted := rp_emitted rp + 1\<rparr>, Inr (Some r))
      | (st1, Inr (Some nxt)) \<Rightarrow>
          let st2 = st1\<lparr>s_arrival := s_arrival st1 + 1\<rparr>
          in (rp\<lparr>rp_heap := pq_push id (stream_key i st2 nxt) heap,
                 rp_streams := (rp_streams rp)[i := st2\<lparr>s_head := Some nxt\<rparr>],
                 rp_last_emitted := Some (record_ts r), rp_emitted := rp_emitted rp + 1\<rparr>, Inr (Some r)))"

definition next_record :: "replay \<Rightarrow> (replay \<times> event_record option res) option" where
  "next_record rp =
     (case pq_pop (rp_heap rp) of
        None \<Rightarrow> Some (rp, Inr None)
      | Some (key, heap) \<Rightarrow>
          let i = fst (snd (snd key))
          in if \<not> i < length (rp_streams rp) then None
             else let st = rp_streams rp ! i
                  in case s_head st of
                       None \<Rightarrow> None
                     | Some r \<Rightarrow> Some (refill rp i heap r (pull (take_head st))))"

partial_function (option) collect_loop ::
  "replay \<Rightarrow> event_record list \<Rightarrow> (replay \<times> event_record list res) option" where
  "collect_loop rp out =
     (case next_record rp of
        None \<Rightarrow> None
      | Some (rp', r) \<Rightarrow>
          (case r of
             Inl e \<Rightarrow> Some (rp', Inl e)
           | Inr None \<Rightarrow> Some (rp', Inr out)
           | Inr (Some rec) \<Rightarrow> collect_loop rp' (out @ [rec])))"

definition collect_all :: "replay \<Rightarrow> (replay \<times> event_record list res) option" where
  "collect_all rp = collect_loop rp []"

definition peek_ts :: "replay \<Rightarrow> unix_nanos option" where
  "peek_ts rp = map_option fst (pq_peek (rp_heap rp))"

definition stream_names :: "replay \<Rightarrow> string list" where
  "stream_names rp = map s_name (rp_streams rp)"

type_synonym replay_builder = "(string \<times> nat \<times> event_record res list) list"

definition builder_source :: "replay_builder \<Rightarrow> string \<Rightarrow> nat \<Rightarrow> event_record res list \<Rightarrow> replay_builder" where
  "builder_source bl name priority source = bl @ [(name, priority, source)]"

definition builder_stream :: "replay_builder \<Rightarrow> string \<Rightarrow> nat \<Rightarrow> event_record list \<Rightarrow> replay_builder" where
  "builder_stream bl name priority records = builder_source bl name priority (map Inr records)"

fun build_loop :: "nat \<Rightarrow> replay_builder \<Rightarrow> stream_state list \<Rightarrow> replay_key list
    \<Rightarrow> (stream_state list \<times> replay_key list) res" where
  "build_loop index [] streams heap = Inr (streams, heap)"
| "build_loop index ((name, priority, source) # bl) streams heap =
     (let st = \<lparr>s_name = name, s_priority = priority, s_source = source, s_head = None,
                s_arrival = 0, s_last_ts = None\<rparr>
      in case pull st of
           (st1, Inl e) \<Rightarrow> Inl e
         | (st1, Inr head) \<Rightarrow>
             let heap1 = (case head of None \<Rightarrow> heap
                          | Some r \<Rightarrow> pq_push id (record_ts r, priority, index, 0) heap)
             in build_loop (Suc index) bl (streams @ [st1\<lparr>s_head := head\<rparr>]) heap1)"

definition build :: "replay_builder \<Rightarrow> replay res" where
  "build bl = and_then (build_loop 0 bl [] []) (\<lambda>(streams, heap).
     Inr \<lparr>rp_streams = streams, rp_heap = heap, rp_last_emitted = None, rp_emitted = 0\<rparr>)"

section \<open>The invariant of the merge\<close>

text \<open>The heap holds exactly the keys of the head records; a stream without a head is exhausted.\<close>

definition head_keys :: "stream_state list \<Rightarrow> replay_key set" where
  "head_keys sts = {stream_key i (sts ! i) r | i r. i < length sts \<and> s_head (sts ! i) = Some r}"

definition stream_wf :: "stream_state \<Rightarrow> bool" where
  "stream_wf st \<longleftrightarrow> (case s_head st of None \<Rightarrow> s_source st = [] | Some r \<Rightarrow> s_last_ts st = Some (record_ts r))"

definition replay_wf :: "replay \<Rightarrow> bool" where
  "replay_wf rp \<longleftrightarrow> pq_wf id (rp_heap rp) \<and> distinct (rp_heap rp)
     \<and> set (rp_heap rp) = head_keys (rp_streams rp) \<and> (\<forall>st \<in> set (rp_streams rp). stream_wf st)"

lemma head_keys_index: "(ts, p, i, a) \<in> head_keys sts \<Longrightarrow>
    i < length sts \<and> (\<exists>r. s_head (sts ! i) = Some r \<and> ts = record_ts r \<and> p = s_priority (sts ! i) \<and> a = s_arrival (sts ! i))"
  by (auto simp: head_keys_def stream_key_def)

lemma head_keys_unique: "k \<in> head_keys sts \<Longrightarrow> k' \<in> head_keys sts \<Longrightarrow> fst (snd (snd k)) = fst (snd (snd k')) \<Longrightarrow> k = k'"
  by (auto simp: head_keys_def stream_key_def)

lemma head_keys_update:
  assumes "i < length sts"
  shows "head_keys (sts[i := st]) = {k \<in> head_keys sts. fst (snd (snd k)) \<noteq> i}
    \<union> (case s_head st of None \<Rightarrow> {} | Some r \<Rightarrow> {stream_key i st r})"
  using assms
  by (auto simp: head_keys_def stream_key_def nth_list_update split: option.splits if_splits)

text \<open>Where the next record comes from.\<close>

lemma next_record_cases:
  assumes "replay_wf rp"
  obtains (finished) "rp_heap rp = []" "\<forall>st \<in> set (rp_streams rp). s_head st = None \<and> s_source st = []"
      "next_record rp = Some (rp, Inr None)"
    | (emit) i st r heap where "rp_heap rp = stream_key i st r # heap" "i < length (rp_streams rp)"
      "st = rp_streams rp ! i" "s_head st = Some r" "s_last_ts st = Some (record_ts r)"
      "set heap = {k \<in> head_keys (rp_streams rp). fst (snd (snd k)) \<noteq> i}"
proof (cases "rp_heap rp")
  case Nil
  then have none: "head_keys (rp_streams rp) = {}" using assms by (simp add: replay_wf_def)
  have hd: "s_head st = None" if mem: "st \<in> set (rp_streams rp)" for st
  proof (rule ccontr)
    assume "s_head st \<noteq> None"
    then obtain r i where "i < length (rp_streams rp)" "rp_streams rp ! i = st" "s_head st = Some r"
      using mem by (auto simp: in_set_conv_nth)
    then have "stream_key i st r \<in> head_keys (rp_streams rp)" by (auto simp: head_keys_def)
    with none show False by simp
  qed
  moreover have "s_source st = []" if "st \<in> set (rp_streams rp)" for st
    using that assms hd [OF that] by (auto simp: replay_wf_def stream_wf_def split: option.splits)
  ultimately show ?thesis using Nil by (intro finished) (auto simp: next_record_def)
next
  case (Cons k heap)
  have keys: "set (rp_heap rp) = head_keys (rp_streams rp)" "distinct (rp_heap rp)"
    using assms by (auto simp: replay_wf_def)
  with Cons have "k \<in> head_keys (rp_streams rp)" by auto
  then obtain i r where i: "i < length (rp_streams rp)" "s_head (rp_streams rp ! i) = Some r"
      "k = stream_key i (rp_streams rp ! i) r"
    by (auto simp: head_keys_def)
  have "s_last_ts (rp_streams rp ! i) = Some (record_ts r)"
    using assms i by (auto simp: replay_wf_def stream_wf_def dest!: bspec [OF _ nth_mem])
  moreover have "fst (snd (snd k')) \<noteq> i" if "k' \<in> set heap" for k'
  proof
    assume same: "fst (snd (snd k')) = i"
    have "k' \<in> head_keys (rp_streams rp)" "k \<in> head_keys (rp_streams rp)"
      using that keys(1) Cons by (auto simp flip: keys(1))
    with same i(3) have "k' = k" by (intro head_keys_unique) (auto simp: stream_key_def)
    with that keys(2) Cons show False by simp
  qed
  moreover have "k' \<in> set heap" if "k' \<in> head_keys (rp_streams rp)" "fst (snd (snd k')) \<noteq> i" for k'
    using that keys(1) Cons i(3) by (auto simp: stream_key_def simp flip: keys(1))
  ultimately show ?thesis
    using i Cons keys(1) by (intro emit [of i "rp_streams rp ! i" r heap]) auto
qed

text \<open>Pulling the next record after a head was taken.\<close>

lemma pull_after_head:
  assumes "s_last_ts st = Some prev"
  shows "pull (take_head st) =
    (case s_source st of
       [] \<Rightarrow> (take_head st, Inr None)
     | Inl e # rest \<Rightarrow> ((take_head st)\<lparr>s_source := rest\<rparr>, Inl e)
     | Inr r # rest \<Rightarrow>
         if record_ts r < prev
         then ((take_head st)\<lparr>s_source := rest\<rparr>, Inl (OutOfOrder (s_name st) (record_ts r) prev))
         else ((take_head st)\<lparr>s_source := rest, s_last_ts := Some (record_ts r)\<rparr>, Inr (Some r)))"
  using assms by (auto simp: pull_def take_head_def Let_def split: list.splits sum.splits)

lemma replay_wf_update:
  assumes "replay_wf rp" and "rp_heap rp = k # heap" and "i < length (rp_streams rp)"
    and "set heap = {k \<in> head_keys (rp_streams rp). fst (snd (snd k)) \<noteq> i}" and "stream_wf st'"
    and "rp_streams rp' = (rp_streams rp)[i := st']"
    and "rp_heap rp' = (case s_head st' of None \<Rightarrow> heap | Some r \<Rightarrow> pq_push id (stream_key i st' r) heap)"
  shows "replay_wf rp'"
proof -
  have heap: "pq_wf id heap" "distinct heap" using assms(1,2) by (auto simp: replay_wf_def)
  have "stream_key i st' r \<notin> set heap" for r using assms(4) by (auto simp: stream_key_def)
  then have "pq_wf id (rp_heap rp')" "distinct (rp_heap rp')"
    using heap by (auto simp: assms(7) split: option.splits)
  moreover have "set (rp_heap rp') = head_keys (rp_streams rp')"
    using assms(4) by (auto simp: assms(6,7) head_keys_update [OF assms(3)] split: option.splits)
  moreover have "\<forall>st \<in> set (rp_streams rp'). stream_wf st"
    using assms(1,5,6) set_update_subset_insert [of "rp_streams rp" i st'] by (auto simp: replay_wf_def)
  ultimately show ?thesis by (simp add: replay_wf_def)
qed

section \<open>What the merge still has to emit\<close>

text \<open>Records of a source with the keys they will get, and the sources a merge accepts.\<close>

fun tag_source :: "nat \<Rightarrow> nat \<Rightarrow> nat \<Rightarrow> event_record res list \<Rightarrow> (replay_key \<times> event_record) list" where
  "tag_source i p a [] = []"
| "tag_source i p a (Inl e # rs) = []"
| "tag_source i p a (Inr r # rs) = ((record_ts r, p, i, a), r) # tag_source i p (Suc a) rs"

fun source_ok :: "int \<Rightarrow> event_record res list \<Rightarrow> bool" where
  "source_ok prev [] = True"
| "source_ok prev (Inl e # rs) = False"
| "source_ok prev (Inr r # rs) = (prev \<le> record_ts r \<and> source_ok (record_ts r) rs)"

definition pending_of :: "nat \<Rightarrow> stream_state \<Rightarrow> (replay_key \<times> event_record) list" where
  "pending_of i st = (case s_head st of
     None \<Rightarrow> []
   | Some r \<Rightarrow> (stream_key i st r, r) # tag_source i (s_priority st) (Suc (s_arrival st)) (s_source st))"

definition pending :: "stream_state list \<Rightarrow> (replay_key \<times> event_record) multiset" where
  "pending sts = (\<Sum>i<length sts. mset (pending_of i (sts ! i)))"

definition stream_ok :: "stream_state \<Rightarrow> bool" where
  "stream_ok st \<longleftrightarrow> (case s_head st of None \<Rightarrow> s_source st = [] | Some r \<Rightarrow> source_ok (record_ts r) (s_source st))"

lemma key_le: "ts \<le> ts' \<Longrightarrow> a \<le> a' \<Longrightarrow> (ts, p, i, a) \<le> (ts', p, i, a' :: nat)" for ts ts' :: int and p i a :: nat
  by (auto simp: less_eq_prod_simp)

lemma tag_source_bound:
  "source_ok prev rs \<Longrightarrow> (k, r) \<in> set (tag_source i p a rs) \<Longrightarrow> b \<le> a \<Longrightarrow> (prev, p, i, b) \<le> k"
proof (induction i p a rs arbitrary: prev b rule: tag_source.induct)
  case (3 i p a x rs)
  then have le: "prev \<le> record_ts x" and ok: "source_ok (record_ts x) rs" by auto
  show ?case
  proof (cases "(k, r) = ((record_ts x, p, i, a), x)")
    case True
    with le 3(4) show ?thesis by (simp add: key_le)
  next
    case False
    with 3(3) have "(k, r) \<in> set (tag_source i p (Suc a) rs)" by auto
    then have "(record_ts x, p, i, b) \<le> k" using 3(1) [OF ok, of b] 3(4) by simp
    with key_le [OF le order_refl] show ?thesis by (rule order_trans)
  qed
qed auto

lemma pending_update:
  assumes "i < length sts"
  shows "pending (sts[i := st']) + mset (pending_of i (sts ! i)) = pending sts + mset (pending_of i st')"
proof -
  let ?f = "\<lambda>sts j. mset (pending_of j (sts ! j))"
  have fin: "finite {..<length sts}" and mem: "i \<in> {..<length sts}" using assms by auto
  have "pending sts = ?f sts i + (\<Sum>j \<in> {..<length sts} - {i}. ?f sts j)"
    unfolding pending_def by (rule sum.remove [OF fin mem])
  moreover have "pending (sts[i := st']) = mset (pending_of i st') + (\<Sum>j \<in> {..<length sts} - {i}. ?f sts j)"
    unfolding pending_def using assms by (simp add: sum.remove [OF fin mem])
  ultimately show ?thesis by (simp add: ac_simps)
qed

lemma pending_of_least:
  assumes "stream_ok st" and "(k, x) \<in> set (pending_of i st)"
  shows "\<exists>r. s_head st = Some r \<and> stream_key i st r \<le> k"
  using assms tag_source_bound [of _ "s_source st" k x i "s_priority st" "Suc (s_arrival st)" "s_arrival st"]
  by (auto simp: pending_of_def stream_ok_def stream_key_def split: option.splits)

lemma pending_mem: "e \<in># pending sts \<longleftrightarrow> (\<exists>i < length sts. e \<in> set (pending_of i (sts ! i)))"
  by (auto simp: pending_def set_mset_sum)

text \<open>The key popped from the heap is the least of everything pending.\<close>

lemma popped_is_least:
  assumes "replay_wf rp" and "\<forall>st \<in> set (rp_streams rp). stream_ok st" and "rp_heap rp = k # heap"
    and "(k', x) \<in># pending (rp_streams rp)"
  shows "k \<le> k'"
proof -
  from assms(4) obtain j where j: "j < length (rp_streams rp)" "(k', x) \<in> set (pending_of j (rp_streams rp ! j))"
    by (auto simp: pending_mem)
  then obtain r where r: "s_head (rp_streams rp ! j) = Some r" "stream_key j (rp_streams rp ! j) r \<le> k'"
    using pending_of_least [OF _ j(2)] assms(2) by (auto simp: nth_mem)
  then have "stream_key j (rp_streams rp ! j) r \<in> set (rp_heap rp)"
    using assms(1) j by (auto simp: replay_wf_def head_keys_def)
  then have "k \<le> stream_key j (rp_streams rp ! j) r"
    using assms(1,3) by (auto simp: replay_wf_def)
  with r(2) show ?thesis by (rule order_trans [rotated])
qed

text \<open>One step on accepted streams: the least pending record is emitted and leaves the rest.\<close>

lemma next_record_step:
  assumes "replay_wf rp" and "\<forall>st \<in> set (rp_streams rp). stream_ok st" and "pending (rp_streams rp) \<noteq> {#}"
  shows "\<exists>rp' k r. next_record rp = Some (rp', Inr (Some r)) \<and> replay_wf rp'
    \<and> (\<forall>st \<in> set (rp_streams rp'). stream_ok st)
    \<and> pending (rp_streams rp) = add_mset (k, r) (pending (rp_streams rp'))
    \<and> (\<forall>(k', x) \<in> set_mset (pending (rp_streams rp)). k \<le> k')"
  using assms(1)
proof (cases rule: next_record_cases)
  case finished
  then have "pending_of i (rp_streams rp ! i) = []" if "i < length (rp_streams rp)" for i
    using that by (simp add: pending_of_def)
  then have "pending (rp_streams rp) = {#}" by (simp add: pending_def)
  with assms(3) show ?thesis by simp
next
  case (emit i st r heap)
  let ?k = "stream_key i st r"
  have ok: "source_ok (record_ts r) (s_source st)"
    using assms(2) emit(2-4) by (auto simp: stream_ok_def dest!: bspec [OF _ nth_mem])
  define st' where "st' = (case s_source st of
      Inr nxt # rest \<Rightarrow> (take_head st)\<lparr>s_source := rest, s_last_ts := Some (record_ts nxt),
        s_arrival := Suc (s_arrival st), s_head := Some nxt\<rparr>
    | _ \<Rightarrow> take_head st)"
  define rp' where "rp' = rp\<lparr>rp_heap := (case s_head st' of None \<Rightarrow> heap | Some x \<Rightarrow> pq_push id (stream_key i st' x) heap),
      rp_streams := (rp_streams rp)[i := st'], rp_last_emitted := Some (record_ts r), rp_emitted := rp_emitted rp + 1\<rparr>"
  consider (none) "s_source st = []"
    | (some) nxt rest where "s_source st = Inr nxt # rest" "record_ts r \<le> record_ts nxt" "source_ok (record_ts nxt) rest"
    using ok by (cases "(record_ts r, s_source st)" rule: source_ok.cases) auto
  then have "next_record rp = Some (rp', Inr (Some r)) \<and> stream_wf st' \<and> stream_ok st'
      \<and> mset (pending_of i st) = add_mset (?k, r) (mset (pending_of i st'))"
  proof cases
    case none
    then have "pull (take_head st) = (take_head st, Inr None)" "st' = take_head st"
      using pull_after_head [OF emit(5)] by (simp_all add: st'_def)
    then show ?thesis
      using emit(1-4) none
      by (simp add: next_record_def refill_def Let_def rp'_def stream_key_def stream_wf_def stream_ok_def pending_of_def take_head_def)
  next
    case some
    then have "pull (take_head st) = ((take_head st)\<lparr>s_source := rest, s_last_ts := Some (record_ts nxt)\<rparr>, Inr (Some nxt))"
      "st' = (take_head st)\<lparr>s_source := rest, s_last_ts := Some (record_ts nxt),
        s_arrival := Suc (s_arrival st), s_head := Some nxt\<rparr>"
      using pull_after_head [OF emit(5)] by (simp_all add: st'_def)
    then show ?thesis
      using emit(1-4) some
      by (simp add: next_record_def refill_def Let_def rp'_def stream_key_def stream_wf_def stream_ok_def pending_of_def take_head_def)
  qed
  then have "next_record rp = Some (rp', Inr (Some r))" "stream_wf st'" "stream_ok st'"
      "mset (pending_of i st) = add_mset (?k, r) (mset (pending_of i st'))"
    by auto
  note facts = this
  have "replay_wf rp'"
    by (rule replay_wf_update [OF assms(1) emit(1,2,6) facts(2)]) (simp_all add: rp'_def)
  moreover have "pending (rp_streams rp) = add_mset (?k, r) (pending (rp_streams rp'))"
    using pending_update [OF emit(2), of st'] facts(4) emit(3) by (simp add: rp'_def)
  moreover have "\<forall>st \<in> set (rp_streams rp'). stream_ok st"
    using assms(2) facts(3) set_update_subset_insert [of "rp_streams rp" i st'] by (auto simp: rp'_def)
  moreover have "?k \<le> k'" if "(k', x) \<in># pending (rp_streams rp)" for k' x
    using popped_is_least [OF assms(1,2) emit(1) that] .
  ultimately show ?thesis using facts(1) by blast
qed

lemma next_record_end:
  assumes "replay_wf rp" and "pending (rp_streams rp) = {#}"
  shows "next_record rp = Some (rp, Inr None)"
  using assms(1)
proof (cases rule: next_record_cases)
  case (emit i st r heap)
  then have "(stream_key i st r, r) \<in># pending (rp_streams rp)"
    by (auto simp: pending_mem pending_of_def)
  with assms(2) show ?thesis by simp
qed

lemma collect_sorted:
  assumes "replay_wf rp" and "\<forall>st \<in> set (rp_streams rp). stream_ok st"
  shows "\<exists>rp' T. collect_loop rp out = Some (rp', Inr (out @ map snd T))
    \<and> mset T = pending (rp_streams rp) \<and> sorted (map fst T)"
  using assms
proof (induction "size (pending (rp_streams rp))" arbitrary: rp out rule: less_induct)
  case less
  show ?case
  proof (cases "pending (rp_streams rp) = {#}")
    case True
    then show ?thesis
      using next_record_end [OF less.prems(1)]
      by (intro exI [of _ rp] exI [of _ "[]"]) (subst collect_loop.simps, simp)
  next
    case False
    then obtain rp' k r where step: "next_record rp = Some (rp', Inr (Some r))" "replay_wf rp'"
        "\<forall>st \<in> set (rp_streams rp'). stream_ok st" "pending (rp_streams rp) = add_mset (k, r) (pending (rp_streams rp'))"
        "\<forall>(k', x) \<in> set_mset (pending (rp_streams rp)). k \<le> k'"
      using next_record_step [OF less.prems] by blast
    then obtain rp'' T where T: "collect_loop rp' (out @ [r]) = Some (rp'', Inr ((out @ [r]) @ map snd T))"
        "mset T = pending (rp_streams rp')" "sorted (map fst T)"
      using less.hyps [of rp' "out @ [r]"] by auto
    have "collect_loop rp out = Some (rp'', Inr (out @ map snd ((k, r) # T)))"
      by (subst collect_loop.simps) (simp add: step(1) T(1))
    moreover have "sorted (map fst ((k, r) # T))"
    proof -
      have "k \<le> fst e" if "e \<in> set T" for e
      proof -
        from that have "e \<in># pending (rp_streams rp)" using T(2) step(4) by (metis set_mset_mset union_single_eq_member insert_iff set_mset_add_mset_insert)
        with step(5) show ?thesis by (cases e) auto
      qed
      with T(3) show ?thesis by simp
    qed
    moreover have "mset ((k, r) # T) = pending (rp_streams rp)" using T(2) step(4) by simp
    ultimately show ?thesis by blast
  qed
qed

section \<open>Building\<close>

fun all_tags :: "nat \<Rightarrow> replay_builder \<Rightarrow> (replay_key \<times> event_record) list" where
  "all_tags n [] = []"
| "all_tags n ((name, p, source) # bl) = tag_source n p 0 source @ all_tags (Suc n) bl"

definition source_start_ok :: "event_record res list \<Rightarrow> bool" where
  "source_start_ok source \<longleftrightarrow> (case source of
     [] \<Rightarrow> True | Inl e # rs \<Rightarrow> False | Inr r # rs \<Rightarrow> source_ok (record_ts r) rs)"

definition streams_wf :: "stream_state list \<Rightarrow> replay_key list \<Rightarrow> bool" where
  "streams_wf sts heap \<longleftrightarrow> replay_wf \<lparr>rp_streams = sts, rp_heap = heap, rp_last_emitted = None, rp_emitted = 0\<rparr>"

lemma head_keys_snoc:
  "head_keys (sts @ [st]) = head_keys sts \<union> (case s_head st of None \<Rightarrow> {} | Some r \<Rightarrow> {stream_key (length sts) st r})"
  by (auto simp: head_keys_def stream_key_def nth_append less_Suc_eq split: option.splits)

lemma pending_snoc: "pending (sts @ [st]) = pending sts + mset (pending_of (length sts) st)"
  by (simp add: pending_def nth_append)

lemma streams_wf_snoc:
  assumes "streams_wf sts heap" and "stream_wf st"
  shows "streams_wf (sts @ [st]) (case s_head st of None \<Rightarrow> heap | Some r \<Rightarrow> pq_push id (stream_key (length sts) st r) heap)"
proof -
  have "stream_key (length sts) st r \<notin> head_keys sts" for r
    by (auto simp: head_keys_def stream_key_def)
  with assms show ?thesis
    by (auto simp: streams_wf_def replay_wf_def head_keys_snoc split: option.splits)
qed

text \<open>The first pull of a stream.\<close>

lemma first_pull:
  assumes "pull \<lparr>s_name = name, s_priority = p, s_source = source, s_head = None, s_arrival = 0, s_last_ts = None\<rparr>
    = (st1, Inr hdr)"
  shows "stream_wf (st1\<lparr>s_head := hdr\<rparr>) \<and> (stream_ok (st1\<lparr>s_head := hdr\<rparr>) \<longleftrightarrow> source_start_ok source)
    \<and> pending_of n (st1\<lparr>s_head := hdr\<rparr>) = tag_source n p 0 source
    \<and> (\<forall>r. hdr = Some r \<longrightarrow> stream_key n (st1\<lparr>s_head := hdr\<rparr>) r = (record_ts r, p, n, 0))"
  using assms
  by (auto simp: pull_def stream_wf_def stream_ok_def source_start_ok_def pending_of_def stream_key_def Let_def
      split: list.splits sum.splits)

lemma build_loop_wf:
  assumes "build_loop n bl sts heap = Inr (sts', heap')" and "streams_wf sts heap" and "length sts = n"
  shows "streams_wf sts' heap' \<and> pending sts' = pending sts + mset (all_tags n bl)
    \<and> ((\<forall>st \<in> set sts'. stream_ok st) \<longleftrightarrow> (\<forall>st \<in> set sts. stream_ok st) \<and> (\<forall>(_, _, source) \<in> set bl. source_start_ok source))"
  using assms
proof (induction n bl sts heap rule: build_loop.induct)
  case (2 n name p source bl sts heap)
  let ?st = "\<lparr>s_name = name, s_priority = p, s_source = source, s_head = None, s_arrival = 0, s_last_ts = None\<rparr>"
  obtain st1 res where pull: "pull ?st = (st1, res)" by (cases "pull ?st")
  show ?case
  proof (cases res)
    case (Inl e)
    with 2(2) pull show ?thesis by simp
  next
    case (Inr hdr)
    let ?new = "st1\<lparr>s_head := hdr\<rparr>"
    note first = first_pull [OF pull [unfolded Inr], of n]
    let ?heap = "case hdr of None \<Rightarrow> heap | Some r \<Rightarrow> pq_push id (record_ts r, p, n, 0) heap"
    have heap: "?heap = (case s_head ?new of None \<Rightarrow> heap | Some r \<Rightarrow> pq_push id (stream_key (length sts) ?new r) heap)"
      using first 2(4) by (auto split: option.splits)
    have wf: "streams_wf (sts @ [?new]) ?heap" unfolding heap using 2(3) first by (intro streams_wf_snoc) auto
    have run: "build_loop (Suc n) bl (sts @ [?new]) ?heap = Inr (sts', heap')"
      using 2(2) pull Inr by simp
    have "streams_wf sts' heap' \<and> pending sts' = pending (sts @ [?new]) + mset (all_tags (Suc n) bl)
        \<and> ((\<forall>st \<in> set sts'. stream_ok st) \<longleftrightarrow> (\<forall>st \<in> set (sts @ [?new]). stream_ok st) \<and> (\<forall>(_, _, source) \<in> set bl. source_start_ok source))"
      using 2(1) [OF refl pull [symmetric] Inr refl run wf] 2(4) by simp
    then show ?thesis using first 2(4) by (auto simp: pending_snoc)
  qed
qed simp

lemma tag_source_keys:
  "(k, r) \<in> set (tag_source i p a rs) \<Longrightarrow> fst (snd (snd k)) = i \<and> a \<le> snd (snd (snd k))"
  by (induction i p a rs rule: tag_source.induct) force+

lemma distinct_tag_source: "distinct (map fst (tag_source i p a rs))"
  by (induction i p a rs rule: tag_source.induct) (auto dest!: tag_source_keys)

lemma all_tags_keys: "(k, r) \<in> set (all_tags n bl) \<Longrightarrow> n \<le> fst (snd (snd k))"
  by (induction n bl rule: all_tags.induct) (auto dest!: tag_source_keys)

lemma distinct_all_tags: "distinct (map fst (all_tags n bl))"
proof (induction n bl rule: all_tags.induct)
  case (2 n name p source bl)
  have "set (map fst (tag_source n p 0 source)) \<inter> set (map fst (all_tags (Suc n) bl)) = {}"
    by (force dest: tag_source_keys all_tags_keys)
  with 2 show ?case unfolding all_tags.simps map_append distinct_append
    by (simp only: distinct_tag_source simp_thms)
qed simp

lemma sorted_unique:
  assumes "mset T = mset A" and "sorted (map fst T)" and "distinct (map fst A)"
  shows "T = sort_key fst A"
proof -
  have d: "distinct (map fst T)" using assms(1,3) by (metis mset_map mset_eq_imp_distinct_iff)
  have set: "set T = set (sort_key fst A)" using assms(1) by (metis set_mset_mset set_sort)
  have "inj_on fst (set T \<union> set (sort_key fst A))" using d set by (simp add: distinct_map)
  moreover have "distinct (map fst (sort_key fst A))"
    using assms(3) by (metis mset_map mset_sort mset_eq_imp_distinct_iff)
  ultimately show ?thesis
    using assms(2) d set by (intro map_sorted_distinct_set_unique [of fst]) auto
qed

lemma source_ok_sorted: "source_ok prev (map Inr rs) \<longleftrightarrow> sorted (map record_ts rs) \<and> (\<forall>r \<in> set rs. prev \<le> record_ts r)"
  by (induction rs arbitrary: prev) (auto dest: order_trans)

lemma source_start_ok_sorted: "source_start_ok (map Inr rs) \<longleftrightarrow> sorted (map record_ts rs)"
  by (cases rs) (auto simp: source_start_ok_def source_ok_sorted)

lemma streams_wf_Nil: "streams_wf [] []"
  by (simp add: streams_wf_def replay_wf_def head_keys_def)

lemma build_Inr:
  assumes "build bl = Inr rp"
  shows "replay_wf rp \<and> pending (rp_streams rp) = mset (all_tags 0 bl)
    \<and> ((\<forall>st \<in> set (rp_streams rp). stream_ok st) \<longleftrightarrow> (\<forall>(_, _, source) \<in> set bl. source_start_ok source))"
proof -
  obtain sts heap where run: "build_loop 0 bl [] [] = Inr (sts, heap)"
    and rp: "rp = \<lparr>rp_streams = sts, rp_heap = heap, rp_last_emitted = None, rp_emitted = 0\<rparr>"
    using assms by (auto simp: build_def and_then_Inr_iff)
  from build_loop_wf [OF run streams_wf_Nil] show ?thesis
    by (simp add: rp streams_wf_def pending_def [of "[]"])
qed

definition vec_builder :: "(string \<times> nat \<times> event_record list) list \<Rightarrow> replay_builder" where
  "vec_builder vs = map (\<lambda>(name, p, rs). (name, p, map Inr rs)) vs"

lemma build_vec_ok: "\<exists>r. build_loop n (vec_builder vs) sts heap = Inr r"
proof (induction vs arbitrary: n sts heap)
  case (Cons v vs)
  obtain name p rs where v: "v = (name, p, rs)" by (cases v)
  have "vec_builder (v # vs) = (name, p, map Inr rs) # vec_builder vs" by (simp add: vec_builder_def v)
  then show ?case
    using Cons.IH by (cases rs) (simp_all add: pull_def Let_def)
qed (simp add: vec_builder_def)

lemma collect_merged:
  assumes "\<forall>(name, p, rs) \<in> set vs. sorted (map record_ts rs)"
  shows "\<exists>rp rp'. build (vec_builder vs) = Inr rp
    \<and> collect_all rp = Some (rp', Inr (map snd (sort_key fst (all_tags 0 (vec_builder vs)))))"
proof -
  obtain rp where rp: "build (vec_builder vs) = Inr rp"
    using build_vec_ok [of 0 vs "[]" "[]"] by (auto simp: build_def)
  note wf = build_Inr [OF rp]
  have "\<forall>(_, _, source) \<in> set (vec_builder vs). source_start_ok source"
    using assms by (auto simp: vec_builder_def source_start_ok_sorted)
  with wf obtain rp' T where T: "collect_loop rp [] = Some (rp', Inr ([] @ map snd T))"
      "mset T = pending (rp_streams rp)" "sorted (map fst T)"
    using collect_sorted [of rp "[]"] by blast
  have "T = sort_key fst (all_tags 0 (vec_builder vs))"
    using T wf by (intro sorted_unique distinct_all_tags) auto
  with T rp show ?thesis by (auto simp: collect_all_def)
qed

text \<open>
  C8: the replay order is the declared total order. Merging any sorted vectors always returns, and
  the records come out exactly sorted by timestamp, then stream priority, then stream index, then
  arrival: every record once, none lost, none invented, and nothing else decides.
\<close>

theorem replay_is_the_sorted_merge:
  assumes "\<forall>(name, p, rs) \<in> set vs. sorted (map record_ts rs)"
  shows "\<exists>rp rp'. build (vec_builder vs) = Inr rp
    \<and> collect_all rp = Some (rp', Inr (map snd (sort_key fst (all_tags 0 (vec_builder vs)))))"
  by (rule collect_merged [OF assms])

definition sample_record :: "unix_nanos \<Rightarrow> market_event \<Rightarrow> event_record" where
  "sample_record ts ev = event_record_new (stamps_immediate ts) ''X'' 0 ev"

lemma sample_record_ts [simp]: "record_ts (sample_record ts ev) = ts"
  by (simp add: sample_record_def event_record_new_def record_ts_def stamps_immediate_def)

lemma replay_is_the_sorted_merge_witness:
  "\<exists>rp rp'. build (vec_builder [(''trades'', TRADE, [sample_record 1 (Trade 5 1 None), sample_record 2 (Trade 6 1 None)]),
      (''gaps'', GAP, [sample_record 2 FeedGap])]) = Inr rp
    \<and> collect_all rp = Some (rp', Inr [sample_record 1 (Trade 5 1 None), sample_record 2 FeedGap,
        sample_record 2 (Trade 6 1 None)])"
proof -
  let ?vs = "[(''trades'', TRADE, [sample_record 1 (Trade 5 1 None), sample_record 2 (Trade 6 1 None)]),
      (''gaps'', GAP, [sample_record 2 FeedGap])]"
  have "map snd (sort_key fst (all_tags 0 (vec_builder ?vs)))
      = [sample_record 1 (Trade 5 1 None), sample_record 2 FeedGap, sample_record 2 (Trade 6 1 None)]"
    by (simp add: vec_builder_def TRADE_def GAP_def less_eq_prod_simp)
  moreover have "\<forall>(name, p, rs) \<in> set ?vs. sorted (map record_ts rs)" by simp
  ultimately show ?thesis using replay_is_the_sorted_merge [of ?vs] by simp
qed

section \<open>Unsorted streams are refused\<close>

definition work :: "stream_state \<Rightarrow> nat" where
  "work st = length (s_source st) + (if s_head st = None then 0 else 1)"

lemma sum_work_update:
  "i < length sts \<Longrightarrow> work st' < work (sts ! i) \<Longrightarrow> sum_list (map work (sts[i := st'])) < sum_list (map work sts)"
  by (induction sts arbitrary: i) (auto split: nat.splits)

lemma collect_total:
  assumes "replay_wf rp"
  shows "\<exists>rp' res. collect_loop rp out = Some (rp', res)
    \<and> (\<forall>recs. res = Inr recs \<longrightarrow> (\<forall>st \<in> set (rp_streams rp). stream_ok st))"
  using assms
proof (induction "sum_list (map work (rp_streams rp))" arbitrary: rp out rule: less_induct)
  case less
  from less.prems show ?case
  proof (cases rule: next_record_cases)
    case finished
    then show ?thesis
      by (subst collect_loop.simps) (auto simp: stream_ok_def)
  next
    case (emit i st r heap)
    note pulled = pull_after_head [OF emit(5)]
    have next_eq: "next_record rp = Some (refill rp i heap r (pull (take_head st)))"
      using emit(1-4) by (simp add: next_record_def stream_key_def)
    have continue: ?thesis
      if nx: "next_record rp = Some (rp', Inr (Some r))" and sts: "rp_streams rp' = (rp_streams rp)[i := st']"
        and hp: "rp_heap rp' = (case s_head st' of None \<Rightarrow> heap | Some x \<Rightarrow> pq_push id (stream_key i st' x) heap)"
        and wf': "stream_wf st'" and less_work: "work st' < work st" and okb: "stream_ok st' \<longrightarrow> stream_ok st"
      for rp' st'
    proof -
      have "replay_wf rp'" by (rule replay_wf_update [OF less.prems emit(1,2,6) wf' sts hp])
      moreover have "sum_list (map work (rp_streams rp')) < sum_list (map work (rp_streams rp))"
        using sum_work_update [OF emit(2)] less_work by (simp add: sts emit(3))
      ultimately obtain rp'' res where rec: "collect_loop rp' (out @ [r]) = Some (rp'', res)"
          "\<forall>recs. res = Inr recs \<longrightarrow> (\<forall>st \<in> set (rp_streams rp'). stream_ok st)"
        using less.hyps [of rp' "out @ [r]"] by blast
      have "collect_loop rp out = Some (rp'', res)"
        by (subst collect_loop.simps) (simp add: nx rec(1))
      moreover have "\<forall>x \<in> set (rp_streams rp). stream_ok x" if "\<forall>x \<in> set (rp_streams rp'). stream_ok x"
      proof
        fix x assume "x \<in> set (rp_streams rp)"
        then obtain j where j: "j < length (rp_streams rp)" "rp_streams rp ! j = x" by (auto simp: in_set_conv_nth)
        show "stream_ok x"
        proof (cases "j = i")
          case True
          have "st' \<in> set (rp_streams rp')" using emit(2) by (simp add: sts set_update_memI)
          with that okb True j emit(3) show ?thesis by simp
        next
          case False
          then have "rp_streams rp' ! j = x" "j < length (rp_streams rp')" using j by (simp_all add: sts)
          with that show ?thesis by (metis nth_mem)
        qed
      qed
      ultimately show ?thesis using rec(2) by blast
    qed
    show ?thesis
    proof (cases "s_source st")
      case Nil
      then show ?thesis
        using pulled next_eq emit(4)
        by (intro continue [where st' = "take_head st"])
           (auto simp: refill_def take_head_def stream_wf_def stream_ok_def work_def)
    next
      case (Cons x rest)
      show ?thesis
      proof (cases x)
        case (Inl e)
        then show ?thesis using pulled next_eq Cons by (subst collect_loop.simps) (simp add: refill_def)
      next
        case (Inr nxt)
        show ?thesis
        proof (cases "record_ts nxt < record_ts r")
          case True
          then show ?thesis using pulled next_eq Cons Inr by (subst collect_loop.simps) (simp add: refill_def)
        next
          case False
          then show ?thesis
            using pulled next_eq Cons Inr emit(4)
            by (intro continue [where st' = "(take_head st)\<lparr>s_source := rest, s_last_ts := Some (record_ts nxt),
                s_arrival := Suc (s_arrival st), s_head := Some nxt\<rparr>"])
               (auto simp: refill_def take_head_def stream_wf_def stream_ok_def work_def stream_key_def Let_def)
        qed
      qed
    qed
  qed
qed

text \<open>
  C27: a replay never runs over bad data silently. For any streams at all, draining a built replay
  returns, and it returns records only when no stream yielded an error and none went backwards in
  time: otherwise the result is an error.
\<close>

theorem replay_refuses_unsorted_streams:
  assumes "build bl = Inr rp"
  shows "\<exists>rp' res. collect_all rp = Some (rp', res)
    \<and> (is_ok res \<longrightarrow> (\<forall>(name, p, source) \<in> set bl. source_start_ok source))"
proof -
  note wf = build_Inr [OF assms]
  obtain rp' res where "collect_loop rp [] = Some (rp', res)"
      "\<forall>recs. res = Inr recs \<longrightarrow> (\<forall>st \<in> set (rp_streams rp). stream_ok st)"
    using collect_total [of rp "[]"] wf by blast
  with wf show ?thesis by (auto simp: collect_all_def is_ok_iff)
qed

lemma replay_refuses_unsorted_streams_witness:
  "\<exists>rp rp' e. build (vec_builder [(''t'', 0, [sample_record 3 FeedGap, sample_record 2 FeedGap])]) = Inr rp
     \<and> collect_all rp = Some (rp', Inl e)"
proof -
  let ?bl = "vec_builder [(''t'', 0, [sample_record 3 FeedGap, sample_record 2 FeedGap])]"
  obtain rp where rp: "build ?bl = Inr rp"
    using build_vec_ok [of 0 "[(''t'', 0, [sample_record 3 FeedGap, sample_record 2 FeedGap])]" "[]" "[]"]
    by (auto simp: build_def)
  have bad: "\<not> (\<forall>(name, p, source) \<in> set ?bl. source_start_ok source)"
    by (simp add: vec_builder_def source_start_ok_def)
  obtain rp' res where res: "collect_all rp = Some (rp', res)"
      "is_ok res \<longrightarrow> (\<forall>(name, p, source) \<in> set ?bl. source_start_ok source)"
    using replay_refuses_unsorted_streams [OF rp] by (elim exE conjE)
  with bad have "\<not> is_ok res" by blast
  then obtain e where "res = Inl e" by (cases res) auto
  with rp res(1) show ?thesis by blast
qed

end
