(* ===== verification/Settlements.thy ===== *)
theory Settlements
  imports Instruments Positions
begin

text \<open>
  Settlement of a finished run (\<open>h5i-db-backtest/src/settlement.rs\<close>): resolutions and their payouts,
  the observability gate, and the explicit adjustment. The reasons an unsettled position is listed
  with are short literals.
\<close>

section \<open>Payouts and resolutions\<close>

datatype payout = Winner outcome_id | SplitPayout "price list" | Void nat

definition as_prices :: "payout \<Rightarrow> price list option" where
  "as_prices p = (case p of
     Winner _ \<Rightarrow> None
   | SplitPayout prices \<Rightarrow> Some prices
   | Void n \<Rightarrow> (case uniform_prices n of Inl _ \<Rightarrow> None | Inr ps \<Rightarrow> Some ps))"

definition is_informative :: "payout \<Rightarrow> bool" where
  "is_informative p = (case p of
     Winner _ \<Rightarrow> True
   | Void _ \<Rightarrow> False
   | SplitPayout prices \<Rightarrow>
       (let first = (case prices of [] \<Rightarrow> 0 | x # _ \<Rightarrow> x) in list_ex (\<lambda>price. price \<noteq> first) prices))"

record resolution =
  res_instrument :: instrument_id
  res_payout :: payout
  observable_at :: unix_nanos

definition resolution_new :: "instrument_id \<Rightarrow> outcome_id \<Rightarrow> unix_nanos \<Rightarrow> resolution" where
  "resolution_new i winner at = \<lparr>res_instrument = i, res_payout = Winner winner, observable_at = at\<rparr>"

definition resolution_split :: "instrument_id \<Rightarrow> price list \<Rightarrow> unix_nanos \<Rightarrow> resolution res" where
  "resolution_split i payouts at =
     (if length payouts < 2 then invalid ''a split resolution needs a payout for every outcome''
      else if list_ex (\<lambda>price. price < 0 \<or> price > PROBABILITY_MAX) payouts
      then invalid ''every payout must lie in [0, 1]''
      else if wrap64 (sum_list payouts) \<noteq> SCALE
      then invalid ''the payouts do not sum to 1''
      else Inr \<lparr>res_instrument = i, res_payout = SplitPayout payouts, observable_at = at\<rparr>)"

definition resolution_void :: "instrument_id \<Rightarrow> nat \<Rightarrow> unix_nanos \<Rightarrow> resolution res" where
  "resolution_void i n at =
     (if n < 2 then invalid ''a voided market needs at least two outcomes''
      else Inr \<lparr>res_instrument = i, res_payout = Void n, observable_at = at\<rparr>)"

fun winner_loop :: "nat \<Rightarrow> outcome_id option \<Rightarrow> price list \<Rightarrow> outcome_id option" where
  "winner_loop index winner [] = winner"
| "winner_loop index winner (price # ps) =
     (if price = SCALE then winner_loop (Suc index) (Some (index mod 65536)) ps
      else if price \<noteq> 0 then None
      else winner_loop (Suc index) winner ps)"

definition resolution_winner :: "resolution \<Rightarrow> outcome_id option" where
  "resolution_winner r = (case res_payout r of
     Winner oc \<Rightarrow> Some oc
   | Void _ \<Rightarrow> None
   | SplitPayout prices \<Rightarrow> winner_loop 0 None prices)"

definition nth_or_zero :: "price list \<Rightarrow> outcome_id \<Rightarrow> price" where
  "nth_or_zero ps oc = (if oc < length ps then ps ! oc else 0)"

definition settlement_price :: "resolution \<Rightarrow> outcome_id \<Rightarrow> price" where
  "settlement_price r oc = (case res_payout r of
     Winner winner \<Rightarrow> if oc = winner then SCALE else 0
   | SplitPayout prices \<Rightarrow> nth_or_zero prices oc
   | Void n \<Rightarrow> (case uniform_prices n of Inl _ \<Rightarrow> 0 | Inr prices \<Rightarrow> nth_or_zero prices oc))"

definition resolution_validate :: "resolution \<Rightarrow> instrument \<Rightarrow> unit res" where
  "resolution_validate r ins =
     (if \<not> is_probability (i_kind ins) then invalid ''the instrument does not resolve''
      else let expected = outcome_count ins
           in case res_payout r of
                Winner winner \<Rightarrow> check_outcome ins winner
              | SplitPayout prices \<Rightarrow>
                  if length prices \<noteq> expected then invalid ''wrong number of payouts'' else Inr ()
              | Void n \<Rightarrow> if n \<noteq> expected then invalid ''wrong number of void outcomes'' else Inr ())"

section \<open>Settling a run\<close>

record position_settlement =
  ps_instrument :: instrument_id
  ps_outcome :: outcome_id
  ps_quantity :: qty
  ps_market_exit_pnl :: "money option"
  ps_settled_pnl :: money
  ps_adjustment :: money

record settlement_report =
  sr_settled :: "position_settlement list"
  sr_unsettled :: "(instrument_id \<times> outcome_id \<times> string) list"
  sr_total_adjustment :: money

definition was_applied :: "settlement_report \<Rightarrow> bool" where
  "was_applied rep \<longleftrightarrow> sr_settled rep \<noteq> []"

fun index_resolutions :: "(instrument_id, resolution) btree_map \<Rightarrow> resolution list
    \<Rightarrow> (instrument_id, resolution) btree_map res" where
  "index_resolutions m [] = Inr m"
| "index_resolutions m (r # rs) =
     (if bt_get m (res_instrument r) \<noteq> None then invalid ''two resolutions supplied for one market''
      else index_resolutions (bt_insert (res_instrument r) r m) rs)"

definition settle_position :: "(instrument_id, resolution) btree_map \<Rightarrow> unix_nanos option
    \<Rightarrow> (position_key, price) btree_map \<Rightarrow> settlement_report \<Rightarrow> position \<Rightarrow> settlement_report res" where
  "settle_position by_instr simulated_through mks rep p =
     (let leave = (\<lambda>reason. Inr (rep\<lparr>sr_unsettled := sr_unsettled rep @ [(p_instrument p, p_outcome p, reason)]\<rparr>))
      in case bt_get by_instr (p_instrument p) of
           None \<Rightarrow> leave ''no resolution is known for this market''
         | Some r \<Rightarrow>
             (case simulated_through of
                None \<Rightarrow> leave ''the run did not record how far it simulated''
              | Some through \<Rightarrow>
                  if through < observable_at r then leave ''the market resolved after the run ended''
                  else and_then (unrealized_pnl p (settlement_price r (p_outcome p))) (\<lambda>settled.
                       and_then (case bt_get mks (p_instrument p, p_outcome p) of
                                   None \<Rightarrow> Inr None
                                 | Some mark \<Rightarrow> map_ok Some (unrealized_pnl p mark)) (\<lambda>exit.
                       and_then (case exit of Some e \<Rightarrow> money_sub settled e | None \<Rightarrow> Inr settled) (\<lambda>adjustment.
                       and_then (money_add (sr_total_adjustment rep) adjustment) (\<lambda>tot.
                         Inr (rep\<lparr>sr_total_adjustment := tot,
                                  sr_settled := sr_settled rep @ [\<lparr>ps_instrument = p_instrument p,
                                    ps_outcome = p_outcome p, ps_quantity = p_quantity p,
                                    ps_market_exit_pnl = exit, ps_settled_pnl = settled,
                                    ps_adjustment = adjustment\<rparr>]\<rparr>)))))))"

definition settle :: "portfolio \<Rightarrow> resolution list \<Rightarrow> unix_nanos option
    \<Rightarrow> (position_key, price) btree_map \<Rightarrow> settlement_report res" where
  "settle pf rs simulated_through mks =
     and_then (index_resolutions [] rs) (\<lambda>by_instr.
       fold_r (settle_position by_instr simulated_through mks)
         \<lparr>sr_settled = [], sr_unsettled = [], sr_total_adjustment = 0\<rparr> (open_positions pf))"

definition settlement_proceeds :: "qty \<Rightarrow> price \<Rightarrow> money res" where
  "settlement_proceeds quantity price = notional price quantity"

definition validate_resolutions :: "resolution list \<Rightarrow> instrument_set \<Rightarrow> unit res" where
  "validate_resolutions rs instruments =
     fold_r (\<lambda>_ r. case set_get instruments (res_instrument r) of
                     Inl _ \<Rightarrow> Inr () | Inr ins \<Rightarrow> resolution_validate r ins) () rs"

section \<open>A complete set pays exactly one\<close>

text \<open>What the three constructors guarantee.\<close>

definition payout_wf :: "payout \<Rightarrow> bool" where
  "payout_wf p = (case p of
     Winner _ \<Rightarrow> True
   | SplitPayout ps \<Rightarrow> (\<forall>x \<in> set ps. 0 \<le> x \<and> x \<le> SCALE) \<and> wrap64 (sum_list ps) = SCALE
   | Void n \<Rightarrow> 2 \<le> n)"

lemma resolution_constructors_wf:
  "payout_wf (res_payout (resolution_new i w at))"
  "resolution_split i ps at = Inr r \<Longrightarrow> payout_wf (res_payout r)"
  "resolution_void i n at = Inr r \<Longrightarrow> payout_wf (res_payout r)"
  by (auto simp: resolution_new_def resolution_split_def resolution_void_def payout_wf_def list_ex_iff
      PROBABILITY_MAX_def not_less split: if_splits)

lemma sum_list_le_length: "\<forall>x \<in> set ps. 0 \<le> x \<and> x \<le> (b::int) \<Longrightarrow> 0 \<le> sum_list ps \<and> sum_list ps \<le> int (length ps) * b"
  by (induction ps) (auto simp: distrib_right)

lemma sum_nth_or_zero: "sum_list (map (nth_or_zero ps) [0..<length ps]) = sum_list ps"
proof -
  have "map (nth_or_zero ps) [0..<length ps] = map ((!) ps) [0..<length ps]"
    by (simp add: nth_or_zero_def)
  then show ?thesis by (simp add: map_nth)
qed

lemma sum_single: "sum_list (map (\<lambda>i. if i = w then c else 0) [0..<n]) = (if w < n then c else (0::int))"
  by (induction n) auto

text \<open>With fewer than 65536 outcomes the wrapped sum of the payouts is the sum.\<close>

lemma split_sum_exact:
  assumes "payout_wf (SplitPayout ps)" and "length ps < 65536"
  shows "sum_list ps = SCALE"
proof -
  have "0 \<le> sum_list ps \<and> sum_list ps \<le> int (length ps) * SCALE"
    using assms(1) by (intro sum_list_le_length) (simp add: payout_wf_def)
  moreover have "int (length ps) * SCALE \<le> 65536 * SCALE" using assms(2) by (intro mult_right_mono) auto
  ultimately have "in_i64 (sum_list ps)" by (auto simp: int_range SCALE_def)
  with assms(1) show ?thesis by (simp add: payout_wf_def)
qed

lemma nonneg_sum_all_zero:
  "\<forall>x \<in> set xs. 0 \<le> (x::int) \<Longrightarrow> sum_list xs = 0 \<Longrightarrow> \<forall>x \<in> set xs. x = 0"
  using sum_list_nonneg_eq_0_iff [of xs] by simp

lemma winner_loop_zero: "\<forall>x \<in> set ps. x = 0 \<Longrightarrow> winner_loop k w ps = w"
  by (induction ps arbitrary: k) auto

lemma winner_loop_index:
  "winner_loop k w ps = Some i \<Longrightarrow> k + length ps \<le> 65536 \<Longrightarrow> w = Some i \<or> k \<le> i"
proof (induction ps arbitrary: k w)
  case (Cons x ps)
  have step: "winner_loop (Suc k) v ps = Some i \<Longrightarrow> v = Some i \<or> Suc k \<le> i" for v
    using Cons.IH [of "Suc k" v] Cons.prems(2) by simp
  show ?case
    using Cons.prems step [of w] step [of "Some k"] by (cases "x = SCALE") (auto split: if_splits)
qed simp

lemma winner_loop_iff:
  assumes "\<forall>x \<in> set ps. 0 \<le> x" and "sum_list ps = SCALE" and "k + length ps \<le> 65536" and "j < length ps"
  shows "winner_loop k None ps = Some (k + j) \<longleftrightarrow> ps ! j = SCALE"
  using assms
proof (induction ps arbitrary: k j)
  case (Cons x ps)
  show ?case
  proof (cases "x = SCALE")
    case True
    then have zeros: "\<forall>y \<in> set ps. y = 0" using Cons.prems(1,2) by (intro nonneg_sum_all_zero) auto
    then have "winner_loop k None (x # ps) = Some k" using True Cons.prems(3) by (simp add: winner_loop_zero)
    then show ?thesis using True zeros Cons.prems(4) by (cases j) (auto simp: all_set_conv_all_nth)
  next
    case False
    have rest: "\<forall>y \<in> set ps. 0 \<le> y" "0 \<le> x" using Cons.prems(1) by auto
    show ?thesis
    proof (cases "x = 0")
      case True
      then show ?thesis using Cons.IH [of "Suc k" "j - 1"] Cons.prems False rest
        by (cases j) (auto dest: winner_loop_index)
    next
      case nz: False
      have "(x # ps) ! j \<noteq> SCALE"
      proof
        assume eq: "(x # ps) ! j = SCALE"
        with False obtain l where "j = Suc l" "ps ! l = SCALE" by (cases j) auto
        then have "SCALE \<in> set ps" using Cons.prems(4) nth_mem [of l ps] by simp
        then have "SCALE \<le> sum_list ps" using rest(1) by (simp add: member_le_sum_list)
        with Cons.prems(2) nz rest(2) show False by simp
      qed
      with False nz show ?thesis by simp
    qed
  qed
qed simp

text \<open>A void of two or more outcomes pays nobody the whole dollar.\<close>

lemma void_below_scale:
  assumes "2 \<le> n" and "uniform_prices n = Inr ps" and "p \<in> set ps"
  shows "p \<noteq> SCALE"
proof -
  have "SCALE div int n \<le> SCALE div 2" using assms(1) by (intro zdiv_mono2) auto
  moreover have "p \<le> SCALE div int n + 1"
    using assms by (auto simp: uniform_prices_def Let_def sdiv_nonneg_eq split: if_splits)
  ultimately show ?thesis by (simp add: SCALE_def)
qed

lemma winner_iff_pays_one:
  assumes "payout_wf (res_payout r)" and "resolution_validate r ins = Inr ()"
    and "length (outcomes ins) < 65536" and "w < outcome_count ins"
  shows "resolution_winner r = Some w \<longleftrightarrow> settlement_price r w = SCALE"
proof (cases "res_payout r")
  case (Winner x)
  then show ?thesis by (auto simp: resolution_winner_def settlement_price_def)
next
  case (SplitPayout ps)
  have len: "length ps = outcome_count ins" "length ps < 65536"
    using assms(2,3) SplitPayout by (auto simp: resolution_validate_def outcome_count_def split: if_splits)
  have wf: "payout_wf (SplitPayout ps)" using assms(1) SplitPayout by simp
  have "winner_loop 0 None ps = Some (0 + w) \<longleftrightarrow> ps ! w = SCALE"
  proof (rule winner_loop_iff)
    show "\<forall>x \<in> set ps. 0 \<le> x" using wf by (simp add: payout_wf_def)
    show "sum_list ps = SCALE" by (rule split_sum_exact [OF wf len(2)])
  qed (use len assms(4) in simp_all)
  then show ?thesis
    using SplitPayout len(1) assms(4)
    by (simp add: resolution_winner_def settlement_price_def nth_or_zero_def)
next
  case (Void n)
  then have n: "2 \<le> n" using assms(1) by (simp add: payout_wf_def)
  then obtain ps where ps: "uniform_prices n = Inr ps" using uniform_prices_exact [of n] by auto
  then have "nth_or_zero ps w \<noteq> SCALE" using void_below_scale [OF n ps] by (auto simp: nth_or_zero_def)
  with Void ps show ?thesis by (simp add: resolution_winner_def settlement_price_def)
qed

lemma settlement_prices_sum:
  assumes "payout_wf (res_payout r)" and "resolution_validate r ins = Inr ()"
    and "length (outcomes ins) < 65536"
  shows "sum_list (map (settlement_price r) (outcome_ids ins)) = SCALE"
proof (cases "res_payout r")
  case (Winner x)
  then have "settlement_price r = (\<lambda>oc. if oc = x then SCALE else 0)"
    by (simp add: settlement_price_def fun_eq_iff)
  moreover have "x < outcome_count ins"
    using assms(2,3) Winner
    by (auto simp: resolution_validate_def check_outcome_def outcome_def outcome_count_def split: if_splits)
  ultimately show ?thesis by (simp add: sum_single outcome_ids_def)
next
  case (SplitPayout ps)
  have len: "length ps = outcome_count ins" "length ps < 65536"
    using assms(2,3) SplitPayout by (auto simp: resolution_validate_def outcome_count_def split: if_splits)
  have "settlement_price r = nth_or_zero ps" using SplitPayout by (simp add: settlement_price_def fun_eq_iff)
  then show ?thesis
    using split_sum_exact [of ps] sum_nth_or_zero [of ps] len assms(1) SplitPayout
    by (simp add: outcome_ids_def)
next
  case (Void n)
  then have "0 < n" and n: "n = outcome_count ins"
    using assms(1,2) by (auto simp: payout_wf_def resolution_validate_def split: if_splits)
  then obtain ps where ps: "uniform_prices n = Inr ps" "length ps = n" "sum_list ps = SCALE"
    using uniform_prices_exact [of n] by auto
  then have "settlement_price r = nth_or_zero ps" using Void by (simp add: settlement_price_def fun_eq_iff)
  then show ?thesis using sum_nth_or_zero [of ps] ps n by (simp add: outcome_ids_def)
qed

text \<open>
  C19: settlement conserves a complete set. A resolution built by any of the three constructors and
  validated against its market pays, summed over the outcomes of the market, exactly one; and
  \<open>winner\<close> names an outcome exactly when that outcome is paid the whole dollar.
\<close>

theorem complete_set_pays_one:
  assumes "r = resolution_new i w at \<or> resolution_split i ps at = Inr r \<or> resolution_void i n at = Inr r"
    and "resolution_validate r ins = Inr ()" and "length (outcomes ins) < 65536"
  shows "sum_list (map (settlement_price r) (outcome_ids ins)) = SCALE
    \<and> (\<forall>oc < outcome_count ins. resolution_winner r = Some oc \<longleftrightarrow> settlement_price r oc = SCALE)"
proof -
  have "payout_wf (res_payout r)" using assms(1) resolution_constructors_wf by blast
  then show ?thesis using assms settlement_prices_sum winner_iff_pays_one by blast
qed

definition sample_market :: instrument where
  "sample_market = \<lparr>i_id = ''M'', venue = ''V'', i_kind = PredictionMarket, outcomes = [''YES'', ''NO''],
     tick_size = 100000, lot_size = SCALE, settlement_currency = ''USDC'', expiration = None,
     settlement_observable = None, neg_risk = False, price_rule = Tick\<rparr>"

definition sample_split :: resolution where
  "sample_split = \<lparr>res_instrument = ''M'', res_payout = SplitPayout [300000000, 700000000], observable_at = 50\<rparr>"

lemma complete_set_pays_one_witness:
  "binary_market ''M'' ''V'' = Inr sample_market
   \<and> resolution_split ''M'' [300000000, 700000000] 50 = Inr sample_split
   \<and> resolution_validate sample_split sample_market = Inr ()
   \<and> sum_list (map (settlement_price sample_split) (outcome_ids sample_market)) = SCALE"
proof -
  have market: "binary_market ''M'' ''V'' = Inr sample_market"
    by code_simp
  have split: "resolution_split ''M'' [300000000, 700000000] 50 = Inr sample_split"
    and ok: "resolution_validate sample_split sample_market = Inr ()"
    and small: "length (outcomes sample_market) < 65536"
    by (simp_all add: resolution_split_def sample_split_def PROBABILITY_MAX_def SCALE_def wrap64_def
        resolution_validate_def sample_market_def outcome_count_def)
  show ?thesis
    using market split ok complete_set_pays_one [OF disjI2 [OF disjI1 [OF split]] ok small] by simp
qed

section \<open>The report\<close>

definition settleable :: "resolution list \<Rightarrow> unix_nanos option \<Rightarrow> position \<Rightarrow> bool" where
  "settleable rs simulated_through p \<longleftrightarrow>
     (\<exists>r \<in> set rs. res_instrument r = p_instrument p
        \<and> (\<exists>t. simulated_through = Some t \<and> observable_at r \<le> t))"

lemma index_resolutions_get:
  assumes "index_resolutions m rs = Inr m'" and "bt_wf m"
  shows "bt_get m' i = Some r \<longleftrightarrow> bt_get m i = Some r \<or> (r \<in> set rs \<and> res_instrument r = i)"
  using assms
proof (induction rs arbitrary: m)
  case (Cons x rs)
  then have "bt_get m (res_instrument x) = None" and "index_resolutions (bt_insert (res_instrument x) x m) rs = Inr m'"
    by (auto split: if_splits)
  then show ?case using Cons.IH [of "bt_insert (res_instrument x) x m"] Cons.prems(2)
    by (auto simp: bt_get_insert bt_wf_insert)
qed simp

lemma index_resolutions_distinct:
  assumes "index_resolutions m rs = Inr m'" and "bt_wf m"
  shows "distinct (map res_instrument rs) \<and> (\<forall>r \<in> set rs. bt_get m (res_instrument r) = None)"
  using assms
proof (induction rs arbitrary: m)
  case (Cons x rs)
  then have "bt_get m (res_instrument x) = None"
    and "index_resolutions (bt_insert (res_instrument x) x m) rs = Inr m'" by (auto split: if_splits)
  then show ?case using Cons.IH [of "bt_insert (res_instrument x) x m"] Cons.prems(2)
    by (auto simp: bt_get_insert bt_wf_insert split: if_splits)
qed simp

text \<open>What one settled entry records about its position.\<close>

definition entry_of :: "resolution list \<Rightarrow> (position_key, price) btree_map \<Rightarrow> position \<Rightarrow> position_settlement \<Rightarrow> bool" where
  "entry_of rs mks p s \<longleftrightarrow>
     ps_instrument s = p_instrument p \<and> ps_outcome s = p_outcome p \<and> ps_quantity s = p_quantity p
     \<and> (\<exists>r \<in> set rs. res_instrument r = p_instrument p
          \<and> unrealized_pnl p (settlement_price r (p_outcome p)) = Inr (ps_settled_pnl s))
     \<and> (case bt_get mks (p_instrument p, p_outcome p) of
          None \<Rightarrow> ps_market_exit_pnl s = None \<and> ps_adjustment s = ps_settled_pnl s
        | Some mark \<Rightarrow> \<exists>e. unrealized_pnl p mark = Inr e \<and> ps_market_exit_pnl s = Some e
            \<and> ps_adjustment s = ps_settled_pnl s - e)"

lemma settle_position_step:
  assumes "settle_position m through mks rep p = Inr rep'"
    and "\<And>i r. bt_get m i = Some r \<longleftrightarrow> r \<in> set rs \<and> res_instrument r = i"
  shows "if settleable rs through p
    then (\<exists>s. entry_of rs mks p s \<and> sr_settled rep' = sr_settled rep @ [s]
            \<and> sr_unsettled rep' = sr_unsettled rep
            \<and> sr_total_adjustment rep' = sr_total_adjustment rep + ps_adjustment s)
    else (\<exists>why. sr_unsettled rep' = sr_unsettled rep @ [(p_instrument p, p_outcome p, why)]
            \<and> sr_settled rep' = sr_settled rep \<and> sr_total_adjustment rep' = sr_total_adjustment rep)"
proof (cases "bt_get m (p_instrument p)")
  case None
  then have "\<not> settleable rs through p" using assms(2) unfolding settleable_def by (metis option.distinct(1))
  then show ?thesis using assms(1) None by (auto simp: settle_position_def)
next
  case (Some r)
  then have mem: "r \<in> set rs \<and> res_instrument r = p_instrument p" using assms(2) by blast
  have only: "settleable rs through p \<longleftrightarrow> (\<exists>t. through = Some t \<and> observable_at r \<le> t)"
    using Some assms(2) by (auto simp: settleable_def) (metis option.inject)+
  show ?thesis
  proof (cases "\<exists>t. through = Some t \<and> observable_at r \<le> t")
    case False
    then show ?thesis using assms(1) Some only by (auto simp: settle_position_def not_le split: option.splits)
  next
    case True
    then show ?thesis
      using assms(1) Some only mem
      by (cases "bt_get mks (p_instrument p, p_outcome p)")
         (auto simp: settle_position_def entry_of_def result_simps intro!: bexI [of _ r])
  qed
qed

lemma settle_loop:
  assumes "fold_r (settle_position m through mks) rep ps = Inr rep'"
    and "\<And>i r. bt_get m i = Some r \<longleftrightarrow> r \<in> set rs \<and> res_instrument r = i"
  shows "\<exists>es us. sr_settled rep' = sr_settled rep @ es \<and> sr_unsettled rep' = sr_unsettled rep @ us
    \<and> list_all2 (entry_of rs mks) (filter (settleable rs through) ps) es
    \<and> map (\<lambda>(i, oc, why). (i, oc)) us
        = map (\<lambda>p. (p_instrument p, p_outcome p)) (filter (\<lambda>p. \<not> settleable rs through p) ps)
    \<and> sr_total_adjustment rep' = sr_total_adjustment rep + sum_list (map ps_adjustment es)"
  using assms(1)
proof (induction ps arbitrary: rep)
  case Nil
  then show ?case by simp
next
  case (Cons p ps)
  then obtain mid where mid: "settle_position m through mks rep p = Inr mid"
    and rest: "fold_r (settle_position m through mks) mid ps = Inr rep'"
    by (auto simp: result_simps)
  note step = settle_position_step [OF mid assms(2)]
  from Cons.IH [OF rest] obtain es us where
    IH: "sr_settled rep' = sr_settled mid @ es" "sr_unsettled rep' = sr_unsettled mid @ us"
      "list_all2 (entry_of rs mks) (filter (settleable rs through) ps) es"
      "map (\<lambda>(i, oc, why). (i, oc)) us
        = map (\<lambda>p. (p_instrument p, p_outcome p)) (filter (\<lambda>p. \<not> settleable rs through p) ps)"
      "sr_total_adjustment rep' = sr_total_adjustment mid + sum_list (map ps_adjustment es)" by blast
  show ?case
  proof (cases "settleable rs through p")
    case True
    with step obtain s where "entry_of rs mks p s" "sr_settled mid = sr_settled rep @ [s]"
      "sr_unsettled mid = sr_unsettled rep" "sr_total_adjustment mid = sr_total_adjustment rep + ps_adjustment s"
      by auto
    with True IH show ?thesis by (intro exI [of _ "s # es"] exI [of _ us]) simp
  next
    case False
    with step obtain why where "sr_unsettled mid = sr_unsettled rep @ [(p_instrument p, p_outcome p, why)]"
      "sr_settled mid = sr_settled rep" "sr_total_adjustment mid = sr_total_adjustment rep" by auto
    with False IH show ?thesis
      by (intro exI [of _ es] exI [of _ "(p_instrument p, p_outcome p, why) # us"]) simp
  qed
qed

text \<open>
  C16: the settlement report accounts for every open position exactly once, in order. A position is
  settled if and only if a resolution of its market was observable by the time the run had
  simulated through; its entry holds the value at the resolution's payout, the value at the last
  mark and their difference; every other open position is listed as unsettled; and the total is the
  sum of the adjustments. No report is produced from two resolutions of one market.
\<close>

theorem settle_accounts_for_every_position:
  assumes "settle pf rs through mks = Inr rep"
  shows "list_all2 (entry_of rs mks) (filter (settleable rs through) (open_positions pf)) (sr_settled rep)
    \<and> map (\<lambda>(i, oc, why). (i, oc)) (sr_unsettled rep)
        = map (\<lambda>p. (p_instrument p, p_outcome p))
            (filter (\<lambda>p. \<not> settleable rs through p) (open_positions pf))
    \<and> sr_total_adjustment rep = sum_list (map ps_adjustment (sr_settled rep))
    \<and> (was_applied rep \<longleftrightarrow> (\<exists>p \<in> set (open_positions pf). settleable rs through p))"
proof -
  from assms obtain m where m: "index_resolutions [] rs = Inr m"
    and loop: "fold_r (settle_position m through mks)
      \<lparr>sr_settled = [], sr_unsettled = [], sr_total_adjustment = 0\<rparr> (open_positions pf) = Inr rep"
    by (auto simp: settle_def result_simps)
  have get: "bt_get m i = Some r \<longleftrightarrow> r \<in> set rs \<and> res_instrument r = i" for i r
    using index_resolutions_get [OF m] by simp
  from settle_loop [OF loop get]
  have all: "list_all2 (entry_of rs mks) (filter (settleable rs through) (open_positions pf)) (sr_settled rep)
    \<and> map (\<lambda>(i, oc, why). (i, oc)) (sr_unsettled rep)
        = map (\<lambda>p. (p_instrument p, p_outcome p))
            (filter (\<lambda>p. \<not> settleable rs through p) (open_positions pf))
    \<and> sr_total_adjustment rep = sum_list (map ps_adjustment (sr_settled rep))" by auto
  then have "sr_settled rep = [] \<longleftrightarrow> filter (settleable rs through) (open_positions pf) = []"
    using list_all2_lengthD by fastforce
  with all index_resolutions_distinct [OF m] show ?thesis by (auto simp: was_applied_def filter_empty_conv)
qed

definition sample_holding :: portfolio where
  "sample_holding = \<lparr>positions = [((''M'', 1), (position_new ''M'' 1)\<lparr>p_quantity := 2 * SCALE,
     p_average_price := 500000000, p_fill_count := 1\<rparr>)], marks = []\<rparr>"

lemma settle_accounts_for_every_position_witness:
  "\<exists>rep. settle sample_holding [sample_split] (Some 60) [((''M'', 1), 600000000)] = Inr rep
     \<and> was_applied rep \<and> sr_unsettled rep = [] \<and> sr_total_adjustment rep = 200000000"
proof -
  have eval: "settle sample_holding [sample_split] (Some 60) [((''M'', 1), 600000000)]
      = Inr \<lparr>sr_settled = [\<lparr>ps_instrument = ''M'', ps_outcome = 1, ps_quantity = 2 * SCALE,
          ps_market_exit_pnl = Some 200000000, ps_settled_pnl = 400000000, ps_adjustment = 200000000\<rparr>],
          sr_unsettled = [], sr_total_adjustment = 200000000\<rparr>"
    by code_simp
  have "\<exists>p \<in> set (open_positions sample_holding). settleable [sample_split] (Some 60) p"
    by (simp add: sample_holding_def open_positions_def settleable_def sample_split_def is_flat_def position_new_def)
  with settle_accounts_for_every_position [OF eval] show ?thesis
    unfolding eval by auto
qed

end
