(* ===== verification/Display.thy ===== *)
theory Display
  imports FixedPoint
begin

text \<open>
  The text form of a fixed-point number (\<open>impl Display\<close> in \<open>h5i-db-backtest/src/types.rs\<close>), and the
  proof that it loses nothing: a reader of decimal text gets the number back.
\<close>

section \<open>Printing\<close>

definition digit :: "nat \<Rightarrow> char" where
  "digit d = char_of (48 + d)"

fun decimal :: "nat \<Rightarrow> string" where
  "decimal n = (if n < 10 then [digit n] else decimal (n div 10) @ [digit (n mod 10)])"

declare decimal.simps [simp del]

text \<open>An integer as \<open>write!\<close> prints it.\<close>

definition show_int :: "int \<Rightarrow> string" where
  "show_int x = (if x < 0 then ''-'' else []) @ decimal (nat \<bar>x\<bar>)"

text \<open>\<open>trim_end_matches\<close> on the character \<open>0\<close>, and the zero padding \<open>{:09}\<close>.\<close>

definition trim_end_zeros :: "string \<Rightarrow> string" where
  "trim_end_zeros t = rev (dropWhile (\<lambda>c. c = CHR ''0'') (rev t))"

definition pad9 :: "nat \<Rightarrow> string" where
  "pad9 n = replicate (9 - length (decimal n)) (CHR ''0'') @ decimal n"

definition display :: "raw \<Rightarrow> string" where
  "display x =
     (let negative = x < 0;
          magnitude = nat \<bar>x\<bar>;
          whole = magnitude div nat SCALE;
          frac = magnitude mod nat SCALE
      in (if negative then ''-'' else [])
         @ (if frac = 0 then decimal whole
            else decimal whole @ ''.'' @ trim_end_zeros (pad9 frac)))"

section \<open>Reading it back\<close>

definition read_digits :: "string \<Rightarrow> nat" where
  "read_digits t = foldl (\<lambda>a c. 10 * a + (of_char c - 48)) 0 t"

definition pad_right :: "string \<Rightarrow> string" where
  "pad_right t = t @ replicate (9 - length t) (CHR ''0'')"

definition read_magnitude :: "string \<Rightarrow> int" where
  "read_magnitude t =
     (let whole = takeWhile (\<lambda>c. c \<noteq> CHR ''.'') t;
          frac = drop 1 (dropWhile (\<lambda>c. c \<noteq> CHR ''.'') t)
      in int (read_digits whole) * SCALE + int (read_digits (pad_right frac)))"

definition read_fixed :: "string \<Rightarrow> raw" where
  "read_fixed t = (if t \<noteq> [] \<and> hd t = CHR ''-'' then - read_magnitude (tl t) else read_magnitude t)"

lemma of_char_digit: "d < 10 \<Longrightarrow> (of_char (digit d) :: nat) = 48 + d"
  by (simp add: digit_def)

lemma decimal_digits: "c \<in> set (decimal n) \<Longrightarrow> \<exists>d < 10. c = digit d"
proof (induction n rule: decimal.induct)
  case (1 n)
  then show ?case
    by (cases "n < 10") (auto simp: decimal.simps [of n] intro: exI [of _ n] exI [of _ "n mod 10"])
qed

lemma digit_not_mark:
  assumes "d < 10"
  shows "digit d \<noteq> CHR ''.'' \<and> digit d \<noteq> CHR ''-''"
proof -
  have "(of_char (digit d) :: nat) \<ge> 48" using of_char_digit [OF assms] by simp
  moreover have "(of_char (CHR ''.'') :: nat) = 46" "(of_char (CHR ''-'') :: nat) = 45" by simp_all
  ultimately show ?thesis by force
qed

lemma decimal_not_mark: "c \<in> set (decimal n) \<Longrightarrow> c \<noteq> CHR ''.'' \<and> c \<noteq> CHR ''-''"
  by (metis decimal_digits digit_not_mark)

lemma decimal_nonempty [simp]: "decimal n \<noteq> []"
  by (subst decimal.simps) simp

lemma read_digits_snoc: "read_digits (t @ [c]) = 10 * read_digits t + (of_char c - 48)"
  by (simp add: read_digits_def)

lemma read_digits_decimal: "read_digits (decimal n) = n"
proof (induction n rule: decimal.induct)
  case (1 n)
  then show ?case
    by (cases "n < 10")
       (simp_all add: decimal.simps [of n] read_digits_snoc of_char_digit, simp add: read_digits_def of_char_digit)
qed

lemma read_digits_zeros: "read_digits (replicate k (CHR ''0'') @ t) = read_digits t"
  by (induction k) (simp_all add: read_digits_def)

lemma length_decimal: "n < 10 ^ k \<Longrightarrow> 0 < k \<Longrightarrow> length (decimal n) \<le> k"
proof (induction n arbitrary: k rule: decimal.induct)
  case (1 n)
  show ?case
  proof (cases "n < 10")
    case True
    then show ?thesis using 1 by (simp add: decimal.simps [of n])
  next
    case False
    with "1.prems" obtain k' where k: "k = Suc k'" "0 < k'"
      by (cases k; cases "k - 1") auto
    then have "n div 10 < 10 ^ k'" using "1.prems" by (simp add: less_mult_imp_div_less mult.commute)
    with 1 False k show ?thesis by (simp add: decimal.simps [of n])
  qed
qed

lemma trim_end_zeros_split:
  "\<exists>k. t = trim_end_zeros t @ replicate k (CHR ''0'')"
proof -
  have "takeWhile (\<lambda>c. c = CHR ''0'') (rev t) = replicate (length (takeWhile (\<lambda>c. c = CHR ''0'') (rev t))) (CHR ''0'')"
    by (rule replicate_eqI) (auto dest: set_takeWhileD)
  moreover have "t = trim_end_zeros t @ rev (takeWhile (\<lambda>c. c = CHR ''0'') (rev t))"
    unfolding trim_end_zeros_def rev_append [symmetric] takeWhile_dropWhile_id by simp
  ultimately show ?thesis by (metis rev_replicate)
qed

lemma pad_right_trim: "length t = 9 \<Longrightarrow> pad_right (trim_end_zeros t) = t"
  using trim_end_zeros_split [of t] by (auto simp: pad_right_def) (metis add_diff_cancel_left' length_append length_replicate)

lemma length_pad9: "n < nat SCALE \<Longrightarrow> length (pad9 n) = 9"
  using length_decimal [of n 9] by (simp add: pad9_def SCALE_def)

lemma takeWhile_decimal:
  "takeWhile (\<lambda>c. c \<noteq> CHR ''.'') (decimal n) = decimal n"
  "dropWhile (\<lambda>c. c \<noteq> CHR ''.'') (decimal n) = []"
  "takeWhile (\<lambda>c. c \<noteq> CHR ''.'') (decimal n @ CHR ''.'' # t) = decimal n"
  "dropWhile (\<lambda>c. c \<noteq> CHR ''.'') (decimal n @ CHR ''.'' # t) = CHR ''.'' # t"
  using decimal_not_mark [of _ n]
  by (simp_all add: takeWhile_eq_all_conv dropWhile_eq_Nil_conv takeWhile_append2 dropWhile_append2)

lemma read_zeros: "read_digits (pad_right []) = 0"
  by (simp add: pad_right_def read_digits_def numeral_eq_Suc)

lemma read_magnitude_display:
  fixes m :: nat
  defines "t \<equiv> (if m mod nat SCALE = 0 then decimal (m div nat SCALE)
             else decimal (m div nat SCALE) @ ''.'' @ trim_end_zeros (pad9 (m mod nat SCALE)))"
  shows "read_magnitude t = int m"
proof -
  have pos: "0 < nat SCALE" by (simp add: SCALE_def)
  have frac: "read_digits (pad_right (trim_end_zeros (pad9 (m mod nat SCALE)))) = m mod nat SCALE"
    by (subst pad_right_trim [OF length_pad9]) (simp_all add: pos pad9_def read_digits_zeros read_digits_decimal)
  have split: "int (m div nat SCALE) * SCALE + int (m mod nat SCALE) = int m"
    by (simp add: zdiv_int zmod_int)
  show ?thesis
  proof (cases "m mod nat SCALE = 0")
    case True
    then show ?thesis using split
      by (simp add: t_def read_magnitude_def takeWhile_decimal read_digits_decimal read_zeros)
  next
    case False
    then show ?thesis using split frac
      by (simp add: t_def read_magnitude_def takeWhile_decimal read_digits_decimal)
  qed
qed

lemma read_fixed_display: "read_fixed (display x) = x"
proof -
  define t where "t = (if nat \<bar>x\<bar> mod nat SCALE = 0 then decimal (nat \<bar>x\<bar> div nat SCALE)
    else decimal (nat \<bar>x\<bar> div nat SCALE) @ ''.'' @ trim_end_zeros (pad9 (nat \<bar>x\<bar> mod nat SCALE)))"
  have disp: "display x = (if x < 0 then CHR ''-'' # t else t)"
    by (simp add: display_def t_def Let_def)
  have mag: "read_magnitude t = \<bar>x\<bar>"
    using read_magnitude_display [of "nat \<bar>x\<bar>"] by (simp add: t_def)
  have "t \<noteq> []" by (simp add: t_def)
  moreover have "hd t \<noteq> CHR ''-''"
    using decimal_not_mark [of "hd (decimal (nat \<bar>x\<bar> div nat SCALE))" "nat \<bar>x\<bar> div nat SCALE"]
    by (simp add: t_def hd_in_set)
  ultimately show ?thesis using mag by (simp add: read_fixed_def disp)
qed

text \<open>
  C35: the printed form of a fixed-point number is lossless: reading the decimal text back gives the
  number that was printed, for every raw value.
\<close>

theorem display_round_trip: "read_fixed (display x) = x"
  by (rule read_fixed_display)

end
