(* ===== verification/Execution.thy ===== *)
theory Execution
  imports Orders Display
begin

text \<open>
  The execution client (\<open>h5i-db-backtest/src/execution.rs\<close>): the instructions that leave a strategy,
  the simulator's log of them and the text two logs are compared on.
\<close>

section \<open>Instructions\<close>

datatype execution_command =
    Submit order
  | Cancel order_id
  | Amend order_id "qty option" "price option"

fun command_order_id :: "execution_command \<Rightarrow> order_id" where
  "command_order_id (Submit ord) = o_id ord"
| "command_order_id (Cancel i) = i"
| "command_order_id (Amend i _ _) = i"

fun command_kind :: "execution_command \<Rightarrow> string" where
  "command_kind (Submit _) = ''submit''"
| "command_kind (Cancel _) = ''cancel''"
| "command_kind (Amend _ _ _) = ''amend''"

section \<open>The simulator's client\<close>

record simulated_execution =
  sim_venue :: string
  sim_log :: "(unix_nanos \<times> execution_command) list"

definition simulated_execution_new :: "string \<Rightarrow> simulated_execution" where
  "simulated_execution_new ven = \<lparr>sim_venue = ven, sim_log = []\<rparr>"

definition sim_send :: "simulated_execution \<Rightarrow> execution_command \<Rightarrow> unix_nanos \<Rightarrow> simulated_execution \<times> unit res" where
  "sim_send client command ts = (client\<lparr>sim_log := sim_log client @ [(ts, command)]\<rparr>, Inr ())"

definition sim_sent :: "simulated_execution \<Rightarrow> nat" where
  "sim_sent client = length (sim_log client)"

definition show_order_id :: "order_id \<Rightarrow> string" where
  "show_order_id i = ''O'' @ decimal i"

definition show_or_dash :: "raw option \<Rightarrow> string" where
  "show_or_dash v = (case v of Some x \<Rightarrow> display x | None \<Rightarrow> ''-'')"

definition fingerprint_line :: "unix_nanos \<times> execution_command \<Rightarrow> string" where
  "fingerprint_line e = (case e of (ts, command) \<Rightarrow>
     (case command of
        Submit ord \<Rightarrow> show_int ts @ '' submit '' @ o_instrument ord @ '' '' @ decimal (o_outcome ord)
          @ '' '' @ side_as_str (o_side ord) @ '' '' @ display (o_quantity ord)
      | Cancel i \<Rightarrow> show_int ts @ '' cancel '' @ show_order_id i
      | Amend i quantity lim \<Rightarrow> show_int ts @ '' amend '' @ show_order_id i
          @ '' qty='' @ show_or_dash quantity @ '' px='' @ show_or_dash lim))"

definition fingerprint :: "simulated_execution \<Rightarrow> string list" where
  "fingerprint client = map fingerprint_line (sim_log client)"

section \<open>A client as its callers see it\<close>

text \<open>
  The contract of the \<open>ExecutionClient\<close> trait: sending never loses, reorders or rewrites an
  instruction. What follows holds of any client that keeps it.
\<close>

locale execution_client =
  fixes send :: "'c \<Rightarrow> execution_command \<Rightarrow> unix_nanos \<Rightarrow> 'c \<times> unit res"
    and sent :: "'c \<Rightarrow> nat"
    and recorded :: "'c \<Rightarrow> (unix_nanos \<times> execution_command) list"
  assumes send_records: "send c cmd ts = (c', Inr ()) \<Longrightarrow> recorded c' = recorded c @ [(ts, cmd)]"
    and sent_counts: "sent c = length (recorded c)"
begin

definition send_all :: "'c \<Rightarrow> (unix_nanos \<times> execution_command) list \<Rightarrow> 'c res" where
  "send_all c cmds = fold_r (\<lambda>c (ts, cmd). case send c cmd ts of (c', r) \<Rightarrow> and_then r (\<lambda>_. Inr c')) c cmds"

lemma send_all_records:
  "send_all c cmds = Inr c' \<Longrightarrow> recorded c' = recorded c @ cmds \<and> sent c' = sent c + length cmds"
proof (induction cmds arbitrary: c)
  case Nil
  then show ?case by (simp add: send_all_def)
next
  case (Cons e cmds)
  obtain ts cmd where e: "e = (ts, cmd)" by force
  obtain c1 r where one: "send c cmd ts = (c1, r)" by force
  with Cons.prems e have "r = Inr ()" and "send_all c1 cmds = Inr c'"
    by (auto simp: send_all_def result_simps)
  with one e Cons.IH [of c1] show ?case using send_records [of c cmd ts c1] by (simp add: sent_counts)
qed

end

interpretation sim: execution_client sim_send sim_sent sim_log
  by unfold_locales (auto simp: sim_send_def sim_sent_def)

text \<open>One call after the other on the simulator; it never refuses.\<close>

definition sim_send_all :: "simulated_execution \<Rightarrow> (unix_nanos \<times> execution_command) list \<Rightarrow> simulated_execution" where
  "sim_send_all client cmds = foldl (\<lambda>c (ts, cmd). fst (sim_send c cmd ts)) client cmds"

lemma sim_send_all_ok: "sim.send_all client cmds = Inr (sim_send_all client cmds)"
  by (induction cmds arbitrary: client)
     (auto simp: sim.send_all_def sim_send_all_def sim_send_def split_beta)

lemma decimal_inject: "decimal m = decimal n \<longleftrightarrow> m = n"
  by (metis read_digits_decimal)

lemma display_inject: "display x = display y \<longleftrightarrow> x = y"
  by (metis read_fixed_display)

section \<open>What a fingerprint distinguishes\<close>

datatype seen_command =
    SeenSubmit instrument_id outcome_id side qty
  | SeenCancel order_id
  | SeenAmend order_id "qty option" "price option"

fun seen :: "execution_command \<Rightarrow> seen_command" where
  "seen (Submit ord) = SeenSubmit (o_instrument ord) (o_outcome ord) (o_side ord) (o_quantity ord)"
| "seen (Cancel i) = SeenCancel i"
| "seen (Amend i quantity lim) = SeenAmend i quantity lim"

fun spaceless :: "execution_command \<Rightarrow> bool" where
  "spaceless (Submit ord) = (CHR '' '' \<notin> set (o_instrument ord))"
| "spaceless _ = True"

lemma sep_inject:
  "c \<notin> set a \<Longrightarrow> c \<notin> set b \<Longrightarrow> a @ c # x = b @ c # y \<longleftrightarrow> a = b \<and> x = y"
proof (induction a arbitrary: b)
  case Nil
  then show ?case by (cases b) auto
next
  case (Cons u a)
  then show ?case by (cases b) auto
qed

lemma digit_not_space: "d < 10 \<Longrightarrow> digit d \<noteq> CHR '' ''"
proof -
  assume "d < 10"
  then have "(of_char (digit d) :: nat) \<ge> 48" using of_char_digit by simp
  moreover have "(of_char (CHR '' '') :: nat) = 32" by simp
  ultimately show ?thesis by force
qed

lemma no_space_decimal [simp]: "CHR '' '' \<notin> set (decimal n)"
  by (metis decimal_digits digit_not_space)

lemma no_space_show_int [simp]: "CHR '' '' \<notin> set (show_int x)"
  by (simp add: show_int_def)

lemma set_trim_pad9: "set (trim_end_zeros (pad9 n)) \<subseteq> {CHR ''0''} \<union> set (decimal n)"
  by (auto simp: trim_end_zeros_def pad9_def dest!: set_dropWhileD split: if_splits)

lemma no_space_trim [simp]: "CHR '' '' \<notin> set (trim_end_zeros (pad9 n))"
  using set_trim_pad9 [of n] no_space_decimal [of n] by auto

lemma no_space_display [simp]: "CHR '' '' \<notin> set (display x)"
  by (simp add: display_def Let_def)

lemma display_not_dash: "display x \<noteq> ''-''"
proof -
  have "t = [] \<or> decimal n @ t \<noteq> ''-''" for n t by (cases "decimal n") auto
  moreover have "decimal n \<noteq> ''-''" for n using decimal_not_mark [of "CHR ''-''" n] by auto
  ultimately show ?thesis by (auto simp: display_def Let_def)
qed

lemma no_space_show_or_dash [simp]: "CHR '' '' \<notin> set (show_or_dash v)"
  by (simp add: show_or_dash_def split: option.splits)

lemma show_or_dash_inject: "show_or_dash u = show_or_dash v \<longleftrightarrow> u = v"
  using display_not_dash by (auto simp: show_or_dash_def display_inject split: option.splits) metis+

lemma show_int_inject: "show_int x = show_int y \<longleftrightarrow> x = y"
proof
  assume eq: "show_int x = show_int y"
  have "hd (decimal n) \<noteq> CHR ''-''" for n using decimal_not_mark [of "hd (decimal n)" n] by simp
  then have "x < 0 \<longleftrightarrow> y < 0" using eq by (auto simp: show_int_def split: if_splits) (metis list.sel(1))+
  with eq show "x = y" by (auto simp: show_int_def decimal_inject nat_eq_iff split: if_splits)
qed simp

lemma no_space_side [simp]: "CHR '' '' \<notin> set (side_as_str s)"
  by (cases s) simp_all

lemma side_as_str_inject: "side_as_str s = side_as_str s' \<longleftrightarrow> s = s'"
  by (cases s; cases s') simp_all

lemma show_order_id_facts [simp]:
  "CHR '' '' \<notin> set (show_order_id i)" "show_order_id i = show_order_id j \<longleftrightarrow> i = j"
  by (simp_all add: show_order_id_def decimal_inject)

lemma fingerprint_line_iff:
  assumes "spaceless (snd e)" and "spaceless (snd e')"
  shows "fingerprint_line e = fingerprint_line e' \<longleftrightarrow> fst e = fst e' \<and> seen (snd e) = seen (snd e')"
proof -
  obtain ts cmd where e: "e = (ts, cmd)" by force
  obtain ts' cmd' where e': "e' = (ts', cmd')" by force
  show ?thesis
    using assms
    by (cases cmd; cases cmd')
       (auto simp: e e' fingerprint_line_def sep_inject show_int_inject display_inject decimal_inject
          show_or_dash_inject side_as_str_inject)
qed

lemma fingerprint_iff:
  assumes "\<forall>e \<in> set es. spaceless (snd e)" and "\<forall>e \<in> set es'. spaceless (snd e)"
  shows "map fingerprint_line es = map fingerprint_line es'
    \<longleftrightarrow> map (\<lambda>(ts, cmd). (ts, seen cmd)) es = map (\<lambda>(ts, cmd). (ts, seen cmd)) es'"
  using assms
proof (induction es arbitrary: es')
  case (Cons e es)
  then show ?case by (cases es') (auto simp: fingerprint_line_iff split_beta)
qed (auto simp: eq_commute)

text \<open>
  C34: reconciling two runs. A simulator's log is exactly the instructions it was sent, in order, and
  two simulators (whatever their venues are called) whose instruments are named without spaces
  compare equal exactly when they were sent, at the same times, the same cancels and amendments and
  submissions agreeing in instrument, outcome, side and quantity.
\<close>

theorem fingerprint_reconciles:
  fixes v v' :: string
  assumes "\<forall>e \<in> set cmds. spaceless (snd e)" and "\<forall>e \<in> set cmds'. spaceless (snd e)"
  defines "a \<equiv> sim_send_all (simulated_execution_new v) cmds"
    and "b \<equiv> sim_send_all (simulated_execution_new v') cmds'"
  shows "sim_log a = cmds \<and> sim_sent a = length cmds
    \<and> (fingerprint a = fingerprint b
        \<longleftrightarrow> map (\<lambda>(ts, cmd). (ts, seen cmd)) cmds = map (\<lambda>(ts, cmd). (ts, seen cmd)) cmds')"
proof -
  have "sim_log a = cmds" "sim_sent a = length cmds" "sim_log b = cmds'"
    using sim.send_all_records [OF sim_send_all_ok, of "simulated_execution_new v" cmds]
      sim.send_all_records [OF sim_send_all_ok, of "simulated_execution_new v'" cmds']
    by (simp_all add: a_def b_def simulated_execution_new_def sim_sent_def)
  with fingerprint_iff [OF assms(1,2)] show ?thesis by (simp add: fingerprint_def)
qed

lemma fingerprint_reconciles_witness:
  "fingerprint (sim_send_all (simulated_execution_new ''sim'') [(5, Cancel 1), (7, Amend 2 (Some 5000000000) None)])
   \<noteq> fingerprint (sim_send_all (simulated_execution_new ''live'') [(5, Cancel 1), (7, Amend 2 None None)])"
  using fingerprint_reconciles [of "[(5, Cancel 1), (7, Amend 2 (Some 5000000000) None)]"
      "[(5, Cancel 1), (7, Amend 2 None None)]" "''sim''" "''live''"]
  by simp

text \<open>
  What a submission's line leaves out. Submissions that differ in the kind of order, its limit
  price, its time in force, its trigger or its flags have equal fingerprints.
\<close>

theorem fingerprint_ignores_limit:
  "fingerprint (sim_send_all (simulated_execution_new v)
      [(ts, Submit (ord\<lparr>o_kind := k, o_time_in_force := tif, o_trigger := t, o_reduce_only := ro, o_post_only := po\<rparr>))])
   = fingerprint (sim_send_all (simulated_execution_new v) [(ts, Submit ord)])"
  by (simp add: fingerprint_def sim_send_all_def sim_send_def simulated_execution_new_def fingerprint_line_def)

end
