(* ===== verification/Engine_Base.thy ===== *)
theory Engine_Base
  imports Instruments Positions Book
begin

text \<open>
  The foundations of the run kernel (\<open>h5i-db-backtest/src/engine.rs\<close>, first part): outcomes of an
  engine operation, the dense slots of instruments and outcomes, and the index of resting orders.

  An operation of the engine ends in one of three ways. \<open>Some (Inr x)\<close> is a normal return,
  \<open>Some (Inl e)\<close> an error that \<open>?\<close> carries to the caller of \<open>run\<close> (no code of the engine catches
  one, so the state left behind is not modelled), and \<open>None\<close> is a panic or a loop that never ends.
\<close>

section \<open>Outcomes of an operation\<close>

type_synonym 'a exec = "'a res option"

abbreviation ok :: "'a \<Rightarrow> 'a exec" where
  "ok x \<equiv> Some (Inr x)"

definition x_bind :: "'a exec \<Rightarrow> ('a \<Rightarrow> 'b exec) \<Rightarrow> 'b exec" where
  "x_bind m f = (case m of None \<Rightarrow> None | Some (Inl e) \<Rightarrow> Some (Inl e) | Some (Inr x) \<Rightarrow> f x)"

lemma x_bind_simps [simp]:
  "x_bind None f = None" "x_bind (Some (Inl e)) f = Some (Inl e)" "x_bind (Some (Inr x)) f = f x"
  by (simp_all add: x_bind_def)

lemma x_bind_cong [fundef_cong]:
  "m = m' \<Longrightarrow> (\<And>x. m' = ok x \<Longrightarrow> f x = f' x) \<Longrightarrow> x_bind m f = x_bind m' f'"
  by (auto simp: x_bind_def split: option.splits sum.splits)

lemma x_bind_ok_iff [result_simps]:
  "x_bind m f = ok y \<longleftrightarrow> (\<exists>x. m = ok x \<and> f x = ok y)"
  by (auto simp: x_bind_def split: option.splits sum.splits)

lemma x_bind_panic_iff:
  "x_bind m f = None \<longleftrightarrow> m = None \<or> (\<exists>x. m = ok x \<and> f x = None)"
  by (auto simp: x_bind_def split: option.splits sum.splits)

lemma x_bind_assoc: "x_bind (x_bind m f) g = x_bind m (\<lambda>x. x_bind (f x) g)"
  by (auto simp: x_bind_def split: option.splits sum.splits)

definition x_map :: "('a \<Rightarrow> 'b) \<Rightarrow> 'a exec \<Rightarrow> 'b exec" where
  "x_map f m = map_option (map_ok f) m"

lemma x_map_ok_iff [result_simps]: "x_map f m = ok y \<longleftrightarrow> (\<exists>x. m = ok x \<and> y = f x)"
  by (auto simp: x_map_def result_simps)

lemma x_map_panic_iff [simp]: "x_map f m = None \<longleftrightarrow> m = None"
  by (simp add: x_map_def)

lemma x_map_simps [simp]: "x_map f (ok x) = ok (f x)" "x_map f (Some (Inl e)) = Some (Inl e)" "x_map f None = None"
  by (simp_all add: x_map_def)

text \<open>A loop over a list.\<close>

primrec fold_x :: "('s \<Rightarrow> 'a \<Rightarrow> 's exec) \<Rightarrow> 's \<Rightarrow> 'a list \<Rightarrow> 's exec" where
  "fold_x f s [] = ok s"
| "fold_x f s (x # xs) = x_bind (f s x) (\<lambda>s'. fold_x f s' xs)"

lemma fold_x_append: "fold_x f s (xs @ ys) = x_bind (fold_x f s xs) (\<lambda>s'. fold_x f s' ys)"
  by (induction xs arbitrary: s) (auto simp: x_bind_assoc)

lemma fold_x_induct:
  assumes "fold_x f s xs = ok s'" and "R s"
    and "\<And>s x s''. x \<in> set xs \<Longrightarrow> R s \<Longrightarrow> f s x = ok s'' \<Longrightarrow> R s''"
  shows "R s'"
  using assms
proof (induction xs arbitrary: s)
  case Nil
  then show ?case by simp
next
  case (Cons x xs)
  from Cons.prems(1) obtain u where u: "f s x = ok u" "fold_x f u xs = ok s'"
    by (auto simp: result_simps)
  with Cons.prems have "R u" by (meson list.set_intros(1))
  with u Cons.IH Cons.prems(3) show ?case by (meson list.set_intros(2))
qed

lemma fold_x_no_panic:
  assumes "R s" and "\<And>s x s'. x \<in> set xs \<Longrightarrow> R s \<Longrightarrow> f s x = ok s' \<Longrightarrow> R s'"
    and "\<And>s x. x \<in> set xs \<Longrightarrow> R s \<Longrightarrow> f s x \<noteq> None"
  shows "fold_x f s xs \<noteq> None"
  using assms
proof (induction xs arbitrary: s)
  case (Cons x xs)
  have "fold_x f u xs \<noteq> None" if "f s x = ok u" for u
  proof (rule Cons.IH)
    show "R u" using Cons.prems(1,2) that by (meson list.set_intros(1))
  qed (use Cons.prems(2,3) in auto)
  moreover have "f s x \<noteq> None" using Cons.prems(1,3) by simp
  ultimately show ?case by (auto simp: x_bind_panic_iff)
qed simp

section \<open>Ordered sets\<close>

type_synonym 'k btree_set = "'k list"

definition bs_insert :: "'k::linorder \<Rightarrow> 'k btree_set \<Rightarrow> 'k btree_set" where
  "bs_insert x s = (if x \<in> set s then s else insort x s)"

lemma set_bs_insert [simp]: "set (bs_insert x s) = insert x (set s)"
  by (auto simp: bs_insert_def set_insort_key)

lemma bs_insert_wf: "sorted s \<and> distinct s \<Longrightarrow> sorted (bs_insert x s) \<and> distinct (bs_insert x s)"
  by (auto simp: bs_insert_def sorted_insort distinct_insort)

section \<open>Slots\<close>

type_synonym slot = nat

definition slot_missing :: slot where "slot_missing = 4294967295"

record slots =
  sl_by_instrument :: "(instrument_id, nat \<times> nat) btree_map"
  sl_back :: "(instrument_id \<times> outcome_id) list"

definition slots_add :: "instrument_set \<Rightarrow> slots \<Rightarrow> instrument_id \<Rightarrow> slots" where
  "slots_add instruments sl i =
     (case set_get instruments i of
        Inl _ \<Rightarrow> sl
      | Inr ins \<Rightarrow>
          let n = outcome_count ins;
              base = length (sl_back sl) mod 2 ^ 32
          in \<lparr>sl_by_instrument = bt_insert i (base, n) (sl_by_instrument sl),
              sl_back = sl_back sl @ map (\<lambda>oc. (i, oc)) (outcome_ids ins)\<rparr>)"

definition slots_build :: "instrument_set \<Rightarrow> slots" where
  "slots_build instruments =
     foldl (slots_add instruments) \<lparr>sl_by_instrument = [], sl_back = []\<rparr> (set_ids instruments)"

definition slots_resolve :: "slots \<Rightarrow> instrument_id \<Rightarrow> outcome_id \<Rightarrow> slot res" where
  "slots_resolve sl i oc =
     (case bt_get (sl_by_instrument sl) i of
        None \<Rightarrow> Inl (UnknownInstrument i)
      | Some (base, n) \<Rightarrow>
          if oc \<ge> n then Inl (UnknownOutcome i oc n) else Inr ((base + oc) mod 2 ^ 32))"

definition slots_key :: "slots \<Rightarrow> instrument_id \<Rightarrow> outcome_id \<Rightarrow> slot" where
  "slots_key sl i oc =
     (case bt_get (sl_by_instrument sl) i of
        Some (base, n) \<Rightarrow> if oc < n then (base + oc) mod 2 ^ 32 else slot_missing
      | None \<Rightarrow> slot_missing)"

definition slots_all_for :: "slots \<Rightarrow> instrument_id \<Rightarrow> slot list" where
  "slots_all_for sl i =
     (case bt_get (sl_by_instrument sl) i of
        Some (base, n) \<Rightarrow> map (\<lambda>stp. (base + stp) mod 2 ^ 32) [0..<n]
      | None \<Rightarrow> [])"

definition slots_name :: "slots \<Rightarrow> slot \<Rightarrow> instrument_id \<times> outcome_id" where
  "slots_name sl slot = (if slot < length (sl_back sl) then sl_back sl ! slot else (''<unknown>'', 0))"

section \<open>The index of resting orders\<close>

record queue_levels =
  ql_buys :: "(raw, order_id list) btree_map"
  ql_sells :: "(raw, order_id list) btree_map"

type_synonym resting_index = "(slot, queue_levels) btree_map"

definition ql_empty :: queue_levels where
  "ql_empty = \<lparr>ql_buys = [], ql_sells = []\<rparr>"

definition ql_side :: "side \<Rightarrow> queue_levels \<Rightarrow> (raw, order_id list) btree_map" where
  "ql_side s m = (case s of Buy \<Rightarrow> ql_buys m | Sell \<Rightarrow> ql_sells m)"

definition ql_set :: "side \<Rightarrow> (raw, order_id list) btree_map \<Rightarrow> queue_levels \<Rightarrow> queue_levels" where
  "ql_set s levels m = (case s of Buy \<Rightarrow> m\<lparr>ql_buys := levels\<rparr> | Sell \<Rightarrow> m\<lparr>ql_sells := levels\<rparr>)"

definition ri_insert :: "resting_index \<Rightarrow> order \<Rightarrow> slot \<Rightarrow> resting_index" where
  "ri_insert idx ord slot =
     (case limit_price ord of
        None \<Rightarrow> idx
      | Some lim \<Rightarrow>
          let market = (case bt_get idx slot of None \<Rightarrow> ql_empty | Some m \<Rightarrow> m);
              levels = ql_side (o_side ord) market;
              ids = (case bt_get levels lim of None \<Rightarrow> [] | Some ids \<Rightarrow> ids);
              ids1 = (if o_id ord \<in> set ids then ids else insort (o_id ord) ids)
          in bt_insert slot (ql_set (o_side ord) (bt_insert lim ids1 levels) market) idx)"

definition level_without :: "order_id \<Rightarrow> raw \<Rightarrow> (raw, order_id list) btree_map
    \<Rightarrow> (raw, order_id list) btree_map" where
  "level_without i lim levels =
     (case bt_get levels lim of
        None \<Rightarrow> levels
      | Some ids \<Rightarrow>
          let ids1 = remove1 i ids
          in if ids1 = [] then bt_remove lim levels else bt_insert lim ids1 levels)"

definition ri_remove :: "resting_index \<Rightarrow> order \<Rightarrow> slot \<Rightarrow> resting_index" where
  "ri_remove idx ord slot =
     (case limit_price ord of
        None \<Rightarrow> idx
      | Some lim \<Rightarrow>
          (case bt_get idx slot of
             None \<Rightarrow> idx
           | Some market \<Rightarrow>
               let levels = ql_side (o_side ord) market;
                   market1 = ql_set (o_side ord) (level_without (o_id ord) lim levels) market
               in if ql_buys market1 = [] \<and> ql_sells market1 = [] then bt_remove slot idx
                  else bt_insert slot market1 idx))"

definition level_ids :: "raw \<times> order_id list \<Rightarrow> (price \<times> order_id) list" where
  "level_ids e = map (\<lambda>i. (fst e, i)) (snd e)"

definition reached_by_trade :: "resting_index \<Rightarrow> slot \<Rightarrow> side \<Rightarrow> price \<Rightarrow> (price \<times> order_id) list" where
  "reached_by_trade idx slot passive trade_price =
     (case bt_get idx slot of
        None \<Rightarrow> []
      | Some market \<Rightarrow>
          (case passive of
             Buy \<Rightarrow> concat (map level_ids (rev (filter (\<lambda>e. fst e \<ge> trade_price) (ql_buys market))))
           | Sell \<Rightarrow> concat (map level_ids (filter (\<lambda>e. fst e \<le> trade_price) (ql_sells market)))))"

definition crossing_top :: "resting_index \<Rightarrow> slot \<Rightarrow> price option \<Rightarrow> price option \<Rightarrow> order_id list" where
  "crossing_top idx slot bid ask =
     (case bt_get idx slot of
        None \<Rightarrow> []
      | Some market \<Rightarrow>
          (case ask of None \<Rightarrow> []
           | Some a \<Rightarrow> concat (map snd (filter (\<lambda>e. fst e \<ge> a) (ql_buys market))))
          @ (case bid of None \<Rightarrow> []
             | Some b \<Rightarrow> concat (map snd (filter (\<lambda>e. fst e \<le> b) (ql_sells market)))))"

definition all_for_market :: "resting_index \<Rightarrow> slot \<Rightarrow> order_id list" where
  "all_for_market idx slot =
     (case bt_get idx slot of
        None \<Rightarrow> []
      | Some market \<Rightarrow> concat (map snd (ql_buys market @ ql_sells market)))"

end
