(* ===== verification/Engine_State.thy ===== *)
theory Engine_State
  imports Engine_Base Clock Accounts Fees Venue_Models Replays Execution
begin

text \<open>
  The state of the run kernel (\<open>h5i-db-backtest/src/engine.rs\<close>): what a strategy may ask for, the
  counters and records of a run, the engine with its builder, and the context a strategy sees.

  The fields of \<open>Engine\<close> that no operation changes are grouped in \<open>config\<close>; its two scratch vectors,
  which are emptied before and after every use, are left out. A boxed fee model or execution client
  is its operations together with the state they act on.
\<close>

section \<open>Requests\<close>

definition DEFAULT_EQUITY_INTERVAL_NANOS :: int where
  "DEFAULT_EQUITY_INTERVAL_NANOS = 1000000000"

record order_request =
  rq_instrument :: instrument_id
  rq_outcome :: outcome_id
  rq_side :: side
  rq_kind :: order_kind
  rq_quantity :: qty
  rq_time_in_force :: time_in_force
  rq_tag :: "string option"
  rq_reduce_only :: bool
  rq_post_only :: bool
  rq_trigger :: "trigger option"

definition request_market :: "instrument_id \<Rightarrow> outcome_id \<Rightarrow> side \<Rightarrow> qty \<Rightarrow> order_request" where
  "request_market i oc s q =
     \<lparr>rq_instrument = i, rq_outcome = oc, rq_side = s, rq_kind = Market, rq_quantity = q,
      rq_time_in_force = ImmediateOrCancel, rq_tag = None, rq_reduce_only = False,
      rq_post_only = False, rq_trigger = None\<rparr>"

definition request_limit :: "instrument_id \<Rightarrow> outcome_id \<Rightarrow> side \<Rightarrow> price \<Rightarrow> qty \<Rightarrow> order_request" where
  "request_limit i oc s lim q =
     \<lparr>rq_instrument = i, rq_outcome = oc, rq_side = s, rq_kind = Limit lim, rq_quantity = q,
      rq_time_in_force = GoodTilCancel, rq_tag = None, rq_reduce_only = False,
      rq_post_only = False, rq_trigger = None\<rparr>"

definition request_with_tag :: "order_request \<Rightarrow> string \<Rightarrow> order_request" where
  "request_with_tag rq tag = rq\<lparr>rq_tag := Some tag\<rparr>"

definition request_with_time_in_force :: "order_request \<Rightarrow> time_in_force \<Rightarrow> order_request" where
  "request_with_time_in_force rq tif = rq\<lparr>rq_time_in_force := tif\<rparr>"

definition request_reduce_only :: "order_request \<Rightarrow> order_request" where
  "request_reduce_only rq = rq\<lparr>rq_reduce_only := True\<rparr>"

definition request_post_only :: "order_request \<Rightarrow> order_request" where
  "request_post_only rq = rq\<lparr>rq_post_only := True\<rparr>"

definition request_with_trigger :: "order_request \<Rightarrow> trigger \<Rightarrow> order_request" where
  "request_with_trigger rq t = rq\<lparr>rq_trigger := Some t\<rparr>"

datatype set_operation_kind = Mint | Redeem | Convert "outcome_id list"

fun set_kind_as_str :: "set_operation_kind \<Rightarrow> string" where
  "set_kind_as_str Mint = ''mint''"
| "set_kind_as_str Redeem = ''redeem''"
| "set_kind_as_str (Convert _) = ''convert''"

record set_operation_request =
  sq_instrument :: instrument_id
  sq_kind :: set_operation_kind
  sq_quantity :: qty
  sq_tag :: "string option"

definition request_mint :: "instrument_id \<Rightarrow> qty \<Rightarrow> set_operation_request" where
  "request_mint i q = \<lparr>sq_instrument = i, sq_kind = Mint, sq_quantity = q, sq_tag = None\<rparr>"

definition request_redeem :: "instrument_id \<Rightarrow> qty \<Rightarrow> set_operation_request" where
  "request_redeem i q = \<lparr>sq_instrument = i, sq_kind = Redeem, sq_quantity = q, sq_tag = None\<rparr>"

definition request_convert :: "instrument_id \<Rightarrow> outcome_id list \<Rightarrow> qty \<Rightarrow> set_operation_request" where
  "request_convert i held q = \<lparr>sq_instrument = i, sq_kind = Convert held, sq_quantity = q, sq_tag = None\<rparr>"

definition set_request_with_tag :: "set_operation_request \<Rightarrow> string \<Rightarrow> set_operation_request" where
  "set_request_with_tag rq tag = rq\<lparr>sq_tag := Some tag\<rparr>"

record set_operation =
  so_ts :: unix_nanos
  so_instrument :: instrument_id
  so_kind :: set_operation_kind
  so_sets :: qty
  so_cash_delta :: money
  so_cost :: money
  so_rejected :: "string option"

record forecast =
  fo_ts :: unix_nanos
  fo_instrument :: instrument_id
  fo_outcome :: outcome_id
  fo_probability :: price
  fo_market :: "price option"
  fo_tag :: "string option"

record mark_point =
  mp_ts :: unix_nanos
  mp_instrument :: instrument_id
  mp_outcome :: outcome_id
  mp_price :: price

section \<open>Orders worked over time\<close>

record twap_request =
  tq_instrument :: instrument_id
  tq_outcome :: outcome_id
  tq_side :: side
  tq_quantity :: qty
  tq_duration_nanos :: int
  tq_interval_nanos :: int
  tq_tag :: "string option"
  tq_reduce_only :: bool

definition DEFAULT_TWAP_INTERVAL_NANOS :: int where
  "DEFAULT_TWAP_INTERVAL_NANOS = 30 * 1000000000"

definition twap_request_new :: "instrument_id \<Rightarrow> outcome_id \<Rightarrow> side \<Rightarrow> qty \<Rightarrow> int \<Rightarrow> twap_request" where
  "twap_request_new i oc s q duration =
     \<lparr>tq_instrument = i, tq_outcome = oc, tq_side = s, tq_quantity = q, tq_duration_nanos = duration,
      tq_interval_nanos = DEFAULT_TWAP_INTERVAL_NANOS, tq_tag = None, tq_reduce_only = False\<rparr>"

definition twap_interval_nanos :: "twap_request \<Rightarrow> int \<Rightarrow> twap_request" where
  "twap_interval_nanos rq nanos = rq\<lparr>tq_interval_nanos := nanos\<rparr>"

definition twap_with_tag :: "twap_request \<Rightarrow> string \<Rightarrow> twap_request" where
  "twap_with_tag rq tag = rq\<lparr>tq_tag := Some tag\<rparr>"

definition twap_reduce_only :: "twap_request \<Rightarrow> twap_request" where
  "twap_reduce_only rq = rq\<lparr>tq_reduce_only := True\<rparr>"

definition twap_slices :: "twap_request \<Rightarrow> int res" where
  "twap_slices rq =
     (if \<not> tq_quantity rq > 0 then invalid ''a TWAP needs a positive quantity''
      else if tq_duration_nanos rq \<le> 0 \<or> tq_interval_nanos rq \<le> 0
      then invalid ''a TWAP needs a positive duration and interval''
      else if tq_interval_nanos rq > tq_duration_nanos rq
      then invalid ''a TWAP whose interval exceeds its duration is one order''
      else Inr (max (tq_duration_nanos rq sdiv tq_interval_nanos rq) 1))"

record twap_progress =
  tw_request :: twap_request
  tw_started_at :: unix_nanos
  tw_sent :: int
  tw_total_slices :: int
  tw_worked :: qty
  tw_next_at :: int

definition twap_is_done :: "twap_progress \<Rightarrow> bool" where
  "twap_is_done tw \<longleftrightarrow> tw_sent tw \<ge> tw_total_slices tw"

definition twap_remaining :: "twap_progress \<Rightarrow> qty" where
  "twap_remaining tw = wrap64 (tq_quantity (tw_request tw) - tw_worked tw)"

datatype command =
    CSubmit order_id order_request
  | CCancel order_id
  | CAmend order_id "qty option" "price option"
  | CSet set_operation_request
  | CTwap twap_request

section \<open>What is under way and what was counted\<close>

datatype inflight_action = InFlightOrder order | InFlightSet set_operation_request

record inflight =
  if_release_at :: int
  if_sequence :: nat
  if_action :: inflight_action

text \<open>The reversed \<open>Ord\<close> of a max-heap: the earliest release first, then the earliest sequence.\<close>

definition inflight_key :: "inflight \<Rightarrow> int \<times> nat" where
  "inflight_key f = (if_release_at f, if_sequence f)"

record run_metrics =
  records_by_kind :: "(string, nat) btree_map"
  orders_submitted :: nat
  orders_filled :: nat
  orders_partially_filled :: nat
  orders_cancelled_unfilled :: nat
  orders_rejected_margin :: nat
  orders_rejected_risk :: nat
  orders_rejected_self_trade :: nat
  orders_rejected_naked_short :: nat
  orders_rejected_expired :: nat
  orders_rejected_post_only :: nat
  orders_rejected_invalid :: nat
  orders_triggered :: nat
  m_twap_slices :: nat
  orders_amended :: nat
  fills_taker :: nat
  fills_maker :: nat
  book_gaps :: nat
  queue_joins :: nat
  m_liquidations :: nat
  corporate_actions :: nat
  m_set_operations :: nat
  set_operations_rejected :: nat
  instruments_expired :: nat

definition metrics_default :: run_metrics where
  "metrics_default = \<lparr>records_by_kind = [], orders_submitted = 0, orders_filled = 0,
     orders_partially_filled = 0, orders_cancelled_unfilled = 0, orders_rejected_margin = 0,
     orders_rejected_risk = 0, orders_rejected_self_trade = 0, orders_rejected_naked_short = 0,
     orders_rejected_expired = 0, orders_rejected_post_only = 0, orders_rejected_invalid = 0,
     orders_triggered = 0, m_twap_slices = 0, orders_amended = 0, fills_taker = 0, fills_maker = 0,
     book_gaps = 0, queue_joins = 0, m_liquidations = 0, corporate_actions = 0,
     m_set_operations = 0, set_operations_rejected = 0, instruments_expired = 0\<rparr>"

definition metrics_record :: "string \<Rightarrow> run_metrics \<Rightarrow> run_metrics" where
  "metrics_record kind m = m\<lparr>records_by_kind :=
     bt_insert kind ((case bt_get (records_by_kind m) kind of None \<Rightarrow> 0 | Some n \<Rightarrow> n) + 1)
       (records_by_kind m)\<rparr>"

fun join_semi :: "string list \<Rightarrow> string" where
  "join_semi [] = []"
| "join_semi [s] = s"
| "join_semi (s # t # ts) = s @ ''; '' @ join_semi (t # ts)"

definition reason_if :: "nat \<Rightarrow> string \<Rightarrow> string list" where
  "reason_if n txt = (if n > 0 then [decimal n @ txt] else [])"

definition silence_reasons :: "run_metrics \<Rightarrow> string list" where
  "silence_reasons m =
     reason_if (orders_rejected_margin m) '' refused for margin''
     @ reason_if (orders_rejected_risk m) '' refused by configured risk limits''
     @ reason_if (orders_rejected_self_trade m) '' would have crossed the account's own book''
     @ reason_if (orders_rejected_naked_short m) '' would have shorted an outcome the venue does not let you borrow; buy the complementary outcome instead''
     @ reason_if (orders_rejected_expired m) '' arrived after their instrument had stopped trading''
     @ reason_if (orders_rejected_invalid m) '' named an instrument, outcome or price this run cannot trade; read their reject_reason''
     @ reason_if (orders_rejected_post_only m) '' were post-only and would have crossed on arrival; a maker quote priced through the book is refused, not filled''
     @ reason_if (orders_cancelled_unfilled m) '' found no liquidity at their price''
     @ reason_if (book_gaps m) '' feed gaps invalidated books''"

definition explain_silence :: "run_metrics \<Rightarrow> string option" where
  "explain_silence m =
     (if orders_submitted m = 0
      then Some ''the strategy submitted no orders: check that its signals fall inside the replayed window''
      else if orders_filled m = 0 \<and> orders_partially_filled m = 0
      then let reasons = silence_reasons m;
               detail = (if reasons = [] then ''no order reached a matchable book'' else join_semi reasons)
           in Some (decimal (orders_submitted m) @ '' orders, no fills: '' @ detail)
      else None)"

record risk_limits =
  max_order_quantity :: "qty option"
  max_abs_position :: "qty option"
  max_open_orders :: "nat option"

definition risk_limits_default :: risk_limits where
  "risk_limits_default = \<lparr>max_order_quantity = None, max_abs_position = None, max_open_orders = None\<rparr>"

definition risk_limits_new :: "qty option \<Rightarrow> qty option \<Rightarrow> nat option \<Rightarrow> risk_limits res" where
  "risk_limits_new mq mp mo =
     (if (case mq of None \<Rightarrow> False | Some v \<Rightarrow> v \<le> 0) then invalid ''max_order_quantity must be positive''
      else if (case mp of None \<Rightarrow> False | Some v \<Rightarrow> v \<le> 0) then invalid ''max_abs_position must be positive''
      else if mo = Some 0 then invalid ''max_open_orders must be positive''
      else Inr \<lparr>max_order_quantity = mq, max_abs_position = mp, max_open_orders = mo\<rparr>)"

record equity_point =
  ep_ts :: unix_nanos
  ep_cash :: money
  ep_position_value :: money
  ep_equity :: money
  ep_realized_pnl :: money
  ep_unrealized_pnl :: money

record liquidation =
  lq_instrument :: instrument_id
  lq_outcome :: outcome_id
  lq_quantity :: qty
  lq_mark :: price
  lq_equity :: money
  lq_maintenance :: money

datatype mark_source = VenueMark | BookMid

record isolated_call =
  ic_instrument :: instrument_id
  ic_equity :: money
  ic_maintenance :: money
  ic_open :: "(outcome_id \<times> qty \<times> price) list"

datatype liquidation_policy = CloseAll | Partial

record set_operation_costs =
  sc_mint :: money
  sc_redeem :: money
  sc_convert :: money

definition set_costs_flat :: "money \<Rightarrow> set_operation_costs res" where
  "set_costs_flat c =
     (if c < 0 then invalid ''a set operation cost must not be negative''
      else Inr \<lparr>sc_mint = c, sc_redeem = c, sc_convert = c\<rparr>)"

fun cost_for_kind :: "set_operation_costs \<Rightarrow> set_operation_kind \<Rightarrow> money" where
  "cost_for_kind sc Mint = sc_mint sc"
| "cost_for_kind sc Redeem = sc_redeem sc"
| "cost_for_kind sc (Convert _) = sc_convert sc"

datatype fill_origin = TradeFill bool | CompleteSet

record fill_terms =
  ft_price :: price
  ft_quantity :: qty
  ft_origin :: fill_origin
  ft_commission :: money

section \<open>The engine\<close>

record 'f fee_model =
  fm_commission :: "'f \<Rightarrow> fee_context \<Rightarrow> 'f \<times> money res"
  fm_order_closed :: "'f \<Rightarrow> order_id \<Rightarrow> 'f"

record 'x client =
  xc_send :: "'x \<Rightarrow> execution_command \<Rightarrow> unix_nanos \<Rightarrow> 'x \<times> unit res"

record ('f, 'x) config =
  k_instruments :: instrument_set
  k_slots :: slots
  k_starting_cash :: money
  k_fee_model :: "'f fee_model"
  k_fill_model :: fill_model
  k_latency_model :: latency_model
  k_equity_interval :: int
  k_margin :: "margin_model option"
  k_fx :: fx_book
  k_reporting_currency :: currency
  k_client :: "'x client"
  k_risk_limits :: risk_limits
  k_allow_naked_shorts :: bool
  k_expiries :: "(int \<times> instrument_id) list"
  k_set_costs :: set_operation_costs
  k_record_mark_curve :: bool
  k_mark_source :: mark_source
  k_liquidation :: liquidation_policy
  k_isolated :: "instrument_id btree_set"

record ('f, 'x) engine =
  g_config :: "('f, 'x) config"
  g_clock :: clock
  g_books :: "(slot, order_book) btree_map"
  g_portfolio :: portfolio
  g_cash :: money
  g_orders :: "(order_id, order) btree_map"
  g_resting :: "order_id list"
  g_resting_index :: resting_index
  g_inflight :: "inflight list"
  g_commands :: "command list"
  g_fills :: "fill list"
  g_marks :: "(slot, price) btree_map"
  g_fee_state :: 'f
  g_next_order_id :: nat
  g_sequence :: nat
  g_records :: nat
  g_simulated_through :: "unix_nanos option"
  g_next_equity_sample :: "int option"
  g_equity :: "equity_point list"
  g_funding_paid :: money
  g_queue_ahead :: "(order_id, raw) btree_map"
  g_liquidations :: "liquidation list"
  g_rejected_for_margin :: nat
  g_self_trades_prevented :: nat
  g_dividends_received :: money
  g_delisted :: "instrument_id btree_set"
  g_metrics :: run_metrics
  g_execution :: 'x
  g_next_expiry :: nat
  g_expired :: "instrument_id btree_set"
  g_expirations :: "(instrument_id \<times> unix_nanos) list"
  g_set_operations :: "set_operation list"
  g_forecasts :: "forecast list"
  g_mark_curve :: "mark_point list"
  g_book_marks :: "(slot, price) btree_map"
  g_venue_marks :: "(slot, price) btree_map"
  g_oracles :: "(slot, price) btree_map"
  g_isolated_collateral :: "(instrument_id, money) btree_map"
  g_twaps :: "twap_progress list"
  g_live_orders :: "order_id list"
  g_untriggered :: "order_id list"

abbreviation g_key :: "('f, 'x) engine \<Rightarrow> instrument_id \<Rightarrow> outcome_id \<Rightarrow> slot" where
  "g_key e \<equiv> slots_key (k_slots (g_config e))"

abbreviation g_instruments :: "('f, 'x) engine \<Rightarrow> instrument_set" where
  "g_instruments e \<equiv> k_instruments (g_config e)"

abbreviation bump :: "(run_metrics \<Rightarrow> run_metrics) \<Rightarrow> ('f, 'x) engine \<Rightarrow> ('f, 'x) engine" where
  "bump f e \<equiv> g_metrics_update f e"

section \<open>What a strategy sees and does\<close>

record strategy_context =
  c_now :: unix_nanos
  c_slots :: slots
  c_books :: "(slot, order_book) btree_map"
  c_marks :: "(slot, price) btree_map"
  c_oracles :: "(slot, price) btree_map"
  c_portfolio :: portfolio
  c_cash :: money
  c_commands :: "command list"
  c_clock_requests :: "(string \<times> unix_nanos) list"
  c_forecasts :: "forecast list"
  c_next_order_id :: nat

definition ctx_book :: "strategy_context \<Rightarrow> instrument_id \<Rightarrow> outcome_id \<Rightarrow> order_book option" where
  "ctx_book c i oc = bt_get (c_books c) (slots_key (c_slots c) i oc)"

definition ctx_best_bid :: "strategy_context \<Rightarrow> instrument_id \<Rightarrow> outcome_id \<Rightarrow> price option" where
  "ctx_best_bid c i oc = map_option fst (Option.bind (ctx_book c i oc) best_bid)"

definition ctx_best_ask :: "strategy_context \<Rightarrow> instrument_id \<Rightarrow> outcome_id \<Rightarrow> price option" where
  "ctx_best_ask c i oc = map_option fst (Option.bind (ctx_book c i oc) best_ask)"

definition ctx_position_quantity :: "strategy_context \<Rightarrow> instrument_id \<Rightarrow> outcome_id \<Rightarrow> qty" where
  "ctx_position_quantity c i oc =
     (case position_of (c_portfolio c) i oc of None \<Rightarrow> 0 | Some p \<Rightarrow> p_quantity p)"

definition ctx_submit_tracked :: "strategy_context \<Rightarrow> order_request \<Rightarrow> strategy_context \<times> order_id" where
  "ctx_submit_tracked c rq =
     (let i = c_next_order_id c + 1
      in (c\<lparr>c_next_order_id := i, c_commands := c_commands c @ [CSubmit i rq]\<rparr>, i))"

definition ctx_submit :: "strategy_context \<Rightarrow> order_request \<Rightarrow> strategy_context" where
  "ctx_submit c rq = fst (ctx_submit_tracked c rq)"

definition ctx_push :: "strategy_context \<Rightarrow> command \<Rightarrow> strategy_context" where
  "ctx_push c cmd = c\<lparr>c_commands := c_commands c @ [cmd]\<rparr>"

definition ctx_cancel :: "strategy_context \<Rightarrow> order_id \<Rightarrow> strategy_context" where
  "ctx_cancel c i = ctx_push c (CCancel i)"

definition ctx_amend :: "strategy_context \<Rightarrow> order_id \<Rightarrow> qty option \<Rightarrow> price option \<Rightarrow> strategy_context" where
  "ctx_amend c i quantity lim = ctx_push c (CAmend i quantity lim)"

definition ctx_set_timer :: "strategy_context \<Rightarrow> string \<Rightarrow> unix_nanos \<Rightarrow> strategy_context" where
  "ctx_set_timer c name at = c\<lparr>c_clock_requests := c_clock_requests c @ [(name, at)]\<rparr>"

definition ctx_mark :: "strategy_context \<Rightarrow> instrument_id \<Rightarrow> outcome_id \<Rightarrow> price option" where
  "ctx_mark c i oc = bt_get (c_marks c) (slots_key (c_slots c) i oc)"

definition ctx_oracle :: "strategy_context \<Rightarrow> instrument_id \<Rightarrow> outcome_id \<Rightarrow> price option" where
  "ctx_oracle c i oc = bt_get (c_oracles c) (slots_key (c_slots c) i oc)"

definition ctx_mint :: "strategy_context \<Rightarrow> instrument_id \<Rightarrow> qty \<Rightarrow> strategy_context" where
  "ctx_mint c i q = ctx_push c (CSet (request_mint i q))"

definition ctx_redeem :: "strategy_context \<Rightarrow> instrument_id \<Rightarrow> qty \<Rightarrow> strategy_context" where
  "ctx_redeem c i q = ctx_push c (CSet (request_redeem i q))"

definition ctx_convert :: "strategy_context \<Rightarrow> instrument_id \<Rightarrow> outcome_id list \<Rightarrow> qty \<Rightarrow> strategy_context" where
  "ctx_convert c i held q = ctx_push c (CSet (request_convert i held q))"

definition ctx_set_operation :: "strategy_context \<Rightarrow> set_operation_request \<Rightarrow> strategy_context" where
  "ctx_set_operation c rq = ctx_push c (CSet rq)"

definition ctx_twap :: "strategy_context \<Rightarrow> twap_request \<Rightarrow> strategy_context" where
  "ctx_twap c rq = ctx_push c (CTwap rq)"

definition ctx_record_tagged_forecast :: "strategy_context \<Rightarrow> instrument_id \<Rightarrow> outcome_id \<Rightarrow> price
    \<Rightarrow> string option \<Rightarrow> strategy_context res" where
  "ctx_record_tagged_forecast c i oc probability tag =
     (if probability < PROBABILITY_MIN \<or> probability > PROBABILITY_MAX
      then invalid ''a forecast probability must lie in [0, 1]''
      else Inr (c\<lparr>c_forecasts := c_forecasts c @ [\<lparr>fo_ts = c_now c, fo_instrument = i, fo_outcome = oc,
             fo_probability = probability, fo_market = ctx_mark c i oc, fo_tag = tag\<rparr>]\<rparr>))"

definition ctx_record_forecast :: "strategy_context \<Rightarrow> instrument_id \<Rightarrow> outcome_id \<Rightarrow> price \<Rightarrow> strategy_context res" where
  "ctx_record_forecast c i oc probability = ctx_record_tagged_forecast c i oc probability None"

text \<open>The callbacks of a strategy, with the defaults of the trait.\<close>

record 's strategy =
  on_start :: "'s \<Rightarrow> strategy_context \<Rightarrow> ('s \<times> strategy_context) exec"
  on_event :: "'s \<Rightarrow> strategy_context \<Rightarrow> event_record \<Rightarrow> ('s \<times> strategy_context) exec"
  on_timer :: "'s \<Rightarrow> strategy_context \<Rightarrow> time_event \<Rightarrow> ('s \<times> strategy_context) exec"
  on_fill :: "'s \<Rightarrow> strategy_context \<Rightarrow> fill \<Rightarrow> ('s \<times> strategy_context) exec"
  on_stop :: "'s \<Rightarrow> strategy_context \<Rightarrow> ('s \<times> strategy_context) exec"

definition strategy_default :: "'s strategy" where
  "strategy_default = \<lparr>on_start = (\<lambda>s c. ok (s, c)), on_event = (\<lambda>s c _. ok (s, c)),
     on_timer = (\<lambda>s c _. ok (s, c)), on_fill = (\<lambda>s c _. ok (s, c)), on_stop = (\<lambda>s c. ok (s, c))\<rparr>"

definition no_strategy :: "unit strategy" where
  "no_strategy = strategy_default"

text \<open>The engine together with the state of the strategy it runs.\<close>

type_synonym ('f, 'x, 's) world = "('f, 'x) engine \<times> 's"

definition make_context :: "('f, 'x) engine \<Rightarrow> strategy_context" where
  "make_context e = \<lparr>c_now = now (g_clock e), c_slots = k_slots (g_config e), c_books = g_books e,
     c_marks = g_marks e, c_oracles = g_oracles e, c_portfolio = g_portfolio e, c_cash = g_cash e,
     c_commands = g_commands e, c_clock_requests = [], c_forecasts = g_forecasts e,
     c_next_order_id = g_next_order_id e\<rparr>"

text \<open>
  \<open>clock_requests\<close> is empty between callbacks: \<open>with_context\<close> takes all of it before it returns, so the
  context starts with no request.
\<close>

definition with_context :: "('s \<Rightarrow> strategy_context \<Rightarrow> ('s \<times> strategy_context) exec) \<Rightarrow> ('f, 'x, 's) world
    \<Rightarrow> ('f, 'x, 's) world exec" where
  "with_context callback w =
     (case w of (e, s) \<Rightarrow>
        x_bind (callback s (make_context e)) (\<lambda>(s1, c).
        x_bind (Some (fold_r (\<lambda>clk (name, at). set_timer clk name at) (g_clock e) (c_clock_requests c)))
          (\<lambda>clk. ok (e\<lparr>g_commands := c_commands c, g_forecasts := c_forecasts c,
                       g_next_order_id := c_next_order_id c, g_clock := clk\<rparr>, s1))))"

section \<open>Building an engine\<close>

record ('f, 'x) engine_builder =
  b_instruments :: instrument_set
  b_starting_cash :: money
  b_start :: unix_nanos
  b_fee_model :: "'f fee_model"
  b_fee_state :: 'f
  b_fill_model :: fill_model
  b_latency_model :: latency_model
  b_equity_interval :: int
  b_margin :: "margin_model option"
  b_fx :: fx_book
  b_client :: "'x client"
  b_execution :: 'x
  b_reporting_currency :: currency
  b_risk_limits :: risk_limits
  b_allow_naked_shorts :: bool
  b_set_costs :: set_operation_costs
  b_record_mark_curve :: bool
  b_mark_source :: mark_source
  b_liquidation :: liquidation_policy
  b_isolated :: "instrument_id btree_set"

definition no_fee_model :: "unit fee_model" where
  "no_fee_model = \<lparr>fm_commission = no_fees, fm_order_closed = nothing_closed\<rparr>"

definition simulated_client :: "simulated_execution client" where
  "simulated_client = \<lparr>xc_send = sim_send\<rparr>"

definition engine_builder_new :: "instrument_set \<Rightarrow> (unit, simulated_execution) engine_builder" where
  "engine_builder_new instruments =
     \<lparr>b_instruments = instruments, b_starting_cash = 0, b_start = 0, b_fee_model = no_fee_model,
      b_fee_state = (), b_fill_model = book_fills, b_latency_model = no_latency,
      b_equity_interval = DEFAULT_EQUITY_INTERVAL_NANOS, b_margin = None, b_fx = [],
      b_client = simulated_client, b_execution = simulated_execution_new ''simulated'',
      b_reporting_currency = ''USDC'', b_risk_limits = risk_limits_default,
      b_allow_naked_shorts = False,
      b_set_costs = \<lparr>sc_mint = 0, sc_redeem = 0, sc_convert = 0\<rparr>, b_record_mark_curve = True,
      b_mark_source = VenueMark, b_liquidation = CloseAll, b_isolated = []\<rparr>"

definition builder_isolate :: "('f, 'x) engine_builder \<Rightarrow> instrument_id \<Rightarrow> ('f, 'x) engine_builder" where
  "builder_isolate b i = b\<lparr>b_isolated := bs_insert i (b_isolated b)\<rparr>"

definition builder_fee_model :: "('f, 'x) engine_builder \<Rightarrow> 'g fee_model \<Rightarrow> 'g \<Rightarrow> ('g, 'x) engine_builder" where
  "builder_fee_model b model st =
     \<lparr>b_instruments = b_instruments b, b_starting_cash = b_starting_cash b, b_start = b_start b,
      b_fee_model = model, b_fee_state = st, b_fill_model = b_fill_model b,
      b_latency_model = b_latency_model b, b_equity_interval = b_equity_interval b,
      b_margin = b_margin b, b_fx = b_fx b, b_client = b_client b, b_execution = b_execution b,
      b_reporting_currency = b_reporting_currency b, b_risk_limits = b_risk_limits b,
      b_allow_naked_shorts = b_allow_naked_shorts b, b_set_costs = b_set_costs b,
      b_record_mark_curve = b_record_mark_curve b, b_mark_source = b_mark_source b,
      b_liquidation = b_liquidation b, b_isolated = b_isolated b\<rparr>"

definition builder_execution_client :: "('f, 'x) engine_builder \<Rightarrow> 'y client \<Rightarrow> 'y \<Rightarrow> ('f, 'y) engine_builder" where
  "builder_execution_client b client st =
     \<lparr>b_instruments = b_instruments b, b_starting_cash = b_starting_cash b, b_start = b_start b,
      b_fee_model = b_fee_model b, b_fee_state = b_fee_state b, b_fill_model = b_fill_model b,
      b_latency_model = b_latency_model b, b_equity_interval = b_equity_interval b,
      b_margin = b_margin b, b_fx = b_fx b, b_client = client, b_execution = st,
      b_reporting_currency = b_reporting_currency b, b_risk_limits = b_risk_limits b,
      b_allow_naked_shorts = b_allow_naked_shorts b, b_set_costs = b_set_costs b,
      b_record_mark_curve = b_record_mark_curve b, b_mark_source = b_mark_source b,
      b_liquidation = b_liquidation b, b_isolated = b_isolated b\<rparr>"

definition builder_starting_cash :: "('f, 'x) engine_builder \<Rightarrow> money \<Rightarrow> ('f, 'x) engine_builder" where
  "builder_starting_cash b cash = b\<lparr>b_starting_cash := cash\<rparr>"

definition builder_start :: "('f, 'x) engine_builder \<Rightarrow> unix_nanos \<Rightarrow> ('f, 'x) engine_builder" where
  "builder_start b at = b\<lparr>b_start := at\<rparr>"

definition builder_fill_model :: "('f, 'x) engine_builder \<Rightarrow> fill_model \<Rightarrow> ('f, 'x) engine_builder" where
  "builder_fill_model b model = b\<lparr>b_fill_model := model\<rparr>"

definition builder_latency_model :: "('f, 'x) engine_builder \<Rightarrow> latency_model \<Rightarrow> ('f, 'x) engine_builder" where
  "builder_latency_model b model = b\<lparr>b_latency_model := model\<rparr>"

definition builder_risk_limits :: "('f, 'x) engine_builder \<Rightarrow> risk_limits \<Rightarrow> ('f, 'x) engine_builder" where
  "builder_risk_limits b limits = b\<lparr>b_risk_limits := limits\<rparr>"

definition builder_fx :: "('f, 'x) engine_builder \<Rightarrow> fx_book \<Rightarrow> ('f, 'x) engine_builder" where
  "builder_fx b fx = b\<lparr>b_fx := fx\<rparr>"

definition builder_reporting_currency :: "('f, 'x) engine_builder \<Rightarrow> currency \<Rightarrow> ('f, 'x) engine_builder" where
  "builder_reporting_currency b cur = b\<lparr>b_reporting_currency := cur\<rparr>"

definition builder_allow_naked_shorts :: "('f, 'x) engine_builder \<Rightarrow> bool \<Rightarrow> ('f, 'x) engine_builder" where
  "builder_allow_naked_shorts b allow = b\<lparr>b_allow_naked_shorts := allow\<rparr>"

definition builder_set_operation_costs :: "('f, 'x) engine_builder \<Rightarrow> set_operation_costs \<Rightarrow> ('f, 'x) engine_builder" where
  "builder_set_operation_costs b costs = b\<lparr>b_set_costs := costs\<rparr>"

definition builder_record_mark_curve :: "('f, 'x) engine_builder \<Rightarrow> bool \<Rightarrow> ('f, 'x) engine_builder" where
  "builder_record_mark_curve b flag = b\<lparr>b_record_mark_curve := flag\<rparr>"

definition builder_mark_source :: "('f, 'x) engine_builder \<Rightarrow> mark_source \<Rightarrow> ('f, 'x) engine_builder" where
  "builder_mark_source b source = b\<lparr>b_mark_source := source\<rparr>"

definition builder_liquidation_policy :: "('f, 'x) engine_builder \<Rightarrow> liquidation_policy \<Rightarrow> ('f, 'x) engine_builder" where
  "builder_liquidation_policy b policy = b\<lparr>b_liquidation := policy\<rparr>"

definition builder_margin_model :: "('f, 'x) engine_builder \<Rightarrow> margin_model \<Rightarrow> ('f, 'x) engine_builder" where
  "builder_margin_model b model = b\<lparr>b_margin := Some model\<rparr>"

definition builder_equity_interval :: "('f, 'x) engine_builder \<Rightarrow> int \<Rightarrow> ('f, 'x) engine_builder res" where
  "builder_equity_interval b nanos =
     (if nanos \<le> 0 then invalid ''the equity sampling interval must be positive''
      else Inr (b\<lparr>b_equity_interval := nanos\<rparr>))"

definition expiries_of :: "instrument_set \<Rightarrow> (int \<times> instrument_id) list" where
  "expiries_of instruments =
     sort (List.map_filter (\<lambda>i. case set_get instruments i of
         Inl _ \<Rightarrow> None
       | Inr ins \<Rightarrow> map_option (\<lambda>at. (at, i_id ins)) (expiration ins)) (set_ids instruments))"

definition engine_build :: "('f, 'x) engine_builder \<Rightarrow> ('f, 'x) engine" where
  "engine_build b =
     \<lparr>g_config = \<lparr>k_instruments = b_instruments b, k_slots = slots_build (b_instruments b),
        k_starting_cash = b_starting_cash b, k_fee_model = b_fee_model b,
        k_fill_model = b_fill_model b, k_latency_model = b_latency_model b,
        k_equity_interval = b_equity_interval b, k_margin = b_margin b, k_fx = b_fx b,
        k_reporting_currency = b_reporting_currency b, k_client = b_client b,
        k_risk_limits = b_risk_limits b, k_allow_naked_shorts = b_allow_naked_shorts b,
        k_expiries = expiries_of (b_instruments b), k_set_costs = b_set_costs b,
        k_record_mark_curve = b_record_mark_curve b, k_mark_source = b_mark_source b,
        k_liquidation = b_liquidation b, k_isolated = b_isolated b\<rparr>,
      g_clock = clock_new (b_start b), g_books = [], g_portfolio = portfolio_new,
      g_cash = b_starting_cash b, g_orders = [], g_resting = [], g_resting_index = [],
      g_inflight = [], g_commands = [], g_fills = [], g_marks = [], g_fee_state = b_fee_state b,
      g_next_order_id = 0, g_sequence = 0, g_records = 0, g_simulated_through = None,
      g_next_equity_sample = None, g_equity = [], g_funding_paid = 0, g_queue_ahead = [],
      g_liquidations = [], g_rejected_for_margin = 0, g_self_trades_prevented = 0,
      g_dividends_received = 0, g_delisted = [], g_metrics = metrics_default,
      g_execution = b_execution b, g_next_expiry = 0, g_expired = [], g_expirations = [],
      g_set_operations = [], g_forecasts = [], g_mark_curve = [], g_book_marks = [],
      g_venue_marks = [], g_oracles = [], g_isolated_collateral = [], g_twaps = [],
      g_live_orders = [], g_untriggered = []\<rparr>"

end
