(* ===== verification/Engine_Admission.thy ===== *)
theory Engine_Admission
  imports Engine_State
begin

text \<open>
  How an order gets to the venue (\<open>h5i-db-backtest/src/engine.rs\<close>): the commands a strategy queued,
  the checks before and on arrival, amendments, and the bookkeeping of resting orders. The text of a
  refusal is a short literal.
\<close>

section \<open>Resting orders\<close>

definition set_order :: "order_id \<Rightarrow> order \<Rightarrow> ('f, 'x) engine \<Rightarrow> ('f, 'x) engine" where
  "set_order i ord e = e\<lparr>g_orders := bt_insert i ord (g_orders e)\<rparr>"

definition join_queue :: "order \<Rightarrow> ('f, 'x) engine \<Rightarrow> ('f, 'x) engine" where
  "join_queue ord e =
     (if \<not> uses_queue_position (k_fill_model (g_config e)) \<or> bt_get (g_queue_ahead e) (o_id ord) \<noteq> None
      then e
      else case limit_price ord of
             None \<Rightarrow> e
           | Some lim \<Rightarrow>
               let ahead = (case Option.bind (bt_get (g_books e) (g_key e (o_instrument ord) (o_outcome ord)))
                                   (\<lambda>book. quantity_at book (o_side ord) lim) of
                              None \<Rightarrow> 0 | Some q \<Rightarrow> q)
               in bump (\<lambda>m. m\<lparr>queue_joins := queue_joins m + 1\<rparr>)
                    (e\<lparr>g_queue_ahead := bt_insert (o_id ord) ahead (g_queue_ahead e)\<rparr>))"

definition add_resting :: "order \<Rightarrow> ('f, 'x) engine \<Rightarrow> ('f, 'x) engine" where
  "add_resting ord e =
     (if o_id ord \<in> set (g_resting e) then e
      else let e1 = join_queue ord e;
               slot = g_key e1 (o_instrument ord) (o_outcome ord)
           in e1\<lparr>g_resting_index := ri_insert (g_resting_index e1) ord slot,
                 g_resting := g_resting e1 @ [o_id ord]\<rparr>)"

definition remove_resting :: "order_id \<Rightarrow> ('f, 'x) engine \<Rightarrow> ('f, 'x) engine" where
  "remove_resting i e =
     (let e1 = (case bt_get (g_orders e) i of
                  None \<Rightarrow> e
                | Some ord \<Rightarrow> e\<lparr>g_resting_index := ri_remove (g_resting_index e) ord
                                   (g_key e (o_instrument ord) (o_outcome ord))\<rparr>)
      in e1\<lparr>g_resting := filter (\<lambda>j. j \<noteq> i) (g_resting e1),
            g_queue_ahead := bt_remove i (g_queue_ahead e1)\<rparr>)"

definition order_is_open :: "('f, 'x) engine \<Rightarrow> order_id \<Rightarrow> bool" where
  "order_is_open e i = (case bt_get (g_orders e) i of None \<Rightarrow> False | Some ord \<Rightarrow> is_open ord)"

definition prune_resting :: "('f, 'x) engine \<Rightarrow> ('f, 'x) engine" where
  "prune_resting e =
     foldl (\<lambda>e i. remove_resting i e) e (filter (\<lambda>i. \<not> order_is_open e i) (g_resting e))"

section \<open>Markets that have stopped\<close>

definition has_expired :: "('f, 'x) engine \<Rightarrow> instrument_id \<Rightarrow> unix_nanos \<Rightarrow> unix_nanos option" where
  "has_expired e i ts =
     (case set_get (g_instruments e) i of
        Inl _ \<Rightarrow> None
      | Inr found \<Rightarrow>
          (case expiration found of
             None \<Rightarrow> None
           | Some at \<Rightarrow> if ts \<ge> at then Some at else None))"

definition stopped_trading :: "('f, 'x) engine \<Rightarrow> instrument_id \<Rightarrow> unix_nanos \<Rightarrow> string option" where
  "stopped_trading e i ts =
     (if k_expiries (g_config e) = [] \<and> g_delisted e = [] then None
      else case has_expired e i ts of
             Some at \<Rightarrow> Some (i @ '' stopped trading at '' @ show_int at)
           | None \<Rightarrow>
               if i \<in> set (g_delisted e) then Some (i @ '' was delisted and stopped trading'') else None)"

section \<open>Refusals before the latency\<close>

definition order_refusal :: "('f, 'x) engine \<Rightarrow> order_request \<Rightarrow> string option" where
  "order_refusal e rq =
     (case set_get (g_instruments e) (rq_instrument rq) of
        Inl _ \<Rightarrow> Some ''not an instrument this run carries''
      | Inr ins \<Rightarrow>
          (case check_outcome ins (rq_outcome rq) of
             Inl _ \<Rightarrow> Some ''unknown outcome''
           | Inr _ \<Rightarrow>
               if (case rq_kind rq of Limit lim \<Rightarrow> \<not> is_ok (check_price ins lim) | Market \<Rightarrow> False)
               then Some ''the limit price is not on the grid''
               else if rq_post_only rq \<and> rq_kind rq = Market
               then Some ''a post-only order must carry a limit price''
               else None))"

definition position_quantity :: "portfolio \<Rightarrow> instrument_id \<Rightarrow> outcome_id \<Rightarrow> raw" where
  "position_quantity pf i oc = (case position_of pf i oc of None \<Rightarrow> 0 | Some p \<Rightarrow> p_quantity p)"

text \<open>The orders behind \<open>live_orders\<close> that exist, and a saturating sum of what remains of some.\<close>

definition live_candidates :: "('f, 'x) engine \<Rightarrow> order list" where
  "live_candidates e = List.map_filter (bt_get (g_orders e)) (g_live_orders e)"

definition sat_remaining :: "order list \<Rightarrow> raw" where
  "sat_remaining os = foldl (\<lambda>t ord. sat64 (t + remaining ord)) 0 os"

definition naked_short_rejection :: "('f, 'x) engine \<Rightarrow> order \<Rightarrow> string option" where
  "naked_short_rejection e ord =
     (if k_allow_naked_shorts (g_config e) \<or> o_side ord \<noteq> Sell \<or> o_reduce_only ord then None
      else case set_get (g_instruments e) (o_instrument ord) of
             Inl _ \<Rightarrow> None
           | Inr ins \<Rightarrow>
               if i_kind ins \<noteq> PredictionMarket then None
               else let held = position_quantity (g_portfolio e) (o_instrument ord) (o_outcome ord);
                        pend = sat_remaining (filter (\<lambda>c. is_open c \<and> \<not> o_reduce_only c \<and> o_side c = Sell
                                 \<and> o_instrument c = o_instrument ord \<and> o_outcome c = o_outcome ord)
                               (live_candidates e));
                        projected = sat64 (sat64 (held - pend) - o_quantity ord)
                    in if projected \<ge> 0 then None
                       else Some ''a prediction-market contract cannot be borrowed'')"

definition risk_order_quantity :: "('f, 'x) engine \<Rightarrow> order \<Rightarrow> bool" where
  "risk_order_quantity e ord =
     (case max_order_quantity (k_risk_limits (g_config e)) of
        None \<Rightarrow> False | Some maximum \<Rightarrow> o_quantity ord > maximum)"

definition risk_open_orders :: "('f, 'x) engine \<Rightarrow> bool" where
  "risk_open_orders e =
     (case max_open_orders (k_risk_limits (g_config e)) of
        None \<Rightarrow> False
      | Some maximum \<Rightarrow> length (filter is_open (live_candidates e)) \<ge> maximum)"

definition pending_side :: "('f, 'x) engine \<Rightarrow> order \<Rightarrow> side \<Rightarrow> raw" where
  "pending_side e ord s =
     (let live = sat_remaining (filter (\<lambda>c. is_open c \<and> o_instrument c = o_instrument ord
                    \<and> o_outcome c = o_outcome ord \<and> o_side c = s) (live_candidates e))
      in if o_side ord = s then sat64 (live + o_quantity ord) else live)"

definition worst_position :: "('f, 'x) engine \<Rightarrow> order \<Rightarrow> int" where
  "worst_position e ord =
     (let current = position_quantity (g_portfolio e) (o_instrument ord) (o_outcome ord)
      in max \<bar>sat64 (current + pending_side e ord Buy)\<bar> \<bar>sat64 (current - pending_side e ord Sell)\<bar>)"

definition risk_rejection :: "('f, 'x) engine \<Rightarrow> order \<Rightarrow> string option" where
  "risk_rejection e ord =
     (if risk_order_quantity e ord then Some ''quantity exceeds max_order_quantity''
      else if risk_open_orders e then Some ''open order count reached max_open_orders''
      else case max_abs_position (k_risk_limits (g_config e)) of
             None \<Rightarrow> None
           | Some maximum \<Rightarrow>
               if worst_position e ord > maximum mod 2 ^ 128
               then Some ''worst-case absolute position exceeds max_abs_position'' else None)"

section \<open>Commands\<close>

definition send_command :: "execution_command \<Rightarrow> ('f, 'x) engine \<Rightarrow> ('f, 'x) engine res" where
  "send_command cmd e =
     (case xc_send (k_client (g_config e)) (g_execution e) cmd (now (g_clock e)) of
        (x, r) \<Rightarrow> and_then r (\<lambda>_. Inr (e\<lparr>g_execution := x\<rparr>)))"

definition push_inflight :: "inflight_action \<Rightarrow> ('f, 'x) engine \<Rightarrow> ('f, 'x) engine" where
  "push_inflight action e =
     (let sq = g_sequence e + 1;
          release_at = sat64 (now (g_clock e) + insert_nanos (k_latency_model (g_config e)))
      in e\<lparr>g_sequence := sq,
           g_inflight := pq_push inflight_key
             \<lparr>if_release_at = release_at, if_sequence = sq, if_action = action\<rparr> (g_inflight e)\<rparr>)"

definition reject_order :: "order \<Rightarrow> string \<Rightarrow> ('f, 'x) engine \<Rightarrow> ('f, 'x) engine" where
  "reject_order ord reason e =
     set_order (o_id ord) (ord\<lparr>o_status := Rejected, o_reject_reason := Some reason\<rparr>) e"

definition accept :: "('f, 'x) engine \<Rightarrow> order_id \<Rightarrow> order_request \<Rightarrow> ('f, 'x) engine res" where
  "accept e i rq =
     (let refusal = order_refusal e rq;
          tnow = now (g_clock e)
      in and_then (order_new i (rq_instrument rq) (rq_outcome rq) (rq_side rq) (rq_kind rq)
                     (rq_quantity rq) (rq_time_in_force rq) tnow) (\<lambda>ord0.
           let ord = ord0\<lparr>o_tag := rq_tag rq, o_reduce_only := rq_reduce_only rq,
                          o_post_only := rq_post_only rq, o_trigger := rq_trigger rq\<rparr>;
               e1 = bump (\<lambda>m. m\<lparr>orders_submitted := orders_submitted m + 1\<rparr>) e;
               e2 = e1\<lparr>g_live_orders := filter (order_is_open e1) (g_live_orders e1)\<rparr>
           in case refusal of
                Some reason \<Rightarrow>
                  Inr (bump (\<lambda>m. m\<lparr>orders_rejected_invalid := orders_rejected_invalid m + 1\<rparr>)
                        (reject_order ord reason e2))
              | None \<Rightarrow>
             (case stopped_trading e2 (o_instrument ord) tnow of
                Some reason \<Rightarrow>
                  Inr (bump (\<lambda>m. m\<lparr>orders_rejected_expired := orders_rejected_expired m + 1\<rparr>)
                        (reject_order ord reason e2))
              | None \<Rightarrow>
             (case naked_short_rejection e2 ord of
                Some reason \<Rightarrow>
                  Inr (bump (\<lambda>m. m\<lparr>orders_rejected_naked_short := orders_rejected_naked_short m + 1\<rparr>)
                        (reject_order ord reason e2))
              | None \<Rightarrow>
             (case risk_rejection e2 ord of
                Some reason \<Rightarrow>
                  Inr (bump (\<lambda>m. m\<lparr>orders_rejected_risk := orders_rejected_risk m + 1\<rparr>)
                        (reject_order ord reason e2))
              | None \<Rightarrow>
                  and_then (send_command (Submit ord) e2) (\<lambda>e3.
                    let e4 = push_inflight (InFlightOrder ord) e3
                    in Inr (set_order i ord (e4\<lparr>g_live_orders := g_live_orders e4 @ [i]\<rparr>))))))))"

definition queue_set_operation :: "('f, 'x) engine \<Rightarrow> set_operation_request \<Rightarrow> ('f, 'x) engine" where
  "queue_set_operation e rq = push_inflight (InFlightSet rq) e"

text \<open>What an amendment makes of an order, and whether it goes to the back of the queue.\<close>

definition amended_limit :: "('f, 'x) engine \<Rightarrow> order \<Rightarrow> price option \<Rightarrow> (order \<times> bool) res" where
  "amended_limit e ord lim =
     (case lim of
        None \<Rightarrow> Inr (ord, False)
      | Some new_limit \<Rightarrow>
          and_then (set_get (g_instruments e) (o_instrument ord)) (\<lambda>ins.
          and_then (check_price ins new_limit) (\<lambda>_.
            Inr (if limit_price ord \<noteq> Some new_limit then (ord\<lparr>o_kind := Limit new_limit\<rparr>, True)
                 else (ord, False)))))"

definition amended_quantity :: "order \<Rightarrow> qty option \<Rightarrow> order \<times> bool \<Rightarrow> (order \<times> bool) res" where
  "amended_quantity ord quantity upd =
     (case quantity of
        None \<Rightarrow> Inr upd
      | Some new_quantity \<Rightarrow>
          if \<not> new_quantity > 0 then invalid ''an amended quantity must be positive; cancel instead''
          else if new_quantity < o_filled ord then invalid ''cannot amend an order below what is already filled''
          else Inr ((fst upd)\<lparr>o_quantity := new_quantity\<rparr>, snd upd \<or> new_quantity > o_quantity ord))"

definition amended :: "('f, 'x) engine \<Rightarrow> order \<Rightarrow> qty option \<Rightarrow> price option \<Rightarrow> (order \<times> bool) res" where
  "amended e ord quantity lim = and_then (amended_limit e ord lim) (amended_quantity ord quantity)"

text \<open>To the back of the queue, and back into the index under the new price.\<close>

definition requeue :: "order_id \<Rightarrow> order \<Rightarrow> slot \<Rightarrow> bool \<Rightarrow> ('f, 'x) engine \<Rightarrow> ('f, 'x) engine" where
  "requeue i updated slot was_resting e =
     (let e1 = join_queue updated (e\<lparr>g_queue_ahead := bt_remove i (g_queue_ahead e)\<rparr>)
      in if was_resting then e1\<lparr>g_resting_index := ri_insert (g_resting_index e1) updated slot\<rparr> else e1)"

definition amend :: "('f, 'x) engine \<Rightarrow> order_id \<Rightarrow> qty option \<Rightarrow> price option \<Rightarrow> ('f, 'x) engine res" where
  "amend e i quantity lim =
     (case bt_get (g_orders e) i of
        None \<Rightarrow> Inr e
      | Some ord \<Rightarrow>
          if \<not> is_open ord then Inr e
          else and_then (amended e ord quantity lim) (\<lambda>(updated, loses_priority).
               let was_resting = (i \<in> set (g_resting e))
               in and_then (slots_resolve (k_slots (g_config e)) (o_instrument ord) (o_outcome ord)) (\<lambda>slot.
                  let e1 = (if loses_priority \<and> was_resting
                            then e\<lparr>g_resting_index := ri_remove (g_resting_index e) ord slot\<rparr> else e);
                      e2 = bump (\<lambda>m. m\<lparr>orders_amended := orders_amended m + 1\<rparr>) (set_order i updated e1)
                  in and_then (send_command (Amend i quantity lim) e2) (\<lambda>e3.
                     Inr (if loses_priority then requeue i updated slot was_resting e3 else e3)))))"

definition reject_twap :: "('f, 'x) engine \<Rightarrow> twap_request \<Rightarrow> string \<Rightarrow> ('f, 'x) engine res" where
  "reject_twap e rq reason =
     (let i = g_next_order_id e + 1
      in and_then (order_new i (tq_instrument rq) (tq_outcome rq) (tq_side rq) Market (tq_quantity rq)
                     ImmediateOrCancel (now (g_clock e))) (\<lambda>ord.
           Inr (bump (\<lambda>m. m\<lparr>orders_submitted := orders_submitted m + 1,
                            orders_rejected_invalid := orders_rejected_invalid m + 1\<rparr>)
                (set_order i (ord\<lparr>o_status := Rejected, o_reject_reason := Some reason,
                    o_tag := Some (case tq_tag rq of None \<Rightarrow> ''twap'' | Some t \<Rightarrow> t)\<rparr>)
                  (e\<lparr>g_next_order_id := i\<rparr>)))))"

definition twap_refusal :: "('f, 'x) engine \<Rightarrow> twap_request \<Rightarrow> string option" where
  "twap_refusal e rq =
     (case set_get (g_instruments e) (tq_instrument rq) of
        Inr ins \<Rightarrow> (case check_outcome ins (tq_outcome rq) of
                      Inl _ \<Rightarrow> Some ''unknown outcome'' | Inr _ \<Rightarrow> None)
      | Inl _ \<Rightarrow> Some ''not an instrument this run carries'')"

definition start_twap :: "('f, 'x) engine \<Rightarrow> twap_request \<Rightarrow> ('f, 'x) engine res" where
  "start_twap e rq =
     (case twap_refusal e rq of
        Some reason \<Rightarrow> reject_twap e rq reason
      | None \<Rightarrow>
          and_then (twap_slices rq) (\<lambda>total.
            Inr (e\<lparr>g_twaps := g_twaps e @ [\<lparr>tw_request = rq, tw_started_at = now (g_clock e), tw_sent = 0,
                   tw_total_slices = total, tw_worked = 0, tw_next_at = now (g_clock e)\<rparr>]\<rparr>)))"

definition cancel_order :: "('f, 'x) engine \<Rightarrow> order_id \<Rightarrow> ('f, 'x) engine res" where
  "cancel_order e i =
     (case bt_get (g_orders e) i of
        None \<Rightarrow> Inr e
      | Some ord \<Rightarrow>
          if is_open ord
          then send_command (Cancel i) (remove_resting i (set_order i (ord\<lparr>o_status := Cancelled\<rparr>) e))
          else Inr e)"

fun handle_command :: "('f, 'x) engine \<Rightarrow> command \<Rightarrow> ('f, 'x) engine res" where
  "handle_command e (CSubmit i rq) = accept e i rq"
| "handle_command e (CCancel i) = cancel_order e i"
| "handle_command e (CAmend i quantity lim) = amend e i quantity lim"
| "handle_command e (CSet rq) = Inr (queue_set_operation e rq)"
| "handle_command e (CTwap rq) = start_twap e rq"

text \<open>
  Popping the queue until it is empty: handling a command never adds one, so the loop runs once for
  each command that was there at the start.
\<close>

definition pop_command :: "('f, 'x) engine \<Rightarrow> ('f, 'x) engine" where
  "pop_command e = e\<lparr>g_commands := tl (g_commands e)\<rparr>"

definition drain_commands :: "('f, 'x) engine \<Rightarrow> ('f, 'x) engine res" where
  "drain_commands e = fold_r (\<lambda>e cmd. handle_command (pop_command e) cmd) e (g_commands e)"

text \<open>The engine calls a strategy and acts on what it asked for: the two always come together.\<close>

definition call_strategy :: "('s \<Rightarrow> strategy_context \<Rightarrow> ('s \<times> strategy_context) exec) \<Rightarrow> ('f, 'x, 's) world
    \<Rightarrow> ('f, 'x, 's) world exec" where
  "call_strategy callback w =
     x_bind (with_context callback w) (\<lambda>(e, s). x_bind (Some (drain_commands e)) (\<lambda>e1. ok (e1, s)))"

section \<open>Checks on arrival\<close>

definition rests_at_front :: "('f, 'x) engine \<Rightarrow> order \<Rightarrow> price \<Rightarrow> bool" where
  "rests_at_front e resting price =
     (case bt_get (g_books e) (g_key e (o_instrument resting) (o_outcome resting)) of
        None \<Rightarrow> True
      | Some book \<Rightarrow>
          (case o_side resting of
             Buy \<Rightarrow> (case best_bid book of None \<Rightarrow> True | Some (bid, _) \<Rightarrow> price \<ge> bid)
           | Sell \<Rightarrow> (case best_ask book of None \<Rightarrow> True | Some (ask, _) \<Rightarrow> price \<le> ask)))"

definition crosses_own :: "('f, 'x) engine \<Rightarrow> order \<Rightarrow> order_id \<Rightarrow> bool" where
  "crosses_own e ord i =
     (case bt_get (g_orders e) i of
        None \<Rightarrow> False
      | Some resting \<Rightarrow>
          if o_instrument resting \<noteq> o_instrument ord \<or> o_outcome resting \<noteq> o_outcome ord
             \<or> o_side resting = o_side ord \<or> \<not> is_open resting then False
          else case limit_price resting of
                 None \<Rightarrow> False
               | Some resting_price \<Rightarrow>
                   (case limit_price ord of
                      None \<Rightarrow> rests_at_front e resting resting_price
                    | Some cap \<Rightarrow> (case o_side ord of Buy \<Rightarrow> resting_price \<le> cap
                                                 | Sell \<Rightarrow> resting_price \<ge> cap)))"

definition would_self_trade :: "('f, 'x) engine \<Rightarrow> order \<Rightarrow> order_id option" where
  "would_self_trade e ord = List.find (crosses_own e ord) (g_resting e)"

definition crossing_price :: "('f, 'x) engine \<Rightarrow> order \<Rightarrow> price option" where
  "crossing_price e ord =
     Option.bind (limit_price ord) (\<lambda>lim.
     Option.bind (bt_get (g_books e) (g_key e (o_instrument ord) (o_outcome ord))) (\<lambda>book.
       case o_side ord of
         Buy \<Rightarrow> (case best_ask book of Some (ask, _) \<Rightarrow> if ask \<le> lim then Some ask else None | None \<Rightarrow> None)
       | Sell \<Rightarrow> (case best_bid book of Some (bid, _) \<Rightarrow> if bid \<ge> lim then Some bid else None | None \<Rightarrow> None)))"

end
