(* ===== verification/Engine_Margin.thy ===== *)
theory Engine_Margin
  imports Engine_Admission
begin

text \<open>
  Margin, isolated collateral and the equity curve of the run kernel
  (\<open>h5i-db-backtest/src/engine.rs\<close>). The liquidations themselves trade, so they are in
  \<open>Engine_Matching\<close>; here is what they decide on.
\<close>

abbreviation g_mark :: "('f, 'x) engine \<Rightarrow> instrument_id \<Rightarrow> outcome_id \<Rightarrow> price option" where
  "g_mark e i oc \<equiv> bt_get (g_marks e) (g_key e i oc)"

abbreviation g_margin :: "('f, 'x) engine \<Rightarrow> margin_model option" where
  "g_margin e \<equiv> k_margin (g_config e)"

section \<open>Isolated collateral\<close>

definition cross_positions :: "('f, 'x) engine \<Rightarrow> position list" where
  "cross_positions e =
     filter (\<lambda>p. p_instrument p \<notin> set (k_isolated (g_config e))) (open_positions (g_portfolio e))"

text \<open>The initial margin of every open position of one instrument, at its entry price.\<close>

definition isolated_required :: "margin_model \<Rightarrow> instrument \<Rightarrow> instrument_id \<Rightarrow> portfolio \<Rightarrow> money res" where
  "isolated_required model found i pf =
     fold_r (\<lambda>required p.
       if p_instrument p \<noteq> i then Inr required
       else and_then (initial_margin model found (p_quantity p) (p_average_price p)) (\<lambda>m.
              money_add required m)) 0 (open_positions pf)"

definition posted_collateral :: "('f, 'x) engine \<Rightarrow> instrument_id \<Rightarrow> money" where
  "posted_collateral e i = (case bt_get (g_isolated_collateral e) i of None \<Rightarrow> 0 | Some m \<Rightarrow> m)"

definition rebalance_isolated :: "('f, 'x) engine \<Rightarrow> instrument_id \<Rightarrow> ('f, 'x) engine res" where
  "rebalance_isolated e i =
     (if i \<notin> set (k_isolated (g_config e)) then Inr e
      else case g_margin e of
             None \<Rightarrow> Inr e
           | Some model \<Rightarrow>
               and_then (set_get (g_instruments e) i) (\<lambda>found.
               and_then (isolated_required model found i (g_portfolio e)) (\<lambda>required.
               and_then (money_sub required (posted_collateral e i)) (\<lambda>delta.
                 if delta = 0 then Inr e
                 else and_then (money_sub (g_cash e) delta) (\<lambda>cash.
                   Inr (e\<lparr>g_cash := cash,
                          g_isolated_collateral :=
                            (if required = 0 then bt_remove i (g_isolated_collateral e)
                             else bt_insert i required (g_isolated_collateral e))\<rparr>))))))"

section \<open>The margin position of the account\<close>

text \<open>What a marked cross position adds to equity, or why it cannot be added.\<close>

definition marked_entry :: "('f, 'x) engine \<Rightarrow> money \<times> (currency \<times> money) list \<Rightarrow> position
    \<Rightarrow> (money \<times> (currency \<times> money) list) res" where
  "marked_entry e acc p =
     (case g_mark e (p_instrument p) (p_outcome p) of
        None \<Rightarrow> Inr acc
      | Some mark \<Rightarrow>
          and_then (set_get (g_instruments e) (p_instrument p)) (\<lambda>ins.
          and_then (if is_funded (i_kind ins) then exposure p mark else unrealized_pnl p mark) (\<lambda>v.
            let settlement = settlement_currency ins;
                rep = k_reporting_currency (g_config e)
            in case acc of (marked, unconvertible) \<Rightarrow>
                 if settlement = rep then map_ok (\<lambda>t. (t, unconvertible)) (money_add marked v)
                 else case fx_convert (k_fx (g_config e)) v settlement rep of
                        Inr converted \<Rightarrow> map_ok (\<lambda>t. (t, unconvertible)) (money_add marked converted)
                      | Inl _ \<Rightarrow> Inr (marked, unconvertible @ [(settlement, v)]))))"

definition engine_margin_state :: "('f, 'x) engine \<Rightarrow> margin_status option res" where
  "engine_margin_state e =
     (case g_margin e of
        None \<Rightarrow> Inr None
      | Some model \<Rightarrow>
          and_then (margin_requirement model (cross_positions e) (g_instruments e) (g_mark e)) (\<lambda>req.
          and_then (fold_r (marked_entry e) (0, []) (cross_positions e)) (\<lambda>(marked, unconvertible).
            let coll = \<lparr>v_total = g_cash e, v_currency = k_reporting_currency (g_config e),
                        v_unconvertible = unconvertible\<rparr>
            in map_ok Some (margin_state coll marked req))))"

definition partial_close_quantity :: "('f, 'x) engine \<Rightarrow> instrument_id \<Rightarrow> qty \<Rightarrow> price \<Rightarrow> qty res" where
  "partial_close_quantity e i quantity mark =
     (case g_margin e of
        None \<Rightarrow> Inr quantity
      | Some model \<Rightarrow>
          and_then (engine_margin_state e) (\<lambda>st.
            case st of
              None \<Rightarrow> Inr quantity
            | Some state \<Rightarrow>
                and_then (set_get (g_instruments e) i) (\<lambda>found.
                let held = fixed_abs quantity
                in and_then (maintenance_margin model found quantity mark) (\<lambda>full.
                   let need = sat64 (ms_maintenance state - ms_equity state)
                   in if need \<le> 0 \<or> full \<le> 0 then Inr 0
                      else let fraction = (need * held) sdiv full
                           in and_then (narrow (min fraction held) ''closing size'') (\<lambda>closing0.
                              let lot = max (lot_size found) 1;
                                  closing1 = wrap64 (sat64 (closing0 + (lot - 1)) sdiv lot * lot);
                                  closing = min closing1 held
                              in Inr (wrap64 (closing * sgn quantity)))))))"

definition can_fund :: "('f, 'x) engine \<Rightarrow> order \<Rightarrow> bool res" where
  "can_fund e ord =
     (case g_margin e of
        None \<Rightarrow> Inr True
      | Some model \<Rightarrow>
          and_then (engine_margin_state e) (\<lambda>st.
            case st of
              None \<Rightarrow> Inr True
            | Some state \<Rightarrow>
                if ms_incomplete state then Inr True
                else case g_mark e (o_instrument ord) (o_outcome ord) of
                       None \<Rightarrow> Inr True
                     | Some mark \<Rightarrow>
                         and_then (set_get (g_instruments e) (o_instrument ord)) (\<lambda>ins.
                         and_then (initial_margin model ins (remaining ord) mark) (\<lambda>needed.
                           Inr (available state \<ge> needed)))))"

section \<open>The equity curve\<close>

definition funded_or_unknown :: "instrument_set \<Rightarrow> instrument_id \<Rightarrow> bool" where
  "funded_or_unknown instruments i =
     (case set_get instruments i of Inl _ \<Rightarrow> True | Inr ins \<Rightarrow> is_funded (i_kind ins))"

text \<open>One open position's part of (marked exposure, account value, unrealised profit).\<close>

definition equity_entry :: "('f, 'x) engine \<Rightarrow> money \<times> money \<times> money \<Rightarrow> position
    \<Rightarrow> (money \<times> money \<times> money) res" where
  "equity_entry e acc p =
     (case g_mark e (p_instrument p) (p_outcome p) of
        None \<Rightarrow> Inr acc
      | Some mark \<Rightarrow>
          and_then (exposure p mark) (\<lambda>ex.
          and_then (unrealized_pnl p mark) (\<lambda>profit.
          case acc of (position_value, account_value, unrealized) \<Rightarrow>
            and_then (money_add position_value ex) (\<lambda>pv.
            and_then (money_add account_value
                        (if funded_or_unknown (g_instruments e) (p_instrument p) then ex else profit)) (\<lambda>av.
            and_then (money_add unrealized profit) (\<lambda>u. Inr (pv, av, u)))))))"

definition sample_marks :: "('f, 'x) engine \<Rightarrow> unix_nanos \<Rightarrow> ('f, 'x) engine" where
  "sample_marks e ts =
     (if \<not> k_record_mark_curve (g_config e) then e
      else e\<lparr>g_mark_curve := g_mark_curve e
        @ List.map_filter (\<lambda>(slot, price).
            case slots_name (k_slots (g_config e)) slot of (i, oc) \<Rightarrow>
              (case set_get (g_instruments e) i of
                 Inl _ \<Rightarrow> None
               | Inr found \<Rightarrow>
                   if is_probability (i_kind found)
                   then Some \<lparr>mp_ts = ts, mp_instrument = i, mp_outcome = oc, mp_price = price\<rparr>
                   else None)) (g_marks e)\<rparr>)"

definition push_equity :: "('f, 'x) engine \<Rightarrow> unix_nanos \<Rightarrow> ('f, 'x) engine res" where
  "push_equity e ts =
     and_then (fold_r (equity_entry e) (0, 0, 0) (open_positions (g_portfolio e))) (\<lambda>(pv, av, u).
     and_then (fold_r money_add av (map snd (g_isolated_collateral e))) (\<lambda>account_value.
     and_then (money_add (g_cash e) account_value) (\<lambda>equity.
     and_then (portfolio_realized_pnl (g_portfolio e)) (\<lambda>realized.
       Inr (sample_marks (e\<lparr>g_equity := g_equity e @
         [\<lparr>ep_ts = ts, ep_cash = g_cash e, ep_position_value = pv, ep_equity = equity,
           ep_realized_pnl = realized, ep_unrealized_pnl = u\<rparr>]\<rparr>) ts)))))"

definition sample_equity :: "('f, 'x) engine \<Rightarrow> unix_nanos \<Rightarrow> ('f, 'x) engine res" where
  "sample_equity e ts =
     (if (case g_next_equity_sample e of None \<Rightarrow> True | Some n \<Rightarrow> ts \<ge> n)
      then and_then (push_equity e ts) (\<lambda>e1.
             Inr (e1\<lparr>g_next_equity_sample := Some (sat64 (ts + k_equity_interval (g_config e1)))\<rparr>))
      else Inr e)"

end
