(* ===== verification/Engine_Matching.thy ===== *)
theory Engine_Matching
  imports Engine_Margin
begin

text \<open>
  Fills (\<open>h5i-db-backtest/src/engine.rs\<close>): booking one fill, matching an order against the book,
  queue consumption by prints, complete-set operations and liquidations. An operation that calls a
  strategy acts on the engine together with the strategy's state.
\<close>

section \<open>Booking a fill\<close>

definition order_fill :: "order_id \<Rightarrow> order \<Rightarrow> fill_terms \<Rightarrow> unix_nanos \<Rightarrow> fill" where
  "order_fill i ord ft ts =
     \<lparr>f_order_id = i, f_instrument = o_instrument ord, f_outcome = o_outcome ord, f_side = o_side ord,
      f_price = ft_price ft, f_quantity = ft_quantity ft, f_commission = ft_commission ft,
      f_is_taker = (ft_origin ft = TradeFill True), f_ts = ts, f_tag = o_tag ord\<rparr>"

definition realized_of :: "portfolio \<Rightarrow> instrument_id \<Rightarrow> outcome_id \<Rightarrow> money" where
  "realized_of pf i oc = (case position_of pf i oc of None \<Rightarrow> 0 | Some p \<Rightarrow> p_realized_pnl p)"

text \<open>The cash of the account after a fill has moved the portfolio from \<open>pf\<close> to \<open>pf'\<close>.\<close>

definition cash_after_fill :: "instrument \<Rightarrow> portfolio \<Rightarrow> portfolio \<Rightarrow> fill \<Rightarrow> money \<Rightarrow> money res" where
  "cash_after_fill ins pf pf' f cash =
     (if is_funded (i_kind ins)
      then and_then (notional (f_price f) (f_quantity f)) (\<lambda>gross.
           let delta = (case f_side f of Buy \<Rightarrow> wrap64 (- gross) | Sell \<Rightarrow> gross)
           in and_then (money_add cash delta) (\<lambda>c. money_sub c (f_commission f)))
      else and_then (money_sub (realized_of pf' (f_instrument f) (f_outcome f))
                               (realized_of pf (f_instrument f) (f_outcome f))) (\<lambda>d. money_add cash d))"

definition fee_closed :: "order_id \<Rightarrow> ('f, 'x) engine \<Rightarrow> ('f, 'x) engine" where
  "fee_closed i e = e\<lparr>g_fee_state := fm_order_closed (k_fee_model (g_config e)) (g_fee_state e) i\<rparr>"

fun count_fill :: "fill_origin \<Rightarrow> run_metrics \<Rightarrow> run_metrics" where
  "count_fill (TradeFill True) m = m\<lparr>fills_taker := fills_taker m + 1\<rparr>"
| "count_fill (TradeFill False) m = m\<lparr>fills_maker := fills_maker m + 1\<rparr>"
| "count_fill CompleteSet m = m"

text \<open>Everything \<open>book_fill\<close> does before the strategy hears of the fill.\<close>

definition apply_fill :: "('f, 'x) engine \<Rightarrow> order_id \<Rightarrow> order \<Rightarrow> fill_terms \<Rightarrow> unix_nanos \<Rightarrow> ('f, 'x) engine res" where
  "apply_fill e i ord ft ts =
     (let f = order_fill i ord ft ts
      in and_then (set_get (g_instruments e) (o_instrument ord)) (\<lambda>ins.
         and_then (portfolio_step (g_portfolio e) f) (\<lambda>pf.
         and_then (cash_after_fill ins (g_portfolio e) pf f (g_cash e)) (\<lambda>cash.
         and_then (rebalance_isolated (e\<lparr>g_portfolio := pf, g_cash := cash\<rparr>) (o_instrument ord)) (\<lambda>e1.
         and_then (record_fill ord (ft_quantity ft)) (\<lambda>ord1.
           let e2 = set_order i ord1 e1;
               e3 = (if order_is_open e2 i then e2 else fee_closed i (remove_resting i e2));
               e4 = bump (count_fill (ft_origin ft)) e3
           in Inr (e4\<lparr>g_fills := g_fills e4 @ [f]\<rparr>)))))))"

definition book_fill :: "'s strategy \<Rightarrow> ('f, 'x, 's) world \<Rightarrow> order_id \<Rightarrow> fill_terms \<Rightarrow> unix_nanos
    \<Rightarrow> ('f, 'x, 's) world exec" where
  "book_fill S w i ft ts =
     (case w of (e, s) \<Rightarrow>
        (case bt_get (g_orders e) i of
           None \<Rightarrow> None
         | Some ord \<Rightarrow>
             x_bind (Some (apply_fill e i ord ft ts)) (\<lambda>e1.
             call_strategy (\<lambda>st c. on_fill S st c (order_fill i ord ft ts)) (e1, s))))"

definition execute :: "'s strategy \<Rightarrow> ('f, 'x, 's) world \<Rightarrow> order_id \<Rightarrow> price \<Rightarrow> qty \<Rightarrow> bool \<Rightarrow> unix_nanos
    \<Rightarrow> ('f, 'x, 's) world exec" where
  "execute S w i price quantity is_taker ts =
     (case w of (e, s) \<Rightarrow>
        (case bt_get (g_orders e) i of
           None \<Rightarrow> None
         | Some ord \<Rightarrow>
             x_bind (Some (set_get (g_instruments e) (o_instrument ord))) (\<lambda>ins.
             let fc = \<lparr>fc_order_id = i, fc_instrument = ins, fc_side = o_side ord, fc_price = price,
                       fc_quantity = quantity, fc_is_taker = is_taker, fc_ts = ts\<rparr>
             in case fm_commission (k_fee_model (g_config e)) (g_fee_state e) fc of
                  (st, r) \<Rightarrow>
                    x_bind (Some r) (\<lambda>commission.
                      book_fill S (e\<lparr>g_fee_state := st\<rparr>, s) i
                        \<lparr>ft_price = price, ft_quantity = quantity, ft_origin = TradeFill is_taker,
                         ft_commission = commission\<rparr> ts))))"

section \<open>Matching one order\<close>

definition close_order :: "order_id \<Rightarrow> order_status \<Rightarrow> ('f, 'x) engine \<Rightarrow> ('f, 'x) engine" where
  "close_order i status e =
     (let e1 = (case bt_get (g_orders e) i of
                  None \<Rightarrow> e
                | Some ord \<Rightarrow> if is_open ord then set_order i (ord\<lparr>o_status := status\<rparr>) e else e);
          e2 = remove_resting i e1
      in if is_terminal status then fee_closed i e2 else e2)"

text \<open>What the time in force makes of an order that is still open after matching.\<close>

definition time_in_force_rule :: "order_id \<Rightarrow> order \<Rightarrow> ('f, 'x) engine \<Rightarrow> ('f, 'x) engine" where
  "time_in_force_rule i ord e =
     (case o_time_in_force ord of
        GoodTilCancel \<Rightarrow>
          if limit_price ord \<noteq> None \<and> i \<notin> set (g_resting e) then add_resting ord e else e
      | _ \<Rightarrow> close_order i Cancelled e)"

definition no_liquidity :: "order_id \<Rightarrow> ('f, 'x) engine \<Rightarrow> ('f, 'x) engine" where
  "no_liquidity i e =
     (case bt_get (g_orders e) i of None \<Rightarrow> e | Some ord \<Rightarrow> time_in_force_rule i ord e)"

text \<open>A refusal on the fill path: the market has stopped trading.\<close>

definition refuse_stopped :: "order_id \<Rightarrow> order \<Rightarrow> string \<Rightarrow> ('f, 'x) engine \<Rightarrow> ('f, 'x) engine" where
  "refuse_stopped i ord reason e =
     bump (\<lambda>m. m\<lparr>orders_rejected_expired := orders_rejected_expired m + 1\<rparr>)
       (fee_closed i (remove_resting i
         (set_order i (ord\<lparr>o_status := Rejected, o_reject_reason := Some reason\<rparr>) e)))"

definition closable :: "portfolio \<Rightarrow> order \<Rightarrow> raw" where
  "closable pf ord =
     (let held = position_quantity pf (o_instrument ord) (o_outcome ord)
      in case o_side ord of Buy \<Rightarrow> max (wrap64 (- held)) 0 | Sell \<Rightarrow> max held 0)"

definition wanted_quantity :: "portfolio \<Rightarrow> order \<Rightarrow> qty" where
  "wanted_quantity pf ord =
     (if o_reduce_only ord then min (remaining ord) (closable pf ord) else remaining ord)"

definition effective_book :: "fill_model \<Rightarrow> order_book \<Rightarrow> order \<Rightarrow> order_book" where
  "effective_book fm book ord = (case book_for_fill fm book ord of None \<Rightarrow> book | Some b \<Rightarrow> b)"

definition execute_all :: "'s strategy \<Rightarrow> order_id \<Rightarrow> bool \<Rightarrow> unix_nanos \<Rightarrow> ('f, 'x, 's) world
    \<Rightarrow> (price \<times> qty) list \<Rightarrow> ('f, 'x, 's) world exec" where
  "execute_all S i is_taker ts = fold_x (\<lambda>w (price, quantity). execute S w i price quantity is_taker ts)"

definition try_fill :: "'s strategy \<Rightarrow> ('f, 'x, 's) world \<Rightarrow> order_id \<Rightarrow> unix_nanos
    \<Rightarrow> ('f, 'x, 's) world exec" where
  "try_fill S w i ts =
     (case w of (e, s) \<Rightarrow>
        (case bt_get (g_orders e) i of
           None \<Rightarrow> ok w
         | Some ord \<Rightarrow>
             if \<not> is_open ord \<or> o_status ord = InFlight then ok w
             else case stopped_trading e (o_instrument ord) ts of
                    Some reason \<Rightarrow> ok (refuse_stopped i ord reason e, s)
                  | None \<Rightarrow>
             (case bt_get (g_books e) (g_key e (o_instrument ord) (o_outcome ord)) of
                None \<Rightarrow> ok (no_liquidity i e, s)
              | Some book \<Rightarrow>
                  let effective = effective_book (k_fill_model (g_config e)) book ord;
                      wanted = wanted_quantity (g_portfolio e) ord
                  in if o_reduce_only ord \<and> \<not> wanted > 0 then ok (close_order i Cancelled e, s)
                     else let wk = walk effective (o_side ord) wanted (limit_price ord)
                          in if o_time_in_force ord = FillOrKill \<and> filled wk \<noteq> wanted
                             then ok (close_order i Cancelled e, s)
                             else x_bind (execute_all S i (\<not> o_post_only ord) ts w (bw_fills wk)) (\<lambda>(e1, s1).
                               case bt_get (g_orders e1) i of
                                 None \<Rightarrow> None
                               | Some ord1 \<Rightarrow>
                                   ok (if is_open ord1 then time_in_force_rule i ord1 e1 else e1, s1)))))"

section \<open>Matching what rests\<close>

definition matching_candidates :: "('f, 'x) engine \<Rightarrow> event_record \<Rightarrow> slot \<Rightarrow> order_book \<Rightarrow> order_id list" where
  "matching_candidates e r key book =
     (if (case e_event r of Corporate _ \<Rightarrow> True | _ \<Rightarrow> False)
      then filter (\<lambda>i. case bt_get (g_orders e) i of
                         None \<Rightarrow> False
                       | Some ord \<Rightarrow> o_instrument ord = e_instrument r \<and> is_open ord) (g_resting e)
      else if preserves_book_prices (k_fill_model (g_config e))
      then sort (crossing_top (g_resting_index e) key (map_option fst (best_bid book)) (map_option fst (best_ask book)))
      else sort (all_for_market (g_resting_index e) key))"

definition match_resting :: "'s strategy \<Rightarrow> ('f, 'x, 's) world \<Rightarrow> event_record \<Rightarrow> slot
    \<Rightarrow> ('f, 'x, 's) world exec" where
  "match_resting S w r key =
     (case w of (e, s) \<Rightarrow>
        (case bt_get (g_books e) key of
           None \<Rightarrow> ok w
         | Some book \<Rightarrow>
             let candidates = matching_candidates e r key book
             in if candidates = [] then ok w
                else x_bind (fold_x (\<lambda>w i. try_fill S w i (record_ts r)) w candidates) (\<lambda>(e1, s1).
                       ok (prune_resting e1, s1))))"

section \<open>Prints and the passive queue\<close>

text \<open>What is left of a print and of an order's queue once the print has gone through it.\<close>

definition queue_step :: "raw \<Rightarrow> raw \<Rightarrow> raw \<times> raw" where
  "queue_step rem ahead =
     (if ahead > 0 then let consumed = min rem ahead in (rem - consumed, ahead - consumed) else (rem, ahead))"

fun consume_eligible :: "'s strategy \<Rightarrow> unix_nanos \<Rightarrow> ('f, 'x, 's) world \<Rightarrow> raw \<Rightarrow> (price \<times> order_id) list
    \<Rightarrow> ('f, 'x, 's) world exec" where
  "consume_eligible S ts w rem [] = ok w"
| "consume_eligible S ts w rem ((lim, i) # rest) =
     (if rem \<le> 0 then ok w
      else case w of (e, s) \<Rightarrow>
        let ahead = (case bt_get (g_queue_ahead e) i of None \<Rightarrow> 0 | Some a \<Rightarrow> a)
        in case queue_step rem ahead of (rem1, ahead1) \<Rightarrow>
        let e1 = e\<lparr>g_queue_ahead := bt_insert i ahead1 (g_queue_ahead e)\<rparr>
        in if rem1 \<le> 0 then ok (e1, s)
           else let wanted = (case bt_get (g_orders e1) i of None \<Rightarrow> 0 | Some ord \<Rightarrow> remaining ord);
                    fill = min rem1 wanted
                in x_bind (if fill > 0 then execute S (e1, s) i lim fill False ts else ok (e1, s)) (\<lambda>(e2, s2).
                   let e3 = (if order_is_open e2 i then e2
                             else e2\<lparr>g_queue_ahead := bt_remove i (g_queue_ahead e2)\<rparr>)
                   in consume_eligible S ts (e3, s2) (if fill > 0 then rem1 - fill else rem1) rest))"

definition consume_queue_side :: "'s strategy \<Rightarrow> ('f, 'x, 's) world \<Rightarrow> event_record \<Rightarrow> price \<Rightarrow> qty \<Rightarrow> side
    \<Rightarrow> ('f, 'x, 's) world exec" where
  "consume_queue_side S w r price sz passive =
     (let e = fst w;
          eligible = reached_by_trade (g_resting_index e) (g_key e (e_instrument r) (e_outcome r)) passive price
      in x_bind (consume_eligible S (record_ts r) w sz eligible) (\<lambda>(e1, s1). ok (prune_resting e1, s1)))"

definition consume_queue :: "'s strategy \<Rightarrow> ('f, 'x, 's) world \<Rightarrow> event_record \<Rightarrow> price \<Rightarrow> qty \<Rightarrow> side option
    \<Rightarrow> ('f, 'x, 's) world exec" where
  "consume_queue S w r price sz aggressor =
     (let fm = k_fill_model (g_config (fst w))
      in if \<not> uses_queue_position fm then ok w
         else case aggressor of
                Some sd \<Rightarrow> consume_queue_side S w r price sz (opposite sd)
              | None \<Rightarrow>
                  if fills_on_unknown_aggressor fm
                  then x_bind (consume_queue_side S w r price sz Buy) (\<lambda>w1.
                         consume_queue_side S w1 r price sz Sell)
                  else ok w)"

section \<open>Orders of the venue\<close>

text \<open>
  A market order the engine itself creates (a liquidation, a delisting, a TWAP child or a leg of a
  complete set): accepted on the spot under a fresh number.
\<close>

definition venue_order :: "('f, 'x) engine \<Rightarrow> instrument_id \<Rightarrow> outcome_id \<Rightarrow> side \<Rightarrow> qty \<Rightarrow> bool \<Rightarrow> string
    \<Rightarrow> unix_nanos \<Rightarrow> (('f, 'x) engine \<times> order_id) res" where
  "venue_order e i oc sd quantity reduce tag ts =
     (let n = g_next_order_id e + 1
      in and_then (order_new n i oc sd Market quantity ImmediateOrCancel ts) (\<lambda>ord.
           Inr (set_order n (ord\<lparr>o_status := Accepted, o_accepted_at := Some ts, o_reduce_only := reduce,
                                o_tag := Some tag\<rparr>) (e\<lparr>g_next_order_id := n\<rparr>), n)))"

definition closing_side :: "qty \<Rightarrow> side" where
  "closing_side quantity = (if quantity > 0 then Sell else Buy)"

section \<open>Complete sets\<close>

definition set_basis :: "('f, 'x) engine \<Rightarrow> instrument \<Rightarrow> price list res" where
  "set_basis e ins =
     (let quoted = map (\<lambda>oc. case g_mark e (i_id ins) oc of
                                None \<Rightarrow> None | Some p \<Rightarrow> if p > 0 then Some p else None) (outcome_ids ins)
      in if list_all (\<lambda>q. q \<noteq> None) quoted then normalise_to_one (map the quoted)
         else uniform_prices (outcome_count ins))"

definition set_operation_refusal :: "('f, 'x) engine \<Rightarrow> instrument \<Rightarrow> side \<Rightarrow> qty \<Rightarrow> money \<Rightarrow> unix_nanos
    \<Rightarrow> string option res" where
  "set_operation_refusal e ins sd sets cost ts =
     (case stopped_trading e (i_id ins) ts of
        Some reason \<Rightarrow> Inr (Some reason)
      | None \<Rightarrow>
          (case sd of
             Buy \<Rightarrow>
               and_then (notional PROBABILITY_MAX sets) (\<lambda>gross.
               and_then (money_add gross cost) (\<lambda>needed.
                 Inr (if g_cash e < needed then Some ''minting costs more than the account holds'' else None)))
           | Sell \<Rightarrow>
               Inr (if list_ex (\<lambda>oc. position_quantity (g_portfolio e) (i_id ins) oc < sets) (outcome_ids ins)
                    then Some ''redeeming needs the whole set in hand'' else None)))"

text \<open>How many sets an operation moves, and on which side of the legs.\<close>

definition set_quantity :: "instrument \<Rightarrow> set_operation_request \<Rightarrow> (qty \<times> side) res" where
  "set_quantity ins rq =
     (case sq_kind rq of
        Mint \<Rightarrow> Inr (sq_quantity rq, Buy)
      | Redeem \<Rightarrow> Inr (sq_quantity rq, Sell)
      | Convert held \<Rightarrow>
          if \<not> neg_risk ins then invalid ''not a negative-risk market''
          else let distinct_held = remdups (sort held)
               in if length distinct_held \<noteq> length held
                  then invalid ''a conversion must name each outcome at most once''
                  else and_then (fold_r (\<lambda>_ oc. check_outcome ins oc) () distinct_held) (\<lambda>_.
                    if length distinct_held < 2 \<or> length distinct_held \<ge> outcome_count ins
                    then invalid ''a conversion must name between 2 and all but one outcomes''
                    else and_then (ok_or (Overflow ''conversion set count'')
                                     (checked64 (sq_quantity rq * int (length distinct_held - 1))))
                           (\<lambda>sets. Inr (sets, Sell))))"

definition set_leg :: "'s strategy \<Rightarrow> instrument \<Rightarrow> side \<Rightarrow> qty \<Rightarrow> money \<Rightarrow> string \<Rightarrow> unix_nanos
    \<Rightarrow> ('f, 'x, 's) world \<times> money \<Rightarrow> nat \<times> price \<Rightarrow> (('f, 'x, 's) world \<times> money) exec" where
  "set_leg S ins sd sets cost tag ts acc leg =
     (case acc of ((e, s), cash_delta) \<Rightarrow> case leg of (index, price) \<Rightarrow>
        x_bind (Some (venue_order e (i_id ins) index sd sets False tag ts)) (\<lambda>(e1, n).
        x_bind (Some (notional price sets)) (\<lambda>amount.
        x_bind (Some (case sd of Buy \<Rightarrow> money_add cash_delta amount
                                | Sell \<Rightarrow> money_sub cash_delta amount)) (\<lambda>delta.
        x_bind (book_fill S (e1, s) n
                 \<lparr>ft_price = price, ft_quantity = sets, ft_origin = CompleteSet,
                  ft_commission = (if index = 0 then cost else 0)\<rparr> ts) (\<lambda>w.
          ok (w, delta))))))"

definition set_entry :: "instrument \<Rightarrow> set_operation_request \<Rightarrow> qty \<Rightarrow> money \<Rightarrow> unix_nanos \<Rightarrow> set_operation" where
  "set_entry ins rq sets cost ts =
     \<lparr>so_ts = ts, so_instrument = i_id ins, so_kind = sq_kind rq, so_sets = sets, so_cash_delta = 0,
      so_cost = cost, so_rejected = None\<rparr>"

definition refuse_set_operation :: "set_operation \<Rightarrow> string \<Rightarrow> ('f, 'x) engine \<Rightarrow> ('f, 'x) engine" where
  "refuse_set_operation entry reason e =
     bump (\<lambda>m. m\<lparr>set_operations_rejected := set_operations_rejected m + 1\<rparr>)
       (e\<lparr>g_set_operations := g_set_operations e @
          [entry\<lparr>so_sets := 0, so_cash_delta := 0, so_cost := 0, so_rejected := Some reason\<rparr>]\<rparr>)"

definition perform_set_operation :: "'s strategy \<Rightarrow> ('f, 'x, 's) world \<Rightarrow> instrument \<Rightarrow> side \<Rightarrow> set_operation \<Rightarrow> string
    \<Rightarrow> unix_nanos \<Rightarrow> ('f, 'x, 's) world exec" where
  "perform_set_operation S w ins sd entry tag ts =
     x_bind (Some (set_basis (fst w) ins)) (\<lambda>basis.
     x_bind (fold_x (set_leg S ins sd (so_sets entry) (so_cost entry) tag ts) (w, 0) (enumerate 0 basis))
       (\<lambda>((e1, s1), cash_delta).
         ok (bump (\<lambda>m. m\<lparr>m_set_operations := m_set_operations m + 1\<rparr>)
              (e1\<lparr>g_set_operations := g_set_operations e1 @ [entry\<lparr>so_cash_delta := cash_delta\<rparr>]\<rparr>), s1)))"

definition run_set_operation :: "'s strategy \<Rightarrow> ('f, 'x, 's) world \<Rightarrow> set_operation_request \<Rightarrow> unix_nanos
    \<Rightarrow> ('f, 'x, 's) world exec" where
  "run_set_operation S w rq ts =
     (case w of (e, s) \<Rightarrow>
        x_bind (Some (set_get (g_instruments e) (sq_instrument rq))) (\<lambda>ins.
        if \<not> supports_complete_set ins then Some (invalid ''does not trade as a complete set'')
        else if \<not> sq_quantity rq > 0 then Some (invalid ''a set operation needs a positive quantity'')
        else let cost = cost_for_kind (k_set_costs (g_config e)) (sq_kind rq);
                 tag = (case sq_tag rq of None \<Rightarrow> set_kind_as_str (sq_kind rq) | Some t \<Rightarrow> t)
             in x_bind (Some (set_quantity ins rq)) (\<lambda>(sets, sd).
                x_bind (Some (set_operation_refusal e ins sd sets cost ts)) (\<lambda>refusal.
                  case refusal of
                    Some reason \<Rightarrow> ok (refuse_set_operation (set_entry ins rq sets cost ts) reason e, s)
                  | None \<Rightarrow> perform_set_operation S w ins sd (set_entry ins rq sets cost ts) tag ts))))"

section \<open>Liquidation\<close>

text \<open>
  Close a position with an order of the venue and record what that order achieved; the tag is the
  only difference between the cross and the isolated call.
\<close>

definition liquidate :: "'s strategy \<Rightarrow> string \<Rightarrow> ('f, 'x, 's) world \<Rightarrow> instrument_id \<Rightarrow> outcome_id \<Rightarrow> qty
    \<Rightarrow> price \<Rightarrow> money \<Rightarrow> money \<Rightarrow> unix_nanos \<Rightarrow> ('f, 'x, 's) world exec" where
  "liquidate S tag w i oc closing mark equity maintenance ts =
     (case w of (e, s) \<Rightarrow>
        x_bind (Some (venue_order e i oc (closing_side closing) (fixed_abs closing) False tag ts)) (\<lambda>(e1, n).
        x_bind (try_fill S (e1, s) n ts) (\<lambda>(e2, s2).
          let achieved = (case bt_get (g_orders e2) n of None \<Rightarrow> 0 | Some attempt \<Rightarrow> o_filled attempt)
          in if achieved = 0 then ok (e2, s2)
             else ok (bump (\<lambda>m. m\<lparr>m_liquidations := m_liquidations m + 1\<rparr>)
                    (e2\<lparr>g_liquidations := g_liquidations e2 @
                       [\<lparr>lq_instrument = i, lq_outcome = oc, lq_quantity = achieved, lq_mark = mark,
                         lq_equity = equity, lq_maintenance = maintenance\<rparr>]\<rparr>), s2))))"

definition doomed_entry :: "('f, 'x) engine \<Rightarrow> unix_nanos \<Rightarrow> (instrument_id \<times> outcome_id \<times> qty \<times> money) list
    \<Rightarrow> position \<Rightarrow> (instrument_id \<times> outcome_id \<times> qty \<times> money) list res" where
  "doomed_entry e ts acc p =
     (case g_mark e (p_instrument p) (p_outcome p) of
        None \<Rightarrow> Inr acc
      | Some mark \<Rightarrow>
          if stopped_trading e (p_instrument p) ts \<noteq> None then Inr acc
          else and_then (set_get (g_instruments e) (p_instrument p)) (\<lambda>ins.
               and_then (case g_margin e of
                           Some model \<Rightarrow> maintenance_margin model ins (p_quantity p) mark
                         | None \<Rightarrow> Inr 0) (\<lambda>req.
                 Inr (acc @ [(p_instrument p, p_outcome p, p_quantity p, req)]))))"

definition doomed_positions :: "('f, 'x) engine \<Rightarrow> unix_nanos \<Rightarrow> (instrument_id \<times> outcome_id \<times> qty \<times> money) list res" where
  "doomed_positions e ts =
     map_ok (sort_key (\<lambda>(i, oc, _, req). (- req, i, oc)))
       (fold_r (doomed_entry e ts) [] (cross_positions e))"

fun close_doomed :: "'s strategy \<Rightarrow> margin_status \<Rightarrow> unix_nanos \<Rightarrow> ('f, 'x, 's) world
    \<Rightarrow> (instrument_id \<times> outcome_id \<times> qty \<times> money) list \<Rightarrow> ('f, 'x, 's) world exec" where
  "close_doomed S state ts w [] = ok w"
| "close_doomed S state ts w ((i, oc, quantity, req) # rest) =
     (let e = fst w; policy = k_liquidation (g_config e)
      in x_bind (if policy = Partial
                 then Some (map_ok (\<lambda>st. case st of None \<Rightarrow> False | Some m \<Rightarrow> ms_liquidatable m) (engine_margin_state e))
                 else ok True) (\<lambda>go.
         if \<not> go then ok w
         else case g_mark e i oc of
                None \<Rightarrow> close_doomed S state ts w rest
              | Some mark \<Rightarrow>
                  x_bind (Some (case policy of
                                  CloseAll \<Rightarrow> Inr quantity
                                | Partial \<Rightarrow> partial_close_quantity e i quantity mark)) (\<lambda>closing.
                  if closing = 0 then close_doomed S state ts w rest
                  else x_bind (liquidate S ''liquidation'' w i oc closing mark (ms_equity state)
                                 (ms_maintenance state) ts) (\<lambda>w1. close_doomed S state ts w1 rest))))"

definition check_liquidation :: "'s strategy \<Rightarrow> ('f, 'x, 's) world \<Rightarrow> unix_nanos \<Rightarrow> ('f, 'x, 's) world exec" where
  "check_liquidation S w ts =
     x_bind (Some (engine_margin_state (fst w))) (\<lambda>st.
       case st of
         None \<Rightarrow> ok w
       | Some state \<Rightarrow>
           if \<not> ms_liquidatable state then ok w
           else x_bind (Some (doomed_positions (fst w) ts)) (\<lambda>doomed. close_doomed S state ts w doomed))"

text \<open>One open position's part of (unrealised profit, maintenance, what is to be closed).\<close>

definition isolated_entry :: "('f, 'x) engine \<Rightarrow> margin_model \<Rightarrow> instrument_id
    \<Rightarrow> money \<times> money \<times> (outcome_id \<times> qty \<times> price) list \<Rightarrow> position
    \<Rightarrow> (money \<times> money \<times> (outcome_id \<times> qty \<times> price) list) res" where
  "isolated_entry e model i acc p =
     (if p_instrument p \<noteq> i then Inr acc
      else case g_mark e i (p_outcome p) of
             None \<Rightarrow> Inr acc
           | Some mark \<Rightarrow>
               and_then (set_get (g_instruments e) i) (\<lambda>found.
               and_then (unrealized_pnl p mark) (\<lambda>u.
               case acc of (unrealized, maintenance, opn) \<Rightarrow>
               and_then (money_add unrealized u) (\<lambda>unrealized1.
               and_then (maintenance_margin model found (p_quantity p) mark) (\<lambda>m.
               and_then (money_add maintenance m) (\<lambda>maintenance1.
                 Inr (unrealized1, maintenance1, opn @ [(p_outcome p, p_quantity p, mark)])))))))"

definition isolated_call_for :: "('f, 'x) engine \<Rightarrow> margin_model \<Rightarrow> unix_nanos \<Rightarrow> isolated_call list \<Rightarrow> instrument_id
    \<Rightarrow> isolated_call list res" where
  "isolated_call_for e model ts acc i =
     (if stopped_trading e i ts \<noteq> None then Inr acc
      else and_then (fold_r (isolated_entry e model i) (0, 0, []) (open_positions (g_portfolio e)))
             (\<lambda>(unrealized, maintenance, opn).
               if opn = [] then Inr acc
               else and_then (money_add (posted_collateral e i) unrealized) (\<lambda>equity.
                 if equity \<ge> maintenance then Inr acc
                 else Inr (acc @ [\<lparr>ic_instrument = i, ic_equity = equity, ic_maintenance = maintenance,
                                   ic_open = opn\<rparr>]))))"

definition isolated_calls :: "('f, 'x) engine \<Rightarrow> unix_nanos \<Rightarrow> isolated_call list res" where
  "isolated_calls e ts =
     (case g_margin e of
        None \<Rightarrow> Inr []
      | Some model \<Rightarrow> fold_r (isolated_call_for e model ts) [] (k_isolated (g_config e)))"

definition close_isolated :: "'s strategy \<Rightarrow> unix_nanos \<Rightarrow> ('f, 'x, 's) world \<Rightarrow> isolated_call
    \<Rightarrow> ('f, 'x, 's) world exec" where
  "close_isolated S ts w call =
     fold_x (\<lambda>w (oc, quantity, mark).
         liquidate S ''liquidation:isolated'' w (ic_instrument call) oc quantity mark (ic_equity call)
           (ic_maintenance call) ts) w (ic_open call)"

definition check_isolated_liquidation :: "'s strategy \<Rightarrow> ('f, 'x, 's) world \<Rightarrow> unix_nanos
    \<Rightarrow> ('f, 'x, 's) world exec" where
  "check_isolated_liquidation S w ts =
     x_bind (Some (isolated_calls (fst w) ts)) (\<lambda>doomed. fold_x (close_isolated S ts) w doomed)"

end
