(* ===== verification/Engine_Loop.thy ===== *)
theory Engine_Loop
  imports Engine_Matching
begin

text \<open>
  The loop of the run kernel (\<open>h5i-db-backtest/src/engine.rs\<close>): what a record does to the books and
  to the account, expiry, triggers, orders worked over time, arrivals, one step, a whole run and
  its result.
\<close>

section \<open>Marks\<close>

definition set_book_mark :: "slot \<Rightarrow> price \<Rightarrow> ('f, 'x) engine \<Rightarrow> ('f, 'x) engine" where
  "set_book_mark key price e =
     (let effective = (case k_mark_source (g_config e) of
            VenueMark \<Rightarrow> if g_venue_marks e \<noteq> []
                         then (case bt_get (g_venue_marks e) key of None \<Rightarrow> price | Some p \<Rightarrow> p) else price
          | BookMid \<Rightarrow> price)
      in e\<lparr>g_book_marks := bt_insert key price (g_book_marks e),
           g_marks := bt_insert key effective (g_marks e)\<rparr>)"

definition refresh_mark :: "slot \<Rightarrow> ('f, 'x) engine \<Rightarrow> ('f, 'x) engine" where
  "refresh_mark key e =
     (let effective = (case k_mark_source (g_config e) of
            VenueMark \<Rightarrow> (case bt_get (g_venue_marks e) key of
                            Some p \<Rightarrow> Some p | None \<Rightarrow> bt_get (g_book_marks e) key)
          | BookMid \<Rightarrow> bt_get (g_book_marks e) key)
      in case effective of None \<Rightarrow> e | Some price \<Rightarrow> e\<lparr>g_marks := bt_insert key price (g_marks e)\<rparr>)"

section \<open>Funding and corporate actions\<close>

definition funding_entry :: "('f, 'x) engine \<Rightarrow> instrument_id \<Rightarrow> price \<Rightarrow> money \<Rightarrow> position \<Rightarrow> money res" where
  "funding_entry e i rate acc p =
     (if p_instrument p \<noteq> i then Inr acc
      else let key = g_key e (p_instrument p) (p_outcome p)
           in case (case bt_get (g_oracles e) key of Some m \<Rightarrow> Some m | None \<Rightarrow> bt_get (g_marks e) key) of
                None \<Rightarrow> Inr acc
              | Some mark \<Rightarrow>
                  and_then (exposure p mark) (\<lambda>ex.
                  and_then (notional rate ex) (\<lambda>payment. money_sub acc payment)))"

definition apply_funding :: "('f, 'x) engine \<Rightarrow> instrument_id \<Rightarrow> price \<Rightarrow> ('f, 'x) engine res" where
  "apply_funding e i rate =
     and_then (fold_r (funding_entry e i rate) 0 (open_positions (g_portfolio e))) (\<lambda>due.
       if due = 0 then Inr e
       else and_then (money_add (g_cash e) due) (\<lambda>cash.
            and_then (money_sub (g_funding_paid e) due) (\<lambda>paid.
              Inr (e\<lparr>g_cash := cash, g_funding_paid := paid\<rparr>))))"

definition split_order :: "price \<Rightarrow> order \<Rightarrow> order res" where
  "split_order ratio ord =
     and_then (split_position ratio (o_quantity ord) 0) (\<lambda>(quantity, _).
     and_then (case o_kind ord of
                 Market \<Rightarrow> Inr Market
               | Limit lim \<Rightarrow> map_ok (\<lambda>(_, p). Limit p) (split_position ratio 0 lim)) (\<lambda>kind.
     and_then (case o_trigger ord of
                 None \<Rightarrow> Inr None
               | Some t \<Rightarrow> map_ok (\<lambda>(_, p). Some (t\<lparr>trg_price := p\<rparr>)) (split_position ratio 0 (trg_price t)))
       (\<lambda>trig. Inr (ord\<lparr>o_quantity := quantity, o_kind := kind, o_trigger := trig\<rparr>))))"

definition split_resting :: "instrument_id \<Rightarrow> price \<Rightarrow> ('f, 'x) engine \<Rightarrow> order_id \<Rightarrow> ('f, 'x) engine res" where
  "split_resting i ratio e n =
     (case bt_get (g_orders e) n of
        None \<Rightarrow> Inr e
      | Some ord \<Rightarrow>
          if o_instrument ord \<noteq> i then Inr e
          else and_then (slots_resolve (k_slots (g_config e)) (o_instrument ord) (o_outcome ord)) (\<lambda>slot.
               and_then (split_order ratio ord) (\<lambda>ord1.
                 Inr (set_order n ord1
                   (e\<lparr>g_resting_index := ri_insert (ri_remove (g_resting_index e) ord slot) ord1 slot\<rparr>)))))"

definition split_pending :: "(order \<Rightarrow> bool) \<Rightarrow> instrument_id \<Rightarrow> price \<Rightarrow> ('f, 'x) engine \<Rightarrow> order_id
    \<Rightarrow> ('f, 'x) engine res" where
  "split_pending wants i ratio e n =
     (case bt_get (g_orders e) n of
        None \<Rightarrow> Inr e
      | Some ord \<Rightarrow>
          if \<not> wants ord \<or> o_instrument ord \<noteq> i then Inr e
          else and_then (split_order ratio ord) (\<lambda>ord1. Inr (set_order n ord1 e)))"

definition split_book :: "price \<Rightarrow> unix_nanos \<Rightarrow> (slot, order_book) btree_map \<Rightarrow> slot
    \<Rightarrow> (slot, order_book) btree_map res" where
  "split_book ratio ts books slot =
     (case bt_get books slot of
        None \<Rightarrow> Inr books
      | Some book \<Rightarrow> (case book_apply_split book ratio ts of
                        (book1, r) \<Rightarrow> and_then r (\<lambda>_. Inr (bt_insert slot book1 books))))"

definition split_series :: "price \<Rightarrow> (slot, price) btree_map \<Rightarrow> slot \<Rightarrow> (slot, price) btree_map res" where
  "split_series ratio series slot =
     (case bt_get series slot of
        None \<Rightarrow> Inr series
      | Some price \<Rightarrow> map_ok (\<lambda>(_, adjusted). bt_insert slot adjusted series) (split_position ratio 0 price))"

definition split_marks :: "price \<Rightarrow> ('f, 'x) engine \<Rightarrow> slot \<Rightarrow> ('f, 'x) engine res" where
  "split_marks ratio e slot =
     and_then (split_series ratio (g_marks e) slot) (\<lambda>m.
     and_then (split_series ratio (g_book_marks e) slot) (\<lambda>bm.
     and_then (split_series ratio (g_venue_marks e) slot) (\<lambda>vm.
     and_then (split_series ratio (g_oracles e) slot) (\<lambda>oracles.
       Inr (e\<lparr>g_marks := m, g_book_marks := bm, g_venue_marks := vm, g_oracles := oracles\<rparr>)))))"

definition split_quotes :: "('f, 'x) engine \<Rightarrow> instrument_id \<Rightarrow> price \<Rightarrow> unix_nanos \<Rightarrow> ('f, 'x) engine res" where
  "split_quotes e i ratio ts =
     (let slot_list = slots_all_for (k_slots (g_config e)) i
      in and_then (fold_r (split_book ratio ts) (g_books e) slot_list) (\<lambda>books.
           fold_r (split_marks ratio) (e\<lparr>g_books := books\<rparr>) slot_list))"

definition apply_split_action :: "('f, 'x) engine \<Rightarrow> instrument_id \<Rightarrow> price \<Rightarrow> unix_nanos \<Rightarrow> ('f, 'x) engine res" where
  "apply_split_action e i ratio ts =
     (case portfolio_apply_split (g_portfolio e) i ratio of (pf, r) \<Rightarrow>
        and_then r (\<lambda>_.
        and_then (fold_r (split_resting i ratio) (e\<lparr>g_portfolio := pf\<rparr>) (g_resting e)) (\<lambda>e1.
        and_then (fold_r (split_pending (\<lambda>_. True) i ratio) e1 (g_untriggered e1)) (\<lambda>e2.
        and_then (fold_r (split_pending (\<lambda>ord. o_status ord = InFlight) i ratio) e2 (g_live_orders e2)) (\<lambda>e3.
          split_quotes e3 i ratio ts)))))"

definition delist_close :: "price \<Rightarrow> unix_nanos \<Rightarrow> ('f, 'x) engine \<Rightarrow> position \<Rightarrow> ('f, 'x) engine exec" where
  "delist_close final_price ts e p =
     x_bind (Some (venue_order e (p_instrument p) (p_outcome p) (closing_side (p_quantity p))
                     (fixed_abs (p_quantity p)) False ''delisting'' ts)) (\<lambda>(e1, n).
       x_map fst (execute no_strategy (e1, ()) n final_price (fixed_abs (p_quantity p)) False ts))"

definition apply_corporate_action :: "('f, 'x) engine \<Rightarrow> instrument_id \<Rightarrow> corporate_action \<Rightarrow> unix_nanos
    \<Rightarrow> ('f, 'x) engine exec" where
  "apply_corporate_action e i action ts =
     x_bind (Some (action_validate action)) (\<lambda>_.
     x_map (bump (\<lambda>m. m\<lparr>corporate_actions := corporate_actions m + 1\<rparr>))
       (case action of
          Split ratio \<Rightarrow> Some (apply_split_action e i ratio ts)
        | Dividend per_share \<Rightarrow>
            Some (and_then (dividend_due (g_portfolio e) i per_share) (\<lambda>due.
              if due = 0 then Inr e
              else and_then (money_add (g_cash e) due) (\<lambda>cash.
                   and_then (money_add (g_dividends_received e) due) (\<lambda>received.
                     Inr (e\<lparr>g_cash := cash, g_dividends_received := received\<rparr>)))))
        | Delist final_price \<Rightarrow>
            x_bind (fold_x (delist_close final_price ts) e
                     (filter (\<lambda>p. p_instrument p = i) (open_positions (g_portfolio e)))) (\<lambda>e1.
              ok (e1\<lparr>g_delisted := bs_insert i (g_delisted e1)\<rparr>))))"

section \<open>A record reaches the books\<close>

definition g_book_at :: "('f, 'x) engine \<Rightarrow> slot \<Rightarrow> order_book" where
  "g_book_at e key = (case bt_get (g_books e) key of None \<Rightarrow> book_new | Some b \<Rightarrow> b)"

definition put_book :: "slot \<Rightarrow> order_book \<Rightarrow> ('f, 'x) engine \<Rightarrow> ('f, 'x) engine" where
  "put_book key book e = e\<lparr>g_books := bt_insert key book (g_books e)\<rparr>"

definition put_reference :: "slot \<Rightarrow> price option \<Rightarrow> price option \<Rightarrow> ('f, 'x) engine \<Rightarrow> ('f, 'x) engine" where
  "put_reference key mark oracle e =
     e\<lparr>g_venue_marks := (case mark of None \<Rightarrow> g_venue_marks e | Some p \<Rightarrow> bt_insert key p (g_venue_marks e)),
       g_oracles := (case oracle of None \<Rightarrow> g_oracles e | Some p \<Rightarrow> bt_insert key p (g_oracles e))\<rparr>"

definition apply_event :: "('f, 'x) engine \<Rightarrow> event_record \<Rightarrow> slot \<Rightarrow> ('f, 'x) engine exec" where
  "apply_event e r key =
     (let ts = record_ts r; book = g_book_at e key
      in case e_event r of
           BookSnapshot bs as \<Rightarrow>
             Some (and_then (apply_snapshot book bs as ts) (\<lambda>b. Inr (put_book key b e)))
         | BookDelta delta \<Rightarrow>
             Some (and_then (apply_delta book (e_instrument r) delta ts) (\<lambda>b. Inr (put_book key b e)))
         | FeedGap \<Rightarrow>
             ok (bump (\<lambda>m. m\<lparr>book_gaps := book_gaps m + 1\<rparr>) (put_book key (mark_gap book ts) e))
         | Trade price _ _ \<Rightarrow> ok (set_book_mark key price e)
         | Bar _ _ _ close _ \<Rightarrow> ok (set_book_mark key close e)
         | Reference mark oracle \<Rightarrow> ok (put_reference key mark oracle e)
         | Funding rate \<Rightarrow> Some (apply_funding e (e_instrument r) rate)
         | Corporate action \<Rightarrow> apply_corporate_action e (e_instrument r) action ts)"

fun touches_book :: "market_event \<Rightarrow> bool" where
  "touches_book (BookSnapshot _ _) = True"
| "touches_book (BookDelta _) = True"
| "touches_book FeedGap = True"
| "touches_book (Corporate _) = True"
| "touches_book _ = False"

definition remark :: "event_record \<Rightarrow> slot \<Rightarrow> ('f, 'x) engine \<Rightarrow> ('f, 'x) engine" where
  "remark r key e =
     (case Option.bind (bt_get (g_books e) key) mid of
        Some m \<Rightarrow> if touches_book (e_event r) then set_book_mark key m e else refresh_mark key e
      | None \<Rightarrow> refresh_mark key e)"

definition apply_to_books :: "('f, 'x) engine \<Rightarrow> event_record \<Rightarrow> slot \<Rightarrow> ('f, 'x) engine exec" where
  "apply_to_books e r key =
     x_bind (Some (case set_get (g_instruments e) (e_instrument r) of
                     Inl _ \<Rightarrow> Inl (UnknownInstrument (e_instrument r))
                   | Inr ins \<Rightarrow> check_outcome ins (e_outcome r))) (\<lambda>_.
     x_bind (apply_event (put_book key (g_book_at e key) e) r key) (\<lambda>e1. ok (remark r key e1)))"

section \<open>Expiry, triggers and orders worked over time\<close>

definition expire_order :: "instrument_id \<Rightarrow> int \<Rightarrow> ('f, 'x) engine \<Rightarrow> order_id \<Rightarrow> ('f, 'x) engine" where
  "expire_order i at e n =
     remove_resting n
       (case bt_get (g_orders e) n of
          None \<Rightarrow> e
        | Some ord \<Rightarrow>
            if is_open ord
            then set_order n (ord\<lparr>o_status := Cancelled,
                   o_reject_reason := Some (i @ '' stopped trading at '' @ show_int at)\<rparr>) e
            else e)"

definition expire_one :: "('f, 'x) engine \<Rightarrow> int \<times> instrument_id \<Rightarrow> ('f, 'x) engine" where
  "expire_one e entry =
     (case entry of (at, i) \<Rightarrow>
        let e1 = e\<lparr>g_next_expiry := g_next_expiry e + 1\<rparr>
        in if i \<in> set (g_expired e1) then e1
           else let e2 = e1\<lparr>g_expired := bs_insert i (g_expired e1)\<rparr>;
                    doomed = filter (\<lambda>n. case bt_get (g_orders e2) n of
                                           None \<Rightarrow> False | Some ord \<Rightarrow> o_instrument ord = i) (g_resting e2);
                    e3 = foldl (expire_order i at) e2 doomed
                in bump (\<lambda>m. m\<lparr>instruments_expired := instruments_expired m + 1\<rparr>)
                     (e3\<lparr>g_expirations := g_expirations e3 @ [(i, at)]\<rparr>))"

text \<open>The entries from \<open>next_expiry\<close> on that the clock has passed, in order.\<close>

definition expire_due :: "('f, 'x) engine \<Rightarrow> unix_nanos \<Rightarrow> ('f, 'x) engine" where
  "expire_due e ts =
     foldl expire_one e (takeWhile (\<lambda>(at, _). at \<le> ts) (drop (g_next_expiry e) (k_expiries (g_config e))))"

text \<open>What a parked order does at the current marks: nothing (it is dropped), wait, or fire.\<close>

definition parked_fires :: "('f, 'x) engine \<Rightarrow> order_id \<Rightarrow> bool option" where
  "parked_fires e i =
     (case bt_get (g_orders e) i of
        None \<Rightarrow> None
      | Some ord \<Rightarrow>
          if o_status ord \<noteq> Untriggered then None
          else case o_trigger ord of
                 None \<Rightarrow> None
               | Some t \<Rightarrow> Some (case g_mark e (o_instrument ord) (o_outcome ord) of
                                   None \<Rightarrow> False | Some price \<Rightarrow> fires_at t price))"

definition arm_one :: "'s strategy \<Rightarrow> unix_nanos \<Rightarrow> ('f, 'x, 's) world \<Rightarrow> order_id \<Rightarrow> ('f, 'x, 's) world exec" where
  "arm_one S ts w i =
     (case w of (e, s) \<Rightarrow>
        let e1 = (case bt_get (g_orders e) i of
                    None \<Rightarrow> e
                  | Some ord \<Rightarrow> set_order i (ord\<lparr>o_trigger := None, o_status := Accepted, o_accepted_at := Some ts\<rparr>) e)
        in try_fill S (bump (\<lambda>m. m\<lparr>orders_triggered := orders_triggered m + 1\<rparr>) e1, s) i ts)"

definition arm_triggers :: "'s strategy \<Rightarrow> ('f, 'x, 's) world \<Rightarrow> unix_nanos \<Rightarrow> ('f, 'x, 's) world exec" where
  "arm_triggers S w ts =
     (case w of (e, s) \<Rightarrow>
        fold_x (arm_one S ts)
          (e\<lparr>g_untriggered := filter (\<lambda>i. parked_fires e i = Some False) (g_untriggered e)\<rparr>, s)
          (filter (\<lambda>i. parked_fires e i = Some True) (g_untriggered e)))"

text \<open>One TWAP at an instant: its progress and the slice that is due, if one is.\<close>

definition twap_advance :: "unix_nanos \<Rightarrow> twap_progress \<Rightarrow> (twap_progress \<times> qty option) res" where
  "twap_advance ts tw =
     (if twap_is_done tw \<or> ts < tw_next_at tw then Inr (tw, None)
      else let remaining_slices = tw_total_slices tw - tw_sent tw;
               slice = (if remaining_slices \<le> 1 then twap_remaining tw
                        else tq_quantity (tw_request tw) sdiv tw_total_slices tw)
           in if \<not> slice > 0 then Inr (tw\<lparr>tw_sent := tw_total_slices tw\<rparr>, None)
              else and_then (qty_add (tw_worked tw) slice) (\<lambda>worked.
                     Inr (tw\<lparr>tw_sent := tw_sent tw + 1, tw_worked := worked,
                             tw_next_at := sat64 (tw_next_at tw + tq_interval_nanos (tw_request tw))\<rparr>,
                          Some slice)))"

definition twap_child :: "'s strategy \<Rightarrow> unix_nanos \<Rightarrow> ('f, 'x, 's) world \<Rightarrow> twap_request \<times> qty
    \<Rightarrow> ('f, 'x, 's) world exec" where
  "twap_child S ts w child =
     (case w of (e, s) \<Rightarrow> case child of (rq, slice) \<Rightarrow>
        x_bind (Some (venue_order e (tq_instrument rq) (tq_outcome rq) (tq_side rq) slice (tq_reduce_only rq)
                        (case tq_tag rq of None \<Rightarrow> ''twap'' | Some t \<Rightarrow> t) ts)) (\<lambda>(e1, n).
          try_fill S (bump (\<lambda>m. m\<lparr>m_twap_slices := m_twap_slices m + 1\<rparr>) e1, s) n ts))"

definition work_twaps :: "'s strategy \<Rightarrow> ('f, 'x, 's) world \<Rightarrow> unix_nanos \<Rightarrow> ('f, 'x, 's) world exec" where
  "work_twaps S w ts =
     (case w of (e, s) \<Rightarrow>
        x_bind (Some (map_r (twap_advance ts) (g_twaps e))) (\<lambda>advanced.
          fold_x (twap_child S ts) (e\<lparr>g_twaps := map fst advanced\<rparr>, s)
            (List.map_filter (\<lambda>(tw, slice). map_option (Pair (tw_request tw)) slice) advanced)))"

section \<open>Arrivals\<close>

text \<open>The last checks, for an order that is not waiting on a trigger.\<close>

definition enter_book :: "'s strategy \<Rightarrow> unix_nanos \<Rightarrow> ('f, 'x, 's) world \<Rightarrow> order \<Rightarrow> ('f, 'x, 's) world exec" where
  "enter_book S ts w ord =
     (case w of (e, s) \<Rightarrow>
        (case would_self_trade e ord of
           Some _ \<Rightarrow>
             ok (bump (\<lambda>m. m\<lparr>orders_rejected_self_trade := orders_rejected_self_trade m + 1\<rparr>)
                  ((reject_order ord ''would trade against this account's own resting order'' e)
                     \<lparr>g_self_trades_prevented := g_self_trades_prevented e + 1\<rparr>), s)
         | None \<Rightarrow>
             x_bind (Some (can_fund e ord)) (\<lambda>funds.
               if \<not> funds
               then ok (bump (\<lambda>m. m\<lparr>orders_rejected_margin := orders_rejected_margin m + 1\<rparr>)
                      ((reject_order ord ''insufficient margin for this order'' e)
                         \<lparr>g_rejected_for_margin := g_rejected_for_margin e + 1\<rparr>), s)
               else try_fill S (set_order (o_id ord)
                      (ord\<lparr>o_status := Accepted, o_accepted_at := Some ts\<rparr>) e, s) (o_id ord) ts)))"

definition arrive_order :: "'s strategy \<Rightarrow> unix_nanos \<Rightarrow> ('f, 'x, 's) world \<Rightarrow> order \<Rightarrow> ('f, 'x, 's) world exec" where
  "arrive_order S ts w ord =
     (case w of (e, s) \<Rightarrow>
        (case stopped_trading e (o_instrument ord) ts of
           Some reason \<Rightarrow>
             ok (bump (\<lambda>m. m\<lparr>orders_rejected_expired := orders_rejected_expired m + 1\<rparr>)
                  (reject_order ord (reason @ '', before this order arrived'') e), s)
         | None \<Rightarrow>
             if o_post_only ord \<and> crossing_price e ord \<noteq> None
             then ok (bump (\<lambda>m. m\<lparr>orders_rejected_post_only := orders_rejected_post_only m + 1\<rparr>)
                    (reject_order ord ''a post-only order would have crossed the book'' e), s)
             else case o_trigger ord of
                    None \<Rightarrow> enter_book S ts w ord
                  | Some t \<Rightarrow>
                      if (case g_mark e (o_instrument ord) (o_outcome ord) of
                            None \<Rightarrow> False | Some price \<Rightarrow> fires_at t price)
                      then enter_book S ts
                             (bump (\<lambda>m. m\<lparr>orders_triggered := orders_triggered m + 1\<rparr>) e, s)
                             (ord\<lparr>o_trigger := None\<rparr>)
                      else ok (set_order (o_id ord)
                             (ord\<lparr>o_status := Untriggered, o_accepted_at := Some ts\<rparr>)
                             (e\<lparr>g_untriggered := g_untriggered e @ [o_id ord]\<rparr>), s)))"

definition arrive :: "'s strategy \<Rightarrow> unix_nanos \<Rightarrow> ('f, 'x, 's) world \<Rightarrow> inflight_action \<Rightarrow> ('f, 'x, 's) world exec" where
  "arrive S ts w action =
     (case action of
        InFlightSet rq \<Rightarrow> run_set_operation S w rq ts
      | InFlightOrder sent \<Rightarrow>
          (case bt_get (g_orders (fst w)) (o_id sent) of
             None \<Rightarrow> ok w
           | Some current \<Rightarrow> if o_status current = InFlight then arrive_order S ts w current else ok w))"

definition release_inflight :: "'s strategy \<Rightarrow> ('f, 'x, 's) world \<Rightarrow> unix_nanos \<Rightarrow> ('f, 'x, 's) world exec" where
  "release_inflight S w ts =
     (case w of (e, s) \<Rightarrow>
        fold_x (arrive S ts) (e\<lparr>g_inflight := dropWhile (\<lambda>f. if_release_at f \<le> ts) (g_inflight e)\<rparr>, s)
          (map if_action (takeWhile (\<lambda>f. if_release_at f \<le> ts) (g_inflight e))))"

section \<open>One step, and a run\<close>

definition advance_clock :: "'s strategy \<Rightarrow> ('f, 'x, 's) world \<Rightarrow> unix_nanos \<Rightarrow> ('f, 'x, 's) world exec" where
  "advance_clock S w ts =
     (case w of (e, s) \<Rightarrow>
        x_bind (advance_to (g_clock e) ts) (\<lambda>(clk, events).
          fold_x (\<lambda>w ev. call_strategy (\<lambda>st c. on_timer S st c ev) w) (e\<lparr>g_clock := clk\<rparr>, s) events))"

text \<open>The venue's part of a step, before the strategy is asked.\<close>

definition venue_step :: "'s strategy \<Rightarrow> ('f, 'x, 's) world \<Rightarrow> event_record \<Rightarrow> ('f, 'x, 's) world exec" where
  "venue_step S w r =
     (let ts = record_ts r
      in x_bind (advance_clock S w ts) (\<lambda>(e1, s1).
         let e2 = expire_due e1 ts
         in x_bind (Some (slots_resolve (k_slots (g_config e2)) (e_instrument r) (e_outcome r))) (\<lambda>key.
            x_bind (apply_to_books e2 r key) (\<lambda>e3.
            x_bind (case e_event r of
                      Trade price sz aggressor \<Rightarrow> consume_queue S (e3, s1) r price sz aggressor
                    | _ \<Rightarrow> ok (e3, s1)) (\<lambda>w4.
            x_bind (match_resting S w4 r key) (\<lambda>w5.
            x_bind (check_liquidation S w5 ts) (\<lambda>w6.
            x_bind (check_isolated_liquidation S w6 ts) (\<lambda>w7.
            x_bind (arm_triggers S w7 ts) (\<lambda>w8. work_twaps S w8 ts)))))))))"

definition count_record :: "event_record \<Rightarrow> ('f, 'x) engine \<Rightarrow> ('f, 'x) engine" where
  "count_record r e =
     bump (metrics_record (event_kind (e_event r)))
       (e\<lparr>g_records := g_records e + 1, g_simulated_through := Some (record_ts r)\<rparr>)"

definition engine_step :: "'s strategy \<Rightarrow> ('f, 'x, 's) world \<Rightarrow> event_record \<Rightarrow> ('f, 'x, 's) world exec" where
  "engine_step S w r =
     x_bind (venue_step S w r) (\<lambda>w1.
     x_bind (call_strategy (\<lambda>st c. on_event S st c r) w1) (\<lambda>w2.
     x_bind (release_inflight S w2 (record_ts r)) (\<lambda>(e3, s3).
     x_bind (Some (sample_equity (count_record r e3) (record_ts r))) (\<lambda>e4. ok (e4, s3)))))"

record run_result =
  rr_fills :: "fill list"
  rr_orders :: "order list"
  rr_final_cash :: money
  rr_starting_cash :: money
  rr_realized_pnl :: money
  rr_commissions :: money
  rr_simulated_through :: "unix_nanos option"
  rr_records_processed :: nat
  rr_marks :: "(instrument_id \<times> outcome_id, price) btree_map"
  rr_equity :: "equity_point list"
  rr_funding_paid :: money
  rr_dividends_received :: money
  rr_liquidations :: "liquidation list"
  rr_rejected_for_margin :: nat
  rr_self_trades_prevented :: nat
  rr_set_operations :: "set_operation list"
  rr_forecasts :: "forecast list"
  rr_mark_curve :: "mark_point list"
  rr_expirations :: "(instrument_id \<times> unix_nanos) list"
  rr_twaps :: "twap_progress list"
  rr_metrics :: run_metrics

definition final_counts :: "order list \<Rightarrow> run_metrics \<Rightarrow> run_metrics" where
  "final_counts os m = m\<lparr>
     orders_filled := length (filter (\<lambda>ord. o_status ord = Filled) os),
     orders_partially_filled := length (filter (\<lambda>ord. o_status ord = PartiallyFilled
        \<or> o_status ord = Cancelled \<and> o_filled ord \<noteq> 0) os),
     orders_cancelled_unfilled := length (filter (\<lambda>ord. o_status ord = Cancelled \<and> o_filled ord = 0) os)\<rparr>"

definition last_equity_ts :: "equity_point list \<Rightarrow> unix_nanos option" where
  "last_equity_ts ps = (case rev ps of [] \<Rightarrow> None | p # _ \<Rightarrow> Some (ep_ts p))"

definition run_result_of :: "('f, 'x) engine \<Rightarrow> run_result res" where
  "run_result_of e =
     and_then (portfolio_realized_pnl (g_portfolio e)) (\<lambda>realized.
     and_then (portfolio_commissions (g_portfolio e)) (\<lambda>commissions.
       Inr \<lparr>rr_fills = g_fills e, rr_orders = map snd (g_orders e), rr_final_cash = g_cash e,
         rr_starting_cash = k_starting_cash (g_config e), rr_realized_pnl = realized,
         rr_commissions = commissions, rr_simulated_through = g_simulated_through e,
         rr_records_processed = g_records e,
         rr_marks = foldl (\<lambda>m (slot, price). bt_insert (slots_name (k_slots (g_config e)) slot) price m) []
           (g_marks e),
         rr_equity = g_equity e, rr_funding_paid = g_funding_paid e,
         rr_dividends_received = g_dividends_received e, rr_liquidations = g_liquidations e,
         rr_rejected_for_margin = g_rejected_for_margin e,
         rr_self_trades_prevented = g_self_trades_prevented e, rr_set_operations = g_set_operations e,
         rr_forecasts = g_forecasts e, rr_mark_curve = g_mark_curve e, rr_expirations = g_expirations e,
         rr_twaps = g_twaps e, rr_metrics = g_metrics e\<rparr>))"

definition finish :: "('f, 'x) engine \<Rightarrow> (('f, 'x) engine \<times> run_result) res" where
  "finish e =
     (let e1 = bump (final_counts (map snd (g_orders e))) e
      in and_then (case g_simulated_through e1 of
                     None \<Rightarrow> Inr e1
                   | Some ts \<Rightarrow> if last_equity_ts (g_equity e1) \<noteq> Some ts then push_equity e1 ts else Inr e1)
           (\<lambda>e2. and_then (run_result_of e2) (\<lambda>r. Inr (e2, r))))"

partial_function (option) run_loop :: "'s strategy \<Rightarrow> ('f, 'x, 's) world \<Rightarrow> replay
    \<Rightarrow> (('f, 'x, 's) world \<times> replay) exec" where
  "run_loop S w rp =
     (case next_record rp of
        None \<Rightarrow> None
      | Some (rp', r) \<Rightarrow>
          (case r of
             Inl err \<Rightarrow> Some (Inl err)
           | Inr None \<Rightarrow> ok (w, rp')
           | Inr (Some rec) \<Rightarrow>
               (case engine_step S w rec of
                  None \<Rightarrow> None
                | Some (Inl err) \<Rightarrow> Some (Inl err)
                | Some (Inr w') \<Rightarrow> run_loop S w' rp')))"

definition engine_run :: "'s strategy \<Rightarrow> ('f, 'x, 's) world \<Rightarrow> replay
    \<Rightarrow> (('f, 'x, 's) world \<times> replay \<times> run_result) exec" where
  "engine_run S w rp =
     x_bind (call_strategy (on_start S) w) (\<lambda>w1.
     x_bind (run_loop S w1 rp) (\<lambda>(w2, rp').
     x_bind (call_strategy (on_stop S) w2) (\<lambda>(e3, s3).
     x_bind (Some (finish e3)) (\<lambda>(e4, result). ok ((e4, s3), rp', result)))))"

end
