(* ===== verification/Engine_Strategy.thy ===== *)
theory Engine_Strategy
  imports Engine_State
begin

text \<open>
  Strategies (\<open>h5i-db-backtest/src/engine.rs\<close>): what a callback can do to its context, the contract
  that follows from it, and the two strategies that replay data, \<open>SignalReplay\<close> and
  \<open>CommandReplay\<close>. The fields of \<open>Context\<close> are private to the module, so a callback acts through
  the public methods only; \<open>ctx_act\<close> is one such call.
\<close>

section \<open>Acting on a context\<close>

inductive ctx_act :: "strategy_context \<Rightarrow> strategy_context \<Rightarrow> bool" where
  act_submit: "ctx_act c (ctx_submit c rq)"
| act_push: "\<forall>i rq. cmd \<noteq> CSubmit i rq \<Longrightarrow> ctx_act c (ctx_push c cmd)"
| act_timer: "ctx_act c (ctx_set_timer c name at)"
| act_forecast: "ctx_record_tagged_forecast c i oc p tag = Inr c' \<Longrightarrow> ctx_act c c'"

abbreviation ctx_acts :: "strategy_context \<Rightarrow> strategy_context \<Rightarrow> bool" where
  "ctx_acts \<equiv> ctx_act\<^sup>*\<^sup>*"

lemma ctx_acts_push [intro]: "\<forall>i rq. cmd \<noteq> CSubmit i rq \<Longrightarrow> ctx_acts c (ctx_push c cmd)"
  by (blast intro: act_push)

lemma ctx_acts_submit [intro]: "ctx_acts c (ctx_submit c rq)"
  by (blast intro: act_submit)

text \<open>The numbers of the orders a list of commands submits.\<close>

definition submit_ids :: "command list \<Rightarrow> order_id list" where
  "submit_ids cs = List.map_filter (\<lambda>c. case c of CSubmit i _ \<Rightarrow> Some i | _ \<Rightarrow> None) cs"

lemma submit_ids_simps [simp]:
  "submit_ids [] = []"
  "submit_ids (CSubmit i rq # cs) = i # submit_ids cs"
  "\<forall>i rq. c \<noteq> CSubmit i rq \<Longrightarrow> submit_ids (c # cs) = submit_ids cs"
  by (auto simp: submit_ids_def map_filter_simps split: command.splits)

lemma submit_ids_append [simp]: "submit_ids (cs @ ds) = submit_ids cs @ submit_ids ds"
  by (simp add: submit_ids_def map_filter_def)

text \<open>
  Whatever a callback does, it only appends commands, and the orders it submits carry the next
  numbers in sequence; it sees the account but cannot touch it.
\<close>

definition ctx_extends :: "strategy_context \<Rightarrow> strategy_context \<Rightarrow> bool" where
  "ctx_extends c c' \<longleftrightarrow>
     (\<exists>new. c_commands c' = c_commands c @ new
        \<and> submit_ids new = [Suc (c_next_order_id c)..<Suc (c_next_order_id c')])
     \<and> c_next_order_id c \<le> c_next_order_id c'
     \<and> (c_now c', c_slots c', c_books c', c_marks c', c_oracles c', c_portfolio c', c_cash c')
       = (c_now c, c_slots c, c_books c, c_marks c, c_oracles c, c_portfolio c, c_cash c)"

lemma ctx_extends_refl: "ctx_extends c c"
  by (simp add: ctx_extends_def)

lemma ctx_act_extends: "ctx_act c c' \<Longrightarrow> ctx_extends c c'"
  by (induction rule: ctx_act.induct)
     (auto simp: ctx_extends_def ctx_submit_def ctx_submit_tracked_def ctx_push_def ctx_set_timer_def
        ctx_record_tagged_forecast_def Let_def split: if_splits)

lemma upt_join: "a \<le> b \<Longrightarrow> b \<le> c \<Longrightarrow> [Suc a..<Suc b] @ [Suc b..<Suc c] = [Suc a..<Suc c]"
  by (metis Suc_le_mono le_add_diff_inverse upt_add_eq_append)

lemma ctx_extends_trans: "ctx_extends c c' \<Longrightarrow> ctx_extends c' c'' \<Longrightarrow> ctx_extends c c''"
proof -
  assume "ctx_extends c c'" and "ctx_extends c' c''"
  moreover from this obtain n1 n2 where "c_commands c' = c_commands c @ n1"
    "submit_ids n1 = [Suc (c_next_order_id c)..<Suc (c_next_order_id c')]"
    "c_commands c'' = c_commands c' @ n2"
    "submit_ids n2 = [Suc (c_next_order_id c')..<Suc (c_next_order_id c'')]"
    by (auto simp: ctx_extends_def)
  then have "c_commands c'' = c_commands c @ (n1 @ n2)"
    and "c_next_order_id c \<le> c_next_order_id c' \<Longrightarrow> c_next_order_id c' \<le> c_next_order_id c'' \<Longrightarrow>
      submit_ids (n1 @ n2) = [Suc (c_next_order_id c)..<Suc (c_next_order_id c'')]"
    by (simp_all only: submit_ids_append append_assoc upt_join)
  ultimately show ?thesis
    unfolding ctx_extends_def by (metis order_trans)
qed

lemma ctx_acts_extends: "ctx_acts c c' \<Longrightarrow> ctx_extends c c'"
  by (induction rule: rtranclp_induct) (auto intro: ctx_extends_refl ctx_act_extends ctx_extends_trans)

section \<open>The contract\<close>

definition acts :: "('s \<Rightarrow> strategy_context \<Rightarrow> ('s \<times> strategy_context) exec) \<Rightarrow> bool" where
  "acts callback \<longleftrightarrow> (\<forall>s c s' c'. callback s c = ok (s', c') \<longrightarrow> ctx_acts c c')"

locale context_strategy =
  fixes S :: "'s strategy"
  assumes starts: "acts (on_start S)"
    and reacts: "acts (\<lambda>s c. on_event S s c r)"
    and wakes: "acts (\<lambda>s c. on_timer S s c t)"
    and hears: "acts (\<lambda>s c. on_fill S s c f)"
    and stops: "acts (on_stop S)"

text \<open>A callback that returns, with a value or an error, on every context.\<close>

locale total_strategy = context_strategy +
  assumes start_returns: "on_start S s c \<noteq> None"
    and event_returns: "on_event S s c r \<noteq> None"
    and timer_returns: "on_timer S s c t \<noteq> None"
    and fill_returns: "on_fill S s c f \<noteq> None"
    and stop_returns: "on_stop S s c \<noteq> None"

interpretation none: total_strategy no_strategy
  by unfold_locales (auto simp: no_strategy_def strategy_default_def acts_def)

section \<open>Replaying signals\<close>

record signal_replay =
  sr_intents :: "(unix_nanos \<times> order_request) list"
  sr_undelivered :: nat

text \<open>The scan of both constructors: the first timestamp that goes back is an error.\<close>

fun check_order :: "string \<Rightarrow> unix_nanos option \<Rightarrow> (unix_nanos \<times> 'a) list \<Rightarrow> ('a \<Rightarrow> unit res) \<Rightarrow> unit res" where
  "check_order stream previous [] check = Inr ()"
| "check_order stream previous ((ts, x) # rest) check =
     (case previous of
        Some prev \<Rightarrow>
          if ts < prev then Inl (OutOfOrder stream ts prev)
          else and_then (check x) (\<lambda>_. check_order stream (Some ts) rest check)
      | None \<Rightarrow> and_then (check x) (\<lambda>_. check_order stream (Some ts) rest check))"

definition signal_replay_new :: "(unix_nanos \<times> order_request) list \<Rightarrow> signal_replay res" where
  "signal_replay_new intents =
     and_then (check_order ''signals'' None intents (\<lambda>_. Inr ())) (\<lambda>_.
       Inr \<lparr>sr_intents = intents, sr_undelivered = 0\<rparr>)"

fun submit_due :: "signal_replay \<Rightarrow> strategy_context \<Rightarrow> (unix_nanos \<times> order_request) list
    \<Rightarrow> signal_replay \<times> strategy_context" where
  "submit_due sr c [] = (sr\<lparr>sr_intents := []\<rparr>, c)"
| "submit_due sr c ((ts, rq) # rest) =
     (if ts > c_now c then (sr\<lparr>sr_intents := (ts, rq) # rest\<rparr>, c)
      else submit_due sr (ctx_submit c rq) rest)"

definition signal_on_event :: "signal_replay \<Rightarrow> strategy_context \<Rightarrow> event_record
    \<Rightarrow> (signal_replay \<times> strategy_context) exec" where
  "signal_on_event sr c r = ok (submit_due sr c (sr_intents sr))"

definition signal_on_stop :: "signal_replay \<Rightarrow> strategy_context \<Rightarrow> (signal_replay \<times> strategy_context) exec" where
  "signal_on_stop sr c = ok (sr\<lparr>sr_undelivered := length (sr_intents sr), sr_intents := []\<rparr>, c)"

definition signal_strategy :: "signal_replay strategy" where
  "signal_strategy = strategy_default\<lparr>on_event := signal_on_event, on_stop := signal_on_stop\<rparr>"

lemma c_now_submit [simp]: "c_now (ctx_submit c rq) = c_now c"
  by (simp add: ctx_submit_def ctx_submit_tracked_def Let_def)

lemma submit_due_acts: "submit_due sr c xs = (sr', c') \<Longrightarrow> ctx_acts c c'"
proof (induction xs arbitrary: c)
  case (Cons x xs)
  then show ?case
    by (cases x) (auto split: if_splits intro: converse_rtranclp_into_rtranclp act_submit)
qed simp

interpretation signals: total_strategy signal_strategy
  by unfold_locales
     (auto simp: signal_strategy_def strategy_default_def acts_def signal_on_event_def
        signal_on_stop_def intro: submit_due_acts)

section \<open>Replaying commands\<close>

datatype replay_command =
    RSubmit string order_request
  | RCancel string
  | RAmend string "qty option" "price option"

record command_replay =
  cr_commands :: "(unix_nanos \<times> replay_command) list"
  cr_order_ids :: "(string, order_id) btree_map"
  cr_undelivered :: nat

fun check_command :: "replay_command \<Rightarrow> unit res" where
  "check_command (RAmend _ None None) = invalid ''amend command must change quantity or limit_price''"
| "check_command _ = Inr ()"

definition command_replay_new :: "(unix_nanos \<times> replay_command) list \<Rightarrow> command_replay res" where
  "command_replay_new cmds =
     and_then (check_order ''commands'' None cmds check_command) (\<lambda>_.
       Inr \<lparr>cr_commands = cmds, cr_order_ids = [], cr_undelivered = 0\<rparr>)"

definition replay_order_id :: "command_replay \<Rightarrow> string \<Rightarrow> order_id res" where
  "replay_order_id cr client =
     ok_or (Invalid ''references unknown client_order_id'') (bt_get (cr_order_ids cr) client)"

fun apply_replay_command :: "command_replay \<Rightarrow> strategy_context \<Rightarrow> replay_command
    \<Rightarrow> (command_replay \<times> strategy_context) res" where
  "apply_replay_command cr c (RSubmit client rq) =
     (if bt_get (cr_order_ids cr) client \<noteq> None then invalid ''duplicate client_order_id''
      else case ctx_submit_tracked c rq of
             (c1, i) \<Rightarrow> Inr (cr\<lparr>cr_order_ids := bt_insert client i (cr_order_ids cr)\<rparr>, c1))"
| "apply_replay_command cr c (RCancel client) =
     and_then (replay_order_id cr client) (\<lambda>i. Inr (cr, ctx_cancel c i))"
| "apply_replay_command cr c (RAmend client quantity lim) =
     and_then (replay_order_id cr client) (\<lambda>i. Inr (cr, ctx_amend c i quantity lim))"

fun replay_due :: "command_replay \<Rightarrow> strategy_context \<Rightarrow> (unix_nanos \<times> replay_command) list
    \<Rightarrow> (command_replay \<times> strategy_context) res" where
  "replay_due cr c [] = Inr (cr\<lparr>cr_commands := []\<rparr>, c)"
| "replay_due cr c ((ts, cmd) # rest) =
     (if ts \<le> c_now c then and_then (apply_replay_command cr c cmd) (\<lambda>(cr1, c1). replay_due cr1 c1 rest)
      else Inr (cr\<lparr>cr_commands := (ts, cmd) # rest\<rparr>, c))"

definition command_on_event :: "command_replay \<Rightarrow> strategy_context \<Rightarrow> event_record
    \<Rightarrow> (command_replay \<times> strategy_context) exec" where
  "command_on_event cr c r = Some (replay_due cr c (cr_commands cr))"

definition command_on_stop :: "command_replay \<Rightarrow> strategy_context \<Rightarrow> (command_replay \<times> strategy_context) exec" where
  "command_on_stop cr c = ok (cr\<lparr>cr_undelivered := length (cr_commands cr), cr_commands := []\<rparr>, c)"

definition command_strategy :: "command_replay strategy" where
  "command_strategy = strategy_default\<lparr>on_event := command_on_event, on_stop := command_on_stop\<rparr>"

lemma replay_command_act: "apply_replay_command cr c cmd = Inr (cr', c') \<Longrightarrow> ctx_act c c'"
  by (cases cmd)
     (auto simp: result_simps ctx_cancel_def ctx_amend_def ctx_submit_def [symmetric] case_prod_beta
        intro: act_push act_submit split: if_splits prod.splits)

lemma replay_due_acts: "replay_due cr c xs = Inr (cr', c') \<Longrightarrow> ctx_acts c c'"
proof (induction xs arbitrary: cr c)
  case (Cons x xs)
  then show ?case
    by (cases x)
       (fastforce simp: result_simps split: if_splits dest: replay_command_act
          intro: converse_rtranclp_into_rtranclp)
qed simp

interpretation commands: total_strategy command_strategy
  by unfold_locales
     (auto simp: command_strategy_def strategy_default_def acts_def command_on_event_def
        command_on_stop_def intro: replay_due_acts)

end
