(* ===== verification/Resting_Index.thy ===== *)
theory Resting_Index
  imports Engine_Base
begin

text \<open>
  The index of resting orders (\<open>h5i-db-backtest/src/engine.rs\<close>, \<open>RestingIndex\<close>) seen as what it
  stands for: at every market, side and price, the set of orders resting there. The two-level map
  implements that view, and its queries list it in price and time priority.
\<close>

section \<open>The interface\<close>

text \<open>The orders of \<open>R\<close> sit where \<open>place\<close> says: market, side and limit.\<close>

definition tracks :: "(slot \<Rightarrow> side \<Rightarrow> raw \<Rightarrow> order_id set) \<Rightarrow> (order_id \<Rightarrow> slot \<times> side \<times> raw option)
    \<Rightarrow> order_id set \<Rightarrow> bool" where
  "tracks at place R \<longleftrightarrow> (\<forall>i sl s l. i \<in> at sl s l \<longleftrightarrow> i \<in> R \<and> place i = (sl, s, Some l))"

lemma tracks_cong: "tracks at place R \<Longrightarrow> (\<And>i. i \<in> R \<Longrightarrow> place' i = place i) \<Longrightarrow> tracks at place' R"
  by (auto simp: tracks_def)

locale order_index =
  fixes ins :: "'x \<Rightarrow> order \<Rightarrow> slot \<Rightarrow> 'x"
    and rem :: "'x \<Rightarrow> order \<Rightarrow> slot \<Rightarrow> 'x"
    and at :: "'x \<Rightarrow> slot \<Rightarrow> side \<Rightarrow> raw \<Rightarrow> order_id set"
    and wf :: "'x \<Rightarrow> bool"
  assumes wf_ins: "wf x \<Longrightarrow> wf (ins x ord sl)"
    and wf_rem: "wf x \<Longrightarrow> wf (rem x ord sl)"
    and at_ins: "wf x \<Longrightarrow> at (ins x ord sl) sl' s l =
      (if limit_price ord = Some l \<and> sl' = sl \<and> s = o_side ord
       then insert (o_id ord) (at x sl' s l) else at x sl' s l)"
    and at_rem: "wf x \<Longrightarrow> at (rem x ord sl) sl' s l =
      (if limit_price ord = Some l \<and> sl' = sl \<and> s = o_side ord
       then at x sl' s l - {o_id ord} else at x sl' s l)"
begin

lemma tracks_ins:
  assumes "wf x" and "tracks (at x) place R" and "o_id ord \<notin> R"
  shows "tracks (at (ins x ord sl)) (place(o_id ord := (sl, o_side ord, limit_price ord)))
    (insert (o_id ord) R)"
  using assms(2,3) by (auto simp: tracks_def at_ins [OF assms(1)])

lemma tracks_rem:
  assumes "wf x" and "tracks (at x) place R" and "o_id ord \<in> R \<Longrightarrow> place (o_id ord) = (sl, o_side ord, limit_price ord)"
  shows "tracks (at (rem x ord sl)) place (R - {o_id ord})"
  using assms(2,3) by (auto simp: tracks_def at_rem [OF assms(1)])

text \<open>Taking an order out and putting it back elsewhere.\<close>

lemma tracks_move:
  assumes "wf x" and "tracks (at x) place R" and "o_id ord' = o_id ord"
    and "o_id ord \<in> R" and "place (o_id ord) = (sl, o_side ord, limit_price ord)"
  shows "tracks (at (ins (rem x ord sl) ord' sl')) (place(o_id ord := (sl', o_side ord', limit_price ord'))) R"
proof -
  have "tracks (at (rem x ord sl)) place (R - {o_id ord})"
    using assms by (intro tracks_rem) auto
  from tracks_ins [OF wf_rem [OF assms(1)] this, of ord' sl'] assms(3,4)
  show ?thesis by (simp add: insert_absorb)
qed

end

section \<open>The index of the engine\<close>

definition level_list :: "(raw, order_id list) btree_map \<Rightarrow> raw \<Rightarrow> order_id list" where
  "level_list levels l = (case bt_get levels l of None \<Rightarrow> [] | Some ids \<Rightarrow> ids)"

definition index_levels :: "resting_index \<Rightarrow> slot \<Rightarrow> side \<Rightarrow> (raw, order_id list) btree_map" where
  "index_levels idx sl s = (case bt_get idx sl of None \<Rightarrow> [] | Some m \<Rightarrow> ql_side s m)"

definition index_at :: "resting_index \<Rightarrow> slot \<Rightarrow> side \<Rightarrow> raw \<Rightarrow> order_id set" where
  "index_at idx sl s l = set (level_list (index_levels idx sl s) l)"

definition levels_ok :: "(raw, order_id list) btree_map \<Rightarrow> bool" where
  "levels_ok levels \<longleftrightarrow> bt_wf levels \<and> (\<forall>e \<in> set levels. sorted (snd e) \<and> distinct (snd e))"

definition index_wf :: "resting_index \<Rightarrow> bool" where
  "index_wf idx \<longleftrightarrow> bt_wf idx \<and> (\<forall>sl s. levels_ok (index_levels idx sl s))"

lemma ql_side_set [simp]:
  "ql_side s (ql_set s' levels m) = (if s = s' then levels else ql_side s m)"
  by (cases s; cases s') (auto simp: ql_side_def ql_set_def)

lemma ql_side_empty [simp]: "ql_side s ql_empty = []"
  by (cases s) (auto simp: ql_side_def ql_empty_def)

lemma set_bt_insert: "set (bt_insert k v m) \<subseteq> insert (k, v) (set m)"
  by (induction k v m rule: bt_insert.induct) auto

lemma set_bt_remove: "set (bt_remove k m) \<subseteq> set m"
  by (auto simp: bt_remove_def)

lemma levels_ok_get: "levels_ok levels \<Longrightarrow> bt_get levels l = Some ids \<Longrightarrow> sorted ids \<and> distinct ids"
  by (auto simp: levels_ok_def dest!: map_of_SomeD)

lemma levels_ok_insert: "levels_ok levels \<Longrightarrow> sorted ids \<Longrightarrow> distinct ids \<Longrightarrow> levels_ok (bt_insert l ids levels)"
  using set_bt_insert [of l ids levels] by (auto simp: levels_ok_def bt_wf_insert)

lemma levels_ok_remove: "levels_ok levels \<Longrightarrow> levels_ok (bt_remove l levels)"
  using set_bt_remove [of l levels] by (auto simp: levels_ok_def bt_wf_remove)

lemma level_list_insert:
  "levels_ok levels \<Longrightarrow> level_list (bt_insert l ids levels) l' = (if l' = l then ids else level_list levels l')"
  by (simp add: level_list_def bt_get_insert levels_ok_def)

lemma level_without_ok:
  assumes "levels_ok levels"
  shows "levels_ok (level_without i l levels)"
    and "level_list (level_without i l levels) l' = (if l' = l then remove1 i (level_list levels l') else level_list levels l')"
proof -
  have ids: "sorted (remove1 i ids) \<and> distinct (remove1 i ids)" if "bt_get levels l = Some ids" for ids
    using levels_ok_get [OF assms that] by (simp add: sorted_remove1)
  have wf: "bt_wf levels" using assms by (simp add: levels_ok_def)
  show "levels_ok (level_without i l levels)"
    by (auto simp: level_without_def Let_def assms levels_ok_insert levels_ok_remove ids split: option.splits)
  show "level_list (level_without i l levels) l' = (if l' = l then remove1 i (level_list levels l') else level_list levels l')"
    by (auto simp: level_without_def level_list_def Let_def bt_get_insert [OF wf] bt_get_remove split: option.splits)
qed

lemma index_levels_insert:
  "bt_wf idx \<Longrightarrow> index_levels (bt_insert sl m idx) sl' s = (if sl' = sl then ql_side s m else index_levels idx sl' s)"
  by (simp add: index_levels_def bt_get_insert)

lemma index_levels_remove:
  "bt_wf idx \<Longrightarrow> index_levels (bt_remove sl idx) sl' s = (if sl' = sl then [] else index_levels idx sl' s)"
  by (simp add: index_levels_def bt_get_remove)

lemma index_levels_ri_insert:
  assumes "index_wf idx" and "limit_price ord = Some lim"
  shows "index_levels (ri_insert idx ord sl) sl' s =
    (if sl' = sl \<and> s = o_side ord
     then let ids = level_list (index_levels idx sl s) lim
          in bt_insert lim (if o_id ord \<in> set ids then ids else insort (o_id ord) ids) (index_levels idx sl s)
     else index_levels idx sl' s)"
proof -
  have m: "ql_side s' (case bt_get idx sl of None \<Rightarrow> ql_empty | Some m \<Rightarrow> m) = index_levels idx sl s'" for s'
    by (simp add: index_levels_def split: option.splits)
  show ?thesis
    using assms by (simp only: ri_insert_def Let_def index_levels_insert index_wf_def m level_list_def
        option.case ql_side_set) auto
qed

lemma index_levels_ri_remove:
  assumes "index_wf idx" and "limit_price ord = Some lim"
  shows "index_levels (ri_remove idx ord sl) sl' s =
    (if sl' = sl \<and> s = o_side ord then level_without (o_id ord) lim (index_levels idx sl s)
     else index_levels idx sl' s)"
proof (cases "bt_get idx sl")
  case None
  then show ?thesis
    using assms by (auto simp: ri_remove_def index_levels_def level_without_def)
next
  case (Some m)
  define m1 where "m1 = ql_set (o_side ord) (level_without (o_id ord) lim (ql_side (o_side ord) m)) m"
  have "ql_side s m1 = []" if "ql_buys m1 = []" "ql_sells m1 = []"
    using that by (cases s) (auto simp: ql_side_def)
  moreover have "ql_side s m1 = (if s = o_side ord then level_without (o_id ord) lim (ql_side s m) else ql_side s m)"
    by (auto simp: m1_def)
  ultimately show ?thesis
    using assms Some
    by (auto simp: ri_remove_def Let_def index_levels_insert index_levels_remove index_wf_def
        m1_def [symmetric] index_levels_def bt_get_insert bt_get_remove)
qed

lemma ri_no_limit: "limit_price ord = None \<Longrightarrow> ri_insert idx ord sl = idx \<and> ri_remove idx ord sl = idx"
  by (simp add: ri_insert_def ri_remove_def)

lemma index_wf_levels: "index_wf idx \<Longrightarrow> levels_ok (index_levels idx sl s)"
  by (simp add: index_wf_def)

lemma bt_wf_ri: "bt_wf idx \<Longrightarrow> bt_wf (ri_insert idx ord sl)" "bt_wf idx \<Longrightarrow> bt_wf (ri_remove idx ord sl)"
  by (auto simp: ri_insert_def ri_remove_def Let_def bt_wf_insert bt_wf_remove split: option.splits)

lemma levels_ok_add:
  assumes "levels_ok levels"
  shows "levels_ok (let ids = level_list levels l in bt_insert l (if i \<in> set ids then ids else insort i ids) levels)"
proof -
  have "sorted (level_list levels l) \<and> distinct (level_list levels l)"
    using levels_ok_get [OF assms] by (auto simp: level_list_def split: option.splits)
  then show ?thesis
    using assms by (auto simp: Let_def levels_ok_insert sorted_insort distinct_insort)
qed

lemma index_wf_ri_insert: "index_wf idx \<Longrightarrow> index_wf (ri_insert idx ord sl)"
proof (cases "limit_price ord")
  case (Some lim)
  assume "index_wf idx"
  then show ?thesis
    using levels_ok_add [OF index_wf_levels]
    unfolding index_wf_def [of "ri_insert idx ord sl"]
    by (simp add: bt_wf_ri index_levels_ri_insert [OF _ Some] index_wf_levels index_wf_def)
qed (simp add: ri_no_limit)

lemma index_wf_ri_remove: "index_wf idx \<Longrightarrow> index_wf (ri_remove idx ord sl)"
proof (cases "limit_price ord")
  case (Some lim)
  assume "index_wf idx"
  then show ?thesis
    unfolding index_wf_def [of "ri_remove idx ord sl"]
    by (simp add: bt_wf_ri index_levels_ri_remove [OF _ Some] index_wf_levels level_without_ok index_wf_def)
qed (simp add: ri_no_limit)

lemma level_list_distinct: "levels_ok levels \<Longrightarrow> distinct (level_list levels l)"
  by (auto simp: level_list_def dest: levels_ok_get split: option.splits)

interpretation ri: order_index ri_insert ri_remove index_at index_wf
proof
  fix idx ord sl sl' s l
  assume wf: "index_wf idx"
  show "index_wf (ri_insert idx ord sl)" and "index_wf (ri_remove idx ord sl)"
    using wf by (simp_all add: index_wf_ri_insert index_wf_ri_remove)
  note ok = index_wf_levels [OF wf]
  show "index_at (ri_insert idx ord sl) sl' s l =
    (if limit_price ord = Some l \<and> sl' = sl \<and> s = o_side ord
     then insert (o_id ord) (index_at idx sl' s l) else index_at idx sl' s l)"
    by (cases "limit_price ord")
       (auto simp: ri_no_limit index_at_def index_levels_ri_insert [OF wf] Let_def level_list_insert ok
         set_insort_key)
  show "index_at (ri_remove idx ord sl) sl' s l =
    (if limit_price ord = Some l \<and> sl' = sl \<and> s = o_side ord
     then index_at idx sl' s l - {o_id ord} else index_at idx sl' s l)"
    by (cases "limit_price ord")
       (auto simp: ri_no_limit index_at_def index_levels_ri_remove [OF wf] level_without_ok ok
         set_remove1_eq level_list_distinct)
qed

section \<open>Queries\<close>

lemma index_entries:
  assumes "levels_ok levels"
  shows "(\<exists>e \<in> set levels. fst e = l \<and> i \<in> set (snd e)) \<longleftrightarrow> i \<in> set (level_list levels l)"
proof -
  have "distinct (bt_keys levels)" using assms by (simp add: levels_ok_def bt_wf_distinct)
  then show ?thesis
    by (force simp: level_list_def map_of_eq_Some_iff split: option.splits dest: map_of_SomeD
        simp: map_of_eq_None_iff)
qed

text \<open>The queries in terms of one side of one market.\<close>

lemma reached_by_trade_alt:
  "reached_by_trade idx sl passive p =
     (case passive of
        Buy \<Rightarrow> concat (map level_ids (rev (filter (\<lambda>e. fst e \<ge> p) (index_levels idx sl Buy))))
      | Sell \<Rightarrow> concat (map level_ids (filter (\<lambda>e. fst e \<le> p) (index_levels idx sl Sell))))"
  by (auto simp: reached_by_trade_def index_levels_def ql_side_def split: option.splits side.splits)

lemma crossing_top_alt:
  "crossing_top idx sl bid ask =
     (case ask of None \<Rightarrow> [] | Some a \<Rightarrow> concat (map snd (filter (\<lambda>e. fst e \<ge> a) (index_levels idx sl Buy))))
     @ (case bid of None \<Rightarrow> [] | Some b \<Rightarrow> concat (map snd (filter (\<lambda>e. fst e \<le> b) (index_levels idx sl Sell))))"
  by (auto simp: crossing_top_def index_levels_def ql_side_def split: option.splits)

definition reaches :: "side \<Rightarrow> price \<Rightarrow> raw \<Rightarrow> bool" where
  "reaches passive p lim \<longleftrightarrow> (case passive of Buy \<Rightarrow> lim \<ge> p | Sell \<Rightarrow> lim \<le> p)"

lemma set_reached_by_trade:
  assumes "index_wf idx"
  shows "(lim, i) \<in> set (reached_by_trade idx sl passive p) \<longleftrightarrow> reaches passive p lim \<and> i \<in> index_at idx sl passive lim"
  unfolding index_at_def index_entries [OF index_wf_levels [OF assms], symmetric]
  by (cases "passive") (auto simp: reached_by_trade_alt level_ids_def reaches_def; force)+

lemma set_crossing_top:
  assumes "index_wf idx"
  shows "i \<in> set (crossing_top idx sl bid ask) \<longleftrightarrow>
    (\<exists>l. i \<in> index_at idx sl Buy l \<and> (\<exists>a. ask = Some a \<and> a \<le> l))
    \<or> (\<exists>l. i \<in> index_at idx sl Sell l \<and> (\<exists>b. bid = Some b \<and> l \<le> b))"
  unfolding index_at_def index_entries [OF index_wf_levels [OF assms], symmetric]
  by (cases ask; cases bid) (auto simp: crossing_top_alt; force)+

lemma ex_side: "(\<exists>s. P s) \<longleftrightarrow> P Buy \<or> P Sell"
  by (metis side.exhaust)

lemma set_all_for_market:
  assumes "index_wf idx"
  shows "i \<in> set (all_for_market idx sl) \<longleftrightarrow> (\<exists>s l. i \<in> index_at idx sl s l)"
proof -
  have "i \<in> set (all_for_market idx sl) \<longleftrightarrow> (\<exists>s. \<exists>e \<in> set (index_levels idx sl s). i \<in> set (snd e))"
    by (cases "bt_get idx sl")
       (auto simp: all_for_market_def index_levels_def ql_side_def ex_side split: side.splits)
  also have "\<dots> \<longleftrightarrow> (\<exists>s l. i \<in> index_at idx sl s l)"
    unfolding index_at_def index_entries [OF index_wf_levels [OF assms], symmetric] by blast
  finally show ?thesis .
qed

text \<open>Best price first, and within a price the order that was submitted first.\<close>

definition priority :: "side \<Rightarrow> price \<times> order_id \<Rightarrow> price \<times> order_id \<Rightarrow> bool" where
  "priority passive a b \<longleftrightarrow>
     (case passive of Buy \<Rightarrow> fst a > fst b | Sell \<Rightarrow> fst a < fst b) \<or> fst a = fst b \<and> snd a < snd b"

lemma sorted_wrt_concat:
  "sorted_wrt (\<lambda>xs ys. \<forall>x \<in> set xs. \<forall>y \<in> set ys. P x y) xss \<Longrightarrow> (\<forall>xs \<in> set xss. sorted_wrt P xs)
    \<Longrightarrow> sorted_wrt P (concat xss)"
  by (induction xss) (auto simp: sorted_wrt_append)

lemma level_ids_priority: "sorted (snd e) \<Longrightarrow> distinct (snd e) \<Longrightarrow> sorted_wrt (priority passive) (level_ids e)"
  by (simp add: level_ids_def sorted_wrt_map priority_def sorted_wrt_mono_rel [of _ "(<)"] strict_sorted_iff)

lemma reached_by_trade_priority:
  assumes "index_wf idx"
  shows "sorted_wrt (priority passive) (reached_by_trade idx sl passive p)"
proof -
  define levels where "levels = index_levels idx sl passive"
  have ok: "sorted_wrt (\<lambda>a b. fst a < fst b) levels" "\<forall>e \<in> set levels. sorted (snd e) \<and> distinct (snd e)"
    using index_wf_levels [OF assms, of sl "passive"]
    by (auto simp: levels_def levels_ok_def bt_wf_def sorted_wrt_map)
  note concat = sorted_wrt_concat [of "priority passive" "map level_ids levs" for levs]
  show ?thesis
  proof (cases "passive")
    case Buy
    have "sorted_wrt (\<lambda>a b. fst a > fst b) (rev (filter (\<lambda>e. fst e \<ge> p) levels))"
      using sorted_wrt_filter [OF ok(1), of "\<lambda>e. fst e \<ge> p"] by (simp add: sorted_wrt_rev)
    then have "sorted_wrt (priority passive) (concat (map level_ids (rev (filter (\<lambda>e. fst e \<ge> p) levels))))"
      using ok(2) Buy
      by (intro concat) (auto simp: sorted_wrt_map level_ids_def priority_def strict_sorted_iff
          elim!: sorted_wrt_mono_rel [rotated])
    then show ?thesis using Buy by (simp add: reached_by_trade_alt levels_def)
  next
    case Sell
    have "sorted_wrt (\<lambda>a b. fst a < fst b) (filter (\<lambda>e. fst e \<le> p) levels)"
      using sorted_wrt_filter [OF ok(1), of "\<lambda>e. fst e \<le> p"] .
    then have "sorted_wrt (priority passive) (concat (map level_ids (filter (\<lambda>e. fst e \<le> p) levels)))"
      using ok(2) Sell
      by (intro concat) (auto simp: sorted_wrt_map level_ids_def priority_def strict_sorted_iff
          elim!: sorted_wrt_mono_rel [rotated])
    then show ?thesis using Sell by (simp add: reached_by_trade_alt levels_def)
  qed
qed

end
