(* ===== verification/Engine_Machine.thy ===== *)
theory Engine_Machine
  imports Engine_Loop Engine_Strategy Resting_Index
begin

text \<open>
  The run kernel as an abstract machine: the part of the engine's state that decides what was traded
  (its core), the elementary moves everything the kernel does is made of, and the invariant of the
  core. \<open>Engine_Refine\<close> shows that the operations of the engine are sequences of these moves, so
  that a fact about every run is a fact about one move.
\<close>

section \<open>The core of the state\<close>

definition core :: "('f, 'x) engine \<Rightarrow> _" where
  "core e = (g_config e, (g_portfolio e, g_cash e, g_isolated_collateral e, g_fills e, g_funding_paid e,
     g_dividends_received e), (g_orders e, g_resting e, g_resting_index e, g_untriggered e),
     (g_delisted e, g_expired e, g_next_expiry e), (g_commands e, g_next_order_id e, g_clock e))"

lemma core_eq_iff:
  "core e' = core e \<longleftrightarrow> g_config e' = g_config e \<and> g_portfolio e' = g_portfolio e \<and> g_cash e' = g_cash e
     \<and> g_isolated_collateral e' = g_isolated_collateral e \<and> g_fills e' = g_fills e
     \<and> g_funding_paid e' = g_funding_paid e \<and> g_dividends_received e' = g_dividends_received e
     \<and> g_orders e' = g_orders e \<and> g_resting e' = g_resting e \<and> g_resting_index e' = g_resting_index e
     \<and> g_untriggered e' = g_untriggered e \<and> g_delisted e' = g_delisted e \<and> g_expired e' = g_expired e
     \<and> g_next_expiry e' = g_next_expiry e \<and> g_commands e' = g_commands e
     \<and> g_next_order_id e' = g_next_order_id e \<and> g_clock e' = g_clock e"
  by (auto simp: core_def)

text \<open>The part of it that is the account.\<close>

definition account :: "('f, 'x) engine \<Rightarrow> _" where
  "account e = (g_config e, g_portfolio e, g_cash e, g_isolated_collateral e, g_fills e, g_funding_paid e,
     g_dividends_received e)"

lemma stopped_trading_cong:
  "g_config e' = g_config e \<Longrightarrow> g_delisted e' = g_delisted e \<Longrightarrow> stopped_trading e' = stopped_trading e"
  by (intro ext) (simp add: stopped_trading_def has_expired_def)

section \<open>The invariant\<close>

text \<open>Where the index must hold an order.\<close>

definition place :: "('f, 'x) engine \<Rightarrow> order_id \<Rightarrow> slot \<times> side \<times> raw option" where
  "place e i = (case bt_get (g_orders e) i of
     None \<Rightarrow> (slot_missing, Buy, None)
   | Some ord \<Rightarrow> (g_key e (o_instrument ord) (o_outcome ord), o_side ord, limit_price ord))"

definition working :: "order \<Rightarrow> bool" where
  "working ord \<longleftrightarrow> o_status ord = Accepted \<or> o_status ord = PartiallyFilled"

definition settled :: "order \<Rightarrow> bool" where
  "settled ord \<longleftrightarrow> o_status ord \<noteq> InFlight \<and> o_status ord \<noteq> Untriggered"

lemma working_settled: "working ord \<Longrightarrow> settled ord"
  by (auto simp: working_def settled_def)

lemma settled_open_working: "settled ord \<Longrightarrow> is_open ord \<Longrightarrow> working ord"
  by (cases "o_status ord") (auto simp: settled_def is_open_def working_def)

lemma working_open: "working ord \<Longrightarrow> is_open ord \<and> o_status ord \<noteq> InFlight"
  by (auto simp: working_def is_open_def)

text \<open>Order numbers are never used twice, neither by the strategy nor by the venue.\<close>

definition ids_ok :: "('f, 'x) engine \<Rightarrow> bool" where
  "ids_ok e \<longleftrightarrow> bt_wf (g_orders e)
     \<and> (\<forall>i ord. bt_get (g_orders e) i = Some ord \<longrightarrow> o_id ord = i \<and> i \<le> g_next_order_id e)
     \<and> distinct (submit_ids (g_commands e))
     \<and> (\<forall>i \<in> set (submit_ids (g_commands e)). i \<le> g_next_order_id e \<and> bt_get (g_orders e) i = None)"

text \<open>
  The index holds exactly the resting orders, each under its own market, side and price; a resting
  order is a limit order that is working on a market that still trades.
\<close>

definition rest_ok :: "unix_nanos \<Rightarrow> ('f, 'x) engine \<Rightarrow> bool" where
  "rest_ok ts e \<longleftrightarrow> index_wf (g_resting_index e)
     \<and> tracks (index_at (g_resting_index e)) (place e) (set (g_resting e))
     \<and> (\<forall>i \<in> set (g_resting e). \<exists>ord. bt_get (g_orders e) i = Some ord \<and> working ord
          \<and> limit_price ord \<noteq> None \<and> stopped_trading e (o_instrument ord) ts = None)"

text \<open>An order parked on a trigger is off the book, and stays parked until it fires or is closed.\<close>

definition parked_ok :: "('f, 'x) engine \<Rightarrow> bool" where
  "parked_ok e \<longleftrightarrow> (\<forall>i \<in> set (g_untriggered e). i \<notin> set (g_resting e)
     \<and> (\<exists>ord. bt_get (g_orders e) i = Some ord \<and> (o_status ord = Untriggered \<or> is_terminal (o_status ord))))"

text \<open>What an order has filled is what its fills say.\<close>

definition filled_by :: "fill list \<Rightarrow> order_id \<Rightarrow> int" where
  "filled_by fs i = sum_list (map f_quantity (filter (\<lambda>f. f_order_id f = i) fs))"

definition fills_ok :: "('f, 'x) engine \<Rightarrow> bool" where
  "fills_ok e \<longleftrightarrow> (\<forall>i ord. bt_get (g_orders e) i = Some ord \<longrightarrow> o_filled ord = filled_by (g_fills e) i)
     \<and> (\<forall>f \<in> set (g_fills e). bt_get (g_orders e) (f_order_id f) \<noteq> None)"

definition engine_inv :: "unix_nanos \<Rightarrow> ('f, 'x) engine \<Rightarrow> bool" where
  "engine_inv ts e \<longleftrightarrow> ids_ok e \<and> rest_ok ts e \<and> parked_ok e \<and> fills_ok e \<and> one_shot (g_clock e)"

lemma invD:
  "engine_inv ts e \<Longrightarrow> ids_ok e" "engine_inv ts e \<Longrightarrow> rest_ok ts e" "engine_inv ts e \<Longrightarrow> parked_ok e"
  "engine_inv ts e \<Longrightarrow> fills_ok e" "engine_inv ts e \<Longrightarrow> one_shot (g_clock e)"
  by (simp_all add: engine_inv_def)

lemma inv_orders_wf: "engine_inv ts e \<Longrightarrow> bt_wf (g_orders e)"
  by (simp add: engine_inv_def ids_ok_def)

lemma place_cong: "g_config e' = g_config e \<Longrightarrow> g_orders e' = g_orders e \<Longrightarrow> place e' = place e"
  by (intro ext) (simp add: place_def split: option.splits)

text \<open>The invariant does not read the account.\<close>

lemma inv_cong:
  assumes "g_config e' = g_config e" and "g_orders e' = g_orders e" and "g_resting e' = g_resting e"
    and "g_resting_index e' = g_resting_index e" and "g_untriggered e' = g_untriggered e"
    and "g_delisted e' = g_delisted e" and "g_fills e' = g_fills e"
    and "g_commands e' = g_commands e" and "g_next_order_id e' = g_next_order_id e"
    and "g_clock e' = g_clock e"
  shows "engine_inv ts e' \<longleftrightarrow> engine_inv ts e"
  using assms place_cong [of e' e] stopped_trading_cong [of e' e]
  by (simp add: engine_inv_def ids_ok_def rest_ok_def parked_ok_def fills_ok_def)

lemma inv_core: "core e' = core e \<Longrightarrow> engine_inv ts e' \<longleftrightarrow> engine_inv ts e"
  by (intro inv_cong) (simp_all add: core_eq_iff)

lemma no_fills_yet: "fills_ok e \<Longrightarrow> bt_get (g_orders e) i = None \<Longrightarrow> filled_by (g_fills e) i = 0"
proof -
  assume "fills_ok e" and "bt_get (g_orders e) i = None"
  then have "filter (\<lambda>f. f_order_id f = i) (g_fills e) = []"
    by (auto simp: fills_ok_def filter_empty_conv)
  then show ?thesis by (simp add: filled_by_def)
qed

lemma fresh_number:
  assumes "engine_inv ts e" and "g_next_order_id e < i"
  shows "bt_get (g_orders e) i = None"
proof (rule ccontr)
  assume "bt_get (g_orders e) i \<noteq> None"
  with assms(1) have "i \<le> g_next_order_id e" by (auto simp: engine_inv_def ids_ok_def)
  with assms(2) show False by simp
qed

lemma resting_order:
  "engine_inv ts e \<Longrightarrow> i \<in> set (g_resting e) \<Longrightarrow> \<exists>ord. bt_get (g_orders e) i = Some ord \<and> working ord
     \<and> limit_price ord \<noteq> None \<and> stopped_trading e (o_instrument ord) ts = None"
  by (simp add: engine_inv_def rest_ok_def)

section \<open>What each kind of change does to the invariant\<close>

text \<open>What never changes about an order once it has a number, but for its fills.\<close>

definition same_stub :: "order \<Rightarrow> order \<Rightarrow> bool" where
  "same_stub ord ord' \<longleftrightarrow> o_id ord' = o_id ord \<and> o_instrument ord' = o_instrument ord
     \<and> o_outcome ord' = o_outcome ord \<and> o_side ord' = o_side ord"

lemma set_order_fields [simp]:
  "g_orders (set_order i ord e) = bt_insert i ord (g_orders e)"
  "g_config (set_order i ord e) = g_config e" "g_resting (set_order i ord e) = g_resting e"
  "g_resting_index (set_order i ord e) = g_resting_index e" "g_untriggered (set_order i ord e) = g_untriggered e"
  "g_fills (set_order i ord e) = g_fills e" "g_commands (set_order i ord e) = g_commands e"
  "g_next_order_id (set_order i ord e) = g_next_order_id e" "g_delisted (set_order i ord e) = g_delisted e"
  "g_expired (set_order i ord e) = g_expired e" "g_next_expiry (set_order i ord e) = g_next_expiry e"
  "g_portfolio (set_order i ord e) = g_portfolio e" "g_cash (set_order i ord e) = g_cash e"
  "g_isolated_collateral (set_order i ord e) = g_isolated_collateral e"
  "g_funding_paid (set_order i ord e) = g_funding_paid e"
  "g_dividends_received (set_order i ord e) = g_dividends_received e"
  "g_books (set_order i ord e) = g_books e" "g_marks (set_order i ord e) = g_marks e"
  "g_inflight (set_order i ord e) = g_inflight e" "g_clock (set_order i ord e) = g_clock e"
  "g_queue_ahead (set_order i ord e) = g_queue_ahead e"
  by (simp_all add: set_order_def)

lemma remove_resting_fields [simp]:
  "g_orders (remove_resting i e) = g_orders e"
  "g_config (remove_resting i e) = g_config e" "g_resting (remove_resting i e) = filter (\<lambda>j. j \<noteq> i) (g_resting e)"
  "g_untriggered (remove_resting i e) = g_untriggered e"
  "g_fills (remove_resting i e) = g_fills e" "g_commands (remove_resting i e) = g_commands e"
  "g_next_order_id (remove_resting i e) = g_next_order_id e" "g_delisted (remove_resting i e) = g_delisted e"
  "g_expired (remove_resting i e) = g_expired e" "g_next_expiry (remove_resting i e) = g_next_expiry e"
  "g_portfolio (remove_resting i e) = g_portfolio e" "g_cash (remove_resting i e) = g_cash e"
  "g_isolated_collateral (remove_resting i e) = g_isolated_collateral e"
  "g_funding_paid (remove_resting i e) = g_funding_paid e"
  "g_dividends_received (remove_resting i e) = g_dividends_received e"
  "g_books (remove_resting i e) = g_books e" "g_marks (remove_resting i e) = g_marks e"
  "g_inflight (remove_resting i e) = g_inflight e" "g_clock (remove_resting i e) = g_clock e"
  by (simp_all add: remove_resting_def Let_def split: option.splits)

lemma remove_resting_index:
  "g_resting_index (remove_resting i e) = (case bt_get (g_orders e) i of
     None \<Rightarrow> g_resting_index e
   | Some ord \<Rightarrow> ri_remove (g_resting_index e) ord (g_key e (o_instrument ord) (o_outcome ord)))"
  by (simp add: remove_resting_def Let_def split: option.splits)

lemma inv_remove_resting:
  assumes "engine_inv ts e"
  shows "engine_inv ts (remove_resting i e)"
proof -
  have stop: "stopped_trading (remove_resting i e) = stopped_trading e"
    by (rule stopped_trading_cong) simp_all
  have pl: "place (remove_resting i e) = place e" by (rule place_cong) simp_all
  have rest: "index_wf (g_resting_index e)" "tracks (index_at (g_resting_index e)) (place e) (set (g_resting e))"
    using assms by (simp_all add: engine_inv_def rest_ok_def)
  have "index_wf (g_resting_index (remove_resting i e))
    \<and> tracks (index_at (g_resting_index (remove_resting i e))) (place e) (set (g_resting e) - {i})"
  proof (cases "bt_get (g_orders e) i")
    case None
    then have "i \<notin> set (g_resting e)" using resting_order [OF assms] by fastforce
    with None rest show ?thesis by (simp add: remove_resting_index)
  next
    case (Some ord)
    then have oid: "o_id ord = i" using assms by (simp add: engine_inv_def ids_ok_def)
    show ?thesis
      using Some oid rest ri.tracks_rem [OF rest, of ord "g_key e (o_instrument ord) (o_outcome ord)"]
      by (simp add: remove_resting_index index_wf_ri_remove place_def)
  qed
  with assms show ?thesis
    by (simp add: engine_inv_def ids_ok_def rest_ok_def parked_ok_def fills_ok_def stop pl set_diff_eq Collect_conj_eq)
qed

text \<open>A change to an order that is not resting, or that leaves it where it rests, with its fills.\<close>

lemma inv_change:
  assumes "engine_inv ts e" and get: "bt_get (g_orders e) i = Some ord" and stub: "same_stub ord ord'"
    and flld: "o_filled ord' = filled_by fs i" "\<And>j. j \<noteq> i \<Longrightarrow> filled_by fs j = filled_by (g_fills e) j"
      "\<And>f. f \<in> set fs \<Longrightarrow> f \<in> set (g_fills e) \<or> f_order_id f = i"
    and res: "i \<in> set (g_resting e) \<Longrightarrow> working ord' \<and> limit_price ord' = limit_price ord"
    and park: "i \<in> set (g_untriggered e) \<Longrightarrow> o_status ord' = Untriggered \<or> is_terminal (o_status ord')"
  shows "engine_inv ts ((set_order i ord' e)\<lparr>g_fills := fs\<rparr>)"
proof -
  let ?e = "(set_order i ord' e)\<lparr>g_fills := fs\<rparr>"
  have wf: "bt_wf (g_orders e)" and oid: "o_id ord = i" using assms(1) get by (auto simp: engine_inv_def ids_ok_def)
  have stop: "stopped_trading ?e = stopped_trading e"
    by (rule stopped_trading_cong) simp_all
  have "place ?e j = place e j" if "j \<in> set (g_resting e)" for j
    using get stub res that by (auto simp: place_def bt_get_insert [OF wf] same_stub_def split: option.splits)
  moreover have "tracks (index_at (g_resting_index e)) (place e) (set (g_resting e))"
    using assms(1) by (simp add: engine_inv_def rest_ok_def)
  ultimately have "tracks (index_at (g_resting_index e)) (place ?e) (set (g_resting e))"
    by (blast intro: tracks_cong)
  moreover have "\<exists>o'. bt_get (bt_insert i ord' (g_orders e)) j = Some o' \<and> working o' \<and> limit_price o' \<noteq> None
      \<and> stopped_trading e (o_instrument o') ts = None" if "j \<in> set (g_resting e)" for j
    using resting_order [OF assms(1) that] get stub res that
    by (auto simp: bt_get_insert [OF wf] same_stub_def)
  moreover have "fills_ok ?e"
    using assms(1) get flld(1,2) by (auto simp: engine_inv_def fills_ok_def bt_get_insert [OF wf] dest!: flld(3))
  ultimately show ?thesis
    using assms(1) get stub park oid
    by (auto simp: engine_inv_def ids_ok_def rest_ok_def parked_ok_def stop bt_get_insert [OF wf]
        bt_wf_insert same_stub_def)
qed

lemma inv_relabel:
  assumes "engine_inv ts e" and "bt_get (g_orders e) i = Some ord" and "same_stub ord ord'"
    and "o_filled ord' = o_filled ord"
    and "i \<in> set (g_resting e) \<Longrightarrow> working ord' \<and> limit_price ord' = limit_price ord"
    and "i \<in> set (g_untriggered e) \<Longrightarrow> o_status ord' = Untriggered \<or> is_terminal (o_status ord')"
  shows "engine_inv ts (set_order i ord' e)"
proof -
  have "engine_inv ts ((set_order i ord' e)\<lparr>g_fills := g_fills e\<rparr>)"
    using assms by (intro inv_change) (auto simp: engine_inv_def fills_ok_def)
  moreover have "core ((set_order i ord' e)\<lparr>g_fills := g_fills e\<rparr>) = core (set_order i ord' e)"
    by (simp add: core_eq_iff)
  ultimately show ?thesis using inv_core by blast
qed

text \<open>Repricing an order that rests: out of the index and back in.\<close>

lemma inv_reindex:
  assumes "engine_inv ts e" and get: "bt_get (g_orders e) i = Some ord" and stub: "same_stub ord ord'"
    and flld: "o_filled ord' = o_filled ord" and res: "i \<in> set (g_resting e)"
    and wk: "working ord'" "limit_price ord' \<noteq> None"
  defines "key \<equiv> g_key e (o_instrument ord) (o_outcome ord)"
  shows "engine_inv ts (set_order i ord' (e\<lparr>g_resting_index := ri_insert (ri_remove (g_resting_index e) ord key) ord' key\<rparr>))"
proof -
  let ?e = "set_order i ord' (e\<lparr>g_resting_index := ri_insert (ri_remove (g_resting_index e) ord key) ord' key\<rparr>)"
  have wf: "bt_wf (g_orders e)" and oid: "o_id ord = i" "o_id ord' = i"
    using assms(1) get stub by (auto simp: engine_inv_def ids_ok_def same_stub_def)
  have stop: "stopped_trading ?e = stopped_trading e" by (rule stopped_trading_cong) simp_all
  have rest: "index_wf (g_resting_index e)" "tracks (index_at (g_resting_index e)) (place e) (set (g_resting e))"
    using assms(1) by (simp_all add: engine_inv_def rest_ok_def)
  have pl: "place ?e = (place e)(i := (key, o_side ord', limit_price ord'))"
    using stub by (auto simp: fun_eq_iff place_def bt_get_insert [OF wf] key_def same_stub_def split: option.splits)
  have "tracks (index_at (g_resting_index ?e)) (place ?e) (set (g_resting e))"
    unfolding pl using ri.tracks_move [OF rest, of ord' ord key key] get oid res by (simp add: place_def key_def)
  moreover have "index_wf (g_resting_index ?e)" using rest by (simp add: index_wf_ri_insert index_wf_ri_remove)
  moreover have "\<exists>o'. bt_get (bt_insert i ord' (g_orders e)) j = Some o' \<and> working o' \<and> limit_price o' \<noteq> None
      \<and> stopped_trading e (o_instrument o') ts = None" if "j \<in> set (g_resting e)" for j
    using resting_order [OF assms(1) that] get stub that wk
    by (auto simp: bt_get_insert [OF wf] same_stub_def)
  ultimately show ?thesis
    using assms(1) get stub oid res flld
    by (auto simp: engine_inv_def ids_ok_def rest_ok_def parked_ok_def fills_ok_def stop bt_get_insert [OF wf]
        bt_wf_insert same_stub_def)
qed

lemma join_queue_core [simp]: "core (join_queue ord e) = core e"
  by (simp add: join_queue_def core_eq_iff Let_def split: option.splits)

lemma add_resting_core:
  "o_id ord \<notin> set (g_resting e) \<Longrightarrow> core (add_resting ord e) =
     core (e\<lparr>g_resting_index := ri_insert (g_resting_index e) ord (g_key e (o_instrument ord) (o_outcome ord)),
            g_resting := g_resting e @ [o_id ord]\<rparr>)"
  using join_queue_core [of ord e, unfolded core_eq_iff] by (simp add: add_resting_def core_eq_iff Let_def)

text \<open>An order starts to rest.\<close>

lemma inv_add_resting:
  assumes "engine_inv ts e" and get: "bt_get (g_orders e) i = Some ord" and new: "i \<notin> set (g_resting e)" "i \<notin> set (g_untriggered e)"
    and wk: "working ord" "limit_price ord \<noteq> None" "stopped_trading e (o_instrument ord) ts = None"
  shows "engine_inv ts (add_resting ord e)"
proof -
  define key where "key = g_key e (o_instrument ord) (o_outcome ord)"
  define e1 where "e1 = e\<lparr>g_resting_index := ri_insert (g_resting_index e) ord key, g_resting := g_resting e @ [o_id ord]\<rparr>"
  have oid: "o_id ord = i" using assms(1) get by (simp add: engine_inv_def ids_ok_def)
  have stop: "stopped_trading e1 = stopped_trading e" by (rule stopped_trading_cong) (simp_all add: e1_def)
  have pl: "place e1 = (place e)(i := (key, o_side ord, limit_price ord))"
    using get by (auto simp: fun_eq_iff place_def key_def e1_def split: option.splits)
  have rest: "index_wf (g_resting_index e)" "tracks (index_at (g_resting_index e)) (place e) (set (g_resting e))"
    using assms(1) by (simp_all add: engine_inv_def rest_ok_def)
  have "tracks (index_at (g_resting_index e1)) (place e1) (set (g_resting e1))"
    unfolding pl using ri.tracks_ins [OF rest, of ord key] oid new by (simp add: e1_def)
  moreover have "index_wf (g_resting_index e1)" using rest by (simp add: e1_def index_wf_ri_insert)
  ultimately have "engine_inv ts e1"
    using assms(1) get new wk oid
    by (auto simp: engine_inv_def ids_ok_def rest_ok_def parked_ok_def fills_ok_def stop) (auto simp: e1_def)
  moreover have "core (add_resting ord e) = core e1"
    using add_resting_core [of ord e] new oid by (simp add: e1_def key_def)
  ultimately show ?thesis using inv_core by blast
qed

text \<open>A new order.\<close>

lemma inv_create:
  assumes "engine_inv ts e" and none: "bt_get (g_orders e) i = None" and ord: "o_id ord = i" "o_filled ord = 0"
    and nxt: "i \<le> n" "g_next_order_id e \<le> n"
    and cmds: "distinct (submit_ids cs)" "set (submit_ids cs) \<subseteq> set (submit_ids (g_commands e)) - {i}"
  shows "engine_inv ts (set_order i ord (e\<lparr>g_commands := cs, g_next_order_id := n\<rparr>))"
proof -
  let ?e = "set_order i ord (e\<lparr>g_commands := cs, g_next_order_id := n\<rparr>)"
  have wf: "bt_wf (g_orders e)" using assms(1) by (simp add: engine_inv_def ids_ok_def)
  have stop: "stopped_trading ?e = stopped_trading e" by (rule stopped_trading_cong) simp_all
  have fresh: "i \<notin> set (g_resting e)" "i \<notin> set (g_untriggered e)"
    using none resting_order [OF assms(1), of i] assms(1) by (auto simp: engine_inv_def parked_ok_def)
  have other: "j \<noteq> i \<Longrightarrow> place ?e j = place e j" for j
    by (simp add: place_def bt_get_insert [OF wf] split: option.splits)
  have "tracks (index_at (g_resting_index e)) (place e) (set (g_resting e))"
    using assms(1) by (simp add: engine_inv_def rest_ok_def)
  then have "tracks (index_at (g_resting_index e)) (place ?e) (set (g_resting e))"
    using fresh by (blast intro: tracks_cong other)
  moreover have "\<exists>o'. bt_get (bt_insert i ord (g_orders e)) j = Some o' \<and> working o' \<and> limit_price o' \<noteq> None
      \<and> stopped_trading e (o_instrument o') ts = None" if "j \<in> set (g_resting e)" for j
    using resting_order [OF assms(1) that] that fresh by (auto simp: bt_get_insert [OF wf])
  moreover have "filled_by (g_fills e) i = 0"
    using assms(1) none by (auto simp: engine_inv_def intro: no_fills_yet)
  ultimately show ?thesis
    using assms(1) fresh nxt cmds ord none
    by (auto simp: engine_inv_def ids_ok_def rest_ok_def parked_ok_def fills_ok_def stop bt_get_insert [OF wf]
        bt_wf_insert) fastforce+
qed

text \<open>One fill.\<close>

lemma rebalance_isolated_fields:
  assumes "rebalance_isolated e i = Inr e'"
  shows "\<exists>c ic. e' = e\<lparr>g_cash := c, g_isolated_collateral := ic\<rparr>"
proof -
  from assms consider "e' = e" | c ic where "e' = e\<lparr>g_cash := c, g_isolated_collateral := ic\<rparr>"
    by (auto simp: rebalance_isolated_def result_simps split: if_splits option.splits)
  then show ?thesis
  proof cases
    case 1
    then have "e' = e\<lparr>g_cash := g_cash e, g_isolated_collateral := g_isolated_collateral e\<rparr>" by simp
    then show ?thesis by blast
  qed blast
qed

lemma record_fill_fields:
  assumes "record_fill ord q = Inr ord'"
  shows "same_stub ord ord' \<and> o_filled ord' = o_filled ord + q \<and> limit_price ord' = limit_price ord
    \<and> (is_open ord' \<longrightarrow> working ord')"
  using assms
  by (auto simp: record_fill_def result_simps Let_def same_stub_def limit_price_def is_open_def working_def
      split: if_splits)

lemma apply_fill_Inr:
  assumes "apply_fill e i ord ft ts = Inr e'" and wf: "bt_wf (g_orders e)"
  obtains ins pf cash c ic ord1 where
    "set_get (g_instruments e) (o_instrument ord) = Inr ins"
    "portfolio_step (g_portfolio e) (order_fill i ord ft ts) = Inr pf"
    "cash_after_fill ins (g_portfolio e) pf (order_fill i ord ft ts) (g_cash e) = Inr cash"
    "rebalance_isolated (e\<lparr>g_portfolio := pf, g_cash := cash\<rparr>) (o_instrument ord)
       = Inr (e\<lparr>g_portfolio := pf, g_cash := c, g_isolated_collateral := ic\<rparr>)"
    "record_fill ord (ft_quantity ft) = Inr ord1"
    "core e' = core ((if is_open ord1 then set_order i ord1 (e\<lparr>g_portfolio := pf, g_cash := c, g_isolated_collateral := ic\<rparr>)
       else remove_resting i (set_order i ord1 (e\<lparr>g_portfolio := pf, g_cash := c, g_isolated_collateral := ic\<rparr>)))
         \<lparr>g_fills := g_fills e @ [order_fill i ord ft ts]\<rparr>)"
proof -
  from assms(1) obtain ins pf cash e1 ord1 where ok:
    "set_get (g_instruments e) (o_instrument ord) = Inr ins"
    "portfolio_step (g_portfolio e) (order_fill i ord ft ts) = Inr pf"
    "cash_after_fill ins (g_portfolio e) pf (order_fill i ord ft ts) (g_cash e) = Inr cash"
    "rebalance_isolated (e\<lparr>g_portfolio := pf, g_cash := cash\<rparr>) (o_instrument ord) = Inr e1"
    "record_fill ord (ft_quantity ft) = Inr ord1"
    and e': "e' = (let e2 = set_order i ord1 e1;
               e3 = (if order_is_open e2 i then e2 else fee_closed i (remove_resting i e2));
               e4 = bump (count_fill (ft_origin ft)) e3
           in e4\<lparr>g_fills := g_fills e4 @ [order_fill i ord ft ts]\<rparr>)"
    by (auto simp: apply_fill_def result_simps Let_def)
  obtain c ic where e1: "e1 = e\<lparr>g_portfolio := pf, g_cash := c, g_isolated_collateral := ic\<rparr>"
    using rebalance_isolated_fields [OF ok(4)] by auto
  have "order_is_open (set_order i ord1 e1) i = is_open ord1"
    by (simp add: order_is_open_def e1 bt_get_insert [OF wf])
  then have fin: "core e' = core ((if is_open ord1 then set_order i ord1 e1 else remove_resting i (set_order i ord1 e1))
      \<lparr>g_fills := g_fills e @ [order_fill i ord ft ts]\<rparr>)"
    by (simp add: e' Let_def e1 core_eq_iff fee_closed_def)
  show thesis by (rule that [OF ok(1-3) ok(4) [unfolded e1] ok(5) fin [unfolded e1]])
qed

lemma remove_resting_set_order:
  assumes "bt_get (g_orders e) i = Some ord" and "bt_wf (g_orders e)" and "same_stub ord ord'"
    and "limit_price ord' = limit_price ord"
  shows "core (remove_resting i (set_order i ord' e)) = core (set_order i ord' (remove_resting i e))"
proof -
  have "ri_remove idx ord' sl = ri_remove idx ord sl" for idx sl
    using assms(3,4) by (simp add: ri_remove_def same_stub_def split: option.splits)
  then show ?thesis
    using assms by (simp add: core_eq_iff remove_resting_index bt_get_insert same_stub_def)
qed

lemma filled_by_append:
  "filled_by (fs @ [f]) i = filled_by fs i + (if f_order_id f = i then f_quantity f else 0)"
  by (simp add: filled_by_def)

lemma order_fill_fields [simp]:
  "f_order_id (order_fill i ord ft ts) = i" "f_instrument (order_fill i ord ft ts) = o_instrument ord"
  "f_outcome (order_fill i ord ft ts) = o_outcome ord" "f_side (order_fill i ord ft ts) = o_side ord"
  "f_quantity (order_fill i ord ft ts) = ft_quantity ft" "f_price (order_fill i ord ft ts) = ft_price ft"
  "f_commission (order_fill i ord ft ts) = ft_commission ft" "f_ts (order_fill i ord ft ts) = ts"
  by (simp_all add: order_fill_def)

lemma inv_apply_fill:
  assumes "engine_inv ts e" and get: "bt_get (g_orders e) i = Some ord" and "apply_fill e i ord ft t = Inr e'"
    and park: "i \<notin> set (g_untriggered e)"
  shows "engine_inv ts e'"
proof -
  note wf = inv_orders_wf [OF assms(1)]
  obtain pf c ic ord1 where rf: "record_fill ord (ft_quantity ft) = Inr ord1"
    and core: "core e' = core ((if is_open ord1 then set_order i ord1 (e\<lparr>g_portfolio := pf, g_cash := c, g_isolated_collateral := ic\<rparr>)
       else remove_resting i (set_order i ord1 (e\<lparr>g_portfolio := pf, g_cash := c, g_isolated_collateral := ic\<rparr>)))
         \<lparr>g_fills := g_fills e @ [order_fill i ord ft t]\<rparr>)"
    using apply_fill_Inr [OF assms(3) wf] by metis
  define a where "a = e\<lparr>g_portfolio := pf, g_cash := c, g_isolated_collateral := ic\<rparr>"
  have inva: "engine_inv ts a" using assms(1) by (subst inv_cong [of a e]) (simp_all add: a_def)
  note f1 = record_fill_fields [OF rf]
  have old: "o_filled ord = filled_by (g_fills e) i"
    using assms(1) get by (simp add: engine_inv_def fills_ok_def)
  have go: "engine_inv ts ((set_order i ord1 b)\<lparr>g_fills := g_fills e @ [order_fill i ord ft t]\<rparr>)"
    if "engine_inv ts b" "g_orders b = g_orders e" "g_fills b = g_fills e" "g_untriggered b = g_untriggered e"
      "i \<in> set (g_resting b) \<Longrightarrow> is_open ord1" for b
    using that f1 get park old
    by (intro inv_change [where ord = ord]) (auto simp: filled_by_append)
  show ?thesis
  proof (cases "is_open ord1")
    case True
    then have "core e' = core ((set_order i ord1 a)\<lparr>g_fills := g_fills e @ [order_fill i ord ft t]\<rparr>)"
      using core by (simp add: a_def)
    with go [OF inva] True show ?thesis using inv_core by (auto simp: a_def)
  next
    case False
    have "core (remove_resting i (set_order i ord1 a)) = core (set_order i ord1 (remove_resting i a))"
      using f1 get wf by (intro remove_resting_set_order [of a i ord]) (simp_all add: a_def)
    then have "core e' = core ((set_order i ord1 (remove_resting i a))\<lparr>g_fills := g_fills e @ [order_fill i ord ft t]\<rparr>)"
      using core False by (simp add: a_def core_eq_iff)
    with go [OF inv_remove_resting [OF inva, of i]] show ?thesis using inv_core by (auto simp: a_def)
  qed
qed

section \<open>Moves\<close>

text \<open>
  One elementary change at the instant \<open>ts\<close>. A fill needs a market that still trades, or one of the
  markets \<open>L\<close> whose positions are being paid out.
\<close>

definition reindex :: "('f, 'x) engine \<Rightarrow> order \<Rightarrow> order \<Rightarrow> resting_index" where
  "reindex e ord ord' =
     (let key = g_key e (o_instrument ord) (o_outcome ord)
      in ri_insert (ri_remove (g_resting_index e) ord key) ord' key)"

inductive move :: "instrument_id set \<Rightarrow> unix_nanos \<Rightarrow> ('f, 'x) engine \<Rightarrow> ('f, 'x) engine \<Rightarrow> bool"
  for L ts where
  move_frame: "core e' = core e \<Longrightarrow> move L ts e e'"
| move_ask: "core e' = core (e\<lparr>g_commands := g_commands e @ new, g_next_order_id := n, g_clock := clk\<rparr>)
    \<Longrightarrow> g_next_order_id e \<le> n
    \<Longrightarrow> fold_r (\<lambda>clk (name, at). set_timer clk name at) (g_clock e) reqs = Inr clk
    \<Longrightarrow> submit_ids new = [Suc (g_next_order_id e)..<Suc n] \<Longrightarrow> move L ts e e'"
| move_pop: "g_commands e = cmd # cs \<Longrightarrow> core e' = core (e\<lparr>g_commands := cs\<rparr>) \<Longrightarrow> move L ts e e'"
| move_submit: "g_commands e = CSubmit (o_id ord) rq # cs \<Longrightarrow> o_filled ord = 0
    \<Longrightarrow> core e' = core (set_order (o_id ord) ord (e\<lparr>g_commands := cs\<rparr>)) \<Longrightarrow> move L ts e e'"
| move_create: "o_id ord = Suc (g_next_order_id e) \<Longrightarrow> o_filled ord = 0
    \<Longrightarrow> core e' = core (set_order (o_id ord) ord (e\<lparr>g_next_order_id := o_id ord\<rparr>)) \<Longrightarrow> move L ts e e'"
| move_relabel: "bt_get (g_orders e) i = Some ord \<Longrightarrow> same_stub ord ord' \<Longrightarrow> o_filled ord' = o_filled ord
    \<Longrightarrow> (settled ord \<longrightarrow> settled ord')
    \<Longrightarrow> (i \<in> set (g_resting e) \<longrightarrow> working ord' \<and> limit_price ord' = limit_price ord)
    \<Longrightarrow> (i \<in> set (g_untriggered e) \<longrightarrow> o_status ord' = Untriggered \<or> is_terminal (o_status ord'))
    \<Longrightarrow> core e' = core (set_order i ord' e) \<Longrightarrow> move L ts e e'"
| move_reprice: "bt_get (g_orders e) i = Some ord \<Longrightarrow> same_stub ord ord' \<Longrightarrow> o_filled ord' = o_filled ord
    \<Longrightarrow> i \<in> set (g_resting e) \<Longrightarrow> working ord' \<Longrightarrow> limit_price ord' \<noteq> None
    \<Longrightarrow> core e' = core (set_order i ord' (e\<lparr>g_resting_index := reindex e ord ord'\<rparr>))
    \<Longrightarrow> move L ts e e'"
| move_unrest: "core e' = core (remove_resting i e) \<Longrightarrow> move L ts e e'"
| move_rest: "bt_get (g_orders e) i = Some ord \<Longrightarrow> i \<notin> set (g_resting e) \<Longrightarrow> i \<notin> set (g_untriggered e)
    \<Longrightarrow> working ord \<Longrightarrow> limit_price ord \<noteq> None \<Longrightarrow> stopped_trading e (o_instrument ord) ts = None
    \<Longrightarrow> core e' = core (add_resting ord e) \<Longrightarrow> move L ts e e'"
| move_fill: "bt_get (g_orders e) i = Some ord \<Longrightarrow> apply_fill e i ord ft ts = Inr e1 \<Longrightarrow> i \<notin> set (g_untriggered e)
    \<Longrightarrow> stopped_trading e (o_instrument ord) ts = None \<or> o_instrument ord \<in> L
    \<Longrightarrow> core e' = core e1 \<Longrightarrow> move L ts e e'"

abbreviation moves :: "instrument_id set \<Rightarrow> unix_nanos \<Rightarrow> ('f, 'x) engine \<Rightarrow> ('f, 'x) engine \<Rightarrow> bool" where
  "moves L ts \<equiv> (move L ts)\<^sup>*\<^sup>*"

lemma inv_ask:
  assumes "engine_inv ts e" and "g_next_order_id e \<le> n" and "submit_ids new = [Suc (g_next_order_id e)..<Suc n]"
    and "fold_r (\<lambda>clk (name, at). set_timer clk name at) (g_clock e) reqs = Inr clk"
  shows "engine_inv ts (e\<lparr>g_commands := g_commands e @ new, g_next_order_id := n, g_clock := clk\<rparr>)"
proof -
  let ?e = "e\<lparr>g_commands := g_commands e @ new, g_next_order_id := n, g_clock := clk\<rparr>"
  have "stopped_trading ?e = stopped_trading e" "place ?e = place e"
    by (auto intro: stopped_trading_cong place_cong)
  moreover have "ids_ok ?e"
    using assms fresh_number [OF assms(1)] by (fastforce simp: engine_inv_def ids_ok_def)
  moreover have "one_shot clk" using set_timers_one_shot [OF assms(4)] assms(1) by (simp add: engine_inv_def)
  ultimately show ?thesis
    using assms(1) by (simp add: engine_inv_def rest_ok_def parked_ok_def fills_ok_def)
qed

lemma inv_pop:
  assumes "engine_inv ts e" and "g_commands e = cmd # cs"
  shows "engine_inv ts (e\<lparr>g_commands := cs\<rparr>)"
proof -
  let ?e = "e\<lparr>g_commands := cs\<rparr>"
  have "stopped_trading ?e = stopped_trading e" "place ?e = place e"
    by (auto intro: stopped_trading_cong place_cong)
  moreover have "set (submit_ids cs) \<subseteq> set (submit_ids (cmd # cs)) \<and> (distinct (submit_ids (cmd # cs)) \<longrightarrow> distinct (submit_ids cs))"
    by (cases cmd) auto
  ultimately show ?thesis
    using assms by (auto simp: engine_inv_def ids_ok_def rest_ok_def parked_ok_def fills_ok_def)
qed

lemma move_inv:
  assumes "move L ts e e'" and "engine_inv ts e"
  shows "engine_inv ts e'"
  using assms
proof (induction rule: move.induct)
  case (move_frame e' e)
  then show ?case using inv_core by blast
next
  case move_ask
  then show ?case using inv_ask inv_core by blast
next
  case (move_pop e cmd cs e')
  then show ?case using inv_pop inv_core by blast
next
  case (move_submit e ord rq cs e')
  define i where "i = o_id ord"
  note move_submit = move_submit [folded i_def]
  then have "bt_get (g_orders e) i = None" "i \<le> g_next_order_id e" "distinct (submit_ids cs)" "i \<notin> set (submit_ids cs)"
    by (auto simp: engine_inv_def ids_ok_def)
  then have "engine_inv ts (set_order i ord (e\<lparr>g_commands := cs, g_next_order_id := g_next_order_id e\<rparr>))"
    using move_submit by (intro inv_create) (auto simp: i_def)
  then show ?case using move_submit inv_core [of e' "set_order i ord (e\<lparr>g_commands := cs\<rparr>)"] by simp
next
  case (move_create ord e e')
  define i where "i = o_id ord"
  note move_create = move_create [folded i_def]
  then have none: "bt_get (g_orders e) i = None" by (intro fresh_number) auto
  moreover have "i \<notin> set (submit_ids (g_commands e))" "distinct (submit_ids (g_commands e))"
    using move_create by (auto simp: engine_inv_def ids_ok_def)
  ultimately have "engine_inv ts (set_order i ord (e\<lparr>g_commands := g_commands e, g_next_order_id := i\<rparr>))"
    using move_create by (intro inv_create) (auto simp: i_def)
  then show ?case using move_create inv_core [of e' "set_order i ord (e\<lparr>g_next_order_id := i\<rparr>)"] by simp
next
  case (move_relabel e i ord ord' e')
  then show ?case using inv_relabel [of ts e i ord ord'] inv_core by blast
next
  case (move_reprice e i ord ord' e')
  then show ?case using inv_reindex [of ts e i ord ord'] inv_core by (auto simp: reindex_def Let_def)
next
  case (move_unrest e' i e)
  then show ?case using inv_remove_resting inv_core by blast
next
  case (move_rest e i ord e')
  then show ?case using inv_add_resting [of ts e i ord] inv_core by blast
next
  case (move_fill e i ord ft e1 e')
  then show ?case using inv_apply_fill [of ts e i ord ft ts e1] inv_core by blast
qed

lemma moves_inv: "moves L ts e e' \<Longrightarrow> engine_inv ts e \<Longrightarrow> engine_inv ts e'"
  by (induction rule: rtranclp_induct) (auto intro: move_inv)

text \<open>
  What no move touches: the configuration, what is parked, what has stopped trading and the
  counters of the account that only records move. Orders are never forgotten, and once an order has
  left its latency and its trigger behind it never returns to them.
\<close>

definition keeps :: "('f, 'x) engine \<Rightarrow> ('f, 'x) engine \<Rightarrow> bool" where
  "keeps e e' \<longleftrightarrow> g_config e' = g_config e \<and> g_untriggered e' = g_untriggered e
     \<and> g_delisted e' = g_delisted e \<and> g_expired e' = g_expired e \<and> g_next_expiry e' = g_next_expiry e
     \<and> g_funding_paid e' = g_funding_paid e \<and> g_dividends_received e' = g_dividends_received e
     \<and> now (g_clock e') = now (g_clock e)
     \<and> (\<forall>i ord. bt_get (g_orders e) i = Some ord \<longrightarrow>
          (\<exists>ord'. bt_get (g_orders e') i = Some ord' \<and> same_stub ord ord' \<and> (settled ord \<longrightarrow> settled ord')))"

lemma same_stub_refl [simp]: "same_stub ord ord"
  by (simp add: same_stub_def)

lemma same_stub_trans: "same_stub a b \<Longrightarrow> same_stub b c \<Longrightarrow> same_stub a c"
  by (simp add: same_stub_def)

lemma keeps_refl: "keeps e e"
  by (auto simp: keeps_def)

lemma keeps_trans: "keeps e e' \<Longrightarrow> keeps e' e'' \<Longrightarrow> keeps e e''"
  unfolding keeps_def by (metis (no_types, lifting) same_stub_trans)

lemma keeps_core: "core e' = core e \<Longrightarrow> keeps e0 e \<Longrightarrow> keeps e0 e'"
  by (simp add: core_eq_iff keeps_def)

lemma apply_fill_keeps:
  assumes "bt_wf (g_orders e)" and get: "bt_get (g_orders e) i = Some ord" and "apply_fill e i ord ft ts = Inr e'"
  shows "keeps e e'"
proof -
  obtain pf c ic ord1 where rf: "record_fill ord (ft_quantity ft) = Inr ord1"
    and core: "core e' = core ((if is_open ord1 then set_order i ord1 (e\<lparr>g_portfolio := pf, g_cash := c, g_isolated_collateral := ic\<rparr>)
       else remove_resting i (set_order i ord1 (e\<lparr>g_portfolio := pf, g_cash := c, g_isolated_collateral := ic\<rparr>)))
         \<lparr>g_fills := g_fills e @ [order_fill i ord ft ts]\<rparr>)"
    using apply_fill_Inr [OF assms(3,1)] by metis
  have "same_stub ord ord1 \<and> settled ord1"
    using rf by (auto simp: record_fill_def result_simps Let_def same_stub_def settled_def split: if_splits)
  then have "keeps e ((if is_open ord1 then set_order i ord1 (e\<lparr>g_portfolio := pf, g_cash := c, g_isolated_collateral := ic\<rparr>)
       else remove_resting i (set_order i ord1 (e\<lparr>g_portfolio := pf, g_cash := c, g_isolated_collateral := ic\<rparr>)))
         \<lparr>g_fills := g_fills e @ [order_fill i ord ft ts]\<rparr>)"
    using get by (auto simp: keeps_def bt_get_insert [OF assms(1)])
  with core show ?thesis by (rule keeps_core)
qed

lemma move_keeps:
  assumes "move L ts e e'" and "engine_inv ts e"
  shows "keeps e e'"
  using assms
proof (induction rule: move.induct)
  case move_ask
  then show ?case
    using set_timers_one_shot [OF move_ask.hyps(3)] by (auto simp: keeps_def core_eq_iff engine_inv_def)
next
  case (move_submit e ord rq cs e')
  then have "bt_get (g_orders e) (o_id ord) = None" by (auto simp: engine_inv_def ids_ok_def)
  with move_submit show ?case
    using inv_orders_wf [of ts e] by (auto simp: keeps_def core_eq_iff bt_get_insert)
next
  case (move_create ord e e')
  then have "bt_get (g_orders e) (o_id ord) = None" by (auto intro: fresh_number)
  with move_create show ?case
    using inv_orders_wf [of ts e] by (auto simp: keeps_def core_eq_iff bt_get_insert)
next
  case (move_relabel e i ord ord' e')
  then show ?case using inv_orders_wf [of ts e] by (auto simp: keeps_def core_eq_iff bt_get_insert)
next
  case (move_reprice e i ord ord' e')
  then show ?case
    using inv_orders_wf [of ts e] by (auto simp: keeps_def core_eq_iff bt_get_insert working_settled)
next
  case (move_rest e i ord e')
  then have "core e' = core (e\<lparr>g_resting_index := ri_insert (g_resting_index e) ord (g_key e (o_instrument ord) (o_outcome ord)),
            g_resting := g_resting e @ [o_id ord]\<rparr>)"
    by (auto simp: engine_inv_def ids_ok_def intro!: trans [OF _ add_resting_core])
  then show ?case by (auto simp: keeps_def core_eq_iff)
next
  case (move_fill e i ord ft e1 e')
  then show ?case by (auto intro: keeps_core [of e'] apply_fill_keeps inv_orders_wf)
qed (auto simp: keeps_def core_eq_iff)

lemma moves_keeps: "moves L ts e e' \<Longrightarrow> engine_inv ts e \<Longrightarrow> keeps e e'"
  by (induction rule: rtranclp_induct) (auto intro: keeps_refl keeps_trans move_keeps moves_inv)

lemma keeps_stopped: "keeps e e' \<Longrightarrow> stopped_trading e' = stopped_trading e"
  by (rule stopped_trading_cong) (simp_all add: keeps_def)

lemma keeps_order:
  "keeps e e' \<Longrightarrow> bt_get (g_orders e) i = Some ord \<Longrightarrow>
    \<exists>ord'. bt_get (g_orders e') i = Some ord' \<and> same_stub ord ord' \<and> (settled ord \<longrightarrow> settled ord')"
  by (simp add: keeps_def)

end
