(* ===== verification/Engine_Refine.thy ===== *)
theory Engine_Refine
  imports Engine_Machine
begin

text \<open>
  The operations of the engine are sequences of moves of the abstract machine, as long as its
  invariant holds and the strategy acts through its context.
\<close>

lemma moves_one: "move L ts e e' \<Longrightarrow> moves L ts e e'"
  by (rule r_into_rtranclp)

lemma moves_frame: "core e' = core e \<Longrightarrow> moves L ts e e'"
  by (intro moves_one move_frame)

lemma moves_then_frame: "moves L ts e e1 \<Longrightarrow> core e' = core e1 \<Longrightarrow> moves L ts e e'"
  by (meson moves_frame rtranclp_trans)

section \<open>Commands\<close>

lemma send_command_core: "send_command cmd e = Inr e' \<Longrightarrow> core e' = core e"
  by (auto simp: send_command_def result_simps core_eq_iff split: prod.splits)

lemma push_inflight_core [simp]: "core (push_inflight action e) = core e"
  by (simp add: push_inflight_def core_eq_iff Let_def)

lemma core_commands: "core e' = core e \<Longrightarrow> core (e'\<lparr>g_commands := cs\<rparr>) = core (e\<lparr>g_commands := cs\<rparr>)"
  by (simp add: core_eq_iff)

lemma core_set_order: "core e' = core e \<Longrightarrow> core (set_order i ord e') = core (set_order i ord e)"
  by (simp add: core_eq_iff)

lemma order_new_fields:
  "order_new i n oc s k q tif t = Inr ord \<Longrightarrow> o_id ord = i \<and> o_instrument ord = n \<and> o_outcome ord = oc
     \<and> o_side ord = s \<and> o_kind ord = k \<and> o_quantity ord = q \<and> o_filled ord = 0 \<and> o_time_in_force ord = tif \<and> 0 < q"
  by (auto simp: order_new_def split: if_splits)

lemma accept_core:
  assumes "accept e i rq = Inr e'"
  shows "\<exists>ord. o_id ord = i \<and> o_filled ord = 0 \<and> core e' = core (set_order i ord e)"
proof -
  obtain ord0 where new: "order_new i (rq_instrument rq) (rq_outcome rq) (rq_side rq) (rq_kind rq)
      (rq_quantity rq) (rq_time_in_force rq) (now (g_clock e)) = Inr ord0"
    using assms by (auto simp: accept_def Let_def result_simps)
  define ord where "ord = ord0\<lparr>o_tag := rq_tag rq, o_reduce_only := rq_reduce_only rq,
      o_post_only := rq_post_only rq, o_trigger := rq_trigger rq\<rparr>"
  have id: "o_id ord = i" "o_filled ord = 0" using order_new_fields [OF new] by (auto simp: ord_def)
  from assms consider reason b where "core e' = core (reject_order ord reason b)" "core b = core e"
    | b c where "send_command (Submit ord) b = Inr c" "core b = core e"
        "core e' = core (set_order i ord (push_inflight (InFlightOrder ord) c))"
    unfolding accept_def Let_def new and_then_simps ord_def [symmetric]
    by (fastforce simp: core_eq_iff result_simps split: option.splits)
  then show ?thesis
  proof cases
    case 1
    then have "core e' = core (set_order i (ord\<lparr>o_status := Rejected, o_reject_reason := Some reason\<rparr>) e)"
      using id by (simp add: reject_order_def core_eq_iff)
    with id show ?thesis by (intro exI conjI) auto
  next
    case 2
    from 2(1) have "core c = core e" using 2(2) send_command_core by metis
    then have "core (push_inflight (InFlightOrder ord) c) = core e" by simp
    with 2(3) have "core e' = core (set_order i ord e)" by (metis core_set_order)
    with id show ?thesis by (intro exI conjI) auto
  qed
qed

text \<open>An order is closed and leaves the book.\<close>

lemma retire_moves:
  assumes "engine_inv ts e" and get: "bt_get (g_orders e) i = Some ord" and stub: "same_stub ord ord'"
    and "o_filled ord' = o_filled ord" and lim: "limit_price ord' = limit_price ord" and "is_terminal (o_status ord')"
  shows "moves L ts e (remove_resting i (set_order i ord' e))"
proof -
  have "move L ts e (remove_resting i e)" by (rule move_unrest) simp
  moreover have "move L ts (remove_resting i e) (remove_resting i (set_order i ord' e))"
    using assms remove_resting_set_order [OF get inv_orders_wf [OF assms(1)] stub lim]
    by (intro move_relabel [where ord = ord and ord' = ord' and i = i]) (auto simp: settled_def)
  ultimately show ?thesis by (meson converse_rtranclp_into_rtranclp moves_one)
qed

lemma cancel_order_moves:
  assumes "engine_inv ts e" and "cancel_order e i = Inr e'"
  shows "moves L ts e e' \<and> g_commands e' = g_commands e \<and> account e' = account e"
proof (cases "bt_get (g_orders e) i")
  case None
  with assms(2) show ?thesis by (simp add: cancel_order_def)
next
  case (Some ord)
  show ?thesis
  proof (cases "is_open ord")
    case False
    with Some assms(2) show ?thesis by (simp add: cancel_order_def)
  next
    case True
    let ?e1 = "remove_resting i (set_order i (ord\<lparr>o_status := Cancelled\<rparr>) e)"
    have "moves L ts e ?e1"
      using assms(1) Some by (intro retire_moves) (auto simp: same_stub_def limit_price_def)
    moreover have "core e' = core ?e1"
      using Some True assms(2) by (auto simp: cancel_order_def intro: send_command_core)
    ultimately show ?thesis by (auto simp: core_eq_iff account_def intro: moves_then_frame)
  qed
qed

lemma slots_resolve_key: "slots_resolve sl i oc = Inr k \<Longrightarrow> slots_key sl i oc = k"
  by (auto simp: slots_resolve_def slots_key_def split: option.splits if_splits)

lemma amended_limit_fields:
  assumes "amended_limit e ord lim = Inr (upd, loses)"
  shows "same_stub ord upd \<and> o_filled upd = o_filled ord \<and> o_status upd = o_status ord
    \<and> (\<not> loses \<longrightarrow> limit_price upd = limit_price ord) \<and> (limit_price ord \<noteq> None \<longrightarrow> limit_price upd \<noteq> None)"
proof (cases lim)
  case None
  with assms show ?thesis by (simp add: amended_limit_def same_stub_def)
next
  case (Some l)
  with assms show ?thesis
    by (auto simp: amended_limit_def result_simps same_stub_def split: if_splits) (auto simp: limit_price_def)
qed

lemma amended_quantity_fields:
  assumes "amended_quantity ord quantity upd = Inr upd'"
  shows "\<exists>q. (fst upd' = fst upd \<or> fst upd' = (fst upd)\<lparr>o_quantity := q\<rparr>) \<and> (snd upd \<longrightarrow> snd upd')"
  using assms by (auto simp: amended_quantity_def split: option.splits if_splits)

lemma amended_fields:
  assumes "amended e ord quantity lim = Inr (upd, loses)"
  shows "same_stub ord upd \<and> o_filled upd = o_filled ord \<and> o_status upd = o_status ord
    \<and> (\<not> loses \<longrightarrow> limit_price upd = limit_price ord) \<and> (limit_price ord \<noteq> None \<longrightarrow> limit_price upd \<noteq> None)"
proof -
  obtain upd0 loses0 where l: "amended_limit e ord lim = Inr (upd0, loses0)"
    and q: "amended_quantity ord quantity (upd0, loses0) = Inr (upd, loses)"
    using assms by (auto simp: amended_def result_simps)
  from amended_quantity_fields [OF q] obtain n where "upd = upd0 \<or> upd = upd0\<lparr>o_quantity := n\<rparr>" "loses0 \<longrightarrow> loses"
    by auto
  with amended_limit_fields [OF l] show ?thesis
    by (auto simp: same_stub_def limit_price_def)
qed

lemma requeue_core:
  "core (requeue i upd sl rst e) = core (if rst then e\<lparr>g_resting_index := ri_insert (g_resting_index e) upd sl\<rparr> else e)"
proof -
  have "core (join_queue upd (e\<lparr>g_queue_ahead := bt_remove i (g_queue_ahead e)\<rparr>)) = core e"
    unfolding join_queue_core by (simp add: core_eq_iff)
  from this [unfolded core_eq_iff] show ?thesis by (simp add: requeue_def Let_def core_eq_iff)
qed

lemma amend_moves:
  assumes "engine_inv ts e" and "amend e i quantity lim = Inr e'"
  shows "moves L ts e e' \<and> g_commands e' = g_commands e \<and> account e' = account e"
proof (cases "\<exists>ord. bt_get (g_orders e) i = Some ord \<and> is_open ord")
  case False
  with assms(2) have "e' = e" by (auto simp: amend_def split: option.splits if_splits)
  then show ?thesis by simp
next
  case True
  then obtain ord upd loses sl where get: "bt_get (g_orders e) i = Some ord" and "is_open ord"
    and amd: "amended e ord quantity lim = Inr (upd, loses)"
    and sl: "slots_resolve (k_slots (g_config e)) (o_instrument ord) (o_outcome ord) = Inr sl"
    using assms(2) by (auto simp: amend_def result_simps Let_def)
  note key = slots_resolve_key [OF sl] and upd = amended_fields [OF amd]
  define rst where "rst = (i \<in> set (g_resting e))"
  define ei where "ei = set_order i upd (e\<lparr>g_resting_index := (if loses \<and> rst then reindex e ord upd else g_resting_index e)\<rparr>)"
  have e': "core e' = core ei"
  proof -
    let ?e1 = "if loses \<and> rst then e\<lparr>g_resting_index := ri_remove (g_resting_index e) ord sl\<rparr> else e"
    obtain e3 where e3: "send_command (Amend i quantity lim)
        (bump (\<lambda>m. m\<lparr>orders_amended := orders_amended m + 1\<rparr>) (set_order i upd ?e1)) = Inr e3"
      and "e' = (if loses then requeue i upd sl rst e3 else e3)"
      using assms(2) by (auto simp: amend_def get \<open>is_open ord\<close> amd sl Let_def result_simps rst_def)
    then have fin: "core e' = core (if loses \<and> rst then e3\<lparr>g_resting_index := ri_insert (g_resting_index e3) upd sl\<rparr> else e3)"
      by (simp add: requeue_core)
    show ?thesis
      unfolding fin using send_command_core [OF e3] key
      by (auto simp: core_eq_iff ei_def reindex_def Let_def)
  qed
  have "move L ts e ei"
  proof (cases "loses \<and> rst")
    case True
    then have "working ord" "limit_price ord \<noteq> None"
      using resting_order [OF assms(1), of i] get by (auto simp: rst_def)
    with True upd get show ?thesis
      by (intro move_reprice [where ord = ord and ord' = upd and i = i])
         (auto simp: ei_def rst_def working_def)
  next
    case False
    have "core ei = core (set_order i upd e)" using False by (auto simp: ei_def core_eq_iff)
    moreover have "i \<in> set (g_resting e) \<longrightarrow> working upd \<and> limit_price upd = limit_price ord"
      using False upd resting_order [OF assms(1), of i] get by (auto simp: rst_def working_def)
    moreover have "i \<in> set (g_untriggered e) \<longrightarrow> o_status upd = Untriggered \<or> is_terminal (o_status upd)"
      using assms(1) get upd by (auto simp: engine_inv_def parked_ok_def)
    ultimately show ?thesis
      using upd get by (intro move_relabel [where ord = ord and ord' = upd and i = i]) (auto simp: settled_def)
  qed
  moreover have "g_commands ei = g_commands e" "account ei = account e" by (simp_all add: ei_def account_def)
  ultimately show ?thesis using e' by (auto simp: core_eq_iff account_def intro: moves_then_frame)
qed

lemma reject_twap_moves:
  assumes "reject_twap e rq reason = Inr e'"
  shows "moves L ts e e' \<and> g_commands e' = g_commands e \<and> account e' = account e"
proof -
  obtain ord where new: "order_new (Suc (g_next_order_id e)) (tq_instrument rq) (tq_outcome rq) (tq_side rq) Market
      (tq_quantity rq) ImmediateOrCancel (now (g_clock e)) = Inr ord"
    using assms by (auto simp: reject_twap_def Let_def result_simps)
  then have "core e' = core (set_order (Suc (g_next_order_id e)) (ord\<lparr>o_status := Rejected, o_reject_reason := Some reason,
      o_tag := Some (case tq_tag rq of None \<Rightarrow> ''twap'' | Some t \<Rightarrow> t)\<rparr>) (e\<lparr>g_next_order_id := Suc (g_next_order_id e)\<rparr>))"
    using assms by (auto simp: reject_twap_def Let_def core_eq_iff)
  with order_new_fields [OF new] show ?thesis
    by (intro conjI moves_one move_create [where ord = "ord\<lparr>o_status := Rejected, o_reject_reason := Some reason,
      o_tag := Some (case tq_tag rq of None \<Rightarrow> ''twap'' | Some t \<Rightarrow> t)\<rparr>"])
       (auto simp: core_eq_iff account_def)
qed

lemma start_twap_moves:
  assumes "start_twap e rq = Inr e'"
  shows "moves L ts e e' \<and> g_commands e' = g_commands e \<and> account e' = account e"
proof (cases "twap_refusal e rq")
  case None
  with assms have "core e' = core e" by (auto simp: start_twap_def result_simps core_eq_iff)
  then show ?thesis by (auto simp: core_eq_iff account_def intro: moves_frame)
next
  case (Some reason)
  with assms reject_twap_moves show ?thesis by (fastforce simp: start_twap_def)
qed

text \<open>Handling a command leaves the queue alone; the queue is popped just before.\<close>

lemma pop_moves: "g_commands e = cmd # cs \<Longrightarrow> move L ts e (pop_command e)"
  by (rule move_pop [of e cmd cs]) (simp_all add: pop_command_def)

lemma handle_command_moves:
  assumes "engine_inv ts e" and cs: "g_commands e = cmd # cs" and "handle_command (pop_command e) cmd = Inr e'"
  shows "moves L ts e e' \<and> g_commands e' = cs \<and> account e' = account e"
proof -
  have pop: "move L ts e (pop_command e)" "g_commands (pop_command e) = cs" "account (pop_command e) = account e"
    using pop_moves [OF cs] cs by (simp_all add: pop_command_def account_def)
  have inv: "engine_inv ts (pop_command e)" using move_inv [OF pop(1) assms(1)] .
  have go: ?thesis
    if "moves L ts (pop_command e) e' \<and> g_commands e' = g_commands (pop_command e) \<and> account e' = account (pop_command e)"
    using that pop by (auto intro: converse_rtranclp_into_rtranclp)
  show ?thesis
  proof (cases cmd)
    case (CSubmit i rq)
    with assms(3) obtain ord where "o_id ord = i" "o_filled ord = 0" "core e' = core (set_order i ord (pop_command e))"
      using accept_core [of "pop_command e" i rq e'] by auto
    with CSubmit cs show ?thesis
      by (auto simp: pop_command_def core_eq_iff account_def intro!: moves_one move_submit [of e ord rq cs e'])
  next
    case (CCancel i)
    with assms(3) show ?thesis using cancel_order_moves [OF inv] by (intro go) auto
  next
    case (CAmend i quantity lim)
    with assms(3) show ?thesis using amend_moves [OF inv] by (intro go) auto
  next
    case (CSet rq)
    with assms(3) have "core e' = core (pop_command e)" by (auto simp: queue_set_operation_def)
    then show ?thesis by (intro go) (auto simp: core_eq_iff account_def intro: moves_frame)
  next
    case (CTwap rq)
    with assms(3) show ?thesis using start_twap_moves [of "pop_command e" rq e' L ts] by (intro go) auto
  qed
qed

lemma drain_moves:
  assumes "engine_inv ts e" and "drain_commands e = Inr e'"
  shows "moves L ts e e' \<and> g_commands e' = [] \<and> account e' = account e"
proof -
  have "moves L ts e e' \<and> g_commands e' = [] \<and> account e' = account e"
    if "fold_r (\<lambda>e cmd. handle_command (pop_command e) cmd) e cs = Inr e'" "g_commands e = cs" "engine_inv ts e" for cs e
    using that
  proof (induction cs arbitrary: e)
    case (Cons c cs)
    then obtain e1 where e1: "handle_command (pop_command e) c = Inr e1"
      "fold_r (\<lambda>e cmd. handle_command (pop_command e) cmd) e1 cs = Inr e'"
      by (auto simp: result_simps)
    have "moves L ts e e1" "g_commands e1 = cs" "account e1 = account e"
      using handle_command_moves [OF Cons.prems(3,2) e1(1)] by auto
    with Cons.IH [OF e1(2)] Cons.prems(3) show ?case by (metis moves_inv rtranclp_trans)
  qed simp
  with assms show ?thesis by (simp add: drain_commands_def)
qed

section \<open>Callbacks\<close>

lemma with_context_moves:
  assumes "acts callback" and "with_context callback (e, s) = ok (e', s')"
  shows "move L ts e e'" and "account e' = account e"
proof -
  show "account e' = account e"
    using assms(2) by (auto simp: with_context_def result_simps account_def)
  obtain c where cb: "callback s (make_context e) = ok (s', c)"
    and clk: "fold_r (\<lambda>clk (name, at). set_timer clk name at) (g_clock e) (c_clock_requests c) = Inr (g_clock e')"
    and core: "core e' = core (e\<lparr>g_commands := c_commands c, g_next_order_id := c_next_order_id c, g_clock := g_clock e'\<rparr>)"
    using assms(2) by (auto simp: with_context_def result_simps core_eq_iff)
  from assms(1) cb have "ctx_extends (make_context e) c"
    by (auto simp: acts_def intro: ctx_acts_extends)
  then obtain new where "c_commands c = g_commands e @ new" "g_next_order_id e \<le> c_next_order_id c"
    "submit_ids new = [Suc (g_next_order_id e)..<Suc (c_next_order_id c)]"
    by (auto simp: ctx_extends_def make_context_def)
  with core clk show "move L ts e e'" by (intro move_ask [where clk = "g_clock e'"]) auto
qed

lemma call_strategy_moves:
  assumes "acts callback" and "engine_inv ts e" and "call_strategy callback (e, s) = ok (e', s')"
  shows "moves L ts e e'" and "account e' = account e"
proof -
  obtain e1 where e1: "with_context callback (e, s) = ok (e1, s')" "drain_commands e1 = Inr e'"
    using assms(3) by (auto simp: call_strategy_def result_simps)
  have mv: "move L ts e e1" and ac: "account e1 = account e" using with_context_moves [OF assms(1) e1(1)] .
  from drain_moves [OF move_inv [OF mv assms(2)] e1(2), of L] mv ac
  show "moves L ts e e'" "account e' = account e"
    by (auto intro: converse_rtranclp_into_rtranclp)
qed

section \<open>Fills\<close>

lemma book_fill_moves:
  assumes "context_strategy S" and "engine_inv ts e" and get: "bt_get (g_orders e) i = Some ord"
    and "i \<notin> set (g_untriggered e)" and "stopped_trading e (o_instrument ord) ts = None \<or> o_instrument ord \<in> L"
    and "book_fill S (e, s) i ft ts = ok (e', s')"
  shows "moves L ts e e'"
proof -
  obtain e1 where e1: "apply_fill e i ord ft ts = Inr e1"
    "call_strategy (\<lambda>st c. on_fill S st c (order_fill i ord ft ts)) (e1, s) = ok (e', s')"
    using assms(6) get by (auto simp: book_fill_def result_simps)
  have mv: "move L ts e e1" using assms e1(1) by (intro move_fill [of e i ord ft ts e1]) auto
  with call_strategy_moves(1) [OF context_strategy.hears [OF assms(1)] move_inv [OF mv assms(2)] e1(2)]
  show ?thesis by (auto intro: converse_rtranclp_into_rtranclp)
qed

lemma execute_moves:
  assumes "context_strategy S" and "engine_inv ts e" and get: "bt_get (g_orders e) i = Some ord"
    and "i \<notin> set (g_untriggered e)" and "stopped_trading e (o_instrument ord) ts = None \<or> o_instrument ord \<in> L"
    and "execute S (e, s) i price quantity taker ts = ok (e', s')"
  shows "moves L ts e e'"
proof -
  obtain st ft where b: "book_fill S (e\<lparr>g_fee_state := st\<rparr>, s) i ft ts = ok (e', s')"
    using assms(6) get by (auto simp: execute_def result_simps Let_def case_prod_beta)
  have core: "core (e\<lparr>g_fee_state := st\<rparr>) = core e" by (simp add: core_eq_iff)
  have stop: "stopped_trading (e\<lparr>g_fee_state := st\<rparr>) = stopped_trading e"
    by (rule stopped_trading_cong) simp_all
  have "moves L ts (e\<lparr>g_fee_state := st\<rparr>) e'"
    using assms get inv_core [OF core, of ts] by (intro book_fill_moves [OF assms(1) _ _ _ _ b]) (auto simp: stop)
  with moves_frame [OF core] show ?thesis by (rule rtranclp_trans)
qed

text \<open>
  An order that may be filled at this instant: it is out of its latency and its trigger, and its
  market still trades. Moves keep it that way.
\<close>

definition fillable :: "unix_nanos \<Rightarrow> ('f, 'x) engine \<Rightarrow> order_id \<Rightarrow> bool" where
  "fillable ts e i \<longleftrightarrow> i \<notin> set (g_untriggered e) \<and>
     (\<exists>ord. bt_get (g_orders e) i = Some ord \<and> settled ord \<and> stopped_trading e (o_instrument ord) ts = None)"

lemma fillable_keeps: "keeps e e' \<Longrightarrow> fillable ts e i \<Longrightarrow> fillable ts e' i"
  using keeps_stopped [of e e'] keeps_order [of e e' i]
  by (auto simp: fillable_def same_stub_def) (auto simp: keeps_def)

lemma resting_fillable: "engine_inv ts e \<Longrightarrow> i \<in> set (g_resting e) \<Longrightarrow> fillable ts e i"
  using resting_order [of ts e i]
  by (auto simp: fillable_def working_settled engine_inv_def parked_ok_def)

lemma execute_all_moves:
  assumes "context_strategy S" and "engine_inv ts e" and "fillable ts e i"
    and "execute_all S i taker ts (e, s) fills = ok (e', s')"
  shows "moves {} ts e e'"
  using assms(2-4)
proof (induction fills arbitrary: e s)
  case (Cons x fills)
  obtain p q where x: "x = (p, q)" by fastforce
  with Cons.prems(3) obtain e1 s1 where e1: "execute S (e, s) i p q taker ts = ok (e1, s1)"
    "execute_all S i taker ts (e1, s1) fills = ok (e', s')"
    by (auto simp: execute_all_def result_simps)
  have "moves {} ts e e1"
    using Cons.prems(1,2) e1(1) by (auto simp: fillable_def intro: execute_moves [OF assms(1)])
  with Cons.IH [OF _ _ e1(2)] Cons.prems(1,2) show ?case
    by (meson fillable_keeps moves_inv moves_keeps rtranclp_trans)
qed (auto simp: execute_all_def)

lemma fee_closed_core [simp]: "core (fee_closed i e) = core e"
  by (simp add: fee_closed_def core_eq_iff)

lemma close_order_moves:
  assumes "engine_inv ts e" and "is_terminal status"
  shows "moves L ts e (close_order i status e)"
proof (cases "\<exists>ord. bt_get (g_orders e) i = Some ord \<and> is_open ord")
  case True
  then obtain ord where ord: "bt_get (g_orders e) i = Some ord" "is_open ord" by blast
  have "moves L ts e (remove_resting i (set_order i (ord\<lparr>o_status := status\<rparr>) e))"
    using assms ord by (intro retire_moves) (auto simp: same_stub_def limit_price_def)
  then show ?thesis
    using ord assms(2) by (auto simp: close_order_def Let_def intro: moves_then_frame)
next
  case False
  have "move L ts e (remove_resting i e)" by (rule move_unrest) simp
  then show ?thesis
    using False assms(2) by (auto simp: close_order_def Let_def split: option.splits intro: moves_then_frame moves_one)
qed

lemma time_in_force_moves:
  assumes "engine_inv ts e" and "bt_get (g_orders e) i = Some ord" and "is_open ord" and "fillable ts e i"
  shows "moves L ts e (time_in_force_rule i ord e)"
proof (cases "o_time_in_force ord")
  case GoodTilCancel
  have "working ord" using assms by (auto simp: fillable_def settled_open_working)
  then have "move L ts e (add_resting ord e)" if "limit_price ord \<noteq> None" "i \<notin> set (g_resting e)"
    using assms that by (intro move_rest [of e i ord]) (auto simp: fillable_def)
  with GoodTilCancel show ?thesis by (auto simp: time_in_force_rule_def)
qed (use assms in \<open>auto simp: time_in_force_rule_def intro: close_order_moves\<close>)

lemma refuse_stopped_moves:
  assumes "engine_inv ts e" and "bt_get (g_orders e) i = Some ord"
  shows "moves L ts e (refuse_stopped i ord reason e)"
proof -
  have "moves L ts e (remove_resting i (set_order i (ord\<lparr>o_status := Rejected, o_reject_reason := Some reason\<rparr>) e))"
    using assms by (intro retire_moves) (auto simp: same_stub_def limit_price_def)
  moreover have "core (refuse_stopped i ord reason e) =
      core (remove_resting i (set_order i (ord\<lparr>o_status := Rejected, o_reject_reason := Some reason\<rparr>) e))"
    by (simp add: refuse_stopped_def core_eq_iff fee_closed_def)
  ultimately show ?thesis by (rule moves_then_frame)
qed

lemma try_fill_moves:
  assumes "context_strategy S" and inv: "engine_inv ts e"
    and set: "\<And>ord. bt_get (g_orders e) i = Some ord \<Longrightarrow> o_status ord \<noteq> Untriggered"
    and "try_fill S (e, s) i ts = ok (e', s')"
  shows "moves {} ts e e'"
proof -
  consider "e' = e"
    | ord reason where "bt_get (g_orders e) i = Some ord" "e' = refuse_stopped i ord reason e"
    | ord where "bt_get (g_orders e) i = Some ord" "is_open ord" "fillable ts e i" "e' = time_in_force_rule i ord e"
    | "e' = close_order i Cancelled e"
    | taker fs e1 ord1 where "fillable ts e i"
        "execute_all S i taker ts (e, s) fs = ok (e1, s')"
        "bt_get (g_orders e1) i = Some ord1" "e' = (if is_open ord1 then time_in_force_rule i ord1 e1 else e1)"
  proof (cases "\<exists>ord. bt_get (g_orders e) i = Some ord \<and> is_open ord \<and> o_status ord \<noteq> InFlight")
    case False
    with assms(4) have "e' = e" by (auto simp: try_fill_def split: option.splits)
    then show thesis by (rule that(1))
  next
    case True
    then obtain ord where ord: "bt_get (g_orders e) i = Some ord" "is_open ord" "o_status ord \<noteq> InFlight" by blast
    note def = assms(4) [unfolded try_fill_def prod.case ord(1) option.case]
    show thesis
    proof (cases "stopped_trading e (o_instrument ord) ts")
      case (Some reason)
      with def ord that(2) show thesis by auto
    next
      case None
      have "working ord" using ord set [OF ord(1)] by (intro settled_open_working) (auto simp: settled_def)
      then have fl: "fillable ts e i"
        using ord None inv by (auto simp: fillable_def working_settled engine_inv_def parked_ok_def working_def)
      show thesis
      proof (cases "bt_get (g_books e) (g_key e (o_instrument ord) (o_outcome ord))")
        case None2: None
        with def ord None fl that(3) show thesis by (auto simp: no_liquidity_def)
      next
        case (Some book)
        define wanted where "wanted = wanted_quantity (g_portfolio e) ord"
        define wk where "wk = walk (effective_book (k_fill_model (g_config e)) book ord) (o_side ord) wanted (limit_price ord)"
        show thesis
        proof (cases "o_reduce_only ord \<and> \<not> wanted > 0 \<or> o_time_in_force ord = FillOrKill \<and> filled wk \<noteq> wanted")
          case True
          with def ord None Some that(4) show thesis
            by (auto simp: Let_def wanted_def [symmetric] wk_def [symmetric] split: if_splits)
        next
          case False
          then have c: "(o_reduce_only ord \<and> \<not> wanted > 0) = False" "(o_time_in_force ord = FillOrKill \<and> filled wk \<noteq> wanted) = False"
            "(\<not> is_open ord \<or> o_status ord = InFlight) = False"
            using ord by auto
          from def obtain e1 where e1: "execute_all S i (\<not> o_post_only ord) ts (e, s) (bw_fills wk) = ok (e1, s')"
            and "(case bt_get (g_orders e1) i of None \<Rightarrow> None
              | Some ord1 \<Rightarrow> ok (if is_open ord1 then time_in_force_rule i ord1 e1 else e1, s')) = ok (e', s')"
            unfolding Let_def None Some option.case wanted_def [symmetric] wk_def [symmetric] c if_False
            by (auto simp: x_bind_ok_iff split: option.splits)
          then show thesis using that(5) [OF fl e1] by (auto split: option.splits)
        qed
      qed
    qed
  qed
  then show ?thesis
  proof cases
    case (5 taker fs e1 ord1)
    have mv: "moves {} ts e e1" using execute_all_moves [OF assms(1) inv 5(1,2)] .
    then have "engine_inv ts e1" "fillable ts e1 i"
      using inv 5(1) by (auto intro: moves_inv fillable_keeps moves_keeps)
    with 5 mv show ?thesis by (auto intro: rtranclp_trans [OF mv] time_in_force_moves)
  qed (use inv in \<open>auto intro: refuse_stopped_moves time_in_force_moves close_order_moves\<close>)
qed

end
