(* ===== verification/Engine_Simulation.thy ===== *)
theory Engine_Simulation
  imports Engine_Refine
begin

text \<open>
  The venue's part of a step as moves: matching what rests, prints working through the queue,
  complete sets, liquidations and orders worked over time.
\<close>

section \<open>Matching what rests\<close>

lemma prune_resting_id:
  assumes "engine_inv ts e"
  shows "prune_resting e = e"
proof -
  have "filter (\<lambda>i. \<not> order_is_open e i) (g_resting e) = []"
    using resting_order [OF assms] by (fastforce simp: filter_empty_conv order_is_open_def working_open)
  then show ?thesis by (simp add: prune_resting_def)
qed

definition out_of_latency :: "('f, 'x) engine \<Rightarrow> order_id \<Rightarrow> bool" where
  "out_of_latency e i \<longleftrightarrow> (\<exists>ord. bt_get (g_orders e) i = Some ord \<and> settled ord)"

lemma out_of_latency_keeps: "keeps e e' \<Longrightarrow> out_of_latency e i \<Longrightarrow> out_of_latency e' i"
  unfolding out_of_latency_def using keeps_order by blast

lemma resting_out_of_latency: "engine_inv ts e \<Longrightarrow> i \<in> set (g_resting e) \<Longrightarrow> out_of_latency e i"
  using resting_order [of ts e i] by (auto simp: out_of_latency_def working_settled)

lemma try_fill_moves': 
  assumes "context_strategy S" and "engine_inv ts e" and "out_of_latency e i"
    and "try_fill S (e, s) i ts = ok (e', s')"
  shows "moves {} ts e e'"
  using assms by (intro try_fill_moves [OF assms(1,2) _ assms(4)]) (auto simp: out_of_latency_def settled_def)

text \<open>A loop whose body is a sequence of moves as long as its element is ready, and readiness persists.\<close>

lemma fold_moves:
  assumes "engine_inv ts e" and "\<And>x. x \<in> set xs \<Longrightarrow> ready e x"
    and "\<And>e e' x. keeps e e' \<Longrightarrow> ready e x \<Longrightarrow> ready e' x"
    and "\<And>x e s e' s'. x \<in> set xs \<Longrightarrow> engine_inv ts e \<Longrightarrow> ready e x \<Longrightarrow> f (e, s) x = ok (e', s') \<Longrightarrow> moves L ts e e'"
    and "fold_x f (e, s) xs = ok (e', s')"
  shows "moves L ts e e'"
  using assms(1,2,4,5)
proof (induction xs arbitrary: e s)
  case (Cons x xs)
  obtain e1 s1 where e1: "f (e, s) x = ok (e1, s1)" "fold_x f (e1, s1) xs = ok (e', s')"
    using Cons.prems(4) by (auto simp: result_simps)
  have mv: "moves L ts e e1" using Cons.prems(1-3) e1(1) by (meson list.set_intros(1))
  have "moves L ts e1 e'"
  proof (rule Cons.IH [OF _ _ _ e1(2)])
    show "engine_inv ts e1" using moves_inv [OF mv Cons.prems(1)] .
    show "ready e1 y" if "y \<in> set xs" for y
      using Cons.prems(2) that assms(3) [OF moves_keeps [OF mv Cons.prems(1)]] by simp
    show "moves L ts a b" if "y \<in> set xs" "engine_inv ts a" "ready a y" "f (a, t) y = ok (b, t')" for y a t b t'
      using Cons.prems(3) [OF _ that(2-4)] that(1) by simp
  qed
  with mv show ?case by (rule rtranclp_trans)
qed simp

lemma index_resting:
  assumes "engine_inv ts e" and "i \<in> index_at (g_resting_index e) sl sd l"
  shows "i \<in> set (g_resting e)"
  using assms by (auto simp: engine_inv_def rest_ok_def tracks_def)

lemma candidates_resting:
  assumes "engine_inv ts e" and "i \<in> set (matching_candidates e r key book)"
  shows "i \<in> set (g_resting e)"
proof -
  have wf: "index_wf (g_resting_index e)" using assms(1) by (simp add: engine_inv_def rest_ok_def)
  show ?thesis
    using assms(2) index_resting [OF assms(1)]
    by (auto simp: matching_candidates_def set_crossing_top [OF wf] set_all_for_market [OF wf] split: if_splits)
qed

lemma match_resting_moves:
  assumes "context_strategy S" and inv: "engine_inv ts e" and ts: "record_ts r = ts"
    and "match_resting S (e, s) r key = ok (e', s')"
  shows "moves {} ts e e'"
proof (cases "bt_get (g_books e) key")
  case None
  with assms(4) show ?thesis by (simp add: match_resting_def)
next
  case (Some book)
  define cs where "cs = matching_candidates e r key book"
  show ?thesis
  proof (cases "cs = []")
    case True
    with Some assms(4) show ?thesis by (simp add: match_resting_def cs_def)
  next
    case False
    obtain e1 where f: "fold_x (\<lambda>w i. try_fill S w i ts) (e, s) cs = ok (e1, s')" and e': "e' = prune_resting e1"
      using Some assms(4) ts False by (auto simp: match_resting_def cs_def [symmetric] Let_def result_simps)
    have "moves {} ts e e1"
      using candidates_resting [OF inv, of _ r key book]
      by (intro fold_moves [OF inv _ out_of_latency_keeps _ f])
         (auto simp: cs_def intro: resting_out_of_latency [OF inv] try_fill_moves' [OF assms(1)])
    with e' prune_resting_id [OF moves_inv [OF _ inv]] show ?thesis by metis
  qed
qed

section \<open>Prints\<close>

lemma order_is_open_cong: "g_orders e' = g_orders e \<Longrightarrow> order_is_open e' = order_is_open e"
  by (intro ext) (simp add: order_is_open_def)

lemma consume_eligible_moves:
  assumes "context_strategy S" and "engine_inv ts e" and "\<forall>(lim, i) \<in> set xs. fillable ts e i"
    and "consume_eligible S ts (e, s) rem xs = ok (e', s')"
  shows "moves {} ts e e'"
  using assms(2-4)
proof (induction xs arbitrary: e s rem)
  case (Cons x xs)
  obtain lim i where x: "x = (lim, i)" by fastforce
  show ?case
  proof (cases "rem \<le> 0")
    case True
    with Cons.prems(3) show ?thesis by (simp add: x)
  next
    case False
    obtain rem1 ahead1 where q: "queue_step rem (case bt_get (g_queue_ahead e) i of None \<Rightarrow> 0 | Some a \<Rightarrow> a) = (rem1, ahead1)"
      by fastforce
    define e1 where "e1 = e\<lparr>g_queue_ahead := bt_insert i ahead1 (g_queue_ahead e)\<rparr>"
    have core1: "core e1 = core e" by (simp add: e1_def core_eq_iff)
    then have inv1: "engine_inv ts e1" using Cons.prems(1) inv_core by blast
    have keeps1: "keeps e e1" using keeps_core [OF core1 keeps_refl] .
    show ?thesis
    proof (cases "rem1 \<le> 0")
      case True
      with Cons.prems(3) False q core1 show ?thesis by (auto simp: x e1_def intro: moves_frame)
    next
      case not_done: False
      define fl where "fl = min rem1 (case bt_get (g_orders e1) i of None \<Rightarrow> 0 | Some ord \<Rightarrow> remaining ord)"
      obtain e2 s2 where e2: "(if fl > 0 then execute S (e1, s) i lim fl False ts else ok (e1, s)) = ok (e2, s2)"
        and rest: "consume_eligible S ts (if order_is_open e2 i then e2
            else e2\<lparr>g_queue_ahead := bt_remove i (g_queue_ahead e2)\<rparr>, s2) (if fl > 0 then rem1 - fl else rem1) xs = ok (e', s')"
      proof -
        have "x_bind (if fl > 0 then execute S (e1, s) i lim fl False ts else ok (e1, s)) (\<lambda>(e2, s2).
            consume_eligible S ts (if order_is_open e2 i then e2
              else e2\<lparr>g_queue_ahead := bt_remove i (g_queue_ahead e2)\<rparr>, s2) (if fl > 0 then rem1 - fl else rem1) xs)
            = ok (e', s')"
          using Cons.prems(3)
          by (simp only: x consume_eligible.simps if_not_P [OF False] prod.case Let_def q if_not_P [OF not_done]
              e1_def fl_def)
        with that show thesis by (auto simp only: x_bind_ok_iff split_paired_Ex prod.case)
      qed
      define e3 where "e3 = (if order_is_open e2 i then e2 else e2\<lparr>g_queue_ahead := bt_remove i (g_queue_ahead e2)\<rparr>)"
      have fill1: "fillable ts e1 j" if "(l, j) \<in> set (x # xs)" for l j
        using Cons.prems(2) that fillable_keeps [OF keeps1] by fastforce
      have "moves {} ts e1 e2"
        using e2 inv1 fill1 [of lim i] by (auto simp: x fillable_def split: if_splits intro: execute_moves [OF assms(1)])
      then have mv: "moves {} ts e1 e3" by (rule moves_then_frame) (simp add: e3_def core_eq_iff)
      have "moves {} ts e3 e'"
      proof (rule Cons.IH [OF _ _ rest [folded e3_def]])
        show "engine_inv ts e3" using moves_inv [OF mv inv1] .
        show "\<forall>(lim, i) \<in> set xs. fillable ts e3 i"
          using fill1 fillable_keeps [OF moves_keeps [OF mv inv1]] by fastforce
      qed
      with mv moves_frame [OF core1] show ?thesis by (meson rtranclp_trans)
    qed
  qed
qed simp

lemma consume_queue_side_moves:
  assumes "context_strategy S" and inv: "engine_inv ts e" and "record_ts r = ts"
    and "consume_queue_side S (e, s) r price sz sd = ok (e', s')"
  shows "moves {} ts e e'"
proof -
  define el where "el = reached_by_trade (g_resting_index e) (g_key e (e_instrument r) (e_outcome r)) sd price"
  obtain e1 where f: "consume_eligible S ts (e, s) sz el = ok (e1, s')" and e': "e' = prune_resting e1"
    using assms(3,4) by (auto simp: consume_queue_side_def el_def Let_def result_simps)
  have wf: "index_wf (g_resting_index e)" using inv by (simp add: engine_inv_def rest_ok_def)
  have "\<forall>(lim, i) \<in> set el. fillable ts e i"
    using index_resting [OF inv] resting_fillable [OF inv]
    by (auto simp: el_def set_reached_by_trade [OF wf])
  from consume_eligible_moves [OF assms(1) inv this f] e' prune_resting_id [OF moves_inv [OF _ inv]]
  show ?thesis by metis
qed

lemma consume_queue_moves:
  assumes "context_strategy S" and inv: "engine_inv ts e" and "record_ts r = ts"
    and "consume_queue S (e, s) r price sz aggressor = ok (e', s')"
  shows "moves {} ts e e'"
proof -
  note side = consume_queue_side_moves [OF assms(1) _ assms(3)]
  consider "e' = e" | sd where "consume_queue_side S (e, s) r price sz sd = ok (e', s')"
    | e1 s1 where "consume_queue_side S (e, s) r price sz Buy = ok (e1, s1)"
        "consume_queue_side S (e1, s1) r price sz Sell = ok (e', s')"
    using assms(4) by (auto simp: consume_queue_def Let_def result_simps split: option.splits if_splits)
  then show ?thesis
  proof cases
    case 3
    then have mv: "moves {} ts e e1" using side inv by blast
    with 3(2) side [OF moves_inv [OF mv inv]] show ?thesis by (meson rtranclp_trans)
  qed (use side inv in auto)
qed

section \<open>Orders of the venue\<close>

lemma venue_order_moves:
  assumes "venue_order e i oc sd q reduce tag ts = Inr (e', n)"
  shows "move L t e e'" and "bt_wf (g_orders e) \<Longrightarrow> out_of_latency e' n"
    and "engine_inv t e \<Longrightarrow> n \<notin> set (g_untriggered e')"
    and "bt_wf (g_orders e) \<Longrightarrow> \<exists>ord. bt_get (g_orders e') n = Some ord \<and> o_instrument ord = i"
proof -
  obtain ord where new: "order_new (Suc (g_next_order_id e)) i oc sd Market q ImmediateOrCancel ts = Inr ord"
    and n: "n = Suc (g_next_order_id e)"
    and e': "e' = set_order n (ord\<lparr>o_status := Accepted, o_accepted_at := Some ts, o_reduce_only := reduce,
      o_tag := Some tag\<rparr>) (e\<lparr>g_next_order_id := n\<rparr>)"
    using assms by (auto simp: venue_order_def Let_def result_simps)
  note ord = order_new_fields [OF new]
  show "move L t e e'"
    using ord by (intro move_create [where ord = "ord\<lparr>o_status := Accepted, o_accepted_at := Some ts,
      o_reduce_only := reduce, o_tag := Some tag\<rparr>"]) (auto simp: e' n)
  show "out_of_latency e' n" if "bt_wf (g_orders e)"
    by (simp add: out_of_latency_def e' bt_get_insert [OF that] settled_def)
  show "n \<notin> set (g_untriggered e')" if "engine_inv t e"
    using that fresh_number [OF that, of n] by (auto simp: engine_inv_def parked_ok_def e' n)
  show "\<exists>ord. bt_get (g_orders e') n = Some ord \<and> o_instrument ord = i" if "bt_wf (g_orders e)"
    using ord by (simp add: e' bt_get_insert [OF that])
qed

lemma liquidate_moves:
  assumes "context_strategy S" and inv: "engine_inv ts e"
    and "liquidate S tag (e, s) i oc closing mark equity maintenance ts = ok (e', s')"
  shows "moves {} ts e e'"
proof -
  obtain e1 n e2 where vo: "venue_order e i oc (closing_side closing) (fixed_abs closing) False tag ts = Inr (e1, n)"
    and tf: "try_fill S (e1, s) n ts = ok (e2, s')" and "core e' = core e2"
    using assms(3) by (auto simp: liquidate_def result_simps Let_def core_eq_iff split: if_splits)
  note mv = venue_order_moves(1) [OF vo, of "{}" ts]
  have "moves {} ts e1 e2"
    using try_fill_moves' [OF assms(1) move_inv [OF mv inv] venue_order_moves(2) [OF vo inv_orders_wf [OF inv]] tf] .
  with mv \<open>core e' = core e2\<close> show ?thesis
    by (meson converse_rtranclp_into_rtranclp moves_then_frame)
qed

lemma close_doomed_moves:
  assumes "context_strategy S" and "engine_inv ts e" and "close_doomed S state ts (e, s) ds = ok (e', s')"
  shows "moves {} ts e e'"
  using assms(2,3)
proof (induction ds arbitrary: e s)
  case (Cons d ds)
  obtain i oc q req where d: "d = (i, oc, q, req)" by (metis prod_cases4)
  from Cons.prems(2) consider "e' = e" | "close_doomed S state ts (e, s) ds = ok (e', s')"
    | closing mark e1 s1 where "liquidate S ''liquidation'' (e, s) i oc closing mark (ms_equity state) (ms_maintenance state) ts = ok (e1, s1)"
        "close_doomed S state ts (e1, s1) ds = ok (e', s')"
    by (auto simp: d Let_def result_simps split: if_splits option.splits)
  then show ?case
  proof cases
    case 3
    from liquidate_moves [OF assms(1) Cons.prems(1) 3(1)] have mv: "moves {} ts e e1" .
    from rtranclp_trans [OF mv Cons.IH [OF moves_inv [OF mv Cons.prems(1)] 3(2)]] show ?thesis .
  qed (use Cons in auto)
qed simp

lemma check_liquidation_moves:
  assumes "context_strategy S" and "engine_inv ts e" and "check_liquidation S (e, s) ts = ok (e', s')"
  shows "moves {} ts e e'"
proof -
  from assms(3) consider "e' = e" | state ds where "close_doomed S state ts (e, s) ds = ok (e', s')"
    by (auto simp: check_liquidation_def result_simps split: option.splits if_splits)
  then show ?thesis by cases (auto intro: close_doomed_moves [OF assms(1,2)])
qed

lemma check_isolated_liquidation_moves:
  assumes "context_strategy S" and "engine_inv ts e" and "check_isolated_liquidation S (e, s) ts = ok (e', s')"
  shows "moves {} ts e e'"
proof -
  have call: "moves {} ts e e'" if "engine_inv ts e" "close_isolated S ts (e, s) c = ok (e', s')" for e s c e' s'
    using that(2) unfolding close_isolated_def
    by (intro fold_moves [where ready = "\<lambda>_ _. True", OF that(1)])
       (auto intro: liquidate_moves [OF assms(1)])
  obtain ds where "fold_x (close_isolated S ts) (e, s) ds = ok (e', s')"
    using assms(3) by (auto simp: check_isolated_liquidation_def result_simps)
  then show ?thesis
    by (intro fold_moves [where ready = "\<lambda>_ _. True", OF assms(2)]) (auto intro: call)
qed

section \<open>Complete sets\<close>

lemma set_leg_moves:
  assumes "context_strategy S" and inv: "engine_inv ts e" and "stopped_trading e (i_id ins) ts = None"
    and "set_leg S ins sd sets cost tag ts ((e, s), d) leg = ok ((e', s'), d')"
  shows "moves {} ts e e'"
proof -
  obtain index price where leg: "leg = (index, price)" by fastforce
  obtain e1 n ft where vo: "venue_order e (i_id ins) index sd sets False tag ts = Inr (e1, n)"
    and bf: "book_fill S (e1, s) n ft ts = ok (e', s')"
    using assms(4) by (auto simp: set_leg_def leg result_simps)
  note mv = venue_order_moves(1) [OF vo, of "{}" ts] and wf = inv_orders_wf [OF inv]
  obtain ord where ord: "bt_get (g_orders e1) n = Some ord" "o_instrument ord = i_id ins"
    using venue_order_moves(4) [OF vo wf] by blast
  have "stopped_trading e1 = stopped_trading e" using keeps_stopped [OF move_keeps [OF mv inv]] .
  then have "moves {} ts e1 e'"
    using ord assms(3) venue_order_moves(3) [OF vo inv]
    by (intro book_fill_moves [OF assms(1) move_inv [OF mv inv] ord(1) _ _ bf]) auto
  with mv show ?thesis by (rule converse_rtranclp_into_rtranclp)
qed

lemma set_legs_moves:
  assumes "context_strategy S" and "engine_inv ts e" and "stopped_trading e (i_id ins) ts = None"
    and "fold_x (set_leg S ins sd sets cost tag ts) ((e, s), d) legs = ok ((e', s'), d')"
  shows "moves {} ts e e'"
  using assms(2-4)
proof (induction legs arbitrary: e s d)
  case (Cons leg legs)
  obtain e1 s1 d1 where e1: "set_leg S ins sd sets cost tag ts ((e, s), d) leg = ok ((e1, s1), d1)"
    "fold_x (set_leg S ins sd sets cost tag ts) ((e1, s1), d1) legs = ok ((e', s'), d')"
    using Cons.prems(3) by (auto simp: result_simps)
  note mv = set_leg_moves [OF assms(1) Cons.prems(1,2) e1(1)]
  have "moves {} ts e1 e'"
    using Cons.IH [OF moves_inv [OF mv Cons.prems(1)] _ e1(2)] Cons.prems(2)
      keeps_stopped [OF moves_keeps [OF mv Cons.prems(1)]] by simp
  with mv show ?case by (rule rtranclp_trans)
qed simp

lemma set_operation_refusal_open:
  "set_operation_refusal e ins sd sets cost ts = Inr None \<Longrightarrow> stopped_trading e (i_id ins) ts = None"
  by (auto simp: set_operation_refusal_def split: option.splits)

lemma run_set_operation_moves:
  assumes "context_strategy S" and inv: "engine_inv ts e" and "run_set_operation S (e, s) rq ts = ok (e', s')"
  shows "moves {} ts e e'"
proof -
  from assms(3) obtain ins sd sets cost tag refusal where ref: "set_operation_refusal e ins sd sets cost ts = Inr refusal"
    and rest: "(case refusal of
        Some reason \<Rightarrow> ok (refuse_set_operation (set_entry ins rq sets cost ts) reason e, s)
      | None \<Rightarrow> perform_set_operation S (e, s) ins sd (set_entry ins rq sets cost ts) tag ts) = ok (e', s')"
    unfolding run_set_operation_def Let_def prod.case
    by (auto simp: result_simps split: if_splits)
  show ?thesis
  proof (cases refusal)
    case (Some reason)
    with rest have "e' = refuse_set_operation (set_entry ins rq sets cost ts) reason e" by simp
    then have "core e' = core e" by (simp add: refuse_set_operation_def core_eq_iff)
    then show ?thesis by (rule moves_frame)
  next
    case None
    with rest obtain basis e1 d where legs: "fold_x (set_leg S ins sd sets cost tag ts) ((e, s), 0) (enumerate 0 basis) = ok ((e1, s'), d)"
      and "core e' = core e1"
      by (auto simp: perform_set_operation_def set_entry_def result_simps core_eq_iff)
    with set_legs_moves [OF assms(1) inv set_operation_refusal_open [OF ref [unfolded None]] legs] show ?thesis
      by (auto intro: moves_then_frame)
  qed
qed

section \<open>Orders worked over time\<close>

lemma twap_child_moves:
  assumes "context_strategy S" and inv: "engine_inv ts e" and "twap_child S ts (e, s) child = ok (e', s')"
  shows "moves {} ts e e'"
proof -
  obtain rq slice where child: "child = (rq, slice)" by fastforce
  obtain e1 n where vo: "venue_order e (tq_instrument rq) (tq_outcome rq) (tq_side rq) slice (tq_reduce_only rq)
      (case tq_tag rq of None \<Rightarrow> ''twap'' | Some t \<Rightarrow> t) ts = Inr (e1, n)"
    and tf: "try_fill S (bump (\<lambda>m. m\<lparr>m_twap_slices := m_twap_slices m + 1\<rparr>) e1, s) n ts = ok (e', s')"
    using assms(3) by (auto simp: twap_child_def child result_simps)
  note mv = venue_order_moves(1) [OF vo, of "{}" ts]
  let ?e1 = "bump (\<lambda>m. m\<lparr>m_twap_slices := m_twap_slices m + 1\<rparr>) e1"
  have core: "core ?e1 = core e1" by (simp add: core_eq_iff)
  have "engine_inv ts ?e1" using move_inv [OF mv inv] inv_core [OF core] by simp
  moreover have "out_of_latency ?e1 n"
    using venue_order_moves(2) [OF vo inv_orders_wf [OF inv]] by (simp add: out_of_latency_def)
  ultimately have "moves {} ts ?e1 e'" using try_fill_moves' [OF assms(1) _ _ tf] by blast
  with mv moves_frame [OF core] show ?thesis
    by (meson converse_rtranclp_into_rtranclp rtranclp_trans)
qed

lemma work_twaps_moves:
  assumes "context_strategy S" and inv: "engine_inv ts e" and "work_twaps S (e, s) ts = ok (e', s')"
  shows "moves {} ts e e'"
proof -
  obtain tws children where f: "fold_x (twap_child S ts) (e\<lparr>g_twaps := tws\<rparr>, s) children = ok (e', s')"
    using assms(3) by (auto simp: work_twaps_def result_simps)
  have core: "core (e\<lparr>g_twaps := tws\<rparr>) = core e" by (simp add: core_eq_iff)
  have "moves {} ts (e\<lparr>g_twaps := tws\<rparr>) e'"
    using inv inv_core [OF core] f
    by (intro fold_moves [where ready = "\<lambda>_ _. True", OF _ _ _ _ f]) (auto intro: twap_child_moves [OF assms(1)])
  with moves_frame [OF core] show ?thesis by (rule rtranclp_trans)
qed

end
