(* ===== verification/Engine_Kernel.thy ===== *)
theory Engine_Kernel
  imports Engine_Simulation
begin

text \<open>
  A whole step of the engine: the records that move the account without a trade, expiry, triggers and
  arrivals, and the invariant of the kernel from one record to the next.
\<close>

section \<open>Flows\<close>

text \<open>
  What can happen to the account: a move, a funding payment, a dividend, a split (when \<open>sp\<close> allows
  one), or something that leaves the account alone and reopens no market.
\<close>

inductive flow :: "bool \<Rightarrow> instrument_id set \<Rightarrow> unix_nanos \<Rightarrow> ('f, 'x) engine \<Rightarrow> ('f, 'x) engine \<Rightarrow> bool"
  for sp L ts where
  flow_move: "move L ts e e' \<Longrightarrow> engine_inv ts e \<Longrightarrow> flow sp L ts e e'"
| flow_aside: "account e' = account e \<Longrightarrow> set (g_delisted e) \<subseteq> set (g_delisted e') \<Longrightarrow> flow sp L ts e e'"
| flow_funding: "apply_funding e i rate = Inr e' \<Longrightarrow> flow sp L ts e e'"
| flow_dividend: "e' = e\<lparr>g_cash := g_cash e + due, g_dividends_received := g_dividends_received e + due\<rparr>
    \<Longrightarrow> flow sp L ts e e'"
| flow_split: "sp \<Longrightarrow> portfolio_apply_split (g_portfolio e) i ratio = (pf, Inr ()) \<Longrightarrow> e' = e\<lparr>g_portfolio := pf\<rparr>
    \<Longrightarrow> flow sp L ts e e'"

abbreviation flows :: "bool \<Rightarrow> instrument_id set \<Rightarrow> unix_nanos \<Rightarrow> ('f, 'x) engine \<Rightarrow> ('f, 'x) engine \<Rightarrow> bool" where
  "flows sp L ts \<equiv> (flow sp L ts)\<^sup>*\<^sup>*"

lemma moves_flows: "moves L ts e e' \<Longrightarrow> engine_inv ts e \<Longrightarrow> flows sp L ts e e'"
proof (induction rule: rtranclp_induct)
  case (step y z)
  then have "flow sp L ts y z" by (auto intro: flow_move moves_inv)
  with step show ?case by auto
qed simp

lemma flows_aside: "account e' = account e \<Longrightarrow> g_delisted e' = g_delisted e \<Longrightarrow> flows sp L ts e e'"
  by (intro r_into_rtranclp flow_aside) auto

lemma move_mono: "move L ts e e' \<Longrightarrow> L \<subseteq> M \<Longrightarrow> move M ts e e'"
  by (induction rule: move.induct) (auto intro: move.intros)

lemma moves_mono: "moves L ts e e' \<Longrightarrow> L \<subseteq> M \<Longrightarrow> moves M ts e e'"
  by (induction rule: rtranclp_induct) (auto intro: move_mono rtranclp.rtrancl_into_rtrancl)

text \<open>
  One piece of a step: it flows, keeps the invariant at the same instant, and leaves the
  configuration, the clock's time and the bookkeeping of expiries alone.
\<close>

definition piece :: "bool \<Rightarrow> instrument_id set \<Rightarrow> unix_nanos \<Rightarrow> ('f, 'x) engine \<Rightarrow> ('f, 'x) engine \<Rightarrow> bool" where
  "piece sp L ts e e' \<longleftrightarrow> flows sp L ts e e' \<and> engine_inv ts e' \<and> g_config e' = g_config e
     \<and> now (g_clock e') = now (g_clock e) \<and> g_expired e' = g_expired e \<and> g_next_expiry e' = g_next_expiry e"

lemma piece_refl: "engine_inv ts e \<Longrightarrow> piece sp L ts e e"
  by (simp add: piece_def)

lemma piece_trans: "piece sp L ts e e1 \<Longrightarrow> piece sp L ts e1 e2 \<Longrightarrow> piece sp L ts e e2"
  by (auto simp: piece_def)

lemma moves_piece: "moves {} ts e e' \<Longrightarrow> engine_inv ts e \<Longrightarrow> piece sp L ts e e'"
  using moves_keeps [of "{}" ts e e'] moves_inv [of "{}" ts e e'] moves_mono [of "{}" ts e e' L]
  by (auto simp: piece_def keeps_def intro: moves_flows)

lemma fold_piece:
  assumes "engine_inv ts e" and "fold_x f (e, s) xs = ok (e', s')"
    and "\<And>x e s e' s'. x \<in> set xs \<Longrightarrow> engine_inv ts e \<Longrightarrow> f (e, s) x = ok (e', s') \<Longrightarrow> piece sp L ts e e'"
  shows "piece sp L ts e e'"
  using assms
proof (induction xs arbitrary: e s)
  case Nil
  then show ?case by (simp add: piece_refl)
next
  case (Cons x xs)
  obtain e1 s1 where e1: "f (e, s) x = ok (e1, s1)" "fold_x f (e1, s1) xs = ok (e', s')"
    using Cons.prems(2) by (auto simp: result_simps)
  have p: "piece sp L ts e e1" using Cons.prems(3) [OF _ Cons.prems(1) e1(1)] by simp
  have "piece sp L ts e1 e'"
  proof (rule Cons.IH [OF _ e1(2)])
    show "engine_inv ts e1" using p by (simp add: piece_def)
    show "piece sp L ts a b" if "y \<in> set xs" "engine_inv ts a" "f (a, t) y = ok (b, t')" for y a t b t'
      using Cons.prems(3) [OF _ that(2,3)] that(1) by simp
  qed
  with p show ?case by (rule piece_trans)
qed

section \<open>Triggers and arrivals\<close>

lemma inv_unpark:
  assumes "engine_inv ts e" and "set us \<subseteq> set (g_untriggered e)"
  shows "engine_inv ts (e\<lparr>g_untriggered := us\<rparr>)"
proof -
  have "stopped_trading (e\<lparr>g_untriggered := us\<rparr>) = stopped_trading e" "place (e\<lparr>g_untriggered := us\<rparr>) = place e"
    by (auto intro: stopped_trading_cong place_cong)
  with assms show ?thesis
    by (auto simp: engine_inv_def ids_ok_def rest_ok_def parked_ok_def fills_ok_def)
qed

lemma arm_one_moves:
  assumes "context_strategy S" and inv: "engine_inv ts e" and "i \<notin> set (g_untriggered e)"
    and "arm_one S ts (e, s) i = ok (e', s')"
  shows "moves {} ts e e'"
proof (cases "bt_get (g_orders e) i")
  case None
  with assms(4) have "core e' = core e" by (auto simp: arm_one_def try_fill_def core_eq_iff)
  then show ?thesis by (rule moves_frame)
next
  case (Some ord)
  define ord' where "ord' = ord\<lparr>o_trigger := None, o_status := Accepted, o_accepted_at := Some ts\<rparr>"
  define e1 where "e1 = bump (\<lambda>m. m\<lparr>orders_triggered := orders_triggered m + 1\<rparr>) (set_order i ord' e)"
  have tf: "try_fill S (e1, s) i ts = ok (e', s')" using assms(4) Some by (simp add: arm_one_def e1_def ord'_def)
  have mv: "move {} ts e e1"
    using Some assms(3)
    by (intro move_relabel [of e i ord ord'])
       (auto simp: e1_def ord'_def same_stub_def settled_def working_def limit_price_def core_eq_iff)
  have "out_of_latency e1 i"
    by (simp add: out_of_latency_def e1_def ord'_def bt_get_insert [OF inv_orders_wf [OF inv]] settled_def)
  with try_fill_moves' [OF assms(1) move_inv [OF mv inv] _ tf] mv show ?thesis
    by (auto intro: converse_rtranclp_into_rtranclp)
qed

lemma arm_triggers_piece:
  assumes "context_strategy S" and inv: "engine_inv ts e" and "arm_triggers S (e, s) ts = ok (e', s')"
  shows "piece sp L ts e e'"
proof -
  define e1 where "e1 = e\<lparr>g_untriggered := filter (\<lambda>i. parked_fires e i = Some False) (g_untriggered e)\<rparr>"
  define ready where "ready = filter (\<lambda>i. parked_fires e i = Some True) (g_untriggered e)"
  have f: "fold_x (arm_one S ts) (e1, s) ready = ok (e', s')"
    using assms(3) by (simp add: arm_triggers_def e1_def ready_def)
  have inv1: "engine_inv ts e1" unfolding e1_def using inv by (intro inv_unpark) auto
  have "i \<notin> set (g_untriggered e1)" if "i \<in> set ready" for i
    using that by (auto simp: e1_def ready_def)
  then have "moves {} ts e1 e'"
    by (intro fold_moves [where ready = "\<lambda>e i. i \<notin> set (g_untriggered e)", OF inv1 _ _ _ f])
       (auto simp: keeps_def intro: arm_one_moves [OF assms(1)])
  moreover have "piece sp L ts e e1"
    using inv1 by (auto simp: piece_def e1_def account_def intro!: flows_aside)
  ultimately show ?thesis using inv1 by (blast intro: piece_trans moves_piece)
qed

lemma inv_park:
  assumes "engine_inv ts e" and get: "bt_get (g_orders e) i = Some ord" and "o_status ord = InFlight"
    and stub: "same_stub ord ord'" "o_filled ord' = o_filled ord" "o_status ord' = Untriggered"
  shows "engine_inv ts (set_order i ord' (e\<lparr>g_untriggered := g_untriggered e @ [i]\<rparr>))"
proof -
  note wf = inv_orders_wf [OF assms(1)]
  have rest: "i \<notin> set (g_resting e)" and park: "i \<notin> set (g_untriggered e)"
    using resting_order [OF assms(1), of i] get assms(1,3)
    by (auto simp: working_def engine_inv_def parked_ok_def)
  have inv1: "engine_inv ts (set_order i ord' e)"
    using assms rest park by (intro inv_relabel [of ts e i ord]) auto
  let ?e = "set_order i ord' (e\<lparr>g_untriggered := g_untriggered e @ [i]\<rparr>)"
  have "stopped_trading ?e = stopped_trading (set_order i ord' e)" "place ?e = place (set_order i ord' e)"
    by (auto intro: stopped_trading_cong place_cong)
  then have "ids_ok ?e" "rest_ok ts ?e" "fills_ok ?e" "one_shot (g_clock ?e)"
    using inv1 by (simp_all add: engine_inv_def ids_ok_def rest_ok_def fills_ok_def)
  moreover have "parked_ok ?e"
    using invD(3) [OF inv1] rest stub(3) by (simp add: parked_ok_def bt_get_insert [OF wf])
  ultimately show ?thesis by (simp add: engine_inv_def)
qed

text \<open>An arriving order is in flight: not on the book, not parked.\<close>

lemma inflight_elsewhere:
  assumes "engine_inv ts e" and "bt_get (g_orders e) i = Some ord" and "o_status ord = InFlight"
  shows "i \<notin> set (g_resting e)" and "i \<notin> set (g_untriggered e)" and "o_id ord = i"
  using resting_order [OF assms(1), of i] assms
  by (auto simp: working_def engine_inv_def parked_ok_def ids_ok_def)

lemma reject_arrival_moves:
  assumes "engine_inv ts e" and get: "bt_get (g_orders e) (o_id ord) = Some cur" and "o_status cur = InFlight"
    and "same_stub cur ord" and "o_filled ord = o_filled cur"
    and "core e' = core (reject_order ord reason e)"
  shows "moves L ts e e'"
  using assms inflight_elsewhere [OF assms(1) get assms(3)]
  by (intro moves_one move_relabel [of e "o_id ord" cur "ord\<lparr>o_status := Rejected, o_reject_reason := Some reason\<rparr>"])
     (auto simp: reject_order_def same_stub_def settled_def)

lemma enter_book_moves:
  assumes "context_strategy S" and inv: "engine_inv ts e" and get: "bt_get (g_orders e) (o_id ord) = Some cur"
    and fl: "o_status cur = InFlight" and stub: "same_stub cur ord" "o_filled ord = o_filled cur"
    and "enter_book S ts (e, s) ord = ok (e', s')"
  shows "moves {} ts e e'"
proof -
  define ord' where "ord' = ord\<lparr>o_status := Accepted, o_accepted_at := Some ts\<rparr>"
  define e1 where "e1 = set_order (o_id ord) ord' e"
  from assms(7) consider reason where "core e' = core (reject_order ord reason e)"
    | "try_fill S (e1, s) (o_id ord) ts = ok (e', s')"
    by (auto simp: enter_book_def result_simps core_eq_iff reject_order_def e1_def ord'_def split: option.splits if_splits)
  then show ?thesis
  proof cases
    case 1
    then show ?thesis using reject_arrival_moves [OF inv get fl stub] by blast
  next
    case 2
    have mv: "move {} ts e e1"
      using get stub inflight_elsewhere [OF inv get fl]
      by (intro move_relabel [of e "o_id ord" cur ord']) (auto simp: e1_def ord'_def same_stub_def settled_def)
    have "out_of_latency e1 (o_id ord)"
      by (simp add: out_of_latency_def e1_def ord'_def bt_get_insert [OF inv_orders_wf [OF inv]] settled_def)
    with try_fill_moves' [OF assms(1) move_inv [OF mv inv] _ 2] mv show ?thesis
      by (auto intro: converse_rtranclp_into_rtranclp)
  qed
qed

lemma arrive_order_piece:
  assumes "context_strategy S" and inv: "engine_inv ts e" and get: "bt_get (g_orders e) (o_id ord) = Some ord"
    and fl: "o_status ord = InFlight" and "arrive_order S ts (e, s) ord = ok (e', s')"
  shows "piece sp L ts e e'"
proof -
  define e1 where "e1 = bump (\<lambda>m. m\<lparr>orders_triggered := orders_triggered m + 1\<rparr>) e"
  define park where "park = set_order (o_id ord) (ord\<lparr>o_status := Untriggered, o_accepted_at := Some ts\<rparr>)
      (e\<lparr>g_untriggered := g_untriggered e @ [o_id ord]\<rparr>)"
  from assms(5) consider reason where "core e' = core (reject_order ord reason e)"
    | "enter_book S ts (e, s) ord = ok (e', s')"
    | "enter_book S ts (e1, s) (ord\<lparr>o_trigger := None\<rparr>) = ok (e', s')"
    | "e' = park"
    by (auto simp: arrive_order_def core_eq_iff e1_def park_def split: option.splits if_splits)
  then show ?thesis
  proof cases
    case 1
    have "moves {} ts e e'" using reject_arrival_moves [OF inv get fl _ _ 1] by simp
    then show ?thesis using inv by (rule moves_piece)
  next
    case 2
    have "moves {} ts e e'" using enter_book_moves [OF assms(1) inv get fl _ _ 2] by simp
    then show ?thesis using inv by (rule moves_piece)
  next
    case 3
    have core: "core e1 = core e" by (simp add: e1_def core_eq_iff)
    have "moves {} ts e1 e'"
      using get fl inv inv_core [OF core, of ts]
      by (intro enter_book_moves [OF assms(1) _ _ fl _ _ 3]) (auto simp: e1_def same_stub_def)
    with moves_frame [OF core] have "moves {} ts e e'" by (rule rtranclp_trans)
    then show ?thesis using inv by (rule moves_piece)
  next
    case 4
    have "engine_inv ts e'"
      unfolding 4 park_def using inv get fl by (intro inv_park) (auto simp: same_stub_def)
    then show ?thesis
      by (auto simp: 4 park_def piece_def account_def intro!: flows_aside)
  qed
qed

lemma arrive_piece:
  assumes "context_strategy S" and inv: "engine_inv ts e" and "arrive S ts (e, s) action = ok (e', s')"
  shows "piece sp L ts e e'"
proof (cases action)
  case (InFlightSet rq)
  with assms(3) have "moves {} ts e e'" by (auto simp: arrive_def intro: run_set_operation_moves [OF assms(1) inv])
  then show ?thesis using inv by (rule moves_piece)
next
  case (InFlightOrder sent)
  from assms(3) consider "e' = e"
    | cur where "bt_get (g_orders e) (o_id sent) = Some cur" "o_status cur = InFlight" "arrive_order S ts (e, s) cur = ok (e', s')"
    by (auto simp: arrive_def InFlightOrder split: option.splits if_splits)
  then show ?thesis
  proof cases
    case 1
    then show ?thesis using inv by (simp add: piece_refl)
  next
    case 2
    then have "o_id cur = o_id sent" using inv by (simp add: engine_inv_def ids_ok_def)
    with 2 show ?thesis using arrive_order_piece [OF assms(1) inv _ 2(2,3)] by simp
  qed
qed

lemma release_inflight_piece:
  assumes "context_strategy S" and inv: "engine_inv ts e" and "release_inflight S (e, s) ts = ok (e', s')"
  shows "piece sp L ts e e'"
proof -
  define e1 where "e1 = e\<lparr>g_inflight := dropWhile (\<lambda>f. if_release_at f \<le> ts) (g_inflight e)\<rparr>"
  have core: "core e1 = core e" by (simp add: e1_def core_eq_iff)
  have p: "piece sp L ts e e1" using moves_piece [OF moves_frame [OF core] inv] .
  have f: "fold_x (arrive S ts) (e1, s) (map if_action (takeWhile (\<lambda>f. if_release_at f \<le> ts) (g_inflight e))) = ok (e', s')"
    using assms(3) by (simp add: release_inflight_def e1_def)
  have "engine_inv ts e1" using p by (simp add: piece_def)
  from fold_piece [OF this f] arrive_piece [OF assms(1)] have "piece sp L ts e1 e'" by blast
  with p show ?thesis by (rule piece_trans)
qed

section \<open>Corporate actions\<close>

lemma split_order_fields:
  assumes "split_order ratio ord = Inr ord'"
  shows "same_stub ord ord' \<and> o_filled ord' = o_filled ord \<and> o_status ord' = o_status ord
    \<and> (limit_price ord' = None \<longleftrightarrow> limit_price ord = None)"
proof -
  obtain q kind trig where "ord' = ord\<lparr>o_quantity := q, o_kind := kind, o_trigger := trig\<rparr>"
    and "kind = Market \<longleftrightarrow> o_kind ord = Market"
    using assms by (auto simp: split_order_def result_simps split: order_kind.splits)
  then show ?thesis by (cases "o_kind ord"; cases kind) (auto simp: same_stub_def limit_price_def)
qed

lemma split_resting_moves:
  assumes inv: "engine_inv ts e" and "n \<in> set (g_resting e)" and "split_resting i ratio e n = Inr e'"
  shows "moves L ts e e'"
proof -
  obtain ord where ord: "bt_get (g_orders e) n = Some ord" "working ord" "limit_price ord \<noteq> None"
    using resting_order [OF assms(1,2)] by blast
  show ?thesis
  proof (cases "o_instrument ord = i")
    case False
    with assms(3) ord show ?thesis by (simp add: split_resting_def)
  next
    case True
    then obtain sl ord1 where sl: "slots_resolve (k_slots (g_config e)) (o_instrument ord) (o_outcome ord) = Inr sl"
      and ord1: "split_order ratio ord = Inr ord1"
      and e': "e' = set_order n ord1 (e\<lparr>g_resting_index := ri_insert (ri_remove (g_resting_index e) ord sl) ord1 sl\<rparr>)"
      using assms(3) ord by (auto simp: split_resting_def result_simps)
    have "g_key e (o_instrument ord) (o_outcome ord) = sl" using slots_resolve_key [OF sl] .
    then show ?thesis
      using split_order_fields [OF ord1] ord assms(2)
      by (intro moves_one move_reprice [of e n ord ord1]) (auto simp: e' reindex_def Let_def working_def)
  qed
qed

lemma split_pending_moves:
  assumes inv: "engine_inv ts e" and off: "n \<in> set (g_resting e) \<Longrightarrow> \<exists>ord. bt_get (g_orders e) n = Some ord \<and> \<not> wants ord"
    and "split_pending wants i ratio e n = Inr e'"
  shows "moves L ts e e'"
proof (cases "\<exists>ord. bt_get (g_orders e) n = Some ord \<and> wants ord \<and> o_instrument ord = i")
  case False
  with assms(3) have "e' = e" by (auto simp: split_pending_def split: option.splits if_splits)
  then show ?thesis by simp
next
  case True
  then obtain ord ord1 where ord: "bt_get (g_orders e) n = Some ord" "wants ord"
    and ord1: "split_order ratio ord = Inr ord1" and e': "e' = set_order n ord1 e"
    using assms(3) by (auto simp: split_pending_def result_simps)
  have "n \<notin> set (g_resting e)" using off ord by auto
  then show ?thesis
    using split_order_fields [OF ord1] ord inv
    by (intro moves_one move_relabel [of e n ord ord1])
       (auto simp: e' settled_def engine_inv_def parked_ok_def)
qed

lemma fold_r_moves:
  assumes "engine_inv ts e" and "\<And>x. x \<in> set xs \<Longrightarrow> ready e x"
    and "\<And>e e' x. x \<in> set xs \<Longrightarrow> engine_inv ts e \<Longrightarrow> ready e x \<Longrightarrow> f e x = Inr e' \<Longrightarrow> moves L ts e e' \<and> (\<forall>y. ready e y \<longrightarrow> ready e' y)"
    and "fold_r f e xs = Inr e'"
  shows "moves L ts e e' \<and> (\<forall>y. ready e y \<longrightarrow> ready e' y)"
  using assms
proof (induction xs arbitrary: e)
  case (Cons x xs)
  obtain e1 where e1: "f e x = Inr e1" "fold_r f e1 xs = Inr e'"
    using Cons.prems(4) by (auto simp: result_simps)
  have mv: "moves L ts e e1 \<and> (\<forall>y. ready e y \<longrightarrow> ready e1 y)"
    using Cons.prems(3) [OF _ Cons.prems(1) _ e1(1)] Cons.prems(2) by simp
  have "moves L ts e1 e' \<and> (\<forall>y. ready e1 y \<longrightarrow> ready e' y)"
  proof (rule Cons.IH [OF _ _ _ e1(2)])
    show "engine_inv ts e1" using moves_inv [OF conjunct1 [OF mv] Cons.prems(1)] .
    show "ready e1 y" if "y \<in> set xs" for y using mv Cons.prems(2) that by simp
    show "moves L ts a b \<and> (\<forall>y. ready a y \<longrightarrow> ready b y)"
      if "y \<in> set xs" "engine_inv ts a" "ready a y" "f a y = Inr b" for y a b
      using Cons.prems(3) [OF _ that(2-4)] that(1) by simp
  qed
  with mv show ?case by (meson rtranclp_trans)
qed simp

lemma split_resting_keeps: "split_resting i ratio e n = Inr e' \<Longrightarrow> g_resting e' = g_resting e"
  by (auto simp: split_resting_def result_simps split: option.splits if_splits)

lemma split_pending_keeps:
  "split_pending wants i ratio e n = Inr e' \<Longrightarrow> g_resting e' = g_resting e \<and> g_untriggered e' = g_untriggered e"
  by (auto simp: split_pending_def result_simps split: option.splits if_splits)

lemma split_quotes_core:
  assumes "split_quotes e i ratio ts = Inr e'"
  shows "core e' = core e"
proof -
  have step: "core b = core a" if "split_marks ratio a sl = Inr b" for a b sl
    using that by (auto simp: split_marks_def result_simps core_eq_iff)
  have fold: "fold_r (split_marks ratio) a xs = Inr b \<Longrightarrow> core b = core a" for a b xs
    by (induction xs arbitrary: a) (auto simp: result_simps dest: step)
  obtain books xs where "fold_r (split_marks ratio) (e\<lparr>g_books := books\<rparr>) xs = Inr e'"
    using assms by (auto simp: split_quotes_def Let_def result_simps)
  from fold [OF this] show ?thesis by (simp add: core_eq_iff)
qed

lemma apply_split_action_piece:
  assumes inv: "engine_inv ts e" and "apply_split_action e i ratio t = Inr e'"
  shows "piece True L ts e e'"
proof -
  obtain pf e1 e2 e3 where pf: "portfolio_apply_split (g_portfolio e) i ratio = (pf, Inr ())"
    and e1: "fold_r (split_resting i ratio) (e\<lparr>g_portfolio := pf\<rparr>) (g_resting e) = Inr e1"
    and e2: "fold_r (split_pending (\<lambda>_. True) i ratio) e1 (g_untriggered e1) = Inr e2"
    and e3: "fold_r (split_pending (\<lambda>ord. o_status ord = InFlight) i ratio) e2 (g_live_orders e2) = Inr e3"
    and e': "split_quotes e3 i ratio t = Inr e'"
    using assms(2) by (auto simp: apply_split_action_def result_simps split: prod.splits)
  define e0 where "e0 = e\<lparr>g_portfolio := pf\<rparr>"
  have inv0: "engine_inv ts e0" using inv by (subst inv_cong [of e0 e]) (simp_all add: e0_def)
  have "flow True L ts e e0" using pf by (intro flow_split) (auto simp: e0_def)
  then have p0: "piece True L ts e e0" using inv0 by (auto simp: piece_def e0_def)
  have m1: "moves {} ts e0 e1"
    by (rule conjunct1, rule fold_r_moves [where ready = "\<lambda>e n. n \<in> set (g_resting e)" and xs = "g_resting e", OF inv0 _ _ e1 [folded e0_def]])
       (auto simp: e0_def split_resting_keeps intro: split_resting_moves)
  then have inv1: "engine_inv ts e1" using inv0 moves_inv by blast
  have m2: "moves {} ts e1 e2"
    using inv1
    by (intro conjunct1 [OF fold_r_moves [where ready = "\<lambda>e n. n \<notin> set (g_resting e)", OF inv1 _ _ e2]])
       (auto simp: split_pending_keeps engine_inv_def parked_ok_def intro: split_pending_moves [unfolded engine_inv_def])
  then have inv2: "engine_inv ts e2" using inv1 moves_inv by blast
  have busy: "\<exists>ord. bt_get (g_orders a) n = Some ord \<and> o_status ord \<noteq> InFlight"
    if "engine_inv ts a" "n \<in> set (g_resting a)" for a :: "('a, 'b) engine" and n
    using resting_order [OF that] by (auto simp: working_def)
  have one: "moves {} ts a b" if "engine_inv ts a" "split_pending (\<lambda>ord. o_status ord = InFlight) i ratio a n = Inr b"
    for a b :: "('a, 'b) engine" and n
    using split_pending_moves [OF that(1) _ that(2)] busy [OF that(1)] by blast
  have m3: "moves {} ts e2 e3"
    by (rule conjunct1, rule fold_r_moves [where ready = "\<lambda>_ _. True", OF inv2 _ _ e3]) (auto intro: one)
  then have "moves {} ts e3 e'" using moves_frame [OF split_quotes_core [OF e']] by blast
  with m1 m2 m3 have "moves {} ts e0 e'" by (meson rtranclp_trans)
  then have "piece True L ts e0 e'" using inv0 by (rule moves_piece)
  with p0 show ?thesis by (rule piece_trans)
qed

lemma delist_close_moves:
  assumes inv: "engine_inv ts e" and "delist_close price ts e p = ok e'"
  shows "moves {p_instrument p} ts e e'"
proof -
  obtain e1 n where vo: "venue_order e (p_instrument p) (p_outcome p) (closing_side (p_quantity p))
      (fixed_abs (p_quantity p)) False ''delisting'' ts = Inr (e1, n)"
    and ex: "execute no_strategy (e1, ()) n price (fixed_abs (p_quantity p)) False ts = ok (e', ())"
    using assms(2) by (auto simp: delist_close_def result_simps)
  note mv = venue_order_moves(1) [OF vo, of "{p_instrument p}" ts]
  obtain ord where "bt_get (g_orders e1) n = Some ord" "o_instrument ord = p_instrument p"
    using venue_order_moves(4) [OF vo inv_orders_wf [OF inv]] by blast
  with venue_order_moves(3) [OF vo inv] have "moves {p_instrument p} ts e1 e'"
    by (intro execute_moves [OF none.context_strategy_axioms move_inv [OF mv inv] _ _ _ ex]) auto
  with mv show ?thesis by (rule converse_rtranclp_into_rtranclp)
qed

lemma delist_moves:
  assumes "engine_inv ts e" and "\<forall>p \<in> set ps. p_instrument p = i" and "fold_x (delist_close price ts) e ps = ok e'"
  shows "moves {i} ts e e'"
  using assms
proof (induction ps arbitrary: e)
  case (Cons p ps)
  obtain e1 where e1: "delist_close price ts e p = ok e1" "fold_x (delist_close price ts) e1 ps = ok e'"
    using Cons.prems(3) by (auto simp: result_simps)
  have mv: "moves {i} ts e e1" using delist_close_moves [OF Cons.prems(1) e1(1)] Cons.prems(2) by simp
  with Cons.IH [OF moves_inv [OF mv Cons.prems(1)] _ e1(2)] Cons.prems(2) show ?case by (meson list.set_intros(2) rtranclp_trans)
qed simp

section \<open>A record reaches the books\<close>

lemma mark_core [simp]:
  "core (set_book_mark key price e) = core e" "core (refresh_mark key e) = core e" "core (remark r key e) = core e"
  "core (put_book key book e) = core e" "core (put_reference key m orc e) = core e"
proof -
  show *: "core (set_book_mark key price e) = core e" "core (refresh_mark key e) = core e" for price
    by (auto simp: set_book_mark_def refresh_mark_def core_eq_iff Let_def split: option.splits)
  show "core (remark r key e) = core e" by (simp add: remark_def * split: option.splits)
qed (auto simp: put_book_def put_reference_def core_eq_iff)

definition delisting :: "event_record \<Rightarrow> bool" where
  "delisting r \<longleftrightarrow> (\<exists>p. e_event r = Corporate (Delist p))"

definition splitting :: "event_record \<Rightarrow> bool" where
  "splitting r \<longleftrightarrow> (\<exists>p. e_event r = Corporate (Split p))"

lemma funding_piece:
  assumes inv: "engine_inv ts e" and "apply_funding e i rate = Inr e'"
  shows "piece sp L ts e e'"
proof -
  have "flow sp L ts e e'" using assms(2) by (rule flow_funding)
  moreover have "g_config e' = g_config e \<and> g_orders e' = g_orders e \<and> g_resting e' = g_resting e
    \<and> g_resting_index e' = g_resting_index e \<and> g_untriggered e' = g_untriggered e \<and> g_delisted e' = g_delisted e
    \<and> g_fills e' = g_fills e \<and> g_commands e' = g_commands e \<and> g_next_order_id e' = g_next_order_id e
    \<and> g_clock e' = g_clock e \<and> g_expired e' = g_expired e \<and> g_next_expiry e' = g_next_expiry e"
    using assms(2) by (auto simp: apply_funding_def result_simps split: if_splits)
  ultimately show ?thesis using inv inv_cong [of e' e ts] by (simp add: piece_def r_into_rtranclp)
qed

lemma bump_piece: "engine_inv ts e \<Longrightarrow> piece sp L ts e (bump f e)"
  by (intro moves_piece moves_frame) (simp_all add: core_eq_iff)

lemma corporate_piece:
  assumes inv: "engine_inv ts e" and "apply_corporate_action e i action t = ok e'" and "\<forall>p. action \<noteq> Delist p"
    and sp: "(\<exists>p. action = Split p) \<longrightarrow> sp"
  shows "piece sp L ts e e'"
proof (cases action)
  case (Split ratio)
  with assms(2) obtain e1 where e1: "apply_split_action e i ratio t = Inr e1"
    and e': "e' = bump (\<lambda>m. m\<lparr>corporate_actions := corporate_actions m + 1\<rparr>) e1"
    by (auto simp: apply_corporate_action_def result_simps)
  from apply_split_action_piece [OF inv e1] sp Split have p: "piece sp L ts e e1" by simp
  then have "engine_inv ts e1" by (simp add: piece_def)
  from piece_trans [OF p bump_piece [OF this]] show ?thesis unfolding e' .
next
  case (Dividend per_share)
  with assms(2) obtain e1 due where e1: "e1 = e \<or> e1 = e\<lparr>g_cash := g_cash e + due, g_dividends_received := g_dividends_received e + due\<rparr>"
    and e': "e' = bump (\<lambda>m. m\<lparr>corporate_actions := corporate_actions m + 1\<rparr>) e1"
    by (auto simp: apply_corporate_action_def result_simps split: if_splits)
  have inv1: "engine_inv ts e1" using e1 inv inv_cong [of e1 e ts] by auto
  have "flows sp L ts e e1" using e1 by (auto intro: flow_dividend)
  then have p: "piece sp L ts e e1" using inv1 e1 by (auto simp: piece_def)
  from piece_trans [OF p bump_piece [OF inv1]] show ?thesis unfolding e' .
qed (use assms(3) in simp)

lemma apply_event_piece:
  assumes inv: "engine_inv ts e" and "apply_event e r key = ok e'" and "\<not> delisting r" and "splitting r \<longrightarrow> sp"
  shows "piece sp L ts e e'"
proof -
  from assms(2,3) consider "core e' = core e"
    | rate where "apply_funding e (e_instrument r) rate = Inr e'"
    | action where "e_event r = Corporate action" "apply_corporate_action e (e_instrument r) action (record_ts r) = ok e'"
    by (cases "e_event r") (auto simp: apply_event_def Let_def result_simps core_eq_iff [of "bump _ _"] simp flip: core_eq_iff)
  then show ?thesis
  proof cases
    case 1
    then show ?thesis using inv by (intro moves_piece moves_frame)
  next
    case 2
    then show ?thesis by (rule funding_piece [OF inv])
  next
    case 3
    then show ?thesis
      using assms(3,4) by (intro corporate_piece [OF inv 3(2)]) (auto simp: delisting_def splitting_def)
  qed
qed

lemma apply_to_books_piece:
  assumes inv: "engine_inv ts e" and "apply_to_books e r key = ok e'" and "\<not> delisting r" and "splitting r \<longrightarrow> sp"
  shows "piece sp L ts e e'"
proof -
  obtain e1 where e1: "apply_event (put_book key (g_book_at e key) e) r key = ok e1" and e': "e' = remark r key e1"
    using assms(2) by (auto simp: apply_to_books_def result_simps)
  have inv0: "engine_inv ts (put_book key (g_book_at e key) e)"
    using inv inv_core [of "put_book key (g_book_at e key) e" e] by simp
  have p0: "piece sp L ts e (put_book key (g_book_at e key) e)"
    using inv by (intro moves_piece moves_frame) simp_all
  have p1: "piece sp L ts (put_book key (g_book_at e key) e) e1"
    using apply_event_piece [OF inv0 e1 assms(3,4)] .
  have "piece sp L ts e1 e'"
    unfolding e' using p1 by (intro moves_piece moves_frame) (simp_all add: piece_def)
  with p0 p1 show ?thesis by (blast intro: piece_trans)
qed

end
