(* ===== verification/Engine_Invariant.thy ===== *)
theory Engine_Invariant
  imports Engine_Kernel
begin

text \<open>
  The invariant of the kernel from one record to the next: expiry sweeps the book before the clock
  passes a close, a delisting empties it, and so no order rests on a market that has stopped.
\<close>

section \<open>When a market stops\<close>

definition config_ok :: "('f, 'x) config \<Rightarrow> bool" where
  "config_ok k \<longleftrightarrow> k_expiries k = expiries_of (k_instruments k) \<and> bt_wf (k_instruments k)
     \<and> (\<forall>i ins. bt_get (k_instruments k) i = Some ins \<longrightarrow> i_id ins = i)"

definition expires :: "('f, 'x) engine \<Rightarrow> instrument_id \<Rightarrow> unix_nanos option" where
  "expires e i = Option.bind (bt_get (g_instruments e) i) expiration"

lemma set_map_filter: "x \<in> set (List.map_filter f xs) \<longleftrightarrow> (\<exists>y \<in> set xs. f y = Some x)"
  by (induction xs) (auto simp: map_filter_simps split: option.splits)

lemma set_expiries_of:
  assumes "\<forall>i ins. bt_get m i = Some ins \<longrightarrow> i_id ins = i"
  shows "(at, i) \<in> set (expiries_of m) \<longleftrightarrow> (\<exists>ins. bt_get m i = Some ins \<and> expiration ins = Some at)"
proof -
  define f where "f = (\<lambda>j. case set_get m j of
      Inl _ \<Rightarrow> None | Inr ins \<Rightarrow> map_option (\<lambda>at. (at, i_id ins)) (expiration ins))"
  have f: "f j = Some (at, i) \<longleftrightarrow> j = i \<and> (\<exists>ins. bt_get m i = Some ins \<and> expiration ins = Some at)" for j
    using assms by (cases "bt_get m j") (auto simp: f_def set_get_def)
  have "j \<in> set (set_ids m) \<longleftrightarrow> bt_get m j \<noteq> None" for j by (simp only: set_ids_def bt_get_keys)
  then show ?thesis
    by (auto simp: expiries_of_def set_map_filter f_def [symmetric] f)
qed

lemma sorted_expiries: "sorted (expiries_of m)"
  by (simp add: expiries_of_def)

lemma config_expiries:
  assumes "config_ok (g_config e)"
  shows "(at, i) \<in> set (k_expiries (g_config e)) \<longleftrightarrow> expires e i = Some at"
  using assms by (auto simp: config_ok_def set_expiries_of expires_def Option.bind_eq_Some_conv)

lemma stopped_iff:
  assumes "config_ok (g_config e)"
  shows "stopped_trading e i ts = None \<longleftrightarrow> i \<notin> set (g_delisted e) \<and> (\<forall>at. expires e i = Some at \<longrightarrow> ts < at)"
proof -
  have h: "has_expired e i ts = None \<longleftrightarrow> (\<forall>at. expires e i = Some at \<longrightarrow> ts < at)"
    by (cases "bt_get (g_instruments e) i")
       (auto simp: has_expired_def expires_def set_get_def split: option.splits)
  have none: "expires e i = None" if "k_expiries (g_config e) = []"
    using config_expiries [OF assms] that by (metis empty_iff list.set(1) not_Some_eq)
  show ?thesis
    using h none by (auto simp: stopped_trading_def split: option.splits)
qed

section \<open>Expiry\<close>

definition swept :: "unix_nanos \<Rightarrow> ('f, 'x) engine \<Rightarrow> bool" where
  "swept t e \<longleftrightarrow> (\<forall>x \<in> set (take (g_next_expiry e) (k_expiries (g_config e))). fst x \<le> t)
     \<and> set (g_expired e) = snd ` set (take (g_next_expiry e) (k_expiries (g_config e)))"

definition clear :: "('f, 'x) engine \<Rightarrow> instrument_id \<Rightarrow> bool" where
  "clear e i \<longleftrightarrow> (\<forall>n \<in> set (g_resting e). \<forall>ord. bt_get (g_orders e) n = Some ord \<longrightarrow> o_instrument ord \<noteq> i)"

lemma expire_order_fields:
  "account (expire_order i at e n) = account e" "g_delisted (expire_order i at e n) = g_delisted e"
  "g_expired (expire_order i at e n) = g_expired e" "g_next_expiry (expire_order i at e n) = g_next_expiry e"
  "g_resting (expire_order i at e n) = filter (\<lambda>j. j \<noteq> n) (g_resting e)"
  by (simp_all add: expire_order_def account_def split: option.splits)

lemma expire_order_moves:
  assumes "engine_inv t e"
  shows "moves L t e (expire_order i at e n)"
proof (cases "\<exists>ord. bt_get (g_orders e) n = Some ord \<and> is_open ord")
  case True
  then obtain ord where "bt_get (g_orders e) n = Some ord" "is_open ord" by blast
  then show ?thesis
    using assms by (auto simp: expire_order_def same_stub_def limit_price_def intro!: retire_moves [of t e n ord])
next
  case False
  then have "expire_order i at e n = remove_resting n e" by (auto simp: expire_order_def split: option.splits)
  then show ?thesis by (auto intro: move_unrest)
qed

text \<open>Order by order: orders stay what they are, and those named leave the book.\<close>

lemma expire_orders:
  assumes "engine_inv t e"
  shows "engine_inv t (foldl (expire_order i at) e ns) \<and> keeps e (foldl (expire_order i at) e ns)
    \<and> account (foldl (expire_order i at) e ns) = account e
    \<and> set (g_resting (foldl (expire_order i at) e ns)) = set (g_resting e) - set ns"
  using assms
proof (induction ns arbitrary: e)
  case Nil
  then show ?case by (simp add: keeps_refl)
next
  case (Cons n ns)
  let ?e1 = "expire_order i at e n"
  have mv: "moves {} t e ?e1" by (rule expire_order_moves [OF Cons.prems])
  have k: "engine_inv t ?e1" "keeps e ?e1" using moves_inv [OF mv Cons.prems] moves_keeps [OF mv Cons.prems] .
  show ?case
    using Cons.IH [OF k(1)] k(2) by (auto simp: expire_order_fields intro: keeps_trans)
qed

lemma clear_keeps: "keeps e e' \<Longrightarrow> engine_inv t e \<Longrightarrow> set (g_resting e') \<subseteq> set (g_resting e) \<Longrightarrow> clear e i \<Longrightarrow> clear e' i"
  unfolding clear_def using keeps_order [of e e'] resting_order [of t e]
  by (metis (no_types, lifting) option.inject same_stub_def subsetD)

lemma engine_inv_expiry_fields:
  "engine_inv t (e\<lparr>g_next_expiry := n, g_expired := x\<rparr>) = engine_inv t e"
  "engine_inv t (bump f (e\<lparr>g_expirations := xs\<rparr>)) = engine_inv t e"
  "engine_inv t (e\<lparr>g_next_expiry := n\<rparr>) = engine_inv t e"
  by (rule inv_cong; simp)+

text \<open>The frame of the sweep.\<close>

definition sweeps :: "('f, 'x) engine \<Rightarrow> ('f, 'x) engine \<Rightarrow> bool" where
  "sweeps e e' \<longleftrightarrow> account e' = account e \<and> g_delisted e' = g_delisted e \<and> g_clock e' = g_clock e
     \<and> set (g_resting e') \<subseteq> set (g_resting e)
     \<and> (\<forall>n ord. bt_get (g_orders e) n = Some ord \<longrightarrow> (\<exists>ord'. bt_get (g_orders e') n = Some ord' \<and> same_stub ord ord'))"

lemma expire_order_clock [simp]: "g_clock (expire_order i at e n) = g_clock e"
  by (simp add: expire_order_def split: option.splits)

lemma foldl_expire_clock [simp]: "g_clock (foldl (expire_order i at) e ns) = g_clock e"
  by (induction ns arbitrary: e) auto

lemma expire_one_sweeps:
  assumes inv: "engine_inv t e" and cl: "\<forall>j \<in> set (g_expired e). clear e j"
    and e'_def: "e' = expire_one e (at, i)"
  shows "engine_inv t e' \<and> sweeps e e' \<and> g_next_expiry e' = Suc (g_next_expiry e)
    \<and> set (g_expired e') = insert i (set (g_expired e)) \<and> (\<forall>j \<in> set (g_expired e'). clear e' j)"
proof (cases "i \<in> set (g_expired e)")
  case True
  then show ?thesis
    using inv cl unfolding e'_def
    by (auto simp: expire_one_def engine_inv_expiry_fields sweeps_def account_def clear_def)
next
  case False
  define e2 where "e2 = e\<lparr>g_next_expiry := Suc (g_next_expiry e), g_expired := bs_insert i (g_expired e)\<rparr>"
  define doomed where "doomed = filter (\<lambda>n. case bt_get (g_orders e2) n of
      None \<Rightarrow> False | Some ord \<Rightarrow> o_instrument ord = i) (g_resting e2)"
  define e3 where "e3 = foldl (expire_order i at) e2 doomed"
  have inv2: "engine_inv t e2" using inv by (simp add: e2_def engine_inv_expiry_fields)
  have r3: "engine_inv t e3" "keeps e2 e3" "account e3 = account e2" "set (g_resting e3) = set (g_resting e2) - set doomed"
    using expire_orders [OF inv2, of i at doomed] by (simp_all add: e3_def)
  have e': "e' = bump (\<lambda>m. m\<lparr>instruments_expired := instruments_expired m + 1\<rparr>) (e3\<lparr>g_expirations := g_expirations e3 @ [(i, at)]\<rparr>)"
    using False by (simp add: e'_def expire_one_def e2_def [symmetric] doomed_def [symmetric] e3_def [symmetric] Let_def)
  have "clear e3 i"
    unfolding clear_def
  proof (intro ballI allI impI)
    fix n ord assume n: "n \<in> set (g_resting e3)" and g: "bt_get (g_orders e3) n = Some ord"
    then have n2: "n \<in> set (g_resting e2)" "n \<notin> set doomed" using r3(4) by auto
    obtain ord2 where o2: "bt_get (g_orders e2) n = Some ord2" using resting_order [OF inv2 n2(1)] by blast
    with n2 have "o_instrument ord2 \<noteq> i" by (auto simp: doomed_def)
    with keeps_order [OF r3(2) o2] g show "o_instrument ord \<noteq> i" by (auto simp: same_stub_def)
  qed
  moreover have "clear e3 j" if "j \<in> set (g_expired e)" for j
    using cl that by (intro clear_keeps [OF r3(2) inv2]) (auto simp: r3(4) clear_def e2_def)
  ultimately have "\<forall>j \<in> set (g_expired e3). clear e3 j" and "set (g_expired e3) = insert i (set (g_expired e))"
    using r3(2) by (auto simp: keeps_def e2_def)
  moreover have "sweeps e e'"
  proof -
    have "\<exists>ord'. bt_get (g_orders e') n = Some ord' \<and> same_stub ord ord'" if "bt_get (g_orders e) n = Some ord" for n ord
      using keeps_order [OF r3(2), of n ord] that by (auto simp: e' e2_def)
    moreover have "g_clock e' = g_clock e" by (simp add: e' e3_def e2_def)
    ultimately show ?thesis
      using r3(2-4) by (auto simp: sweeps_def e' e2_def account_def keeps_def)
  qed
  ultimately show ?thesis
    using r3 by (auto simp: e' engine_inv_expiry_fields clear_def keeps_def e2_def)
qed

text \<open>The entries that are due, one after the other.\<close>

lemma expire_all_sweep:
  assumes "engine_inv t e" and "\<forall>j \<in> set (g_expired e). clear e j" and "e' = foldl expire_one e xs"
  shows "engine_inv t e' \<and> sweeps e e' \<and> g_next_expiry e' = g_next_expiry e + length xs
    \<and> set (g_expired e') = set (g_expired e) \<union> snd ` set xs \<and> (\<forall>j \<in> set (g_expired e'). clear e' j)"
  using assms
proof (induction xs arbitrary: e)
  case Nil
  then show ?case by (simp add: sweeps_def)
next
  case (Cons x xs)
  obtain at i where x: "x = (at, i)" by fastforce
  define e1 where "e1 = expire_one e (at, i)"
  note one = expire_one_sweeps [OF Cons.prems(1,2) e1_def]
  have "engine_inv t e' \<and> sweeps e1 e' \<and> g_next_expiry e' = g_next_expiry e1 + length xs
    \<and> set (g_expired e') = set (g_expired e1) \<union> snd ` set xs \<and> (\<forall>j \<in> set (g_expired e'). clear e' j)"
    using Cons.prems(3) one by (intro Cons.IH) (auto simp: x e1_def)
  moreover have "sweeps e e'" if "sweeps e e1" "sweeps e1 e'"
    using that unfolding sweeps_def by (metis (no_types, lifting) same_stub_trans subset_trans)
  ultimately show ?case using one by (auto simp: x)
qed

lemma due_prefix:
  assumes "sorted xs" and "x \<in> set xs" and "fst x \<le> (ts :: int)"
  shows "x \<in> set (takeWhile (\<lambda>(at, _). at \<le> ts) (xs :: (int \<times> string) list))"
  using assms by (induction xs) (auto simp: less_eq_prod_def split: prod.splits)

lemma inv_at:
  assumes "engine_inv t e" and "\<And>n ord. n \<in> set (g_resting e) \<Longrightarrow> bt_get (g_orders e) n = Some ord
    \<Longrightarrow> stopped_trading e (o_instrument ord) ts = None"
  shows "engine_inv ts e"
proof -
  have "\<exists>ord. bt_get (g_orders e) n = Some ord \<and> working ord \<and> limit_price ord \<noteq> None
      \<and> stopped_trading e (o_instrument ord) ts = None" if "n \<in> set (g_resting e)" for n
    using resting_order [OF assms(1) that] assms(2) [OF that] by blast
  with assms(1) show ?thesis by (simp add: engine_inv_def rest_ok_def)
qed

text \<open>Expiry moves the instant of the invariant: what was fit to rest then is fit to rest now.\<close>

theorem expire_due_inv:
  assumes inv: "engine_inv t e" and cfg: "config_ok (g_config e)" and sw: "swept t e" and "t \<le> ts"
  shows "engine_inv ts (expire_due e ts)" and "swept ts (expire_due e ts)" and "sweeps e (expire_due e ts)"
proof -
  define E where "E = k_expiries (g_config e)"
  define xs where "xs = takeWhile (\<lambda>(at, _). at \<le> ts) (drop (g_next_expiry e) E)"
  define e' where "e' = foldl expire_one e xs"
  have e': "expire_due e ts = e'" by (simp add: expire_due_def e'_def xs_def E_def)
  have gone: "clear e j" if "j \<in> set (g_expired e)" for j
  proof -
    from that sw obtain at where "(at, j) \<in> set (take (g_next_expiry e) E)" "at \<le> t"
      by (fastforce simp: swept_def E_def)
    then have "expires e j = Some at" using config_expiries [OF cfg] in_set_takeD by (fastforce simp: E_def)
    with \<open>at \<le> t\<close> have "stopped_trading e j t \<noteq> None" by (simp add: stopped_iff [OF cfg])
    then show ?thesis using resting_order [OF inv] by (fastforce simp: clear_def)
  qed
  have all: "engine_inv t e'" "sweeps e e'" "g_next_expiry e' = g_next_expiry e + length xs"
    "set (g_expired e') = set (g_expired e) \<union> snd ` set xs" "\<forall>j \<in> set (g_expired e'). clear e' j"
    using expire_all_sweep [OF inv _ e'_def] gone by auto
  have cfg': "g_config e' = g_config e" using all(2) by (simp add: sweeps_def account_def)
  have xs: "xs = take (length xs) (drop (g_next_expiry e) E)" unfolding xs_def by (rule takeWhile_eq_take)
  then have tk: "take (g_next_expiry e') E = take (g_next_expiry e) E @ xs" by (simp add: all(3) take_add)
  moreover have "\<forall>x \<in> set xs. fst x \<le> ts" by (auto simp: xs_def dest: set_takeWhileD)
  ultimately show sw': "swept ts (expire_due e ts)"
    using sw all(4) \<open>t \<le> ts\<close> unfolding e' swept_def cfg' E_def [symmetric] by (auto simp: image_Un)
  have due: "i \<in> set (g_expired e')" if "expires e i = Some at" "at \<le> ts" for i at
  proof -
    have "(at, i) \<in> set E" using that(1) config_expiries [OF cfg] by (simp add: E_def)
    moreover have "sorted E" using cfg by (simp add: E_def config_ok_def sorted_expiries)
    moreover have "set E = set (take (g_next_expiry e) E) \<union> set (drop (g_next_expiry e) E)"
      by (metis append_take_drop_id set_append)
    ultimately have "(at, i) \<in> set (take (g_next_expiry e') E)"
      using that(2) unfolding tk xs_def by (auto intro: due_prefix sorted_wrt_drop)
    with sw' show ?thesis unfolding e' swept_def cfg' E_def [symmetric] by force
  qed
  show "engine_inv ts (expire_due e ts)"
    unfolding e'
  proof (rule inv_at [OF all(1)])
    fix n ord assume n: "n \<in> set (g_resting e')" "bt_get (g_orders e') n = Some ord"
    have "stopped_trading e' (o_instrument ord) t = None" using resting_order [OF all(1) n(1)] n(2) by auto
    moreover have "o_instrument ord \<notin> set (g_expired e')" using all(5) n by (auto simp: clear_def)
    ultimately show "stopped_trading e' (o_instrument ord) ts = None"
      using due [of "o_instrument ord"] cfg cfg' by (fastforce simp: stopped_iff expires_def)
  qed
  show "sweeps e (expire_due e ts)" unfolding e' by (rule all(2))
qed

section \<open>The clock\<close>

lemma timers_moves:
  assumes "context_strategy S" and "engine_inv t e"
    and "fold_x (\<lambda>w ev. call_strategy (\<lambda>st c. on_timer S st c ev) w) (e, s) evs = ok (e', s')"
  shows "moves {} t e e'" and "account e' = account e"
proof -
  have "moves {} t e e' \<and> account e' = account e"
    using assms(2,3)
  proof (induction evs arbitrary: e s)
    case (Cons ev evs)
    obtain e1 s1 where e1: "call_strategy (\<lambda>st c. on_timer S st c ev) (e, s) = ok (e1, s1)"
      "fold_x (\<lambda>w ev. call_strategy (\<lambda>st c. on_timer S st c ev) w) (e1, s1) evs = ok (e', s')"
      using Cons.prems(2) by (auto simp: result_simps)
    note mv = call_strategy_moves [OF context_strategy.wakes [OF assms(1)] Cons.prems(1) e1(1)]
    from Cons.IH [OF moves_inv [OF mv(1) [of "{}"] Cons.prems(1)] e1(2)] mv(1) [of "{}"] mv(2)
    show ?case by auto
  qed simp
  then show "moves {} t e e'" "account e' = account e" by auto
qed

lemma inv_clock:
  assumes "engine_inv t e" and "one_shot clk"
  shows "engine_inv t (e\<lparr>g_clock := clk\<rparr>)"
proof -
  have "stopped_trading (e\<lparr>g_clock := clk\<rparr>) = stopped_trading e" "place (e\<lparr>g_clock := clk\<rparr>) = place e"
    by (auto intro: stopped_trading_cong place_cong)
  with assms show ?thesis
    by (simp add: engine_inv_def ids_ok_def rest_ok_def parked_ok_def fills_ok_def)
qed

lemma advance_clock_inv:
  assumes "context_strategy S" and inv: "engine_inv t e" and "advance_clock S (e, s) ts = ok (e', s')"
  shows "engine_inv t e' \<and> account e' = account e \<and> g_delisted e' = g_delisted e \<and> now (g_clock e') = ts
    \<and> now (g_clock e) \<le> ts \<and> g_expired e' = g_expired e \<and> g_next_expiry e' = g_next_expiry e"
proof -
  obtain clk evs where clk: "advance_to (g_clock e) ts = ok (clk, evs)"
    and f: "fold_x (\<lambda>w ev. call_strategy (\<lambda>st c. on_timer S st c ev) w) (e\<lparr>g_clock := clk\<rparr>, s) evs = ok (e', s')"
    using assms(3) by (auto simp: advance_clock_def result_simps)
  have shot: "one_shot clk \<and> now clk = ts \<and> now (g_clock e) \<le> ts"
    using advance_to_one_shot(2) [OF invD(5) [OF inv] clk] .
  then have inv1: "engine_inv t (e\<lparr>g_clock := clk\<rparr>)" using inv by (intro inv_clock) auto
  note mv = timers_moves [OF assms(1) inv1 f]
  have "keeps (e\<lparr>g_clock := clk\<rparr>) e'" using moves_keeps [OF mv(1) inv1] .
  with shot moves_inv [OF mv(1) inv1] mv(2) show ?thesis by (simp add: keeps_def account_def)
qed

section \<open>A delisting\<close>

text \<open>
  A delisting pays the positions out and then stops the market while orders still rest on it; the
  sweep that follows refuses each of them. Seen without the mark, every refusal is an ordinary move.
\<close>

lemma refuse_unmarked:
  "(refuse_stopped n ord reason a)\<lparr>g_delisted := D\<rparr> = refuse_stopped n ord reason (a\<lparr>g_delisted := D\<rparr>)"
  by (simp add: refuse_stopped_def fee_closed_def remove_resting_def set_order_def Let_def split: option.splits)

lemma refuse_rests:
  "set (g_resting (refuse_stopped n ord reason a)) = set (g_resting a) - {n}"
  "g_delisted (refuse_stopped n ord reason a) = g_delisted a" "account (refuse_stopped n ord reason a) = account a"
  by (auto simp: refuse_stopped_def fee_closed_def account_def)

lemma delisted_sweep:
  assumes "engine_inv ts (a\<lparr>g_delisted := D\<rparr>)" and "i \<in> set (g_delisted a)" and "config_ok (g_config a)"
    and "\<forall>n \<in> set cs. \<exists>ord. bt_get (g_orders a) n = Some ord \<and> o_instrument ord = i \<and> settled ord"
    and "fold_x (\<lambda>w n. try_fill S w n ts) (a, s) cs = ok (a', s')"
  shows "moves {} ts (a\<lparr>g_delisted := D\<rparr>) (a'\<lparr>g_delisted := D\<rparr>) \<and> g_delisted a' = g_delisted a
    \<and> account a' = account a \<and> set (g_resting a') \<subseteq> set (g_resting a) - set cs"
  using assms
proof (induction cs arbitrary: a s)
  case (Cons n cs)
  let ?b = "a\<lparr>g_delisted := D\<rparr>"
  obtain a1 s1 where tf: "try_fill S (a, s) n ts = ok (a1, s1)" "fold_x (\<lambda>w n. try_fill S w n ts) (a1, s1) cs = ok (a', s')"
    using Cons.prems(5) by (auto simp: result_simps)
  obtain ord where ord: "bt_get (g_orders a) n = Some ord" "o_instrument ord = i" "settled ord"
    using Cons.prems(4) by auto
  obtain reason where stop: "stopped_trading a i ts = Some reason"
    using stopped_iff [OF Cons.prems(3)] Cons.prems(2) by (metis not_Some_eq)
  have one: "moves {} ts ?b (a1\<lparr>g_delisted := D\<rparr>) \<and> g_delisted a1 = g_delisted a
    \<and> account a1 = account a \<and> set (g_resting a1) \<subseteq> set (g_resting a) - {n}"
  proof (cases "is_open ord")
    case False
    then have "n \<notin> set (g_resting a)"
      using resting_order [OF Cons.prems(1), of n] ord by (auto dest: working_open)
    with False ord tf show ?thesis by (auto simp: try_fill_def)
  next
    case True
    then have "a1 = refuse_stopped n ord reason a"
      using tf(1) ord stop by (auto simp: try_fill_def settled_def)
    with refuse_stopped_moves [OF Cons.prems(1), of n ord "{}" reason] ord show ?thesis
      by (simp add: refuse_unmarked refuse_rests)
  qed
  have inv1: "engine_inv ts (a1\<lparr>g_delisted := D\<rparr>)" using moves_inv [OF conjunct1 [OF one] Cons.prems(1)] .
  have "keeps ?b (a1\<lparr>g_delisted := D\<rparr>)" using moves_keeps [OF conjunct1 [OF one] Cons.prems(1)] .
  then have "\<exists>o'. bt_get (g_orders a1) m = Some o' \<and> o_instrument o' = i \<and> settled o'"
    if "bt_get (g_orders a) m = Some od" "o_instrument od = i" "settled od" for m od
    using keeps_order [of ?b "a1\<lparr>g_delisted := D\<rparr>" m od] that by (auto simp: same_stub_def)
  then have ready: "\<forall>m \<in> set cs. \<exists>o'. bt_get (g_orders a1) m = Some o' \<and> o_instrument o' = i \<and> settled o'"
    using Cons.prems(4) by (metis list.set_intros(2))
  from Cons.IH [OF inv1 _ _ ready tf(2)] one Cons.prems(2,3)
  have "moves {} ts (a1\<lparr>g_delisted := D\<rparr>) (a'\<lparr>g_delisted := D\<rparr>) \<and> g_delisted a' = g_delisted a1
    \<and> account a' = account a1 \<and> set (g_resting a') \<subseteq> set (g_resting a1) - set cs"
    by (simp add: account_def)
  with one show ?case by auto
qed simp

text \<open>An emptied market may stop.\<close>

lemma inv_mark:
  assumes "engine_inv ts (a\<lparr>g_delisted := D\<rparr>)" and "config_ok (g_config a)" and "clear a i"
    and "set (g_delisted a) = insert i (set D)"
  shows "engine_inv ts a"
proof -
  let ?b = "a\<lparr>g_delisted := D\<rparr>"
  have "\<exists>ord. bt_get (g_orders a) n = Some ord \<and> working ord \<and> limit_price ord \<noteq> None
      \<and> stopped_trading a (o_instrument ord) ts = None" if n: "n \<in> set (g_resting a)" for n
  proof -
    obtain ord where ord: "bt_get (g_orders a) n = Some ord" "working ord" "limit_price ord \<noteq> None"
      "stopped_trading ?b (o_instrument ord) ts = None"
      using resting_order [OF assms(1), of n] n by auto
    have "o_instrument ord \<noteq> i" using assms(3) n ord(1) by (auto simp: clear_def)
    with ord(4) have "stopped_trading a (o_instrument ord) ts = None"
      using stopped_iff [of a] stopped_iff [of ?b] assms(2,4) by (simp add: expires_def)
    with ord show ?thesis by blast
  qed
  moreover have "place ?b = place a" by (rule place_cong) simp_all
  ultimately show ?thesis
    using assms(1) by (simp add: engine_inv_def ids_ok_def rest_ok_def parked_ok_def fills_ok_def)
qed

text \<open>Nothing a strategy asks for, and no fill, touches the venue's books.\<close>

lemma send_command_books: "send_command cmd e = Inr e' \<Longrightarrow> g_books e' = g_books e"
  by (auto simp: send_command_def result_simps split: prod.splits)

lemma join_queue_books [simp]: "g_books (join_queue ord e) = g_books e"
  by (simp add: join_queue_def Let_def split: option.splits)

lemma handle_command_books: "handle_command e cmd = Inr e' \<Longrightarrow> g_books e' = g_books e"
proof (induction e cmd rule: handle_command.induct)
  case (1 e i rq)
  then show ?case
    by (auto simp: accept_def Let_def result_simps reject_order_def push_inflight_def dest: send_command_books
        split: option.splits)
next
  case (2 e i)
  then show ?case by (auto simp: cancel_order_def dest: send_command_books split: option.splits if_splits)
next
  case (3 e i quantity lim)
  have rq: "g_books (requeue i upd sl rst a) = g_books a" for upd sl rst a
    by (simp add: requeue_def Let_def)
  from 3 consider "e' = e"
    | upd idx e2 where "send_command (Amend i quantity lim) (bump (\<lambda>m. m\<lparr>orders_amended := orders_amended m + 1\<rparr>)
        (set_order i upd (e\<lparr>g_resting_index := idx\<rparr>))) = Inr e2" "g_books e' = g_books e2"
    | upd e2 where "send_command (Amend i quantity lim) (bump (\<lambda>m. m\<lparr>orders_amended := orders_amended m + 1\<rparr>)
        (set_order i upd e)) = Inr e2" "g_books e' = g_books e2"
    by (auto simp: amend_def Let_def result_simps rq split: option.splits if_splits)
  then show ?case by cases (auto dest: send_command_books)
next
  case (4 e rq)
  then show ?case by (auto simp: queue_set_operation_def push_inflight_def Let_def)
next
  case (5 e rq)
  then show ?case
    by (auto simp: start_twap_def reject_twap_def Let_def result_simps split: option.splits)
qed

lemma call_strategy_books:
  assumes "call_strategy callback (e, s) = ok (e', s')"
  shows "g_books e' = g_books e"
proof -
  obtain e1 where w: "with_context callback (e, s) = ok (e1, s')" and d: "drain_commands e1 = Inr e'"
    using assms by (auto simp: call_strategy_def result_simps)
  have "fold_r (\<lambda>e cmd. handle_command (pop_command e) cmd) a cs = Inr b \<Longrightarrow> g_books b = g_books a" for a b cs
    by (induction cs arbitrary: a) (auto simp: result_simps pop_command_def dest!: handle_command_books)
  with d have "g_books e' = g_books e1" by (simp add: drain_commands_def)
  moreover have "g_books e1 = g_books e"
    using w by (auto simp: with_context_def result_simps Let_def)
  ultimately show ?thesis by simp
qed

lemma execute_books:
  assumes "execute S (e, s) n price q tk t = ok (e', s')"
  shows "g_books e' = g_books e"
proof -
  have fill: "g_books b = g_books a" if "apply_fill a n ord ft t = Inr b" for a b :: "('a, 'b) engine" and n ord ft t
    using that
    by (auto simp: apply_fill_def Let_def result_simps fee_closed_def dest!: rebalance_isolated_fields)
  obtain st ft where "book_fill S (e\<lparr>g_fee_state := st\<rparr>, s) n ft t = ok (e', s')"
    using assms by (auto simp: execute_def result_simps Let_def case_prod_beta split: option.splits)
  then obtain ord a where a: "apply_fill (e\<lparr>g_fee_state := st\<rparr>) n ord ft t = Inr a"
    "call_strategy (\<lambda>st c. on_fill S st c (order_fill n ord ft t)) (a, s) = ok (e', s')"
    by (auto simp: book_fill_def result_simps split: option.splits)
  from call_strategy_books [OF a(2)] fill [OF a(1)] show ?thesis by simp
qed

lemma delist_close_books:
  assumes "delist_close price ts e p = ok e'"
  shows "g_books e' = g_books e"
proof -
  obtain e1 n where vo: "venue_order e (p_instrument p) (p_outcome p) (closing_side (p_quantity p))
      (fixed_abs (p_quantity p)) False ''delisting'' ts = Inr (e1, n)"
    and ex: "execute no_strategy (e1, ()) n price (fixed_abs (p_quantity p)) False ts = ok (e', ())"
    using assms by (auto simp: delist_close_def result_simps)
  from vo have "g_books e1 = g_books e" by (auto simp: venue_order_def Let_def result_simps)
  with execute_books [OF ex] show ?thesis by simp
qed

lemma delist_books: "fold_x (delist_close price ts) e ps = ok e' \<Longrightarrow> g_books e' = g_books e"
  by (induction ps arbitrary: e) (auto simp: result_simps dest!: delist_close_books)

lemma mark_fields [simp]:
  "g_books (set_book_mark key price e) = g_books e" "g_books (refresh_mark key e) = g_books e"
  "g_books (remark r key e) = g_books e"
  by (auto simp: set_book_mark_def refresh_mark_def remark_def Let_def split: option.splits)

lemma bt_get_inserted: "bt_get (bt_insert k v m) k = Some v"
  by (induction m) auto

text \<open>The record as far as the books and the sweep that follows it.\<close>

lemma delist_piece:
  assumes "context_strategy S" and inv: "engine_inv ts e" and cfg: "config_ok (g_config e)"
    and "delisting r" and ts: "record_ts r = ts"
    and ap: "apply_to_books e r key = ok e3" and mt: "match_resting S (e3, s) r key = ok (e', s')"
  shows "piece sp {e_instrument r} ts e e'" and "e_instrument r \<in> set (g_delisted e')"
proof -
  define i where "i = e_instrument r"
  obtain price where ev: "e_event r = Corporate (Delist price)" using assms(4) by (auto simp: delisting_def)
  define e0 where "e0 = put_book key (g_book_at e key) e"
  obtain e1 where paid: "fold_x (delist_close price ts) e0 (filter (\<lambda>p. p_instrument p = i) (open_positions (g_portfolio e0))) = ok e1"
    and e3: "e3 = remark r key (bump (\<lambda>m. m\<lparr>corporate_actions := corporate_actions m + 1\<rparr>)
        (e1\<lparr>g_delisted := bs_insert i (g_delisted e1)\<rparr>))"
    using ap ts by (auto simp: apply_to_books_def apply_event_def ev apply_corporate_action_def Let_def result_simps
        e0_def [symmetric] i_def [symmetric])
  have c0: "core e0 = core e" by (simp add: e0_def)
  have inv0: "engine_inv ts e0" using inv inv_core [OF c0] by blast
  have mv1: "moves {i} ts e0 e1" using delist_moves [OF inv0 _ paid] by simp
  have inv1: "engine_inv ts e1" using moves_inv [OF mv1 inv0] .
  have mv: "moves {i} ts e e1" using moves_frame [OF c0] mv1 by (rule rtranclp_trans)
  have keep: "keeps e e1" using moves_keeps [OF mv inv] .
  define D where "D = g_delisted e1"
  have c3: "core e3 = core (e1\<lparr>g_delisted := bs_insert i D\<rparr>)" by (simp add: e3 D_def) (simp add: core_eq_iff)
  then have "core (e3\<lparr>g_delisted := D\<rparr>) = core e1" by (simp add: core_eq_iff D_def)
  then have inv3: "engine_inv ts (e3\<lparr>g_delisted := D\<rparr>)" using inv1 inv_core by blast
  have f3: "account e3 = account e1" "set (g_delisted e3) = insert i (set D)" "g_config e3 = g_config e"
    using c3 keep by (auto simp: core_eq_iff account_def keeps_def)
  have cfg3: "config_ok (g_config e3)" using cfg f3(3) by simp
  define cs where "cs = filter (\<lambda>n. case bt_get (g_orders e3) n of None \<Rightarrow> False
      | Some ord \<Rightarrow> o_instrument ord = i \<and> is_open ord) (g_resting e3)"
  obtain book where "bt_get (g_books e3) key = Some book"
    using delist_books [OF paid] by (auto simp: e3 e0_def put_book_def bt_get_inserted)
  moreover have "matching_candidates e3 r key book = cs" for book
    unfolding matching_candidates_def cs_def i_def by (simp add: ev)
  ultimately obtain a where sweep: "fold_x (\<lambda>w n. try_fill S w n ts) (e3, s) cs = ok (a, s')"
    and e': "e' = a \<or> e' = prune_resting a"
    using mt ts by (cases "cs = []") (auto simp: match_resting_def result_simps)
  have on_i: "\<exists>ord. bt_get (g_orders e3) n = Some ord \<and> o_instrument ord = i \<and> settled ord" if "n \<in> set cs" for n
    using that resting_order [OF inv3, of n] by (auto simp: cs_def dest: working_settled)
  have res: "moves {} ts (e3\<lparr>g_delisted := D\<rparr>) (a\<lparr>g_delisted := D\<rparr>)" "g_delisted a = g_delisted e3"
    "account a = account e3" "set (g_resting a) \<subseteq> set (g_resting e3) - set cs"
    using delisted_sweep [OF inv3 _ cfg3 _ sweep, of i] f3(2) on_i by auto
  have inva: "engine_inv ts (a\<lparr>g_delisted := D\<rparr>)" using moves_inv [OF res(1) inv3] .
  have ka: "keeps (e3\<lparr>g_delisted := D\<rparr>) (a\<lparr>g_delisted := D\<rparr>)" using moves_keeps [OF res(1) inv3] .
  have "clear a i"
    unfolding clear_def
  proof (intro ballI allI impI)
    fix n ord assume n: "n \<in> set (g_resting a)" "bt_get (g_orders a) n = Some ord"
    obtain od where od: "bt_get (g_orders e3) n = Some od" "working od"
      using resting_order [OF inv3, of n] res(4) n(1) by auto
    have "n \<notin> set cs" "n \<in> set (g_resting e3)" using res(4) n(1) by auto
    with od have "o_instrument od \<noteq> i" by (auto simp: cs_def dest: working_open)
    then show "o_instrument ord \<noteq> i"
      using keeps_order [OF ka, of n od] od n(2) by (auto simp: same_stub_def)
  qed
  moreover have ca: "g_config a = g_config e3" using res(3) by (simp add: account_def)
  ultimately have inv': "engine_inv ts a"
    using inv_mark [OF inva] cfg3 res(2) f3(2) by simp
  then have ea: "e' = a" using e' prune_resting_id by blast
  have "flows sp {i} ts e e1" using moves_flows [OF mv inv] .
  moreover have "flow sp {i} ts e1 a"
    using res(2,3) f3(1,2) by (intro flow_aside) (auto simp: D_def)
  moreover have "g_expired a = g_expired e \<and> g_next_expiry a = g_next_expiry e \<and> now (g_clock a) = now (g_clock e)"
    using ka keep c3 by (auto simp: keeps_def core_eq_iff)
  ultimately show "piece sp {e_instrument r} ts e e'"
    using inv' ca f3(3) by (auto simp: piece_def ea i_def [symmetric])
  show "e_instrument r \<in> set (g_delisted e')" using res(2) f3(2) by (simp add: ea i_def)
qed

lemma flow_delisted: "flow sp L ts e e' \<Longrightarrow> set (g_delisted e) \<subseteq> set (g_delisted e')"
  by (erule flow.cases)
     (auto simp: apply_funding_def result_simps keeps_def split: if_splits dest!: move_keeps)

lemma flows_delisted: "flows sp L ts e e' \<Longrightarrow> set (g_delisted e) \<subseteq> set (g_delisted e')"
  by (induction rule: rtranclp_induct) (auto dest: flow_delisted)

section \<open>One step\<close>

definition kernel_inv :: "unix_nanos \<Rightarrow> ('f, 'x) engine \<Rightarrow> bool" where
  "kernel_inv t e \<longleftrightarrow> engine_inv t e \<and> config_ok (g_config e) \<and> swept t e \<and> now (g_clock e) = t"

lemma piece_swept: "piece sp L ts e e' \<Longrightarrow> swept ts e' = swept ts e"
  by (simp add: piece_def swept_def)

definition closing :: "event_record \<Rightarrow> instrument_id set" where
  "closing r = (if delisting r then {e_instrument r} else {})"

lemma piece_inv: "piece sp L ts e e' \<Longrightarrow> engine_inv ts e'"
  by (simp add: piece_def)

lemma apply_and_match_piece:
  assumes "context_strategy S" and inv: "engine_inv ts e" and cfg: "config_ok (g_config e)" and ts: "record_ts r = ts"
    and ap: "apply_to_books e r key = ok e3"
    and qu: "(case e_event r of Trade price sz aggressor \<Rightarrow> consume_queue S (e3, s) r price sz aggressor
               | _ \<Rightarrow> ok (e3, s)) = ok (e4, s4)"
    and mt: "match_resting S (e4, s4) r key = ok (e5, s5)"
  shows "piece (splitting r) (closing r) ts e e5 \<and> (delisting r \<longrightarrow> e_instrument r \<in> set (g_delisted e5))"
proof (cases "delisting r")
  case True
  then have "e4 = e3" "s4 = s" using qu by (auto simp: delisting_def)
  with delist_piece [OF assms(1) inv cfg True ts ap] mt True show ?thesis by (auto simp: closing_def)
next
  case False
  have p3: "piece (splitting r) (closing r) ts e e3" by (rule apply_to_books_piece [OF inv ap False]) simp
  have mv: "moves {} ts e3 e4"
    using qu by (cases "e_event r") (auto intro: consume_queue_moves [OF assms(1) piece_inv [OF p3] ts])
  have "moves {} ts e4 e5" by (rule match_resting_moves [OF assms(1) moves_inv [OF mv piece_inv [OF p3]] ts mt])
  with mv have "moves {} ts e3 e5" by (rule rtranclp_trans)
  from piece_trans [OF p3 moves_piece [OF this piece_inv [OF p3]]] False show ?thesis by simp
qed

lemma sweeps_flows: "sweeps e e' \<Longrightarrow> flows sp L ts e e'"
  by (auto simp: sweeps_def intro: flows_aside)

lemma venue_step_kernel:
  assumes "context_strategy S" and k: "kernel_inv t e" and "venue_step S (e, s) r = ok (e', s')"
  shows "flows (splitting r) (closing r) (record_ts r) e e' \<and> kernel_inv (record_ts r) e' \<and> t \<le> record_ts r
    \<and> (delisting r \<longrightarrow> e_instrument r \<in> set (g_delisted e'))"
proof -
  define ts where "ts = record_ts r"
  define sp where "sp = splitting r"
  define L where "L = closing r"
  obtain e1 s1 key e3 e4 s4 e5 s5 e6 s6 e7 s7 e8 s8
    where ad: "advance_clock S (e, s) ts = ok (e1, s1)"
      and ap: "apply_to_books (expire_due e1 ts) r key = ok e3"
      and qu: "(case e_event r of Trade price sz aggressor \<Rightarrow> consume_queue S (e3, s1) r price sz aggressor
               | _ \<Rightarrow> ok (e3, s1)) = ok (e4, s4)"
      and mt: "match_resting S (e4, s4) r key = ok (e5, s5)"
      and li: "check_liquidation S (e5, s5) ts = ok (e6, s6)"
      and iso: "check_isolated_liquidation S (e6, s6) ts = ok (e7, s7)"
      and ar: "arm_triggers S (e7, s7) ts = ok (e8, s8)"
      and tw: "work_twaps S (e8, s8) ts = ok (e', s')"
    using assms(3) unfolding venue_step_def Let_def ts_def [symmetric] by (auto simp: x_bind_ok_iff)
  define e2 where "e2 = expire_due e1 ts"
  have inv: "engine_inv t e" and cfg: "config_ok (g_config e)" and sw: "swept t e" and now: "now (g_clock e) = t"
    using k by (auto simp: kernel_inv_def)
  note adv = advance_clock_inv [OF assms(1) inv ad]
  have cfg1: "g_config e1 = g_config e" using adv by (simp add: account_def)
  have sw1: "swept t e1" using sw adv cfg1 by (simp add: swept_def)
  have le: "t \<le> ts" using adv now by simp
  note exp = expire_due_inv [OF _ _ sw1 le, folded e2_def]
  have inv2: "engine_inv ts e2" and sw2: "swept ts e2" and s2: "sweeps e1 e2"
    using exp adv cfg cfg1 by auto
  have cfg2: "config_ok (g_config e2)" using s2 cfg cfg1 by (simp add: sweeps_def account_def)
  have p5: "piece sp L ts e2 e5" and gone: "delisting r \<Longrightarrow> e_instrument r \<in> set (g_delisted e5)"
    using apply_and_match_piece [OF assms(1) inv2 cfg2 ts_def [symmetric] ap [folded e2_def] qu mt]
    by (auto simp: sp_def L_def)
  have p6: "piece sp L ts e5 e6"
    by (rule moves_piece [OF check_liquidation_moves [OF assms(1) piece_inv [OF p5] li] piece_inv [OF p5]])
  have p7: "piece sp L ts e6 e7"
    by (rule moves_piece [OF check_isolated_liquidation_moves [OF assms(1) piece_inv [OF p6] iso] piece_inv [OF p6]])
  have p8: "piece sp L ts e7 e8" by (rule arm_triggers_piece [OF assms(1) piece_inv [OF p7] ar])
  have p9: "piece sp L ts e8 e'"
    by (rule moves_piece [OF work_twaps_moves [OF assms(1) piece_inv [OF p8] tw] piece_inv [OF p8]])
  have late: "piece sp L ts e5 e'" by (rule piece_trans [OF p6 piece_trans [OF p7 piece_trans [OF p8 p9]]])
  then have p: "piece sp L ts e2 e'" by (rule piece_trans [OF p5])
  have "set (g_delisted e5) \<subseteq> set (g_delisted e')" using late flows_delisted [of sp L ts e5 e'] by (simp add: piece_def)
  then have off: "delisting r \<Longrightarrow> e_instrument r \<in> set (g_delisted e')" using gone by blast
  have "flows sp L ts e e1" using adv by (auto intro: flows_aside)
  moreover have "flows sp L ts e1 e2" using s2 by (rule sweeps_flows)
  ultimately have "flows sp L ts e e'" using p by (auto simp: piece_def)
  moreover have "kernel_inv ts e'"
    using p sw2 cfg2 piece_swept [OF p] adv s2 by (auto simp: kernel_inv_def piece_def sweeps_def)
  ultimately show ?thesis using le off by (simp add: sp_def L_def ts_def)
qed

lemma piece_kernel: "piece sp L ts e e' \<Longrightarrow> kernel_inv ts e \<Longrightarrow> kernel_inv ts e' \<and> flows sp L ts e e'"
  using piece_swept [of sp L ts e e'] by (auto simp: kernel_inv_def piece_def)

lemma kernel_engine: "kernel_inv t e \<Longrightarrow> engine_inv t e"
  by (simp add: kernel_inv_def)

lemma push_equity_core:
  assumes "push_equity e ts = Inr e'"
  shows "core e' = core e"
proof -
  have "core (sample_marks a ts) = core a" for a :: "('a, 'b) engine"
    by (simp add: sample_marks_def core_def)
  moreover obtain eq where "e' = sample_marks (e\<lparr>g_equity := eq\<rparr>) ts"
    using assms by (auto simp: push_equity_def result_simps)
  ultimately show ?thesis by (simp add: core_def)
qed

lemma sample_equity_core:
  assumes "sample_equity e ts = Inr e'"
  shows "core e' = core e"
proof -
  have upd: "core (a\<lparr>g_next_equity_sample := n\<rparr>) = core a" for a :: "('a, 'b) engine" and n
    by (simp add: core_def)
  from assms consider "e' = e" | a n where "push_equity e ts = Inr a" "e' = a\<lparr>g_next_equity_sample := n\<rparr>"
    by (auto simp: sample_equity_def result_simps split: if_splits)
  then show ?thesis by cases (auto simp: upd push_equity_core)
qed

text \<open>One record, from start to finish.\<close>

theorem step_kernel:
  assumes "context_strategy S" and k: "kernel_inv t e" and "engine_step S (e, s) r = ok (e', s')"
  shows "kernel_inv (record_ts r) e'" and "flows (splitting r) (closing r) (record_ts r) e e'" and "t \<le> record_ts r"
    and "delisting r \<Longrightarrow> e_instrument r \<in> set (g_delisted e')"
proof -
  let ?ts = "record_ts r" let ?sp = "splitting r" let ?L = "closing r"
  obtain e1 s1 e2 s2 e3 where v: "venue_step S (e, s) r = ok (e1, s1)"
    and c: "call_strategy (\<lambda>st c. on_event S st c r) (e1, s1) = ok (e2, s2)"
    and f: "release_inflight S (e2, s2) ?ts = ok (e3, s')"
    and q: "sample_equity (count_record r e3) ?ts = Inr e'"
    using assms(3) by (auto simp: engine_step_def x_bind_ok_iff)
  note k1 = venue_step_kernel [OF assms(1) k v]
  have inv1: "engine_inv ?ts e1" using k1 by (simp add: kernel_engine)
  have p2: "piece ?sp ?L ?ts e1 e2"
    by (rule moves_piece [OF call_strategy_moves(1) [OF context_strategy.reacts [OF assms(1)] inv1 c] inv1])
  have p3: "piece ?sp ?L ?ts e2 e3" by (rule release_inflight_piece [OF assms(1) piece_inv [OF p2] f])
  have "core e' = core e3" using sample_equity_core [OF q] by (simp add: count_record_def core_eq_iff)
  then have p4: "piece ?sp ?L ?ts e3 e'" by (intro moves_piece moves_frame piece_inv [OF p3])
  have p: "piece ?sp ?L ?ts e1 e'" by (rule piece_trans [OF p2 piece_trans [OF p3 p4]])
  from piece_kernel [OF p] k1 show "kernel_inv ?ts e'" "flows ?sp ?L ?ts e e'" "t \<le> ?ts"
    by (auto intro: rtranclp_trans)
  have "set (g_delisted e1) \<subseteq> set (g_delisted e')" using p flows_delisted [of ?sp ?L ?ts e1 e'] by (simp add: piece_def)
  with k1 show "e_instrument r \<in> set (g_delisted e')" if "delisting r" using that by blast
qed

end
