(* ===== verification/Engine_Ledger.thy ===== *)
theory Engine_Ledger
  imports Engine_Invariant
begin

text \<open>
  What the account is worth in cash, and why: every change of the account is a fill, a funding
  payment, a dividend or a split, so a fact about the account that those four keep holds after every
  step. Two such facts: the cash of the account is the cash it started with and what its fills,
  funding and dividends brought, and the portfolio is the replay of the fills.
\<close>

section \<open>What changes the account\<close>

text \<open>A move changes the account only when it books a fill, on a market that trades or is paid out.\<close>

lemma move_account:
  assumes "move L ts e e'" and "engine_inv ts e"
  obtains (same) "account e' = account e"
  | (fill) i ord ft e1 where "bt_get (g_orders e) i = Some ord" "apply_fill e i ord ft ts = Inr e1"
      "account e' = account e1" "stopped_trading e (o_instrument ord) ts = None \<or> o_instrument ord \<in> L"
proof -
  have core: "account a = account b" if "core a = core b" for a b :: "('a, 'b) engine"
    using that by (simp add: core_eq_iff account_def)
  have same: thesis if "core e' = core b" "account b = account e" for b
    using same core [OF that(1)] that(2) by simp
  show thesis
    using assms
  proof (cases rule: move.cases)
    case (move_rest i ord)
    then have "o_id ord \<notin> set (g_resting e)" using assms(2) by (auto simp: engine_inv_def ids_ok_def)
    then have "account (add_resting ord e) = account e"
      using core [OF add_resting_core] by (simp add: account_def)
    with move_rest same show thesis by blast
  next
    case (move_fill i ord ft e1)
    then show thesis using fill core by blast
  qed (auto simp: account_def intro: same)
qed

locale account_invariant =
  fixes sp :: bool and I :: "('f, 'x) engine \<Rightarrow> bool"
  assumes aside: "I e \<Longrightarrow> account e' = account e \<Longrightarrow> I e'"
    and fill: "I e \<Longrightarrow> bt_wf (g_orders e) \<Longrightarrow> apply_fill e i ord ft ts = Inr e' \<Longrightarrow> I e'"
    and funding: "I e \<Longrightarrow> apply_funding e j rate = Inr e' \<Longrightarrow> I e'"
    and dividend: "I e \<Longrightarrow> I (e\<lparr>g_cash := g_cash e + due, g_dividends_received := g_dividends_received e + due\<rparr>)"
    and splits: "sp \<Longrightarrow> I e \<Longrightarrow> portfolio_apply_split (g_portfolio e) j ratio = (pf, Inr ())
      \<Longrightarrow> I (e\<lparr>g_portfolio := pf\<rparr>)"
begin

lemma flow_keeps:
  assumes "flow sp' L ts e e'" and "sp' \<longrightarrow> sp" and "I e"
  shows "I e'"
  using assms
proof (cases rule: flow.cases)
  case flow_move
  then show ?thesis
    by (cases rule: move_account) (use aside fill inv_orders_wf assms(3) flow_move in blast)+
next
  case flow_aside
  then show ?thesis using aside assms(3) by blast
next
  case flow_funding
  then show ?thesis using funding assms(3) by blast
next
  case flow_dividend
  then show ?thesis using dividend assms(3) by blast
next
  case flow_split
  then show ?thesis using splits assms(2,3) by blast
qed

lemma flows_keep: "flows sp' L ts e e' \<Longrightarrow> sp' \<longrightarrow> sp \<Longrightarrow> I e \<Longrightarrow> I e'"
  by (induction rule: rtranclp_induct) (auto intro: flow_keeps)

text \<open>From record to record.\<close>

lemma steps_keep:
  assumes "context_strategy S" and "kernel_inv t e" and "I e" and "fold_x (engine_step S) (e, s) rs = ok (e', s')"
    and "\<forall>r \<in> set rs. splitting r \<longrightarrow> sp"
  shows "I e'"
  using assms(2-5)
proof (induction rs arbitrary: t e s)
  case (Cons r rs)
  obtain e1 s1 where st: "engine_step S (e, s) r = ok (e1, s1)" "fold_x (engine_step S) (e1, s1) rs = ok (e', s')"
    using Cons.prems(3) by (auto simp: result_simps)
  note step = step_kernel [OF assms(1) Cons.prems(1) st(1)]
  have "I e1" using flows_keep [OF step(2)] Cons.prems(2,4) by simp
  from Cons.IH [OF step(1) this st(2)] Cons.prems(4) show ?case by simp
qed simp

end

section \<open>Cash\<close>

text \<open>
  The cash a fill brings when its instrument is paid for in full, and the profit booked on the
  positions whose instruments are not: a future's fill costs nothing until it closes.
\<close>

definition fill_flow :: "instrument_set \<Rightarrow> fill \<Rightarrow> int" where
  "fill_flow instruments f =
     (if funded_or_unknown instruments (f_instrument f)
      then let gross = round_div (f_price f * f_quantity f) SCALE
           in (case f_side f of Buy \<Rightarrow> wrap64 (- gross) | Sell \<Rightarrow> gross) - f_commission f
      else 0)"

definition booked_profit :: "instrument_set \<Rightarrow> portfolio \<Rightarrow> int" where
  "booked_profit instruments pf =
     sum_list (map (\<lambda>(k, p). if funded_or_unknown instruments (fst k) then 0 else p_realized_pnl p) (positions pf))"

definition balanced :: "('f, 'x) engine \<Rightarrow> bool" where
  "balanced e \<longleftrightarrow> bt_wf (positions (g_portfolio e)) \<and> bt_wf (g_isolated_collateral e)
     \<and> g_cash e + sum_list (map snd (g_isolated_collateral e)) =
         k_starting_cash (g_config e) + sum_list (map (fill_flow (g_instruments e)) (g_fills e))
           + booked_profit (g_instruments e) (g_portfolio e) - g_funding_paid e + g_dividends_received e"

lemma sum_bt_insert:
  "bt_wf m \<Longrightarrow> sum_list (map h (bt_insert k v m)) =
     sum_list (map h m) - (case bt_get m k of None \<Rightarrow> 0 | Some w \<Rightarrow> h (k, w)) + (h (k, v) :: int)"
proof (induction k v m rule: bt_insert.induct)
  case (2 k v x m)
  have "bt_get m k = None" if "\<not> fst x < k"
  proof (rule ccontr)
    assume "bt_get m k \<noteq> None"
    then have "k \<in> set (bt_keys m)" by (simp only: bt_get_keys)
    with 2(2) that show False by auto
  qed
  with 2 show ?case by (cases x) (auto split: option.splits)
qed simp

lemma sum_bt_remove:
  "bt_wf m \<Longrightarrow> sum_list (map h (bt_remove k m)) =
     sum_list (map h m) - (case bt_get m k of None \<Rightarrow> 0 | Some w \<Rightarrow> (h (k, w) :: int))"
proof (induction m)
  case (Cons x m)
  have "bt_get m k = None \<and> bt_remove k m = m" if "fst x = k"
  proof -
    have "k \<notin> set (bt_keys m)" using Cons.prems that by auto
    then show ?thesis by (auto simp: bt_remove_def map_of_eq_None_iff intro!: filter_True)
  qed
  with Cons show ?case by (cases x) (auto simp: bt_remove_def split: option.splits)
qed (simp add: bt_remove_def)

text \<open>Collateral moves between the account and its isolated pools, and is never lost on the way.\<close>

lemma rebalance_conserves:
  assumes "rebalance_isolated e i = Inr e'" and "bt_wf (g_isolated_collateral e)"
  shows "bt_wf (g_isolated_collateral e') \<and>
    g_cash e' + sum_list (map snd (g_isolated_collateral e')) = g_cash e + sum_list (map snd (g_isolated_collateral e))"
proof -
  define moved where "moved = (\<lambda>required. e\<lparr>g_cash := g_cash e - (required - posted_collateral e i), g_isolated_collateral :=
        (if required = 0 then bt_remove i (g_isolated_collateral e) else bt_insert i required (g_isolated_collateral e))\<rparr>)"
  consider "e' = e" | required where "e' = moved required"
  proof (cases "i \<notin> set (k_isolated (g_config e)) \<or> g_margin e = None")
    case True
    then have "e' = e" using assms(1) by (cases "g_margin e") (auto simp: rebalance_isolated_def split: if_splits)
    then show ?thesis using that by blast
  next
    case False
    then obtain found required delta where d: "money_sub required (posted_collateral e i) = Inr delta"
      and e': "(if delta = 0 then Inr e else and_then (money_sub (g_cash e) delta) (\<lambda>cash. Inr (e\<lparr>g_cash := cash,
         g_isolated_collateral := (if required = 0 then bt_remove i (g_isolated_collateral e)
            else bt_insert i required (g_isolated_collateral e))\<rparr>))) = Inr e'"
      using assms(1) unfolding rebalance_isolated_def by (auto simp only: and_then_Inr_iff option.case if_False not_True_eq_False split: option.splits)
    show ?thesis
    proof (cases "delta = 0")
      case False
      then have "e' = moved required" using e' d by (auto simp: result_simps moved_def)
      then show ?thesis using that by blast
    qed (use e' that in auto)
  qed
  then show ?thesis
  proof cases
    case 2
    then show ?thesis
      unfolding moved_def
      using assms(2) sum_bt_insert [OF assms(2), of snd i required] sum_bt_remove [OF assms(2), of snd i]
      by (cases "bt_get (g_isolated_collateral e) i") (simp_all add: posted_collateral_def bt_wf_insert bt_wf_remove)
  qed (use assms(2) in simp)
qed

lemma funded_iff: "set_get instruments i = Inr ins \<Longrightarrow> funded_or_unknown instruments i = is_funded (i_kind ins)"
  by (simp add: funded_or_unknown_def)

text \<open>A fill's cash and the profit it books add up to what the account gains.\<close>

lemma cash_after_fill_flow:
  assumes ins: "set_get instruments (f_instrument f) = Inr ins" and wf: "bt_wf (positions pf)"
    and pf: "portfolio_step pf f = Inr pf'" and cash: "cash_after_fill ins pf pf' f c = Inr c'"
  shows "c' = c + fill_flow instruments f + booked_profit instruments pf' - booked_profit instruments pf
    \<and> bt_wf (positions pf')"
proof -
  obtain p' where pf': "pf' = pf\<lparr>positions := bt_insert (fill_key f) p' (positions pf)\<rparr>"
    using pf by (rule portfolio_step_Inr)
  have "booked_profit instruments pf' - booked_profit instruments pf =
      (if is_funded (i_kind ins) then 0
       else realized_of pf' (f_instrument f) (f_outcome f) - realized_of pf (f_instrument f) (f_outcome f))"
    using wf funded_iff [OF ins]
    by (auto simp: booked_profit_def pf' sum_bt_insert fill_key_def realized_of_def position_of_def bt_get_insert
        split: option.splits)
  moreover have "c' = c + (if is_funded (i_kind ins) then fill_flow instruments f
      else realized_of pf' (f_instrument f) (f_outcome f) - realized_of pf (f_instrument f) (f_outcome f))"
    using cash funded_iff [OF ins] by (auto simp: cash_after_fill_def fill_flow_def result_simps Let_def)
  moreover have "is_funded (i_kind ins) \<or> fill_flow instruments f = 0"
    using funded_iff [OF ins] by (simp add: fill_flow_def)
  ultimately show ?thesis using wf by (auto simp: pf' bt_wf_insert)
qed

lemma apply_fill_account:
  assumes "apply_fill e i ord ft ts = Inr e'" and "bt_wf (g_orders e)"
  obtains ins pf cash e1 where "set_get (g_instruments e) (o_instrument ord) = Inr ins"
    "portfolio_step (g_portfolio e) (order_fill i ord ft ts) = Inr pf"
    "cash_after_fill ins (g_portfolio e) pf (order_fill i ord ft ts) (g_cash e) = Inr cash"
    "rebalance_isolated (e\<lparr>g_portfolio := pf, g_cash := cash\<rparr>) (o_instrument ord) = Inr e1"
    "account e' = account (e1\<lparr>g_fills := g_fills e @ [order_fill i ord ft ts]\<rparr>)"
proof -
  obtain ins pf cash c ic ord1 where ok: "set_get (g_instruments e) (o_instrument ord) = Inr ins"
    "portfolio_step (g_portfolio e) (order_fill i ord ft ts) = Inr pf"
    "cash_after_fill ins (g_portfolio e) pf (order_fill i ord ft ts) (g_cash e) = Inr cash"
    "rebalance_isolated (e\<lparr>g_portfolio := pf, g_cash := cash\<rparr>) (o_instrument ord)
       = Inr (e\<lparr>g_portfolio := pf, g_cash := c, g_isolated_collateral := ic\<rparr>)"
    and fin: "core e' = core ((if is_open ord1 then set_order i ord1 (e\<lparr>g_portfolio := pf, g_cash := c, g_isolated_collateral := ic\<rparr>)
       else remove_resting i (set_order i ord1 (e\<lparr>g_portfolio := pf, g_cash := c, g_isolated_collateral := ic\<rparr>)))
         \<lparr>g_fills := g_fills e @ [order_fill i ord ft ts]\<rparr>)"
    by (rule apply_fill_Inr [OF assms])
  have "account e' = account (e\<lparr>g_portfolio := pf, g_cash := c, g_isolated_collateral := ic,
      g_fills := g_fills e @ [order_fill i ord ft ts]\<rparr>)"
    using fin by (auto simp: core_eq_iff account_def split: if_splits)
  then show thesis by (intro that [OF ok]) simp
qed

lemma balanced_fill:
  assumes "balanced e" and "bt_wf (g_orders e)" and "apply_fill e i ord ft ts = Inr e'"
  shows "balanced e'"
proof -
  define f where "f = order_fill i ord ft ts"
  obtain ins pf cash e1 where ok: "set_get (g_instruments e) (o_instrument ord) = Inr ins"
    "portfolio_step (g_portfolio e) f = Inr pf"
    "cash_after_fill ins (g_portfolio e) pf f (g_cash e) = Inr cash"
    "rebalance_isolated (e\<lparr>g_portfolio := pf, g_cash := cash\<rparr>) (o_instrument ord) = Inr e1"
    and ac: "account e' = account (e1\<lparr>g_fills := g_fills e @ [f]\<rparr>)"
    unfolding f_def by (rule apply_fill_account [OF assms(3,2)])
  have flow: "cash = g_cash e + fill_flow (g_instruments e) f + booked_profit (g_instruments e) pf
      - booked_profit (g_instruments e) (g_portfolio e)" "bt_wf (positions pf)"
    using cash_after_fill_flow [OF _ _ ok(2,3), of "g_instruments e"] ok(1) assms(1) by (auto simp: f_def balanced_def)
  have reb: "bt_wf (g_isolated_collateral e1) \<and> g_cash e1 + sum_list (map snd (g_isolated_collateral e1))
      = cash + sum_list (map snd (g_isolated_collateral e))"
    using rebalance_conserves [OF ok(4)] assms(1) by (simp add: balanced_def)
  obtain c ic where "e1 = e\<lparr>g_portfolio := pf, g_cash := c, g_isolated_collateral := ic\<rparr>"
    using rebalance_isolated_fields [OF ok(4)] by auto
  with ac reb flow assms(1) show ?thesis by (auto simp: balanced_def account_def)
qed

lemma split_positions_profit:
  assumes "split_positions i ratio ps = (ps', Inr ())"
  shows "map fst ps' = map fst ps \<and> map (p_realized_pnl \<circ> snd) ps' = map (p_realized_pnl \<circ> snd) ps"
  using assms
proof (induction i ratio ps arbitrary: ps' rule: split_positions.induct)
  case (2 i ratio k p ps)
  have "p_realized_pnl q = p_realized_pnl p" if "position_apply_split p ratio = Inr q" for q
    using that by (auto simp: position_apply_split_def result_simps split: if_splits)
  with 2 show ?case by (auto split: if_splits sum.splits prod.splits)
qed simp

lemma bt_wf_keys: "map fst m' = map fst m \<Longrightarrow> bt_wf m' \<longleftrightarrow> bt_wf m"
  by (simp add: bt_wf_def)

lemma balanced_split:
  assumes "balanced e" and "portfolio_apply_split (g_portfolio e) i ratio = (pf, Inr ())"
  shows "balanced (e\<lparr>g_portfolio := pf\<rparr>)"
proof -
  obtain ps where pf: "pf = (g_portfolio e)\<lparr>positions := ps\<rparr>"
    and sp: "split_positions i ratio (positions (g_portfolio e)) = (ps, Inr ())"
    using assms(2) by (auto simp: portfolio_apply_split_def split: prod.splits)
  note keys = split_positions_profit [OF sp]
  have as_zip: "map (\<lambda>(k, p). if funded_or_unknown ins (fst k) then 0 else p_realized_pnl p) xs
      = map2 (\<lambda>k x. if funded_or_unknown ins (fst k) then 0 else x) (map fst xs) (map (p_realized_pnl \<circ> snd) xs)"
    for ins and xs :: "(position_key \<times> position) list"
    by (induction xs) auto
  have "booked_profit (g_instruments e) pf = booked_profit (g_instruments e) (g_portfolio e)"
    unfolding booked_profit_def as_zip by (simp add: pf keys)
  with assms(1) bt_wf_keys [OF conjunct1 [OF keys]] show ?thesis by (simp add: balanced_def pf)
qed

interpretation ledger: account_invariant True balanced
proof
  fix e e' :: "('a, 'b) engine" and j rate
  assume "balanced e" and "apply_funding e j rate = Inr e'"
  then show "balanced e'" by (auto simp: apply_funding_def result_simps balanced_def split: if_splits)
next
  fix e e' :: "('a, 'b) engine"
  assume "balanced e" and "account e' = account e"
  then show "balanced e'" by (auto simp: balanced_def account_def)
next
  fix e :: "('a, 'b) engine" and due
  assume "balanced e"
  then show "balanced (e\<lparr>g_cash := g_cash e + due, g_dividends_received := g_dividends_received e + due\<rparr>)"
    by (auto simp: balanced_def)
qed (rule balanced_fill balanced_split; assumption)+

section \<open>The portfolio is the replay of the fills\<close>

definition audited :: "('f, 'x) engine \<Rightarrow> bool" where
  "audited e \<longleftrightarrow> portfolio_replay (g_fills e) = Inr (g_portfolio e)"

interpretation audit: account_invariant False audited
proof
  fix e e' :: "('a, 'b) engine" and i ord ft ts
  assume a: "audited e" and wf: "bt_wf (g_orders e)" and f: "apply_fill e i ord ft ts = Inr e'"
  obtain pf cash e1 where step: "portfolio_step (g_portfolio e) (order_fill i ord ft ts) = Inr pf"
    and reb: "rebalance_isolated (e\<lparr>g_portfolio := pf, g_cash := cash\<rparr>) (o_instrument ord) = Inr e1"
    and ac: "account e' = account (e1\<lparr>g_fills := g_fills e @ [order_fill i ord ft ts]\<rparr>)"
    by (rule apply_fill_account [OF f wf])
  obtain c ic where "e1 = e\<lparr>g_portfolio := pf, g_cash := c, g_isolated_collateral := ic\<rparr>"
    using rebalance_isolated_fields [OF reb] by auto
  with a step ac show "audited e'" by (simp add: audited_def account_def portfolio_replay_snoc)
next
  fix e e' :: "('a, 'b) engine" and j rate
  assume "audited e" and "apply_funding e j rate = Inr e'"
  then show "audited e'" by (auto simp: apply_funding_def result_simps audited_def split: if_splits)
qed (auto simp: account_def audited_def)

section \<open>What was set at the start\<close>

interpretation configured: account_invariant True "\<lambda>e. g_config e = c" for c
proof
  fix e e' :: "('a, 'b) engine" and i ord ft ts
  assume c: "g_config e = c" and wf: "bt_wf (g_orders e)" and f: "apply_fill e i ord ft ts = Inr e'"
  obtain pf cash e1 where reb: "rebalance_isolated (e\<lparr>g_portfolio := pf, g_cash := cash\<rparr>) (o_instrument ord) = Inr e1"
    and ac: "account e' = account (e1\<lparr>g_fills := g_fills e @ [order_fill i ord ft ts]\<rparr>)"
    by (rule apply_fill_account [OF f wf])
  with c rebalance_isolated_fields [OF reb] show "g_config e' = c" by (auto simp: account_def)
next
  fix e e' :: "('a, 'b) engine" and j rate
  assume "g_config e = c" and "apply_funding e j rate = Inr e'"
  then show "g_config e' = c" by (auto simp: apply_funding_def result_simps split: if_splits)
qed (auto simp: account_def)

lemma flows_config: "flows sp L ts e e' \<Longrightarrow> g_config e' = g_config e"
  by (rule configured.flows_keep) simp_all

section \<open>When a fill may be booked\<close>

lemma stopped_mono:
  assumes "g_config e' = g_config e" and "set (g_delisted e) \<subseteq> set (g_delisted e')" and "stopped_trading e' i ts = None"
  shows "stopped_trading e i ts = None"
  using assms by (auto simp: stopped_trading_def has_expired_def split: if_splits option.splits)

definition booked_open :: "instrument_id set \<Rightarrow> unix_nanos \<Rightarrow> ('f, 'x) engine \<Rightarrow> fill \<Rightarrow> bool" where
  "booked_open L ts e f \<longleftrightarrow> f_ts f = ts \<and> (stopped_trading e (f_instrument f) ts = None \<or> f_instrument f \<in> L)"

lemma apply_fill_fills:
  assumes "apply_fill e i ord ft ts = Inr e'" and "bt_wf (g_orders e)"
  shows "g_fills e' = g_fills e @ [order_fill i ord ft ts]"
  using assms by (auto simp: account_def elim: apply_fill_account)

lemma flow_fills:
  assumes "flow sp L ts e e'"
  shows "\<exists>new. g_fills e' = g_fills e @ new \<and> (\<forall>f \<in> set new. booked_open L ts e f)
    \<and> set (g_delisted e) \<subseteq> set (g_delisted e')"
  using assms
proof (cases rule: flow.cases)
  case flow_move
  note keep = move_keeps [OF flow_move]
  from flow_move show ?thesis
  proof (cases rule: move_account)
    case same
    then show ?thesis using keep by (intro exI [of _ "[]"]) (simp add: account_def keeps_def)
  next
    case (fill i ord ft e1)
    have "g_fills e' = g_fills e @ [order_fill i ord ft ts]"
      using fill apply_fill_fills [OF fill(2) inv_orders_wf [OF flow_move(2)]] by (simp add: account_def)
    then show ?thesis
      using fill keep by (intro exI [of _ "[order_fill i ord ft ts]"]) (auto simp: booked_open_def keeps_def)
  qed
next
  case flow_aside
  then show ?thesis by (intro exI [of _ "[]"]) (simp add: account_def)
next
  case flow_funding
  then show ?thesis by (intro exI [of _ "[]"]) (auto simp: apply_funding_def result_simps split: if_splits)
qed (auto intro!: exI [of _ "[]"])

text \<open>All fills of a step are of its instant, on markets that traded when it began or are paid out.\<close>

lemma flows_fills:
  assumes "flows sp L ts e e'"
  shows "\<exists>new. g_fills e' = g_fills e @ new \<and> (\<forall>f \<in> set new. booked_open L ts e f)
    \<and> set (g_delisted e) \<subseteq> set (g_delisted e')"
  using assms
proof (induction rule: rtranclp_induct)
  case base
  show ?case by (intro exI [of _ "[]"]) simp
next
  case (step a b)
  then obtain new where new: "g_fills a = g_fills e @ new" "\<forall>f \<in> set new. booked_open L ts e f"
    "set (g_delisted e) \<subseteq> set (g_delisted a)" by blast
  obtain more where more: "g_fills b = g_fills a @ more" "\<forall>f \<in> set more. booked_open L ts a f"
    "set (g_delisted a) \<subseteq> set (g_delisted b)" using flow_fills [OF step.hyps(2)] by blast
  have "booked_open L ts e f" if "booked_open L ts a f" for f
    using that stopped_mono [OF flows_config [OF step.hyps(1)] new(3)] by (auto simp: booked_open_def)
  with new more show ?case by (intro exI [of _ "new @ more"]) auto
qed

end
