(* ===== verification/Engine_Run.thy ===== *)
theory Engine_Run
  imports Engine_Ledger
begin

text \<open>
  Whole runs: the loop over the replay is a fold over the records the replay drains to, a built
  engine satisfies the invariant of the kernel, and so every fact kept by the flows of
  \<open>Engine_Kernel\<close> holds in every state a run passes through.
\<close>

section \<open>The loop over the replay\<close>

lemma x_bind_return: "x_bind m ok = m"
  by (simp add: x_bind_def split: option.splits sum.splits)

lemma x_bind_map: "x_bind (x_map g m) f = x_bind m (\<lambda>x. f (g x))"
  by (cases m) (auto simp: x_bind_def split: sum.splits)

lemma x_map_bind: "x_map f (x_bind m g) = x_bind m (\<lambda>x. x_map f (g x))"
  by (cases m) (auto simp: x_bind_def split: sum.splits)

lemma run_loop_error: "next_record rp = Some (rp', Inl err) \<Longrightarrow> run_loop S w rp = Some (Inl err)"
  by (subst run_loop.simps) simp

lemma run_loop_end: "next_record rp = Some (rp', Inr None) \<Longrightarrow> run_loop S w rp = ok (w, rp')"
  by (subst run_loop.simps) simp

lemma run_loop_step:
  "next_record rp = Some (rp', Inr (Some r)) \<Longrightarrow>
    run_loop S w rp = x_bind (engine_step S w r) (\<lambda>w'. run_loop S w' rp')"
  by (subst run_loop.simps) (simp add: x_bind_def)

text \<open>
  Whatever draining the replay gives, records and then its end or an error, the loop runs a step for
  each record and then stops the same way.
\<close>

lemma run_loop_drained:
  fixes S :: "'s strategy"
  assumes "collect_loop rp out = Some (rp', res)"
  shows "\<exists>rs. (case res of
      Inr records \<Rightarrow> records = out @ rs \<and> (\<forall>w :: ('f, 'x, 's) world. run_loop S w rp = x_map (\<lambda>w'. (w', rp')) (fold_x (engine_step S) w rs))
    | Inl err \<Rightarrow> (\<forall>w :: ('f, 'x, 's) world. run_loop S w rp = x_bind (fold_x (engine_step S) w rs) (\<lambda>_. Some (Inl err))))"
proof -
  let ?P = "\<lambda>rp out y. \<exists>rs. (case snd y of
      Inr records \<Rightarrow> records = out @ rs \<and> (\<forall>w :: ('f, 'x, 's) world. run_loop S w rp = x_map (\<lambda>w'. (w', fst y)) (fold_x (engine_step S) w rs))
    | Inl err \<Rightarrow> (\<forall>w :: ('f, 'x, 's) world. run_loop S w rp = x_bind (fold_x (engine_step S) w rs) (\<lambda>_. Some (Inl err))))"
  have "?P rp out (rp', res)"
  proof (rule collect_loop.raw_induct [where P = ?P, OF _ assms])
    fix f rp out y
    assume IH: "\<And>rp out y. f rp out = Some y \<Longrightarrow> ?P rp out y"
      and eq: "(case next_record rp of None \<Rightarrow> None
        | Some (rp', Inl e) \<Rightarrow> Some (rp', Inl e)
        | Some (rp', Inr None) \<Rightarrow> Some (rp', Inr out)
        | Some (rp', Inr (Some record)) \<Rightarrow> f rp' (out @ [record])) = Some y"
    consider rp1 err where "next_record rp = Some (rp1, Inl err)" "y = (rp1, Inl err)"
      | rp1 where "next_record rp = Some (rp1, Inr None)" "y = (rp1, Inr out)"
      | rp1 r where "next_record rp = Some (rp1, Inr (Some r))" "f rp1 (out @ [r]) = Some y"
      using eq by (auto split: option.splits sum.splits prod.splits)
    then show "?P rp out y"
    proof cases
      case 1
      then show ?thesis by (intro exI [of _ "[]"]) (simp add: run_loop_error)
    next
      case 2
      then show ?thesis by (intro exI [of _ "[]"]) (simp add: run_loop_end)
    next
      case 3
      obtain rs where rs: "case snd y of
          Inr records \<Rightarrow> records = (out @ [r]) @ rs
            \<and> (\<forall>w :: ('f, 'x, 's) world. run_loop S w rp1 = x_map (\<lambda>w'. (w', fst y)) (fold_x (engine_step S) w rs))
        | Inl err \<Rightarrow> (\<forall>w :: ('f, 'x, 's) world. run_loop S w rp1 = x_bind (fold_x (engine_step S) w rs) (\<lambda>_. Some (Inl err)))"
        using IH [OF 3(2)] by blast
      show ?thesis
      proof (cases "snd y")
        case (Inl err)
        with rs have "run_loop S w rp1 = x_bind (fold_x (engine_step S) w rs) (\<lambda>_. Some (Inl err))"
          for w :: "('f, 'x, 's) world" by (cases w) auto
        with Inl show ?thesis
          by (intro exI [of _ "r # rs"]) (simp add: run_loop_step [OF 3(1)] x_bind_assoc)
      next
        case (Inr records)
        with rs have "run_loop S w rp1 = x_map (\<lambda>w'. (w', fst y)) (fold_x (engine_step S) w rs)"
          for w :: "('f, 'x, 's) world" by (cases w) auto
        with Inr rs show ?thesis
          by (intro exI [of _ "r # rs"]) (simp add: run_loop_step [OF 3(1)] x_map_bind)
      qed
    qed
  qed
  then show ?thesis unfolding fst_conv snd_conv .
qed

section \<open>A built engine\<close>

definition instruments_ok :: "instrument_set \<Rightarrow> bool" where
  "instruments_ok m \<longleftrightarrow> bt_wf m \<and> (\<forall>i ins. bt_get m i = Some ins \<longrightarrow> i_id ins = i)"

lemma instruments_ok_Nil: "instruments_ok []"
  by (simp add: instruments_ok_def)

lemma instruments_ok_insert: "instruments_ok m \<Longrightarrow> set_insert m ins = Inr m' \<Longrightarrow> instruments_ok m'"
  by (auto simp: instruments_ok_def set_insert_def bt_wf_insert bt_get_insert split: if_splits)

lemma build_kernel:
  assumes "instruments_ok (b_instruments b)"
  shows "kernel_inv (b_start b) (engine_build b)"
proof -
  have "index_wf []" by (simp add: index_wf_def index_levels_def levels_ok_def)
  moreover have "tracks (index_at []) (place (engine_build b)) {}"
    by (simp add: tracks_def index_at_def index_levels_def level_list_def)
  ultimately have "engine_inv (b_start b) (engine_build b)"
    by (simp add: engine_inv_def ids_ok_def rest_ok_def parked_ok_def fills_ok_def one_shot_def engine_build_def
        clock_new_def)
  then show ?thesis
    using assms by (simp add: kernel_inv_def config_ok_def instruments_ok_def swept_def engine_build_def clock_new_def)
qed

lemma build_balanced: "balanced (engine_build b)"
  by (simp add: balanced_def engine_build_def portfolio_new_def booked_profit_def)

lemma build_audited: "audited (engine_build b)"
  by (simp add: audited_def engine_build_def portfolio_replay_def)

text \<open>Closing the result reads the account and changes none of it.\<close>

lemma finish_result:
  assumes "finish e = Inr (e', result)"
  shows "core e' = core e \<and> rr_final_cash result = g_cash e' \<and> rr_fills result = g_fills e'
    \<and> rr_starting_cash result = k_starting_cash (g_config e') \<and> rr_funding_paid result = g_funding_paid e'
    \<and> rr_dividends_received result = g_dividends_received e'"
proof -
  define e1 where "e1 = bump (final_counts (map snd (g_orders e))) e"
  have c1: "core e1 = core e" by (simp add: e1_def core_eq_iff)
  obtain "run_result_of e' = Inr result"
    and "e' = e1 \<or> (\<exists>ts. push_equity e1 ts = Inr e')"
    using assms by (auto simp: finish_def Let_def e1_def [symmetric] result_simps split: option.splits if_splits)
  with c1 show ?thesis by (auto simp: run_result_of_def result_simps dest!: push_equity_core)
qed

section \<open>States of a run\<close>

text \<open>The state of a run once the strategy has been started and the records \<open>rs\<close> processed.\<close>

definition state_after :: "'s strategy \<Rightarrow> ('f, 'x) engine_builder \<Rightarrow> 's \<Rightarrow> event_record list \<Rightarrow> ('f, 'x, 's) world exec" where
  "state_after S b s rs = x_bind (call_strategy (on_start S) (engine_build b, s)) (\<lambda>w. fold_x (engine_step S) w rs)"

text \<open>A run that succeeds has run a step for each of some sequence of records.\<close>

lemma run_loop_steps:
  fixes S :: "'s strategy" and w :: "('f, 'x, 's) world"
  assumes "run_loop S w rp = ok (w', rp')"
  shows "\<exists>rs. fold_x (engine_step S) w rs = ok w'"
proof -
  let ?P = "\<lambda>S (w :: ('f, 'x, 's) world) (rp :: replay) (y :: (('f, 'x, 's) world \<times> replay) res). \<forall>w' rp'. y = Inr (w', rp') \<longrightarrow> (\<exists>rs. fold_x (engine_step S) w rs = ok w')"
  have "?P S w rp (Inr (w', rp'))"
  proof (rule run_loop.raw_induct [where P = ?P, OF _ assms], intro allI impI)
    fix f S w rp y w' rp'
    assume IH: "\<And>S w rp y. f S w rp = Some y \<Longrightarrow> ?P S w rp y"
      and eq: "(case next_record rp of None \<Rightarrow> None
        | Some (rp', Inl err) \<Rightarrow> Some (Inl err)
        | Some (rp', Inr None) \<Rightarrow> ok (w, rp')
        | Some (rp', Inr (Some rec)) \<Rightarrow>
            (case engine_step S w rec of None \<Rightarrow> None | Some (Inl err) \<Rightarrow> Some (Inl err) | Some (Inr w') \<Rightarrow> f S w' rp')) = Some y"
      and y: "y = Inr (w', rp')"
    consider "w' = w" | rp1 r w1 where "engine_step S w r = ok w1" "f S w1 rp1 = Some y"
      using eq y by (auto split: option.splits sum.splits prod.splits)
    then show "\<exists>rs. fold_x (engine_step S) w rs = ok w'"
    proof cases
      case 1
      then show ?thesis by (intro exI [of _ "[]"]) simp
    next
      case 2
      then obtain rs where "fold_x (engine_step S) w1 rs = ok w'" using IH y by blast
      with 2 show ?thesis by (intro exI [of _ "r # rs"]) simp
    qed
  qed
  then show ?thesis by simp
qed

lemma steps_kernel:
  assumes "context_strategy S" and "kernel_inv t e" and "fold_x (engine_step S) (e, s) rs = ok (e', s')"
  shows "\<exists>t'. kernel_inv t' e' \<and> t \<le> t' \<and> (rs \<noteq> [] \<longrightarrow> t' = record_ts (List.last rs))
    \<and> sorted (t # map record_ts rs) \<and> g_config e' = g_config e"
  using assms(2,3)
proof (induction rs arbitrary: t e s)
  case Nil
  then show ?case by auto
next
  case (Cons r rs)
  obtain e1 s1 where st: "engine_step S (e, s) r = ok (e1, s1)" "fold_x (engine_step S) (e1, s1) rs = ok (e', s')"
    using Cons.prems(2) by (auto simp: result_simps)
  note step = step_kernel [OF assms(1) Cons.prems(1) st(1)]
  have "g_config e1 = g_config e" using flows_config [OF step(2)] .
  moreover obtain t' where "kernel_inv t' e'" "record_ts r \<le> t'" "rs \<noteq> [] \<longrightarrow> t' = record_ts (List.last rs)"
    "sorted (record_ts r # map record_ts rs)" "g_config e' = g_config e1"
    using Cons.IH [OF step(1) st(2)] by blast
  moreover have "kernel_inv (record_ts r) e'" if "rs = []" using step(1) st(2) that by simp
  ultimately show ?case using step(3) by (cases "rs = []") (auto intro: order_trans)
qed

text \<open>Calling the strategy moves the orders but neither the account nor the instant.\<close>

lemma call_kernel:
  assumes "acts callback" and "kernel_inv t e" and "call_strategy callback (e, s) = ok (e', s')"
  shows "kernel_inv t e'" and "account e' = account e" and "g_delisted e' = g_delisted e"
proof -
  have inv: "engine_inv t e" using assms(2) by (simp add: kernel_inv_def)
  note mv = call_strategy_moves [OF assms(1) inv assms(3)]
  show "account e' = account e" by (rule mv(2))
  have "piece False {} t e e'" by (rule moves_piece [OF mv(1) inv])
  then show "kernel_inv t e'" using piece_kernel assms(2) by blast
  show "g_delisted e' = g_delisted e" using moves_keeps [OF mv(1) inv] by (simp add: keeps_def)
qed

lemma state_after_kernel:
  assumes "context_strategy S" and "instruments_ok (b_instruments b)" and "state_after S b s rs = ok (e, s')"
  obtains e0 s0 where "kernel_inv (b_start b) e0" "account e0 = account (engine_build b)" "g_delisted e0 = []"
    "fold_x (engine_step S) (e0, s0) rs = ok (e, s')" "call_strategy (on_start S) (engine_build b, s) = ok (e0, s0)"
proof -
  obtain e0 s0 where c: "call_strategy (on_start S) (engine_build b, s) = ok (e0, s0)"
    and f: "fold_x (engine_step S) (e0, s0) rs = ok (e, s')"
    using assms(3) by (auto simp: state_after_def result_simps)
  note k = call_kernel [OF context_strategy.starts [OF assms(1)] build_kernel [OF assms(2)] c]
  have "g_delisted e0 = []" using k(3) by (simp add: engine_build_def)
  with k c f show thesis by (intro that) simp_all
qed

lemma state_after_inv:
  assumes "context_strategy S" and "instruments_ok (b_instruments b)" and "state_after S b s rs = ok (e, s')"
  shows "\<exists>t. kernel_inv t e \<and> (rs \<noteq> [] \<longrightarrow> t = record_ts (List.last rs)) \<and> g_config e = g_config (engine_build b)
    \<and> sorted (b_start b # map record_ts rs)"
  using assms
proof (rule state_after_kernel)
  fix e0 s0
  assume "kernel_inv (b_start b) e0" "account e0 = account (engine_build b)" "fold_x (engine_step S) (e0, s0) rs = ok (e, s')"
  with steps_kernel [OF assms(1), of "b_start b" e0 s0 rs e s'] show ?thesis by (auto simp: account_def)
qed

lemma state_after_snoc:
  "state_after S b s (rs @ [r]) = x_bind (state_after S b s rs) (\<lambda>w. engine_step S w r)"
  by (simp add: state_after_def fold_x_append x_bind_assoc x_bind_return)

section \<open>Properties\<close>

lemma engine_run_drained:
  fixes w :: "('f, 'x, 's) world"
  assumes "collect_all rp = Some (rp', Inr rs)"
  shows "engine_run S w rp =
    x_bind (call_strategy (on_start S) w) (\<lambda>w1.
    x_bind (fold_x (engine_step S) w1 rs) (\<lambda>w2.
    x_bind (call_strategy (on_stop S) w2) (\<lambda>(e, s).
    x_bind (Some (finish e)) (\<lambda>(e', result). ok ((e', s), rp', result)))))"
proof -
  have "run_loop S w1 rp = x_map (\<lambda>w'. (w', rp')) (fold_x (engine_step S) w1 rs)" for w1 :: "('f, 'x, 's) world"
    using run_loop_drained [OF assms [unfolded collect_all_def], where S = S] by (cases w1) auto
  then show ?thesis unfolding engine_run_def by (simp add: x_bind_map)
qed


text \<open>
  C2: the cash of a run is accounted for. At the end of any run that succeeds, the final cash and the
  collateral still posted to isolated positions are the starting cash, plus what the fills of
  instruments that are paid for in full brought after commission, plus the profit booked on the
  positions of the others, less the funding paid, plus the dividends received.
\<close>

theorem cash_is_accounted_for:
  assumes "context_strategy S" and "instruments_ok (b_instruments b)"
    and "engine_run S (engine_build b, s) rp = ok ((e, s'), rp', result)"
  shows "rr_final_cash result + sum_list (map snd (g_isolated_collateral e)) =
    b_starting_cash b + sum_list (map (fill_flow (b_instruments b)) (rr_fills result))
      + booked_profit (b_instruments b) (g_portfolio e) - rr_funding_paid result + rr_dividends_received result"
proof -
  obtain e0 s0 e1 s1 e2 where c0: "call_strategy (on_start S) (engine_build b, s) = ok (e0, s0)"
    and lp: "\<exists>rp'. run_loop S (e0, s0) rp = ok ((e1, s1), rp')"
    and c2: "call_strategy (on_stop S) (e1, s1) = ok (e2, s')" and fin: "finish e2 = Inr (e, result)"
    using assms(3) by (auto simp: engine_run_def result_simps)
  obtain rs where rs: "fold_x (engine_step S) (e0, s0) rs = ok (e1, s1)" using lp run_loop_steps by blast
  have after: "state_after S b s rs = ok (e1, s1)" using c0 rs by (simp add: state_after_def)
  have start: "kernel_inv (b_start b) e0" "account e0 = account (engine_build b)"
    using call_kernel [OF context_strategy.starts [OF assms(1)] build_kernel [OF assms(2)] c0] by auto
  then have "balanced e0" using build_balanced ledger.aside by blast
  then have "balanced e1" using ledger.steps_keep [OF assms(1) start(1) _ rs] by simp
  moreover obtain t where k1: "kernel_inv t e1" and cfg: "g_config e1 = g_config (engine_build b)"
    using state_after_inv [OF assms(1,2) after] by blast
  moreover have "account e2 = account e1" using call_kernel(2) [OF context_strategy.stops [OF assms(1)] k1 c2] .
  ultimately have "balanced e2" "g_config e2 = g_config (engine_build b)"
    using ledger.aside [of e1 e2] by (auto simp: account_def)
  moreover have "core e = core e2 \<and> rr_final_cash result = g_cash e \<and> rr_fills result = g_fills e
      \<and> rr_starting_cash result = k_starting_cash (g_config e) \<and> rr_funding_paid result = g_funding_paid e
      \<and> rr_dividends_received result = g_dividends_received e"
    by (rule finish_result [OF fin])
  ultimately show ?thesis
    by (auto simp: balanced_def core_eq_iff engine_build_def)
qed

text \<open>
  C4: the fills explain the portfolio. In every state of a run without a split, replaying the fills
  booked so far rebuilds exactly the portfolio the engine holds: no position moves without a fill,
  be it a trade, a liquidation, a complete-set leg or the payout of a delisting.
\<close>

theorem fills_explain_the_portfolio:
  assumes "context_strategy S" and "instruments_ok (b_instruments b)" and "state_after S b s rs = ok (e, s')"
    and "\<forall>r \<in> set rs. \<not> splitting r"
  shows "portfolio_replay (g_fills e) = Inr (g_portfolio e)"
  using assms(1-3)
proof (rule state_after_kernel)
  fix e0 s0
  assume e0: "kernel_inv (b_start b) e0" "account e0 = account (engine_build b)"
    "fold_x (engine_step S) (e0, s0) rs = ok (e, s')"
  have "audited e0" using build_audited audit.aside e0(2) by blast
  from audit.steps_keep [OF assms(1) e0(1) this e0(3)] assms(4) show ?thesis by (auto simp: audited_def)
qed

text \<open>When a market is closed: a record has delisted it, or the instant has reached its expiration.\<close>

definition closed :: "instrument_set \<Rightarrow> event_record list \<Rightarrow> instrument_id \<Rightarrow> unix_nanos \<Rightarrow> bool" where
  "closed m rs i ts \<longleftrightarrow> (\<exists>r \<in> set rs. delisting r \<and> e_instrument r = i)
     \<or> (\<exists>ins at. bt_get m i = Some ins \<and> expiration ins = Some at \<and> at \<le> ts)"

lemma state_after_snocE:
  assumes "state_after S b s (rs @ [r]) = ok (e, s')"
  obtains e1 s1 where "state_after S b s rs = ok (e1, s1)" "engine_step S (e1, s1) r = ok (e, s')"
  using assms by (auto simp: state_after_snoc result_simps)

lemma delistings_recorded:
  assumes "context_strategy S" and "instruments_ok (b_instruments b)" and "state_after S b s rs = ok (e, s')"
    and "r \<in> set rs" and "delisting r"
  shows "e_instrument r \<in> set (g_delisted e)"
  using assms(3,4)
proof (induction rs arbitrary: e s' rule: rev_induct)
  case (snoc r1 rs)
  obtain e1 s1 where st: "state_after S b s rs = ok (e1, s1)" "engine_step S (e1, s1) r1 = ok (e, s')"
    using snoc.prems(1) by (rule state_after_snocE)
  obtain t where k: "kernel_inv t e1" using state_after_inv [OF assms(1,2) st(1)] by blast
  note step = step_kernel [OF assms(1) k st(2)]
  from flows_delisted [OF step(2)] step(4) snoc.IH [OF st(1)] snoc.prems(2) assms(5) show ?case by auto
qed simp

lemma closed_stopped:
  assumes "context_strategy S" and "instruments_ok (b_instruments b)" and "state_after S b s rs = ok (e, s')"
    and "stopped_trading e i ts = None"
  shows "\<not> closed (b_instruments b) rs i ts"
proof -
  obtain t where k: "kernel_inv t e" and cfg: "g_config e = g_config (engine_build b)"
    using state_after_inv [OF assms(1-3)] by blast
  from k assms(4) have "i \<notin> set (g_delisted e)" and "\<forall>at. expires e i = Some at \<longrightarrow> ts < at"
    using stopped_iff [of e i ts] by (auto simp: kernel_inv_def)
  with delistings_recorded [OF assms(1-3)] cfg show ?thesis
    by (fastforce simp: closed_def expires_def engine_build_def)
qed


text \<open>
  C5: a print reaches exactly the orders it should, in price and time priority. In every state of a run,
  the orders the index offers to a print on a market are exactly the resting orders of that market and
  side whose limit the print reaches, each once and under its own limit, all of them working on a market
  that still trades; better prices come first, and at one price the earlier order.
\<close>

theorem prints_reach_in_priority:
  assumes "context_strategy S" and "instruments_ok (b_instruments b)" and "state_after S b s rs = ok (e, s')" and "rs \<noteq> []"
  shows "(\<forall>lim i. (lim, i) \<in> set (reached_by_trade (g_resting_index e) key sd price) \<longleftrightarrow>
      i \<in> set (g_resting e) \<and> reaches sd price lim
      \<and> (\<exists>ord. bt_get (g_orders e) i = Some ord \<and> g_key e (o_instrument ord) (o_outcome ord) = key \<and> o_side ord = sd
           \<and> limit_price ord = Some lim \<and> working ord
           \<and> stopped_trading e (o_instrument ord) (record_ts (List.last rs)) = None))
    \<and> sorted_wrt (priority sd) (reached_by_trade (g_resting_index e) key sd price)"
proof -
  have "engine_inv (record_ts (List.last rs)) e"
    using state_after_inv [OF assms(1-3)] assms(4) by (auto simp: kernel_inv_def)
  then have rest: "rest_ok (record_ts (List.last rs)) e" by (rule invD)
  then have wf: "index_wf (g_resting_index e)" by (simp add: rest_ok_def)
  have "(lim, i) \<in> set (reached_by_trade (g_resting_index e) key sd price) \<longleftrightarrow>
      i \<in> set (g_resting e) \<and> reaches sd price lim
      \<and> (\<exists>ord. bt_get (g_orders e) i = Some ord \<and> g_key e (o_instrument ord) (o_outcome ord) = key \<and> o_side ord = sd
           \<and> limit_price ord = Some lim \<and> working ord
           \<and> stopped_trading e (o_instrument ord) (record_ts (List.last rs)) = None)" for lim i
    using rest unfolding set_reached_by_trade [OF wf] by (fastforce simp: rest_ok_def tracks_def place_def)
  with reached_by_trade_priority [OF wf] show ?thesis by blast
qed

text \<open>
  C6: every order knows its fills. In every state of a run each order is filed under its own number,
  what it has filled is the sum of the fills booked under that number, and no fill names an order the
  engine does not hold.
\<close>

theorem orders_know_their_fills:
  assumes "context_strategy S" and "instruments_ok (b_instruments b)" and "state_after S b s rs = ok (e, s')"
  shows "(\<forall>i ord. bt_get (g_orders e) i = Some ord \<longrightarrow>
      o_id ord = i \<and> o_filled ord = sum_list (map f_quantity (filter (\<lambda>f. f_order_id f = i) (g_fills e))))
    \<and> (\<forall>f \<in> set (g_fills e). bt_get (g_orders e) (f_order_id f) \<noteq> None)"
proof -
  obtain t where "engine_inv t e" using state_after_inv [OF assms] by (auto simp: kernel_inv_def)
  then show ?thesis by (auto simp: engine_inv_def ids_ok_def fills_ok_def filled_by_def)
qed

end
