(* ===== verification/Engine_Samples.thy ===== *)
theory Engine_Samples
  imports Engine_Run
begin

text \<open>
  A concrete run of the engine, evaluated by the simplifier, at which the properties of whole runs are
  instantiated: a signal buys two shares of an instrument on its first record and a delisting pays
  them out on its second.
\<close>

section \<open>Evaluating the engine\<close>

text \<open>The definitions a run unfolds to, by layer.\<close>

lemmas values_evaluation =
  and_then_def map_ok_def ok_or_def i64_min_def i64_max_def wrap64_def checked64_def sat64_def SCALE_def
  checked_add_def checked_sub_def fixed_abs_def narrow_def notional_def stamps_immediate_def bt_remove_def
  pq_push_def clock_new_def advance_to_def event_record_new_def record_ts_def x_bind_def x_map_def
  bs_insert_def slots_add_def slots_build_def slots_resolve_def slots_key_def slots_name_def ri_remove_def
  crossing_top_def

lemmas market_evaluation =
  book_new_def apply_snapshot_def best_bid_def best_ask_def mid_def acceptable_def visit_def walk_def
  filled_def order_new_def remaining_def is_open_def limit_price_def record_fill_def position_new_def
  is_flat_def reprice_def position_apply_def unrealized_pnl_def exposure_def portfolio_new_def fill_key_def
  portfolio_apply_def portfolio_step_def open_positions_def portfolio_realized_pnl_def portfolio_commissions_def outcome_count_def
  outcome_ids_def outcome_def check_outcome_def set_get_def set_ids_def no_fees_def nothing_closed_def
  no_latency_def default_fill_model_def book_fills_def simulated_execution_new_def sim_send_def

lemmas client_evaluation =
  DEFAULT_EQUITY_INTERVAL_NANOS_def request_market_def metrics_default_def metrics_record_def
  risk_limits_default_def ctx_submit_tracked_def ctx_submit_def strategy_default_def no_strategy_def
  make_context_def with_context_def no_fee_model_def simulated_client_def engine_builder_new_def
  builder_starting_cash_def expiries_of_def engine_build_def signal_on_event_def signal_strategy_def
  signal_on_stop_def

lemmas admission_evaluation =
  set_order_def remove_resting_def order_is_open_def has_expired_def stopped_trading_def order_refusal_def
  naked_short_rejection_def risk_order_quantity_def risk_open_orders_def risk_rejection_def send_command_def
  push_inflight_def accept_def pop_command_def drain_commands_def call_strategy_def would_self_trade_def
  crossing_price_def rebalance_isolated_def engine_margin_state_def can_fund_def funded_or_unknown_def
  equity_entry_def sample_marks_def push_equity_def sample_equity_def

lemmas matching_evaluation =
  order_fill_def cash_after_fill_def fee_closed_def apply_fill_def book_fill_def execute_def
  wanted_quantity_def effective_book_def execute_all_def try_fill_def matching_candidates_def
  match_resting_def venue_order_def closing_side_def check_liquidation_def isolated_calls_def
  check_isolated_liquidation_def

lemmas loop_evaluation =
  set_book_mark_def delist_close_def apply_corporate_action_def g_book_at_def put_book_def apply_event_def
  remark_def apply_to_books_def expire_due_def parked_fires_def arm_triggers_def work_twaps_def
  enter_book_def arrive_order_def arrive_def release_inflight_def advance_clock_def venue_step_def
  count_record_def engine_step_def state_after_def finish_def final_counts_def last_equity_ts_def
  run_result_of_def

text \<open>
  Evaluation is by value: the simplifier rewrites what a bind waits for, and only then the
  continuation it selects.
\<close>

lemma x_bind_weak: "m = m' \<Longrightarrow> x_bind m f = x_bind m' f" by simp

lemma and_then_weak: "m = m' \<Longrightarrow> and_then m f = and_then m' f" by simp

lemma x_map_weak: "m = m' \<Longrightarrow> x_map f m = x_map f m'" by simp

lemma advance_idle: "timers c = [] \<Longrightarrow> advance_loop ts c fired = Some (c, fired)"
  by (subst advance_loop.simps) simp

lemmas run_evaluation = values_evaluation market_evaluation client_evaluation admission_evaluation
  matching_evaluation loop_evaluation advance_idle Let_def int_range map_filter_simps sample_record_def

section \<open>The sample run\<close>

definition share :: instrument where
  "share = \<lparr>i_id = ''X'', venue = ''V'', i_kind = Spot, outcomes = [''-''], tick_size = 10000000, lot_size = 1000000,
     settlement_currency = ''USDC'', expiration = Some 100, settlement_observable = None, neg_risk = False, price_rule = Tick\<rparr>"

definition demo_builder :: "(unit, simulated_execution) engine_builder" where
  "demo_builder = builder_starting_cash (engine_builder_new [(''X'', share)]) 1000000000000"

definition demo_signals :: signal_replay where
  "demo_signals = \<lparr>sr_intents = [(1, request_market ''X'' 0 Buy 2000000000)], sr_undelivered = 0\<rparr>"

definition demo_records :: "event_record list" where
  "demo_records = [sample_record 1 (BookSnapshot [(9000000000, 5000000000)] [(10000000000, 5000000000)]),
     sample_record 2 (Corporate (Delist 11000000000))]"

lemmas demo_evaluation = demo_builder_def demo_signals_def demo_records_def share_def

lemma demo_instruments: "instruments_ok (b_instruments demo_builder)"
  by (simp add: demo_builder_def share_def engine_builder_new_def builder_starting_cash_def instruments_ok_def bt_wf_def)

lemma demo_state:
  "case x_bind (state_after signal_strategy demo_builder demo_signals demo_records) (\<lambda>w.
      x_bind (call_strategy (on_stop signal_strategy) w) (\<lambda>(e, s). Some (finish e))) of
     Some (Inr (e, result)) \<Rightarrow> length (g_fills e) = 2 \<and> rr_final_cash result = 1002000000000
   | _ \<Rightarrow> False"
  by (simp add: run_evaluation demo_evaluation cong: x_bind_weak and_then_weak x_map_weak)

text \<open>The replay of the sample records, and the run over it.\<close>

lemma demo_replay:
  obtains rp rp' where "build (vec_builder [(''records'', 0, demo_records)]) = Inr rp"
    and "collect_all rp = Some (rp', Inr demo_records)"
proof -
  have "map snd (sort_key fst (all_tags 0 (vec_builder [(''records'', 0, demo_records)]))) = demo_records"
    by (simp add: demo_records_def vec_builder_def less_eq_prod_simp)
  moreover have "\<forall>(name, p, rs) \<in> set [(''records'', 0, demo_records)]. sorted (map record_ts rs)"
    by (simp add: demo_records_def)
  ultimately show thesis using collect_merged [of "[(''records'', 0, demo_records)]"] that by auto
qed

lemma demo_run:
  obtains e1 s1 e s e' result where "state_after signal_strategy demo_builder demo_signals demo_records = ok (e1, s1)"
    and "call_strategy (on_stop signal_strategy) (e1, s1) = ok (e, s)" and "finish e = Inr (e', result)"
    and "length (g_fills e1) = 2" and "rr_final_cash result = 1002000000000"
proof -
  obtain e1 s1 e s e' result where st: "state_after signal_strategy demo_builder demo_signals demo_records = ok (e1, s1)"
    and c: "call_strategy (on_stop signal_strategy) (e1, s1) = ok (e, s)" and fin: "finish e = Inr (e', result)"
    and "length (g_fills e') = 2" and "rr_final_cash result = 1002000000000"
    using demo_state by (auto simp: result_simps split: option.splits sum.splits)
  moreover obtain t where "kernel_inv t e1"
    using state_after_inv [OF signals.context_strategy_axioms demo_instruments st] by blast
  then have "account e = account e1" using call_kernel(2) [OF signals.stops _ c] by blast
  with finish_result [OF fin] have "g_fills e1 = g_fills e'" by (simp add: core_eq_iff account_def)
  ultimately show thesis using that by metis
qed

section \<open>The properties of runs at the sample run\<close>


lemma cash_is_accounted_for_witness:
  "\<exists>rp e s rp' result. build (vec_builder [(''records'', 0, demo_records)]) = Inr rp
    \<and> engine_run signal_strategy (engine_build demo_builder, demo_signals) rp = ok ((e, s), rp', result)
    \<and> rr_final_cash result = 1002000000000
    \<and> rr_final_cash result + sum_list (map snd (g_isolated_collateral e)) =
      b_starting_cash demo_builder + sum_list (map (fill_flow (b_instruments demo_builder)) (rr_fills result))
        + booked_profit (b_instruments demo_builder) (g_portfolio e) - rr_funding_paid result + rr_dividends_received result"
proof -
  obtain rp rp' where rp: "build (vec_builder [(''records'', 0, demo_records)]) = Inr rp"
    "collect_all rp = Some (rp', Inr demo_records)" by (rule demo_replay)
  obtain e1 s1 e s e' result where r: "state_after signal_strategy demo_builder demo_signals demo_records = ok (e1, s1)"
    "call_strategy (on_stop signal_strategy) (e1, s1) = ok (e, s)" "finish e = Inr (e', result)"
    "rr_final_cash result = 1002000000000" by (rule demo_run)
  have "engine_run signal_strategy (engine_build demo_builder, demo_signals) rp = ok ((e', s), rp', result)"
    using r by (auto simp: engine_run_drained [OF rp(2)] state_after_def result_simps)
  with cash_is_accounted_for [OF signals.context_strategy_axioms demo_instruments this] rp r show ?thesis by blast
qed

lemma fills_explain_the_portfolio_witness:
  "\<exists>e s. state_after signal_strategy demo_builder demo_signals demo_records = ok (e, s) \<and> length (g_fills e) = 2
    \<and> portfolio_replay (g_fills e) = Inr (g_portfolio e)"
proof -
  have "\<forall>r \<in> set demo_records. \<not> splitting r"
    by (simp add: demo_records_def sample_record_def splitting_def event_record_new_def)
  with fills_explain_the_portfolio [OF signals.context_strategy_axioms demo_instruments] show ?thesis
    by (rule_tac demo_run) blast
qed


lemma orders_know_their_fills_witness:
  "\<exists>e s. state_after signal_strategy demo_builder demo_signals demo_records = ok (e, s) \<and> length (g_fills e) = 2
    \<and> (\<forall>i ord. bt_get (g_orders e) i = Some ord \<longrightarrow>
        o_id ord = i \<and> o_filled ord = sum_list (map f_quantity (filter (\<lambda>f. f_order_id f = i) (g_fills e))))
    \<and> (\<forall>f \<in> set (g_fills e). bt_get (g_orders e) (f_order_id f) \<noteq> None)"
  by (rule demo_run) (use orders_know_their_fills [OF signals.context_strategy_axioms demo_instruments] in blast)

section \<open>A run that leaves an order resting\<close>

definition patient_signals :: signal_replay where
  "patient_signals = \<lparr>sr_intents = [(1, request_limit ''X'' 0 Buy 8000000000 2000000000)], sr_undelivered = 0\<rparr>"

lemma patient_state:
  "case state_after signal_strategy demo_builder patient_signals (take 1 demo_records) of
     Some (Inr (e, s)) \<Rightarrow> g_resting e = [1] \<and> reached_by_trade (g_resting_index e) 0 Buy 7000000000 = [(8000000000, 1)]
   | _ \<Rightarrow> False"
  by (simp add: run_evaluation demo_evaluation patient_signals_def request_limit_def check_price_def is_ok_def no_liquidity_def time_in_force_rule_def
      add_resting_def join_queue_def ri_insert_def reached_by_trade_def level_ids_def ql_empty_def ql_side_def ql_set_def
      cong: x_bind_weak and_then_weak x_map_weak)

lemma prints_reach_in_priority_witness:
  "\<exists>e s. state_after signal_strategy demo_builder patient_signals (take 1 demo_records) = ok (e, s)
    \<and> reached_by_trade (g_resting_index e) 0 Buy 7000000000 = [(8000000000, 1)]
    \<and> (\<exists>ord. bt_get (g_orders e) 1 = Some ord \<and> o_side ord = Buy \<and> limit_price ord = Some 8000000000 \<and> working ord)"
proof -
  obtain e s where st: "state_after signal_strategy demo_builder patient_signals (take 1 demo_records) = ok (e, s)"
    and one: "reached_by_trade (g_resting_index e) 0 Buy 7000000000 = [(8000000000, 1)]"
    using patient_state by (auto split: option.splits sum.splits)
  have "take 1 demo_records \<noteq> []" by (simp add: demo_records_def)
  from prints_reach_in_priority [OF signals.context_strategy_axioms demo_instruments st this, of 0 Buy 7000000000] one
  have "\<exists>ord. bt_get (g_orders e) 1 = Some ord \<and> o_side ord = Buy \<and> limit_price ord = Some 8000000000 \<and> working ord"
    by (metis list.set_intros(1))
  with st one show ?thesis by blast
qed

end
