(* ===== verification/Engine_Total.thy ===== *)
theory Engine_Total
  imports Engine_Samples
begin

text \<open>
  The engine never panics. The only lookups it makes without a fallback are of orders it has just
  found or created; no operation forgets an order, so the lookups succeed. With strategies whose
  callbacks return and timers that fire once, every step of a run, and so every run over a replay that
  drains, ends with a result or an error value.
\<close>

section \<open>Orders are never forgotten\<close>

definition known :: "('f, 'x) engine \<Rightarrow> order_id set" where
  "known e = set (bt_keys (g_orders e))"

lemma known_get: "bt_get (g_orders e) i = None \<longleftrightarrow> i \<notin> known e"
  using bt_get_keys [of "g_orders e" i] by (auto simp: known_def)

lemma known_fields [simp]:
  "known (g_portfolio_update u0 e) = known e" "known (g_cash_update u1 e) = known e"
  "known (g_isolated_collateral_update u2 e) = known e" "known (g_fills_update u3 e) = known e"
  "known (g_fee_state_update u4 e) = known e" "known (g_execution_update u5 e) = known e"
  "known (g_inflight_update u6 e) = known e" "known (g_sequence_update u7 e) = known e"
  "known (g_live_orders_update u8 e) = known e" "known (g_twaps_update u9 e) = known e"
  "known (g_commands_update u10 e) = known e" "known (g_forecasts_update u11 e) = known e"
  "known (g_next_order_id_update u12 e) = known e" "known (g_clock_update u13 e) = known e"
  "known (g_queue_ahead_update u14 e) = known e" "known (g_resting_update u15 e) = known e"
  "known (g_resting_index_update u16 e) = known e" "known (g_metrics_update u17 e) = known e"
  "known (g_set_operations_update u18 e) = known e" "known (g_liquidations_update u19 e) = known e"
  by (simp_all add: known_def)

lemma known_set_order [simp]: "known (set_order i ord e) = insert i (known e)"
  by (simp add: known_def set_order_def set_keys_insert del: set_map)

lemma known_moves [simp]:
  "known (remove_resting i e) = known e" "known (join_queue ord e) = known e" "known (add_resting ord e) = known e"
  "known (push_inflight a e) = known e" "known (fee_closed i e) = known e"
  "known (requeue i upd slot b e) = known e"
  by (auto simp: remove_resting_def join_queue_def add_resting_def push_inflight_def fee_closed_def
      requeue_def Let_def split: option.splits)

lemma known_reject [simp]: "known (reject_order ord reason e) = insert (o_id ord) (known e)"
  by (simp add: reject_order_def)

lemma known_rebalance: "rebalance_isolated e i = Inr e' \<Longrightarrow> known e' = known e"
  by (auto dest: rebalance_isolated_fields)

lemma known_send: "send_command cmd e = Inr e' \<Longrightarrow> known e' = known e"
  by (auto simp: send_command_def result_simps split: prod.splits)

lemma known_accept: "accept e i rq = Inr e' \<Longrightarrow> known e \<subseteq> known e'"
  by (auto simp: accept_def Let_def result_simps dest!: known_send split: option.splits)

lemma known_amend:
  assumes "amend e i quantity lim = Inr e'"
  shows "known e \<subseteq> known e'"
proof (cases "\<exists>ord. bt_get (g_orders e) i = Some ord \<and> is_open ord")
  case False
  with assms have "e' = e" by (auto simp: amend_def split: option.splits if_splits)
  then show ?thesis by simp
next
  case True
  then obtain ord where "bt_get (g_orders e) i = Some ord" "is_open ord" by blast
  with assms obtain upd loses slot e3 where
    e3: "send_command (Amend i quantity lim) (bump (\<lambda>m. m\<lparr>orders_amended := orders_amended m + 1\<rparr>) (set_order i upd
        (if loses \<and> i \<in> set (g_resting e) then e\<lparr>g_resting_index := ri_remove (g_resting_index e) ord slot\<rparr> else e))) = Inr e3"
    and e': "e' = (if loses then requeue i upd slot (i \<in> set (g_resting e)) e3 else e3)"
    by (auto simp: amend_def Let_def result_simps)
  from known_send [OF e3] e' show ?thesis by (auto split: if_splits)
qed

lemma known_cancel: "cancel_order e i = Inr e' \<Longrightarrow> known e \<subseteq> known e'"
  unfolding cancel_order_def by (cases "bt_get (g_orders e) i") (auto dest: known_send split: if_splits)

lemma known_twap: "start_twap e rq = Inr e' \<Longrightarrow> known e \<subseteq> known e'"
  by (auto simp: start_twap_def reject_twap_def Let_def result_simps split: option.splits)

lemma known_command: "handle_command e cmd = Inr e' \<Longrightarrow> known e \<subseteq> known e'"
  by (cases cmd) (auto dest: known_accept known_amend known_cancel known_twap simp: queue_set_operation_def)

lemma known_commands:
  "fold_r (\<lambda>e cmd. handle_command (pop_command e) cmd) e cmds = Inr e' \<Longrightarrow> known e \<subseteq> known e'"
proof (induction cmds arbitrary: e)
  case (Cons cmd cmds)
  then obtain e1 where "handle_command (pop_command e) cmd = Inr e1" "known e1 \<subseteq> known e'" by (auto simp: result_simps)
  with known_command [of "pop_command e" cmd e1] show ?case by (auto simp: pop_command_def)
qed simp

lemma known_call: "call_strategy callback (e, s) = ok (e', s') \<Longrightarrow> known e \<subseteq> known e'"
  by (auto simp: call_strategy_def with_context_def drain_commands_def result_simps dest!: known_commands)

lemma known_apply_fill: "apply_fill e i ord ft ts = Inr e' \<Longrightarrow> known e' = insert i (known e)"
  by (auto simp: apply_fill_def Let_def result_simps dest!: known_rebalance split: if_splits)

lemma known_book_fill: "book_fill S (e, s) i ft ts = ok (e', s') \<Longrightarrow> known e \<subseteq> known e'"
  by (auto simp: book_fill_def result_simps split: option.splits dest!: known_apply_fill known_call)

lemma known_execute:
  assumes "execute S (e, s) i price quantity tk ts = ok (e', s')"
  shows "known e \<subseteq> known e'"
proof -
  obtain st ft where "book_fill S (e\<lparr>g_fee_state := st\<rparr>, s) i ft ts = ok (e', s')"
    using assms by (auto simp: execute_def Let_def case_prod_beta result_simps split: option.splits)
  from known_book_fill [OF this] show ?thesis by simp
qed

lemma known_venue_order: "venue_order e i oc sd quantity reduce tag ts = Inr (e', n) \<Longrightarrow> known e' = insert n (known e)"
  by (auto simp: venue_order_def Let_def result_simps)

section \<open>Calls that return\<close>

definition returns :: "'a exec \<Rightarrow> bool" where
  "returns m \<longleftrightarrow> m \<noteq> None"

named_theorems returns_intros \<open>calls that end with a value or an error\<close>

lemma returns_value [returns_intros]: "returns (Some r)"
  by (simp add: returns_def)

lemma returns_bind [returns_intros]:
  "returns m \<Longrightarrow> (\<And>x. m = ok x \<Longrightarrow> returns (f x)) \<Longrightarrow> returns (x_bind m f)"
  by (auto simp: returns_def x_bind_panic_iff)

lemma returns_map [returns_intros]: "returns m \<Longrightarrow> returns (x_map f m)"
  by (simp add: returns_def)

lemma returns_if [returns_intros]: "(b \<Longrightarrow> returns m) \<Longrightarrow> (\<not> b \<Longrightarrow> returns m') \<Longrightarrow> returns (if b then m else m')"
  by simp

lemma returns_prod [returns_intros]: "(\<And>x y. p = (x, y) \<Longrightarrow> returns (f x y)) \<Longrightarrow> returns (case p of (x, y) \<Rightarrow> f x y)"
  by (cases p) simp

lemma returns_prod_fun [returns_intros]:
  "(\<And>x y. p = (x, y) \<Longrightarrow> returns (f x y z)) \<Longrightarrow> returns ((case p of (x, y) \<Rightarrow> f x y) z)"
  by (cases p) simp

lemma returns_option [returns_intros]:
  "(q = None \<Longrightarrow> returns m) \<Longrightarrow> (\<And>x. q = Some x \<Longrightarrow> returns (f x)) \<Longrightarrow> returns (case q of None \<Rightarrow> m | Some x \<Rightarrow> f x)"
  by (cases q) simp_all

lemma returns_fold:
  "R s \<Longrightarrow> (\<And>s x s'. R s \<Longrightarrow> f s x = ok s' \<Longrightarrow> R s') \<Longrightarrow> (\<And>s x. R s \<Longrightarrow> returns (f s x)) \<Longrightarrow> returns (fold_x f s xs)"
  unfolding returns_def by (rule fold_x_no_panic [where R = R]) auto

lemma returns_loop [returns_intros]: "(\<And>s x. returns (f s x)) \<Longrightarrow> returns (fold_x f s xs)"
  by (rule returns_fold [where R = "\<lambda>_. True"]) auto

lemma returns_call: "(\<And>s c. returns (callback s c)) \<Longrightarrow> returns (call_strategy callback w)"
  unfolding call_strategy_def with_context_def by (intro returns_intros)

text \<open>
  Matching assumes nothing of the strategy but that it hears of a fill without panicking.
\<close>

definition hears_fills :: "'s strategy \<Rightarrow> bool" where
  "hears_fills S \<longleftrightarrow> (\<forall>s c f. returns (on_fill S s c f))"

lemma book_fill_returns: "hears_fills S \<Longrightarrow> i \<in> known e \<Longrightarrow> returns (book_fill S (e, s) i ft ts)"
  unfolding book_fill_def by (auto intro!: returns_intros returns_call simp: hears_fills_def known_get)

lemma execute_returns: "hears_fills S \<Longrightarrow> i \<in> known e \<Longrightarrow> returns (execute S (e, s) i price quantity tk ts)"
  unfolding execute_def Let_def by (auto intro!: returns_intros book_fill_returns simp: known_get)

lemma execute_all_returns:
  "hears_fills S \<Longrightarrow> i \<in> known e \<Longrightarrow> returns (execute_all S i tk ts (e, s) fills)"
  unfolding execute_all_def
  by (rule returns_fold [where R = "\<lambda>w. i \<in> known (fst w)"])
     (auto intro: execute_returns dest!: known_execute)

lemma known_execute_all:
  assumes "execute_all S i tk ts (e, s) fills = ok (e', s')" and "i \<in> known e"
  shows "i \<in> known e'"
proof -
  have "i \<in> known (fst (e', s'))"
    using assms(1) unfolding execute_all_def
    by (rule fold_x_induct [where R = "\<lambda>w. i \<in> known (fst w)"]) (auto simp: assms(2) dest!: known_execute)
  then show ?thesis by simp
qed

lemma try_fill_returns:
  fixes w :: "('f, 'x, 's) world"
  assumes "hears_fills S"
  shows "returns (try_fill S w i ts)"
proof -
  obtain e s where w: "w = (e, s)" by (cases w)
  show ?thesis
  proof (cases "bt_get (g_orders e) i")
    case (Some ord)
    then have i: "i \<in> known e" using known_get [of e i] by auto
    have "returns (x_bind (execute_all S i tk ts (e, s) fills) (\<lambda>(e1, s1). case bt_get (g_orders e1) i of
        None \<Rightarrow> None | Some ord1 \<Rightarrow> ok (f e1 ord1, s1)))" for tk fills and f :: "('f, 'x) engine \<Rightarrow> order \<Rightarrow> ('f, 'x) engine"
      by (intro returns_intros execute_all_returns assms i) (auto dest!: known_execute_all simp: i known_get)
    with Some show ?thesis by (auto intro!: returns_intros simp: try_fill_def w Let_def)
  qed (simp add: try_fill_def w returns_value)
qed

section \<open>Every step returns\<close>

lemma match_returns: "hears_fills S \<Longrightarrow> returns (match_resting S w r key)"
  unfolding match_resting_def Let_def by (intro returns_intros try_fill_returns)

lemma consume_returns: "hears_fills S \<Longrightarrow> returns (consume_eligible S ts w rem elig)"
proof (induction elig arbitrary: w rem)
  case (Cons x elig)
  obtain lim i where x: "x = (lim, i)" by (cases x)
  obtain e s where w: "w = (e, s)" by (cases w)
  have "0 < (case bt_get (g_orders e1) i of None \<Rightarrow> 0 | Some ord \<Rightarrow> remaining ord) \<Longrightarrow> i \<in> known e1" for e1
    using known_get [of e1 i] by (auto split: option.splits)
  then have "i \<in> known e" if "0 < (case bt_get (g_orders e) i of None \<Rightarrow> 0 | Some ord \<Rightarrow> remaining ord)" using that .
  with Cons show ?case
    unfolding x w consume_eligible.simps Let_def prod.case
    by (auto intro!: returns_intros execute_returns)
qed (simp add: returns_value)

lemma consume_queue_returns: "hears_fills S \<Longrightarrow> returns (consume_queue S w r price sz aggressor)"
  unfolding consume_queue_def consume_queue_side_def Let_def by (intro returns_intros consume_returns)

lemma set_leg_returns: "hears_fills S \<Longrightarrow> returns (set_leg S ins sd sets cost tag ts acc leg)"
  unfolding set_leg_def by (intro returns_intros book_fill_returns) (auto dest!: known_venue_order)

lemma run_set_returns: "hears_fills S \<Longrightarrow> returns (run_set_operation S w rq ts)"
  unfolding run_set_operation_def perform_set_operation_def Let_def by (intro returns_intros set_leg_returns)

lemma liquidate_returns: "hears_fills S \<Longrightarrow> returns (liquidate S tag w i oc q mark equity maintenance ts)"
  unfolding liquidate_def Let_def by (intro returns_intros try_fill_returns)

lemma close_doomed_returns: "hears_fills S \<Longrightarrow> returns (close_doomed S state ts w doomed)"
proof (induction doomed arbitrary: w)
  case (Cons d doomed)
  note IH = Cons.IH [OF Cons.prems]
  obtain i oc q req where d: "d = (i, oc, q, req)" by (cases d)
  show ?case
    unfolding d close_doomed.simps Let_def by (intro returns_intros liquidate_returns IH Cons.prems)
qed (simp add: returns_value)

lemma check_liquidation_returns: "hears_fills S \<Longrightarrow> returns (check_liquidation S w ts)"
  unfolding check_liquidation_def by (intro returns_intros close_doomed_returns)

lemma check_isolated_returns: "hears_fills S \<Longrightarrow> returns (check_isolated_liquidation S w ts)"
  unfolding check_isolated_liquidation_def close_isolated_def by (intro returns_intros liquidate_returns)

lemma delist_returns: "returns (delist_close final_price ts e p)"
  unfolding delist_close_def
  by (intro returns_intros execute_returns) (auto simp: hears_fills_def no_strategy_def strategy_default_def returns_value dest!: known_venue_order)

lemma books_return: "returns (apply_to_books e r key)"
proof -
  have "returns (apply_event e r key)" for e :: "('a, 'b) engine"
    unfolding apply_event_def apply_corporate_action_def Let_def
    by (cases "e_event r") (auto intro!: returns_intros delist_returns split: corporate_action.split)
  then show ?thesis unfolding apply_to_books_def by (intro returns_intros)
qed

lemma triggers_return: "hears_fills S \<Longrightarrow> returns (arm_triggers S w ts)"
  unfolding arm_triggers_def arm_one_def Let_def by (intro returns_intros try_fill_returns)

lemma twaps_return: "hears_fills S \<Longrightarrow> returns (work_twaps S w ts)"
  unfolding work_twaps_def twap_child_def by (intro returns_intros try_fill_returns)

lemma enter_returns: "hears_fills S \<Longrightarrow> returns (enter_book S ts w ord)"
  unfolding enter_book_def by (intro returns_intros try_fill_returns)

lemma arrive_returns: "hears_fills S \<Longrightarrow> returns (arrive S ts w action)"
  unfolding arrive_def arrive_order_def
  by (cases action) (auto intro!: returns_intros run_set_returns enter_returns)

lemma release_returns: "hears_fills S \<Longrightarrow> returns (release_inflight S w ts)"
  unfolding release_inflight_def by (intro returns_intros arrive_returns)

lemma venue_returns:
  assumes "total_strategy S" and "one_shot (g_clock e)"
  shows "returns (venue_step S (e, s) r)"
proof -
  have S: "hears_fills S" using total_strategy.fill_returns [OF assms(1)] by (simp add: hears_fills_def returns_def)
  have "returns (advance_clock S (e, s) ts)" for ts
    unfolding advance_clock_def prod.case
    using advance_to_one_shot(1) [OF assms(2)] total_strategy.timer_returns [OF assms(1)]
    by (intro returns_intros returns_call) (simp_all only: returns_def not_False_eq_True)
  then show ?thesis
    unfolding venue_step_def Let_def
    by (intro returns_intros books_return match_returns check_liquidation_returns check_isolated_returns triggers_return
        twaps_return S) (auto intro!: returns_intros consume_queue_returns S split: market_event.splits)
qed

lemma step_returns:
  assumes "total_strategy S" and "kernel_inv t e"
  shows "returns (engine_step S (e, s) r)"
proof -
  have "one_shot (g_clock e)" using assms(2) by (simp add: kernel_inv_def engine_inv_def)
  moreover have "hears_fills S"
    using total_strategy.fill_returns [OF assms(1)] by (simp add: hears_fills_def returns_def)
  moreover have "returns (call_strategy (\<lambda>st c. on_event S st c r) w)" for w
    by (rule returns_call) (simp only: returns_def total_strategy.event_returns [OF assms(1)] not_False_eq_True)
  ultimately show ?thesis
    unfolding engine_step_def by (intro returns_intros venue_returns release_returns assms(1))
qed

lemma steps_return:
  assumes "total_strategy S" and "kernel_inv t e"
  shows "returns (fold_x (engine_step S) (e, s) rs)"
  using assms(2)
proof (induction rs arbitrary: t e s)
  case (Cons r rs)
  have ctx: "context_strategy S" using assms(1) by (simp add: total_strategy_def)
  have "returns (fold_x (engine_step S) w rs)" if "engine_step S (e, s) r = ok w" for w
  proof -
    obtain e1 s1 where w: "w = (e1, s1)" by (cases w)
    from step_kernel(1) [OF ctx Cons.prems that [unfolded w]] Cons.IH show ?thesis by (simp add: w)
  qed
  then show ?case using step_returns [OF assms(1) Cons.prems] by (auto intro: returns_bind)
qed (simp add: returns_value)

text \<open>A loop over a replay that drains, to its records or to an error, returns when the steps do.\<close>

lemma run_loop_returns:
  fixes S :: "'s strategy" and e :: "('f, 'x) engine"
  assumes "total_strategy S" and "kernel_inv t e" and "collect_loop rp out = Some (rp', res)"
  shows "returns (run_loop S (e, s) rp)"
proof -
  obtain rs where "case res of
      Inr records \<Rightarrow> records = out @ rs \<and> (\<forall>w :: ('f, 'x, 's) world. run_loop S w rp = x_map (\<lambda>w'. (w', rp')) (fold_x (engine_step S) w rs))
    | Inl err \<Rightarrow> (\<forall>w :: ('f, 'x, 's) world. run_loop S w rp = x_bind (fold_x (engine_step S) w rs) (\<lambda>_. Some (Inl err)))"
    using run_loop_drained [OF assms(3)] by blast
  then show ?thesis
    using steps_return [OF assms(1,2), of s rs] by (cases res) (auto intro: returns_intros)
qed

text \<open>
  C1: a run never panics. From any engine a builder builds, with any strategy whose callbacks return and
  act through their context, over any replay that was built, however its sources fail or go backwards,
  the run ends: with a result or with an error value.
\<close>

theorem runs_never_panic:
  fixes S :: "'s strategy" and b :: "('f, 'x) engine_builder"
  assumes "total_strategy S" and "instruments_ok (b_instruments b)" and "build sources = Inr rp"
  shows "engine_run S (engine_build b, s) rp \<noteq> None"
proof -
  have ctx: "context_strategy S" using assms(1) by (simp add: total_strategy_def)
  obtain rp' res where drains: "collect_loop rp [] = Some (rp', res)"
    using collect_total [of rp "[]"] build_Inr [OF assms(3)] by blast
  have start: "returns (call_strategy (on_start S) w)" "returns (call_strategy (on_stop S) w)" for w :: "('f, 'x, 's) world"
    by (rule returns_call, simp only: returns_def total_strategy.start_returns [OF assms(1)]
      total_strategy.stop_returns [OF assms(1)] not_False_eq_True)+
  have loop: "returns (run_loop S (e, s1) rp)" if "call_strategy (on_start S) (engine_build b, s) = ok (e, s1)" for e s1
    using call_kernel(1) [OF context_strategy.starts [OF ctx] build_kernel [OF assms(2)] that]
      run_loop_returns [OF assms(1) _ drains] by blast
  have "returns (engine_run S (engine_build b, s) rp)"
    unfolding engine_run_def
  proof (intro returns_intros start)
    show "returns (run_loop S w1 rp)" if "call_strategy (on_start S) (engine_build b, s) = ok w1" for w1
      using loop that by (cases w1) simp
  qed
  then show ?thesis by (simp add: returns_def)
qed

lemma runs_never_panic_witness:
  "\<exists>rp. build (vec_builder [(''records'', 0, demo_records)]) = Inr rp
    \<and> engine_run signal_strategy (engine_build demo_builder, demo_signals) rp \<noteq> None"
  by (rule demo_replay) (use runs_never_panic [OF signals.total_strategy_axioms demo_instruments] in blast)

end
