(* ===== verification/Store_Types.thy ===== *)
theory Store_Types
  imports Containers
begin

text \<open>
  The data of the versioned store (\<open>crates/h5i-db-core/src\<close>): errors, schemas and table
  specifications (\<open>spec.rs\<close>), segments, version manifests and heads (\<open>manifest.rs\<close>), catalog
  entries (\<open>catalog.rs\<close>), snapshots (\<open>snapshot.rs\<close>), retention floors (\<open>retention.rs\<close>), forks and
  their catalog (\<open>fork.rs\<close>), the transaction journal (\<open>transaction.rs\<close>) and the mutation policy
  (\<open>policy.rs\<close>). Serialisation and hashing are third-party code and enter as the fields of a
  \<open>codec\<close>; sequence numbers and sizes are natural numbers, timestamps integers.
\<close>

section \<open>Errors\<close>

type_synonym uuid = string

datatype store_error =
    DatabaseNotFound
  | DatabaseExists
  | TableNotFound string
  | TableExists string
  | VersionNotFound string
  | SnapshotNotFound string
  | VersionConflict string nat nat
  | ForkNotFound string
  | ForkExists string
  | PromoteConflict string string nat nat bool
  | SchemaMismatch string
  | SortOrderViolation string
  | InvalidInput string
  | Unsupported string
  | ReadOnly string
  | PolicyViolation string
  | DataPolicyViolation string
  | Corruption string
  | FormatTooNew nat nat
  | LimitExceeded string
  | Internal string
  | ArrowError string
  | ParquetError string
  | ObjectStoreError string
  | Crashed

type_synonym 'a sres = "store_error + 'a"

text \<open>The code of an error that a retry can clear.\<close>

fun is_conflict :: "store_error \<Rightarrow> bool" where
  "is_conflict (VersionConflict _ _ _) = True"
| "is_conflict _ = False"

section \<open>Schemas and specifications\<close>

text \<open>The Arrow types the store distinguishes; the rest only by their name.\<close>

datatype data_type =
    Int8 | Int16 | Int32 | Int64
  | UInt8 | UInt16 | UInt32 | UInt64
  | Float32 | Float64
  | Timestamp string
  | Date32 | Date64
  | Time32 string | Time64 string | Duration string
  | Boolean
  | Utf8 | LargeUtf8
  | Dictionary data_type data_type
  | Decimal128 nat int
  | OtherType string

record field =
  fd_name :: string
  fd_type :: data_type
  fd_nullable :: bool

type_synonym schema = "field list"

definition field_with_name :: "schema \<Rightarrow> string \<Rightarrow> field option" where
  "field_with_name sch name = List.find (\<lambda>f. fd_name f = name) sch"

datatype compression = Zstd | Lz4 | Snappy | Uncompressed

record storage_options =
  target_segment_bytes :: nat
  target_row_group_bytes :: nat
  so_codec :: compression
  bloom_filter_columns :: "string list"

definition storage_options_default :: storage_options where
  "storage_options_default =
     \<lparr>target_segment_bytes = 128 * 1024 * 1024, target_row_group_bytes = 32 * 1024 * 1024,
      so_codec = Zstd, bloom_filter_columns = []\<rparr>"

definition SEGMENT_COUNT_HARD_DEFAULT :: nat where
  "SEGMENT_COUNT_HARD_DEFAULT = 4096"

record table_options =
  to_time_column :: "string option"
  to_sort_key :: "string list"
  to_storage :: storage_options
  to_max_segments :: "nat option"

record table_spec =
  tsp_table_id :: uuid
  tsp_name :: string
  tsp_schema_revision :: nat
  tsp_schema :: schema
  tsp_time_column :: "string option"
  tsp_sort_key :: "string list"
  tsp_storage :: storage_options
  tsp_max_segments :: nat
  tsp_created_at_ns :: int
  tsp_checksum :: string

text \<open>The position of a name, as Arrow's \<open>Schema::index_of\<close> finds it.\<close>

fun index_of :: "schema \<Rightarrow> string \<Rightarrow> nat option" where
  "index_of [] name = None"
| "index_of (f # fs) name = (if fd_name f = name then Some 0 else map_option Suc (index_of fs name))"

section \<open>Columns and batches\<close>

datatype cell = Null | Num int | Text string | Flag bool | Opaque string

record column =
  col_type :: data_type
  col_cells :: "cell list"

record batch =
  rb_schema :: schema
  rb_columns :: "column list"
  rb_rows :: nat

section \<open>Segments, manifests and heads\<close>

datatype op_kind =
  OpCreate | OpWrite | OpAppend | OpReplaceRange | OpDeleteRange | OpRestore | OpCompact | OpEvolveSchema | OpPromote

fun op_as_str :: "op_kind \<Rightarrow> string" where
  "op_as_str OpCreate = ''create''"
| "op_as_str OpWrite = ''write''"
| "op_as_str OpAppend = ''append''"
| "op_as_str OpReplaceRange = ''replace_range''"
| "op_as_str OpDeleteRange = ''delete_range''"
| "op_as_str OpRestore = ''restore''"
| "op_as_str OpCompact = ''compact''"
| "op_as_str OpEvolveSchema = ''evolve_schema''"
| "op_as_str OpPromote = ''promote''"

text \<open>A JSON value is a string, an integer, or something the store only carries.\<close>

datatype json = JString string | JInt int | JOther string

fun json_as_str :: "json \<Rightarrow> string option" where
  "json_as_str (JString s) = Some s"
| "json_as_str _ = None"

record column_stats =
  cs_min :: "json option"
  cs_max :: "json option"
  cs_null_count :: nat
  cs_distinct_values :: "json list option"

record segment_meta =
  sg_id :: uuid
  sg_path :: string
  sg_rows :: nat
  sg_bytes :: nat
  sg_checksum :: string
  sg_time_range :: "(int \<times> int) option"
  sg_sorted :: bool
  sg_schema_revision :: nat
  sg_created_by_sequence :: nat
  sg_columns :: "(string, column_stats) btree_map"

definition covered_by_time :: "segment_meta \<Rightarrow> int \<Rightarrow> int \<Rightarrow> bool" where
  "covered_by_time seg t0 t1 =
     (case sg_time_range seg of None \<Rightarrow> False | Some (mn, mx) \<Rightarrow> t0 \<le> mn \<and> mx < t1)"

definition overlaps_time :: "segment_meta \<Rightarrow> int option \<Rightarrow> int option \<Rightarrow> bool" where
  "overlaps_time seg t0 t1 =
     (case sg_time_range seg of
        None \<Rightarrow> True
      | Some (mn, mx) \<Rightarrow>
          (case t1 of None \<Rightarrow> True | Some e \<Rightarrow> mn < e) \<and> (case t0 of None \<Rightarrow> True | Some s \<Rightarrow> s \<le> mx))"

record manifest =
  vm_format :: nat
  vm_table_id :: uuid
  vm_sequence :: nat
  vm_parent :: "nat option"
  vm_parent_checksum :: "string option"
  vm_committed_at_ns :: int
  vm_op :: op_kind
  vm_execution_mode :: "string option"
  vm_plan_hash :: "string option"
  vm_note :: "string option"
  vm_user_meta :: "(string, json) btree_map"
  vm_schema_revision :: nat
  vm_rows :: nat
  vm_bytes :: nat
  vm_time_range :: "(int \<times> int) option"
  vm_segments :: "segment_meta list"

fun span_ranges :: "(int \<times> int) list \<Rightarrow> (int \<times> int) option" where
  "span_ranges [] = None"
| "span_ranges (r # rs) = Some (foldl (\<lambda>(amin, amax) (bmin, bmax). (min amin bmin, max amax bmax)) r rs)"

definition recompute_rollups :: "manifest \<Rightarrow> manifest" where
  "recompute_rollups m =
     m\<lparr>vm_rows := sum_list (map sg_rows (vm_segments m)),
       vm_bytes := sum_list (map sg_bytes (vm_segments m)),
       vm_time_range := span_ranges (List.map_filter sg_time_range (vm_segments m))\<rparr>"

text \<open>Later segments win, as collecting into a map does.\<close>

definition segments_by_checksum :: "manifest \<Rightarrow> (string, segment_meta) btree_map" where
  "segments_by_checksum m = foldl (\<lambda>acc s. bt_insert (sg_checksum s) s acc) [] (vm_segments m)"

record head =
  hd_format :: nat
  hd_table_id :: uuid
  hd_sequence :: nat
  hd_manifest_checksum :: string

section \<open>Catalog, snapshots, floors, forks and journals\<close>

record catalog_entry =
  ce_name :: string
  ce_table_id :: uuid
  ce_created_at_ns :: int
  ce_spec_revision :: nat
  ce_checksum :: string

record snapshot_entry =
  se_table_name :: string
  se_sequence :: nat
  se_manifest_checksum :: string

record snapshot =
  sn_name :: string
  sn_created_at_ns :: int
  sn_note :: "string option"
  sn_entries :: "(uuid, snapshot_entry) btree_map"
  sn_checksum :: string

record retention_floor =
  rf_table_id :: uuid
  rf_min_retained_sequence :: nat
  rf_set_at_ns :: int
  rf_note :: "string option"
  rf_checksum :: string

record fork_pin =
  fp_table_name :: string
  fp_sequence :: nat
  fp_manifest_checksum :: string
  fp_spec_revision :: "nat option"
  fp_created_at_ns :: "int option"

record fork =
  fk_name :: string
  fk_created_at_ns :: int
  fk_note :: "string option"
  fk_as_of_ns :: "int option"
  fk_parent :: "string option"
  fk_depth :: "nat option"
  fk_pins :: "(uuid, fork_pin) btree_map"
  fk_user_meta :: "(string, json) btree_map"
  fk_checksum :: string

record fork_origin =
  fo_base_table_id :: uuid
  fo_base_sequence :: nat
  fo_base_manifest_checksum :: string

record fork_table_entry =
  fe_name :: string
  fe_table_id :: uuid
  fe_created_at_ns :: int
  fe_spec_revision :: nat
  fe_origin :: "fork_origin option"
  fe_checksum :: string

definition pin :: "fork \<Rightarrow> uuid \<Rightarrow> fork_pin option" where
  "pin fk t = bt_get (fk_pins fk) t"

definition pin_by_name :: "fork \<Rightarrow> string \<Rightarrow> (uuid \<times> fork_pin) option" where
  "pin_by_name fk name = List.find (\<lambda>(_, p). fp_table_name p = name) (fk_pins fk)"

definition fork_depth :: "fork \<Rightarrow> nat" where
  "fork_depth fk = (case fk_depth fk of None \<Rightarrow> 0 | Some d \<Rightarrow> d)"

definition is_shadow :: "fork_table_entry \<Rightarrow> bool" where
  "is_shadow fe \<longleftrightarrow> fe_origin fe \<noteq> None"

record txn_entry =
  te_table_id :: uuid
  te_table_name :: string
  te_base_sequence :: nat
  te_new_head :: head

record txn_journal =
  tj_txn_id :: uuid
  tj_created_at_ns :: int
  tj_entries :: "txn_entry list"
  tj_checksum :: string

text \<open>A planned mutation (\<open>plan.rs\<close>) and the fork visibility index (\<open>fork_index.rs\<close>).\<close>

record plan_summary =
  pm_rows_before :: nat
  pm_rows_after :: nat
  pm_rows_affected :: nat
  pm_segments_reused :: nat
  pm_segments_added :: nat
  pm_added_bytes :: nat
  pm_affected_time_range :: "(int \<times> int) option"

record mutation_plan =
  mp_plan_id :: uuid
  mp_created_at_ns :: int
  mp_expires_at_ns :: int
  mp_table :: string
  mp_table_id :: uuid
  mp_base_version :: nat
  mp_base_manifest_checksum :: string
  mp_op :: op_kind
  mp_note :: "string option"
  mp_user_meta :: "(string, json) btree_map"
  mp_schema_revision :: nat
  mp_segments :: "segment_meta list"
  mp_summary :: plan_summary
  mp_before_sample :: "string option"
  mp_after_sample :: "string option"
  mp_checksum :: string

record indexed_table =
  it_table_id :: uuid
  it_object_size :: nat

record indexed_fork =
  if_object_size :: nat
  if_pins :: "(uuid, nat) btree_map"
  if_owned :: "(string, indexed_table) btree_map"

record fork_index =
  fi_built_at_ns :: int
  fi_forks :: "(string, indexed_fork) btree_map"
  fi_checksum :: string

section \<open>Serialised forms\<close>

text \<open>
  What the store computes with \<open>serde_json\<close> and \<open>blake3\<close>: the path component of a name and, for
  each kind of object, the digest of its bytes; the sizes the fork index compares; and the text a
  sample of rows is stored as.
\<close>

record codec =
  hash_name :: "string \<Rightarrow> string"
  sum_manifest :: "manifest \<Rightarrow> string"
  sum_head :: "head \<Rightarrow> string"
  sum_spec :: "table_spec \<Rightarrow> string"
  sum_entry :: "catalog_entry \<Rightarrow> string"
  sum_snapshot :: "snapshot \<Rightarrow> string"
  sum_floor :: "retention_floor \<Rightarrow> string"
  sum_fork :: "fork \<Rightarrow> string"
  sum_fork_entry :: "fork_table_entry \<Rightarrow> string"
  sum_journal :: "txn_journal \<Rightarrow> string"
  sum_bytes :: "string \<Rightarrow> string"
  sum_plan :: "mutation_plan \<Rightarrow> string"
  sum_index :: "fork_index \<Rightarrow> string"
  size_fork :: "fork \<Rightarrow> nat"
  size_fork_entry :: "fork_table_entry \<Rightarrow> nat"
  ipc_b64 :: "batch list \<Rightarrow> string"

text \<open>What is relied on: two objects with one digest are one object.\<close>

definition collision_free :: "codec \<Rightarrow> bool" where
  "collision_free K \<longleftrightarrow> inj (hash_name K) \<and> inj (sum_manifest K) \<and> inj (sum_head K)"

text \<open>
  Self-checksummed objects: the digest is taken with the field empty, stored in it, and compared
  again on every load.
\<close>

definition seal_entry :: "codec \<Rightarrow> catalog_entry \<Rightarrow> catalog_entry" where
  "seal_entry K e = e\<lparr>ce_checksum := sum_entry K (e\<lparr>ce_checksum := ''''\<rparr>)\<rparr>"

definition verify_entry :: "codec \<Rightarrow> catalog_entry \<Rightarrow> unit sres" where
  "verify_entry K e =
     (if ce_checksum e \<noteq> sum_entry K (e\<lparr>ce_checksum := ''''\<rparr>) then Inl (Corruption ''catalog entry checksum mismatch'')
      else Inr ())"

definition seal_spec :: "codec \<Rightarrow> table_spec \<Rightarrow> table_spec" where
  "seal_spec K s = s\<lparr>tsp_checksum := sum_spec K (s\<lparr>tsp_checksum := ''''\<rparr>)\<rparr>"

definition verify_spec :: "codec \<Rightarrow> table_spec \<Rightarrow> unit sres" where
  "verify_spec K s =
     (if tsp_checksum s \<noteq> sum_spec K (s\<lparr>tsp_checksum := ''''\<rparr>) then Inl (Corruption ''spec checksum mismatch'')
      else Inr ())"

definition seal_snapshot :: "codec \<Rightarrow> snapshot \<Rightarrow> snapshot" where
  "seal_snapshot K s = s\<lparr>sn_checksum := sum_snapshot K (s\<lparr>sn_checksum := ''''\<rparr>)\<rparr>"

definition verify_snapshot :: "codec \<Rightarrow> snapshot \<Rightarrow> unit sres" where
  "verify_snapshot K s =
     (if sn_checksum s \<noteq> sum_snapshot K (s\<lparr>sn_checksum := ''''\<rparr>) then Inl (Corruption ''snapshot checksum mismatch'')
      else Inr ())"

definition seal_floor :: "codec \<Rightarrow> retention_floor \<Rightarrow> retention_floor" where
  "seal_floor K f = f\<lparr>rf_checksum := sum_floor K (f\<lparr>rf_checksum := ''''\<rparr>)\<rparr>"

definition verify_floor :: "codec \<Rightarrow> retention_floor \<Rightarrow> unit sres" where
  "verify_floor K f =
     (if rf_checksum f \<noteq> sum_floor K (f\<lparr>rf_checksum := ''''\<rparr>) then Inl (Corruption ''retention floor checksum mismatch'')
      else Inr ())"

definition seal_fork :: "codec \<Rightarrow> fork \<Rightarrow> fork" where
  "seal_fork K f = f\<lparr>fk_checksum := sum_fork K (f\<lparr>fk_checksum := ''''\<rparr>)\<rparr>"

definition verify_fork :: "codec \<Rightarrow> fork \<Rightarrow> unit sres" where
  "verify_fork K f =
     (if fk_checksum f \<noteq> sum_fork K (f\<lparr>fk_checksum := ''''\<rparr>) then Inl (Corruption ''fork checksum mismatch'')
      else Inr ())"

definition seal_fork_entry :: "codec \<Rightarrow> fork_table_entry \<Rightarrow> fork_table_entry" where
  "seal_fork_entry K f = f\<lparr>fe_checksum := sum_fork_entry K (f\<lparr>fe_checksum := ''''\<rparr>)\<rparr>"

definition verify_fork_entry :: "codec \<Rightarrow> fork_table_entry \<Rightarrow> unit sres" where
  "verify_fork_entry K f =
     (if fe_checksum f \<noteq> sum_fork_entry K (f\<lparr>fe_checksum := ''''\<rparr>)
      then Inl (Corruption ''fork catalog entry checksum mismatch'') else Inr ())"

definition seal_journal :: "codec \<Rightarrow> txn_journal \<Rightarrow> txn_journal" where
  "seal_journal K j = j\<lparr>tj_checksum := sum_journal K (j\<lparr>tj_checksum := ''''\<rparr>)\<rparr>"

definition verify_journal :: "codec \<Rightarrow> txn_journal \<Rightarrow> unit sres" where
  "verify_journal K j =
     (if tj_checksum j \<noteq> sum_journal K (j\<lparr>tj_checksum := ''''\<rparr>) then Inl (Corruption ''txn journal checksum mismatch'')
      else Inr ())"

definition seal_plan :: "codec \<Rightarrow> mutation_plan \<Rightarrow> mutation_plan" where
  "seal_plan K p = p\<lparr>mp_checksum := sum_plan K (p\<lparr>mp_checksum := ''''\<rparr>)\<rparr>"

definition verify_plan :: "codec \<Rightarrow> mutation_plan \<Rightarrow> unit sres" where
  "verify_plan K p =
     (if mp_checksum p \<noteq> sum_plan K (p\<lparr>mp_checksum := ''''\<rparr>) then Inl (Corruption ''plan checksum mismatch'')
      else Inr ())"

definition seal_index :: "codec \<Rightarrow> fork_index \<Rightarrow> fork_index" where
  "seal_index K x = x\<lparr>fi_checksum := sum_index K (x\<lparr>fi_checksum := ''''\<rparr>)\<rparr>"

definition is_intact :: "codec \<Rightarrow> fork_index \<Rightarrow> bool" where
  "is_intact K x \<longleftrightarrow> fi_checksum x = sum_index K (x\<lparr>fi_checksum := ''''\<rparr>)"

text \<open>What was sealed verifies.\<close>

lemma verify_sealed [simp]:
  "verify_entry K (seal_entry K e) = Inr ()" "verify_spec K (seal_spec K sp) = Inr ()"
  "verify_snapshot K (seal_snapshot K sn) = Inr ()" "verify_floor K (seal_floor K fl) = Inr ()"
  "verify_fork K (seal_fork K fk) = Inr ()" "verify_fork_entry K (seal_fork_entry K fe) = Inr ()"
  "verify_journal K (seal_journal K j) = Inr ()" "verify_plan K (seal_plan K pl) = Inr ()" "is_intact K (seal_index K x)"
  by (simp_all add: verify_entry_def seal_entry_def verify_spec_def seal_spec_def verify_snapshot_def seal_snapshot_def
      verify_floor_def seal_floor_def verify_fork_def seal_fork_def verify_fork_entry_def seal_fork_entry_def
      verify_journal_def seal_journal_def verify_plan_def seal_plan_def is_intact_def seal_index_def)

definition to_catalog_entry :: "codec \<Rightarrow> fork_table_entry \<Rightarrow> catalog_entry" where
  "to_catalog_entry K fe =
     seal_entry K \<lparr>ce_name = fe_name fe, ce_table_id = fe_table_id fe, ce_created_at_ns = fe_created_at_ns fe,
       ce_spec_revision = fe_spec_revision fe, ce_checksum = ''''\<rparr>"

section \<open>Creating a specification\<close>

text \<open>The wall clock is an argument of everything that reads it.\<close>

definition monotonic_commit_ts :: "int \<Rightarrow> int option \<Rightarrow> int" where
  "monotonic_commit_ts utc_ns parent =
     (let wall = (if in_i64 utc_ns then utc_ns else i64_max - 1)
      in case parent of None \<Rightarrow> wall | Some p \<Rightarrow> max wall (sat64 (p + 1)))"

fun is_time_type :: "data_type \<Rightarrow> bool" where
  "is_time_type (Timestamp _) = True"
| "is_time_type Int64 = True"
| "is_time_type Int32 = True"
| "is_time_type UInt64 = True"
| "is_time_type UInt32 = True"
| "is_time_type Date32 = True"
| "is_time_type Date64 = True"
| "is_time_type _ = False"

definition check_time_column :: "schema \<Rightarrow> string option \<Rightarrow> unit sres" where
  "check_time_column sch tc =
     (case tc of
        None \<Rightarrow> Inr ()
      | Some name \<Rightarrow>
          (case field_with_name sch name of
             None \<Rightarrow> Inl (InvalidInput ''time column does not exist in the schema'')
           | Some f \<Rightarrow>
               if \<not> is_time_type (fd_type f)
               then Inl (InvalidInput ''time column must be a timestamp, date, or integer type'')
               else if fd_nullable f then Inl (InvalidInput ''time column must be declared non-nullable'')
               else Inr ()))"

definition check_columns :: "schema \<Rightarrow> string \<Rightarrow> string list \<Rightarrow> unit sres" where
  "check_columns sch detail cols =
     (if list_all (\<lambda>c. field_with_name sch c \<noteq> None) cols then Inr () else Inl (InvalidInput detail))"

definition spec_new :: "codec \<Rightarrow> int \<Rightarrow> uuid \<Rightarrow> string \<Rightarrow> schema \<Rightarrow> table_options \<Rightarrow> table_spec sres" where
  "spec_new K wall table_id name sch options =
     and_then (check_time_column sch (to_time_column options)) (\<lambda>_.
     let sort_key = (case to_time_column options of
                       Some tc \<Rightarrow> if to_sort_key options = [] then [tc] else to_sort_key options
                     | None \<Rightarrow> to_sort_key options)
     in and_then (check_columns sch ''sort key column does not exist in the schema'' sort_key) (\<lambda>_.
        if (case (to_time_column options, sort_key) of (Some tc, first # _) \<Rightarrow> first \<noteq> tc | _ \<Rightarrow> False)
        then Inl (InvalidInput ''when a time column is declared it must be the first sort key'')
        else and_then (check_columns sch ''bloom filter column does not exist in the schema''
                         (bloom_filter_columns (to_storage options))) (\<lambda>_.
          Inr (seal_spec K
            \<lparr>tsp_table_id = table_id, tsp_name = name, tsp_schema_revision = 1, tsp_schema = sch,
             tsp_time_column = to_time_column options, tsp_sort_key = sort_key, tsp_storage = to_storage options,
             tsp_max_segments = (case to_max_segments options of None \<Rightarrow> SEGMENT_COUNT_HARD_DEFAULT | Some n \<Rightarrow> n),
             tsp_created_at_ns = monotonic_commit_ts wall None, tsp_checksum = ''''\<rparr>))))"

section \<open>The mutation policy\<close>

record mutation_policy =
  direct_append :: bool
  direct_write :: bool
  direct_replace :: bool
  direct_delete :: bool
  direct_restore :: bool
  direct_compact :: bool

definition policy_default :: mutation_policy where
  "policy_default = \<lparr>direct_append = True, direct_write = True, direct_replace = True, direct_delete = True,
     direct_restore = True, direct_compact = True\<rparr>"

definition check_direct :: "mutation_policy \<Rightarrow> op_kind \<Rightarrow> unit sres" where
  "check_direct p op =
     (let allowed = (case op of
          OpCreate \<Rightarrow> True | OpEvolveSchema \<Rightarrow> True | OpPromote \<Rightarrow> True
        | OpWrite \<Rightarrow> direct_write p | OpAppend \<Rightarrow> direct_append p | OpReplaceRange \<Rightarrow> direct_replace p
        | OpDeleteRange \<Rightarrow> direct_delete p | OpRestore \<Rightarrow> direct_restore p | OpCompact \<Rightarrow> direct_compact p)
      in if allowed then Inr () else Inl (PolicyViolation (op_as_str op)))"

definition policy_set :: "mutation_policy \<Rightarrow> string \<Rightarrow> bool \<Rightarrow> mutation_policy sres" where
  "policy_set p key v =
     (if key = ''direct_append'' then Inr (p\<lparr>direct_append := v\<rparr>)
      else if key = ''direct_write'' then Inr (p\<lparr>direct_write := v\<rparr>)
      else if key = ''direct_replace'' then Inr (p\<lparr>direct_replace := v\<rparr>)
      else if key = ''direct_delete'' then Inr (p\<lparr>direct_delete := v\<rparr>)
      else if key = ''direct_restore'' then Inr (p\<lparr>direct_restore := v\<rparr>)
      else if key = ''direct_compact'' then Inr (p\<lparr>direct_compact := v\<rparr>)
      else Inl (InvalidInput ''unknown policy key''))"

section \<open>Lookups in ordered maps\<close>

text \<open>What an ordered map answers does not depend on its order.\<close>

lemma bt_get_put [simp]: "bt_get (bt_insert k v m) k' = (if k' = k then Some v else bt_get m k')"
  by (induction k v m rule: bt_insert.induct) auto

declare bt_get_remove [simp]

end
