(* ===== verification/Store_Batches.thy ===== *)
theory Store_Batches
  imports Store_Types Display
begin

text \<open>
  The pure half of \<open>segment.rs\<close>: column statistics, the time column of a batch, sortedness,
  sorting, the k-way merge of sorted batches and the exact time filter. What Arrow computes on
  columns and batches is third-party and enters as the fields of an \<open>arrow\<close>, together with the
  comparison of floating-point numbers, which are opaque here; the laws that are used of it are
  stated where they are used.
\<close>

section \<open>Arrow\<close>

datatype ordering = Less | Equal | Greater

record arrow =
  ar_cast :: "column \<Rightarrow> data_type \<Rightarrow> column sres"
  ar_try_new :: "schema \<Rightarrow> column list \<Rightarrow> batch sres"
  ar_take :: "column \<Rightarrow> nat list \<Rightarrow> column sres"
  ar_interleave :: "column list \<Rightarrow> (nat \<times> nat) list \<Rightarrow> column sres"
  ar_concat :: "schema \<Rightarrow> batch list \<Rightarrow> batch sres"
  ar_filter :: "batch \<Rightarrow> bool list \<Rightarrow> batch sres"
  ar_slice :: "batch \<Rightarrow> nat \<Rightarrow> nat \<Rightarrow> batch"
  ar_project :: "batch \<Rightarrow> nat list \<Rightarrow> batch sres"
  ar_lexsort :: "column list \<Rightarrow> nat list sres"
  ar_compare :: "cell \<Rightarrow> cell \<Rightarrow> ordering"
  ar_min :: "column \<Rightarrow> cell option"
  ar_max :: "column \<Rightarrow> cell option"
  ar_float_cmp :: "string \<Rightarrow> string \<Rightarrow> ordering option"
  ar_float_of_int :: "int \<Rightarrow> string"
  ar_memory_size :: "batch \<Rightarrow> nat"

definition null_count :: "column \<Rightarrow> nat" where
  "null_count c = length (filter (\<lambda>x. x = Null) (col_cells c))"

text \<open>The values buffer of an integer column; a null slot holds zero.\<close>

fun cell_int :: "cell \<Rightarrow> int" where
  "cell_int (Num v) = v"
| "cell_int _ = 0"

definition values_of :: "column \<Rightarrow> int list" where
  "values_of c = map cell_int (col_cells c)"

text \<open>The non-null strings of a column, in order.\<close>

fun cell_text :: "cell \<Rightarrow> string option" where
  "cell_text (Text s) = Some s"
| "cell_text _ = None"

definition texts_of :: "column \<Rightarrow> string list" where
  "texts_of c = List.map_filter cell_text (col_cells c)"

definition column_named :: "batch \<Rightarrow> string \<Rightarrow> column sres" where
  "column_named b name =
     (case index_of (rb_schema b) name of
        None \<Rightarrow> Inl (ArrowError ''no such field'')
      | Some i \<Rightarrow> Inr (rb_columns b ! i))"

section \<open>Statistics\<close>

definition MAX_STRING_STAT_LEN :: nat where "MAX_STRING_STAT_LEN = 64"
definition MAX_DISTINCT_VALUES :: nat where "MAX_DISTINCT_VALUES = 128"

datatype scalar_stat = SInt int | SUInt int | SFloat string | SStr string | SBool bool | SDecimal int

fun stat_to_json :: "scalar_stat \<Rightarrow> json" where
  "stat_to_json (SInt v) = JInt v"
| "stat_to_json (SUInt v) = JInt v"
| "stat_to_json (SFloat v) = JOther v"
| "stat_to_json (SStr v) = JString v"
| "stat_to_json (SBool v) = JOther (if v then ''true'' else ''false'')"
| "stat_to_json (SDecimal v) = JString (show_int v)"

fun less_than :: "arrow \<Rightarrow> scalar_stat \<Rightarrow> scalar_stat \<Rightarrow> bool" where
  "less_than A (SInt a) (SInt b) = (a < b)"
| "less_than A (SUInt a) (SUInt b) = (a < b)"
| "less_than A (SFloat a) (SFloat b) = (ar_float_cmp A a b = Some Less)"
| "less_than A (SStr a) (SStr b) = (a < b)"
| "less_than A (SBool a) (SBool b) = (\<not> a \<and> b)"
| "less_than A (SDecimal a) (SDecimal b) = (a < b)"
| "less_than A _ _ = False"

record column_acc =
  ac_min :: "scalar_stat option"
  ac_max :: "scalar_stat option"
  ac_null_count :: nat
  ac_stats_dropped :: bool
  ac_distinct :: "string list"
  ac_distinct_eligible :: bool
  ac_distinct_dropped :: bool

definition acc_default :: column_acc where
  "acc_default = \<lparr>ac_min = None, ac_max = None, ac_null_count = 0, ac_stats_dropped = False, ac_distinct = [],
     ac_distinct_eligible = False, ac_distinct_dropped = False\<rparr>"

definition lower :: "arrow \<Rightarrow> scalar_stat option \<Rightarrow> scalar_stat option \<Rightarrow> scalar_stat option" where
  "lower A new cur =
     (case new of
        Some m \<Rightarrow> if (case cur of None \<Rightarrow> True | Some c \<Rightarrow> less_than A m c) then Some m else cur
      | None \<Rightarrow> cur)"

definition upper :: "arrow \<Rightarrow> scalar_stat option \<Rightarrow> scalar_stat option \<Rightarrow> scalar_stat option" where
  "upper A new cur =
     (case new of
        Some m \<Rightarrow> if (case cur of None \<Rightarrow> True | Some c \<Rightarrow> less_than A c m) then Some m else cur
      | None \<Rightarrow> cur)"

definition observe :: "arrow \<Rightarrow> scalar_stat option \<Rightarrow> scalar_stat option \<Rightarrow> nat \<Rightarrow> column_acc \<Rightarrow> column_acc" where
  "observe A mn mx nulls acc =
     (let acc1 = acc\<lparr>ac_null_count := ac_null_count acc + nulls\<rparr>
      in if ac_stats_dropped acc1 then acc1
         else acc1\<lparr>ac_min := lower A mn (ac_min acc1), ac_max := upper A mx (ac_max acc1)\<rparr>)"

definition drop_stats :: "nat \<Rightarrow> column_acc \<Rightarrow> column_acc" where
  "drop_stats nulls acc =
     acc\<lparr>ac_null_count := ac_null_count acc + nulls, ac_stats_dropped := True, ac_min := None, ac_max := None\<rparr>"

definition insert_distinct :: "string \<Rightarrow> column_acc \<Rightarrow> column_acc" where
  "insert_distinct v acc =
     (if v \<in> set (ac_distinct acc) then acc
      else let d = insort v (ac_distinct acc)
           in if length d > MAX_DISTINCT_VALUES then acc\<lparr>ac_distinct := [], ac_distinct_dropped := True\<rparr>
              else acc\<lparr>ac_distinct := d\<rparr>)"

fun insert_distincts :: "string list \<Rightarrow> column_acc \<Rightarrow> column_acc" where
  "insert_distincts [] acc = acc"
| "insert_distincts (v # vs) acc =
     (let acc1 = insert_distinct v acc in if ac_distinct_dropped acc1 then acc1 else insert_distincts vs acc1)"

definition observe_distinct :: "arrow \<Rightarrow> column \<Rightarrow> column_acc \<Rightarrow> column_acc" where
  "observe_distinct A c acc =
     (if ac_distinct_dropped acc then acc
      else case col_type c of
        Utf8 \<Rightarrow> insert_distincts (texts_of c) (acc\<lparr>ac_distinct_eligible := True\<rparr>)
      | LargeUtf8 \<Rightarrow> insert_distincts (texts_of c) (acc\<lparr>ac_distinct_eligible := True\<rparr>)
      | Dictionary _ v \<Rightarrow>
          if v = Utf8
          then (case ar_cast A c Utf8 of
                  Inl _ \<Rightarrow> acc\<lparr>ac_distinct_dropped := True\<rparr>
                | Inr m \<Rightarrow> insert_distincts (texts_of m) (acc\<lparr>ac_distinct_eligible := True\<rparr>))
          else acc
      | _ \<Rightarrow> acc)"

definition acc_finish :: "column_acc \<Rightarrow> column_stats" where
  "acc_finish acc =
     \<lparr>cs_min = map_option stat_to_json (ac_min acc), cs_max = map_option stat_to_json (ac_max acc),
      cs_null_count = ac_null_count acc,
      cs_distinct_values = (if ac_distinct_eligible acc \<and> \<not> ac_distinct_dropped acc
                            then Some (map JString (ac_distinct acc)) else None)\<rparr>"

text \<open>The scalar a non-null cell of a column type is recorded as.\<close>

fun scalar_of :: "data_type \<Rightarrow> cell \<Rightarrow> scalar_stat option" where
  "scalar_of t Null = None"
| "scalar_of t (Text s) = Some (SStr s)"
| "scalar_of t (Flag b) = Some (SBool b)"
| "scalar_of t (Opaque f) = Some (SFloat f)"
| "scalar_of t (Num v) = Some (case t of
     UInt8 \<Rightarrow> SUInt v | UInt16 \<Rightarrow> SUInt v | UInt32 \<Rightarrow> SUInt v | UInt64 \<Rightarrow> SUInt v
   | Decimal128 _ _ \<Rightarrow> SDecimal v | _ \<Rightarrow> SInt v)"

fun stats_eligible :: "data_type \<Rightarrow> bool" where
  "stats_eligible (OtherType _) = False"
| "stats_eligible (Time32 _) = False"
| "stats_eligible (Time64 _) = False"
| "stats_eligible (Duration _) = False"
| "stats_eligible (Dictionary _ v) = (v = Utf8)"
| "stats_eligible _ = True"

definition guard_stat :: "scalar_stat option \<Rightarrow> scalar_stat option" where
  "guard_stat s =
     (case s of Some (SStr v) \<Rightarrow> if length v > MAX_STRING_STAT_LEN then None else s | _ \<Rightarrow> s)"

definition array_minmax :: "arrow \<Rightarrow> column \<Rightarrow> (scalar_stat option \<times> scalar_stat option) option" where
  "array_minmax A c =
     (if \<not> stats_eligible (col_type c) then None
      else case (case col_type c of Dictionary _ _ \<Rightarrow> ar_cast A c Utf8 | _ \<Rightarrow> Inr c) of
        Inl _ \<Rightarrow> None
      | Inr m \<Rightarrow> Some (guard_stat (Option.bind (ar_min A m) (scalar_of (col_type m))),
                       guard_stat (Option.bind (ar_max A m) (scalar_of (col_type m)))))"

text \<open>One array of one batch, observed by the accumulator of its field.\<close>

definition observe_array :: "arrow \<Rightarrow> column \<Rightarrow> column_acc \<Rightarrow> column_acc" where
  "observe_array A c acc =
     observe_distinct A c
       (case array_minmax A c of
          Some (mn, mx) \<Rightarrow> observe A mn mx (null_count c) acc
        | None \<Rightarrow> drop_stats (null_count c) acc)"

definition observe_batch :: "arrow \<Rightarrow> schema \<Rightarrow> (string, column_acc) btree_map \<Rightarrow> batch
    \<Rightarrow> (string, column_acc) btree_map" where
  "observe_batch A sch accs b =
     foldl (\<lambda>m (f, c). bt_insert (fd_name f)
              (observe_array A c (case bt_get m (fd_name f) of None \<Rightarrow> acc_default | Some a \<Rightarrow> a)) m)
       accs (zip sch (rb_columns b))"

definition column_statistics :: "arrow \<Rightarrow> schema \<Rightarrow> batch list \<Rightarrow> (string, column_stats) btree_map" where
  "column_statistics A sch bs = map (\<lambda>(k, a). (k, acc_finish a)) (foldl (observe_batch A sch) [] bs)"

section \<open>The time column\<close>

fun time_slice_i64 :: "column \<Rightarrow> int list option" where
  "time_slice_i64 c =
     (case col_type c of
        Int64 \<Rightarrow> Some (values_of c) | Date64 \<Rightarrow> Some (values_of c) | Timestamp _ \<Rightarrow> Some (values_of c)
      | _ \<Rightarrow> None)"

definition no_null_times :: "column \<Rightarrow> unit sres" where
  "no_null_times c = (if null_count c > 0 then Inl (InvalidInput ''time column contains nulls'') else Inr ())"

definition time_values_i64 :: "arrow \<Rightarrow> batch \<Rightarrow> string \<Rightarrow> int list sres" where
  "time_values_i64 A b tc =
     and_then (column_named b tc) (\<lambda>c.
     and_then (no_null_times c) (\<lambda>_.
       case time_slice_i64 c of
         Some vs \<Rightarrow> Inr vs
       | None \<Rightarrow> map_ok values_of (ar_cast A c Int64)))"

definition time_min_max :: "arrow \<Rightarrow> batch \<Rightarrow> string \<Rightarrow> (int \<times> int) option sres" where
  "time_min_max A b tc =
     (if rb_rows b = 0 then Inr None
      else and_then (column_named b tc) (\<lambda>c.
           and_then (no_null_times c) (\<lambda>_.
             case time_slice_i64 c of
               Some vs \<Rightarrow> Inr (Some (foldl min i64_max vs, foldl max i64_min vs))
             | None \<Rightarrow>
                 and_then (ar_cast A c Int64) (\<lambda>m.
                   Inr (case (ar_min A m, ar_max A m) of
                          (Some mn, Some mx) \<Rightarrow> Some (cell_int mn, cell_int mx) | _ \<Rightarrow> None)))))"

text \<open>The hull of the times of the batches of one segment.\<close>

definition segment_time_range :: "arrow \<Rightarrow> string option \<Rightarrow> batch list \<Rightarrow> (int \<times> int) option sres" where
  "segment_time_range A tc bs =
     (case tc of
        None \<Rightarrow> Inr None
      | Some c \<Rightarrow>
          map_ok (\<lambda>(mn, mx). if mn \<le> mx then Some (mn, mx) else None)
            (fold_r (\<lambda>(mn, mx) b. map_ok (\<lambda>r. case r of None \<Rightarrow> (mn, mx) | Some (bmn, bmx) \<Rightarrow> (min mn bmn, max mx bmx))
                                    (time_min_max A b c)) (i64_max, i64_min) bs))"

text \<open>Keep the rows with \<open>start \<le> t < end\<close>; empty results are dropped.\<close>

definition in_range :: "int option \<Rightarrow> int option \<Rightarrow> int \<Rightarrow> bool" where
  "in_range start stop v \<longleftrightarrow>
     (case start of None \<Rightarrow> True | Some s \<Rightarrow> s \<le> v) \<and> (case stop of None \<Rightarrow> True | Some e \<Rightarrow> v < e)"

definition filter_batch_by_time :: "arrow \<Rightarrow> string \<Rightarrow> int option \<Rightarrow> int option \<Rightarrow> batch \<Rightarrow> batch sres" where
  "filter_batch_by_time A tc start stop b =
     (case index_of (rb_schema b) tc of
        None \<Rightarrow> Inl (Internal ''time filter requested but time column not present in projection'')
      | Some i \<Rightarrow>
          and_then (ar_cast A (rb_columns b ! i) Int64) (\<lambda>m.
            if null_count m > 0 then Inl (Corruption ''null time value in stored segment'')
            else ar_filter A b (map (in_range start stop) (values_of m))))"

definition filter_batches_by_time :: "arrow \<Rightarrow> batch list \<Rightarrow> string \<Rightarrow> int option \<Rightarrow> int option \<Rightarrow> batch list sres" where
  "filter_batches_by_time A bs tc start stop =
     map_ok (filter (\<lambda>b. rb_rows b > 0))
       (map_r (filter_batch_by_time A tc start stop) (filter (\<lambda>b. rb_rows b \<noteq> 0) bs))"

section \<open>Sorting\<close>

fun lex_compare :: "arrow \<Rightarrow> cell list \<Rightarrow> cell list \<Rightarrow> ordering" where
  "lex_compare A (x # xs) (y # ys) = (case ar_compare A x y of Less \<Rightarrow> Less | Greater \<Rightarrow> Greater | Equal \<Rightarrow> lex_compare A xs ys)"
| "lex_compare A _ _ = Equal"

definition key_columns :: "batch \<Rightarrow> string list \<Rightarrow> column list sres" where
  "key_columns b key = map_r (column_named b) key"

definition key_at :: "column list \<Rightarrow> nat \<Rightarrow> cell list" where
  "key_at cols i = map (\<lambda>c. col_cells c ! i) cols"

definition batch_is_sorted :: "arrow \<Rightarrow> batch \<Rightarrow> string list \<Rightarrow> bool sres" where
  "batch_is_sorted A b key =
     (if key = [] \<or> rb_rows b < 2 then Inr True
      else map_ok (\<lambda>cols. list_all (\<lambda>i. lex_compare A (key_at cols (i - 1)) (key_at cols i) \<noteq> Greater) [1..<rb_rows b])
             (key_columns b key))"

text \<open>Rows in the order of the indices a lexicographic sort of the key columns returns.\<close>

definition sort_batch :: "arrow \<Rightarrow> batch \<Rightarrow> string list \<Rightarrow> batch sres" where
  "sort_batch A b key =
     and_then (key_columns b key) (\<lambda>cols.
     and_then (ar_lexsort A cols) (\<lambda>indices.
     and_then (map_r (\<lambda>c. ar_take A c indices) (rb_columns b)) (\<lambda>sorted.
       ar_try_new A (rb_schema b) sorted)))"

definition sort_batches :: "arrow \<Rightarrow> schema \<Rightarrow> batch list \<Rightarrow> string list \<Rightarrow> batch sres" where
  "sort_batches A sch bs key =
     and_then (ar_concat A sch bs) (\<lambda>combined.
       if key = [] \<or> rb_rows combined < 2 then Inr combined
       else and_then (key_columns combined key) (\<lambda>cols.
            and_then (ar_lexsort A cols) (\<lambda>indices.
            and_then (map_r (\<lambda>c. ar_take A c indices) (rb_columns combined)) (\<lambda>sorted.
              ar_try_new A sch sorted))))"

definition sort_each_batch :: "arrow \<Rightarrow> batch list \<Rightarrow> string list \<Rightarrow> batch list sres" where
  "sort_each_batch A bs key =
     map_r (\<lambda>b. if key = [] \<or> rb_rows b < 2 then Inr b
                else and_then (batch_is_sorted A b key) (\<lambda>s. if s then Inr b else sort_batch A b key))
       (filter (\<lambda>b. rb_rows b > 0) bs)"

section \<open>Merging sorted batches\<close>

record merger =
  mg_batches :: "batch list"
  mg_keys :: "cell list list list"
  mg_positions :: "nat list"
  mg_chunk_rows :: nat

definition batch_keys :: "batch \<Rightarrow> string list \<Rightarrow> cell list list sres" where
  "batch_keys b key = map_ok (\<lambda>cols. map (key_at cols) [0..<rb_rows b]) (key_columns b key)"

definition merger_new :: "batch list \<Rightarrow> string list \<Rightarrow> nat \<Rightarrow> merger sres" where
  "merger_new bs key chunk_rows =
     (let batches = filter (\<lambda>b. rb_rows b > 0) bs
      in and_then (case batches of [] \<Rightarrow> Inr [] | first # _ \<Rightarrow> map_r (column_named first) key) (\<lambda>_.
         map_ok (\<lambda>keys. \<lparr>mg_batches = batches, mg_keys = keys, mg_positions = replicate (length batches) 0,
                         mg_chunk_rows = max chunk_rows 1\<rparr>)
           (map_r (\<lambda>b. batch_keys b key) batches)))"

definition head_key :: "merger \<Rightarrow> nat \<Rightarrow> cell list" where
  "head_key m b = mg_keys m ! b ! (mg_positions m ! b)"

definition better_head :: "arrow \<Rightarrow> merger \<Rightarrow> nat option \<Rightarrow> nat \<Rightarrow> nat option" where
  "better_head A m best b =
     (if mg_positions m ! b \<ge> rb_rows (mg_batches m ! b) then best
      else case best of
             None \<Rightarrow> Some b
           | Some cur \<Rightarrow> if lex_compare A (head_key m b) (head_key m cur) = Less then Some b else Some cur)"

definition best_head :: "arrow \<Rightarrow> merger \<Rightarrow> nat option" where
  "best_head A m = foldl (better_head A m) None [0..<length (mg_positions m)]"

text \<open>At most \<open>n\<close> picks, each the smallest head; the earliest batch wins a tie.\<close>

fun pick_rows :: "arrow \<Rightarrow> nat \<Rightarrow> merger \<Rightarrow> (nat \<times> nat) list \<times> merger" where
  "pick_rows A 0 m = ([], m)"
| "pick_rows A (Suc n) m =
     (case best_head A m of
        None \<Rightarrow> ([], m)
      | Some b \<Rightarrow>
          let (picks, m') = pick_rows A n (m\<lparr>mg_positions := (mg_positions m)[b := mg_positions m ! b + 1]\<rparr>)
          in ((b, mg_positions m ! b) # picks, m'))"

definition next_chunk :: "arrow \<Rightarrow> merger \<Rightarrow> (batch option \<times> merger) sres" where
  "next_chunk A m =
     (if mg_batches m = [] then Inr (None, m)
      else let sch = rb_schema (mg_batches m ! 0);
               (picks, m') = pick_rows A (mg_chunk_rows m) m
           in if picks = [] then Inr (None, m')
              else and_then (map_r (\<lambda>c. ar_interleave A (map (\<lambda>b. rb_columns b ! c) (mg_batches m)) picks) [0..<length sch])
                     (\<lambda>cols. map_ok (\<lambda>b. (Some b, m')) (ar_try_new A sch cols)))"

definition MERGE_CHUNK_ROWS :: nat where "MERGE_CHUNK_ROWS = 64 * 1024"

section \<open>A concrete Arrow\<close>

text \<open>
  Cells in their order, stable sorting, batches put together column by column: one implementation
  of the interface, on which the laws of this development hold and inputs can be evaluated.
\<close>

fun plain_rank :: "cell \<Rightarrow> nat \<times> int \<times> string" where
  "plain_rank Null = (0, 0, [])"
| "plain_rank (Num v) = (1, v, [])"
| "plain_rank (Flag b) = (2, if b then 1 else 0, [])"
| "plain_rank (Text s) = (3, 0, s)"
| "plain_rank (Opaque s) = (4, 0, s)"

definition plain_compare :: "cell \<Rightarrow> cell \<Rightarrow> ordering" where
  "plain_compare x y = (if plain_rank x < plain_rank y then Less else if plain_rank x = plain_rank y then Equal else Greater)"

definition plain_least :: "(cell \<Rightarrow> cell \<Rightarrow> bool) \<Rightarrow> column \<Rightarrow> cell option" where
  "plain_least better c =
     fold (\<lambda>x best. case best of None \<Rightarrow> Some x | Some y \<Rightarrow> if better x y then Some x else best)
       (filter (\<lambda>x. x \<noteq> Null) (col_cells c)) None"

definition plain_arrow :: arrow where
  "plain_arrow = \<lparr>
     ar_cast = (\<lambda>c t. Inr (c\<lparr>col_type := t\<rparr>)),
     ar_try_new = (\<lambda>sch cols. Inr \<lparr>rb_schema = sch, rb_columns = cols,
        rb_rows = (case cols of [] \<Rightarrow> 0 | c # _ \<Rightarrow> length (col_cells c))\<rparr>),
     ar_take = (\<lambda>c ix. Inr (c\<lparr>col_cells := map (\<lambda>i. col_cells c ! i) ix\<rparr>)),
     ar_interleave = (\<lambda>cs ix. Inr \<lparr>col_type = (case cs of [] \<Rightarrow> Int64 | c # _ \<Rightarrow> col_type c),
        col_cells = map (\<lambda>(b, i). col_cells (cs ! b) ! i) ix\<rparr>),
     ar_concat = (\<lambda>sch bs. Inr \<lparr>rb_schema = sch,
        rb_columns = map (\<lambda>i. \<lparr>col_type = fd_type (sch ! i), col_cells = concat (map (\<lambda>b. col_cells (rb_columns b ! i)) bs)\<rparr>)
                       [0..<length sch],
        rb_rows = sum_list (map rb_rows bs)\<rparr>),
     ar_filter = (\<lambda>b keep. Inr (b\<lparr>
        rb_columns := map (\<lambda>c. c\<lparr>col_cells := map fst (filter snd (zip (col_cells c) keep))\<rparr>) (rb_columns b),
        rb_rows := length (filter id keep)\<rparr>)),
     ar_slice = (\<lambda>b from n. b\<lparr>
        rb_columns := map (\<lambda>c. c\<lparr>col_cells := take n (drop from (col_cells c))\<rparr>) (rb_columns b), rb_rows := n\<rparr>),
     ar_project = (\<lambda>b ix. Inr (b\<lparr>rb_schema := map (\<lambda>i. rb_schema b ! i) ix, rb_columns := map (\<lambda>i. rb_columns b ! i) ix\<rparr>)),
     ar_lexsort = (\<lambda>cols. Inr (sort_key (\<lambda>i. map (\<lambda>c. plain_rank (col_cells c ! i)) cols)
        [0..<(case cols of [] \<Rightarrow> 0 | c # _ \<Rightarrow> length (col_cells c))])),
     ar_compare = plain_compare,
     ar_min = plain_least (\<lambda>x y. plain_rank x < plain_rank y),
     ar_max = plain_least (\<lambda>x y. plain_rank y < plain_rank x),
     ar_float_cmp = (\<lambda>a b. Some (if a < b then Less else if a = b then Equal else Greater)),
     ar_float_of_int = show_int,
     ar_memory_size = (\<lambda>b. rb_rows b * length (rb_columns b))\<rparr>"

end
