(* ===== verification/Store_Policy.thy ===== *)
theory Store_Policy
  imports Store_Batches
begin

text \<open>
  The data policy of a table (\<open>data_policy.rs\<close>): predicates every written row must satisfy,
  evaluated over the columns of a batch. A predicate that cannot be evaluated is an error.
\<close>

section \<open>Policies\<close>

datatype scalar_lit = LInt int | LFloat string | LStr string | LBool bool

datatype cmp_op = CEq | CNe | CLt | CLe | CGt | CGe

fun eval_ordering :: "cmp_op \<Rightarrow> ordering \<Rightarrow> bool" where
  "eval_ordering CEq ord = (ord = Equal)"
| "eval_ordering CNe ord = (ord \<noteq> Equal)"
| "eval_ordering CLt ord = (ord = Less)"
| "eval_ordering CLe ord = (ord \<noteq> Greater)"
| "eval_ordering CGt ord = (ord = Greater)"
| "eval_ordering CGe ord = (ord \<noteq> Less)"

datatype predicate =
    NotNull string
  | Compare string cmp_op scalar_lit
  | InSet string "scalar_lit list"
  | And predicate predicate
  | Or predicate predicate
  | Not predicate

datatype on_fail = Reject | Warn

record policy_constraint =
  co_name :: string
  co_predicate :: predicate
  co_on_fail :: on_fail

definition DATA_POLICY_FORMAT :: nat where "DATA_POLICY_FORMAT = 1"

record data_policy =
  dp_format :: nat
  dp_constraints :: "policy_constraint list"

definition data_policy_parse :: "data_policy \<Rightarrow> data_policy sres" where
  "data_policy_parse p =
     (if dp_format p > DATA_POLICY_FORMAT then Inl (FormatTooNew (dp_format p) DATA_POLICY_FORMAT) else Inr p)"

section \<open>Evaluation\<close>

datatype policy_cell = PNull | PInt int | PFloat string | PStr string | PBool bool

definition column_array :: "batch \<Rightarrow> string \<Rightarrow> column sres" where
  "column_array b name =
     (case index_of (rb_schema b) name of
        None \<Rightarrow> Inl (InvalidInput ''data policy references unknown column'')
      | Some i \<Rightarrow> Inr (rb_columns b ! i))"

fun policy_time_type :: "data_type \<Rightarrow> bool" where
  "policy_time_type (Timestamp _) = True"
| "policy_time_type Date32 = True"
| "policy_time_type Date64 = True"
| "policy_time_type (Time32 _) = True"
| "policy_time_type (Time64 _) = True"
| "policy_time_type (Duration _) = True"
| "policy_time_type _ = False"

definition cell_at :: "arrow \<Rightarrow> column \<Rightarrow> nat \<Rightarrow> policy_cell sres" where
  "cell_at A c i =
     (if col_cells c ! i = Null then Inr PNull
      else if policy_time_type (col_type c)
      then map_ok (\<lambda>m. PInt (cell_int (col_cells m ! i)))
             (case ar_cast A c Int64 of Inr m \<Rightarrow> Inr m | Inl _ \<Rightarrow> Inl (InvalidInput ''time column not i64-able''))
      else case col_type c of
             OtherType _ \<Rightarrow> Inl (InvalidInput ''unsupported column type for comparison'')
           | Dictionary _ _ \<Rightarrow> Inl (InvalidInput ''unsupported column type for comparison'')
           | Decimal128 _ _ \<Rightarrow> Inl (InvalidInput ''unsupported column type for comparison'')
           | _ \<Rightarrow> Inr (case col_cells c ! i of
                        Num v \<Rightarrow> PInt v | Opaque f \<Rightarrow> PFloat f | Text s \<Rightarrow> PStr s | Flag b \<Rightarrow> PBool b | Null \<Rightarrow> PNull))"

definition cmp_f64 :: "arrow \<Rightarrow> string \<Rightarrow> string \<Rightarrow> ordering" where
  "cmp_f64 A a b = (case ar_float_cmp A a b of Some ord \<Rightarrow> ord | None \<Rightarrow> Greater)"

definition cmp_ord :: "'a::linorder \<Rightarrow> 'a \<Rightarrow> ordering" where
  "cmp_ord a b = (if a < b then Less else if a = b then Equal else Greater)"

fun compare_cell :: "arrow \<Rightarrow> policy_cell \<Rightarrow> cmp_op \<Rightarrow> scalar_lit \<Rightarrow> bool sres" where
  "compare_cell A PNull op lit = Inr False"
| "compare_cell A (PInt a) op (LInt b) = Inr (eval_ordering op (cmp_ord a b))"
| "compare_cell A (PInt a) op (LFloat b) = Inr (eval_ordering op (cmp_f64 A (ar_float_of_int A a) b))"
| "compare_cell A (PFloat a) op (LFloat b) = Inr (eval_ordering op (cmp_f64 A a b))"
| "compare_cell A (PFloat a) op (LInt b) = Inr (eval_ordering op (cmp_f64 A a (ar_float_of_int A b)))"
| "compare_cell A (PStr a) op (LStr b) = Inr (eval_ordering op (cmp_ord a b))"
| "compare_cell A (PBool a) op (LBool b) =
     (if op = CEq \<or> op = CNe then Inr (eval_ordering op (cmp_ord a b))
      else Inl (InvalidInput ''ordering comparison on boolean column''))"
| "compare_cell A cell op lit = Inl (InvalidInput ''type mismatch'')"

fun in_set :: "arrow \<Rightarrow> policy_cell \<Rightarrow> scalar_lit list \<Rightarrow> bool sres" where
  "in_set A cell [] = Inr False"
| "in_set A cell (v # vs) = and_then (compare_cell A cell CEq v) (\<lambda>eq. if eq then Inr True else in_set A cell vs)"

primrec eval_mask :: "arrow \<Rightarrow> predicate \<Rightarrow> batch \<Rightarrow> bool list sres" where
  "eval_mask A (NotNull column) b =
     map_ok (\<lambda>c. map (\<lambda>i. col_cells c ! i \<noteq> Null) [0..<rb_rows b]) (column_array b column)"
| "eval_mask A (Compare column op v) b =
     and_then (column_array b column) (\<lambda>c.
       map_r (\<lambda>i. and_then (cell_at A c i) (\<lambda>cell. compare_cell A cell op v)) [0..<rb_rows b])"
| "eval_mask A (InSet column vs) b =
     and_then (column_array b column) (\<lambda>c.
       map_r (\<lambda>i. and_then (cell_at A c i) (\<lambda>cell. in_set A cell vs)) [0..<rb_rows b])"
| "eval_mask A (And p q) b =
     and_then (eval_mask A p b) (\<lambda>x. map_ok (\<lambda>y. map (\<lambda>(u, v). u \<and> v) (zip x y)) (eval_mask A q b))"
| "eval_mask A (Or p q) b =
     and_then (eval_mask A p b) (\<lambda>x. map_ok (\<lambda>y. map (\<lambda>(u, v). u \<or> v) (zip x y)) (eval_mask A q b))"
| "eval_mask A (Not p) b = map_ok (map (\<lambda>x. \<not> x)) (eval_mask A p b)"

definition violations :: "arrow \<Rightarrow> predicate \<Rightarrow> batch list \<Rightarrow> nat sres" where
  "violations A p bs =
     map_ok (\<lambda>masks. length (filter (\<lambda>ok. \<not> ok) (concat masks)))
       (map_r (eval_mask A p) (filter (\<lambda>b. rb_rows b \<noteq> 0) bs))"

definition enforce_constraint :: "arrow \<Rightarrow> batch list \<Rightarrow> unit \<Rightarrow> policy_constraint \<Rightarrow> unit sres" where
  "enforce_constraint A bs u c =
     and_then (violations A (co_predicate c) bs) (\<lambda>n.
       if n = 0 then Inr ()
       else case co_on_fail c of Warn \<Rightarrow> Inr () | Reject \<Rightarrow> Inl (DataPolicyViolation (co_name c)))"

definition enforce :: "arrow \<Rightarrow> data_policy \<Rightarrow> batch list \<Rightarrow> unit sres" where
  "enforce A p bs = fold_r (enforce_constraint A bs) () (dp_constraints p)"

text \<open>
  The comparison with a number that is not a number counts as greater, so it passes a lower bound.
\<close>

lemma nan_passes_lower_bounds:
  "ar_float_cmp A nan x = None \<Longrightarrow>
     compare_cell A (PFloat nan) CGt (LFloat x) = Inr True \<and> compare_cell A (PFloat nan) CGe (LFloat x) = Inr True
     \<and> compare_cell A (PFloat nan) CLt (LFloat x) = Inr False \<and> compare_cell A (PFloat nan) CLe (LFloat x) = Inr False"
  by (simp add: cmp_f64_def)

section \<open>What an accepted batch satisfies\<close>

text \<open>A row satisfies a predicate: the truth value is read row by row, without masks.\<close>

definition cell_of :: "arrow \<Rightarrow> batch \<Rightarrow> string \<Rightarrow> nat \<Rightarrow> policy_cell sres" where
  "cell_of A b column i = and_then (column_array b column) (\<lambda>c. cell_at A c i)"

primrec row_satisfies :: "arrow \<Rightarrow> batch \<Rightarrow> nat \<Rightarrow> predicate \<Rightarrow> bool" where
  "row_satisfies A b i (NotNull column) =
     (case column_array b column of Inr c \<Rightarrow> col_cells c ! i \<noteq> Null | Inl _ \<Rightarrow> False)"
| "row_satisfies A b i (Compare column op v) =
     (and_then (cell_of A b column i) (\<lambda>cell. compare_cell A cell op v) = Inr True)"
| "row_satisfies A b i (InSet column vs) =
     (\<exists>v \<in> set vs. and_then (cell_of A b column i) (\<lambda>cell. compare_cell A cell CEq v) = Inr True)"
| "row_satisfies A b i (And p q) = (row_satisfies A b i p \<and> row_satisfies A b i q)"
| "row_satisfies A b i (Or p q) = (row_satisfies A b i p \<or> row_satisfies A b i q)"
| "row_satisfies A b i (Not p) = (\<not> row_satisfies A b i p)"

lemma in_set_iff: "in_set A cell vs = Inr r \<Longrightarrow> r \<longleftrightarrow> (\<exists>v \<in> set vs. compare_cell A cell CEq v = Inr True)"
proof (induction vs)
  case (Cons v vs)
  then obtain eq where eq: "compare_cell A cell CEq v = Inr eq" "(if eq then Inr True else in_set A cell vs) = Inr r"
    by (auto simp: result_simps)
  with Cons.IH show ?case by (cases eq) auto
qed simp

lemma map_r_member: "map_r f xs = Inr ys \<Longrightarrow> x \<in> set xs \<Longrightarrow> \<exists>y \<in> set ys. f x = Inr y"
  by (induction xs arbitrary: ys) (auto simp: result_simps)

lemma map_r_upt: "map_r f [0..<n] = Inr ys \<Longrightarrow> length ys = n \<and> (\<forall>i < n. f i = Inr (ys ! i))"
  by (auto simp: map_r_Inr_iff list_all2_conv_all_nth)

lemma eval_mask_rows:
  "eval_mask A p b = Inr marks \<Longrightarrow> length marks = rb_rows b \<and> (\<forall>i < rb_rows b. marks ! i \<longleftrightarrow> row_satisfies A b i p)"
proof (induction p arbitrary: marks)
  case (Compare column op v)
  then obtain c where c: "column_array b column = Inr c"
    "map_r (\<lambda>i. and_then (cell_at A c i) (\<lambda>cell. compare_cell A cell op v)) [0..<rb_rows b] = Inr marks"
    by (auto simp: result_simps)
  from map_r_upt [OF c(2)] c(1) show ?case by (simp add: cell_of_def)
next
  case (InSet column vs)
  then obtain c where c: "column_array b column = Inr c"
    "map_r (\<lambda>i. and_then (cell_at A c i) (\<lambda>cell. in_set A cell vs)) [0..<rb_rows b] = Inr marks"
    by (auto simp: result_simps)
  have "marks ! i \<longleftrightarrow> row_satisfies A b i (InSet column vs)" if i: "i < rb_rows b" for i
  proof -
    obtain cell where "cell_at A c i = Inr cell" "in_set A cell vs = Inr (marks ! i)"
      using map_r_upt [OF c(2)] i by (auto simp: result_simps)
    with in_set_iff [OF this(2)] c(1) show ?thesis by (simp add: cell_of_def)
  qed
  with map_r_upt [OF c(2)] show ?case by simp
qed (auto simp: result_simps)

lemma violations_none:
  assumes "violations A p bs = Inr 0" and "b \<in> set bs" and "i < rb_rows b"
  shows "row_satisfies A b i p"
proof -
  obtain masks where m: "map_r (eval_mask A p) (filter (\<lambda>b. rb_rows b \<noteq> 0) bs) = Inr masks"
    and none: "\<forall>x \<in> set (concat masks). x"
    using assms(1) by (auto simp: violations_def result_simps filter_empty_conv)
  have "b \<in> set (filter (\<lambda>b. rb_rows b \<noteq> 0) bs)" using assms(2,3) by auto
  then obtain marks where e: "eval_mask A p b = Inr marks" and "marks \<in> set masks"
    using map_r_member [OF m] by blast
  moreover have "i < length marks" using eval_mask_rows [OF e] assms(3) by simp
  ultimately have "marks ! i \<in> set (concat masks)" using nth_mem [of i marks] by (metis UN_I set_concat)
  with none eval_mask_rows [OF e] assms(3) show ?thesis by blast
qed

lemma enforce_ok: "fold_r (enforce_constraint A bs) () cs = Inr () \<Longrightarrow> c \<in> set cs \<Longrightarrow> enforce_constraint A bs () c = Inr ()"
  by (induction cs) (auto simp: result_simps)


definition demo_batch :: batch where
  "demo_batch = \<lparr>rb_schema = [\<lparr>fd_name = ''qty'', fd_type = Int64, fd_nullable = True\<rparr>],
     rb_columns = [\<lparr>col_type = Int64, col_cells = [Num 5, Num 7]\<rparr>], rb_rows = 2\<rparr>"

definition demo_policy :: data_policy where
  "demo_policy = \<lparr>dp_format = 1, dp_constraints = [\<lparr>co_name = ''positive'',
     co_predicate = And (NotNull ''qty'') (Compare ''qty'' CGt (LInt 0)), co_on_fail = Reject\<rparr>]\<rparr>"


end
