(* ===== verification/Store_Reads.thy ===== *)
theory Store_Reads
  imports Store_Policy
begin

text \<open>
  The state of the store and its read path (\<open>database.rs\<close>, \<open>catalog.rs\<close>, \<open>snapshot.rs\<close>,
  \<open>retention.rs\<close>, \<open>fork.rs\<close>): name lookup through the catalog or a fork, version resolution, time
  travel, listings and incremental diffs. Every object of the layout is an entry of a map under the
  key its path is built from; reading fails only where the code makes it fail, so the errors of the
  object store itself are not modelled.
\<close>

section \<open>The objects\<close>

definition FORMAT_VERSION :: nat where "FORMAT_VERSION = 1"
definition READER_VERSION :: nat where "READER_VERSION = 2"
definition MIN_READER_VERSION :: nat where "MIN_READER_VERSION = 1"
definition FORK_MIN_READER_VERSION :: nat where "FORK_MIN_READER_VERSION = 2"

record format_file =
  ff_format_version :: nat
  ff_min_reader_version :: nat

record staging_lease =
  sl_created_at_ns :: int
  sl_expires_at_ns :: int
  sl_segment_paths :: "string list"

record store =
  st_format :: "format_file option"
  st_policy :: "mutation_policy option"
  st_data_policies :: "(uuid, data_policy) btree_map"
  st_catalog :: "(string, catalog_entry) btree_map"
  st_snapshots :: "(string, snapshot) btree_map"
  st_forks :: "(string, fork) btree_map"
  st_fork_catalog :: "(string \<times> string, fork_table_entry) btree_map"
  st_heads :: "(uuid, head) btree_map"
  st_specs :: "(uuid \<times> nat, table_spec) btree_map"
  st_manifests :: "(uuid \<times> nat, manifest) btree_map"
  st_segments :: "(string, string) btree_map"
  st_leases :: "(uuid \<times> uuid, staging_lease) btree_map"
  st_floors :: "(uuid, retention_floor) btree_map"
  st_journals :: "(uuid, txn_journal) btree_map"
  st_plans :: "(uuid \<times> uuid, mutation_plan) btree_map"
  st_fork_index :: "fork_index option"

text \<open>A handle on the database: how it was opened, its fork, and the fault-injection hook.\<close>

record db =
  db_read_only :: bool
  db_local :: bool
  db_fork :: "fork option"
  db_hook :: "string \<Rightarrow> unit sres"

section \<open>Catalogs\<close>

definition load_entry :: "codec \<Rightarrow> store \<Rightarrow> string \<Rightarrow> catalog_entry option sres" where
  "load_entry K S name =
     (case bt_get (st_catalog S) (hash_name K name) of
        None \<Rightarrow> Inr None
      | Some e \<Rightarrow>
          and_then (verify_entry K e) (\<lambda>_.
            if ce_name e \<noteq> name then Inl (Corruption ''catalog entry name does not match requested name'')
            else Inr (Some e)))"

definition list_entries :: "codec \<Rightarrow> store \<Rightarrow> catalog_entry list sres" where
  "list_entries K S =
     map_ok (sort_key ce_name)
       (map_r (\<lambda>(_, e). and_then (verify_entry K e) (\<lambda>_. Inr e)) (st_catalog S))"

definition fork_load_opt :: "codec \<Rightarrow> store \<Rightarrow> string \<Rightarrow> fork option sres" where
  "fork_load_opt K S name =
     (case bt_get (st_forks S) (hash_name K name) of
        None \<Rightarrow> Inr None
      | Some f \<Rightarrow>
          and_then (verify_fork K f) (\<lambda>_.
            if fk_name f \<noteq> name then Inl (Corruption ''fork name does not match requested name'') else Inr (Some f)))"

definition fork_load :: "codec \<Rightarrow> store \<Rightarrow> string \<Rightarrow> fork sres" where
  "fork_load K S name =
     and_then (fork_load_opt K S name) (\<lambda>f. ok_or (ForkNotFound name) f)"

definition fork_load_entry :: "codec \<Rightarrow> store \<Rightarrow> string \<Rightarrow> string \<Rightarrow> fork_table_entry option sres" where
  "fork_load_entry K S fork_name table_name =
     (case bt_get (st_fork_catalog S) (hash_name K fork_name, hash_name K table_name) of
        None \<Rightarrow> Inr None
      | Some e \<Rightarrow>
          and_then (verify_fork_entry K e) (\<lambda>_.
            if fe_name e \<noteq> table_name
            then Inl (Corruption ''fork catalog entry name does not match requested name'') else Inr (Some e)))"

definition fork_list_entries :: "codec \<Rightarrow> store \<Rightarrow> string \<Rightarrow> fork_table_entry list sres" where
  "fork_list_entries K S fork_name =
     map_ok (sort_key fe_name)
       (map_r (\<lambda>(_, e). and_then (verify_fork_entry K e) (\<lambda>_. Inr e))
          (filter (\<lambda>((f, _), _). f = hash_name K fork_name) (st_fork_catalog S)))"

text \<open>What a pin says of a table, when it was written by a version that records it.\<close>

definition pinned_entry :: "codec \<Rightarrow> string \<Rightarrow> uuid \<Rightarrow> fork_pin \<Rightarrow> catalog_entry option" where
  "pinned_entry K name table_id p =
     (case (fp_spec_revision p, fp_created_at_ns p) of
        (Some revision, Some created) \<Rightarrow>
          Some (seal_entry K \<lparr>ce_name = name, ce_table_id = table_id, ce_created_at_ns = created,
                              ce_spec_revision = revision, ce_checksum = ''''\<rparr>)
      | _ \<Rightarrow> None)"

definition entry_opt :: "codec \<Rightarrow> db \<Rightarrow> store \<Rightarrow> string \<Rightarrow> catalog_entry option sres" where
  "entry_opt K D S name =
     (case db_fork D of
        None \<Rightarrow> load_entry K S name
      | Some fk \<Rightarrow>
          and_then (fork_load_entry K S (fk_name fk) name) (\<lambda>owned.
            case owned of
              Some fe \<Rightarrow> Inr (Some (to_catalog_entry K fe))
            | None \<Rightarrow>
                (case pin_by_name fk name of
                   None \<Rightarrow> Inr None
                 | Some (table_id, p) \<Rightarrow>
                     (case pinned_entry K name table_id p of
                        Some e \<Rightarrow> Inr (Some e)
                      | None \<Rightarrow>
                          and_then (load_entry K S name) (\<lambda>base.
                            Inr (case base of
                                   Some e \<Rightarrow> if ce_table_id e = table_id then Some e else None
                                 | None \<Rightarrow> None))))))"

definition entry_of :: "codec \<Rightarrow> db \<Rightarrow> store \<Rightarrow> string \<Rightarrow> catalog_entry sres" where
  "entry_of K D S name = and_then (entry_opt K D S name) (\<lambda>e. ok_or (TableNotFound name) e)"

definition list_tables :: "codec \<Rightarrow> db \<Rightarrow> store \<Rightarrow> catalog_entry list sres" where
  "list_tables K D S =
     (case db_fork D of
        None \<Rightarrow> list_entries K S
      | Some fk \<Rightarrow>
          let pinned = foldl (\<lambda>m (t, p). case pinned_entry K (fp_table_name p) t p of
                                           Some e \<Rightarrow> bt_insert (fp_table_name p) e m | None \<Rightarrow> m) [] (fk_pins fk);
              needs_catalog = list_ex (\<lambda>(t, p). pinned_entry K (fp_table_name p) t p = None) (fk_pins fk)
          in and_then (if needs_catalog then list_entries K S else Inr []) (\<lambda>base.
             let by_name = foldl (\<lambda>m e. if pin fk (ce_table_id e) \<noteq> None then bt_insert (ce_name e) e m else m)
                             pinned base
             in and_then (fork_list_entries K S (fk_name fk)) (\<lambda>owned.
                Inr (map snd (foldl (\<lambda>m fe. bt_insert (fe_name fe) (to_catalog_entry K fe) m) by_name owned)))))"

definition ensure_writable :: "db \<Rightarrow> string \<Rightarrow> unit sres" where
  "ensure_writable D op = (if db_read_only D then Inl (ReadOnly op) else Inr ())"

definition ensure_base :: "db \<Rightarrow> string \<Rightarrow> unit sres" where
  "ensure_base D op =
     (case db_fork D of Some _ \<Rightarrow> Inl (InvalidInput (op @ '' is not available inside a fork'')) | None \<Rightarrow> Inr ())"

definition validate_table_name :: "string \<Rightarrow> unit sres" where
  "validate_table_name name =
     (if name = '''' \<or> length name > 256 then Inl (InvalidInput ''names must be 1..=256 characters'') else Inr ())"

section \<open>Heads, manifests and specifications\<close>

text \<open>The tag a compare-and-swap expects is the digest of the head's bytes.\<close>

record head_state =
  hs_head :: head
  hs_tag :: string

definition heads_read :: "codec \<Rightarrow> store \<Rightarrow> uuid \<Rightarrow> head_state option sres" where
  "heads_read K S t =
     (case bt_get (st_heads S) t of
        None \<Rightarrow> Inr None
      | Some h \<Rightarrow> if hd_format h > FORMAT_VERSION then Inl (FormatTooNew (hd_format h) FORMAT_VERSION)
                  else Inr (Some \<lparr>hs_head = h, hs_tag = sum_head K h\<rparr>))"

definition head_of :: "codec \<Rightarrow> store \<Rightarrow> uuid \<Rightarrow> head_state sres" where
  "head_of K S t = and_then (heads_read K S t) (\<lambda>h. ok_or (Corruption ''missing HEAD'') h)"

definition parse_manifest :: "manifest \<Rightarrow> manifest sres" where
  "parse_manifest m =
     (if vm_format m > FORMAT_VERSION then Inl (FormatTooNew (vm_format m) FORMAT_VERSION) else Inr m)"

definition manifest_at :: "store \<Rightarrow> uuid \<Rightarrow> nat \<Rightarrow> manifest sres" where
  "manifest_at S t n =
     (case bt_get (st_manifests S) (t, n) of
        None \<Rightarrow> Inl (Corruption ''manifest missing for committed sequence'')
      | Some m \<Rightarrow> parse_manifest m)"

definition spec_at :: "codec \<Rightarrow> store \<Rightarrow> uuid \<Rightarrow> nat \<Rightarrow> table_spec sres" where
  "spec_at K S t revision =
     (case bt_get (st_specs S) (t, revision) of
        None \<Rightarrow> Inl (Corruption ''spec revision missing'')
      | Some s \<Rightarrow> and_then (verify_spec K s) (\<lambda>_. Inr s))"

definition retention_floor_of :: "codec \<Rightarrow> store \<Rightarrow> uuid \<Rightarrow> retention_floor option sres" where
  "retention_floor_of K S t =
     (case bt_get (st_floors S) t of
        None \<Rightarrow> Inr None
      | Some f \<Rightarrow> and_then (verify_floor K f) (\<lambda>_. Inr (Some f)))"

definition retention_min_seq :: "codec \<Rightarrow> store \<Rightarrow> uuid \<Rightarrow> nat sres" where
  "retention_min_seq K S t =
     map_ok (\<lambda>f. case f of None \<Rightarrow> 0 | Some fl \<Rightarrow> rf_min_retained_sequence fl) (retention_floor_of K S t)"

text \<open>On a base handle the head; in a fork, for a table it pins, the pin.\<close>

definition effective_head :: "codec \<Rightarrow> db \<Rightarrow> store \<Rightarrow> catalog_entry \<Rightarrow> (nat \<times> string) sres" where
  "effective_head K D S e =
     (case Option.bind (db_fork D) (\<lambda>fk. pin fk (ce_table_id e)) of
        Some p \<Rightarrow> Inr (fp_sequence p, fp_manifest_checksum p)
      | None \<Rightarrow> map_ok (\<lambda>h. (hd_sequence (hs_head h), hd_manifest_checksum (hs_head h))) (head_of K S (ce_table_id e)))"

section \<open>Snapshots\<close>

definition snapshot_list :: "codec \<Rightarrow> store \<Rightarrow> snapshot list sres" where
  "snapshot_list K S =
     map_ok (sort_key sn_name)
       (map_r (\<lambda>(_, s). and_then (verify_snapshot K s) (\<lambda>_. Inr s)) (st_snapshots S))"

definition snapshot_load :: "codec \<Rightarrow> store \<Rightarrow> string \<Rightarrow> snapshot sres" where
  "snapshot_load K S name =
     (case bt_get (st_snapshots S) (hash_name K name) of
        None \<Rightarrow> Inl (SnapshotNotFound name)
      | Some s \<Rightarrow>
          and_then (verify_snapshot K s) (\<lambda>_.
            if sn_name s \<noteq> name then Inl (Corruption ''snapshot name does not match requested name'') else Inr s))"

section \<open>Time travel\<close>

text \<open>The binary search: the commit time of \<open>lo\<close> is at most \<open>ts\<close>, that of \<open>hi\<close> is later.\<close>

function as_of_loop :: "store \<Rightarrow> uuid \<Rightarrow> int \<Rightarrow> nat \<Rightarrow> nat \<Rightarrow> nat sres" where
  "as_of_loop S t ts lo hi =
     (if hi - lo > 1
      then let mid = lo + (hi - lo) div 2
           in and_then (manifest_at S t mid) (\<lambda>m.
                if vm_committed_at_ns m \<le> ts then as_of_loop S t ts mid hi else as_of_loop S t ts lo mid)
      else Inr lo)"
  by pat_completeness auto
termination by (relation "measure (\<lambda>(S, t, ts, lo, hi). hi - lo)") auto

declare as_of_loop.simps [simp del]

definition as_of_sequence :: "store \<Rightarrow> uuid \<Rightarrow> nat \<Rightarrow> nat \<Rightarrow> int \<Rightarrow> nat option sres" where
  "as_of_sequence S t floor_seq head_seq ts =
     and_then (manifest_at S t floor_seq) (\<lambda>first.
       if ts < vm_committed_at_ns first then Inr None
       else and_then (manifest_at S t head_seq) (\<lambda>last_m.
         if ts \<ge> vm_committed_at_ns last_m then Inr (Some head_seq)
         else map_ok Some (as_of_loop S t ts floor_seq head_seq)))"

section \<open>Resolving a version\<close>

datatype read_at = Latest | Version nat | AsOf int | AtSnapshot string

record resolved =
  rs_entry :: catalog_entry
  rs_spec :: table_spec
  rs_manifest :: manifest
  rs_head_sequence :: nat

text \<open>The sequence a read point means, and the digest that vouches for it when one does.\<close>

definition resolve_sequence :: "codec \<Rightarrow> store \<Rightarrow> catalog_entry \<Rightarrow> nat \<Rightarrow> string \<Rightarrow> read_at
    \<Rightarrow> (nat \<times> string option) sres" where
  "resolve_sequence K S e head_seq head_checksum at =
     (case at of
        Latest \<Rightarrow> Inr (head_seq, Some head_checksum)
      | Version v \<Rightarrow>
          and_then (retention_min_seq K S (ce_table_id e)) (\<lambda>retention_floor.
            if v < retention_floor \<or> v > head_seq then Inl (VersionNotFound (ce_name e)) else Inr (v, None))
      | AsOf ts \<Rightarrow>
          and_then (retention_min_seq K S (ce_table_id e)) (\<lambda>retention_floor.
          and_then (as_of_sequence S (ce_table_id e) retention_floor head_seq ts) (\<lambda>sq.
            case sq of Some s \<Rightarrow> Inr (s, None) | None \<Rightarrow> Inl (VersionNotFound (ce_name e))))
      | AtSnapshot snap_name \<Rightarrow>
          and_then (snapshot_load K S snap_name) (\<lambda>snap.
            case bt_get (sn_entries snap) (ce_table_id e) of
              None \<Rightarrow> Inl (InvalidInput ''snapshot does not pin table'')
            | Some se \<Rightarrow> Inr (se_sequence se, Some (se_manifest_checksum se))))"

text \<open>A manifest no root vouches for is checked against its child.\<close>

definition expected_checksum :: "store \<Rightarrow> uuid \<Rightarrow> nat \<Rightarrow> string \<Rightarrow> nat \<Rightarrow> string option \<Rightarrow> string option sres" where
  "expected_checksum S t head_seq head_checksum sequence vouched =
     (case vouched of
        Some c \<Rightarrow> Inr (Some c)
      | None \<Rightarrow> if sequence = head_seq then Inr (Some head_checksum)
                else map_ok vm_parent_checksum (manifest_at S t (sequence + 1)))"

definition resolve_entry :: "codec \<Rightarrow> db \<Rightarrow> store \<Rightarrow> catalog_entry \<Rightarrow> read_at \<Rightarrow> resolved sres" where
  "resolve_entry K D S e at =
     and_then (effective_head K D S e) (\<lambda>(head_seq, head_checksum).
     and_then (resolve_sequence K S e head_seq head_checksum at) (\<lambda>(sequence, vouched).
     and_then (expected_checksum S (ce_table_id e) head_seq head_checksum sequence vouched) (\<lambda>expected.
     and_then (ok_or (Corruption ''manifest missing'') (bt_get (st_manifests S) (ce_table_id e, sequence))) (\<lambda>m0.
       if (case expected of Some c \<Rightarrow> sum_manifest K m0 \<noteq> c | None \<Rightarrow> False)
       then Inl (Corruption ''manifest checksum mismatch'')
       else and_then (parse_manifest m0) (\<lambda>m.
            and_then (spec_at K S (ce_table_id e) (vm_schema_revision m)) (\<lambda>sp.
              Inr \<lparr>rs_entry = e, rs_spec = sp, rs_manifest = m, rs_head_sequence = head_seq\<rparr>))))))"

definition resolve :: "codec \<Rightarrow> db \<Rightarrow> store \<Rightarrow> string \<Rightarrow> read_at \<Rightarrow> resolved sres" where
  "resolve K D S name at = and_then (entry_of K D S name) (\<lambda>e. resolve_entry K D S e at)"

section \<open>Listings and diffs\<close>

record version_summary =
  vs_sequence :: nat
  vs_op :: string
  vs_committed_at_ns :: int
  vs_rows :: nat
  vs_bytes :: nat
  vs_segments :: nat
  vs_note :: "string option"
  vs_execution_mode :: "string option"
  vs_plan_hash :: "string option"

definition summary_of :: "manifest \<Rightarrow> version_summary" where
  "summary_of m =
     \<lparr>vs_sequence = vm_sequence m, vs_op = op_as_str (vm_op m), vs_committed_at_ns = vm_committed_at_ns m,
      vs_rows = vm_rows m, vs_bytes = vm_bytes m, vs_segments = length (vm_segments m), vs_note = vm_note m,
      vs_execution_mode = vm_execution_mode m, vs_plan_hash = vm_plan_hash m\<rparr>"

definition listed_sequences :: "store \<Rightarrow> uuid \<Rightarrow> nat list" where
  "listed_sequences S t = map (snd \<circ> fst) (filter (\<lambda>((t', _), _). t' = t) (st_manifests S))"

definition list_versions :: "codec \<Rightarrow> db \<Rightarrow> store \<Rightarrow> string \<Rightarrow> version_summary list sres" where
  "list_versions K D S name =
     and_then (entry_of K D S name) (\<lambda>e.
     and_then (effective_head K D S e) (\<lambda>(head_seq, _).
     and_then (retention_min_seq K S (ce_table_id e)) (\<lambda>retention_floor.
       map_r (\<lambda>sq. map_ok summary_of (manifest_at S (ce_table_id e) sq))
         (sort (filter (\<lambda>s. s \<ge> retention_floor \<and> s \<le> head_seq) (listed_sequences S (ce_table_id e)))))))"

record version_diff =
  vd_from :: nat
  vd_to :: nat
  vd_added_segments :: "segment_meta list"
  vd_added_rows :: nat
  vd_added_bytes :: nat

definition require_append :: "store \<Rightarrow> uuid \<Rightarrow> unit \<Rightarrow> nat \<Rightarrow> unit sres" where
  "require_append S t u sq =
     and_then (manifest_at S t sq) (\<lambda>m.
       if vm_op m = OpAppend \<or> vm_op m = OpEvolveSchema then Inr ()
       else Inl (Unsupported ''incremental diff requires a pure-append chain''))"

definition diff :: "codec \<Rightarrow> db \<Rightarrow> store \<Rightarrow> string \<Rightarrow> nat \<Rightarrow> nat \<Rightarrow> version_diff sres" where
  "diff K D S name fr to =
     (if fr > to then Inl (InvalidInput ''diff range is reversed'')
      else and_then (resolve K D S name (Version to)) (\<lambda>r.
           and_then (fold_r (require_append S (ce_table_id (rs_entry r))) () [fr + 1..<to + 1]) (\<lambda>_.
             let added = filter (\<lambda>s. sg_created_by_sequence s > fr \<and> sg_created_by_sequence s \<le> to)
                           (vm_segments (rs_manifest r))
             in Inr \<lparr>vd_from = fr, vd_to = to, vd_added_segments = added,
                     vd_added_rows = sum_list (map sg_rows added), vd_added_bytes = sum_list (map sg_bytes added)\<rparr>)))"

section \<open>Time travel is exact\<close>

text \<open>The commit times of a table's committed versions never decrease.\<close>

definition times_increase :: "store \<Rightarrow> uuid \<Rightarrow> nat \<Rightarrow> nat \<Rightarrow> bool" where
  "times_increase S t lo hi \<longleftrightarrow> (\<forall>n. lo \<le> n \<and> n \<le> hi \<longrightarrow> (\<exists>m. manifest_at S t n = Inr m))
     \<and> (\<forall>a b m m'. lo \<le> a \<and> a < b \<and> b \<le> hi \<and> manifest_at S t a = Inr m \<and> manifest_at S t b = Inr m'
          \<longrightarrow> vm_committed_at_ns m \<le> vm_committed_at_ns m')"

definition committed_by :: "store \<Rightarrow> uuid \<Rightarrow> int \<Rightarrow> nat \<Rightarrow> bool" where
  "committed_by S t ts n \<longleftrightarrow> (\<exists>m. manifest_at S t n = Inr m \<and> vm_committed_at_ns m \<le> ts)"

lemma times_increase_present:
  assumes "times_increase S t lo hi" and "lo \<le> n" and "n \<le> hi"
  obtains m where "manifest_at S t n = Inr m"
  using assms by (metis times_increase_def)

lemma times_increase_le:
  assumes "times_increase S t lo hi" and "lo \<le> a" and "a < b" and "b \<le> hi"
    and "manifest_at S t a = Inr m" and "manifest_at S t b = Inr m'"
  shows "vm_committed_at_ns m \<le> vm_committed_at_ns m'"
  using assms by (metis times_increase_def)

lemma committed_by_mono:
  assumes "times_increase S t lo hi" and "committed_by S t ts b" and "lo \<le> a" and "a \<le> b" and "b \<le> hi"
  shows "committed_by S t ts a"
proof (cases "a = b")
  case False
  obtain m where m: "manifest_at S t a = Inr m" using times_increase_present [OF assms(1), of a] assms by auto
  obtain m' where "manifest_at S t b = Inr m'" "vm_committed_at_ns m' \<le> ts" using assms(2) by (auto simp: committed_by_def)
  moreover have "vm_committed_at_ns m \<le> vm_committed_at_ns m'"
    using times_increase_le [OF assms(1), of a b m m'] assms m calculation(1) False by simp
  ultimately show ?thesis using m by (auto simp: committed_by_def)
qed (use assms in simp)

lemma as_of_loop_finds:
  assumes "times_increase S t l h" and "l \<le> lo" and "hi \<le> h" and "lo < hi"
    and "committed_by S t ts lo" and "\<not> committed_by S t ts hi"
  shows "\<exists>n. as_of_loop S t ts lo hi = Inr n \<and> lo \<le> n \<and> n < hi \<and> committed_by S t ts n \<and> \<not> committed_by S t ts (n + 1)"
  using assms
proof (induction S t ts lo hi rule: as_of_loop.induct)
  case (1 S t ts lo hi)
  show ?case
  proof (cases "hi - lo > 1")
    case False
    with 1(6) have "hi = lo + 1" by simp
    with 1 show ?thesis by (auto simp: as_of_loop.simps)
  next
    case True
    define mid where "mid = lo + (hi - lo) div 2"
    have mid: "lo < mid" "mid < hi" using True by (auto simp: mid_def)
    obtain m where m: "manifest_at S t mid = Inr m" using times_increase_present [OF 1(3), of mid] 1(4,5) mid by auto
    show ?thesis
    proof (cases "vm_committed_at_ns m \<le> ts")
      case True
      with m have "committed_by S t ts mid" by (auto simp: committed_by_def)
      with 1(1) [OF \<open>hi - lo > 1\<close> mid_def m True 1(3) _ 1(5) mid(2) _ 1(8)] 1(4) mid
      obtain n where "as_of_loop S t ts mid hi = Inr n" "mid \<le> n" "n < hi" "committed_by S t ts n" "\<not> committed_by S t ts (n + 1)"
        by auto
      with \<open>hi - lo > 1\<close> m True mid show ?thesis by (subst as_of_loop.simps) (auto simp: Let_def simp flip: mid_def)
    next
      case False
      with m have "\<not> committed_by S t ts mid" by (auto simp: committed_by_def)
      with 1(2) [OF \<open>hi - lo > 1\<close> mid_def m False 1(3,4) _ mid(1) 1(7)] 1(5) mid
      obtain n where "as_of_loop S t ts lo mid = Inr n" "lo \<le> n" "n < mid" "committed_by S t ts n" "\<not> committed_by S t ts (n + 1)"
        by auto
      with \<open>hi - lo > 1\<close> m False mid show ?thesis by (subst as_of_loop.simps) (auto simp: Let_def simp flip: mid_def)
    qed
  qed
qed

text \<open>The largest retained version committed by \<open>ts\<close>, or none when even the floor is later.\<close>

lemma as_of_sequence_exact:
  assumes "times_increase S t lo hi" and "lo \<le> hi"
  shows "as_of_sequence S t lo hi ts =
    Inr (if committed_by S t ts lo then Some (Max {n. lo \<le> n \<and> n \<le> hi \<and> committed_by S t ts n}) else None)"
proof -
  let ?N = "{n. lo \<le> n \<and> n \<le> hi \<and> committed_by S t ts n}"
  have fin: "finite ?N" by (rule finite_subset [of _ "{..hi}"]) auto
  obtain f where f: "manifest_at S t lo = Inr f" using times_increase_present [OF assms(1) order_refl assms(2)] .
  obtain l where l: "manifest_at S t hi = Inr l" using times_increase_present [OF assms(1) assms(2) order_refl] .
  have lo: "committed_by S t ts lo \<longleftrightarrow> \<not> ts < vm_committed_at_ns f" by (simp add: committed_by_def f not_less)
  have hi: "committed_by S t ts hi \<longleftrightarrow> vm_committed_at_ns l \<le> ts" by (simp add: committed_by_def l)
  consider "\<not> committed_by S t ts lo" | "committed_by S t ts lo" "committed_by S t ts hi"
    | "committed_by S t ts lo" "\<not> committed_by S t ts hi" by blast
  then show ?thesis
  proof cases
    case 1
    with f lo show ?thesis by (simp add: as_of_sequence_def)
  next
    case 2
    then have "Max ?N = hi" using assms(2) by (intro Max_eqI fin) auto
    with 2 f l lo hi show ?thesis by (simp add: as_of_sequence_def)
  next
    case 3
    then have "lo < hi" using assms(2) by (cases "lo = hi") auto
    then obtain n where n: "as_of_loop S t ts lo hi = Inr n" "lo \<le> n" "n < hi" "committed_by S t ts n" "\<not> committed_by S t ts (n + 1)"
      using as_of_loop_finds [OF assms(1) order_refl order_refl _ 3] by blast
    have "Max ?N = n"
    proof (intro Max_eqI fin)
      fix k assume k: "k \<in> ?N"
      show "k \<le> n"
      proof (rule ccontr)
        assume "\<not> k \<le> n"
        then have "committed_by S t ts (n + 1)" using committed_by_mono [OF assms(1), of ts k "n + 1"] k n by auto
        with n show False by simp
      qed
    qed (use n in auto)
    with 3 f l lo hi n show ?thesis by (simp add: as_of_sequence_def)
  qed
qed

end
