(* ===== verification/Store_Host.thy ===== *)
theory Store_Host
  imports Store_Reads
begin

text \<open>
  Computations that change the store. A \<open>host\<close> holds the objects together with everything a
  process gets from outside: a clock that may say anything, fresh identifiers, and a budget of
  writes after which the process dies. A write is atomic and durable; a crash is a write that does
  not happen and that nothing after it survives. An operation is a function from a host to a host
  and a result, so an early return leaves the writes made so far in place.
\<close>

section \<open>Hosts and actions\<close>

record host =
  ho_store :: store
  ho_budget :: "nat option"
  ho_clock :: "nat \<Rightarrow> int"
  ho_ticks :: nat
  ho_ids :: "nat \<Rightarrow> uuid"
  ho_issued :: nat

type_synonym 'a act = "host \<Rightarrow> host \<times> 'a sres"

definition give :: "'a \<Rightarrow> 'a act" where "give x H = (H, Inr x)"

definition raise :: "store_error \<Rightarrow> 'a act" where "raise e H = (H, Inl e)"

definition act_then :: "'a act \<Rightarrow> ('a \<Rightarrow> 'b act) \<Rightarrow> 'b act" where
  "act_then m k H = (case m H of (H', Inl e) \<Rightarrow> (H', Inl e) | (H', Inr x) \<Rightarrow> k x H')"

text \<open>A pure step that may fail, and a read of the store.\<close>

definition lift :: "'a sres \<Rightarrow> 'a act" where "lift r H = (H, r)"

definition ask :: "(store \<Rightarrow> 'a sres) \<Rightarrow> 'a act" where "ask f H = (H, f (ho_store H))"

definition put :: "(store \<Rightarrow> store) \<Rightarrow> unit act" where
  "put g H =
     (case ho_budget H of
        Some 0 \<Rightarrow> (H, Inl Crashed)
      | _ \<Rightarrow> (H\<lparr>ho_store := g (ho_store H), ho_budget := map_option (\<lambda>n. n - 1) (ho_budget H)\<rparr>, Inr ()))"

definition now :: "int act" where
  "now H = (H\<lparr>ho_ticks := ho_ticks H + 1\<rparr>, Inr (ho_clock H (ho_ticks H)))"

definition fresh_id :: "uuid act" where
  "fresh_id H = (H\<lparr>ho_issued := ho_issued H + 1\<rparr>, Inr (ho_ids H (ho_issued H)))"

text \<open>\<open>let _ = \<dots>\<close>: the outcome is ignored.\<close>

definition attempt :: "'a act \<Rightarrow> unit act" where
  "attempt m H = (fst (m H), Inr ())"

text \<open>Run a step and look at how it ended.\<close>

definition outcome :: "'a act \<Rightarrow> 'a sres act" where
  "outcome m H = (case m H of (H', r) \<Rightarrow> (H', Inr r))"

primrec act_map :: "('a \<Rightarrow> 'b act) \<Rightarrow> 'a list \<Rightarrow> 'b list act" where
  "act_map f [] = give []"
| "act_map f (x # xs) = act_then (f x) (\<lambda>y. act_then (act_map f xs) (\<lambda>ys. give (y # ys)))"

primrec act_fold :: "('s \<Rightarrow> 'a \<Rightarrow> 's act) \<Rightarrow> 's \<Rightarrow> 'a list \<Rightarrow> 's act" where
  "act_fold f s [] = give s"
| "act_fold f s (x # xs) = act_then (f s x) (\<lambda>s'. act_fold f s' xs)"

section \<open>Triples\<close>

text \<open>
  A property of the store may also speak of the identifiers still to be issued. \<open>triple E P m Q\<close>:
  from a state with \<open>P\<close>, \<open>m\<close> returns in a state with \<open>Q\<close>, or it stops, by an error, an early return
  or a crash, in a state with \<open>E\<close>.
\<close>

type_synonym view = "store \<times> (nat \<Rightarrow> uuid) \<times> nat"

definition view :: "host \<Rightarrow> view" where "view H = (ho_store H, ho_ids H, ho_issued H)"

definition triple :: "(view \<Rightarrow> bool) \<Rightarrow> (view \<Rightarrow> bool) \<Rightarrow> 'a act \<Rightarrow> ('a \<Rightarrow> view \<Rightarrow> bool) \<Rightarrow> bool" where
  "triple E P m Q \<longleftrightarrow> (\<forall>H. P (view H) \<longrightarrow> (case m H of (H', Inl e) \<Rightarrow> E (view H') | (H', Inr x) \<Rightarrow> Q x (view H')))"

abbreviation keeps :: "(view \<Rightarrow> bool) \<Rightarrow> 'a act \<Rightarrow> bool" where
  "keeps I m \<equiv> triple I I m (\<lambda>_. I)"

lemma keepsD: "keeps I m \<Longrightarrow> I (view H) \<Longrightarrow> I (view (fst (m H)))"
  unfolding triple_def by (cases "m H"; cases "snd (m H)") fastforce+

lemma tripleD: "triple E P m Q \<Longrightarrow> P (view H) \<Longrightarrow> m H = (H', Inr x) \<Longrightarrow> Q x (view H')"
  unfolding triple_def by fastforce

lemma triple_weaken:
  assumes "triple E P m Q" and "\<And>v. P' v \<Longrightarrow> P v" and "\<And>x v. Q x v \<Longrightarrow> Q' x v" and "\<And>v. E v \<Longrightarrow> E' v"
  shows "triple E' P' m Q'"
  unfolding triple_def
proof (intro allI impI)
  fix H assume "P' (view H)"
  with assms(1,2) have "case m H of (H', Inl e) \<Rightarrow> E (view H') | (H', Inr x) \<Rightarrow> Q x (view H')" by (simp add: triple_def)
  then show "case m H of (H', Inl e) \<Rightarrow> E' (view H') | (H', Inr x) \<Rightarrow> Q' x (view H')"
    using assms(3,4) by (auto split: prod.splits sum.splits)
qed

lemma triple_then:
  assumes "triple E P m Q" and "\<And>x. triple E (Q x) (k x) R"
  shows "triple E P (act_then m k) R"
  unfolding triple_def
proof (intro allI impI)
  fix H assume P: "P (view H)"
  obtain H1 r where m: "m H = (H1, r)" by (cases "m H")
  show "case act_then m k H of (H', Inl e) \<Rightarrow> E (view H') | (H', Inr x) \<Rightarrow> R x (view H')"
  proof (cases r)
    case (Inl e)
    with assms(1) P m show ?thesis by (force simp: triple_def act_then_def)
  next
    case (Inr x)
    with assms(1) P m have "Q x (view H1)" by (force simp: triple_def)
    with assms(2) [of x] Inr m show ?thesis by (simp add: triple_def act_then_def)
  qed
qed

lemma triple_give: "(\<And>v. P v \<Longrightarrow> Q x v) \<Longrightarrow> triple E P (give x) Q"
  by (simp add: triple_def give_def)

lemma triple_raise: "(\<And>v. P v \<Longrightarrow> E v) \<Longrightarrow> triple E P (raise e) Q"
  by (simp add: triple_def raise_def)

lemma triple_lift: "(\<And>v. P v \<Longrightarrow> E v) \<Longrightarrow> (\<And>x v. r = Inr x \<Longrightarrow> P v \<Longrightarrow> Q x v) \<Longrightarrow> triple E P (lift r) Q"
  by (cases r) (auto simp: triple_def lift_def)

lemma triple_ask:
  "(\<And>v. P v \<Longrightarrow> E v) \<Longrightarrow> (\<And>x S i n. f S = Inr x \<Longrightarrow> P (S, i, n) \<Longrightarrow> Q x (S, i, n)) \<Longrightarrow> triple E P (ask f) Q"
  by (auto simp: triple_def ask_def view_def split: sum.splits)

lemma triple_put:
  "(\<And>v. P v \<Longrightarrow> E v) \<Longrightarrow> (\<And>S i n. P (S, i, n) \<Longrightarrow> Q () (g S, i, n)) \<Longrightarrow> triple E P (put g) Q"
  by (auto simp: triple_def put_def view_def split: option.splits nat.splits)

lemma triple_now: "(\<And>x v. P v \<Longrightarrow> Q x v) \<Longrightarrow> triple E P now Q"
  by (simp add: triple_def now_def view_def)

lemma triple_fresh: "(\<And>S i n. P (S, i, n) \<Longrightarrow> Q (i n) (S, i, Suc n)) \<Longrightarrow> triple E P fresh_id Q"
  by (simp add: triple_def fresh_id_def view_def)

lemma triple_if: "(b \<Longrightarrow> triple E P m Q) \<Longrightarrow> (\<not> b \<Longrightarrow> triple E P m' Q) \<Longrightarrow> triple E P (if b then m else m') Q"
  by simp

lemma triple_option:
  "(ob = None \<Longrightarrow> triple E P m Q) \<Longrightarrow> (\<And>x. ob = Some x \<Longrightarrow> triple E P (k x) Q) \<Longrightarrow>
   triple E P (case ob of None \<Rightarrow> m | Some x \<Rightarrow> k x) Q"
  by (cases ob) auto

lemma triple_sum:
  "(\<And>e. r = Inl e \<Longrightarrow> triple E P (m e) Q) \<Longrightarrow> (\<And>x. r = Inr x \<Longrightarrow> triple E P (k x) Q) \<Longrightarrow>
   triple E P (case r of Inl e \<Rightarrow> m e | Inr x \<Rightarrow> k x) Q"
  by (cases r) auto

lemma triple_prod: "(\<And>x y. p = (x, y) \<Longrightarrow> triple E P (k x y) Q) \<Longrightarrow> triple E P (case p of (x, y) \<Rightarrow> k x y) Q"
  by (cases p) auto

lemma triple_pre: "(C \<Longrightarrow> triple E P m Q) \<Longrightarrow> triple E (\<lambda>v. P v \<and> C) m Q"
  by (auto simp: triple_def)

section \<open>What an operation keeps\<close>

named_theorems keeps \<open>invariants of the operations\<close>

lemma keeps_pure [keeps, intro!]:
  "keeps I (give x)" "keeps I (raise e)" "keeps I (lift r)" "keeps I (ask f)" "keeps I now"
  by (auto intro: triple_give triple_raise triple_lift triple_ask triple_now)

lemma keeps_then [keeps, intro]: "keeps I m \<Longrightarrow> (\<And>x. keeps I (k x)) \<Longrightarrow> keeps I (act_then m k)"
  by (rule triple_then)

lemma keeps_put: "(\<And>S i n. I (S, i, n) \<Longrightarrow> I (g S, i, n)) \<Longrightarrow> keeps I (put g)"
  by (rule triple_put)

lemma keeps_attempt [keeps, intro]: "keeps I m \<Longrightarrow> keeps I (attempt m)"
  using keepsD by (fastforce simp: triple_def [of _ _ "attempt m"] attempt_def)

lemma keeps_outcome [keeps, intro]: "keeps I m \<Longrightarrow> keeps I (outcome m)"
  using keepsD by (fastforce simp: triple_def [of _ _ "outcome m"] outcome_def split: prod.splits)

lemma keeps_map [keeps, intro]: "(\<And>x. x \<in> set xs \<Longrightarrow> keeps I (f x)) \<Longrightarrow> keeps I (act_map f xs)"
  by (induction xs) auto

lemma keeps_fold [keeps, intro]: "(\<And>s x. x \<in> set xs \<Longrightarrow> keeps I (f s x)) \<Longrightarrow> keeps I (act_fold f s xs)"
  by (induction xs arbitrary: s) auto

lemmas keeps_cases [keeps, intro] =
  triple_if [where E = I and P = I and Q = "\<lambda>_. I" for I]
  triple_option [where E = I and P = I and Q = "\<lambda>_. I" for I]
  triple_sum [where E = I and P = I and Q = "\<lambda>_. I" for I]
  triple_prod [where E = I and P = I and Q = "\<lambda>_. I" for I]

section \<open>Successful runs\<close>

lemma act_then_Inr:
  "act_then m k H = (H', Inr y) \<longleftrightarrow> (\<exists>H1 x. m H = (H1, Inr x) \<and> k x H1 = (H', Inr y))"
  by (auto simp: act_then_def split: prod.splits sum.splits)

lemma give_Inr: "give x H = (H', Inr y) \<longleftrightarrow> H' = H \<and> y = x"
  by (auto simp: give_def)

lemma raise_Inr: "raise e H \<noteq> (H', Inr y)"
  by (simp add: raise_def)

lemma lift_Inr: "lift r H = (H', Inr y) \<longleftrightarrow> H' = H \<and> r = Inr y"
  by (auto simp: lift_def)

lemma ask_Inr: "ask f H = (H', Inr y) \<longleftrightarrow> H' = H \<and> f (ho_store H) = Inr y"
  by (auto simp: ask_def)

lemma put_Inr:
  "put g H = (H', Inr y) \<longleftrightarrow> ho_budget H \<noteq> Some 0
     \<and> H' = H\<lparr>ho_store := g (ho_store H), ho_budget := map_option (\<lambda>n. n - 1) (ho_budget H)\<rparr>"
  by (auto simp: put_def split: option.splits nat.splits)

lemmas act_Inr = act_then_Inr give_Inr raise_Inr lift_Inr ask_Inr put_Inr

end
