(* ===== verification/Store_Segments.thy ===== *)
theory Store_Segments
  imports Store_Host
begin

text \<open>
  Writing and reading segments (\<open>segment.rs\<close>): the writer that buffers batches, splits them at the
  target size, records a staging lease before every upload and returns the metadata of what it wrote;
  the readers; and the content deduplication of \<open>database.rs\<close>. Parquet is third-party and enters as
  the fields of a \<open>parquet\<close>.
\<close>

section \<open>Paths\<close>

definition table_prefix :: "uuid \<Rightarrow> string" where
  "table_prefix t = ''tables/'' @ t"

definition segment_path :: "uuid \<Rightarrow> uuid \<Rightarrow> string" where
  "segment_path t s = table_prefix t @ ''/segments/'' @ s @ ''.parquet''"

definition starts_with :: "string \<Rightarrow> string \<Rightarrow> bool" where
  "starts_with path prefix \<longleftrightarrow> take (length prefix) path = prefix"

section \<open>Parquet\<close>

text \<open>The statistics of a column chunk, by physical type.\<close>

datatype pq_stats = PqInt64 "int option" "int option" | PqInt32 "int option" "int option" | PqOther

record pq_metadata =
  pm_schema :: schema
  pm_leaves :: "string list list"
  pm_groups :: "pq_stats option list list"

record parquet =
  pq_encode :: "table_spec \<Rightarrow> schema \<Rightarrow> nat \<Rightarrow> nat \<Rightarrow> batch list \<Rightarrow> string sres"
  pq_metadata_of :: "string \<Rightarrow> pq_metadata sres"
  pq_read :: "string \<Rightarrow> nat list option \<Rightarrow> nat list option \<Rightarrow> batch list sres"

section \<open>The writer\<close>

definition STAGING_LEASE_TTL_SECONDS :: int where "STAGING_LEASE_TTL_SECONDS = 24 * 3600"

record writer =
  wr_spec :: table_spec
  wr_schema :: schema
  wr_created_by_sequence :: nat
  wr_written :: "segment_meta list"
  wr_buffered :: "batch list"
  wr_buffered_bytes :: nat
  wr_input_sorted :: bool
  wr_last_sort_row :: "scalar_stat list option"
  wr_writer_id :: uuid
  wr_lease :: "staging_lease option"

definition writer_new :: "table_spec \<Rightarrow> schema \<Rightarrow> nat \<Rightarrow> writer act" where
  "writer_new sp sch sq =
     act_then fresh_id (\<lambda>wid.
       give \<lparr>wr_spec = sp, wr_schema = sch, wr_created_by_sequence = sq, wr_written = [], wr_buffered = [],
             wr_buffered_bytes = 0, wr_input_sorted = True, wr_last_sort_row = None, wr_writer_id = wid, wr_lease = None\<rparr>)"

definition lease_key :: "writer \<Rightarrow> uuid \<times> uuid" where
  "lease_key w = (tsp_table_id (wr_spec w), wr_writer_id w)"

definition lease_path :: "writer \<Rightarrow> (uuid \<times> uuid) option" where
  "lease_path w = map_option (\<lambda>_. lease_key w) (wr_lease w)"

definition record_staged :: "writer \<Rightarrow> string \<Rightarrow> writer act" where
  "record_staged w path =
     act_then now (\<lambda>wall.
       let t = monotonic_commit_ts wall None;
           lease = (case wr_lease w of
                      Some l \<Rightarrow> l
                    | None \<Rightarrow> \<lparr>sl_created_at_ns = t, sl_expires_at_ns = wrap64 (t + STAGING_LEASE_TTL_SECONDS * 1000000000),
                               sl_segment_paths = []\<rparr>);
           lease' = lease\<lparr>sl_segment_paths := sl_segment_paths lease @ [path]\<rparr>
       in act_then (put (\<lambda>S. S\<lparr>st_leases := bt_insert (lease_key w) lease' (st_leases S)\<rparr>)) (\<lambda>_.
            give (w\<lparr>wr_lease := Some lease'\<rparr>)))"

definition flush :: "codec \<Rightarrow> arrow \<Rightarrow> parquet \<Rightarrow> writer \<Rightarrow> writer act" where
  "flush K A P w =
     (if wr_buffered w = [] then give w
      else let batches = wr_buffered w;
               rows = sum_list (map rb_rows batches);
               bytes = wr_buffered_bytes w;
               w1 = w\<lparr>wr_buffered := [], wr_buffered_bytes := 0\<rparr>
           in act_then (lift (pq_encode P (wr_spec w) (wr_schema w) rows bytes batches)) (\<lambda>buf.
              act_then (lift (segment_time_range A (tsp_time_column (wr_spec w)) batches)) (\<lambda>time_range.
              act_then fresh_id (\<lambda>sid.
              let path = segment_path (tsp_table_id (wr_spec w)) sid
              in act_then (record_staged w1 path) (\<lambda>w2.
                 act_then (put (\<lambda>S. S\<lparr>st_segments := bt_insert path buf (st_segments S)\<rparr>)) (\<lambda>_.
                   give (w2\<lparr>wr_written := wr_written w2 @
                     [\<lparr>sg_id = sid, sg_path = path, sg_rows = rows, sg_bytes = length buf,
                       sg_checksum = sum_bytes K buf, sg_time_range = time_range,
                       sg_sorted = (wr_input_sorted w \<and> tsp_sort_key (wr_spec w) \<noteq> []),
                       sg_schema_revision = tsp_schema_revision (wr_spec w),
                       sg_created_by_sequence = wr_created_by_sequence w,
                       sg_columns = column_statistics A (wr_schema w) batches\<rparr>]\<rparr>)))))))"

definition sort_row_scalars :: "arrow \<Rightarrow> batch \<Rightarrow> nat \<Rightarrow> string list \<Rightarrow> scalar_stat list sres" where
  "sort_row_scalars A b row key =
     map_r (\<lambda>name.
       and_then (column_named b name) (\<lambda>c.
         case array_minmax A \<lparr>col_type = col_type c, col_cells = [col_cells c ! row]\<rparr> of
           Some (Some mn, _) \<Rightarrow> Inr mn
         | _ \<Rightarrow> Inl (InvalidInput ''sort key column has a null or non-comparable value at a batch boundary''))) key"

fun row_less_than :: "arrow \<Rightarrow> scalar_stat list \<Rightarrow> scalar_stat list \<Rightarrow> bool" where
  "row_less_than A (x # xs) (y # ys) =
     (if less_than A x y then True else if less_than A y x then False else row_less_than A xs ys)"
| "row_less_than A _ _ = False"

text \<open>The sortedness of the input so far, across batch boundaries.\<close>

definition track_order :: "arrow \<Rightarrow> batch \<Rightarrow> writer \<Rightarrow> writer sres" where
  "track_order A b w =
     (let key = tsp_sort_key (wr_spec w)
      in if key = [] then Inr w
         else and_then (batch_is_sorted A b key) (\<lambda>s.
              let w1 = (if s then w else w\<lparr>wr_input_sorted := False\<rparr>)
              in if \<not> wr_input_sorted w1 then Inr w1
                 else and_then (sort_row_scalars A b 0 key) (\<lambda>first.
                      let w2 = (case wr_last_sort_row w1 of
                                  Some last_row \<Rightarrow> if row_less_than A first last_row then w1\<lparr>wr_input_sorted := False\<rparr> else w1
                                | None \<Rightarrow> w1)
                      in map_ok (\<lambda>row. w2\<lparr>wr_last_sort_row := Some row\<rparr>) (sort_row_scalars A b (rb_rows b - 1) key))))"

definition push :: "codec \<Rightarrow> arrow \<Rightarrow> parquet \<Rightarrow> writer \<Rightarrow> batch \<Rightarrow> writer act" where
  "push K A P w b =
     (if rb_rows b = 0 then give w
      else act_then (lift (track_order A b w)) (\<lambda>w1.
           let w2 = w1\<lparr>wr_buffered_bytes := wr_buffered_bytes w1 + ar_memory_size A b, wr_buffered := wr_buffered w1 @ [b]\<rparr>
           in if wr_buffered_bytes w2 \<ge> target_segment_bytes (tsp_storage (wr_spec w2)) then flush K A P w2 else give w2))"

definition writer_finish :: "codec \<Rightarrow> arrow \<Rightarrow> parquet \<Rightarrow> writer \<Rightarrow> (segment_meta list \<times> bool \<times> (uuid \<times> uuid) option) act" where
  "writer_finish K A P w =
     act_then (flush K A P w) (\<lambda>w'. give (wr_written w', wr_input_sorted w', lease_path w'))"

text \<open>Feeding the writer from a merge until the merge is exhausted.\<close>

definition remaining :: "merger \<Rightarrow> nat" where
  "remaining m = sum_list (map (\<lambda>(b, pos). rb_rows b - pos) (zip (mg_batches m) (mg_positions m)))"

primrec drain_merger :: "codec \<Rightarrow> arrow \<Rightarrow> parquet \<Rightarrow> nat \<Rightarrow> merger \<Rightarrow> writer \<Rightarrow> writer act" where
  "drain_merger K A P 0 m w = raise (Internal ''out of fuel'')"
| "drain_merger K A P (Suc n) m w =
     act_then (lift (next_chunk A m)) (\<lambda>(chunk, m').
       case chunk of
         None \<Rightarrow> give w
       | Some b \<Rightarrow> act_then (push K A P w b) (drain_merger K A P n m'))"

definition push_merged :: "codec \<Rightarrow> arrow \<Rightarrow> parquet \<Rightarrow> batch list \<Rightarrow> string list \<Rightarrow> writer \<Rightarrow> writer act" where
  "push_merged K A P bs key w =
     act_then (lift (sort_each_batch A bs key)) (\<lambda>sorted.
     act_then (lift (merger_new sorted key MERGE_CHUNK_ROWS)) (\<lambda>m.
       drain_merger K A P (remaining m + 1) m w))"

section \<open>Reading\<close>

definition find_position :: "('a \<Rightarrow> bool) \<Rightarrow> 'a list \<Rightarrow> nat option" where
  "find_position p xs = List.find (\<lambda>i. p (xs ! i)) [0..<length xs]"

definition parquet_leaf_index :: "string list list \<Rightarrow> string \<Rightarrow> nat option" where
  "parquet_leaf_index leaves name = find_position (\<lambda>parts. parts = [name]) leaves"

fun parquet_i64_stats :: "pq_stats \<Rightarrow> (int \<times> int) option" where
  "parquet_i64_stats (PqInt64 (Some a) (Some b)) = Some (a, b)"
| "parquet_i64_stats (PqInt32 (Some a) (Some b)) = Some (a, b)"
| "parquet_i64_stats _ = None"

definition group_overlaps :: "int option \<Rightarrow> int option \<Rightarrow> pq_stats option \<Rightarrow> bool" where
  "group_overlaps start stop stats =
     (case Option.bind stats parquet_i64_stats of
        None \<Rightarrow> False
      | Some (mn, mx) \<Rightarrow>
          (case stop of None \<Rightarrow> True | Some e \<Rightarrow> mn < e) \<and> (case start of None \<Rightarrow> True | Some s \<Rightarrow> mx \<ge> s))"

text \<open>The row groups to read: a restriction only when every group has statistics for the column.\<close>

definition kept_groups :: "pq_metadata \<Rightarrow> (string \<times> int option \<times> int option) option \<Rightarrow> nat list option" where
  "kept_groups meta tf =
     (case tf of
        None \<Rightarrow> None
      | Some (tc, start, stop) \<Rightarrow>
          (case parquet_leaf_index (pm_leaves meta) tc of
             None \<Rightarrow> None
           | Some c \<Rightarrow>
               if list_all (\<lambda>g. g ! c \<noteq> None) (pm_groups meta)
               then Some (filter (\<lambda>g. group_overlaps start stop (pm_groups meta ! g ! c)) [0..<length (pm_groups meta)])
               else None))"

definition roots_of :: "schema \<Rightarrow> string list option \<Rightarrow> nat list option sres" where
  "roots_of sch projection =
     (case projection of
        None \<Rightarrow> Inr None
      | Some cols \<Rightarrow> map_ok Some (map_r (\<lambda>c. ok_or (ArrowError ''no such field'') (index_of sch c)) cols))"

definition filtered :: "arrow \<Rightarrow> (string \<times> int option \<times> int option) option \<Rightarrow> batch list \<Rightarrow> batch list sres" where
  "filtered A tf bs =
     (case tf of
        None \<Rightarrow> Inr bs
      | Some (tc, start, stop) \<Rightarrow>
          if start = None \<and> stop = None then Inr bs else filter_batches_by_time A bs tc start stop)"

definition segment_bytes :: "store \<Rightarrow> string \<Rightarrow> string sres" where
  "segment_bytes S path = ok_or (ObjectStoreError ''segment object missing'') (bt_get (st_segments S) path)"

definition read_segment :: "arrow \<Rightarrow> parquet \<Rightarrow> store \<Rightarrow> segment_meta \<Rightarrow> string list option
    \<Rightarrow> (string \<times> int option \<times> int option) option \<Rightarrow> batch list sres" where
  "read_segment A P S seg projection tf =
     and_then (segment_bytes S (sg_path seg)) (\<lambda>bytes.
     and_then (pq_metadata_of P bytes) (\<lambda>meta.
     and_then (roots_of (pm_schema meta) projection) (\<lambda>roots.
     and_then (pq_read P bytes roots (kept_groups meta tf)) (filtered A tf))))"

definition read_segment_verified :: "codec \<Rightarrow> arrow \<Rightarrow> parquet \<Rightarrow> store \<Rightarrow> segment_meta \<Rightarrow> string list option
    \<Rightarrow> (string \<times> int option \<times> int option) option \<Rightarrow> batch list sres" where
  "read_segment_verified K A P S seg projection tf =
     and_then (segment_bytes S (sg_path seg)) (\<lambda>bytes.
       if sum_bytes K bytes \<noteq> sg_checksum seg then Inl (Corruption ''segment content checksum mismatch'')
       else and_then (pq_metadata_of P bytes) (\<lambda>meta.
            and_then (roots_of (pm_schema meta) projection) (\<lambda>roots.
            and_then (pq_read P bytes roots None) (filtered A tf))))"

section \<open>Deduplication\<close>

definition reusable :: "(string, segment_meta) btree_map \<Rightarrow> segment_meta \<Rightarrow> segment_meta option" where
  "reusable by_hash seg =
     (case bt_get by_hash (sg_checksum seg) of
        Some existing \<Rightarrow> if sg_bytes existing = sg_bytes seg \<and> sg_rows existing = sg_rows seg then Some existing else None
      | None \<Rightarrow> None)"

definition dedup_segments :: "segment_meta list \<Rightarrow> manifest \<Rightarrow> (segment_meta list \<times> nat) act" where
  "dedup_segments new_segments parent =
     (let by_hash = segments_by_checksum parent;
          redundant = map sg_path (filter (\<lambda>s. reusable by_hash s \<noteq> None) new_segments)
      in act_then (act_map (\<lambda>path. attempt (put (\<lambda>S. S\<lparr>st_segments := bt_remove path (st_segments S)\<rparr>))) redundant) (\<lambda>_.
         give (map (\<lambda>s. case reusable by_hash s of Some e \<Rightarrow> e | None \<Rightarrow> s) new_segments, length redundant)))"

text \<open>The lease of a writer whose segments are referenced goes away, if it can.\<close>

definition release_staging :: "(uuid \<times> uuid) option \<Rightarrow> unit act" where
  "release_staging lease =
     (case lease of
        None \<Rightarrow> give ()
      | Some k \<Rightarrow> attempt (put (\<lambda>S. S\<lparr>st_leases := bt_remove k (st_leases S)\<rparr>)))"

end
