(* ===== verification/Store_Evolution.thy ===== *)
theory Store_Evolution
  imports Store_Types
begin

text \<open>
  Schema evolution (\<open>evolution.rs\<close>): which schemas a table may move to without rewriting a segment,
  and how a batch written under an older schema is read under a newer one. The cast of an Arrow
  column and the constructor of a batch are third-party and enter as arguments; the texts of the
  change list are a datatype.
\<close>

section \<open>Legal changes\<close>

datatype schema_change = RelaxNullability string | Widen string data_type data_type | AddColumn string data_type

fun int_rank :: "data_type \<Rightarrow> (nat \<times> nat) option" where
  "int_rank Int8 = Some (0, 0)"
| "int_rank Int16 = Some (0, 1)"
| "int_rank Int32 = Some (0, 2)"
| "int_rank Int64 = Some (0, 3)"
| "int_rank UInt8 = Some (1, 0)"
| "int_rank UInt16 = Some (1, 1)"
| "int_rank UInt32 = Some (1, 2)"
| "int_rank UInt64 = Some (1, 3)"
| "int_rank Float32 = Some (2, 0)"
| "int_rank Float64 = Some (2, 1)"
| "int_rank _ = None"

definition is_widening :: "data_type \<Rightarrow> data_type \<Rightarrow> bool" where
  "is_widening a b =
     (case (int_rank a, int_rank b) of (Some (fa, fr), Some (ta, tr)) \<Rightarrow> fa = ta \<and> fr < tr | _ \<Rightarrow> False)"

text \<open>One existing column against the column at its position in the new schema.\<close>

definition evolve_field :: "schema_change list \<Rightarrow> field \<times> field \<Rightarrow> schema_change list sres" where
  "evolve_field changes pair =
     (case pair of (old_f, new_f) \<Rightarrow>
        if fd_name new_f \<noteq> fd_name old_f
        then Inl (SchemaMismatch ''schema evolution cannot rename or reorder columns'')
        else if fd_nullable old_f \<and> \<not> fd_nullable new_f
        then Inl (SchemaMismatch ''cannot tighten nullability'')
        else let changes1 = changes @ (if \<not> fd_nullable old_f \<and> fd_nullable new_f
                                       then [RelaxNullability (fd_name old_f)] else [])
             in if fd_type old_f \<noteq> fd_type new_f
                then if \<not> is_widening (fd_type old_f) (fd_type new_f)
                     then Inl (SchemaMismatch ''not a widening conversion'')
                     else Inr (changes1 @ [Widen (fd_name old_f) (fd_type old_f) (fd_type new_f)])
                else Inr changes1)"

definition append_field :: "schema_change list \<Rightarrow> field \<Rightarrow> schema_change list sres" where
  "append_field changes f =
     (if \<not> fd_nullable f then Inl (SchemaMismatch ''new column must be nullable'')
      else Inr (changes @ [AddColumn (fd_name f) (fd_type f)]))"

definition validate_evolution :: "schema \<Rightarrow> schema \<Rightarrow> schema_change list sres" where
  "validate_evolution old new =
     (if length new < length old then Inl (SchemaMismatch ''schema evolution cannot drop columns'')
      else and_then (fold_r evolve_field [] (zip old new)) (\<lambda>changes.
           and_then (fold_r append_field changes (drop (length old) new)) (\<lambda>changes1.
             if changes1 = [] then Inl (InvalidInput ''the schema is unchanged'') else Inr changes1)))"

definition schema_with_added :: "schema \<Rightarrow> field list \<Rightarrow> schema" where
  "schema_with_added old added = old @ added"

section \<open>Reading an old batch under a new schema\<close>

definition new_null_array :: "data_type \<Rightarrow> nat \<Rightarrow> column" where
  "new_null_array t n = \<lparr>col_type = t, col_cells = replicate n Null\<rparr>"

definition adapt_column :: "(column \<Rightarrow> data_type \<Rightarrow> column sres) \<Rightarrow> batch \<Rightarrow> field \<Rightarrow> column sres" where
  "adapt_column cast b f =
     (case index_of (rb_schema b) (fd_name f) of
        Some i \<Rightarrow> (let col = rb_columns b ! i in if col_type col = fd_type f then Inr col else cast col (fd_type f))
      | None \<Rightarrow> Inr (new_null_array (fd_type f) (rb_rows b)))"

definition adapt_batch :: "(column \<Rightarrow> data_type \<Rightarrow> column sres) \<Rightarrow> (schema \<Rightarrow> column list \<Rightarrow> batch sres)
    \<Rightarrow> schema \<Rightarrow> batch \<Rightarrow> batch sres" where
  "adapt_batch cast try_new target b =
     (if rb_schema b = target then Inr b
      else and_then (map_r (adapt_column cast b) target) (try_new target))"

section \<open>What a legal evolution is\<close>

text \<open>A column may stay, widen or become nullable.\<close>

definition field_le :: "field \<Rightarrow> field \<Rightarrow> bool" where
  "field_le a b \<longleftrightarrow> fd_name b = fd_name a \<and> (fd_nullable a \<longrightarrow> fd_nullable b)
     \<and> (fd_type b = fd_type a \<or> is_widening (fd_type a) (fd_type b))"

definition schema_le :: "schema \<Rightarrow> schema \<Rightarrow> bool" where
  "schema_le a b \<longleftrightarrow> length a \<le> length b \<and> list_all2 field_le a (take (length a) b)
     \<and> list_all fd_nullable (drop (length a) b)"

lemma widening_trans: "is_widening a b \<Longrightarrow> is_widening b c \<Longrightarrow> is_widening a c"
  by (auto simp: is_widening_def split: option.splits prod.splits)

lemma widening_irrefl: "\<not> is_widening a a"
  by (auto simp: is_widening_def split: option.splits)

lemma field_le_refl [simp]: "field_le f f"
  by (simp add: field_le_def)

lemma field_le_trans: "field_le a b \<Longrightarrow> field_le b c \<Longrightarrow> field_le a c"
  using widening_trans by (fastforce simp: field_le_def)

lemma field_le_antisym: "field_le a b \<Longrightarrow> field_le b a \<Longrightarrow> (a :: field) = b"
  using widening_trans widening_irrefl by (fastforce simp: field_le_def)

lemma schema_le_refl [simp]: "schema_le s s"
  by (simp add: schema_le_def list.rel_refl)

lemma list_all_drop_nth:
  assumes "list_all P (drop n xs)" and "n \<le> i" and "i < length xs"
  shows "P (xs ! i)"
  using assms(1) [unfolded list_all_length, rule_format, of "i - n"] assms(2,3) by simp

lemma schema_le_trans:
  assumes "schema_le a b" and "schema_le b c"
  shows "schema_le a c"
proof -
  have len: "length a \<le> length b" "length b \<le> length c"
    and ab: "list_all2 field_le a (take (length a) b)" and bc: "list_all2 field_le b (take (length b) c)"
    and na: "list_all fd_nullable (drop (length a) b)" and nb: "list_all fd_nullable (drop (length b) c)"
    using assms by (auto simp: schema_le_def)
  have "list_all2 field_le (take (length a) b) (take (length a) c)"
    using list_all2_takeI [OF bc, of "length a"] len by (simp add: min_def)
  with ab have 1: "list_all2 field_le a (take (length a) c)"
    by (rule list_all2_trans [where ?P1.0 = field_le and ?P2.0 = field_le and ?P3.0 = field_le, rotated]) (rule field_le_trans)
  have 2: "fd_nullable (c ! i)" if "length a \<le> i" "i < length c" for i
  proof (cases "i < length b")
    case True
    then have "field_le (b ! i) (c ! i)" using list_all2_nthD [OF bc True] by simp
    moreover have "fd_nullable (b ! i)"
      using list_all_drop_nth [OF na that(1) True] .
    ultimately show ?thesis by (simp add: field_le_def)
  next
    case False
    then show ?thesis using list_all_drop_nth [OF nb _ that(2)] by simp
  qed
  have "list_all fd_nullable (drop (length a) c)"
    unfolding list_all_length using 2 len by (intro allI impI) simp
  with 1 len show ?thesis by (simp add: schema_le_def)
qed

lemma evolve_fields_iff:
  "is_ok (fold_r evolve_field cs (zip old new)) \<longleftrightarrow> (\<forall>(a, b) \<in> set (zip old new). field_le a b)"
proof (induction old new arbitrary: cs rule: list_induct2')
  case (4 a old b new)
  have "is_ok (evolve_field cs (a, b)) \<longleftrightarrow> field_le a b"
    using widening_irrefl by (auto simp: evolve_field_def field_le_def Let_def)
  with 4 show ?case by (cases "evolve_field cs (a, b)") auto
qed auto

lemma append_fields_iff: "is_ok (fold_r append_field cs fs) \<longleftrightarrow> list_all fd_nullable fs"
  by (induction fs arbitrary: cs) (auto simp: append_field_def)

text \<open>The change list grows, and records nothing only when nothing changed.\<close>

lemma evolve_fields_changes:
  assumes "fold_r evolve_field cs (zip old new) = Inr cs'"
  shows "cs' = [] \<longleftrightarrow> cs = [] \<and> (\<forall>(a, b) \<in> set (zip old new). a = b)"
  using assms
proof (induction old new arbitrary: cs rule: list_induct2')
  case (4 a old b new)
  then obtain c1 where c1: "evolve_field cs (a, b) = Inr c1" "fold_r evolve_field c1 (zip old new) = Inr cs'"
    by (auto simp: result_simps)
  have "c1 = [] \<longleftrightarrow> cs = [] \<and> a = b"
    using c1(1) by (cases a; cases b) (auto simp: evolve_field_def Let_def split: if_splits)
  with 4(1) [OF c1(2)] show ?case by auto
qed auto

lemma append_fields_changes: "fold_r append_field cs fs = Inr cs' \<Longrightarrow> cs' = [] \<longleftrightarrow> cs = [] \<and> fs = []"
  by (induction fs arbitrary: cs) (auto simp: append_field_def result_simps split: if_splits)

lemma zip_diag: "length old \<le> length new \<Longrightarrow> (\<forall>(a, b) \<in> set (zip old new). a = b) \<longleftrightarrow> take (length old) new = old"
proof (induction old arbitrary: new)
  case (Cons a old)
  then show ?case by (cases new) auto
qed simp

lemma zip_le: "length old \<le> length new \<Longrightarrow>
  (\<forall>(a, b) \<in> set (zip old new). field_le a b) \<longleftrightarrow> list_all2 field_le old (take (length old) new)"
proof (induction old arbitrary: new)
  case (Cons a old)
  then show ?case by (cases new) auto
qed simp

lemma validate_iff: "is_ok (validate_evolution old new) \<longleftrightarrow> schema_le old new \<and> old \<noteq> new"
proof (cases "length old \<le> length new")
  case True
  show ?thesis
  proof (cases "fold_r evolve_field [] (zip old new)")
    case (Inl err)
    then have "\<not> schema_le old new"
      using evolve_fields_iff [of "[]" old new] True by (auto simp: schema_le_def zip_le)
    with Inl True show ?thesis by (auto simp: validate_evolution_def)
  next
    case (Inr cs)
    then have le: "list_all2 field_le old (take (length old) new)"
      using evolve_fields_iff [of "[]" old new] True by (auto simp: zip_le)
    have same: "cs = [] \<longleftrightarrow> take (length old) new = old"
      using evolve_fields_changes [OF Inr] True by (simp add: zip_diag)
    show ?thesis
    proof (cases "fold_r append_field cs (drop (length old) new)")
      case (Inl err)
      with Inr True le show ?thesis
        using append_fields_iff [of cs "drop (length old) new"] by (auto simp: validate_evolution_def schema_le_def)
    next
      case (Inr cs')
      have "cs' = [] \<longleftrightarrow> old = new"
        using append_fields_changes [OF Inr] same True by (metis append_take_drop_id drop_eq_Nil order_refl self_append_conv take_all)
      moreover have "list_all fd_nullable (drop (length old) new)"
        using append_fields_iff [of cs "drop (length old) new"] Inr by auto
      ultimately show ?thesis
        using \<open>fold_r evolve_field [] (zip old new) = Inr cs\<close> Inr True le
        by (auto simp: validate_evolution_def schema_le_def)
    qed
  qed
next
  case False
  then show ?thesis by (auto simp: validate_evolution_def schema_le_def)
qed

text \<open>A table moves from one schema to the next by a step that is accepted.\<close>

definition evolves :: "schema \<Rightarrow> schema \<Rightarrow> bool" where
  "evolves a b \<longleftrightarrow> is_ok (validate_evolution a b)"

lemma evolves_le: "evolves\<^sup>*\<^sup>* a b \<Longrightarrow> schema_le a b"
  by (induction rule: rtranclp_induct) (auto simp: evolves_def validate_iff intro: schema_le_trans)

lemma schema_le_antisym:
  assumes "schema_le a b" and "schema_le b a"
  shows "a = b"
proof -
  have len: "length a = length b" using assms by (auto simp: schema_le_def)
  then have "list_all2 field_le a b" "list_all2 field_le b a" using assms by (simp_all add: schema_le_def)
  then have "field_le (a ! i) (b ! i) \<and> field_le (b ! i) (a ! i)" if "i < length a" for i
    using that len by (auto dest: list_all2_nthD)
  with len show ?thesis by (intro nth_equalityI) (auto intro: field_le_antisym)
qed

section \<open>Old segments stay readable\<close>

definition batch_ok :: "batch \<Rightarrow> bool" where
  "batch_ok b \<longleftrightarrow> length (rb_columns b) = length (rb_schema b)
     \<and> (\<forall>i < length (rb_schema b). col_type (rb_columns b ! i) = fd_type (rb_schema b ! i)
          \<and> length (col_cells (rb_columns b ! i)) = rb_rows b
          \<and> (\<not> fd_nullable (rb_schema b ! i) \<longrightarrow> Null \<notin> set (col_cells (rb_columns b ! i))))"

text \<open>What is used of a cast: a widening succeeds, keeps every row and invents no null.\<close>

definition cast_widens :: "(column \<Rightarrow> data_type \<Rightarrow> column sres) \<Rightarrow> bool" where
  "cast_widens cast \<longleftrightarrow> (\<forall>col t. is_widening (col_type col) t \<longrightarrow>
     (\<exists>col'. cast col t = Inr col' \<and> col_type col' = t \<and> length (col_cells col') = length (col_cells col)
       \<and> (Null \<in> set (col_cells col') \<longrightarrow> Null \<in> set (col_cells col))))"

lemma index_of_nth: "distinct (map fd_name sch) \<Longrightarrow> i < length sch \<Longrightarrow> index_of sch (fd_name (sch ! i)) = Some i"
proof (induction sch arbitrary: i)
  case (Cons f sch)
  then show ?case by (cases i) (auto simp: nth_eq_iff_index_eq)
qed simp

lemma index_of_None: "index_of sch name = None \<longleftrightarrow> name \<notin> fd_name ` set sch"
  by (induction sch) auto

lemma map_r_nth:
  assumes "\<And>i. i < length xs \<Longrightarrow> \<exists>y. f (xs ! i) = Inr y \<and> P i y"
  shows "\<exists>ys. map_r f xs = Inr ys \<and> length ys = length xs \<and> (\<forall>i < length xs. P i (ys ! i))"
  using assms
proof (induction xs arbitrary: P)
  case (Cons x xs)
  obtain y where y: "f x = Inr y" "P 0 y" using Cons.prems [of 0] by auto
  have "\<exists>y. f (xs ! i) = Inr y \<and> P (Suc i) y" if "i < length xs" for i using Cons.prems [of "Suc i"] that by simp
  then obtain ys where "map_r f xs = Inr ys" "length ys = length xs" "\<forall>i < length xs. P (Suc i) (ys ! i)"
    using Cons.IH [of "\<lambda>i. P (Suc i)"] by blast
  with y show ?case by (intro exI [of _ "y # ys"]) (auto simp: nth_Cons split: nat.splits)
qed simp

definition column_fits :: "batch \<Rightarrow> schema \<Rightarrow> nat \<Rightarrow> column \<Rightarrow> bool" where
  "column_fits b target i col \<longleftrightarrow> col_type col = fd_type (target ! i) \<and> length (col_cells col) = rb_rows b
     \<and> (\<not> fd_nullable (target ! i) \<longrightarrow> Null \<notin> set (col_cells col))
     \<and> (i < length (rb_schema b) \<and> fd_type (target ! i) = fd_type (rb_schema b ! i) \<longrightarrow> col = rb_columns b ! i)
     \<and> (length (rb_schema b) \<le> i \<longrightarrow> set (col_cells col) \<subseteq> {Null})"

lemma adapt_column_fits:
  assumes ok: "batch_ok b" and le: "schema_le (rb_schema b) target" and names: "distinct (map fd_name target)"
    and cast: "cast_widens cast" and i: "i < length target"
  shows "\<exists>col. adapt_column cast b (target ! i) = Inr col \<and> column_fits b target i col"
proof -
  let ?old = "rb_schema b"
  have len: "length ?old \<le> length target" and fields: "\<And>j. j < length ?old \<Longrightarrow> field_le (?old ! j) (target ! j)"
    using le by (auto simp: schema_le_def dest: list_all2_nthD)
  have old_names: "map fd_name ?old = take (length ?old) (map fd_name target)"
    using len fields by (intro nth_equalityI) (auto simp: field_le_def)
  then have "distinct (map fd_name ?old)" using names by (metis distinct_take)
  show ?thesis
  proof (cases "i < length ?old")
    case True
    then have f: "field_le (?old ! i) (target ! i)" by (rule fields)
    then have idx: "index_of ?old (fd_name (target ! i)) = Some i"
      using index_of_nth [OF \<open>distinct (map fd_name ?old)\<close> True] by (simp add: field_le_def)
    have col: "col_type (rb_columns b ! i) = fd_type (?old ! i)" "length (col_cells (rb_columns b ! i)) = rb_rows b"
      "\<not> fd_nullable (?old ! i) \<longrightarrow> Null \<notin> set (col_cells (rb_columns b ! i))"
      using ok True by (auto simp: batch_ok_def)
    show ?thesis
    proof (cases "fd_type (target ! i) = fd_type (?old ! i)")
      case True
      with idx col f \<open>i < length ?old\<close> show ?thesis by (auto simp: adapt_column_def column_fits_def Let_def field_le_def)
    next
      case False
      with f col have "is_widening (col_type (rb_columns b ! i)) (fd_type (target ! i))" by (auto simp: field_le_def)
      then obtain col' where "cast (rb_columns b ! i) (fd_type (target ! i)) = Inr col'"
        "col_type col' = fd_type (target ! i)" "length (col_cells col') = length (col_cells (rb_columns b ! i))"
        "Null \<in> set (col_cells col') \<longrightarrow> Null \<in> set (col_cells (rb_columns b ! i))"
        using cast unfolding cast_widens_def by blast
      with idx col f False \<open>i < length ?old\<close> show ?thesis by (auto simp: adapt_column_def column_fits_def Let_def field_le_def)
    qed
  next
    case False
    have "fd_name (target ! i) \<notin> fd_name ` set ?old"
    proof
      assume "fd_name (target ! i) \<in> fd_name ` set ?old"
      then obtain j where j: "j < length ?old" "fd_name (?old ! j) = fd_name (target ! i)"
        by (auto simp: in_set_conv_nth)
      with fields [OF j(1)] len i have "map fd_name target ! j = map fd_name target ! i" by (simp add: field_le_def)
      moreover have "j < length (map fd_name target)" "i < length (map fd_name target)" using j(1) len i by simp_all
      ultimately have "j = i" using names by (simp only: nth_eq_iff_index_eq)
      with j(1) False show False by simp
    qed
    then have "index_of ?old (fd_name (target ! i)) = None" by (simp add: index_of_None)
    moreover have "fd_nullable (target ! i)"
      using le False i list_all_drop_nth [of fd_nullable "length ?old" target i] by (simp add: schema_le_def)
    ultimately show ?thesis using False by (auto simp: adapt_column_def column_fits_def new_null_array_def)
  qed
qed


definition widen_cells :: "column \<Rightarrow> data_type \<Rightarrow> column sres" where
  "widen_cells col t = Inr (col\<lparr>col_type := t\<rparr>)"


text \<open>
  The time column is not exempt: its type may be widened and it may become nullable, although a table
  cannot be created with such a time column.
\<close>

lemma evolution_touches_time_column:
  "check_time_column [\<lparr>fd_name = ''ts'', fd_type = Int32, fd_nullable = False\<rparr>] (Some ''ts'') = Inr ()
   \<and> validate_evolution [\<lparr>fd_name = ''ts'', fd_type = Int32, fd_nullable = False\<rparr>]
       [\<lparr>fd_name = ''ts'', fd_type = Int64, fd_nullable = True\<rparr>] = Inr [RelaxNullability ''ts'', Widen ''ts'' Int32 Int64]
   \<and> \<not> is_ok (check_time_column [\<lparr>fd_name = ''ts'', fd_type = Int64, fd_nullable = True\<rparr>] (Some ''ts''))"
  by (simp add: check_time_column_def field_with_name_def validate_evolution_def evolve_field_def is_widening_def Let_def)

end
