(* ===== verification/Store_Commit.thy ===== *)
theory Store_Commit
  imports Store_Segments Store_Evolution
begin

text \<open>
  The commit protocol and the write path of \<open>database.rs\<close>, with the head store of \<open>backend.rs\<close> and
  \<open>backend_object.rs\<close>: revalidate the head, publish the manifest, swap the head; the idempotent
  replay; the copy-on-write shadow a fork takes of a base table; and the operations that commit a
  version. Text in notes and errors is abbreviated. Locks are not modelled: what an operation does
  between two reads of the store is one step, and a caller that staged earlier is represented by the
  staged values it passes.
\<close>

section \<open>Head store\<close>

definition swap_expected :: "head_state option \<Rightarrow> string option \<Rightarrow> bool" where
  "swap_expected current expected =
     (case (expected, current) of
        (None, None) \<Rightarrow> True
      | (Some tag, Some cur) \<Rightarrow> tag = hs_tag cur
      | _ \<Rightarrow> False)"

definition conflict :: "string \<Rightarrow> head \<Rightarrow> head_state option \<Rightarrow> store_error" where
  "conflict name new_head current =
     VersionConflict name (hd_sequence new_head - 1) (case current of None \<Rightarrow> 0 | Some c \<Rightarrow> hd_sequence (hs_head c))"

definition revalidate :: "codec \<Rightarrow> uuid \<Rightarrow> string \<Rightarrow> string option \<Rightarrow> head \<Rightarrow> store \<Rightarrow> unit sres" where
  "revalidate K t name expected new_head S =
     and_then (heads_read K S t) (\<lambda>current.
       if swap_expected current expected then Inr () else Inl (conflict name new_head current))"

definition write_head :: "uuid \<Rightarrow> head \<Rightarrow> unit act" where
  "write_head t h = put (\<lambda>S. S\<lparr>st_heads := bt_insert t h (st_heads S)\<rparr>)"

text \<open>
  Inside the critical section of the local backend the swap is a rename; on an object store it is a
  conditional put, which repeats the comparison.
\<close>

definition heads_commit :: "codec \<Rightarrow> db \<Rightarrow> uuid \<Rightarrow> string \<Rightarrow> string option \<Rightarrow> head \<Rightarrow> unit act \<Rightarrow> unit act" where
  "heads_commit K D t name expected new_head publish =
     act_then (ask (revalidate K t name expected new_head)) (\<lambda>_.
     act_then publish (\<lambda>_.
       if db_local D then write_head t new_head
       else act_then (ask (revalidate K t name expected new_head)) (\<lambda>_. write_head t new_head)))"

record head_swap =
  sw_table_id :: uuid
  sw_table_name :: string
  sw_expected :: "string option"
  sw_new_head :: head

definition heads_commit_batch :: "codec \<Rightarrow> db \<Rightarrow> head_swap list \<Rightarrow> unit act \<Rightarrow> unit act" where
  "heads_commit_batch K D swaps publish =
     (if db_local D
      then act_then (act_map (\<lambda>w. ask (revalidate K (sw_table_id w) (sw_table_name w) (sw_expected w) (sw_new_head w))) swaps) (\<lambda>_.
           act_then publish (\<lambda>_.
           act_then (act_map (\<lambda>w. write_head (sw_table_id w) (sw_new_head w)) swaps) (\<lambda>_. give ())))
      else act_then publish (\<lambda>_.
           act_then (act_map (\<lambda>w. heads_commit K D (sw_table_id w) (sw_table_name w) (sw_expected w) (sw_new_head w) (give ()))
                       swaps) (\<lambda>_. give ())))"

definition heads_remove :: "uuid \<Rightarrow> unit act" where
  "heads_remove t = put (\<lambda>S. S\<lparr>st_heads := bt_remove t (st_heads S)\<rparr>)"

definition create_manifest_slot :: "string \<Rightarrow> uuid \<Rightarrow> nat \<Rightarrow> manifest \<Rightarrow> unit act" where
  "create_manifest_slot name t sq m =
     act_then (ask (\<lambda>S. if bt_get (st_manifests S) (t, sq) \<noteq> None then Inl (VersionConflict name (sq - 1) sq) else Inr ())) (\<lambda>_.
       put (\<lambda>S. S\<lparr>st_manifests := bt_insert (t, sq) m (st_manifests S)\<rparr>))"

definition put_manifest :: "db \<Rightarrow> string \<Rightarrow> uuid \<Rightarrow> nat \<Rightarrow> manifest \<Rightarrow> unit act" where
  "put_manifest D name t sq m =
     (if db_local D then put (\<lambda>S. S\<lparr>st_manifests := bt_insert (t, sq) m (st_manifests S)\<rparr>)
      else create_manifest_slot name t sq m)"

definition put_spec :: "uuid \<Rightarrow> table_spec \<Rightarrow> unit act" where
  "put_spec t sp = put (\<lambda>S. S\<lparr>st_specs := bt_insert (t, tsp_schema_revision sp) sp (st_specs S)\<rparr>)"

section \<open>Committing a manifest\<close>

record write_options =
  wo_expected_version :: "nat option"
  wo_note :: "string option"
  wo_user_meta :: "(string, json) btree_map"
  wo_idempotency_key :: "string option"

definition write_options_default :: write_options where
  "write_options_default = \<lparr>wo_expected_version = None, wo_note = None, wo_user_meta = [], wo_idempotency_key = None\<rparr>"

record commit_inputs =
  ci_segment_limit :: "nat option"
  ci_parent_committed_at_ns :: "int option"

record commit_result =
  cr_table :: string
  cr_sequence :: nat
  cr_op :: string
  cr_rows_total :: nat
  cr_segments_total :: nat
  cr_segments_added :: nat
  cr_segments_deduped :: nat
  cr_committed_at_ns :: int

definition result_of :: "string \<Rightarrow> manifest \<Rightarrow> nat \<Rightarrow> nat \<Rightarrow> commit_result" where
  "result_of name m added deduped =
     \<lparr>cr_table = name, cr_sequence = vm_sequence m, cr_op = op_as_str (vm_op m), cr_rows_total = vm_rows m,
      cr_segments_total = length (vm_segments m), cr_segments_added = added, cr_segments_deduped = deduped,
      cr_committed_at_ns = vm_committed_at_ns m\<rparr>"

definition IDEMPOTENCY_META_KEY :: string where "IDEMPOTENCY_META_KEY = ''h5i.idempotency_key''"
definition IDEMPOTENCY_LOOKBACK :: nat where "IDEMPOTENCY_LOOKBACK = 64"

definition child_manifest :: "manifest \<Rightarrow> nat \<Rightarrow> op_kind \<Rightarrow> write_options \<Rightarrow> table_spec \<Rightarrow> manifest" where
  "child_manifest parent sq op opts sp =
     \<lparr>vm_format = FORMAT_VERSION, vm_table_id = vm_table_id parent, vm_sequence = sq, vm_parent = Some (vm_sequence parent),
      vm_parent_checksum = None, vm_committed_at_ns = 0, vm_op = op, vm_execution_mode = Some ''direct'',
      vm_plan_hash = None, vm_note = wo_note opts,
      vm_user_meta = (case wo_idempotency_key opts of
                        None \<Rightarrow> wo_user_meta opts
                      | Some key \<Rightarrow> bt_insert IDEMPOTENCY_META_KEY (JString key) (wo_user_meta opts)),
      vm_schema_revision = tsp_schema_revision sp, vm_rows = 0, vm_bytes = 0, vm_time_range = None, vm_segments = []\<rparr>"

definition segment_limit :: "codec \<Rightarrow> uuid \<Rightarrow> nat \<Rightarrow> commit_inputs \<Rightarrow> store \<Rightarrow> nat" where
  "segment_limit K t revision known S =
     (case ci_segment_limit known of
        Some n \<Rightarrow> n
      | None \<Rightarrow> (case spec_at K S t revision of Inr sp \<Rightarrow> tsp_max_segments sp | Inl _ \<Rightarrow> SEGMENT_COUNT_HARD_DEFAULT))"

definition parent_committed_at :: "uuid \<Rightarrow> head_state \<Rightarrow> commit_inputs \<Rightarrow> store \<Rightarrow> int sres" where
  "parent_committed_at t p known S =
     (case ci_parent_committed_at_ns known of
        Some ts \<Rightarrow> Inr ts
      | None \<Rightarrow> map_ok vm_committed_at_ns (manifest_at S t (hd_sequence (hs_head p))))"

text \<open>The parent link and the commit time, then the rollups.\<close>

definition stamp :: "int \<Rightarrow> head_state option \<Rightarrow> int option \<Rightarrow> manifest \<Rightarrow> manifest" where
  "stamp wall parent parent_ts m =
     recompute_rollups
       (case parent of
          Some p \<Rightarrow> m\<lparr>vm_parent := Some (hd_sequence (hs_head p)), vm_parent_checksum := Some (hd_manifest_checksum (hs_head p)),
                     vm_committed_at_ns := monotonic_commit_ts wall parent_ts\<rparr>
        | None \<Rightarrow> m\<lparr>vm_committed_at_ns := monotonic_commit_ts wall None\<rparr>)"

definition head_for :: "codec \<Rightarrow> uuid \<Rightarrow> manifest \<Rightarrow> head" where
  "head_for K t m =
     \<lparr>hd_format = FORMAT_VERSION, hd_table_id = t, hd_sequence = vm_sequence m, hd_manifest_checksum = sum_manifest K m\<rparr>"

definition publish_manifest :: "db \<Rightarrow> string \<Rightarrow> uuid \<Rightarrow> manifest \<Rightarrow> unit act" where
  "publish_manifest D name t m =
     act_then (put_manifest D name t (vm_sequence m) m) (\<lambda>_.
     act_then (lift (db_hook D ''post_manifest_put'')) (\<lambda>_.
       lift (db_hook D ''pre_head_swap'')))"

definition commit_manifest_locked :: "codec \<Rightarrow> db \<Rightarrow> string \<Rightarrow> uuid \<Rightarrow> head_state option \<Rightarrow> manifest \<Rightarrow> nat
    \<Rightarrow> commit_inputs \<Rightarrow> commit_result act" where
  "commit_manifest_locked K D name t parent m added known =
     act_then (ask (\<lambda>S. Inr (segment_limit K t (vm_schema_revision m) known S))) (\<lambda>limit.
       if length (vm_segments m) > limit then raise (LimitExceeded ''manifest would reference too many segments'')
       else act_then (case parent of
                        None \<Rightarrow> give None
                      | Some p \<Rightarrow> act_then (ask (parent_committed_at t p known)) (\<lambda>ts. give (Some ts))) (\<lambda>parent_ts.
            act_then now (\<lambda>wall.
            let m1 = stamp wall parent parent_ts m
            in act_then (lift (db_hook D ''pre_publish'')) (\<lambda>_.
               act_then (heads_commit K D t name (map_option hs_tag parent) (head_for K t m1) (publish_manifest D name t m1)) (\<lambda>_.
               act_then (lift (db_hook D ''post_head_swap'')) (\<lambda>_.
                 give (result_of name m1 added 0)))))))"

section \<open>Idempotent replay\<close>

definition carries_key :: "string \<Rightarrow> manifest \<Rightarrow> bool" where
  "carries_key key m \<longleftrightarrow> Option.bind (bt_get (vm_user_meta m) IDEMPOTENCY_META_KEY) json_as_str = Some key"

fun replay_loop :: "store \<Rightarrow> uuid \<Rightarrow> string \<Rightarrow> string \<Rightarrow> nat \<Rightarrow> nat \<Rightarrow> commit_result option sres" where
  "replay_loop S t name key floor_seq sq =
     and_then (manifest_at S t sq) (\<lambda>m.
       if carries_key key m then Inr (Some (result_of name m 0 0))
       else case sq of
              0 \<Rightarrow> Inr None
            | Suc prev \<Rightarrow> if sq \<le> floor_seq then Inr None else replay_loop S t name key floor_seq prev)"

declare replay_loop.simps [simp del]

definition idempotent_replay :: "codec \<Rightarrow> db \<Rightarrow> string \<Rightarrow> write_options \<Rightarrow> store \<Rightarrow> commit_result option sres" where
  "idempotent_replay K D name opts S =
     (case wo_idempotency_key opts of
        None \<Rightarrow> Inr None
      | Some key \<Rightarrow>
          and_then (entry_of K D S name) (\<lambda>e.
          and_then (head_of K S (ce_table_id e)) (\<lambda>h.
          and_then (retention_min_seq K S (ce_table_id e)) (\<lambda>retained.
            let head_seq = hd_sequence (hs_head h)
            in replay_loop S (ce_table_id e) name key (max (head_seq - IDEMPOTENCY_LOOKBACK) retained) head_seq))))"

text \<open>An operation that replays: a commit that carries the key answers in its place.\<close>

definition replaying :: "codec \<Rightarrow> db \<Rightarrow> string \<Rightarrow> write_options \<Rightarrow> commit_result act \<Rightarrow> commit_result act" where
  "replaying K D name opts m =
     act_then (ask (idempotent_replay K D name opts)) (\<lambda>replay. case replay of Some r \<Rightarrow> give r | None \<Rightarrow> m)"

section \<open>Shadows\<close>

definition FORKED_FROM_META_KEY :: string where "FORKED_FROM_META_KEY = ''h5i.forked_from''"

definition is_own_segment :: "string \<Rightarrow> string \<Rightarrow> bool" where
  "is_own_segment prefix path = starts_with path prefix"

definition check_refinement :: "string \<Rightarrow> string list \<Rightarrow> string list \<Rightarrow> unit sres" where
  "check_refinement own_prefix base_paths paths =
     (if list_all (\<lambda>p. starts_with p own_prefix \<or> p \<in> set base_paths) paths then Inr ()
      else Inl (Corruption ''fork refinement invariant violated''))"

record prepared_shadow =
  ps_name :: string
  ps_table_id :: uuid
  ps_spec :: table_spec
  ps_manifest :: manifest
  ps_entry :: fork_table_entry

definition pinned_manifest :: "codec \<Rightarrow> uuid \<Rightarrow> fork_pin \<Rightarrow> store \<Rightarrow> manifest sres" where
  "pinned_manifest K t p S =
     and_then (ok_or (Corruption ''pinned manifest missing'') (bt_get (st_manifests S) (t, fp_sequence p))) (\<lambda>m.
       if sum_manifest K m \<noteq> fp_manifest_checksum p then Inl (Corruption ''pinned manifest checksum mismatch'')
       else parse_manifest m)"

definition shadow_manifest :: "fork \<Rightarrow> uuid \<Rightarrow> manifest \<Rightarrow> manifest" where
  "shadow_manifest fk t base =
     base\<lparr>vm_table_id := t, vm_sequence := 0, vm_parent := None, vm_parent_checksum := None, vm_op := OpCreate,
          vm_execution_mode := Some ''direct'', vm_plan_hash := None, vm_note := Some ''shadow'',
          vm_user_meta := bt_insert FORKED_FROM_META_KEY (JOther (fk_name fk)) (vm_user_meta base)\<rparr>"

definition prepare_shadow :: "codec \<Rightarrow> fork \<Rightarrow> string \<Rightarrow> catalog_entry \<Rightarrow> prepared_shadow act" where
  "prepare_shadow K fk name base =
     (case pin fk (ce_table_id base) of
        None \<Rightarrow> raise (Internal ''fork does not pin table'')
      | Some p \<Rightarrow>
          act_then (ask (pinned_manifest K (ce_table_id base) p)) (\<lambda>base_manifest.
          act_then fresh_id (\<lambda>t.
          act_then (ask (\<lambda>S. spec_at K S (ce_table_id base) (vm_schema_revision base_manifest))) (\<lambda>sp.
          let m = shadow_manifest fk t base_manifest
          in act_then (lift (check_refinement (table_prefix t @ ''/'') (map sg_path (vm_segments base_manifest))
                               (map sg_path (vm_segments m)))) (\<lambda>_.
             act_then now (\<lambda>wall.
               give \<lparr>ps_name = name, ps_table_id = t, ps_spec = seal_spec K (sp\<lparr>tsp_table_id := t\<rparr>),
                     ps_manifest = recompute_rollups m,
                     ps_entry = seal_fork_entry K
                       \<lparr>fe_name = name, fe_table_id = t, fe_created_at_ns = monotonic_commit_ts wall None,
                        fe_spec_revision = tsp_schema_revision sp,
                        fe_origin = Some \<lparr>fo_base_table_id = ce_table_id base, fo_base_sequence = fp_sequence p,
                                          fo_base_manifest_checksum = fp_manifest_checksum p\<rparr>,
                        fe_checksum = ''''\<rparr>\<rparr>))))))"

definition fork_create_entry :: "codec \<Rightarrow> string \<Rightarrow> fork_table_entry \<Rightarrow> unit act" where
  "fork_create_entry K fork_name e =
     act_then (ask (\<lambda>S. if bt_get (st_fork_catalog S) (hash_name K fork_name, hash_name K (fe_name e)) \<noteq> None
                        then Inl (TableExists (fe_name e)) else Inr ())) (\<lambda>_.
       put (\<lambda>S. S\<lparr>st_fork_catalog := bt_insert (hash_name K fork_name, hash_name K (fe_name e)) e (st_fork_catalog S)\<rparr>))"

definition write_shadows :: "codec \<Rightarrow> db \<Rightarrow> fork \<Rightarrow> prepared_shadow list \<Rightarrow> unit act" where
  "write_shadows K D fk prepared =
     act_then (act_map (\<lambda>s. put_spec (ps_table_id s) (ps_spec s)) prepared) (\<lambda>_.
     act_then (act_map (\<lambda>s. commit_manifest_locked K D (ps_name s) (ps_table_id s) None (ps_manifest s) 0
                          \<lparr>ci_segment_limit = Some (tsp_max_segments (ps_spec s)), ci_parent_committed_at_ns = None\<rparr>) prepared) (\<lambda>_.
     act_then (act_map (\<lambda>s. fork_create_entry K (fk_name fk) (ps_entry s)) prepared) (\<lambda>_. give ())))"

definition materialize_shadow :: "codec \<Rightarrow> db \<Rightarrow> fork \<Rightarrow> string \<Rightarrow> catalog_entry \<Rightarrow> catalog_entry act" where
  "materialize_shadow K D fk name base =
     act_then (ask (\<lambda>S. fork_load_entry K S (fk_name fk) name)) (\<lambda>existing.
       case existing of
         Some fe \<Rightarrow> give (to_catalog_entry K fe)
       | None \<Rightarrow>
           act_then (prepare_shadow K fk name base) (\<lambda>s.
           act_then (write_shadows K D fk [s]) (\<lambda>_. give (to_catalog_entry K (ps_entry s)))))"

definition shadow_candidates :: "codec \<Rightarrow> db \<Rightarrow> fork \<Rightarrow> string list \<Rightarrow> store \<Rightarrow> (string \<times> catalog_entry) list sres" where
  "shadow_candidates K D fk names S =
     map_ok concat (map_r (\<lambda>name. map_ok (\<lambda>e. case e of
         Some en \<Rightarrow> if pin fk (ce_table_id en) \<noteq> None then [(name, en)] else [] | None \<Rightarrow> [])
       (entry_opt K D S name)) names)"

definition materialize_shadows :: "codec \<Rightarrow> db \<Rightarrow> string list \<Rightarrow> unit act" where
  "materialize_shadows K D names =
     (case db_fork D of
        None \<Rightarrow> give ()
      | Some fk \<Rightarrow>
          act_then (ask (shadow_candidates K D fk names)) (\<lambda>candidates.
            if candidates = [] then give ()
            else act_then (act_map (\<lambda>(name, base).
                   act_then (ask (\<lambda>S. fork_load_entry K S (fk_name fk) name)) (\<lambda>existing.
                     case existing of Some _ \<Rightarrow> give [] | None \<Rightarrow> act_then (prepare_shadow K fk name base) (\<lambda>s. give [s])))
                   candidates) (\<lambda>prepared. write_shadows K D fk (concat prepared))))"

definition entry_for_write :: "codec \<Rightarrow> db \<Rightarrow> string \<Rightarrow> catalog_entry act" where
  "entry_for_write K D name =
     act_then (ask (\<lambda>S. entry_of K D S name)) (\<lambda>e.
       case db_fork D of
         None \<Rightarrow> give e
       | Some fk \<Rightarrow> if pin fk (ce_table_id e) = None then give e else materialize_shadow K D fk name e)"

end
