(* ===== verification/Store_Write.thy ===== *)
theory Store_Write
  imports Store_Commit
begin

text \<open>
  The operations that commit a version (\<open>database.rs\<close>): write, append, replace and delete a range,
  restore, evolve the schema and compact, each the whole handler from the prologue to the release of
  the staging lease.
\<close>

section \<open>Prologue and validation\<close>

definition policy_load :: "store \<Rightarrow> mutation_policy sres" where
  "policy_load S = Inr (case st_policy S of None \<Rightarrow> policy_default | Some p \<Rightarrow> p)"

record prologue =
  pr_entry :: catalog_entry
  pr_spec :: table_spec
  pr_head :: head_state
  pr_manifest :: manifest

definition write_prologue :: "codec \<Rightarrow> db \<Rightarrow> string \<Rightarrow> op_kind \<Rightarrow> write_options \<Rightarrow> prologue act" where
  "write_prologue K D name op opts =
     act_then (lift (ensure_writable D (op_as_str op))) (\<lambda>_.
     act_then (ask policy_load) (\<lambda>pol.
     act_then (lift (check_direct pol op)) (\<lambda>_.
     act_then (entry_for_write K D name) (\<lambda>e.
     act_then (ask (\<lambda>S. head_of K S (ce_table_id e))) (\<lambda>h.
       if (case wo_expected_version opts of Some v \<Rightarrow> hd_sequence (hs_head h) \<noteq> v | None \<Rightarrow> False)
       then raise (VersionConflict name (the (wo_expected_version opts)) (hd_sequence (hs_head h)))
       else act_then (ask (\<lambda>S. manifest_at S (ce_table_id e) (hd_sequence (hs_head h)))) (\<lambda>m.
            act_then (ask (\<lambda>S. spec_at K S (ce_table_id e) (vm_schema_revision m))) (\<lambda>sp.
              give \<lparr>pr_entry = e, pr_spec = sp, pr_head = h, pr_manifest = m\<rparr>)))))))"

definition check_field :: "batch \<Rightarrow> field \<times> field \<Rightarrow> unit sres" where
  "check_field b pair =
     (case pair of (want, have) \<Rightarrow>
        if fd_name want \<noteq> fd_name have \<or> fd_type want \<noteq> fd_type have then Inl (SchemaMismatch ''unexpected field'')
        else if \<not> fd_nullable want \<and> fd_nullable have
        then and_then (column_named b (fd_name have)) (\<lambda>c.
               if null_count c > 0 then Inl (SchemaMismatch ''non-nullable column contains nulls'') else Inr ())
        else Inr ())"

definition check_batch_schema :: "schema \<Rightarrow> unit \<Rightarrow> batch \<Rightarrow> unit sres" where
  "check_batch_schema sch u b =
     (if length (rb_schema b) \<noteq> length sch then Inl (SchemaMismatch ''unexpected number of columns'')
      else fold_r (\<lambda>_ pair. check_field b pair) () (zip sch (rb_schema b)))"

definition validate_batches_schema :: "schema \<Rightarrow> batch list \<Rightarrow> unit sres" where
  "validate_batches_schema sch bs = fold_r (check_batch_schema sch) () bs"

definition validate_time_column :: "arrow \<Rightarrow> table_spec \<Rightarrow> batch list \<Rightarrow> unit sres" where
  "validate_time_column A sp bs =
     (case tsp_time_column sp of
        None \<Rightarrow> Inr ()
      | Some tc \<Rightarrow> fold_r (\<lambda>_ b. if rb_rows b > 0 then map_ok (\<lambda>_. ()) (time_values_i64 A b tc) else Inr ()) () bs)"

definition enforce_data_policy :: "arrow \<Rightarrow> uuid \<Rightarrow> batch list \<Rightarrow> store \<Rightarrow> unit sres" where
  "enforce_data_policy A t bs S =
     (case bt_get (st_data_policies S) t of
        None \<Rightarrow> Inr ()
      | Some p \<Rightarrow> and_then (data_policy_parse p) (\<lambda>p'. enforce A p' bs))"

text \<open>What every batch of a mutation is checked for.\<close>

definition admit_batches :: "arrow \<Rightarrow> prologue \<Rightarrow> batch list \<Rightarrow> unit act" where
  "admit_batches A pr bs =
     act_then (lift (validate_batches_schema (tsp_schema (pr_spec pr)) bs)) (\<lambda>_.
     act_then (lift (validate_time_column A (pr_spec pr) bs)) (\<lambda>_.
       ask (enforce_data_policy A (ce_table_id (pr_entry pr)) bs)))"

section \<open>Staged commits\<close>

record staged_commit =
  sc_entry :: catalog_entry
  sc_head :: head_state
  sc_manifest :: manifest
  sc_segments_added :: nat
  sc_segments_deduped :: nat
  sc_lease :: "(uuid \<times> uuid) option"
  sc_known :: commit_inputs

definition known_of :: "prologue \<Rightarrow> commit_inputs" where
  "known_of pr = \<lparr>ci_segment_limit = Some (tsp_max_segments (pr_spec pr)),
                  ci_parent_committed_at_ns = Some (vm_committed_at_ns (pr_manifest pr))\<rparr>"

definition next_sequence :: "prologue \<Rightarrow> nat" where
  "next_sequence pr = hd_sequence (hs_head (pr_head pr)) + 1"

definition next_manifest :: "prologue \<Rightarrow> op_kind \<Rightarrow> write_options \<Rightarrow> segment_meta list \<Rightarrow> manifest" where
  "next_manifest pr op opts segs =
     (child_manifest (pr_manifest pr) (next_sequence pr) op opts (pr_spec pr))\<lparr>vm_segments := segs\<rparr>"

definition push_all :: "codec \<Rightarrow> arrow \<Rightarrow> parquet \<Rightarrow> writer \<Rightarrow> batch list \<Rightarrow> writer act" where
  "push_all K A P w bs = act_fold (push K A P) w bs"

definition commit_prologue :: "codec \<Rightarrow> db \<Rightarrow> prologue \<Rightarrow> string \<Rightarrow> manifest \<Rightarrow> nat \<Rightarrow> commit_result act" where
  "commit_prologue K D pr name m added =
     commit_manifest_locked K D name (ce_table_id (pr_entry pr)) (Some (pr_head pr)) m added (known_of pr)"

definition stage_write :: "codec \<Rightarrow> arrow \<Rightarrow> parquet \<Rightarrow> db \<Rightarrow> string \<Rightarrow> batch list \<Rightarrow> write_options \<Rightarrow> staged_commit act" where
  "stage_write K A P D name bs opts =
     act_then (write_prologue K D name OpWrite opts) (\<lambda>pr.
     act_then (admit_batches A pr bs) (\<lambda>_.
     act_then (writer_new (pr_spec pr) (tsp_schema (pr_spec pr)) (next_sequence pr)) (\<lambda>w.
     act_then (if tsp_sort_key (pr_spec pr) = [] then push_all K A P w bs
               else push_merged K A P bs (tsp_sort_key (pr_spec pr)) w) (\<lambda>w1.
     act_then (writer_finish K A P w1) (\<lambda>(segments, _, lease).
     act_then (dedup_segments segments (pr_manifest pr)) (\<lambda>(segments1, deduped).
       give \<lparr>sc_entry = pr_entry pr, sc_head = pr_head pr, sc_manifest = next_manifest pr OpWrite opts segments1,
             sc_segments_added = length segments1 - deduped, sc_segments_deduped = deduped, sc_lease = lease,
             sc_known = known_of pr\<rparr>))))))"

definition commit_staged :: "codec \<Rightarrow> db \<Rightarrow> staged_commit \<Rightarrow> commit_result act" where
  "commit_staged K D sc =
     act_then (outcome (commit_manifest_locked K D (ce_name (sc_entry sc)) (ce_table_id (sc_entry sc)) (Some (sc_head sc))
                          (sc_manifest sc) (sc_segments_added sc) (sc_known sc))) (\<lambda>result.
     act_then (release_staging (sc_lease sc)) (\<lambda>_.
     act_then (lift result) (\<lambda>r. give (r\<lparr>cr_segments_deduped := sc_segments_deduped sc\<rparr>))))"

definition db_write :: "codec \<Rightarrow> arrow \<Rightarrow> parquet \<Rightarrow> db \<Rightarrow> string \<Rightarrow> batch list \<Rightarrow> write_options \<Rightarrow> commit_result act" where
  "db_write K A P D name bs opts =
     replaying K D name opts (act_then (stage_write K A P D name bs opts) (commit_staged K D))"

section \<open>Compaction\<close>

definition i64_MAX :: int where "i64_MAX = 9223372036854775807"

definition time_order_key :: "segment_meta \<Rightarrow> int" where
  "time_order_key s = (case sg_time_range s of None \<Rightarrow> i64_MAX | Some (mn, _) \<Rightarrow> mn)"

record grouping =
  gr_groups :: "segment_meta list list"
  gr_current :: "segment_meta list"
  gr_current_bytes :: nat
  gr_untouched :: "segment_meta list"

definition close_current :: "grouping \<Rightarrow> grouping" where
  "close_current g =
     (if length (gr_current g) > 1 then g\<lparr>gr_groups := gr_groups g @ [gr_current g], gr_current := []\<rparr>
      else g\<lparr>gr_untouched := gr_untouched g @ gr_current g, gr_current := []\<rparr>)"

definition group_step :: "nat \<Rightarrow> nat \<Rightarrow> grouping \<Rightarrow> segment_meta \<Rightarrow> grouping" where
  "group_step small_threshold target_encoded g seg =
     (if sg_bytes seg < small_threshold
      then let g1 = g\<lparr>gr_current_bytes := gr_current_bytes g + sg_bytes seg, gr_current := gr_current g @ [seg]\<rparr>
           in if gr_current_bytes g1 \<ge> target_encoded then (close_current g1)\<lparr>gr_current_bytes := 0\<rparr> else g1
      else let g1 = (close_current g)\<lparr>gr_current_bytes := 0\<rparr>
           in g1\<lparr>gr_untouched := gr_untouched g1 @ [seg]\<rparr>)"

definition compaction_groups :: "string \<Rightarrow> nat \<Rightarrow> segment_meta list \<Rightarrow> grouping" where
  "compaction_groups own_prefix target segs =
     (let target_encoded = max (target div 3) 1;
          small_threshold = max (target_encoded div 2) 1;
          owned = filter (\<lambda>s. is_own_segment own_prefix (sg_path s)) segs;
          inherited = filter (\<lambda>s. \<not> is_own_segment own_prefix (sg_path s)) segs
      in close_current (foldl (group_step small_threshold target_encoded)
           \<lparr>gr_groups = [], gr_current = [], gr_current_bytes = 0, gr_untouched = inherited\<rparr>
           (sort_key time_order_key owned)))"

definition compact_group :: "codec \<Rightarrow> arrow \<Rightarrow> parquet \<Rightarrow> string list \<Rightarrow> writer \<Rightarrow> segment_meta list \<Rightarrow> writer act" where
  "compact_group K A P key w segs =
     act_then (ask (\<lambda>S. map_ok concat (map_r (\<lambda>s. read_segment A P S s None None) segs))) (\<lambda>bs.
     act_then (if key = [] then push_all K A P w bs else push_merged K A P bs key w) (flush K A P))"

definition compact_with :: "codec \<Rightarrow> arrow \<Rightarrow> parquet \<Rightarrow> db \<Rightarrow> string \<Rightarrow> nat option \<Rightarrow> write_options \<Rightarrow> commit_result act" where
  "compact_with K A P D name target_bytes opts =
     replaying K D name opts (
     act_then (write_prologue K D name OpCompact opts) (\<lambda>pr.
       let target = (case target_bytes of None \<Rightarrow> target_segment_bytes (tsp_storage (pr_spec pr)) | Some n \<Rightarrow> n);
           g = compaction_groups (table_prefix (ce_table_id (pr_entry pr)) @ ''/'') target (vm_segments (pr_manifest pr))
       in if gr_groups g = []
          then give ((result_of name (pr_manifest pr) 0 0)\<lparr>cr_sequence := hd_sequence (hs_head (pr_head pr)), cr_op := ''compact''\<rparr>)
          else act_then (writer_new (pr_spec pr) (tsp_schema (pr_spec pr)) (next_sequence pr)) (\<lambda>w.
               act_then (act_fold (compact_group K A P (tsp_sort_key (pr_spec pr))) w (gr_groups g)) (\<lambda>w1.
               act_then (writer_finish K A P w1) (\<lambda>(rewritten, _, lease).
               let segs = sort_key time_order_key (gr_untouched g @ rewritten)
               in if sum_list (map sg_rows segs) \<noteq> vm_rows (pr_manifest pr)
                  then raise (Internal ''compaction row-count mismatch'')
                  else act_then (commit_prologue K D pr name (next_manifest pr OpCompact opts segs) (length rewritten)) (\<lambda>r.
                       act_then (release_staging lease) (\<lambda>_. give r)))))))"

definition compact :: "codec \<Rightarrow> arrow \<Rightarrow> parquet \<Rightarrow> db \<Rightarrow> string \<Rightarrow> write_options \<Rightarrow> commit_result act" where
  "compact K A P D name opts = compact_with K A P D name None opts"

section \<open>Append\<close>

text \<open>Each batch in order, and the batches in order among themselves.\<close>

definition append_order_step :: "arrow \<Rightarrow> table_spec \<Rightarrow> int option \<Rightarrow> batch \<Rightarrow> int option sres" where
  "append_order_step A sp prev b =
     (if rb_rows b = 0 then Inr prev
      else and_then (batch_is_sorted A b (tsp_sort_key sp)) (\<lambda>s.
           if \<not> s then Inl (SortOrderViolation ''append input batch is not sorted by the table sort key'')
           else case tsp_time_column sp of
                  None \<Rightarrow> Inr prev
                | Some tc \<Rightarrow>
                    and_then (time_min_max A b tc) (\<lambda>range.
                      case range of
                        None \<Rightarrow> Inr prev
                      | Some (bmin, bmax) \<Rightarrow>
                          if (case prev of Some p \<Rightarrow> bmin < p | None \<Rightarrow> False)
                          then Inl (SortOrderViolation ''append input batches are not mutually ordered'')
                          else Inr (Some bmax))))"

definition append_after_head :: "arrow \<Rightarrow> table_spec \<Rightarrow> manifest \<Rightarrow> batch list \<Rightarrow> unit sres" where
  "append_after_head A sp parent bs =
     (case (vm_time_range parent, tsp_time_column sp) of
        (Some (_, table_max), Some tc) \<Rightarrow>
          and_then (case filter (\<lambda>b. rb_rows b > 0) bs of [] \<Rightarrow> Inr None | b # _ \<Rightarrow> time_min_max A b tc) (\<lambda>input.
            case input of
              Some (mn, _) \<Rightarrow> if mn < table_max then Inl (SortOrderViolation ''append input starts before the end of the table'') else Inr ()
            | None \<Rightarrow> Inr ())
      | _ \<Rightarrow> Inr ())"

definition append_order :: "arrow \<Rightarrow> prologue \<Rightarrow> batch list \<Rightarrow> unit sres" where
  "append_order A pr bs =
     (if tsp_sort_key (pr_spec pr) = [] then Inr ()
      else and_then (fold_r (append_order_step A (pr_spec pr)) None bs) (\<lambda>_.
           append_after_head A (pr_spec pr) (pr_manifest pr) bs))"

definition stage_append_segments :: "codec \<Rightarrow> arrow \<Rightarrow> parquet \<Rightarrow> prologue \<Rightarrow> batch list \<Rightarrow> write_options \<Rightarrow> staged_commit act" where
  "stage_append_segments K A P pr bs opts =
     act_then (lift (append_order A pr bs)) (\<lambda>_.
     act_then (writer_new (pr_spec pr) (tsp_schema (pr_spec pr)) (next_sequence pr)) (\<lambda>w.
     act_then (push_all K A P w bs) (\<lambda>w1.
     act_then (writer_finish K A P w1) (\<lambda>(segments, _, lease).
     act_then (dedup_segments segments (pr_manifest pr)) (\<lambda>(segments1, deduped).
       give \<lparr>sc_entry = pr_entry pr, sc_head = pr_head pr,
             sc_manifest = next_manifest pr OpAppend opts (vm_segments (pr_manifest pr) @ segments1),
             sc_segments_added = length segments1 - deduped, sc_segments_deduped = deduped, sc_lease = lease,
             sc_known = known_of pr\<rparr>)))))"

text \<open>When the budget of segments is spent: one compaction, then the append once more without one.\<close>

definition budget_spent :: "prologue \<Rightarrow> bool" where
  "budget_spent pr \<longleftrightarrow> length (vm_segments (pr_manifest pr)) \<ge> tsp_max_segments (pr_spec pr)"

definition stage_append_once :: "codec \<Rightarrow> arrow \<Rightarrow> parquet \<Rightarrow> db \<Rightarrow> string \<Rightarrow> batch list \<Rightarrow> write_options
    \<Rightarrow> staged_commit act \<Rightarrow> staged_commit act" where
  "stage_append_once K A P D name bs opts when_spent =
     act_then (write_prologue K D name OpAppend opts) (\<lambda>pr.
     act_then (admit_batches A pr bs) (\<lambda>_.
       if budget_spent pr then when_spent else stage_append_segments K A P pr bs opts))"

definition too_many_segments :: "'a act" where
  "too_many_segments = raise (LimitExceeded ''table already references too many segments'')"

definition stage_append :: "codec \<Rightarrow> arrow \<Rightarrow> parquet \<Rightarrow> db \<Rightarrow> string \<Rightarrow> batch list \<Rightarrow> write_options \<Rightarrow> bool \<Rightarrow> staged_commit act" where
  "stage_append K A P D name bs opts auto_compact =
     stage_append_once K A P D name bs opts
       (if auto_compact \<and> wo_expected_version opts = None
        then act_then (ask policy_load) (\<lambda>pol.
             if \<not> is_ok (check_direct pol OpCompact) then too_many_segments
             else act_then (compact K A P D name write_options_default) (\<lambda>_.
                    stage_append_once K A P D name bs opts too_many_segments))
        else too_many_segments)"

definition append_inner :: "codec \<Rightarrow> arrow \<Rightarrow> parquet \<Rightarrow> db \<Rightarrow> string \<Rightarrow> batch list \<Rightarrow> write_options \<Rightarrow> bool \<Rightarrow> commit_result act" where
  "append_inner K A P D name bs opts auto_compact =
     act_then (stage_append K A P D name bs opts auto_compact) (commit_staged K D)"

definition db_append :: "codec \<Rightarrow> arrow \<Rightarrow> parquet \<Rightarrow> db \<Rightarrow> string \<Rightarrow> batch list \<Rightarrow> write_options \<Rightarrow> commit_result act" where
  "db_append K A P D name bs opts = replaying K D name opts (append_inner K A P D name bs opts True)"

text \<open>Retried on a conflict; waiting between attempts is not modelled.\<close>

primrec append_with_retry :: "codec \<Rightarrow> arrow \<Rightarrow> parquet \<Rightarrow> db \<Rightarrow> string \<Rightarrow> batch list \<Rightarrow> write_options \<Rightarrow> nat \<Rightarrow> commit_result act" where
  "append_with_retry K A P D name bs opts 0 = db_append K A P D name bs opts"
| "append_with_retry K A P D name bs opts (Suc n) =
     act_then (outcome (db_append K A P D name bs opts)) (\<lambda>r.
       case r of
         Inl e \<Rightarrow> if is_conflict e then append_with_retry K A P D name bs opts n else raise e
       | Inr x \<Rightarrow> give x)"

section \<open>Ranges\<close>

definition inside_range :: "arrow \<Rightarrow> string \<Rightarrow> int \<Rightarrow> int \<Rightarrow> unit \<Rightarrow> batch \<Rightarrow> unit sres" where
  "inside_range A tc start stop u b =
     (if rb_rows b = 0 then Inr ()
      else and_then (time_values_i64 A b tc) (\<lambda>vs.
           if list_all (\<lambda>v. start \<le> v \<and> v < stop) vs then Inr ()
           else Inl (InvalidInput ''replacement row falls outside the range'')))"

definition kept_segments :: "int \<Rightarrow> int \<Rightarrow> segment_meta list \<Rightarrow> segment_meta list" where
  "kept_segments start stop segs = filter (\<lambda>s. \<not> overlaps_time s (Some start) (Some stop)) segs"

definition boundary_segments :: "int \<Rightarrow> int \<Rightarrow> segment_meta list \<Rightarrow> segment_meta list" where
  "boundary_segments start stop segs =
     filter (\<lambda>s. overlaps_time s (Some start) (Some stop) \<and> \<not> covered_by_time s start stop) segs"

definition rewrite_boundary :: "codec \<Rightarrow> arrow \<Rightarrow> parquet \<Rightarrow> string \<Rightarrow> int \<Rightarrow> int \<Rightarrow> writer \<Rightarrow> segment_meta \<Rightarrow> writer act" where
  "rewrite_boundary K A P tc start stop w seg =
     act_then (ask (\<lambda>S. read_segment A P S seg None None)) (\<lambda>bs.
     act_then (lift (filter_batches_by_time A bs tc None (Some start))) (\<lambda>before.
     act_then (push_all K A P w before) (\<lambda>w1.
     act_then (lift (filter_batches_by_time A bs tc (Some stop) None)) (\<lambda>after.
       push_all K A P w1 after))))"

definition replace_range_impl :: "codec \<Rightarrow> arrow \<Rightarrow> parquet \<Rightarrow> db \<Rightarrow> string \<Rightarrow> int \<Rightarrow> int \<Rightarrow> batch list \<Rightarrow> write_options
    \<Rightarrow> op_kind \<Rightarrow> commit_result act" where
  "replace_range_impl K A P D name start stop bs opts op =
     replaying K D name opts (
     if start \<ge> stop then raise (InvalidInput ''empty range'')
     else act_then (write_prologue K D name op opts) (\<lambda>pr.
          case tsp_time_column (pr_spec pr) of
            None \<Rightarrow> raise (Unsupported ''requires a table with a time column'')
          | Some tc \<Rightarrow>
              act_then (admit_batches A pr bs) (\<lambda>_.
              act_then (lift (fold_r (inside_range A tc start stop) () bs)) (\<lambda>_.
              act_then (writer_new (pr_spec pr) (tsp_schema (pr_spec pr)) (next_sequence pr)) (\<lambda>w.
              act_then (act_fold (rewrite_boundary K A P tc start stop) w
                          (boundary_segments start stop (vm_segments (pr_manifest pr)))) (\<lambda>w1.
              act_then (if bs = [] then give w1
                        else act_then (lift (sort_batches A (tsp_schema (pr_spec pr)) bs (tsp_sort_key (pr_spec pr)))) (push K A P w1)) (\<lambda>w2.
              act_then (writer_finish K A P w2) (\<lambda>(rewritten, _, lease).
              act_then (dedup_segments rewritten (pr_manifest pr)) (\<lambda>(rewritten1, deduped).
              act_then (commit_prologue K D pr name
                          (next_manifest pr op opts
                             (sort_key time_order_key (kept_segments start stop (vm_segments (pr_manifest pr)) @ rewritten1)))
                          (length rewritten1 - deduped)) (\<lambda>r.
              act_then (release_staging lease) (\<lambda>_.
                give (r\<lparr>cr_segments_deduped := deduped\<rparr>))))))))))))"

definition replace_range :: "codec \<Rightarrow> arrow \<Rightarrow> parquet \<Rightarrow> db \<Rightarrow> string \<Rightarrow> int \<Rightarrow> int \<Rightarrow> batch list \<Rightarrow> write_options
    \<Rightarrow> commit_result act" where
  "replace_range K A P D name start stop bs opts = replace_range_impl K A P D name start stop bs opts OpReplaceRange"

definition delete_range :: "codec \<Rightarrow> arrow \<Rightarrow> parquet \<Rightarrow> db \<Rightarrow> string \<Rightarrow> int \<Rightarrow> int \<Rightarrow> write_options \<Rightarrow> commit_result act" where
  "delete_range K A P D name start stop opts = replace_range_impl K A P D name start stop [] opts OpDeleteRange"

section \<open>Restore and evolution\<close>

definition restore :: "codec \<Rightarrow> db \<Rightarrow> string \<Rightarrow> nat \<Rightarrow> write_options \<Rightarrow> commit_result act" where
  "restore K D name version opts =
     replaying K D name opts (
     act_then (write_prologue K D name OpRestore opts) (\<lambda>pr.
       if version > hd_sequence (hs_head (pr_head pr)) then raise (VersionNotFound name)
       else act_then (ask (\<lambda>S. manifest_at S (ce_table_id (pr_entry pr)) version)) (\<lambda>target.
            let opts1 = (case wo_note opts of None \<Rightarrow> opts\<lparr>wo_note := Some ''restore''\<rparr> | Some _ \<Rightarrow> opts)
            in commit_prologue K D pr name
                 ((next_manifest pr OpRestore opts1 (vm_segments target))\<lparr>vm_schema_revision := vm_schema_revision target\<rparr>) 0)))"

definition evolve_schema :: "codec \<Rightarrow> db \<Rightarrow> string \<Rightarrow> schema \<Rightarrow> write_options \<Rightarrow> commit_result act" where
  "evolve_schema K D name new_schema opts =
     act_then (lift (ensure_writable D ''evolve_schema'')) (\<lambda>_.
     act_then (write_prologue K D name OpEvolveSchema opts) (\<lambda>pr.
     act_then (lift (validate_evolution (tsp_schema (pr_spec pr)) new_schema)) (\<lambda>_.
     act_then (ask (\<lambda>S. head_of K S (ce_table_id (pr_entry pr)))) (\<lambda>current.
       if hs_tag current \<noteq> hs_tag (pr_head pr)
       then raise (VersionConflict name (hd_sequence (hs_head (pr_head pr))) (hd_sequence (hs_head current)))
       else if tsp_schema_revision (pr_spec pr) + 1 \<ge> 2 ^ 32 then raise (LimitExceeded ''schema revision overflow'')
       else let sp = seal_spec K ((pr_spec pr)\<lparr>tsp_schema_revision := tsp_schema_revision (pr_spec pr) + 1, tsp_schema := new_schema\<rparr>)
            in act_then (put_spec (ce_table_id (pr_entry pr)) sp) (\<lambda>_.
               commit_manifest_locked K D name (ce_table_id (pr_entry pr)) (Some (pr_head pr))
                 ((child_manifest (pr_manifest pr) (next_sequence pr) OpEvolveSchema opts sp)\<lparr>vm_segments := vm_segments (pr_manifest pr)\<rparr>)
                 0 \<lparr>ci_segment_limit = None, ci_parent_committed_at_ns = Some (vm_committed_at_ns (pr_manifest pr))\<rparr>)))))"

end
