(* ===== verification/Store_History.thy ===== *)
theory Store_History
  imports Store_Write
begin

text \<open>
  What a store promises of its history, and that the commit protocol keeps it: the retained versions
  of a table form an unbroken chain of manifests, each naming the digest of the one before and
  committed no earlier, whose last one is the one the head names. The identifiers still to be issued
  are not in use.
\<close>

section \<open>The chain\<close>

definition floor_of :: "store \<Rightarrow> uuid \<Rightarrow> nat" where
  "floor_of S t = (case bt_get (st_floors S) t of None \<Rightarrow> 0 | Some f \<Rightarrow> rf_min_retained_sequence f)"

definition manifest_ok :: "uuid \<Rightarrow> nat \<Rightarrow> manifest \<Rightarrow> bool" where
  "manifest_ok t n m \<longleftrightarrow> vm_format m \<le> FORMAT_VERSION \<and> vm_table_id m = t \<and> vm_sequence m = n
     \<and> recompute_rollups m = m \<and> vm_committed_at_ns m \<le> i64_max"

definition follows :: "codec \<Rightarrow> manifest \<Rightarrow> manifest \<Rightarrow> bool" where
  "follows K m m' \<longleftrightarrow> vm_parent m' = Some (vm_sequence m) \<and> vm_parent_checksum m' = Some (sum_manifest K m)
     \<and> vm_committed_at_ns m \<le> vm_committed_at_ns m'"

abbreviation slot :: "store \<Rightarrow> uuid \<Rightarrow> nat \<Rightarrow> manifest option" where
  "slot S t n \<equiv> bt_get (st_manifests S) (t, n)"

definition table_ok :: "codec \<Rightarrow> store \<Rightarrow> uuid \<Rightarrow> head \<Rightarrow> bool" where
  "table_ok K S t h \<longleftrightarrow> hd_format h \<le> FORMAT_VERSION \<and> hd_table_id h = t \<and> floor_of S t \<le> hd_sequence h
     \<and> (\<forall>n. floor_of S t \<le> n \<and> n \<le> hd_sequence h \<longrightarrow> (\<exists>m. slot S t n = Some m \<and> manifest_ok t n m))
     \<and> (\<forall>n m m'. floor_of S t \<le> n \<and> n < hd_sequence h \<and> slot S t n = Some m \<and> slot S t (Suc n) = Some m' \<longrightarrow> follows K m m')
     \<and> (\<forall>m. slot S t (hd_sequence h) = Some m \<longrightarrow> sum_manifest K m = hd_manifest_checksum h)"

definition history_ok :: "codec \<Rightarrow> store \<Rightarrow> bool" where
  "history_ok K S \<longleftrightarrow> (\<forall>t h. bt_get (st_heads S) t = Some h \<longrightarrow> table_ok K S t h)"

text \<open>
  History is append-only: a table that was there before is gone, or it still has every version it had
  that has not expired since, unchanged.
\<close>

definition extends :: "store \<Rightarrow> store \<Rightarrow> bool" where
  "extends B S \<longleftrightarrow> (\<forall>t h h'. bt_get (st_heads B) t = Some h \<and> bt_get (st_heads S) t = Some h' \<longrightarrow>
     hd_sequence h \<le> hd_sequence h' \<and> floor_of B t \<le> floor_of S t
     \<and> (\<forall>n. floor_of S t \<le> n \<and> n \<le> hd_sequence h \<longrightarrow> slot S t n = slot B t n))"

text \<open>
  The invariant, relative to a store that came before and to a set of identifiers that were issued to
  tables that do not exist yet. No transaction is pending.
\<close>

definition unused :: "store \<Rightarrow> view \<Rightarrow> uuid \<Rightarrow> bool" where
  "unused B v t \<longleftrightarrow> (case v of (S, i, n) \<Rightarrow> bt_get (st_floors S) t = None \<and> bt_get (st_heads B) t = None \<and> (\<forall>k \<ge> n. i k \<noteq> t))"

definition future_unused :: "store \<Rightarrow> view \<Rightarrow> bool" where
  "future_unused B v \<longleftrightarrow> (case v of (S, i, n) \<Rightarrow> inj i
     \<and> (\<forall>k \<ge> n. bt_get (st_floors S) (i k) = None \<and> bt_get (st_heads S) (i k) = None \<and> bt_get (st_heads B) (i k) = None))"

definition sound :: "codec \<Rightarrow> store \<Rightarrow> uuid set \<Rightarrow> view \<Rightarrow> bool" where
  "sound K B T v \<longleftrightarrow> history_ok K (fst v) \<and> extends B (fst v) \<and> st_journals (fst v) = [] \<and> future_unused B v
     \<and> (\<forall>t \<in> T. unused B v t)"

lemma inv_history: "sound K B T (S, i, n) \<Longrightarrow> history_ok K S"
  by (simp add: sound_def)

lemma inv_mono: "sound K B T v \<Longrightarrow> U \<subseteq> T \<Longrightarrow> sound K B U v"
  by (auto simp: sound_def)

lemma extends_refl [simp]: "extends S S"
  by (auto simp: extends_def)

lemma extends_cong:
  "st_heads S' = st_heads S \<Longrightarrow> st_manifests S' = st_manifests S \<Longrightarrow> st_floors S' = st_floors S \<Longrightarrow> extends B S' = extends B S"
  by (simp add: extends_def floor_of_def)

text \<open>The invariant reads heads, manifests and floors, and nothing else.\<close>

lemma table_ok_slot:
  "table_ok K S t h \<Longrightarrow> floor_of S t \<le> n \<Longrightarrow> n \<le> hd_sequence h \<Longrightarrow> \<exists>m. slot S t n = Some m \<and> manifest_ok t n m"
  by (simp add: table_ok_def)

lemma table_ok_cong:
  "st_manifests S' = st_manifests S \<Longrightarrow> st_floors S' = st_floors S \<Longrightarrow> table_ok K S' t h = table_ok K S t h"
  by (simp add: table_ok_def floor_of_def)

lemma sound_cong:
  assumes "st_heads S' = st_heads S" and "st_manifests S' = st_manifests S" and "st_floors S' = st_floors S"
    and "st_journals S' = st_journals S"
  shows "sound K B T (S', i, n) = sound K B T (S, i, n)"
  using assms table_ok_cong [OF assms(2,3)] extends_cong [OF assms(1-3)]
  by (simp add: sound_def history_ok_def future_unused_def unused_def)

lemma inv_put:
  assumes "\<And>S. st_heads (g S) = st_heads S" and "\<And>S. st_manifests (g S) = st_manifests S"
    and "\<And>S. st_floors (g S) = st_floors S" and "\<And>S. st_journals (g S) = st_journals S"
  shows "keeps (sound K B T) (put g)"
  by (rule keeps_put) (simp add: sound_cong [OF assms])

lemma sound_fresh:
  assumes "sound K B T (S, i, n)"
  shows "sound K B (insert (i n) T) (S, i, Suc n)" and "i n \<notin> T" and "bt_get (st_heads S) (i n) = None"
proof -
  have "i k \<noteq> i n" if "Suc n \<le> k" for k using that assms injD [of i k n] by (auto simp: sound_def future_unused_def)
  with assms show "sound K B (insert (i n) T) (S, i, Suc n)" by (auto simp: sound_def future_unused_def unused_def)
  show "i n \<notin> T" using assms by (auto simp: sound_def unused_def)
  show "bt_get (st_heads S) (i n) = None" using assms by (simp add: sound_def future_unused_def)
qed

lemma inv_fresh: "triple E (sound K B T) fresh_id (\<lambda>t. sound K B (insert t T))"
  by (rule triple_fresh) (rule sound_fresh)

lemma keeps_fresh [keeps, intro]: "keeps (sound K B T) fresh_id"
  by (rule triple_weaken [OF inv_fresh]) (auto elim: inv_mono)

section \<open>Committing keeps the chain\<close>

lemma rollups_idem [simp]: "recompute_rollups (recompute_rollups m) = recompute_rollups m"
  by (simp add: recompute_rollups_def)

lemma monotonic_commit_ts_bound: "monotonic_commit_ts w p \<le> i64_max"
  by (auto simp: monotonic_commit_ts_def Let_def sat64_def int_range split: option.splits)

lemma monotonic_commit_ts_after: "p \<le> i64_max \<Longrightarrow> p \<le> monotonic_commit_ts w (Some p)"
  by (auto simp: monotonic_commit_ts_def Let_def sat64_def int_range)

text \<open>What a writer holds when it commits onto a head it read earlier.\<close>

definition staged_on :: "codec \<Rightarrow> uuid \<Rightarrow> head_state \<Rightarrow> commit_inputs \<Rightarrow> manifest \<Rightarrow> bool" where
  "staged_on K t p known m \<longleftrightarrow> hs_tag p = sum_head K (hs_head p)
     \<and> vm_sequence m = Suc (hd_sequence (hs_head p)) \<and> vm_table_id m = t \<and> vm_format m \<le> FORMAT_VERSION
     \<and> (case ci_parent_committed_at_ns known of
          None \<Rightarrow> True
        | Some ts \<Rightarrow> \<exists>pm. sum_manifest K pm = hd_manifest_checksum (hs_head p) \<and> ts = vm_committed_at_ns pm)"

lemma stamped_ok:
  assumes "vm_table_id m = t" and "vm_format m \<le> FORMAT_VERSION"
  shows "manifest_ok t (vm_sequence m) (stamp w p ts m)"
  using assms monotonic_commit_ts_bound
  by (auto simp: manifest_ok_def stamp_def split: option.splits) (simp_all add: recompute_rollups_def monotonic_commit_ts_bound)

lemma stamp_sequence [simp]: "vm_sequence (stamp w p ts m) = vm_sequence m"
  by (auto simp: stamp_def recompute_rollups_def split: option.splits)

lemma stamp_follows:
  assumes "manifest_ok t n pm" and "hd_sequence (hs_head p) = n" and "hd_manifest_checksum (hs_head p) = sum_manifest K pm"
    and "ts = vm_committed_at_ns pm"
  shows "follows K pm (stamp w (Some p) (Some ts) m)"
  using assms monotonic_commit_ts_after by (simp add: follows_def stamp_def recompute_rollups_def manifest_ok_def)

text \<open>A manifest beyond the head is nobody's history.\<close>

lemma inv_put_manifest:
  assumes "sound K B T (S, i, n)" and "\<And>h. bt_get (st_heads S) t = Some h \<Longrightarrow> hd_sequence h < q"
  shows "sound K B T (S\<lparr>st_manifests := bt_insert (t, q) m (st_manifests S)\<rparr>, i, n)"
proof -
  have "table_ok K (S\<lparr>st_manifests := bt_insert (t, q) m (st_manifests S)\<rparr>) t' h"
    if "table_ok K S t' h" "t' = t \<Longrightarrow> hd_sequence h < q" for t' h
    using that by (auto simp: table_ok_def floor_of_def)
  then have "history_ok K (S\<lparr>st_manifests := bt_insert (t, q) m (st_manifests S)\<rparr>)"
    using assms by (simp add: sound_def history_ok_def) metis
  moreover have "extends B (S\<lparr>st_manifests := bt_insert (t, q) m (st_manifests S)\<rparr>)"
    using assms by (fastforce simp: sound_def extends_def floor_of_def)
  ultimately show ?thesis using assms(1) by (simp add: sound_def future_unused_def unused_def)
qed

lemma inv_swap:
  assumes inv: "sound K B T (S, i, n)" and h: "bt_get (st_heads S) t = Some h" and pm: "slot S t (hd_sequence h) = Some pm"
    and m: "slot S t (Suc (hd_sequence h)) = Some m" "manifest_ok t (Suc (hd_sequence h)) m" "follows K pm m"
  shows "sound K B T (S\<lparr>st_heads := bt_insert t (head_for K t m) (st_heads S)\<rparr>, i, n)"
proof -
  have ok: "table_ok K S t h" using inv h by (simp add: sound_def history_ok_def)
  have "table_ok K S t (head_for K t m)"
    unfolding table_ok_def
  proof (intro conjI allI impI)
    fix k assume k: "floor_of S t \<le> k \<and> k \<le> hd_sequence (head_for K t m)"
    show "\<exists>x. slot S t k = Some x \<and> manifest_ok t k x"
      using k ok m by (cases "k = Suc (hd_sequence h)") (auto simp: table_ok_def head_for_def manifest_ok_def)
  next
    fix k x x'
    assume k: "floor_of S t \<le> k \<and> k < hd_sequence (head_for K t m) \<and> slot S t k = Some x \<and> slot S t (Suc k) = Some x'"
    show "follows K x x'"
    proof (cases "k = hd_sequence h")
      case True
      with k m pm show ?thesis by simp
    next
      case False
      with k m(2) have "k < hd_sequence h" by (simp add: head_for_def manifest_ok_def)
      with k ok show ?thesis unfolding table_ok_def by blast
    qed
  qed (use ok m in \<open>auto simp: table_ok_def head_for_def manifest_ok_def\<close>)
  moreover have "table_ok K (S\<lparr>st_heads := bt_insert t (head_for K t m) (st_heads S)\<rparr>) t' g = table_ok K S t' g" for t' g
    by (rule table_ok_cong) simp_all
  moreover have "\<forall>k \<ge> n. i k \<noteq> t" using inv h by (auto simp: sound_def future_unused_def)
  moreover have "extends B (S\<lparr>st_heads := bt_insert t (head_for K t m) (st_heads S)\<rparr>)"
    using inv h m(2) by (fastforce simp: sound_def extends_def floor_of_def head_for_def manifest_ok_def)
  ultimately show ?thesis using inv by (auto simp: sound_def history_ok_def future_unused_def unused_def)
qed

lemma inv_first_head:
  assumes inv: "sound K B T (S, i, n)" and "t \<in> T" and m: "slot S t 0 = Some m" "manifest_ok t 0 m"
  shows "sound K B T (S\<lparr>st_heads := bt_insert t (head_for K t m) (st_heads S)\<rparr>, i, n)"
proof -
  have "floor_of S t = 0" "\<forall>k \<ge> n. i k \<noteq> t" "bt_get (st_heads B) t = None"
    using inv \<open>t \<in> T\<close> by (auto simp: sound_def unused_def floor_of_def)
  then have "table_ok K S t (head_for K t m)" using m by (auto simp: table_ok_def head_for_def manifest_ok_def)
  moreover have "table_ok K (S\<lparr>st_heads := bt_insert t (head_for K t m) (st_heads S)\<rparr>) t' g = table_ok K S t' g" for t' g
    by (rule table_ok_cong) simp_all
  moreover have "extends B (S\<lparr>st_heads := bt_insert t (head_for K t m) (st_heads S)\<rparr>)"
    using inv \<open>bt_get (st_heads B) t = None\<close> by (fastforce simp: sound_def extends_def floor_of_def)
  ultimately show ?thesis
    using inv \<open>\<forall>k \<ge> n. i k \<noteq> t\<close> by (auto simp: sound_def history_ok_def future_unused_def unused_def)
qed

text \<open>The head is still the one that was staged on.\<close>

definition at_head :: "codec \<Rightarrow> store \<Rightarrow> uuid set \<Rightarrow> uuid \<Rightarrow> head_state \<Rightarrow> view \<Rightarrow> bool" where
  "at_head K B T t p v \<longleftrightarrow> sound K B T v \<and> bt_get (st_heads (fst v)) t = Some (hs_head p)"

definition published :: "codec \<Rightarrow> store \<Rightarrow> uuid set \<Rightarrow> uuid \<Rightarrow> head_state \<Rightarrow> manifest \<Rightarrow> view \<Rightarrow> bool" where
  "published K B T t p m v \<longleftrightarrow> at_head K B T t p v \<and> slot (fst v) t (Suc (hd_sequence (hs_head p))) = Some m"

lemma heads_read_Inr:
  "heads_read K S t = Inr c \<Longrightarrow>
     c = map_option (\<lambda>h. \<lparr>hs_head = h, hs_tag = sum_head K h\<rparr>) (bt_get (st_heads S) t)"
  by (auto simp: heads_read_def split: option.splits if_splits)

lemma revalidate_Inr:
  assumes "collision_free K" and "revalidate K t name (map_option hs_tag parent) new_head S = Inr u"
    and "\<And>p. parent = Some p \<Longrightarrow> hs_tag p = sum_head K (hs_head p)"
  shows "bt_get (st_heads S) t = map_option hs_head parent"
proof -
  obtain c where c: "heads_read K S t = Inr c" "swap_expected c (map_option hs_tag parent)"
    using assms(2) by (auto simp: revalidate_def result_simps split: if_splits)
  have "inj (sum_head K)" using assms(1) by (simp add: collision_free_def)
  with c(2) heads_read_Inr [OF c(1)] assms(3) show ?thesis
    by (cases parent; cases "bt_get (st_heads S) t") (auto simp: swap_expected_def inj_eq)
qed

lemma at_head_inv: "at_head K B T t p v \<Longrightarrow> sound K B T v"
  by (simp add: at_head_def)

lemma published_inv: "published K B T t p m v \<Longrightarrow> sound K B T v"
  by (simp add: published_def at_head_def)

lemma put_manifest_triple:
  assumes "vm_sequence m = Suc (hd_sequence (hs_head p))"
  shows "triple (sound K B T) (at_head K B T t p) (put_manifest D name t (vm_sequence m) m) (\<lambda>_. published K B T t p m)"
proof -
  have put: "triple (sound K B T) (at_head K B T t p) (put (\<lambda>S. S\<lparr>st_manifests := bt_insert (t, vm_sequence m) m (st_manifests S)\<rparr>))
      (\<lambda>_. published K B T t p m)"
    by (rule triple_put) (auto simp: published_def at_head_def assms intro: inv_put_manifest)
  have ask: "triple (sound K B T) (at_head K B T t p) (ask f) (\<lambda>_. at_head K B T t p)" for f :: "store \<Rightarrow> 'b sres"
    by (rule triple_ask) (auto simp: at_head_def)
  show ?thesis
    unfolding put_manifest_def create_manifest_slot_def by (intro triple_if put triple_then [OF ask])
qed

lemma publish_triple:
  assumes "vm_sequence m = Suc (hd_sequence (hs_head p))"
  shows "triple (sound K B T) (at_head K B T t p) (publish_manifest D name t m) (\<lambda>_. published K B T t p m)"
  unfolding publish_manifest_def
  by (intro triple_then [OF put_manifest_triple [OF assms]] triple_then [OF triple_lift] triple_lift)
    (auto simp: published_inv)

definition vouched_time :: "codec \<Rightarrow> head_state \<Rightarrow> int \<Rightarrow> bool" where
  "vouched_time K p ts \<longleftrightarrow> (\<exists>pm. sum_manifest K pm = hd_manifest_checksum (hs_head p) \<and> ts = vm_committed_at_ns pm)"

lemma at_head_slot:
  assumes "at_head K B T t p (S, i, n)"
  obtains pm where "slot S t (hd_sequence (hs_head p)) = Some pm" and "manifest_ok t (hd_sequence (hs_head p)) pm"
    and "sum_manifest K pm = hd_manifest_checksum (hs_head p)"
proof -
  have "table_ok K S t (hs_head p)" using assms by (simp add: at_head_def sound_def history_ok_def)
  then obtain pm where "slot S t (hd_sequence (hs_head p)) = Some pm" "manifest_ok t (hd_sequence (hs_head p)) pm"
    "sum_manifest K pm = hd_manifest_checksum (hs_head p)"
    unfolding table_ok_def by blast
  then show ?thesis by (rule that)
qed

lemma swap_triple:
  fixes wall :: int
  assumes K: "collision_free K" and ts: "vouched_time K p ts" and "staged_on K t p known m"
  defines "m1 \<equiv> stamp wall (Some p) (Some ts) m"
  shows "triple (sound K B T) (published K B T t p m1) (write_head t (head_for K t m1)) (\<lambda>_. sound K B T)"
  unfolding write_head_def
proof (rule triple_put)
  fix S i n assume pub: "published K B T t p m1 (S, i, n)"
  then obtain pm where pm: "slot S t (hd_sequence (hs_head p)) = Some pm" "manifest_ok t (hd_sequence (hs_head p)) pm"
    "sum_manifest K pm = hd_manifest_checksum (hs_head p)"
    using at_head_slot [of K B T t p S i n] by (auto simp: published_def)
  then have "ts = vm_committed_at_ns pm"
    using K ts by (metis collision_free_def injD vouched_time_def)
  then have "follows K pm m1" unfolding m1_def using stamp_follows [OF pm(2)] pm(3) by auto
  moreover have "manifest_ok t (Suc (hd_sequence (hs_head p))) m1"
    using stamped_ok [of m t] assms(3) by (auto simp: m1_def staged_on_def)
  ultimately show "sound K B T (S\<lparr>st_heads := bt_insert t (head_for K t m1) (st_heads S)\<rparr>, i, n)"
    using pub pm(1) by (intro inv_swap [of K B T S i n t "hs_head p" pm]) (auto simp: published_def at_head_def)
qed (rule published_inv)

lemma revalidate_triple:
  assumes "collision_free K" and "hs_tag p = sum_head K (hs_head p)"
  shows "triple (sound K B T) (sound K B T) (ask (revalidate K t name (map_option hs_tag (Some p)) new_head)) (\<lambda>_. at_head K B T t p)"
  by (rule triple_ask) (use revalidate_Inr [OF assms(1), of t name "Some p" new_head] assms(2) in \<open>auto simp: at_head_def\<close>)

lemma heads_commit_triple:
  fixes wall :: int
  assumes K: "collision_free K" and ts: "vouched_time K p ts" and st: "staged_on K t p known m"
  defines "m1 \<equiv> stamp wall (Some p) (Some ts) m"
  shows "keeps (sound K B T) (heads_commit K D t name (map_option hs_tag (Some p)) (head_for K t m1) (publish_manifest D name t m1))"
proof -
  have tag: "hs_tag p = sum_head K (hs_head p)" and sq: "vm_sequence m1 = Suc (hd_sequence (hs_head p))"
    using st by (auto simp: staged_on_def m1_def)
  note swap = swap_triple [OF K ts st, of B T wall, folded m1_def]
  have again: "triple (sound K B T) (published K B T t p m1) (ask f) (\<lambda>_. published K B T t p m1)" for f :: "store \<Rightarrow> unit sres"
    by (rule triple_ask) (auto simp: published_inv)
  show ?thesis
    unfolding heads_commit_def
    by (intro triple_then [OF revalidate_triple [OF K tag]] triple_then [OF publish_triple [OF sq]] triple_if swap
        triple_then [OF again])
qed

lemma parent_time_triple:
  assumes "staged_on K t p known m"
  shows "triple (sound K B T) (sound K B T) (ask (parent_committed_at t p known))
    (\<lambda>ts v. sound K B T v \<and> (bt_get (st_heads (fst v)) t = Some (hs_head p) \<longrightarrow> vouched_time K p ts))"
proof (rule triple_ask)
  fix ts S i n assume ts: "parent_committed_at t p known S = Inr ts" and inv: "sound K B T (S, i, n)"
  have "vouched_time K p ts" if h: "bt_get (st_heads S) t = Some (hs_head p)"
  proof (cases "ci_parent_committed_at_ns known")
    case None
    then obtain m where m: "manifest_at S t (hd_sequence (hs_head p)) = Inr m" "ts = vm_committed_at_ns m"
      using ts by (auto simp: parent_committed_at_def result_simps)
    have "at_head K B T t p (S, i, n)" using inv h by (simp add: at_head_def)
    then obtain pm where "slot S t (hd_sequence (hs_head p)) = Some pm" "sum_manifest K pm = hd_manifest_checksum (hs_head p)"
      by (rule at_head_slot)
    with m show ?thesis by (auto simp: manifest_at_def parse_manifest_def vouched_time_def split: if_splits)
  next
    case (Some x)
    with ts assms show ?thesis by (auto simp: parent_committed_at_def staged_on_def vouched_time_def)
  qed
  with inv show "sound K B T (S, i, n) \<and> (bt_get (st_heads (fst (S, i, n))) t = Some (hs_head p) \<longrightarrow> vouched_time K p ts)"
    by simp
qed simp

lemma triple_False: "triple E (\<lambda>_. False) m Q"
  by (simp add: triple_def)

lemma heads_commit_guarded:
  assumes K: "collision_free K" and st: "staged_on K t p known m"
  defines "m1 \<equiv> \<lambda>ts wall. stamp wall (Some p) (Some ts) m"
  shows "triple (sound K B T) (\<lambda>v. sound K B T v \<and> (bt_get (st_heads (fst v)) t = Some (hs_head p) \<longrightarrow> vouched_time K p ts))
    (heads_commit K D t name (map_option hs_tag (Some p)) (head_for K t (m1 ts wall)) (publish_manifest D name t (m1 ts wall)))
    (\<lambda>_. sound K B T)"
proof (cases "vouched_time K p ts")
  case True
  then show ?thesis unfolding m1_def by (intro triple_weaken [OF heads_commit_triple [OF K True st]]) auto
next
  case False
  have tag: "hs_tag p = sum_head K (hs_head p)" using st by (simp add: staged_on_def)
  have "triple (sound K B T) (\<lambda>v. sound K B T v \<and> bt_get (st_heads (fst v)) t \<noteq> Some (hs_head p))
      (ask (revalidate K t name (map_option hs_tag (Some p)) new_head)) (\<lambda>_ _. False)" for new_head
    by (rule triple_ask) (use revalidate_Inr [OF K, of t name "Some p"] tag in auto)
  from triple_then [OF this triple_False]
  have "triple (sound K B T) (\<lambda>v. sound K B T v \<and> bt_get (st_heads (fst v)) t \<noteq> Some (hs_head p))
      (heads_commit K D t name (map_option hs_tag (Some p)) (head_for K t (m1 ts wall)) (publish_manifest D name t (m1 ts wall)))
      (\<lambda>_. sound K B T)" unfolding heads_commit_def .
  then show ?thesis by (rule triple_weaken) (use False in auto)
qed

lemma commit_keeps [keeps]:
  assumes K: "collision_free K" and st: "staged_on K t p known m"
  shows "keeps (sound K B T) (commit_manifest_locked K D name t (Some p) m added known)"
proof -
  let ?G = "\<lambda>ts v. sound K B T v \<and> (bt_get (st_heads (fst v)) t = Some (hs_head p) \<longrightarrow> vouched_time K p ts)"
  have time: "triple (sound K B T) (sound K B T) (act_then (ask (parent_committed_at t p known)) (\<lambda>ts. give (Some ts)))
      (\<lambda>r v. \<exists>ts. r = Some ts \<and> ?G ts v)"
    by (rule triple_then [OF parent_time_triple [OF st]], rule triple_give) auto
  have rest: "triple (sound K B T) (?G ts) (act_then now (\<lambda>wall.
      let m1 = stamp wall (Some p) (Some ts) m
      in act_then (lift (db_hook D ''pre_publish'')) (\<lambda>_.
         act_then (heads_commit K D t name (map_option hs_tag (Some p)) (head_for K t m1) (publish_manifest D name t m1)) (\<lambda>_.
         act_then (lift (db_hook D ''post_head_swap'')) (\<lambda>_. give (result_of name m1 added 0)))))) (\<lambda>_. sound K B T)" for ts
    unfolding Let_def
    by (rule triple_then [OF triple_now [where Q = "\<lambda>_. ?G ts"]], assumption,
        rule triple_then [OF triple_lift [where Q = "\<lambda>_. ?G ts"]], simp, assumption,
        rule triple_then [OF heads_commit_guarded [OF K st]]) (intro keeps_then keeps_pure)
  have split: "triple (sound K B T) (\<lambda>v. \<exists>ts. r = Some ts \<and> ?G ts v) m' Q" if "\<And>ts. r = Some ts \<Longrightarrow> triple (sound K B T) (?G ts) m' Q"
    for r and m' :: "commit_result act" and Q
    using that by (cases r) (auto simp: triple_def)
  show ?thesis
    unfolding commit_manifest_locked_def option.case
    by (rule keeps_then, rule keeps_pure, rule triple_if, rule keeps_pure, rule triple_then [OF time], rule split, erule ssubst,
        rule rest)
qed

section \<open>The first version of a table\<close>

definition headless :: "codec \<Rightarrow> store \<Rightarrow> uuid set \<Rightarrow> uuid \<Rightarrow> view \<Rightarrow> bool" where
  "headless K B T t v \<longleftrightarrow> sound K B T v \<and> bt_get (st_heads (fst v)) t = None"

lemma put_first_manifest:
  "triple (sound K B T) (headless K B T t) (put_manifest D name t q m) (\<lambda>_ v. headless K B T t v \<and> slot (fst v) t q = Some m)"
proof -
  have put: "triple (sound K B T) (headless K B T t) (put (\<lambda>S. S\<lparr>st_manifests := bt_insert (t, q) m (st_manifests S)\<rparr>))
      (\<lambda>_ v. headless K B T t v \<and> slot (fst v) t q = Some m)"
    by (rule triple_put) (auto simp: headless_def intro: inv_put_manifest)
  have ask: "triple (sound K B T) (headless K B T t) (ask f) (\<lambda>_. headless K B T t)" for f :: "store \<Rightarrow> 'b sres"
    by (rule triple_ask) (auto simp: headless_def)
  show ?thesis
    unfolding put_manifest_def create_manifest_slot_def by (intro triple_if put triple_then [OF ask])
qed

lemma first_head_triple:
  assumes "t \<in> T" and "manifest_ok t 0 m"
  shows "triple (sound K B T) (\<lambda>v. headless K B T t v \<and> slot (fst v) t 0 = Some m) (write_head t (head_for K t m)) (\<lambda>_. sound K B T)"
  unfolding write_head_def by (rule triple_put) (use assms in \<open>auto simp: headless_def intro: inv_first_head\<close>)

lemma commit_first_keeps:
  assumes K: "collision_free K" and "t \<in> T" and m: "vm_sequence m = 0" "vm_table_id m = t" "vm_format m \<le> FORMAT_VERSION"
  shows "keeps (sound K B T) (commit_manifest_locked K D name t None m added known)"
proof -
  let ?H = "\<lambda>m1 v. headless K B T t v \<and> slot (fst v) t 0 = Some m1"
  have ok: "manifest_ok t 0 (stamp w None ts m)" for w ts using stamped_ok [of m t] m by auto
  have check: "triple (sound K B T) (sound K B T) (ask (revalidate K t name None nh)) (\<lambda>_. headless K B T t)" for nh
    by (rule triple_ask) (use revalidate_Inr [OF K, of t name None nh] in \<open>auto simp: headless_def\<close>)
  have still: "triple (sound K B T) (?H m1) (ask f) (\<lambda>_. ?H m1)" for f :: "store \<Rightarrow> unit sres" and m1
    by (rule triple_ask) (auto simp: headless_def)
  have hook: "triple (sound K B T) (?H m1) (lift r) (\<lambda>_. ?H m1)" for r :: "unit sres" and m1
    by (rule triple_lift) (auto simp: headless_def)
  have publish: "triple (sound K B T) (headless K B T t) (publish_manifest D name t (stamp w None ts m)) (\<lambda>_. ?H (stamp w None ts m))" for w ts
    unfolding publish_manifest_def stamp_sequence m(1) by (intro triple_then [OF put_first_manifest] triple_then [OF hook] hook)
  have "keeps (sound K B T) (heads_commit K D t name None (head_for K t (stamp w None ts m)) (publish_manifest D name t (stamp w None ts m)))" for w ts
    unfolding heads_commit_def
    by (intro triple_then [OF check] triple_then [OF publish] triple_if triple_then [OF still] first_head_triple [OF \<open>t \<in> T\<close> ok])
  then show ?thesis
    unfolding commit_manifest_locked_def option.case Let_def by (intro keeps_then keeps_pure triple_if) auto
qed

end
