(* ===== verification/Store_Keeps.thy ===== *)
theory Store_Keeps
  imports Store_History
begin

text \<open>
  Every operation that commits a version keeps the history sound, wherever it stops. Writers,
  readers and staging leases do not touch it; the prologue returns a head and a manifest that belong
  together, which is all a commit needs.
\<close>

section \<open>Segments and leases\<close>

lemma keeps_record_staged [keeps, intro]: "keeps (sound K B T) (record_staged w path)"
  unfolding record_staged_def Let_def by (intro keeps_then keeps_pure inv_put) simp_all

lemma keeps_writer_new [keeps, intro]: "keeps (sound K B T) (writer_new sp sch q)"
  unfolding writer_new_def by (intro keeps_then keeps_pure keeps_fresh)

lemma keeps_flush [keeps, intro]: "keeps (sound K B T) (flush K' A P w)"
  unfolding flush_def Let_def
  by (intro keeps_then keeps_pure keeps_fresh keeps_record_staged keeps_cases inv_put) simp_all

lemma keeps_push [keeps, intro]: "keeps (sound K B T) (push K' A P w b)"
  unfolding push_def Let_def by (intro keeps_then keeps_pure keeps_flush keeps_cases)

lemma keeps_push_all [keeps, intro]: "keeps (sound K B T) (push_all K' A P w bs)"
  unfolding push_all_def by (intro keeps_fold keeps_push)

lemma keeps_writer_finish [keeps, intro]: "keeps (sound K B T) (writer_finish K' A P w)"
  unfolding writer_finish_def by (intro keeps_then keeps_flush keeps_pure)

lemma keeps_drain [keeps, intro]: "keeps (sound K B T) (drain_merger K' A P n m w)"
  by (induction n arbitrary: m w) (auto intro!: keeps_then keeps_cases keeps_push)

lemma keeps_push_merged [keeps, intro]: "keeps (sound K B T) (push_merged K' A P bs key w)"
  unfolding push_merged_def by (intro keeps_then keeps_pure keeps_drain)

lemma keeps_dedup [keeps, intro]: "keeps (sound K B T) (dedup_segments segs parent)"
  unfolding dedup_segments_def Let_def by (intro keeps_then keeps_map keeps_attempt keeps_pure inv_put) simp_all

lemma keeps_release [keeps, intro]: "keeps (sound K B T) (release_staging lease)"
  unfolding release_staging_def by (intro keeps_cases keeps_pure keeps_attempt inv_put) simp_all

lemma keeps_admit [keeps, intro]: "keeps (sound K B T) (admit_batches A pr bs)"
  unfolding admit_batches_def by (intro keeps_then keeps_pure)

lemma keeps_put_spec [keeps, intro]: "keeps (sound K B T) (put_spec t sp)"
  unfolding put_spec_def by (rule inv_put) simp_all

lemma keeps_fork_create_entry [keeps, intro]: "keeps (sound K B T) (fork_create_entry K' f e)"
  unfolding fork_create_entry_def by (intro keeps_then keeps_pure inv_put) simp_all

section \<open>Shadows\<close>

definition shadow_ok :: "prepared_shadow \<Rightarrow> bool" where
  "shadow_ok s \<longleftrightarrow> vm_sequence (ps_manifest s) = 0 \<and> vm_table_id (ps_manifest s) = ps_table_id s
     \<and> vm_format (ps_manifest s) \<le> FORMAT_VERSION"

lemma prepare_shadow_triple:
  "triple (sound K B T) (sound K B T) (prepare_shadow K fk name base) (\<lambda>s v. sound K B (insert (ps_table_id s) T) v \<and> shadow_ok s)"
proof -
  have read: "triple (sound K B T) (sound K B T) (ask (pinned_manifest K t p)) (\<lambda>m v. sound K B T v \<and> vm_format m \<le> FORMAT_VERSION)" for t p
    by (rule triple_ask) (auto simp: pinned_manifest_def parse_manifest_def result_simps split: if_splits)
  have less: "\<And>v t. sound K B (insert t T) v \<Longrightarrow> sound K B T v" by (auto elim: inv_mono)
  show ?thesis
    unfolding prepare_shadow_def Let_def
    by (intro triple_option triple_raise triple_then [OF read] triple_pre triple_then [OF inv_fresh]
        triple_then [OF triple_ask [where Q = "\<lambda>_. sound K B (insert t T)" for t]]
        triple_then [OF triple_lift [where Q = "\<lambda>_. sound K B (insert t T)" for t]]
        triple_then [OF triple_now [where Q = "\<lambda>_. sound K B (insert t T)" for t]] triple_give)
      (auto simp: shadow_ok_def shadow_manifest_def recompute_rollups_def intro: less)
qed

lemma keeps_prepare_shadow [keeps, intro]: "keeps (sound K B T) (prepare_shadow K fk name base)"
  by (rule triple_weaken [OF prepare_shadow_triple]) (auto elim: inv_mono)

lemma keeps_write_shadows:
  assumes "collision_free K" and "\<And>s. s \<in> set ss \<Longrightarrow> shadow_ok s \<and> ps_table_id s \<in> T"
  shows "keeps (sound K B T) (write_shadows K D fk ss)"
  unfolding write_shadows_def
  by (intro keeps_then keeps_map keeps_put_spec keeps_pure keeps_fork_create_entry commit_first_keeps)
    (use assms in \<open>auto simp: shadow_ok_def\<close>)

lemma keeps_materialize_shadow [keeps]:
  assumes "collision_free K"
  shows "keeps (sound K B T) (materialize_shadow K D fk name base)"
proof -
  have "triple (sound K B T) (sound K B (insert (ps_table_id s) T)) (write_shadows K D fk [s]) (\<lambda>_. sound K B T)" if "shadow_ok s" for s
    by (rule triple_weaken [OF keeps_write_shadows [OF assms, of "[s]" "insert (ps_table_id s) T"]]) (use that in \<open>auto elim: inv_mono\<close>)
  then show ?thesis
    unfolding materialize_shadow_def
    by (intro keeps_then keeps_cases keeps_pure triple_then [OF prepare_shadow_triple] triple_pre triple_then [OF _ keeps_pure(1)])
qed

text \<open>Several shadows at once: each is prepared under the identifiers of those before it.\<close>

definition shadows_ok :: "codec \<Rightarrow> store \<Rightarrow> uuid set \<Rightarrow> prepared_shadow list \<Rightarrow> view \<Rightarrow> bool" where
  "shadows_ok K B T ss v \<longleftrightarrow> sound K B (T \<union> ps_table_id ` set ss) v \<and> list_all shadow_ok ss"

lemma prepare_shadows_triple:
  assumes "\<And>x U. triple (sound K B U) (sound K B U) (f x) (shadows_ok K B U)"
  shows "triple (sound K B T) (sound K B T) (act_map f xs) (\<lambda>sss. shadows_ok K B T (concat sss))"
proof (induction xs arbitrary: T)
  case Nil
  show ?case by (auto intro!: triple_give simp: shadows_ok_def)
next
  case (Cons x xs)
  have "triple (sound K B T) (shadows_ok K B T ss) (act_then (act_map f xs) (\<lambda>sss. give (ss # sss))) (\<lambda>sss. shadows_ok K B T (concat sss))" for ss
  proof -
    let ?U = "T \<union> ps_table_id ` set ss"
    have "triple (sound K B T) (sound K B ?U) (act_map f xs) (\<lambda>sss. shadows_ok K B ?U (concat sss))"
      by (rule triple_weaken [OF Cons.IH [of ?U]]) (auto elim: inv_mono)
    then have "triple (sound K B T) (sound K B ?U) (act_then (act_map f xs) (\<lambda>sss. give (ss # sss)))
        (\<lambda>sss v. \<exists>r. sss = ss # r \<and> shadows_ok K B ?U (concat r) v)"
      by (rule triple_then) (auto intro!: triple_give)
    then have "list_all shadow_ok ss \<Longrightarrow> triple (sound K B T) (sound K B ?U) (act_then (act_map f xs) (\<lambda>sss. give (ss # sss)))
        (\<lambda>sss. shadows_ok K B T (concat sss))"
      by (rule triple_weaken) (auto simp: shadows_ok_def image_Un Un_assoc)
    then show ?thesis unfolding shadows_ok_def [of K B T ss] by (rule triple_pre)
  qed
  with assms show ?case by (auto intro: triple_then)
qed

lemma keeps_materialize_shadows [keeps]:
  assumes "collision_free K"
  shows "keeps (sound K B T) (materialize_shadows K D names)"
proof -
  have one: "triple (sound K B U) (sound K B U) (case x of (name, base) \<Rightarrow>
      act_then (ask (\<lambda>S. fork_load_entry K S (fk_name fk) name)) (\<lambda>existing.
        case existing of Some _ \<Rightarrow> give [] | None \<Rightarrow> act_then (prepare_shadow K fk name base) (\<lambda>s. give [s]))) (shadows_ok K B U)" for x U fk
    by (intro triple_prod triple_then [OF triple_ask [where Q = "\<lambda>_. sound K B U"]] triple_option triple_give
        triple_then [OF prepare_shadow_triple]) (auto simp: shadows_ok_def)
  have "triple (sound K B T) (shadows_ok K B T ss) (write_shadows K D fk ss) (\<lambda>_. sound K B T)" for ss fk
    unfolding shadows_ok_def
    by (rule triple_pre, rule triple_weaken [OF keeps_write_shadows [OF assms, where T = "T \<union> ps_table_id ` set ss"]]) (auto simp: list_all_iff elim: inv_mono)
  then show ?thesis
    unfolding materialize_shadows_def
    by (intro keeps_cases keeps_then keeps_pure triple_then [OF prepare_shadows_triple] one)
qed

lemma keeps_entry_for_write [keeps]: "collision_free K \<Longrightarrow> keeps (sound K B T) (entry_for_write K D name)"
  unfolding entry_for_write_def by (intro keeps_then keeps_cases keeps_pure keeps_materialize_shadow)

section \<open>The prologue\<close>

text \<open>The head, the manifest it names and the table they belong to.\<close>

definition prologue_ok :: "codec \<Rightarrow> prologue \<Rightarrow> bool" where
  "prologue_ok K pr \<longleftrightarrow> hs_tag (pr_head pr) = sum_head K (hs_head (pr_head pr))
     \<and> vm_table_id (pr_manifest pr) = ce_table_id (pr_entry pr)
     \<and> sum_manifest K (pr_manifest pr) = hd_manifest_checksum (hs_head (pr_head pr))"

definition read_head_ok :: "codec \<Rightarrow> store \<Rightarrow> uuid set \<Rightarrow> uuid \<Rightarrow> head_state \<Rightarrow> view \<Rightarrow> bool" where
  "read_head_ok K B T t h v \<longleftrightarrow> at_head K B T t h v \<and> hs_tag h = sum_head K (hs_head h)"

lemma head_of_triple: "triple (sound K B T) (sound K B T) (ask (\<lambda>S. head_of K S t)) (\<lambda>h. read_head_ok K B T t h)"
  by (rule triple_ask)
    (auto simp: head_of_def read_head_ok_def at_head_def result_simps eq_commute [of "Some _"] dest!: heads_read_Inr)

lemma manifest_at_triple:
  "triple (sound K B T) (read_head_ok K B T t h) (ask (\<lambda>S. manifest_at S t (hd_sequence (hs_head h))))
     (\<lambda>m v. sound K B T v \<and> hs_tag h = sum_head K (hs_head h) \<and> vm_table_id m = t
        \<and> sum_manifest K m = hd_manifest_checksum (hs_head h))"
proof (rule triple_ask)
  fix m S i n
  assume m: "manifest_at S t (hd_sequence (hs_head h)) = Inr m" and h: "read_head_ok K B T t h (S, i, n)"
  then have "at_head K B T t h (S, i, n)" by (simp add: read_head_ok_def)
  then obtain pm where pm: "slot S t (hd_sequence (hs_head h)) = Some pm" "manifest_ok t (hd_sequence (hs_head h)) pm"
    "sum_manifest K pm = hd_manifest_checksum (hs_head h)" by (rule at_head_slot)
  with m have "m = pm" by (auto simp: manifest_at_def parse_manifest_def split: if_splits)
  with h pm show "sound K B T (S, i, n) \<and> hs_tag h = sum_head K (hs_head h) \<and> vm_table_id m = t
        \<and> sum_manifest K m = hd_manifest_checksum (hs_head h)"
    by (simp add: read_head_ok_def at_head_def manifest_ok_def)
qed (simp add: read_head_ok_def at_head_def)

lemma write_prologue_triple:
  assumes "collision_free K"
  shows "triple (sound K B T) (sound K B T) (write_prologue K D name op opts) (\<lambda>pr v. sound K B T v \<and> prologue_ok K pr)"
proof -
  have spec: "triple (sound K B T) (\<lambda>v. sound K B T v \<and> C) (ask f) (\<lambda>_ v. sound K B T v \<and> C)" for C and f :: "store \<Rightarrow> table_spec sres"
    by (rule triple_ask) auto
  show ?thesis
    unfolding write_prologue_def
    by (intro keeps_then [THEN triple_then] triple_then [OF keeps_pure(3)] triple_then [OF keeps_pure(4)]
        triple_then [OF keeps_entry_for_write [OF assms]] triple_then [OF head_of_triple] triple_if triple_raise
        triple_then [OF manifest_at_triple] triple_then [OF spec] triple_give)
      (auto simp: prologue_ok_def read_head_ok_def at_head_def)
qed

lemma keeps_write_prologue [keeps]: "collision_free K \<Longrightarrow> keeps (sound K B T) (write_prologue K D name op opts)"
  by (rule triple_weaken [OF write_prologue_triple]) auto

lemma keeps_prologue_then [keeps]:
  assumes "collision_free K" and "\<And>pr. prologue_ok K pr \<Longrightarrow> triple (sound K B T) (sound K B T) (k pr) Q"
  shows "triple (sound K B T) (sound K B T) (act_then (write_prologue K D name op opts) k) Q"
  by (intro triple_then [OF write_prologue_triple [OF assms(1)]] triple_pre assms(2))

lemma staged_child:
  assumes "prologue_ok K pr" and "ci_parent_committed_at_ns known = Some (vm_committed_at_ns (pr_manifest pr))"
    and "vm_sequence m = next_sequence pr" and "vm_table_id m = vm_table_id (pr_manifest pr)" and "vm_format m = FORMAT_VERSION"
  shows "staged_on K (ce_table_id (pr_entry pr)) (pr_head pr) known m"
  using assms by (auto simp: staged_on_def prologue_ok_def next_sequence_def)

lemma next_manifest_simps [simp]:
  "vm_sequence (next_manifest pr op opts segs) = next_sequence pr"
  "vm_table_id (next_manifest pr op opts segs) = vm_table_id (pr_manifest pr)"
  "vm_format (next_manifest pr op opts segs) = FORMAT_VERSION"
  by (simp_all add: next_manifest_def child_manifest_def)

lemma known_of_simps [simp]:
  "ci_parent_committed_at_ns (known_of pr) = Some (vm_committed_at_ns (pr_manifest pr))"
  by (simp add: known_of_def)

lemma keeps_commit_prologue [keeps]:
  assumes "collision_free K" and "prologue_ok K pr" and "vm_sequence m = next_sequence pr"
    and "vm_table_id m = vm_table_id (pr_manifest pr)" and "vm_format m = FORMAT_VERSION"
  shows "keeps (sound K B T) (commit_prologue K D pr name m added)"
  unfolding commit_prologue_def by (intro commit_keeps assms(1) staged_child assms) simp

section \<open>The operations\<close>

lemma keeps_replaying [keeps, intro]: "keeps (sound K B T) m \<Longrightarrow> keeps (sound K B T) (replaying K D name opts m)"
  unfolding replaying_def by (intro keeps_then keeps_pure keeps_cases)

definition staged_ok :: "codec \<Rightarrow> staged_commit \<Rightarrow> bool" where
  "staged_ok K sc \<longleftrightarrow> staged_on K (ce_table_id (sc_entry sc)) (sc_head sc) (sc_known sc) (sc_manifest sc)"

lemma keeps_commit_staged [keeps]:
  "collision_free K \<Longrightarrow> staged_ok K sc \<Longrightarrow> keeps (sound K B T) (commit_staged K D sc)"
  unfolding commit_staged_def staged_ok_def by (intro keeps_then keeps_outcome keeps_release keeps_pure commit_keeps)

text \<open>Staging: the segments are written, and the manifest follows the head that was read.\<close>

lemma stage_write_triple:
  assumes "collision_free K"
  shows "triple (sound K B T) (sound K B T) (stage_write K A P D name bs opts) (\<lambda>sc v. sound K B T v \<and> staged_ok K sc)"
  unfolding stage_write_def
  by (intro keeps_prologue_then assms triple_then [OF keeps_admit] triple_then [OF keeps_writer_new]
      triple_then [OF triple_if [OF keeps_push_all keeps_push_merged]] triple_then [OF keeps_writer_finish] triple_prod
      triple_then [OF keeps_dedup] triple_give)
    (auto simp: staged_ok_def intro: staged_child)

lemma stage_append_segments_triple:
  assumes "prologue_ok K pr"
  shows "triple (sound K B T) (sound K B T) (stage_append_segments K A P pr bs opts) (\<lambda>sc v. sound K B T v \<and> staged_ok K sc)"
  unfolding stage_append_segments_def
  by (intro triple_then [OF keeps_pure(3)] triple_then [OF keeps_writer_new] triple_then [OF keeps_push_all]
      triple_then [OF keeps_writer_finish] triple_prod triple_then [OF keeps_dedup] triple_give)
    (use assms in \<open>auto simp: staged_ok_def intro: staged_child\<close>)

lemma stage_append_once_triple:
  assumes "collision_free K"
    and "triple (sound K B T) (sound K B T) m (\<lambda>sc v. sound K B T v \<and> staged_ok K sc)"
  shows "triple (sound K B T) (sound K B T) (stage_append_once K A P D name bs opts m) (\<lambda>sc v. sound K B T v \<and> staged_ok K sc)"
  unfolding stage_append_once_def
  by (intro keeps_prologue_then triple_then [OF keeps_admit] triple_if stage_append_segments_triple assms)

lemma keeps_db_write [keeps]: "collision_free K \<Longrightarrow> keeps (sound K B T) (db_write K A P D name bs opts)"
  unfolding db_write_def
  by (intro keeps_replaying triple_then [OF stage_write_triple] triple_pre keeps_commit_staged)

lemma keeps_compact_group [keeps, intro]: "keeps (sound K B T) (compact_group K' A P key w segs)"
  unfolding compact_group_def by (intro keeps_then keeps_pure keeps_cases keeps_push_all keeps_push_merged keeps_flush)

lemma keeps_compact_with [keeps]: "collision_free K \<Longrightarrow> keeps (sound K B T) (compact_with K A P D name target opts)"
  unfolding compact_with_def Let_def
  by (intro keeps_replaying keeps_prologue_then keeps_cases keeps_pure keeps_then keeps_writer_new keeps_fold keeps_compact_group
      keeps_writer_finish keeps_commit_prologue keeps_release) simp_all

lemma keeps_compact [keeps]: "collision_free K \<Longrightarrow> keeps (sound K B T) (compact K A P D name opts)"
  unfolding compact_def by (rule keeps_compact_with)

lemma too_many_triple: "triple (sound K B T) (sound K B T) too_many_segments Q"
  unfolding too_many_segments_def by (rule triple_raise)

lemma stage_append_triple:
  assumes "collision_free K"
  shows "triple (sound K B T) (sound K B T) (stage_append K A P D name bs opts auto) (\<lambda>sc v. sound K B T v \<and> staged_ok K sc)"
  unfolding stage_append_def
  by (intro stage_append_once_triple assms triple_if triple_then [OF keeps_pure(4)] too_many_triple
      triple_then [OF keeps_compact [OF assms]])

lemma keeps_append_inner [keeps]: "collision_free K \<Longrightarrow> keeps (sound K B T) (append_inner K A P D name bs opts auto)"
  unfolding append_inner_def by (intro triple_then [OF stage_append_triple] triple_pre keeps_commit_staged)

lemma keeps_db_append [keeps]: "collision_free K \<Longrightarrow> keeps (sound K B T) (db_append K A P D name bs opts)"
  unfolding db_append_def by (intro keeps_replaying keeps_append_inner)

lemma keeps_append_with_retry [keeps]:
  "collision_free K \<Longrightarrow> keeps (sound K B T) (append_with_retry K A P D name bs opts n)"
  by (induction n) (auto intro!: keeps_then keeps_cases keeps_pure keeps_db_append)

lemma keeps_replace_range_impl [keeps]:
  "collision_free K \<Longrightarrow> keeps (sound K B T) (replace_range_impl K A P D name start stop bs opts op)"
  unfolding replace_range_impl_def rewrite_boundary_def
  by (intro keeps_replaying keeps_prologue_then keeps_cases keeps_pure keeps_then keeps_admit keeps_writer_new keeps_fold
      keeps_push keeps_push_all keeps_writer_finish keeps_dedup keeps_commit_prologue keeps_release) simp_all

lemma keeps_ranges [keeps]:
  "collision_free K \<Longrightarrow> keeps (sound K B T) (replace_range K A P D name start stop bs opts)"
  "collision_free K \<Longrightarrow> keeps (sound K B T) (delete_range K A P D name start stop opts)"
  unfolding replace_range_def delete_range_def by (intro keeps_replace_range_impl; assumption)+

lemma keeps_restore [keeps]: "collision_free K \<Longrightarrow> keeps (sound K B T) (restore K D name version opts)"
  unfolding restore_def Let_def
  by (intro keeps_replaying keeps_prologue_then keeps_cases keeps_pure keeps_then keeps_commit_prologue) simp_all

lemma keeps_evolve_schema [keeps]: "collision_free K \<Longrightarrow> keeps (sound K B T) (evolve_schema K D name sch opts)"
  unfolding evolve_schema_def Let_def
  by (intro keeps_then keeps_pure keeps_prologue_then keeps_cases keeps_put_spec commit_keeps staged_child)
    (simp_all add: child_manifest_def)

end
