(* ===== verification/Store_Index.thy ===== *)
theory Store_Index
  imports Store_Keeps
begin

text \<open>
  The fork visibility index (\<open>fork_index.rs\<close>): one object that says what every fork pins and owns,
  rebuilt from listings on every use. An entry of the stored index is reused when its object is still
  listed at the same size, and read again otherwise. The reads of a rebuild run concurrently in the
  code; here they run in the order of the listing, which decides only which of several errors is
  reported.
\<close>

section \<open>Queries\<close>

fun find_map :: "('a \<Rightarrow> 'b option) \<Rightarrow> 'a list \<Rightarrow> 'b option" where
  "find_map f [] = None"
| "find_map f (x # xs) = (case f x of Some y \<Rightarrow> Some y | None \<Rightarrow> find_map f xs)"

definition first_pin_below :: "fork_index \<Rightarrow> uuid \<Rightarrow> nat \<Rightarrow> (string \<times> nat) option" where
  "first_pin_below x t target =
     find_map (\<lambda>(name, f). case bt_get (if_pins f) t of
                 Some sq \<Rightarrow> if sq < target then Some (name, sq) else None
               | None \<Rightarrow> None) (fi_forks x)"

definition first_pin :: "fork_index \<Rightarrow> uuid \<Rightarrow> (string \<times> nat) option" where
  "first_pin x t = find_map (\<lambda>(name, f). map_option (\<lambda>sq. (name, sq)) (bt_get (if_pins f) t)) (fi_forks x)"

definition pinned_table_ids :: "fork_index \<Rightarrow> uuid list" where
  "pinned_table_ids x = concat (map (\<lambda>(_, f). map fst (if_pins f)) (fi_forks x))"

definition owned_table_ids :: "fork_index \<Rightarrow> uuid list" where
  "owned_table_ids x = concat (map (\<lambda>(_, f). map (it_table_id \<circ> snd) (if_owned f)) (fi_forks x))"

definition pins_of :: "fork_index \<Rightarrow> uuid \<Rightarrow> (string \<times> nat) list" where
  "pins_of x t = List.map_filter (\<lambda>(name, f). map_option (\<lambda>sq. (name, sq)) (bt_get (if_pins f) t)) (fi_forks x)"

section \<open>Storage\<close>

definition index_load_opt :: "codec \<Rightarrow> store \<Rightarrow> fork_index option" where
  "index_load_opt K S =
     (case st_fork_index S of None \<Rightarrow> None | Some x \<Rightarrow> if is_intact K x then Some x else None)"

definition index_store :: "fork_index \<Rightarrow> unit act" where
  "index_store x = put (\<lambda>S. S\<lparr>st_fork_index := Some x\<rparr>)"

definition index_invalidate :: "unit act" where
  "index_invalidate = put (\<lambda>S. S\<lparr>st_fork_index := None\<rparr>)"

section \<open>Rebuilding\<close>

type_synonym index_forks = "(string, indexed_fork) btree_map"

text \<open>The path an entry of the index was read from, as far as it varies.\<close>

definition prior_forks_by_path :: "codec \<Rightarrow> index_forks \<Rightarrow> (string, string \<times> indexed_fork) btree_map" where
  "prior_forks_by_path K prior = foldl (\<lambda>m (name, f). bt_insert (hash_name K name) (name, f) m) [] prior"

definition prior_owned_by_path :: "codec \<Rightarrow> index_forks \<Rightarrow> (string \<times> string, string \<times> indexed_table) btree_map" where
  "prior_owned_by_path K prior =
     foldl (\<lambda>m (fname, f). foldl (\<lambda>m' (tname, it). bt_insert (hash_name K fname, hash_name K tname) (tname, it) m') m (if_owned f))
       [] prior"

text \<open>A fork object: taken from the stored index, or read.\<close>

definition known_fork :: "codec \<Rightarrow> index_forks \<Rightarrow> string \<times> fork \<Rightarrow> (string \<times> indexed_fork) option" where
  "known_fork K prior obj =
     (case obj of (path, fk) \<Rightarrow>
        (case bt_get (prior_forks_by_path K prior) path of
           Some (name, f) \<Rightarrow> if if_object_size f = size_fork K fk then Some (name, f\<lparr>if_owned := []\<rparr>) else None
         | None \<Rightarrow> None))"

definition read_fork :: "codec \<Rightarrow> fork \<Rightarrow> (string \<times> indexed_fork) sres" where
  "read_fork K fk =
     and_then (verify_fork K fk) (\<lambda>_.
       Inr (fk_name fk, \<lparr>if_object_size = size_fork K fk,
                         if_pins = map (\<lambda>(t, p). (t, fp_sequence p)) (fk_pins fk), if_owned = []\<rparr>))"

definition insert_all :: "('a::linorder \<times> 'b) list \<Rightarrow> ('a, 'b) btree_map \<Rightarrow> ('a, 'b) btree_map" where
  "insert_all xs m = foldl (\<lambda>m' (k, v). bt_insert k v m') m xs"

definition rebuild_forks :: "codec \<Rightarrow> index_forks \<Rightarrow> store \<Rightarrow> index_forks sres" where
  "rebuild_forks K prior S =
     (let known = insert_all (List.map_filter (known_fork K prior) (st_forks S)) []
      in and_then (map_r (\<lambda>(_, fk). read_fork K fk) (filter (\<lambda>obj. known_fork K prior obj = None) (st_forks S))) (\<lambda>found.
           Inr (insert_all found known)))"

text \<open>A table a fork owns: the directory of its catalog entry names the fork.\<close>

definition own :: "string \<Rightarrow> string \<Rightarrow> indexed_table \<Rightarrow> index_forks \<Rightarrow> index_forks" where
  "own fname tname it forks =
     (case bt_get forks fname of
        None \<Rightarrow> forks
      | Some f \<Rightarrow> bt_insert fname (f\<lparr>if_owned := bt_insert tname it (if_owned f)\<rparr>) forks)"

definition fork_of_hash :: "codec \<Rightarrow> index_forks \<Rightarrow> string \<Rightarrow> string option" where
  "fork_of_hash K forks h = bt_get (insert_all (map (\<lambda>(name, _). (hash_name K name, name)) forks) []) h"

definition known_entry :: "codec \<Rightarrow> index_forks \<Rightarrow> (string \<times> string) \<times> fork_table_entry \<Rightarrow> (string \<times> indexed_table) option" where
  "known_entry K prior obj =
     (case obj of (path, fe) \<Rightarrow>
        (case bt_get (prior_owned_by_path K prior) path of
           Some (tname, it) \<Rightarrow> if it_object_size it = size_fork_entry K fe then Some (tname, it) else None
         | None \<Rightarrow> None))"

definition read_owned :: "codec \<Rightarrow> fork_table_entry \<Rightarrow> (string \<times> indexed_table) sres" where
  "read_owned K fe =
     and_then (verify_fork_entry K fe) (\<lambda>_.
       Inr (fe_name fe, \<lparr>it_table_id = fe_table_id fe, it_object_size = size_fork_entry K fe\<rparr>))"

definition live_entries :: "codec \<Rightarrow> index_forks \<Rightarrow> store \<Rightarrow> (string \<times> (string \<times> string) \<times> fork_table_entry) list" where
  "live_entries K forks S =
     List.map_filter (\<lambda>obj. map_option (\<lambda>name. (name, obj)) (fork_of_hash K forks (fst (fst obj)))) (st_fork_catalog S)"

definition rebuild_owned :: "codec \<Rightarrow> index_forks \<Rightarrow> index_forks \<Rightarrow> store \<Rightarrow> index_forks sres" where
  "rebuild_owned K prior forks S =
     (let live = live_entries K forks S;
          known = List.map_filter (\<lambda>(fname, obj). map_option (\<lambda>ti. (fname, ti)) (known_entry K prior obj)) live;
          forks1 = foldl (\<lambda>fs (fname, tname, it). own fname tname it fs) forks known
      in and_then (map_r (\<lambda>(fname, (_, fe)). map_ok (\<lambda>ti. (fname, ti)) (read_owned K fe))
                    (filter (\<lambda>(_, obj). known_entry K prior obj = None) live)) (\<lambda>found.
           Inr (foldl (\<lambda>fs (fname, tname, it). own fname tname it fs) forks1 found)))"

definition rebuild :: "codec \<Rightarrow> index_forks \<Rightarrow> store \<Rightarrow> index_forks sres" where
  "rebuild K prior S = and_then (rebuild_forks K prior S) (\<lambda>forks. rebuild_owned K prior forks S)"

text \<open>The index, revalidated against storage and written back when it changed.\<close>

definition refresh :: "codec \<Rightarrow> bool \<Rightarrow> fork_index act" where
  "refresh K writable =
     act_then (ask (\<lambda>S. Inr (index_load_opt K S))) (\<lambda>prior.
     act_then (ask (rebuild K (case prior of None \<Rightarrow> [] | Some p \<Rightarrow> fi_forks p))) (\<lambda>forks.
     act_then now (\<lambda>wall.
       let sealed = seal_index K \<lparr>fi_built_at_ns = monotonic_commit_ts wall None, fi_forks = forks, fi_checksum = ''''\<rparr>
       in case prior of
            Some p \<Rightarrow>
              if fi_forks p = forks then give p
              else if \<not> writable then give sealed
              else if forks = [] then act_then index_invalidate (\<lambda>_. give sealed)
              else act_then (index_store sealed) (\<lambda>_. give sealed)
          | None \<Rightarrow>
              if writable \<and> forks \<noteq> [] then act_then (index_store sealed) (\<lambda>_. give sealed)
              else give sealed)))"

definition db_fork_index :: "codec \<Rightarrow> db \<Rightarrow> fork_index act" where
  "db_fork_index K D = refresh K (\<not> db_read_only D)"

lemma keeps_index_store [keeps, intro]: "keeps (sound K B T) (index_store x)" "keeps (sound K B T) index_invalidate"
  unfolding index_store_def index_invalidate_def by (rule inv_put; simp)+

lemma keeps_fork_index [keeps, intro]: "keeps (sound K B T) (db_fork_index K' D)"
  unfolding db_fork_index_def refresh_def Let_def by (intro keeps_then keeps_pure keeps_cases keeps_index_store)

end
