(* ===== verification/Store_Tables.thy ===== *)
theory Store_Tables
  imports Store_Index
begin

text \<open>
  The lifecycle of a database and of its tables (\<open>database.rs\<close>, \<open>retention.rs\<close>, \<open>snapshot.rs\<close>,
  \<open>policy.rs\<close>, \<open>data_policy.rs\<close>): creating and opening a database, creating, dropping and renaming
  tables, snapshots, retention floors and policies. A batch of deletions is one deletion per object,
  in the order of the listing, so a crash may stop it anywhere. The metadata lock is not modelled.
\<close>

section \<open>Objects of a table\<close>

datatype obj =
    DataPolicyObj uuid
  | HeadObj uuid
  | FloorObj uuid
  | ManifestObj uuid nat
  | PlanObj uuid uuid
  | SegmentObj string
  | SpecObj uuid nat
  | LeaseObj uuid uuid

fun delete_obj :: "obj \<Rightarrow> store \<Rightarrow> store" where
  "delete_obj (DataPolicyObj t) S = S\<lparr>st_data_policies := bt_remove t (st_data_policies S)\<rparr>"
| "delete_obj (HeadObj t) S = S\<lparr>st_heads := bt_remove t (st_heads S)\<rparr>"
| "delete_obj (FloorObj t) S = S\<lparr>st_floors := bt_remove t (st_floors S)\<rparr>"
| "delete_obj (ManifestObj t n) S = S\<lparr>st_manifests := bt_remove (t, n) (st_manifests S)\<rparr>"
| "delete_obj (PlanObj t p) S = S\<lparr>st_plans := bt_remove (t, p) (st_plans S)\<rparr>"
| "delete_obj (SegmentObj path) S = S\<lparr>st_segments := bt_remove path (st_segments S)\<rparr>"
| "delete_obj (SpecObj t r) S = S\<lparr>st_specs := bt_remove (t, r) (st_specs S)\<rparr>"
| "delete_obj (LeaseObj t w) S = S\<lparr>st_leases := bt_remove (t, w) (st_leases S)\<rparr>"

definition of_table :: "uuid \<Rightarrow> (uuid \<times> 'a) \<times> 'b \<Rightarrow> bool" where
  "of_table t kv \<longleftrightarrow> fst (fst kv) = t"

definition under_table :: "uuid \<Rightarrow> string \<Rightarrow> bool" where
  "under_table t path \<longleftrightarrow> starts_with path (table_prefix t @ ''/'')"

definition table_objects :: "store \<Rightarrow> uuid \<Rightarrow> obj list" where
  "table_objects S t =
     (if bt_get (st_data_policies S) t = None then [] else [DataPolicyObj t])
     @ (if bt_get (st_heads S) t = None then [] else [HeadObj t])
     @ (if bt_get (st_floors S) t = None then [] else [FloorObj t])
     @ map (\<lambda>(k, _). ManifestObj t (snd k)) (filter (of_table t) (st_manifests S))
     @ map (\<lambda>(k, _). PlanObj t (snd k)) (filter (of_table t) (st_plans S))
     @ map (\<lambda>(path, _). SegmentObj path) (filter (\<lambda>(path, _). under_table t path) (st_segments S))
     @ map (\<lambda>(k, _). SpecObj t (snd k)) (filter (of_table t) (st_specs S))
     @ map (\<lambda>(k, _). LeaseObj t (snd k)) (filter (of_table t) (st_leases S))"

definition delete_many :: "obj list \<Rightarrow> unit act" where
  "delete_many os = act_then (act_map (\<lambda>ob. put (delete_obj ob)) os) (\<lambda>_. give ())"

section \<open>Opening a database\<close>

definition base_handle :: "bool \<Rightarrow> bool \<Rightarrow> (string \<Rightarrow> unit sres) \<Rightarrow> db" where
  "base_handle read_only local_backend hook =
     \<lparr>db_read_only = read_only, db_local = local_backend, db_fork = None, db_hook = hook\<rparr>"

definition no_hook :: "string \<Rightarrow> unit sres" where "no_hook step = Inr ()"

definition new_format :: format_file where
  "new_format = \<lparr>ff_format_version = FORMAT_VERSION, ff_min_reader_version = MIN_READER_VERSION\<rparr>"

definition db_create :: "bool \<Rightarrow> db act" where
  "db_create local_backend =
     act_then (ask (\<lambda>S. if st_format S \<noteq> None then Inl DatabaseExists else Inr ())) (\<lambda>_.
     act_then now (\<lambda>_.
     act_then (put (\<lambda>S. S\<lparr>st_format := Some new_format\<rparr>)) (\<lambda>_.
       give (base_handle False local_backend no_hook))))"

definition check_format :: "store \<Rightarrow> unit sres" where
  "check_format S =
     (case st_format S of
        None \<Rightarrow> Inl DatabaseNotFound
      | Some f \<Rightarrow> if ff_min_reader_version f > READER_VERSION then Inl (FormatTooNew (ff_min_reader_version f) READER_VERSION)
                  else Inr ())"

definition open_fork :: "codec \<Rightarrow> db \<Rightarrow> string \<Rightarrow> db act" where
  "open_fork K D name = act_then (ask (\<lambda>S. fork_load K S name)) (\<lambda>fk. give (D\<lparr>db_fork := Some fk\<rparr>))"

definition base :: "db \<Rightarrow> db" where "base D = D\<lparr>db_fork := None\<rparr>"

definition raise_min_reader_version :: "nat \<Rightarrow> bool act" where
  "raise_min_reader_version required =
     act_then (ask (\<lambda>S. ok_or (Corruption ''FORMAT missing'') (st_format S))) (\<lambda>f.
       if ff_min_reader_version f \<ge> required then give False
       else act_then (put (\<lambda>S. S\<lparr>st_format := Some (f\<lparr>ff_min_reader_version := required\<rparr>)\<rparr>)) (\<lambda>_. give True))"

section \<open>Policies\<close>

definition policy_store :: "mutation_policy \<Rightarrow> unit act" where
  "policy_store p = put (\<lambda>S. S\<lparr>st_policy := Some p\<rparr>)"

definition set_policy :: "db \<Rightarrow> mutation_policy \<Rightarrow> unit act" where
  "set_policy D p = act_then (lift (ensure_writable D ''set_policy'')) (\<lambda>_. policy_store p)"

definition update_policy :: "db \<Rightarrow> (mutation_policy \<Rightarrow> mutation_policy sres) \<Rightarrow> mutation_policy act" where
  "update_policy D f =
     act_then (lift (ensure_writable D ''set_policy'')) (\<lambda>_.
     act_then (ask policy_load) (\<lambda>p.
     act_then (lift (f p)) (\<lambda>p'.
     act_then (policy_store p') (\<lambda>_. give p'))))"

definition get_data_policy :: "codec \<Rightarrow> db \<Rightarrow> string \<Rightarrow> store \<Rightarrow> data_policy option sres" where
  "get_data_policy K D name S =
     and_then (entry_of K D S name) (\<lambda>e.
       case bt_get (st_data_policies S) (ce_table_id e) of
         None \<Rightarrow> Inr None
       | Some p \<Rightarrow> map_ok Some (data_policy_parse p))"

definition set_data_policy :: "codec \<Rightarrow> db \<Rightarrow> string \<Rightarrow> data_policy \<Rightarrow> unit act" where
  "set_data_policy K D name p =
     act_then (lift (ensure_writable D ''set_data_policy'')) (\<lambda>_.
     act_then (ask (\<lambda>S. entry_of K D S name)) (\<lambda>e.
       put (\<lambda>S. S\<lparr>st_data_policies := bt_insert (ce_table_id e) p (st_data_policies S)\<rparr>)))"

definition clear_data_policy :: "codec \<Rightarrow> db \<Rightarrow> string \<Rightarrow> unit act" where
  "clear_data_policy K D name =
     act_then (lift (ensure_writable D ''clear_data_policy'')) (\<lambda>_.
     act_then (ask (\<lambda>S. entry_of K D S name)) (\<lambda>e. put (delete_obj (DataPolicyObj (ce_table_id e)))))"

section \<open>Creating tables\<close>

definition create_entry :: "codec \<Rightarrow> catalog_entry \<Rightarrow> unit act" where
  "create_entry K e =
     act_then (ask (\<lambda>S. if bt_get (st_catalog S) (hash_name K (ce_name e)) \<noteq> None then Inl (TableExists (ce_name e)) else Inr ())) (\<lambda>_.
       put (\<lambda>S. S\<lparr>st_catalog := bt_insert (hash_name K (ce_name e)) e (st_catalog S)\<rparr>))"

definition remove_entry :: "codec \<Rightarrow> string \<Rightarrow> unit act" where
  "remove_entry K name = put (\<lambda>S. S\<lparr>st_catalog := bt_remove (hash_name K name) (st_catalog S)\<rparr>)"

definition fork_remove_entry :: "codec \<Rightarrow> string \<Rightarrow> string \<Rightarrow> unit act" where
  "fork_remove_entry K fork_name name =
     put (\<lambda>S. S\<lparr>st_fork_catalog := bt_remove (hash_name K fork_name, hash_name K name) (st_fork_catalog S)\<rparr>)"

record prepared_table =
  pt_name :: string
  pt_table_id :: uuid
  pt_spec :: table_spec

definition first_repeated :: "string list \<Rightarrow> bool" where "first_repeated names \<longleftrightarrow> \<not> distinct names"

definition prepare_table :: "codec \<Rightarrow> string \<times> schema \<times> table_options \<Rightarrow> prepared_table act" where
  "prepare_table K req =
     (case req of (name, sch, options) \<Rightarrow>
        act_then fresh_id (\<lambda>t.
        act_then now (\<lambda>wall.
        act_then (lift (spec_new K wall t name sch options)) (\<lambda>sp.
        act_then (put_spec t sp) (\<lambda>_. give \<lparr>pt_name = name, pt_table_id = t, pt_spec = sp\<rparr>)))))"

definition first_manifest :: "int \<Rightarrow> prepared_table \<Rightarrow> manifest" where
  "first_manifest wall p =
     recompute_rollups
       \<lparr>vm_format = FORMAT_VERSION, vm_table_id = pt_table_id p, vm_sequence = 0, vm_parent = None,
        vm_parent_checksum = None, vm_committed_at_ns = monotonic_commit_ts wall None, vm_op = OpCreate,
        vm_execution_mode = Some ''direct'', vm_plan_hash = None, vm_note = None, vm_user_meta = [],
        vm_schema_revision = tsp_schema_revision (pt_spec p), vm_rows = 0, vm_bytes = 0, vm_time_range = None,
        vm_segments = []\<rparr>"

definition publish_first :: "db \<Rightarrow> prepared_table \<Rightarrow> manifest act" where
  "publish_first D p =
     act_then now (\<lambda>wall.
       let m = first_manifest wall p
       in act_then (put_manifest D (pt_name p) (pt_table_id p) (vm_sequence m) m) (\<lambda>_. give m))"

definition first_swap :: "codec \<Rightarrow> prepared_table \<times> manifest \<Rightarrow> head_swap" where
  "first_swap K pm =
     (case pm of (p, m) \<Rightarrow>
        \<lparr>sw_table_id = pt_table_id p, sw_table_name = pt_name p, sw_expected = None, sw_new_head = head_for K (pt_table_id p) m\<rparr>)"

definition register_table :: "codec \<Rightarrow> db \<Rightarrow> prepared_table \<Rightarrow> unit act" where
  "register_table K D p =
     (case db_fork D of
        Some fk \<Rightarrow>
          fork_create_entry K (fk_name fk) (seal_fork_entry K
            \<lparr>fe_name = pt_name p, fe_table_id = pt_table_id p, fe_created_at_ns = tsp_created_at_ns (pt_spec p),
             fe_spec_revision = tsp_schema_revision (pt_spec p), fe_origin = None, fe_checksum = ''''\<rparr>)
      | None \<Rightarrow>
          create_entry K (seal_entry K
            \<lparr>ce_name = pt_name p, ce_table_id = pt_table_id p, ce_created_at_ns = tsp_created_at_ns (pt_spec p),
             ce_spec_revision = tsp_schema_revision (pt_spec p), ce_checksum = ''''\<rparr>))"

definition commit_hooks :: "db \<Rightarrow> unit act" where
  "commit_hooks D =
     act_then (lift (db_hook D ''post_manifest_put'')) (\<lambda>_. lift (db_hook D ''pre_head_swap''))"

definition create_tables :: "codec \<Rightarrow> db \<Rightarrow> (string \<times> schema \<times> table_options) list \<Rightarrow> commit_result list act" where
  "create_tables K D tables =
     act_then (lift (ensure_writable D ''create_table'')) (\<lambda>_.
       if tables = [] then give []
       else act_then (lift (fold_r (\<lambda>_ (name, _). validate_table_name name) () tables)) (\<lambda>_.
            if first_repeated (map fst tables) then raise (InvalidInput ''create_tables was given a table twice'')
            else act_then (act_map (\<lambda>(name, _). ask (\<lambda>S.
                     and_then (entry_opt K D S name) (\<lambda>e. if e \<noteq> None then Inl (TableExists name) else Inr ()))) tables) (\<lambda>_.
                 act_then (act_map (prepare_table K) tables) (\<lambda>prepared.
                 act_then (lift (db_hook D ''pre_publish'')) (\<lambda>_.
                 act_then (act_map (publish_first D) prepared) (\<lambda>ms.
                 act_then (heads_commit_batch K D (map (first_swap K) (zip prepared ms)) (commit_hooks D)) (\<lambda>_.
                 act_then (lift (db_hook D ''post_head_swap'')) (\<lambda>_.
                 act_then (act_map (register_table K D) prepared) (\<lambda>_.
                   give (map (\<lambda>(p, m). result_of (pt_name p) m 0 0) (zip prepared ms)))))))))))"

definition create_table :: "codec \<Rightarrow> db \<Rightarrow> string \<Rightarrow> schema \<Rightarrow> table_options \<Rightarrow> commit_result act" where
  "create_table K D name sch options =
     act_then (create_tables K D [(name, sch, options)]) (\<lambda>rs. give (last rs))"

section \<open>Dropping and renaming\<close>

text \<open>A pin is a root: a table under one stays.\<close>

definition snapshot_pinning :: "codec \<Rightarrow> uuid \<Rightarrow> store \<Rightarrow> unit sres" where
  "snapshot_pinning K t S =
     and_then (snapshot_list K S) (\<lambda>snaps.
       if list_ex (\<lambda>sn. bt_get (sn_entries sn) t \<noteq> None) snaps
       then Inl (InvalidInput ''table is pinned by a snapshot'') else Inr ())"

definition refuse_pinned :: "codec \<Rightarrow> db \<Rightarrow> uuid \<Rightarrow> unit act" where
  "refuse_pinned K D t =
     act_then (ask (snapshot_pinning K t)) (\<lambda>_.
     act_then (db_fork_index K D) (\<lambda>x.
       if first_pin x t \<noteq> None then raise (InvalidInput ''table is pinned by a fork'') else give ()))"

definition delete_table_objects :: "uuid \<Rightarrow> unit act" where
  "delete_table_objects t =
     act_then (heads_remove t) (\<lambda>_.
     act_then (ask (\<lambda>S. Inr (table_objects S t))) (\<lambda>os. delete_many os))"

definition drop_table_locked :: "codec \<Rightarrow> db \<Rightarrow> string \<Rightarrow> unit act" where
  "drop_table_locked K D name =
     act_then (ask (\<lambda>S. entry_of K D S name)) (\<lambda>e.
       case db_fork D of
         Some fk \<Rightarrow>
           act_then (ask (\<lambda>S. fork_load_entry K S (fk_name fk) name)) (\<lambda>owned.
             case owned of
               None \<Rightarrow> raise (Unsupported ''table belongs to the base database'')
             | Some fe \<Rightarrow>
                 act_then (refuse_pinned K D (fe_table_id fe)) (\<lambda>_.
                 act_then (fork_remove_entry K (fk_name fk) name) (\<lambda>_.
                   delete_table_objects (fe_table_id fe))))
       | None \<Rightarrow>
           act_then (refuse_pinned K D (ce_table_id e)) (\<lambda>_.
           act_then (remove_entry K name) (\<lambda>_.
             delete_table_objects (ce_table_id e))))"

definition drop_table :: "codec \<Rightarrow> db \<Rightarrow> string \<Rightarrow> unit act" where
  "drop_table K D name =
     act_then (lift (ensure_writable D ''drop_table'')) (\<lambda>_. drop_table_locked K D name)"

definition rename_table :: "codec \<Rightarrow> db \<Rightarrow> string \<Rightarrow> string \<Rightarrow> unit act" where
  "rename_table K D fr to =
     act_then (lift (ensure_writable D ''rename_table'')) (\<lambda>_.
     act_then (lift (ensure_base D ''rename_table'')) (\<lambda>_.
     act_then (lift (validate_table_name to)) (\<lambda>_.
     act_then (ask (\<lambda>S. entry_of K D S fr)) (\<lambda>e.
     act_then (create_entry K (seal_entry K (e\<lparr>ce_name := to\<rparr>))) (\<lambda>_. remove_entry K fr)))))"

section \<open>Snapshots\<close>

definition snapshot_entry_of :: "codec \<Rightarrow> store \<Rightarrow> catalog_entry \<Rightarrow> (uuid \<times> snapshot_entry) sres" where
  "snapshot_entry_of K S e =
     map_ok (\<lambda>h. (ce_table_id e, \<lparr>se_table_name = ce_name e, se_sequence = hd_sequence (hs_head h),
                                  se_manifest_checksum = hd_manifest_checksum (hs_head h)\<rparr>))
       (head_of K S (ce_table_id e))"

definition snapshot_store :: "codec \<Rightarrow> snapshot \<Rightarrow> unit act" where
  "snapshot_store K sn =
     act_then (ask (\<lambda>S. if bt_get (st_snapshots S) (hash_name K (sn_name sn)) \<noteq> None
                        then Inl (InvalidInput ''snapshot already exists'') else Inr ())) (\<lambda>_.
       put (\<lambda>S. S\<lparr>st_snapshots := bt_insert (hash_name K (sn_name sn)) sn (st_snapshots S)\<rparr>))"

definition create_snapshot :: "codec \<Rightarrow> db \<Rightarrow> string \<Rightarrow> string list \<Rightarrow> string option \<Rightarrow> snapshot act" where
  "create_snapshot K D name tables note_text =
     act_then (lift (ensure_writable D ''snapshot'')) (\<lambda>_.
     act_then (lift (ensure_base D ''snapshot'')) (\<lambda>_.
     act_then (lift (validate_table_name name)) (\<lambda>_.
     act_then (ask (\<lambda>S. if tables = [] then list_tables K D S else map_r (entry_of K D S) tables)) (\<lambda>entries.
       if entries = [] then raise (InvalidInput ''cannot snapshot an empty database'')
       else act_then (ask (\<lambda>S. map_r (snapshot_entry_of K S) entries)) (\<lambda>pins.
            act_then now (\<lambda>wall.
            let sn = seal_snapshot K \<lparr>sn_name = name, sn_created_at_ns = monotonic_commit_ts wall None, sn_note = note_text,
                                      sn_entries = insert_all pins [], sn_checksum = ''''\<rparr>
            in act_then (snapshot_store K sn) (\<lambda>_. give sn)))))))"

definition delete_snapshot :: "codec \<Rightarrow> db \<Rightarrow> string \<Rightarrow> unit act" where
  "delete_snapshot K D name =
     act_then (lift (ensure_writable D ''delete_snapshot'')) (\<lambda>_.
     act_then (lift (ensure_base D ''delete_snapshot'')) (\<lambda>_.
     act_then (ask (\<lambda>S. snapshot_load K S name)) (\<lambda>_.
       put (\<lambda>S. S\<lparr>st_snapshots := bt_remove (hash_name K name) (st_snapshots S)\<rparr>))))"

section \<open>Retention\<close>

datatype retention_cut = KeepLast nat | BeforeSequence nat | BeforeTimestamp int

text \<open>Walk down from the head while the version below was committed at or after the cut.\<close>

fun oldest_kept :: "store \<Rightarrow> uuid \<Rightarrow> int \<Rightarrow> nat \<Rightarrow> nat \<Rightarrow> nat sres" where
  "oldest_kept S t ts current_floor 0 = Inr 0"
| "oldest_kept S t ts current_floor (Suc n) =
     (if Suc n > current_floor
      then and_then (manifest_at S t n) (\<lambda>m.
             if vm_committed_at_ns m < ts then Inr (Suc n) else oldest_kept S t ts current_floor n)
      else Inr (Suc n))"

definition retention_target :: "codec \<Rightarrow> store \<Rightarrow> uuid \<Rightarrow> nat \<Rightarrow> retention_cut \<Rightarrow> nat sres" where
  "retention_target K S t head_seq rc =
     (case rc of
        KeepLast n \<Rightarrow> if n = 0 then Inl (InvalidInput ''keep_last must retain at least 1 version'') else Inr (head_seq - (n - 1))
      | BeforeSequence s \<Rightarrow> Inr s
      | BeforeTimestamp ts \<Rightarrow>
          and_then (retention_min_seq K S t) (\<lambda>current_floor. oldest_kept S t ts current_floor head_seq))"

definition snapshot_pin_below :: "codec \<Rightarrow> uuid \<Rightarrow> nat \<Rightarrow> store \<Rightarrow> unit sres" where
  "snapshot_pin_below K t target S =
     and_then (snapshot_list K S) (\<lambda>snaps.
       if list_ex (\<lambda>sn. case bt_get (sn_entries sn) t of Some se \<Rightarrow> se_sequence se < target | None \<Rightarrow> False) snaps
       then Inl (InvalidInput ''a snapshot pins a version below the requested floor'') else Inr ())"

definition set_retention :: "codec \<Rightarrow> db \<Rightarrow> string \<Rightarrow> retention_cut \<Rightarrow> string option \<Rightarrow> retention_floor act" where
  "set_retention K D name rc note_text =
     act_then (lift (ensure_writable D ''set_retention'')) (\<lambda>_.
     act_then (lift (ensure_base D ''set_retention'')) (\<lambda>_.
     act_then (ask (\<lambda>S. resolve K D S name Latest)) (\<lambda>r.
     let t = ce_table_id (rs_entry r); head_seq = rs_head_sequence r
     in act_then (ask (\<lambda>S. retention_target K S t head_seq rc)) (\<lambda>wanted.
        let target = min wanted head_seq
        in act_then (ask (\<lambda>S. retention_min_seq K S t)) (\<lambda>current.
           if target < current then raise (InvalidInput ''retention floor never decreases'')
           else act_then (ask (snapshot_pin_below K t target)) (\<lambda>_.
                act_then (db_fork_index K D) (\<lambda>x.
                if first_pin_below x t target \<noteq> None
                then raise (InvalidInput ''a fork pins a version below the requested floor'')
                else act_then now (\<lambda>wall.
                     let fl = seal_floor K \<lparr>rf_table_id = t, rf_min_retained_sequence = target,
                                            rf_set_at_ns = monotonic_commit_ts wall None, rf_note = note_text, rf_checksum = ''''\<rparr>
                     in act_then (put (\<lambda>S. S\<lparr>st_floors := bt_insert t fl (st_floors S)\<rparr>)) (\<lambda>_. give fl)))))))))"

end
