(* ===== verification/Store_Txn.thy ===== *)
theory Store_Txn
  imports Store_Tables
begin

text \<open>
  Multi-table transactions (\<open>transaction.rs\<close> and the journaled swap of \<open>database.rs\<close>): stage every
  table, validate every base, publish the manifests, write the journal, swap the heads, delete the
  journal; and the recovery scan of a writable open, which rolls a journal forward.
\<close>

section \<open>The journaled swap\<close>

definition validate_base :: "codec \<Rightarrow> staged_commit \<Rightarrow> store \<Rightarrow> unit sres" where
  "validate_base K sc S =
     and_then (heads_read K S (ce_table_id (sc_entry sc))) (\<lambda>current.
       if map_option hs_tag current \<noteq> Some (hs_tag (sc_head sc))
       then Inl (VersionConflict (ce_name (sc_entry sc)) (hd_sequence (hs_head (sc_head sc)))
                   (case current of None \<Rightarrow> 0 | Some h \<Rightarrow> hd_sequence (hs_head h)))
       else Inr ())"

text \<open>The manifest with its parent link, time and rollups, and the limit it is held to.\<close>

definition check_limit :: "codec \<Rightarrow> staged_commit \<Rightarrow> store \<Rightarrow> unit sres" where
  "check_limit K sc S =
     and_then (spec_at K S (ce_table_id (sc_entry sc)) (vm_schema_revision (sc_manifest sc))) (\<lambda>sp.
       if length (vm_segments (sc_manifest sc)) > tsp_max_segments sp
       then Inl (LimitExceeded ''manifest would reference too many segments'') else Inr ())"

definition publish_staged :: "codec \<Rightarrow> staged_commit \<Rightarrow> (staged_commit \<times> head) act" where
  "publish_staged K sc =
     (let t = ce_table_id (sc_entry sc)
      in act_then (ask (check_limit K sc)) (\<lambda>_.
         act_then (ask (\<lambda>S. manifest_at S t (hd_sequence (hs_head (sc_head sc))))) (\<lambda>parent.
         act_then now (\<lambda>wall.
         let m = stamp wall (Some (sc_head sc)) (Some (vm_committed_at_ns parent)) (sc_manifest sc)
         in act_then (put (\<lambda>S. S\<lparr>st_manifests := bt_insert (t, vm_sequence m) m (st_manifests S)\<rparr>)) (\<lambda>_.
              give (sc\<lparr>sc_manifest := m\<rparr>, head_for K t m))))))"

definition journal_of :: "codec \<Rightarrow> uuid \<Rightarrow> int \<Rightarrow> (staged_commit \<times> head) list \<Rightarrow> txn_journal" where
  "journal_of K txn_id wall staged =
     seal_journal K
       \<lparr>tj_txn_id = txn_id, tj_created_at_ns = monotonic_commit_ts wall None,
        tj_entries = map (\<lambda>(sc, h). \<lparr>te_table_id = ce_table_id (sc_entry sc), te_table_name = ce_name (sc_entry sc),
                                     te_base_sequence = hd_sequence (hs_head (sc_head sc)), te_new_head = h\<rparr>) staged,
        tj_checksum = ''''\<rparr>"

definition txn_swap :: "staged_commit \<times> head \<Rightarrow> head_swap" where
  "txn_swap sh =
     (case sh of (sc, h) \<Rightarrow>
        \<lparr>sw_table_id = ce_table_id (sc_entry sc), sw_table_name = ce_name (sc_entry sc),
         sw_expected = Some (hs_tag (sc_head sc)), sw_new_head = h\<rparr>)"

definition put_journal :: "txn_journal \<Rightarrow> unit act" where
  "put_journal j = put (\<lambda>S. S\<lparr>st_journals := bt_insert (tj_txn_id j) j (st_journals S)\<rparr>)"

definition delete_journal :: "uuid \<Rightarrow> unit act" where
  "delete_journal x = put (\<lambda>S. S\<lparr>st_journals := bt_remove x (st_journals S)\<rparr>)"

definition commit_staged_transaction_inner :: "codec \<Rightarrow> db \<Rightarrow> uuid \<Rightarrow> staged_commit list \<Rightarrow> commit_result list act" where
  "commit_staged_transaction_inner K D txn_id staged =
     act_then (act_map (\<lambda>sc. ask (validate_base K sc)) staged) (\<lambda>_.
     act_then (act_map (publish_staged K) staged) (\<lambda>published.
     act_then now (\<lambda>wall.
     act_then (put_journal (journal_of K txn_id wall published)) (\<lambda>_.
     act_then (heads_commit_batch K D (map txn_swap published) (give ())) (\<lambda>_.
     act_then (delete_journal txn_id) (\<lambda>_.
       give (map (\<lambda>(sc, _). (result_of (ce_name (sc_entry sc)) (sc_manifest sc) (sc_segments_added sc) (sc_segments_deduped sc))) published)))))))"

definition release_all :: "staged_commit list \<Rightarrow> unit act" where
  "release_all staged = act_then (act_map (\<lambda>sc. release_staging (sc_lease sc)) staged) (\<lambda>_. give ())"

definition commit_staged_transaction :: "codec \<Rightarrow> db \<Rightarrow> staged_commit list \<Rightarrow> commit_result list act" where
  "commit_staged_transaction K D staged =
     (if \<not> db_local D then raise (Unsupported ''multi-table transactions currently require the local backend'')
      else act_then fresh_id (\<lambda>txn_id.
           act_then (outcome (commit_staged_transaction_inner K D txn_id staged)) (\<lambda>result.
           act_then (ask (\<lambda>S. Inr (bt_get (st_journals S) txn_id \<noteq> None))) (\<lambda>journal_exists.
           act_then (if is_ok result \<or> \<not> journal_exists then release_all staged else give ()) (\<lambda>_.
             lift result)))))"

section \<open>Transactions\<close>

datatype staged_op = TxnAppend "batch list" | TxnWrite "batch list"

record transaction =
  tx_ops :: "(string, staged_op) btree_map"
  tx_opts :: write_options

definition new_transaction :: transaction where
  "new_transaction = \<lparr>tx_ops = [], tx_opts = write_options_default\<rparr>"

definition txn_add :: "string \<Rightarrow> staged_op \<Rightarrow> transaction \<Rightarrow> transaction sres" where
  "txn_add name op x =
     (if bt_get (tx_ops x) name \<noteq> None then Inl (InvalidInput ''one operation per table'')
      else Inr (x\<lparr>tx_ops := bt_insert name op (tx_ops x)\<rparr>))"

definition stage_op :: "codec \<Rightarrow> arrow \<Rightarrow> parquet \<Rightarrow> db \<Rightarrow> write_options \<Rightarrow> string \<times> staged_op \<Rightarrow> staged_commit act" where
  "stage_op K A P D opts named =
     (case named of (name, op) \<Rightarrow>
        (case op of
           TxnAppend bs \<Rightarrow> stage_append K A P D name bs opts False
         | TxnWrite bs \<Rightarrow> stage_write K A P D name bs opts))"

definition txn_commit :: "codec \<Rightarrow> arrow \<Rightarrow> parquet \<Rightarrow> db \<Rightarrow> transaction \<Rightarrow> commit_result list act" where
  "txn_commit K A P D x =
     (if tx_ops x = [] then raise (InvalidInput ''empty transaction'')
      else act_then (lift (ensure_writable D ''transaction'')) (\<lambda>_.
           act_then (materialize_shadows K D (map fst (tx_ops x))) (\<lambda>_.
           act_then (act_map (stage_op K A P D (tx_opts x)) (tx_ops x)) (\<lambda>staged.
             commit_staged_transaction K D (sort_key (\<lambda>sc. ce_table_id (sc_entry sc)) staged)))))"

section \<open>Recovery\<close>

definition roll_forward :: "codec \<Rightarrow> db \<Rightarrow> txn_entry \<Rightarrow> unit act" where
  "roll_forward K D en =
     act_then (ask (\<lambda>S. heads_read K S (te_table_id en))) (\<lambda>current.
       case current of
         None \<Rightarrow> give ()
       | Some h \<Rightarrow>
           if hd_sequence (hs_head h) < hd_sequence (te_new_head en)
           then heads_commit K D (te_table_id en) (te_table_name en) (Some (hs_tag h)) (te_new_head en) (give ())
           else give ())"

definition recover_journal :: "codec \<Rightarrow> db \<Rightarrow> uuid \<Rightarrow> unit act" where
  "recover_journal K D x =
     act_then (ask (\<lambda>S. ok_or (Corruption ''txn journal missing'') (bt_get (st_journals S) x))) (\<lambda>j.
     act_then (lift (verify_journal K j)) (\<lambda>_.
     act_then (act_map (roll_forward K D) (tj_entries j)) (\<lambda>_. delete_journal x)))"

definition recover :: "codec \<Rightarrow> db \<Rightarrow> unit act" where
  "recover K D =
     act_then (ask (\<lambda>S. Inr (map fst (st_journals S)))) (\<lambda>ids.
     act_then (act_map (recover_journal K D) ids) (\<lambda>_. give ()))"

text \<open>Opening reads the format file and, for a writer, recovers.\<close>

definition open_backend :: "codec \<Rightarrow> bool \<Rightarrow> bool \<Rightarrow> db act" where
  "open_backend K local_backend read_only =
     act_then (ask check_format) (\<lambda>_.
     let D = base_handle read_only local_backend no_hook
     in act_then (if read_only then give () else recover K D) (\<lambda>_. give D))"

definition open_or_create :: "codec \<Rightarrow> bool \<Rightarrow> db act" where
  "open_or_create K local_backend =
     act_then (ask (\<lambda>S. Inr (st_format S \<noteq> None))) (\<lambda>exists.
       if exists then open_backend K local_backend False else db_create local_backend)"

end
