(* ===== verification/Store_Plans.thy ===== *)
theory Store_Plans
  imports Store_Txn
begin

text \<open>
  Scans of a resolved version (\<open>database.rs\<close>) and previewable mutations (\<open>plan.rs\<close>): a plan runs the
  write path up to, and not including, the head swap; applying it is a metadata-only commit onto the
  version it was made for. The scan collects its stream; the reads it overlaps are in order here.
\<close>

section \<open>Scans\<close>

record scan_options =
  sco_projection :: "string list option"
  sco_time_start :: "int option"
  sco_time_end :: "int option"
  sco_limit :: "nat option"
  sco_verify_checksums :: bool

definition scan_options_default :: scan_options where
  "scan_options_default =
     \<lparr>sco_projection = None, sco_time_start = None, sco_time_end = None, sco_limit = None, sco_verify_checksums = False\<rparr>"

record scan_report =
  rep_segments_total :: nat
  rep_segments_scanned :: nat
  rep_segments_pruned :: nat
  rep_bytes_scanned :: nat
  rep_rows_returned :: nat

definition time_filter_requested :: "scan_options \<Rightarrow> bool" where
  "time_filter_requested opts \<longleftrightarrow> sco_time_start opts \<noteq> None \<or> sco_time_end opts \<noteq> None"

definition survivors :: "scan_options \<Rightarrow> segment_meta list \<Rightarrow> segment_meta list" where
  "survivors opts segs =
     filter (\<lambda>s. \<not> time_filter_requested opts \<or> overlaps_time s (sco_time_start opts) (sco_time_end opts)) segs"

text \<open>A filter needs the time column even when the caller does not.\<close>

definition effective_projection :: "table_spec \<Rightarrow> scan_options \<Rightarrow> string list option \<times> bool" where
  "effective_projection sp opts =
     (case (sco_projection opts, tsp_time_column sp) of
        (Some proj, Some tc) \<Rightarrow>
          if time_filter_requested opts \<and> tc \<notin> set proj then (Some (proj @ [tc]), True) else (Some proj, False)
      | (proj, _) \<Rightarrow> (proj, False))"

definition project_columns :: "arrow \<Rightarrow> schema \<Rightarrow> string list option \<Rightarrow> batch \<Rightarrow> batch sres" where
  "project_columns A sch proj b =
     (case proj of
        None \<Rightarrow> Inr b
      | Some cols \<Rightarrow>
          and_then (map_r (\<lambda>c. ok_or (ArrowError ''no such field'') (index_of sch c)) cols) (ar_project A b))"

definition scan_segment :: "codec \<Rightarrow> arrow \<Rightarrow> parquet \<Rightarrow> store \<Rightarrow> table_spec \<Rightarrow> bool \<Rightarrow> string list option
    \<Rightarrow> (string \<times> int option \<times> int option) option \<Rightarrow> segment_meta \<Rightarrow> batch list sres" where
  "scan_segment K A P S sp verify proj tf seg =
     (let read = (\<lambda>columns. if verify then read_segment_verified K A P S seg columns tf else read_segment A P S seg columns tf)
      in if sg_schema_revision seg \<noteq> tsp_schema_revision sp
         then and_then (read None) (map_r (\<lambda>b.
                and_then (adapt_batch (ar_cast A) (ar_try_new A) (tsp_schema sp) b) (project_columns A (tsp_schema sp) proj)))
         else read proj)"

definition project_out :: "arrow \<Rightarrow> batch \<Rightarrow> string \<Rightarrow> batch sres" where
  "project_out A b column_name =
     ar_project A b (filter (\<lambda>i. fd_name (rb_schema b ! i) \<noteq> column_name) [0..<length (rb_schema b)])"

text \<open>The tail of the stream: the limit, the column only the filter needed, and empty batches.\<close>

fun collect_limited :: "arrow \<Rightarrow> nat option \<Rightarrow> string option \<Rightarrow> nat \<Rightarrow> batch sres list \<Rightarrow> batch list sres" where
  "collect_limited A limit drop_col rows [] = Inr []"
| "collect_limited A limit drop_col rows (Inl e # items) = Inl e"
| "collect_limited A limit drop_col rows (Inr b # items) =
     (if (case limit of Some l \<Rightarrow> rows \<ge> l | None \<Rightarrow> False) then Inr []
      else let b1 = (case limit of Some l \<Rightarrow> if rows + rb_rows b > l then ar_slice A b 0 (l - rows) else b | None \<Rightarrow> b)
           in and_then (case drop_col of Some c \<Rightarrow> project_out A b1 c | None \<Rightarrow> Inr b1) (\<lambda>b2.
              map_ok (\<lambda>bs. if rb_rows b2 > 0 then b2 # bs else bs)
                (collect_limited A limit drop_col (rows + rb_rows b1) items)))"

definition scan_resolved :: "codec \<Rightarrow> arrow \<Rightarrow> parquet \<Rightarrow> store \<Rightarrow> resolved \<Rightarrow> scan_options \<Rightarrow> (batch list \<times> scan_report) sres" where
  "scan_resolved K A P S r opts =
     (if time_filter_requested opts \<and> tsp_time_column (rs_spec r) = None
      then Inl (InvalidInput ''time-range scan on a table without a time column'')
      else let segs = vm_segments (rs_manifest r);
               live = survivors opts segs;
               (proj, drop_time) = effective_projection (rs_spec r) opts;
               tf = (if time_filter_requested opts
                     then map_option (\<lambda>c. (c, sco_time_start opts, sco_time_end opts)) (tsp_time_column (rs_spec r)) else None);
               results = map (scan_segment K A P S (rs_spec r) (sco_verify_checksums opts) proj tf) live;
               items = concat (map (\<lambda>res. case res of Inr bs \<Rightarrow> map Inr bs | Inl e \<Rightarrow> [Inl e]) results)
           in map_ok (\<lambda>bs. (bs, \<lparr>rep_segments_total = length segs, rep_segments_scanned = length live,
                                 rep_segments_pruned = length segs - length live, rep_bytes_scanned = sum_list (map sg_bytes live),
                                 rep_rows_returned = sum_list (map rb_rows bs)\<rparr>))
                (collect_limited A (sco_limit opts) (if drop_time then tsp_time_column (rs_spec r) else None) 0 items))"

definition scan :: "codec \<Rightarrow> arrow \<Rightarrow> parquet \<Rightarrow> db \<Rightarrow> store \<Rightarrow> string \<Rightarrow> read_at \<Rightarrow> scan_options \<Rightarrow> (batch list \<times> scan_report) sres" where
  "scan K A P D S name at opts = and_then (resolve K D S name at) (\<lambda>r. scan_resolved K A P S r opts)"

section \<open>Samples and storage of plans\<close>

definition PLAN_TTL_SECONDS :: int where "PLAN_TTL_SECONDS = 7 * 24 * 3600"
definition SAMPLE_ROWS :: nat where "SAMPLE_ROWS = 8"

fun sample_rows :: "arrow \<Rightarrow> nat \<Rightarrow> nat \<Rightarrow> batch list \<Rightarrow> batch list" where
  "sample_rows A limit rows [] = []"
| "sample_rows A limit rows (b # bs) =
     (if rows \<ge> limit \<or> rb_rows b = 0 then []
      else let n = min (limit - rows) (rb_rows b) in ar_slice A b 0 n # sample_rows A limit (rows + n) bs)"

definition encode_sample :: "codec \<Rightarrow> arrow \<Rightarrow> batch list \<Rightarrow> nat \<Rightarrow> string option" where
  "encode_sample K A bs limit =
     (case sample_rows A limit 0 bs of [] \<Rightarrow> None | taken \<Rightarrow> Some (ipc_b64 K taken))"

definition plan_expired :: "int \<Rightarrow> mutation_plan \<Rightarrow> bool" where
  "plan_expired wall p \<longleftrightarrow> monotonic_commit_ts wall None > mp_expires_at_ns p"

definition store_plan :: "mutation_plan \<Rightarrow> unit act" where
  "store_plan p = put (\<lambda>S. S\<lparr>st_plans := bt_insert (mp_table_id p, mp_plan_id p) p (st_plans S)\<rparr>)"

text \<open>Plans are found through the global catalog, whatever the handle.\<close>

definition plan_catalog_entry :: "codec \<Rightarrow> store \<Rightarrow> string \<Rightarrow> catalog_entry sres" where
  "plan_catalog_entry K S name = and_then (load_entry K S name) (\<lambda>e. ok_or (TableNotFound name) e)"

definition load_plan :: "codec \<Rightarrow> string \<Rightarrow> uuid \<Rightarrow> store \<Rightarrow> mutation_plan sres" where
  "load_plan K name plan_id S =
     and_then (plan_catalog_entry K S name) (\<lambda>e.
     and_then (ok_or (InvalidInput ''plan not found'') (bt_get (st_plans S) (ce_table_id e, plan_id))) (\<lambda>p.
     and_then (verify_plan K p) (\<lambda>_. Inr p)))"

definition list_plans :: "codec \<Rightarrow> string \<Rightarrow> store \<Rightarrow> mutation_plan list sres" where
  "list_plans K name S =
     and_then (plan_catalog_entry K S name) (\<lambda>e.
       map_ok (sort_key mp_created_at_ns)
         (map_r (\<lambda>(_, p). and_then (verify_plan K p) (\<lambda>_. Inr p)) (filter (of_table (ce_table_id e)) (st_plans S))))"

definition discard_plan :: "codec \<Rightarrow> string \<Rightarrow> uuid \<Rightarrow> unit act" where
  "discard_plan K name plan_id =
     act_then (ask (\<lambda>S. plan_catalog_entry K S name)) (\<lambda>e. put (delete_obj (PlanObj (ce_table_id e) plan_id)))"

definition plan_protected_paths :: "codec \<Rightarrow> int \<Rightarrow> uuid \<Rightarrow> store \<Rightarrow> string list sres" where
  "plan_protected_paths K wall t S =
     map_ok concat (map_r (\<lambda>(_, p). and_then (verify_plan K p) (\<lambda>_.
         Inr (if plan_expired wall p then [] else map sg_path (mp_segments p)))) (filter (of_table t) (st_plans S)))"

section \<open>Planning\<close>

definition added_bytes :: "nat \<Rightarrow> segment_meta list \<Rightarrow> nat" where
  "added_bytes next_seq segs = sum_list (map sg_bytes (filter (\<lambda>s. sg_created_by_sequence s = next_seq) segs))"

text \<open>What both kinds of plan do at the end: read the live head, seal, store, drop the lease.\<close>

definition finish_plan :: "codec \<Rightarrow> resolved \<Rightarrow> string \<Rightarrow> op_kind \<Rightarrow> write_options \<Rightarrow> segment_meta list \<Rightarrow> plan_summary
    \<Rightarrow> string option \<Rightarrow> string option \<Rightarrow> (uuid \<times> uuid) option \<Rightarrow> mutation_plan act" where
  "finish_plan K r name op opts segs summary before after lease =
     act_then now (\<lambda>wall.
     act_then (ask (\<lambda>S. and_then (heads_read K S (ce_table_id (rs_entry r))) (\<lambda>h. ok_or (Internal ''HEAD vanished during planning'') h))) (\<lambda>h.
     act_then fresh_id (\<lambda>plan_id.
     let created = monotonic_commit_ts wall None;
         p = seal_plan K
               \<lparr>mp_plan_id = plan_id, mp_created_at_ns = created, mp_expires_at_ns = wrap64 (created + PLAN_TTL_SECONDS * 1000000000),
                mp_table = name, mp_table_id = ce_table_id (rs_entry r), mp_base_version = rs_head_sequence r,
                mp_base_manifest_checksum = hd_manifest_checksum (hs_head h), mp_op = op, mp_note = wo_note opts,
                mp_user_meta = wo_user_meta opts, mp_schema_revision = vm_schema_revision (rs_manifest r), mp_segments = segs,
                mp_summary = summary, mp_before_sample = before, mp_after_sample = after, mp_checksum = ''''\<rparr>
     in act_then (store_plan p) (\<lambda>_.
        act_then (release_staging lease) (\<lambda>_. give p)))))"

definition plan_replace_range :: "codec \<Rightarrow> arrow \<Rightarrow> parquet \<Rightarrow> db \<Rightarrow> string \<Rightarrow> int \<Rightarrow> int \<Rightarrow> batch list \<Rightarrow> write_options
    \<Rightarrow> mutation_plan act" where
  "plan_replace_range K A P D name start stop bs opts =
     (if start \<ge> stop then raise (InvalidInput ''empty range'')
      else let op = (if bs = [] then OpDeleteRange else OpReplaceRange)
           in act_then (ask (\<lambda>S. resolve K D S name Latest)) (\<lambda>r.
              case tsp_time_column (rs_spec r) of
                None \<Rightarrow> raise (Unsupported ''requires a table with a time column'')
              | Some tc \<Rightarrow>
                  act_then (lift (validate_batches_schema (tsp_schema (rs_spec r)) bs)) (\<lambda>_.
                  act_then (ask (enforce_data_policy A (ce_table_id (rs_entry r)) bs)) (\<lambda>_.
                  act_then (lift (fold_r (inside_range A tc start stop) () bs)) (\<lambda>_.
                  let ranged = scan_options_default\<lparr>sco_time_start := Some start, sco_time_end := Some stop\<rparr>
                  in act_then (ask (\<lambda>S. scan_resolved K A P S r (ranged\<lparr>sco_limit := Some SAMPLE_ROWS\<rparr>))) (\<lambda>(before, _).
                     act_then (ask (\<lambda>S. scan_resolved K A P S r (ranged\<lparr>sco_projection := Some [tc]\<rparr>))) (\<lambda>(inside, _).
                     let next_seq = rs_head_sequence r + 1;
                         segs = vm_segments (rs_manifest r);
                         kept = kept_segments start stop segs;
                         boundary = filter (\<lambda>s. overlaps_time s (Some start) (Some stop)) segs
                     in act_then (writer_new (rs_spec r) (tsp_schema (rs_spec r)) next_seq) (\<lambda>w.
                        act_then (act_fold (rewrite_boundary K A P tc start stop) w boundary) (\<lambda>w1.
                        act_then (if bs = [] then give []
                                  else act_then (lift (sort_batches A (tsp_schema (rs_spec r)) bs (tsp_sort_key (rs_spec r)))) (\<lambda>b. give [b])) (\<lambda>after.
                        act_then (push_all K A P w1 after) (\<lambda>w2.
                        act_then (writer_finish K A P w2) (\<lambda>(rewritten, _, lease).
                        act_then (dedup_segments rewritten (rs_manifest r)) (\<lambda>(rewritten1, deduped).
                        let planned = sort_key time_order_key (kept @ rewritten1)
                        in finish_plan K r name op opts planned
                             \<lparr>pm_rows_before = vm_rows (rs_manifest r), pm_rows_after = sum_list (map sg_rows planned),
                              pm_rows_affected = sum_list (map rb_rows inside), pm_segments_reused = length kept + deduped,
                              pm_segments_added = length rewritten1 - deduped, pm_added_bytes = added_bytes next_seq rewritten1,
                              pm_affected_time_range = Some (start, stop)\<rparr>
                             (encode_sample K A before SAMPLE_ROWS) (encode_sample K A after SAMPLE_ROWS) lease)))))))))))))"

text \<open>The first rows of the table as it will be, taken while the batches or the merged chunks go by.\<close>

definition first_rows :: "arrow \<Rightarrow> batch list \<Rightarrow> batch list" where
  "first_rows A bs = (case filter (\<lambda>b. rb_rows b > 0) bs of [] \<Rightarrow> [] | b # _ \<Rightarrow> [ar_slice A b 0 (min (rb_rows b) SAMPLE_ROWS)])"

definition first_merged :: "arrow \<Rightarrow> batch list \<Rightarrow> string list \<Rightarrow> batch list sres" where
  "first_merged A bs key =
     and_then (sort_each_batch A bs key) (\<lambda>sorted.
     and_then (merger_new sorted key MERGE_CHUNK_ROWS) (\<lambda>m.
     and_then (next_chunk A m) (\<lambda>(chunk, _). Inr (first_rows A (case chunk of None \<Rightarrow> [] | Some b \<Rightarrow> [b])))))"

definition plan_write :: "codec \<Rightarrow> arrow \<Rightarrow> parquet \<Rightarrow> db \<Rightarrow> string \<Rightarrow> batch list \<Rightarrow> write_options \<Rightarrow> mutation_plan act" where
  "plan_write K A P D name bs opts =
     act_then (ask (\<lambda>S. resolve K D S name Latest)) (\<lambda>r.
     act_then (lift (validate_batches_schema (tsp_schema (rs_spec r)) bs)) (\<lambda>_.
     act_then (ask (enforce_data_policy A (ce_table_id (rs_entry r)) bs)) (\<lambda>_.
     act_then (ask (\<lambda>S. scan_resolved K A P S r (scan_options_default\<lparr>sco_limit := Some SAMPLE_ROWS\<rparr>))) (\<lambda>(before, _).
     let next_seq = rs_head_sequence r + 1; key = tsp_sort_key (rs_spec r)
     in act_then (writer_new (rs_spec r) (tsp_schema (rs_spec r)) next_seq) (\<lambda>w.
        act_then (if key = [] then push_all K A P w bs else push_merged K A P bs key w) (\<lambda>w1.
        act_then (lift (if key = [] then Inr (first_rows A bs) else first_merged A bs key)) (\<lambda>after.
        act_then (writer_finish K A P w1) (\<lambda>(segments, _, lease).
        act_then (dedup_segments segments (rs_manifest r)) (\<lambda>(segments1, deduped).
        let rows_after = sum_list (map sg_rows segments1)
        in finish_plan K r name OpWrite opts segments1
             \<lparr>pm_rows_before = vm_rows (rs_manifest r), pm_rows_after = rows_after,
              pm_rows_affected = max (vm_rows (rs_manifest r)) rows_after, pm_segments_reused = deduped,
              pm_segments_added = length segments1 - deduped, pm_added_bytes = added_bytes next_seq segments1,
              pm_affected_time_range = vm_time_range (rs_manifest r)\<rparr>
             (encode_sample K A before SAMPLE_ROWS) (encode_sample K A after SAMPLE_ROWS) lease)))))))))"

section \<open>Applying\<close>

definition planned_manifest :: "mutation_plan \<Rightarrow> manifest" where
  "planned_manifest p =
     \<lparr>vm_format = FORMAT_VERSION, vm_table_id = mp_table_id p, vm_sequence = mp_base_version p + 1,
      vm_parent = Some (mp_base_version p), vm_parent_checksum = None, vm_committed_at_ns = 0, vm_op = mp_op p,
      vm_execution_mode = Some ''planned'', vm_plan_hash = Some (mp_checksum p), vm_note = mp_note p,
      vm_user_meta = mp_user_meta p, vm_schema_revision = mp_schema_revision p, vm_rows = 0, vm_bytes = 0,
      vm_time_range = None, vm_segments = mp_segments p\<rparr>"

definition commit_inputs_default :: commit_inputs where
  "commit_inputs_default = \<lparr>ci_segment_limit = None, ci_parent_committed_at_ns = None\<rparr>"

definition commit_planned :: "codec \<Rightarrow> db \<Rightarrow> mutation_plan \<Rightarrow> commit_result act" where
  "commit_planned K D p =
     act_then (lift (ensure_writable D ''apply_plan'')) (\<lambda>_.
     act_then (ask (\<lambda>S. head_of K S (mp_table_id p))) (\<lambda>h.
       if hd_sequence (hs_head h) \<noteq> mp_base_version p \<or> hd_manifest_checksum (hs_head h) \<noteq> mp_base_manifest_checksum p
       then raise (VersionConflict (mp_table p) (mp_base_version p) (hd_sequence (hs_head h)))
       else act_then (commit_manifest_locked K D (mp_table p) (mp_table_id p) (Some h) (planned_manifest p)
                        (pm_segments_added (mp_summary p)) commit_inputs_default) (\<lambda>res.
              give (res\<lparr>cr_segments_deduped := pm_segments_reused (mp_summary p)\<rparr>))))"

definition plan_segment_present :: "store \<Rightarrow> unit \<Rightarrow> segment_meta \<Rightarrow> unit sres" where
  "plan_segment_present S u seg =
     (case bt_get (st_segments S) (sg_path seg) of
        None \<Rightarrow> Inl (InvalidInput ''plan segment no longer exists'')
      | Some bytes \<Rightarrow> if length bytes = sg_bytes seg then Inr () else Inl (Corruption ''size changed since planning''))"

definition apply_plan :: "codec \<Rightarrow> db \<Rightarrow> mutation_plan \<Rightarrow> commit_result act" where
  "apply_plan K D p =
     act_then (lift (ensure_writable D ''apply_plan'')) (\<lambda>_.
     act_then (lift (verify_plan K p)) (\<lambda>_.
     act_then now (\<lambda>wall.
       if plan_expired wall p then raise (InvalidInput ''plan expired'')
       else act_then (ask (\<lambda>S. fold_r (plan_segment_present S) () (mp_segments p))) (\<lambda>_.
            act_then (commit_planned K D p) (\<lambda>result.
            act_then (attempt (put (delete_obj (PlanObj (mp_table_id p) (mp_plan_id p))))) (\<lambda>_.
              give result))))))"

end
