(* ===== verification/Store_Vacuum.thy ===== *)
theory Store_Vacuum
  imports Store_Plans
begin

text \<open>
  Reclaiming storage and checking integrity (\<open>Database::vacuum\<close> and \<open>Database::verify\<close> of
  \<open>database.rs\<close>). What a listing says of an object, its age and its size, comes from the object store
  and is an argument. Temporary head files and lock files are not objects of the model.
\<close>

section \<open>Vacuum\<close>

record listing =
  ls_age_seconds :: "obj \<Rightarrow> int"
  ls_size :: "obj \<Rightarrow> nat"

record vacuum_report =
  vr_scanned_objects :: nat
  vr_candidates :: "obj list"
  vr_candidate_bytes :: nat
  vr_deleted :: nat
  vr_dry_run :: bool

definition old_enough :: "listing \<Rightarrow> nat \<Rightarrow> obj \<Rightarrow> bool" where
  "old_enough L grace ob \<longleftrightarrow> ls_age_seconds L ob \<ge> wrap64 (int grace)"

definition lease_expired :: "int \<Rightarrow> staging_lease \<Rightarrow> bool" where
  "lease_expired wall l \<longleftrightarrow> monotonic_commit_ts wall None > sl_expires_at_ns l"

definition committed_paths :: "store \<Rightarrow> uuid \<Rightarrow> nat \<Rightarrow> nat \<Rightarrow> string list sres" where
  "committed_paths S t floor_seq head_seq =
     map_ok concat (map_r (\<lambda>sq. map_ok (\<lambda>m. map sg_path (vm_segments m)) (manifest_at S t sq)) [floor_seq..<head_seq + 1])"

definition leased_paths :: "int \<Rightarrow> uuid \<Rightarrow> store \<Rightarrow> string list" where
  "leased_paths wall t S =
     concat (map (\<lambda>(_, l). if lease_expired wall l then [] else sl_segment_paths l) (filter (of_table t) (st_leases S)))"

record table_roots =
  tr_head_seq :: nat
  tr_floor_seq :: nat
  tr_referenced :: "string list"

definition roots_of_table :: "codec \<Rightarrow> int \<Rightarrow> store \<Rightarrow> uuid \<Rightarrow> table_roots sres" where
  "roots_of_table K wall S t =
     and_then (head_of K S t) (\<lambda>h.
     and_then (retention_min_seq K S t) (\<lambda>floor_seq.
     and_then (committed_paths S t floor_seq (hd_sequence (hs_head h))) (\<lambda>committed.
     and_then (plan_protected_paths K wall t S) (\<lambda>planned.
       Inr \<lparr>tr_head_seq = hd_sequence (hs_head h), tr_floor_seq = floor_seq,
            tr_referenced = committed @ planned @ leased_paths wall t S\<rparr>))))"

definition is_debris :: "int \<Rightarrow> store \<Rightarrow> table_roots \<Rightarrow> obj \<Rightarrow> bool" where
  "is_debris wall S r ob =
     (case ob of
        SegmentObj path \<Rightarrow> path \<notin> set (tr_referenced r)
      | ManifestObj t n \<Rightarrow> n > tr_head_seq r \<or> n < tr_floor_seq r
      | LeaseObj t w \<Rightarrow> (case bt_get (st_leases S) (t, w) of Some l \<Rightarrow> lease_expired wall l | None \<Rightarrow> False)
      | _ \<Rightarrow> False)"

definition add_candidates :: "listing \<Rightarrow> bool \<Rightarrow> nat \<Rightarrow> obj list \<Rightarrow> vacuum_report \<Rightarrow> vacuum_report" where
  "add_candidates L apply_it scanned doomed rep =
     rep\<lparr>vr_scanned_objects := vr_scanned_objects rep + scanned, vr_candidates := vr_candidates rep @ doomed,
         vr_candidate_bytes := vr_candidate_bytes rep + sum_list (map (ls_size L) doomed),
         vr_deleted := vr_deleted rep + (if apply_it then length doomed else 0)\<rparr>"

definition vacuum_table :: "codec \<Rightarrow> listing \<Rightarrow> int \<Rightarrow> nat \<Rightarrow> bool \<Rightarrow> vacuum_report \<Rightarrow> catalog_entry \<Rightarrow> vacuum_report act" where
  "vacuum_table K L wall grace apply_it rep e =
     act_then (ask (\<lambda>S. map_ok (\<lambda>r. (S, r)) (roots_of_table K wall S (ce_table_id e)))) (\<lambda>(S, r).
       let objects = table_objects S (ce_table_id e);
           doomed = filter (\<lambda>ob. old_enough L grace ob \<and> is_debris wall S r ob) objects
       in act_then (if apply_it then delete_many doomed else give ()) (\<lambda>_.
          give (add_candidates L apply_it (length objects) doomed rep)))"

text \<open>Every table that has an object, in the order of the identifiers.\<close>

definition segment_owner :: "string \<Rightarrow> uuid option" where
  "segment_owner path =
     (if starts_with path ''tables/'' then Some (takeWhile (\<lambda>c. c \<noteq> CHR ''/'') (drop 7 path)) else None)"

definition table_ids :: "store \<Rightarrow> uuid list" where
  "table_ids S = sort (remdups
     (map fst (st_data_policies S) @ map fst (st_heads S) @ map fst (st_floors S)
      @ map (fst \<circ> fst) (st_manifests S) @ map (fst \<circ> fst) (st_plans S)
      @ List.map_filter (\<lambda>(path, _). segment_owner path) (st_segments S)
      @ map (fst \<circ> fst) (st_specs S) @ map (fst \<circ> fst) (st_leases S)))"

definition snapshot_ids :: "snapshot list \<Rightarrow> uuid list" where
  "snapshot_ids snaps = concat (map (\<lambda>sn. map fst (sn_entries sn)) snaps)"

definition sweep_table :: "listing \<Rightarrow> nat \<Rightarrow> bool \<Rightarrow> uuid list \<Rightarrow> vacuum_report \<Rightarrow> uuid \<Rightarrow> vacuum_report act" where
  "sweep_table L grace apply_it reachable rep t =
     (if t \<in> set reachable then give rep
      else act_then (ask (\<lambda>S. Inr (table_objects S t))) (\<lambda>objects.
           if \<not> list_all (old_enough L grace) objects then give rep
           else act_then (if apply_it then delete_many objects else give ()) (\<lambda>_.
                give (add_candidates L apply_it (length objects) objects rep))))"

definition sweep_orphans :: "codec \<Rightarrow> listing \<Rightarrow> db \<Rightarrow> nat \<Rightarrow> bool \<Rightarrow> catalog_entry list \<Rightarrow> vacuum_report \<Rightarrow> vacuum_report act" where
  "sweep_orphans K L D grace apply_it all_entries rep =
     act_then (ask (snapshot_list K)) (\<lambda>snaps.
     act_then (db_fork_index K D) (\<lambda>x.
     act_then (ask (\<lambda>S. Inr (table_ids S))) (\<lambda>ids.
       act_fold (sweep_table L grace apply_it
                   (map ce_table_id all_entries @ owned_table_ids x @ snapshot_ids snaps @ pinned_table_ids x)) rep ids)))"

definition vacuum :: "codec \<Rightarrow> listing \<Rightarrow> db \<Rightarrow> string option \<Rightarrow> nat \<Rightarrow> bool \<Rightarrow> vacuum_report act" where
  "vacuum K L D table grace apply_it =
     act_then (lift (if apply_it then ensure_writable D ''vacuum'' else Inr ())) (\<lambda>_.
     act_then (lift (ensure_base D ''vacuum'')) (\<lambda>_.
     act_then (ask (list_tables K D)) (\<lambda>all_entries.
     act_then (ask (\<lambda>S. case table of Some t \<Rightarrow> map_ok (\<lambda>e. [e]) (entry_of K D S t) | None \<Rightarrow> Inr all_entries)) (\<lambda>entries.
     act_then now (\<lambda>wall.
     let rep = \<lparr>vr_scanned_objects = 0, vr_candidates = [], vr_candidate_bytes = 0, vr_deleted = 0, vr_dry_run = \<not> apply_it\<rparr>
     in act_then (act_fold (vacuum_table K L wall grace apply_it) rep entries) (\<lambda>rep1.
          case table of
            Some _ \<Rightarrow> give rep1
          | None \<Rightarrow> sweep_orphans K L D grace apply_it all_entries rep1))))))"

section \<open>Verification\<close>

record verify_report =
  ve_table :: string
  ve_head_sequence :: nat
  ve_manifests_checked :: nat
  ve_segments_checked :: nat
  ve_bytes_checked :: nat
  ve_problems :: "string list"

definition problem :: "string \<Rightarrow> verify_report \<Rightarrow> verify_report" where
  "problem text rep = rep\<lparr>ve_problems := ve_problems rep @ [text]\<rparr>"

definition verify_segment :: "codec \<Rightarrow> store \<Rightarrow> bool \<Rightarrow> verify_report \<Rightarrow> segment_meta \<Rightarrow> verify_report" where
  "verify_segment K S deep rep seg =
     (case bt_get (st_segments S) (sg_path seg) of
        None \<Rightarrow> problem ''segment object missing'' rep
      | Some bytes \<Rightarrow>
          let rep1 = rep\<lparr>ve_segments_checked := ve_segments_checked rep + 1\<rparr>;
              rep2 = (if length bytes \<noteq> sg_bytes seg then problem ''size mismatch'' rep1 else rep1)
          in if \<not> deep then rep2
             else let rep3 = rep2\<lparr>ve_bytes_checked := ve_bytes_checked rep2 + length bytes\<rparr>
                  in if sum_bytes K bytes \<noteq> sg_checksum seg then problem ''content checksum mismatch'' rep3 else rep3)"

record chain_state =
  ch_expected :: "string option"
  ch_report :: verify_report

definition verify_version :: "codec \<Rightarrow> store \<Rightarrow> uuid \<Rightarrow> nat \<Rightarrow> bool \<Rightarrow> (string \<times> string list) option \<Rightarrow> chain_state \<Rightarrow> nat
    \<Rightarrow> chain_state sres" where
  "verify_version K S t head_seq deep shadow_base c sq =
     (case bt_get (st_manifests S) (t, sq) of
        None \<Rightarrow> Inr \<lparr>ch_expected = None, ch_report = problem ''manifest missing'' (ch_report c)\<rparr>
      | Some m \<Rightarrow>
          let rep1 = (ch_report c)\<lparr>ve_manifests_checked := ve_manifests_checked (ch_report c) + 1\<rparr>;
              rep2 = (case ch_expected c of
                        Some expected \<Rightarrow> if sum_manifest K m \<noteq> expected then problem ''checksum mismatch'' rep1 else rep1
                      | None \<Rightarrow> rep1)
          in and_then (parse_manifest m) (\<lambda>m'.
             let rep3 = (if deep \<or> sq = head_seq then foldl (verify_segment K S deep) rep2 (vm_segments m') else rep2);
                 rep4 = (case shadow_base of
                           Some (own_prefix, base_paths) \<Rightarrow>
                             if is_ok (check_refinement own_prefix base_paths (map sg_path (vm_segments m'))) then rep3
                             else problem ''refinement invariant violated'' rep3
                         | None \<Rightarrow> rep3)
             in Inr \<lparr>ch_expected = vm_parent_checksum m', ch_report = rep4\<rparr>))"

definition db_fork_entry :: "codec \<Rightarrow> db \<Rightarrow> store \<Rightarrow> string \<Rightarrow> fork_table_entry option sres" where
  "db_fork_entry K D S name =
     (case db_fork D of None \<Rightarrow> Inr None | Some fk \<Rightarrow> fork_load_entry K S (fk_name fk) name)"

definition verify_shadow_base :: "codec \<Rightarrow> store \<Rightarrow> uuid \<Rightarrow> fork_table_entry option \<Rightarrow> verify_report
    \<Rightarrow> ((string \<times> string list) option \<times> verify_report) sres" where
  "verify_shadow_base K S t fork_entry rep =
     (case Option.bind fork_entry fe_origin of
        None \<Rightarrow> Inr (None, rep)
      | Some origin \<Rightarrow>
          and_then (manifest_at S (fo_base_table_id origin) (fo_base_sequence origin)) (\<lambda>m.
          and_then (retention_min_seq K S (fo_base_table_id origin)) (\<lambda>base_floor.
            Inr (Some (table_prefix t @ ''/'', map sg_path (vm_segments m)),
                 if base_floor > fo_base_sequence origin then problem ''base retention floor is above the pin'' rep else rep))))"

definition db_verify :: "codec \<Rightarrow> db \<Rightarrow> store \<Rightarrow> string \<Rightarrow> bool \<Rightarrow> verify_report sres" where
  "db_verify K D S name deep =
     and_then (entry_of K D S name) (\<lambda>e.
     and_then (head_of K S (ce_table_id e)) (\<lambda>h.
     and_then (retention_min_seq K S (ce_table_id e)) (\<lambda>floor_seq.
     and_then (db_fork_entry K D S name) (\<lambda>fork_entry.
     let head_seq = hd_sequence (hs_head h);
         rep = \<lparr>ve_table = name, ve_head_sequence = head_seq, ve_manifests_checked = 0, ve_segments_checked = 0,
                ve_bytes_checked = 0, ve_problems = []\<rparr>
     in and_then (verify_shadow_base K S (ce_table_id e) fork_entry rep) (\<lambda>(shadow_base, rep1).
        map_ok ch_report
          (fold_r (verify_version K S (ce_table_id e) head_seq deep shadow_base)
             \<lparr>ch_expected = Some (hd_manifest_checksum (hs_head h)), ch_report = rep1\<rparr>
             (List.rev [floor_seq..<head_seq + 1])))))))"

end
