(* ===== verification/Store_Fork.thy ===== *)
theory Store_Fork
  imports Store_Vacuum
begin

text \<open>
  Forks (\<open>fork.rs\<close>): creating a fork pins the visible version of every table; dropping one deletes
  the tables it owns, once no other fork pins them; promoting a shadow commits it onto the base by
  compare and swap, replayed onto a compacted layout when nothing else happened; promoting a table
  the fork created moves it between catalogs. Diffs and listings read manifests only.
\<close>

section \<open>Creating forks\<close>

definition MAX_FORK_DEPTH :: nat where "MAX_FORK_DEPTH = 32"

definition new_depth :: "db \<Rightarrow> nat sres" where
  "new_depth D =
     (case db_fork D of
        None \<Rightarrow> Inr 0
      | Some parent \<Rightarrow>
          if fork_depth parent + 1 > MAX_FORK_DEPTH then Inl (InvalidInput ''fork is already too deep'')
          else Inr (fork_depth parent + 1))"

definition fork_create :: "codec \<Rightarrow> fork \<Rightarrow> unit act" where
  "fork_create K fk =
     act_then (ask (\<lambda>S. if bt_get (st_forks S) (hash_name K (fk_name fk)) \<noteq> None then Inl (ForkExists (fk_name fk)) else Inr ())) (\<lambda>_.
       put (\<lambda>S. S\<lparr>st_forks := bt_insert (hash_name K (fk_name fk)) fk (st_forks S)\<rparr>))"

definition manifest_checksum_at :: "codec \<Rightarrow> store \<Rightarrow> uuid \<Rightarrow> nat \<Rightarrow> string sres" where
  "manifest_checksum_at K S t n =
     map_ok (sum_manifest K) (ok_or (Corruption ''manifest missing'') (bt_get (st_manifests S) (t, n)))"

definition is_version_not_found :: "store_error \<Rightarrow> bool" where
  "is_version_not_found e = (case e of VersionNotFound _ \<Rightarrow> True | _ \<Rightarrow> False)"

definition pin_of :: "catalog_entry \<Rightarrow> nat \<Rightarrow> string \<Rightarrow> uuid \<times> fork_pin" where
  "pin_of e sq checksum =
     (ce_table_id e, \<lparr>fp_table_name = ce_name e, fp_sequence = sq, fp_manifest_checksum = checksum,
                      fp_spec_revision = Some (ce_spec_revision e), fp_created_at_ns = Some (ce_created_at_ns e)\<rparr>)"

text \<open>The pin of one table: its head, or its version as of a time, or none when it did not exist yet.\<close>

definition pin_table :: "codec \<Rightarrow> db \<Rightarrow> store \<Rightarrow> int option \<Rightarrow> catalog_entry \<Rightarrow> (uuid \<times> fork_pin) list sres" where
  "pin_table K D S as_of e =
     (case as_of of
        None \<Rightarrow> map_ok (\<lambda>h. [pin_of e (hd_sequence (hs_head h)) (hd_manifest_checksum (hs_head h))]) (head_of K S (ce_table_id e))
      | Some ts \<Rightarrow>
          (case resolve K D S (ce_name e) (AsOf ts) of
             Inr r \<Rightarrow>
               map_ok (\<lambda>c. [pin_of e (vm_sequence (rs_manifest r)) c])
                 (manifest_checksum_at K S (ce_table_id e) (vm_sequence (rs_manifest r)))
           | Inl err \<Rightarrow> if is_version_not_found err then Inr [] else Inl err))"

definition create_forks :: "codec \<Rightarrow> db \<Rightarrow> string list \<Rightarrow> string option \<Rightarrow> int option \<Rightarrow> (string, json) btree_map
    \<Rightarrow> fork list act" where
  "create_forks K D names note_text as_of meta =
     act_then (lift (ensure_writable D ''fork create'')) (\<lambda>_.
     act_then (lift (new_depth D)) (\<lambda>depth.
       if names = [] then raise (InvalidInput ''fork create needs at least one name'')
       else act_then (lift (fold_r (\<lambda>_ name. validate_table_name name) () names)) (\<lambda>_.
            if \<not> distinct names then raise (InvalidInput ''fork names must be distinct'')
            else act_then (act_map (\<lambda>name. ask (\<lambda>S.
                     and_then (fork_load_opt K S name) (\<lambda>f. if f \<noteq> None then Inl (ForkExists name) else Inr ()))) names) (\<lambda>_.
                 act_then (ask (list_tables K D)) (\<lambda>base_tables.
                 act_then (ask (\<lambda>S. map_ok concat (map_r (pin_table K D S as_of) base_tables))) (\<lambda>pins.
                   if as_of \<noteq> None \<and> pins = [] \<and> base_tables \<noteq> []
                   then raise (InvalidInput ''as_of pins no version of any table'')
                   else act_then (raise_min_reader_version FORK_MIN_READER_VERSION) (\<lambda>_.
                        act_then now (\<lambda>wall.
                        let forks = map (\<lambda>name. seal_fork K
                              \<lparr>fk_name = name, fk_created_at_ns = monotonic_commit_ts wall None, fk_note = note_text,
                               fk_as_of_ns = as_of, fk_parent = map_option fk_name (db_fork D),
                               fk_depth = (if depth > 0 then Some depth else None), fk_pins = insert_all pins [],
                               fk_user_meta = meta, fk_checksum = ''''\<rparr>) names
                        in act_then (act_map (fork_create K) forks) (\<lambda>_. give forks)))))))))"

section \<open>Dropping forks\<close>

definition forks_depending_on :: "codec \<Rightarrow> db \<Rightarrow> string \<Rightarrow> string list act" where
  "forks_depending_on K D name =
     act_then (db_fork_index K D) (\<lambda>x.
       give (case bt_get (fi_forks x) name of
               None \<Rightarrow> []
             | Some me \<Rightarrow>
                 let owned = map (it_table_id \<circ> snd) (if_owned me)
                 in map fst (filter (\<lambda>(other, f). other \<noteq> name \<and> list_ex (\<lambda>(t, _). t \<in> set owned) (if_pins f)) (fi_forks x))))"

definition drop_owned :: "codec \<Rightarrow> string \<Rightarrow> fork_table_entry \<Rightarrow> unit act" where
  "drop_owned K fork_name fe =
     act_then (fork_remove_entry K fork_name (fe_name fe)) (\<lambda>_. delete_table_objects (fe_table_id fe))"

definition drop_fork_locked :: "codec \<Rightarrow> db \<Rightarrow> string \<Rightarrow> nat act" where
  "drop_fork_locked K D name =
     act_then (ask (\<lambda>S. fork_load K S name)) (\<lambda>fk.
     act_then (forks_depending_on K D name) (\<lambda>dependents.
       if dependents \<noteq> [] then raise (InvalidInput ''fork has forks nested below it'')
       else act_then (ask (\<lambda>S. fork_list_entries K S (fk_name fk))) (\<lambda>entries.
            act_then (act_map (drop_owned K (fk_name fk)) entries) (\<lambda>_.
            act_then (put (\<lambda>S. S\<lparr>st_forks := bt_remove (hash_name K name) (st_forks S)\<rparr>)) (\<lambda>_.
              give (length entries))))))"

definition guard_drop :: "db \<Rightarrow> unit act" where
  "guard_drop D = act_then (lift (ensure_writable D ''fork drop'')) (\<lambda>_. lift (ensure_base D ''fork drop''))"

definition drop_fork :: "codec \<Rightarrow> db \<Rightarrow> string \<Rightarrow> nat act" where
  "drop_fork K D name = act_then (guard_drop D) (\<lambda>_. drop_fork_locked K D name)"

definition drop_forks :: "codec \<Rightarrow> db \<Rightarrow> string list \<Rightarrow> nat act" where
  "drop_forks K D names =
     act_then (guard_drop D) (\<lambda>_.
       act_fold (\<lambda>n name. act_then (drop_fork_locked K D name) (\<lambda>k. give (n + k))) 0 names)"

text \<open>
  The subtree by dependency, collected with a stack. A name is collected once, so a bound on the
  number of steps is the number of forks and of the dependencies between them.
\<close>

fun collect_tree :: "nat \<Rightarrow> codec \<Rightarrow> db \<Rightarrow> string list \<Rightarrow> string list \<Rightarrow> string list act" where
  "collect_tree 0 K D order stack = raise (Internal ''fork tree did not settle'')"
| "collect_tree (Suc n) K D order [] = give order"
| "collect_tree (Suc n) K D order (current # stack) =
     (if current \<in> set order then collect_tree n K D order stack
      else act_then (forks_depending_on K D current) (\<lambda>deps.
           collect_tree n K D (order @ [current]) (List.rev deps @ stack)))"

definition tree_fuel :: "store \<Rightarrow> nat" where
  "tree_fuel S = (length (st_forks S) + 2) * (length (st_forks S) + 2)"

definition drop_fork_tree :: "codec \<Rightarrow> db \<Rightarrow> string \<Rightarrow> nat act" where
  "drop_fork_tree K D name =
     act_then (guard_drop D) (\<lambda>_.
     act_then (ask (\<lambda>S. Inr (tree_fuel S))) (\<lambda>fuel.
     act_then (collect_tree fuel K D [] [name]) (\<lambda>order.
       act_fold (\<lambda>n fork_name. act_then (drop_fork_locked K D fork_name) (\<lambda>k. give (n + k))) 0 (List.rev order))))"

section \<open>Diffs\<close>

datatype fork_table_kind = Created | Shadowed

fun only_compactions :: "store \<Rightarrow> uuid \<Rightarrow> nat \<Rightarrow> nat list \<Rightarrow> bool sres" where
  "only_compactions S t floor_seq [] = Inr True"
| "only_compactions S t floor_seq (sq # sqs) =
     (if sq < floor_seq then Inr False
      else and_then (manifest_at S t sq) (\<lambda>m.
             if vm_op m \<noteq> OpCompact then Inr False else only_compactions S t floor_seq sqs))"

definition intervening_commits_are_compaction :: "codec \<Rightarrow> store \<Rightarrow> uuid \<Rightarrow> nat \<Rightarrow> nat \<Rightarrow> bool sres" where
  "intervening_commits_are_compaction K S t fr to =
     (if to \<le> fr then Inr False
      else and_then (retention_min_seq K S t) (\<lambda>floor_seq. only_compactions S t floor_seq [fr + 1..<to + 1]))"

definition pinned_base_name :: "fork \<Rightarrow> uuid \<Rightarrow> string sres" where
  "pinned_base_name fk t =
     ok_or (Corruption ''shadow records a base table the fork does not pin'') (map_option fp_table_name (pin fk t))"

record fork_table_diff =
  ftd_table :: string
  ftd_kind :: fork_table_kind
  ftd_base_sequence :: "nat option"
  ftd_base_head_sequence :: "nat option"
  ftd_fork_versions :: nat
  ftd_rows_base :: nat
  ftd_rows_fork :: nat
  ftd_bytes_base :: nat
  ftd_bytes_fork :: nat
  ftd_segments_added :: nat
  ftd_segments_removed :: nat
  ftd_segments_shared :: nat
  ftd_schema_revision_base :: "nat option"
  ftd_schema_revision_fork :: nat
  ftd_base_moved :: bool
  ftd_base_moved_by_compaction_only :: bool

definition diff_one :: "codec \<Rightarrow> store \<Rightarrow> fork \<Rightarrow> fork_table_entry \<Rightarrow> fork_table_diff sres" where
  "diff_one K S fk fe =
     and_then (head_of K S (fe_table_id fe)) (\<lambda>h.
     let fork_head = hd_sequence (hs_head h); own_prefix = table_prefix (fe_table_id fe) @ ''/''
     in and_then (manifest_at S (fe_table_id fe) fork_head) (\<lambda>fm.
        case fe_origin fe of
          None \<Rightarrow>
            Inr \<lparr>ftd_table = fe_name fe, ftd_kind = Created, ftd_base_sequence = None, ftd_base_head_sequence = None,
                 ftd_fork_versions = fork_head, ftd_rows_base = 0, ftd_rows_fork = vm_rows fm, ftd_bytes_base = 0,
                 ftd_bytes_fork = vm_bytes fm, ftd_segments_added = length (vm_segments fm), ftd_segments_removed = 0,
                 ftd_segments_shared = 0, ftd_schema_revision_base = None, ftd_schema_revision_fork = vm_schema_revision fm,
                 ftd_base_moved = False, ftd_base_moved_by_compaction_only = False\<rparr>
        | Some origin \<Rightarrow>
            and_then (manifest_at S (fo_base_table_id origin) (fo_base_sequence origin)) (\<lambda>bm.
            and_then (pinned_base_name fk (fo_base_table_id origin)) (\<lambda>_.
            and_then (head_of K S (fo_base_table_id origin)) (\<lambda>bh.
            let base_head = hd_sequence (hs_head bh);
                base_paths = remdups (map sg_path (vm_segments bm)); fork_paths = remdups (map sg_path (vm_segments fm));
                moved = (base_head \<noteq> fo_base_sequence origin)
            in and_then (if moved then intervening_commits_are_compaction K S (fo_base_table_id origin) (fo_base_sequence origin) base_head
                         else Inr False) (\<lambda>compaction_only.
               Inr \<lparr>ftd_table = fe_name fe, ftd_kind = Shadowed, ftd_base_sequence = Some (fo_base_sequence origin),
                    ftd_base_head_sequence = Some base_head, ftd_fork_versions = fork_head, ftd_rows_base = vm_rows bm,
                    ftd_rows_fork = vm_rows fm, ftd_bytes_base = vm_bytes bm, ftd_bytes_fork = vm_bytes fm,
                    ftd_segments_added = length (filter (\<lambda>s. is_own_segment own_prefix (sg_path s)) (vm_segments fm)),
                    ftd_segments_removed = length (filter (\<lambda>p. p \<notin> set fork_paths) base_paths),
                    ftd_segments_shared = length (filter (\<lambda>p. p \<in> set base_paths) fork_paths),
                    ftd_schema_revision_base = Some (vm_schema_revision bm), ftd_schema_revision_fork = vm_schema_revision fm,
                    ftd_base_moved = moved, ftd_base_moved_by_compaction_only = compaction_only\<rparr>))))))"

definition fork_diff :: "codec \<Rightarrow> db \<Rightarrow> store \<Rightarrow> string \<Rightarrow> string option \<Rightarrow> fork_table_diff list sres" where
  "fork_diff K D S name table =
     and_then (ensure_base D ''fork diff'') (\<lambda>_.
     and_then (fork_load K S name) (\<lambda>fk.
     and_then (case table of
                 None \<Rightarrow> fork_list_entries K S (fk_name fk)
               | Some t \<Rightarrow> map_ok (\<lambda>e. case e of Some fe \<Rightarrow> [fe] | None \<Rightarrow> []) (fork_load_entry K S (fk_name fk) t)) (\<lambda>entries.
       map_r (diff_one K S fk) entries)))"

section \<open>Promotion\<close>

record promote_result =
  pro_fork :: string
  pro_table :: string
  pro_kind :: fork_table_kind
  pro_base_sequence :: nat
  pro_rows :: nat
  pro_segments_linked :: nat
  pro_bytes_copied :: nat
  pro_rebased_from :: "nat option"

definition spec_revision_conflict :: "table_spec \<Rightarrow> table_spec \<Rightarrow> bool" where
  "spec_revision_conflict existing incoming \<longleftrightarrow>
     tsp_schema existing \<noteq> tsp_schema incoming \<or> tsp_time_column existing \<noteq> tsp_time_column incoming
     \<or> tsp_sort_key existing \<noteq> tsp_sort_key incoming"

definition copy_spec_revision :: "codec \<Rightarrow> uuid \<Rightarrow> uuid \<Rightarrow> string \<Rightarrow> nat \<Rightarrow> unit act" where
  "copy_spec_revision K fr to name revision =
     act_then (ask (\<lambda>S. spec_at K S fr revision)) (\<lambda>sp.
     act_then (ask (\<lambda>S. Inr (bt_get (st_specs S) (to, revision) \<noteq> None))) (\<lambda>present.
       if present
       then act_then (ask (\<lambda>S. spec_at K S to revision)) (\<lambda>existing.
              if spec_revision_conflict existing sp then raise (Corruption ''schema revision describes a different schema'') else give ())
       else put_spec to (seal_spec K (sp\<lparr>tsp_table_id := to, tsp_name := name\<rparr>))))"

definition copy_spec_revisions :: "codec \<Rightarrow> uuid \<Rightarrow> uuid \<Rightarrow> string \<Rightarrow> unit act" where
  "copy_spec_revisions K fr to name =
     act_then (ask (\<lambda>S. Inr (map (\<lambda>(k, _). snd k) (filter (of_table fr) (st_specs S))))) (\<lambda>revisions.
     act_then (act_map (copy_spec_revision K fr to name) revisions) (\<lambda>_. give ()))"

text \<open>
  A segment at a second path. Whether the file system could link it is an argument; a link onto a
  path that exists is taken as done, a copy overwrites.
\<close>

definition link_or_copy_segment :: "db \<Rightarrow> (string \<Rightarrow> bool) \<Rightarrow> string \<Rightarrow> string \<Rightarrow> nat act" where
  "link_or_copy_segment D linkable fr to =
     act_then (ask (\<lambda>S. ok_or (ObjectStoreError ''segment object missing'') (bt_get (st_segments S) fr))) (\<lambda>bytes.
     act_then (ask (\<lambda>S. Inr (bt_get (st_segments S) to \<noteq> None))) (\<lambda>present.
       if db_local D \<and> linkable fr \<and> present then give 0
       else act_then (put (\<lambda>S. S\<lparr>st_segments := bt_insert to bytes (st_segments S)\<rparr>)) (\<lambda>_.
              give (if db_local D \<and> linkable fr then 0 else length bytes))))"

definition move_segment :: "db \<Rightarrow> (string \<Rightarrow> bool) \<Rightarrow> string \<Rightarrow> uuid \<Rightarrow> nat \<Rightarrow> bool \<Rightarrow> segment_meta \<Rightarrow> (segment_meta list \<times> nat) act" where
  "move_segment D linkable own_prefix base_id new_sequence rebased seg =
     (if \<not> is_own_segment own_prefix (sg_path seg) then give (if rebased then [] else [seg], 0)
      else let to = segment_path base_id (sg_id seg)
           in act_then (link_or_copy_segment D linkable (sg_path seg) to) (\<lambda>copied.
                give ([seg\<lparr>sg_path := to, sg_created_by_sequence := new_sequence\<rparr>], copied)))"

definition promote_note :: "fork \<Rightarrow> nat \<Rightarrow> nat option \<Rightarrow> nat \<Rightarrow> string" where
  "promote_note fk fork_seq rebased_from base_head =
     (case rebased_from of None \<Rightarrow> ''promoted from fork '' @ fk_name fk | Some _ \<Rightarrow> ''promoted from fork '' @ fk_name fk @ '', rebased'')"

text \<open>The base as the fork knew it, or the reason a replay is refused.\<close>

definition rebase_decision :: "codec \<Rightarrow> store \<Rightarrow> fork \<Rightarrow> string \<Rightarrow> fork_origin \<Rightarrow> nat \<Rightarrow> manifest \<Rightarrow> manifest \<Rightarrow> nat option sres" where
  "rebase_decision K S fk table origin base_head pinned fork_manifest =
     (if base_head = fo_base_sequence origin then Inr None
      else and_then (intervening_commits_are_compaction K S (fo_base_table_id origin) (fo_base_sequence origin) base_head) (\<lambda>compaction_only.
           let fork_paths = map sg_path (vm_segments fork_manifest);
               keeps_all = list_all (\<lambda>s. sg_path s \<in> set fork_paths) (vm_segments pinned)
           in if compaction_only \<and> keeps_all then Inr (Some (fo_base_sequence origin))
              else Inl (PromoteConflict (fk_name fk) table (fo_base_sequence origin) base_head compaction_only)))"

definition promote_shadow :: "codec \<Rightarrow> db \<Rightarrow> (string \<Rightarrow> bool) \<Rightarrow> fork \<Rightarrow> string \<Rightarrow> fork_table_entry \<Rightarrow> fork_origin
    \<Rightarrow> nat \<Rightarrow> manifest \<Rightarrow> promote_result act" where
  "promote_shadow K D linkable fk table fe origin fork_seq fork_manifest =
     (let base_id = fo_base_table_id origin; own_prefix = table_prefix (fe_table_id fe) @ ''/''
      in act_then (lift (pinned_base_name fk base_id)) (\<lambda>base_name.
         act_then (ask (\<lambda>S. head_of K S base_id)) (\<lambda>bh.
         let base_head = hd_sequence (hs_head bh)
         in act_then (ask (\<lambda>S. manifest_at S base_id (fo_base_sequence origin))) (\<lambda>pinned.
            act_then (ask (\<lambda>S. rebase_decision K S fk table origin base_head pinned fork_manifest)) (\<lambda>rebased_from.
            act_then (lift (check_refinement own_prefix (map sg_path (vm_segments pinned)) (map sg_path (vm_segments fork_manifest)))) (\<lambda>_.
            act_then (if rebased_from \<noteq> None then ask (\<lambda>S. manifest_at S base_id base_head) else give pinned) (\<lambda>inherit_from.
            act_then (act_map (move_segment D linkable own_prefix base_id (base_head + 1) (rebased_from \<noteq> None)) (vm_segments fork_manifest)) (\<lambda>moved.
            act_then (copy_spec_revisions K (fe_table_id fe) base_id base_name) (\<lambda>_.
            let linked = length (filter (\<lambda>s. is_own_segment own_prefix (sg_path s)) (vm_segments fork_manifest));
                segs = (if rebased_from \<noteq> None then vm_segments inherit_from else []) @ concat (map fst moved);
                m = recompute_rollups (fork_manifest
                      \<lparr>vm_table_id := base_id, vm_sequence := base_head + 1, vm_op := OpPromote, vm_execution_mode := Some ''direct'',
                       vm_plan_hash := None, vm_segments := segs, vm_note := Some (promote_note fk fork_seq rebased_from base_head),
                       vm_user_meta := bt_insert FORKED_FROM_META_KEY (JOther (fk_name fk)) (vm_user_meta fork_manifest)\<rparr>)
            in act_then (commit_manifest_locked K D base_name base_id (Some bh) m linked commit_inputs_default) (\<lambda>res.
               give \<lparr>pro_fork = fk_name fk, pro_table = table, pro_kind = Shadowed, pro_base_sequence = cr_sequence res,
                     pro_rows = vm_rows m, pro_segments_linked = linked, pro_bytes_copied = sum_list (map snd moved),
                     pro_rebased_from = rebased_from\<rparr>))))))))))"

definition promote_created :: "codec \<Rightarrow> fork \<Rightarrow> fork_table_entry \<Rightarrow> manifest \<Rightarrow> promote_result act" where
  "promote_created K fk fe m =
     act_then (ask (\<lambda>S.
         case fk_parent fk of
           None \<Rightarrow> map_ok (\<lambda>e. e \<noteq> None) (load_entry K S (fe_name fe))
         | Some parent \<Rightarrow> map_ok (\<lambda>e. e \<noteq> None) (fork_load_entry K S parent (fe_name fe)))) (\<lambda>taken.
       if taken then raise (TableExists (fe_name fe))
       else act_then (case fk_parent fk of
                        None \<Rightarrow> create_entry K (seal_entry K
                          \<lparr>ce_name = fe_name fe, ce_table_id = fe_table_id fe, ce_created_at_ns = fe_created_at_ns fe,
                           ce_spec_revision = fe_spec_revision fe, ce_checksum = ''''\<rparr>)
                      | Some parent \<Rightarrow> fork_create_entry K parent (seal_fork_entry K
                          (fe\<lparr>fe_origin := None, fe_checksum := ''''\<rparr>))) (\<lambda>_.
            act_then (fork_remove_entry K (fk_name fk) (fe_name fe)) (\<lambda>_.
              give \<lparr>pro_fork = fk_name fk, pro_table = fe_name fe, pro_kind = Created, pro_base_sequence = vm_sequence m,
                    pro_rows = vm_rows m, pro_segments_linked = 0, pro_bytes_copied = 0, pro_rebased_from = None\<rparr>)))"

definition promote :: "codec \<Rightarrow> db \<Rightarrow> (string \<Rightarrow> bool) \<Rightarrow> string \<Rightarrow> string \<Rightarrow> promote_result act" where
  "promote K D linkable fork_name table =
     act_then (lift (ensure_writable D ''fork promote'')) (\<lambda>_.
     act_then (lift (ensure_base D ''fork promote'')) (\<lambda>_.
     act_then (ask (\<lambda>S. fork_load K S fork_name)) (\<lambda>fk.
     act_then (ask (\<lambda>S. and_then (fork_load_entry K S (fk_name fk) table) (\<lambda>e. ok_or (InvalidInput ''fork does not own the table'') e))) (\<lambda>fe.
     act_then (ask (\<lambda>S. head_of K S (fe_table_id fe))) (\<lambda>h.
     act_then (ask (\<lambda>S. manifest_at S (fe_table_id fe) (hd_sequence (hs_head h)))) (\<lambda>fm.
       case fe_origin fe of
         None \<Rightarrow> promote_created K fk fe fm
       | Some origin \<Rightarrow> promote_shadow K D linkable fk table fe origin (hd_sequence (hs_head h)) fm))))))"

end
