(* ===== verification/Store_Lifecycle.thy ===== *)
theory Store_Lifecycle
  imports Store_Fork
begin

text \<open>
  Every other operation keeps the history sound as well, wherever it stops: creating, dropping and
  renaming tables, snapshots, retention, policies, plans, vacuum, and the life of a fork.
\<close>

section \<open>Rules\<close>

lemma triple_map_from:
  assumes "\<And>pre x post ys. xs = pre @ x # post \<Longrightarrow> length ys = length pre \<Longrightarrow>
    triple E (I pre ys) (f x) (\<lambda>y. I (pre @ [x]) (ys @ [y]))"
  shows "xs = pre @ rest \<Longrightarrow> length ys = length pre \<Longrightarrow> triple E (I pre ys) (act_map f rest) (\<lambda>zs. I xs (ys @ zs))"
proof (induction rest arbitrary: pre ys)
  case Nil
  then show ?case by (auto intro: triple_give)
next
  case (Cons x rest)
  have "triple E (I (pre @ [x]) (ys @ [y])) (act_map f rest) (\<lambda>zs. I xs (ys @ y # zs))" for y
    using Cons.IH [of "pre @ [x]" "ys @ [y]"] Cons.prems by simp
  with assms Cons.prems show ?case by (auto intro!: triple_then triple_give)
qed

text \<open>A predicate of the elements done so far and of their results.\<close>

lemma triple_map:
  assumes "\<And>pre x post ys. xs = pre @ x # post \<Longrightarrow> length ys = length pre \<Longrightarrow>
    triple E (I pre ys) (f x) (\<lambda>y. I (pre @ [x]) (ys @ [y]))"
  shows "triple E (I [] []) (act_map f xs) (I xs)"
  using triple_map_from [of xs E I f "[]" xs "[]", OF assms] by simp

lemma triple_map_length: "triple E P (act_map f xs) Q \<Longrightarrow> triple E P (act_map f xs) (\<lambda>ys v. Q ys v \<and> length ys = length xs)"
proof -
  have len: "act_map f xs H = (H', Inr ys) \<Longrightarrow> length ys = length xs" for H H' ys
    by (induction xs arbitrary: H H' ys) (auto simp: act_Inr)
  assume "triple E P (act_map f xs) Q"
  then show ?thesis unfolding triple_def using len by (fastforce split: prod.splits sum.splits)
qed

lemma triple_each: "(\<And>x. x \<in> set xs \<Longrightarrow> triple E P (f x) (\<lambda>_. P)) \<Longrightarrow> triple E P (act_map f xs) (\<lambda>_. P)"
  by (rule triple_map [where I = "\<lambda>_ _. P"]) auto

lemma triple_conseq:
  assumes "triple E P m Q" and "\<And>v. P' v \<Longrightarrow> P v" and "\<And>x v. Q x v \<Longrightarrow> Q' x v"
  shows "triple E P' m Q'"
  by (rule triple_weaken [OF assms])

lemma triple_by_state: "(\<And>v. P v \<Longrightarrow> triple E (\<lambda>w. w = v) m Q) \<Longrightarrow> triple E P m Q"
  by (auto simp: triple_def)

text \<open>What may change under a later store: heads may go, floors rise, slots outside the history change.\<close>

lemma extends_raise:
  assumes "extends B S"
    and "\<And>u g. bt_get (st_heads S') u = Some g \<Longrightarrow> bt_get (st_heads S) u = Some g \<and> floor_of S u \<le> floor_of S' u
      \<and> (\<forall>k. floor_of S' u \<le> k \<and> k \<le> hd_sequence g \<longrightarrow> slot S' u k = slot S u k)"
  shows "extends B S'"
  unfolding extends_def
proof (intro allI impI)
  fix u h g assume a: "bt_get (st_heads B) u = Some h \<and> bt_get (st_heads S') u = Some g"
  then have "bt_get (st_heads S) u = Some g" and le: "floor_of S u \<le> floor_of S' u"
    and same: "\<And>k. floor_of S' u \<le> k \<Longrightarrow> k \<le> hd_sequence g \<Longrightarrow> slot S' u k = slot S u k"
    using assms(2) by auto
  then have old: "hd_sequence h \<le> hd_sequence g" "floor_of B u \<le> floor_of S u"
    "\<And>k. floor_of S u \<le> k \<Longrightarrow> k \<le> hd_sequence h \<Longrightarrow> slot S u k = slot B u k"
    using a assms(1) by (auto simp: extends_def)
  with le same show "hd_sequence h \<le> hd_sequence g \<and> floor_of B u \<le> floor_of S' u
      \<and> (\<forall>k. floor_of S' u \<le> k \<and> k \<le> hd_sequence h \<longrightarrow> slot S' u k = slot B u k)" by simp
qed

section \<open>Creating tables\<close>

definition vacant :: "codec \<Rightarrow> store \<Rightarrow> uuid set \<Rightarrow> view \<Rightarrow> bool" where
  "vacant K B T v \<longleftrightarrow> sound K B T v \<and> (\<forall>t \<in> T. bt_get (st_heads (fst v)) t = None)"

lemma vacant_sound: "vacant K B T v \<Longrightarrow> U \<subseteq> T \<Longrightarrow> sound K B U v"
  by (auto simp: vacant_def elim: inv_mono)

lemma vacant_put:
  assumes "\<And>S. st_heads (g S) = st_heads S" and "\<And>S. st_manifests (g S) = st_manifests S"
    and "\<And>S. st_floors (g S) = st_floors S" and "\<And>S. st_journals (g S) = st_journals S"
  shows "triple (sound K B {}) (vacant K B T) (put g) (\<lambda>_. vacant K B T)"
  by (rule triple_put) (simp_all add: vacant_def sound_cong [OF assms] assms inv_mono [of K B T])

lemma fresh_vacant:
  "triple E (vacant K B T) fresh_id (\<lambda>t v. vacant K B (insert t T) v \<and> t \<notin> T)"
proof (rule triple_fresh)
  fix S i n assume v: "vacant K B T (S, i, n)"
  then have "sound K B T (S, i, n)" by (simp add: vacant_def)
  from sound_fresh [OF this] v show "vacant K B (insert (i n) T) (S, i, Suc n) \<and> i n \<notin> T" by (simp add: vacant_def)
qed

lemma prepare_table_triple:
  "triple (sound K B {}) (vacant K B T) (prepare_table K req)
     (\<lambda>p v. vacant K B (insert (pt_table_id p) T) v \<and> pt_table_id p \<notin> T)"
proof -
  have put: "triple (sound K B {}) (vacant K B U) (put_spec t sp) (\<lambda>_. vacant K B U)" for t sp U
    unfolding put_spec_def by (rule vacant_put) simp_all
  have now: "triple (sound K B {}) (vacant K B U) now (\<lambda>_. vacant K B U)" for U by (rule triple_now)
  have lift: "triple (sound K B {}) (vacant K B U) (lift r) (\<lambda>_. vacant K B U)" for U and r :: "'c sres"
    by (rule triple_lift) (auto intro: vacant_sound)
  show ?thesis
    unfolding prepare_table_def
    by (intro triple_prod triple_then [OF fresh_vacant] triple_pre triple_then [OF now] triple_then [OF lift] triple_then [OF put] triple_give)
      simp
qed

definition ids :: "prepared_table list \<Rightarrow> uuid list" where "ids ps = map pt_table_id ps"

lemma prepare_tables_triple:
  "triple (sound K B {}) (sound K B {}) (act_map (prepare_table K) reqs) (\<lambda>ps v. vacant K B (set (ids ps)) v \<and> distinct (ids ps))"
proof (rule triple_conseq [OF triple_map [where I = "\<lambda>_ ps v. vacant K B (set (ids ps)) v \<and> distinct (ids ps)"]])
  fix x ps
  show "triple (sound K B {}) (\<lambda>v. vacant K B (set (ids ps)) v \<and> distinct (ids ps)) (prepare_table K x)
      (\<lambda>p v. vacant K B (set (ids (ps @ [p]))) v \<and> distinct (ids (ps @ [p])))"
    by (rule triple_pre, rule triple_conseq [OF prepare_table_triple]) (auto simp: ids_def)
qed (auto simp: ids_def vacant_def)

definition first_ok :: "store \<Rightarrow> prepared_table \<times> manifest \<Rightarrow> bool" where
  "first_ok S pm \<longleftrightarrow> slot S (pt_table_id (fst pm)) 0 = Some (snd pm) \<and> manifest_ok (pt_table_id (fst pm)) 0 (snd pm)"

lemma first_manifest_ok: "manifest_ok (pt_table_id p) 0 (first_manifest wall p)"
  by (simp add: manifest_ok_def first_manifest_def) (simp add: recompute_rollups_def monotonic_commit_ts_bound)

lemma first_manifest_sequence [simp]: "vm_sequence (first_manifest wall p) = 0"
  by (simp add: first_manifest_def recompute_rollups_def)

lemma put_first_triple:
  fixes K :: codec and B :: store
  assumes "pt_table_id p \<in> T" and "pt_table_id p \<notin> set (ids pre)"
  defines "R \<equiv> \<lambda>ms v. vacant K B T v \<and> list_all (first_ok (fst v)) (zip pre ms)"
  shows "triple (sound K B {}) (R ms) (put_manifest D name (pt_table_id p) 0 m)
    (\<lambda>_ v. R ms v \<and> slot (fst v) (pt_table_id p) 0 = Some m)"
proof -
  have put: "triple (sound K B {}) (R ms) (put (\<lambda>S. S\<lparr>st_manifests := bt_insert (pt_table_id p, 0) m (st_manifests S)\<rparr>))
      (\<lambda>_ v. R ms v \<and> slot (fst v) (pt_table_id p) 0 = Some m)"
  proof (rule triple_put)
    fix S i n assume r: "R ms (S, i, n)"
    have "sound K B T (S\<lparr>st_manifests := bt_insert (pt_table_id p, 0) m (st_manifests S)\<rparr>, i, n)"
      by (rule inv_put_manifest) (use r assms(1) in \<open>auto simp: R_def vacant_def\<close>)
    moreover have "q \<noteq> pt_table_id p" if "q \<in> set (ids pre)" for q using that assms(2) by auto
    ultimately show "R ms (S\<lparr>st_manifests := bt_insert (pt_table_id p, 0) m (st_manifests S)\<rparr>, i, n)
        \<and> slot (fst (S\<lparr>st_manifests := bt_insert (pt_table_id p, 0) m (st_manifests S)\<rparr>, i, n)) (pt_table_id p) 0 = Some m"
      using r by (auto simp: R_def vacant_def first_ok_def list_all_iff ids_def dest!: set_zip_leftD)
  qed (auto simp: R_def intro: vacant_sound)
  have ask: "triple (sound K B {}) (R ms) (ask f) (\<lambda>_. R ms)" for f :: "store \<Rightarrow> unit sres"
    by (rule triple_ask) (auto simp: R_def intro: vacant_sound)
  show ?thesis unfolding put_manifest_def create_manifest_slot_def by (intro triple_if put triple_then [OF ask])
qed

lemma publish_firsts_triple:
  assumes "distinct (ids ps)"
  shows "triple (sound K B {}) (vacant K B (set (ids ps))) (act_map (publish_first D) ps)
    (\<lambda>ms v. vacant K B (set (ids ps)) v \<and> list_all (first_ok (fst v)) (zip ps ms))"
proof (rule triple_conseq [OF triple_map [where I = "\<lambda>pre ms v. vacant K B (set (ids ps)) v \<and> list_all (first_ok (fst v)) (zip pre ms)"]])
  fix pre x post and ms :: "manifest list" assume ps: "ps = pre @ x # post" and len: "length ms = length pre"
  let ?R = "\<lambda>v. vacant K B (set (ids ps)) v \<and> list_all (first_ok (fst v)) (zip pre ms)"
  have "pt_table_id x \<in> set (ids ps)" "pt_table_id x \<notin> set (ids pre)" using ps assms by (auto simp: ids_def)
  note put = put_first_triple [OF this]
  have now: "triple (sound K B {}) ?R now (\<lambda>_. ?R)" by (rule triple_now)
  show "triple (sound K B {}) ?R (publish_first D x)
      (\<lambda>m v. vacant K B (set (ids ps)) v \<and> list_all (first_ok (fst v)) (zip (pre @ [x]) (ms @ [m])))"
    unfolding publish_first_def Let_def first_manifest_sequence
    by (intro triple_then [OF now] triple_then [OF put] triple_give)
      (use len first_manifest_ok in \<open>auto simp: first_ok_def list_all_iff\<close>)
qed auto

definition firsts_ok :: "codec \<Rightarrow> store \<Rightarrow> uuid set \<Rightarrow> (prepared_table \<times> manifest) list \<Rightarrow> view \<Rightarrow> bool" where
  "firsts_ok K B T pms v \<longleftrightarrow> sound K B T v \<and> list_all (first_ok (fst v)) pms"

lemma first_swap_triple:
  assumes "pm \<in> set pms" and "pt_table_id (fst pm) \<in> T"
  shows "triple (sound K B {}) (firsts_ok K B T pms) (write_head (sw_table_id (first_swap K pm)) (sw_new_head (first_swap K pm)))
    (\<lambda>_. firsts_ok K B T pms)"
  unfolding write_head_def
proof (rule triple_put)
  fix S i n assume r: "firsts_ok K B T pms (S, i, n)"
  then have "first_ok S pm" using assms by (auto simp: firsts_ok_def list_all_iff)
  with r assms have "sound K B T (S\<lparr>st_heads := bt_insert (pt_table_id (fst pm)) (head_for K (pt_table_id (fst pm)) (snd pm)) (st_heads S)\<rparr>, i, n)"
    by (intro inv_first_head) (auto simp: firsts_ok_def first_ok_def)
  with r show "firsts_ok K B T pms (S\<lparr>st_heads := bt_insert (sw_table_id (first_swap K pm)) (sw_new_head (first_swap K pm)) (st_heads S)\<rparr>, i, n)"
    by (auto simp: firsts_ok_def first_swap_def first_ok_def list_all_iff split: prod.splits)
qed (auto simp: firsts_ok_def elim: inv_mono)

lemma firsts_still:
  "triple (sound K B {}) (firsts_ok K B T pms) (ask f) (\<lambda>_. firsts_ok K B T pms)"
  "triple (sound K B {}) (firsts_ok K B T pms) (lift r) (\<lambda>_. firsts_ok K B T pms)"
  "triple (sound K B {}) (firsts_ok K B T pms) (give x) (\<lambda>_. firsts_ok K B T pms)"
  by (auto intro!: triple_ask triple_lift triple_give simp: firsts_ok_def elim: inv_mono)

lemma first_swaps_triple:
  assumes "\<And>pm. pm \<in> set pms \<Longrightarrow> pt_table_id (fst pm) \<in> T"
    and publish: "triple (sound K B {}) (firsts_ok K B T pms) publish (\<lambda>_. firsts_ok K B T pms)"
  shows "triple (sound K B {}) (firsts_ok K B T pms) (heads_commit_batch K D (map (first_swap K) pms) publish) (\<lambda>_. firsts_ok K B T pms)"
  unfolding heads_commit_batch_def heads_commit_def
  by (intro triple_if triple_then [OF triple_each] triple_then [OF publish] firsts_still triple_then [OF firsts_still(1)]
      triple_then [OF firsts_still(3)])
    (use assms(1) in \<open>auto intro!: first_swap_triple firsts_still\<close>)

lemma keeps_create_entry [keeps, intro]: "keeps (sound K B T) (create_entry K' e)" "keeps (sound K B T) (remove_entry K' name)"
  "keeps (sound K B T) (fork_remove_entry K' f name)"
  unfolding create_entry_def remove_entry_def fork_remove_entry_def by (intro keeps_then keeps_pure inv_put; simp)+

lemma keeps_register_table [keeps, intro]: "keeps (sound K B T) (register_table K' D p)"
  unfolding register_table_def by (intro keeps_cases keeps_fork_create_entry keeps_create_entry)

lemma commit_hooks_triple: "triple (sound K B {}) (firsts_ok K B T pms) (commit_hooks D) (\<lambda>_. firsts_ok K B T pms)"
  unfolding commit_hooks_def by (intro triple_then [OF firsts_still(2)] firsts_still)

lemma publish_and_swap_triple:
  assumes "distinct (ids ps)" and that: "\<And>ms. triple (sound K B {}) (sound K B {}) (k ms ()) Q"
  shows "triple (sound K B {}) (vacant K B (set (ids ps)))
    (act_then (act_map (publish_first D) ps) (\<lambda>ms.
       act_then (heads_commit_batch K D (map (first_swap K) (zip ps ms)) (commit_hooks D)) (k ms))) Q"
proof (rule triple_then [OF publish_firsts_triple [OF assms(1)]])
  fix ms :: "manifest list"
  let ?pms = "zip ps ms"
  have "triple (sound K B {}) (firsts_ok K B (set (ids ps)) ?pms) (heads_commit_batch K D (map (first_swap K) ?pms) (commit_hooks D))
      (\<lambda>_. firsts_ok K B (set (ids ps)) ?pms)"
    by (rule first_swaps_triple [OF _ commit_hooks_triple]) (auto simp: ids_def dest!: set_zip_leftD)
  then have swaps: "triple (sound K B {}) (\<lambda>v. vacant K B (set (ids ps)) v \<and> list_all (first_ok (fst v)) ?pms)
      (heads_commit_batch K D (map (first_swap K) ?pms) (commit_hooks D)) (\<lambda>_. sound K B {})"
    by (rule triple_conseq) (auto simp: firsts_ok_def vacant_def elim: inv_mono)
  show "triple (sound K B {}) (\<lambda>v. vacant K B (set (ids ps)) v \<and> list_all (first_ok (fst v)) ?pms)
      (act_then (heads_commit_batch K D (map (first_swap K) ?pms) (commit_hooks D)) (k ms)) Q"
    using that by (intro triple_then [OF swaps]) simp
qed

lemma keeps_create_tables [keeps]: "keeps (sound K B {}) (create_tables K D tables)"
proof -
  have hook: "triple (sound K B {}) (vacant K B T) (lift r) (\<lambda>_. vacant K B T)" for T and r :: "unit sres"
    by (rule triple_lift) (auto intro: vacant_sound)
  show ?thesis
    unfolding create_tables_def
    by (intro keeps_then keeps_cases keeps_pure keeps_map triple_then [OF prepare_tables_triple] triple_pre
        triple_then [OF hook] publish_and_swap_triple keeps_register_table)
qed

lemma keeps_create_table [keeps]: "keeps (sound K B {}) (create_table K D name sch options)"
  unfolding create_table_def by (intro keeps_then keeps_pure keeps_create_tables)

section \<open>Deleting\<close>

fun obj_of :: "uuid \<Rightarrow> obj \<Rightarrow> bool" where
  "obj_of t (HeadObj t') \<longleftrightarrow> t' = t"
| "obj_of t (FloorObj t') \<longleftrightarrow> t' = t"
| "obj_of t (ManifestObj t' _) \<longleftrightarrow> t' = t"
| "obj_of t _ \<longleftrightarrow> True"

lemma table_objects_of: "ob \<in> set (table_objects S t) \<Longrightarrow> obj_of t ob"
  by (auto simp: table_objects_def split: if_splits)

lemma headless_sound: "headless K B T t v \<Longrightarrow> sound K B T v"
  by (simp add: headless_def)

lemma sound_remove_head:
  assumes "sound K B {} (S, i, n)"
  shows "headless K B {} t (S\<lparr>st_heads := bt_remove t (st_heads S)\<rparr>, i, n)"
proof -
  have "table_ok K (S\<lparr>st_heads := bt_remove t (st_heads S)\<rparr>) t' g = table_ok K S t' g" for t' g
    by (rule table_ok_cong) simp_all
  moreover have "extends B (S\<lparr>st_heads := bt_remove t (st_heads S)\<rparr>)"
    using assms by (fastforce simp: sound_def extends_def floor_of_def split: if_splits)
  ultimately show ?thesis using assms by (auto simp: headless_def sound_def history_ok_def future_unused_def split: if_splits)
qed

text \<open>Without a head nothing of a table is history.\<close>

lemma headless_delete:
  assumes "headless K B {} t (S, i, n)" and "obj_of t ob"
  shows "headless K B {} t (delete_obj ob S, i, n)"
proof -
  have cong: "headless K B {} t (S', i, n)" if "st_heads S' = st_heads S" "st_manifests S' = st_manifests S" "st_floors S' = st_floors S"
    "st_journals S' = st_journals S" for S'
    using assms(1) sound_cong [OF that] that(1) by (simp add: headless_def)
  have keep: "headless K B {} t (S', i, n)" if same: "st_heads S' = st_heads S" "st_journals S' = st_journals S"
    and none: "\<And>u. bt_get (st_floors S) u = None \<Longrightarrow> bt_get (st_floors S') u = None"
    and floors: "\<And>u. u \<noteq> t \<Longrightarrow> bt_get (st_floors S') u = bt_get (st_floors S) u"
    and slots: "\<And>u m. u \<noteq> t \<Longrightarrow> slot S' u m = slot S u m" for S'
  proof -
    have live: "u \<noteq> t" if "bt_get (st_heads S) u = Some h" for u h using assms(1) that by (auto simp: headless_def)
    have "table_ok K S' u h = table_ok K S u h" "floor_of S' u = floor_of S u" if "u \<noteq> t" for u h
      using floors [OF that] slots [OF that] by (simp_all add: table_ok_def floor_of_def)
    note others = this
    have "history_ok K S'" using assms(1) others(1) live same(1) by (simp add: headless_def sound_def history_ok_def)
    moreover have "extends B S'"
      by (rule extends_raise [of B S]) (use assms(1) live same(1) others(2) slots in \<open>auto simp: headless_def sound_def\<close>)
    ultimately show ?thesis using assms(1) same none by (simp add: headless_def sound_def future_unused_def)
  qed
  have head: "headless K B {} t (delete_obj (HeadObj t) S, i, n)"
    using sound_remove_head [OF headless_sound [OF assms(1)]] by simp
  have gone: "headless K B {} t (delete_obj (FloorObj t) S, i, n)" "headless K B {} t (delete_obj (ManifestObj t q) S, i, n)" for q
    by (rule keep; simp)+
  show ?thesis
    using assms(2) head gone by (cases ob) (auto simp del: delete_obj.simps(2-4) intro!: cong)
qed

lemma keeps_delete_table [keeps, intro]: "keeps (sound K B {}) (delete_table_objects t)"
proof -
  have remove: "triple (sound K B {}) (sound K B {}) (heads_remove t) (\<lambda>_. headless K B {} t)"
    unfolding heads_remove_def by (rule triple_put) (auto intro: sound_remove_head)
  have list: "triple (sound K B {}) (headless K B {} t) (ask (\<lambda>S. Inr (table_objects S t)))
      (\<lambda>os v. headless K B {} t v \<and> list_all (obj_of t) os)"
    by (rule triple_ask) (auto simp: headless_sound list_all_iff dest: table_objects_of)
  have delete: "triple (sound K B {}) (headless K B {} t) (delete_many os) (\<lambda>_. sound K B {})" if "list_all (obj_of t) os" for os
    unfolding delete_many_def
    by (intro triple_then [OF triple_each] triple_put triple_give headless_delete)
      (use that in \<open>auto simp: headless_sound list_all_iff\<close>)
  show ?thesis
    unfolding delete_table_objects_def by (intro triple_then [OF remove] triple_then [OF list] triple_pre delete)
qed

lemma keeps_refuse_pinned [keeps, intro]: "keeps (sound K B T) (refuse_pinned K' D t)"
  unfolding refuse_pinned_def by (intro keeps_then keeps_pure keeps_cases keeps_fork_index)

lemma keeps_drop_table [keeps]: "keeps (sound K B {}) (drop_table K' D name)"
  unfolding drop_table_def drop_table_locked_def
  by (intro keeps_then keeps_pure keeps_cases keeps_refuse_pinned keeps_create_entry keeps_delete_table)

lemma keeps_rename_table [keeps]: "keeps (sound K B T) (rename_table K' D fr to)"
  unfolding rename_table_def by (intro keeps_then keeps_pure keeps_create_entry)

section \<open>Snapshots, policies and the format\<close>

lemma keeps_snapshots [keeps]:
  "keeps (sound K B T) (create_snapshot K' D name tables note_text)" "keeps (sound K B T) (delete_snapshot K' D name)"
  unfolding create_snapshot_def delete_snapshot_def snapshot_store_def Let_def
  by (intro keeps_then keeps_pure keeps_cases inv_put; simp)+

lemma keeps_policies [keeps]:
  "keeps (sound K B T) (set_policy D p)" "keeps (sound K B T) (update_policy D f)"
  "keeps (sound K B T) (set_data_policy K' D name dp)" "keeps (sound K B T) (clear_data_policy K' D name)"
  unfolding set_policy_def update_policy_def set_data_policy_def clear_data_policy_def policy_store_def
  by (intro keeps_then keeps_pure inv_put; simp)+

lemma keeps_format [keeps, intro]:
  "keeps (sound K B T) (db_create local_backend)" "keeps (sound K B T) (raise_min_reader_version required)"
  "keeps (sound K B T) (open_fork K' D name)"
  unfolding db_create_def raise_min_reader_version_def open_fork_def
  by (intro keeps_then keeps_pure keeps_cases inv_put; simp)+

section \<open>Retention\<close>

lemma min_seq_floor: "retention_min_seq K S t = Inr f \<Longrightarrow> f = floor_of S t"
  by (auto simp: retention_min_seq_def retention_floor_of_def floor_of_def result_simps split: option.splits)

text \<open>The head of a table, by its sequence, and its floor.\<close>

definition tip :: "codec \<Rightarrow> store \<Rightarrow> uuid \<Rightarrow> nat \<Rightarrow> view \<Rightarrow> bool" where
  "tip K B t q v \<longleftrightarrow> sound K B {} v \<and> (\<exists>h. bt_get (st_heads (fst v)) t = Some h \<and> hd_sequence h = q)"

definition bounds :: "codec \<Rightarrow> store \<Rightarrow> uuid \<Rightarrow> nat \<Rightarrow> nat \<Rightarrow> view \<Rightarrow> bool" where
  "bounds K B t q f v \<longleftrightarrow> tip K B t q v \<and> floor_of (fst v) t = f"

lemma bounds_sound: "bounds K B t q f v \<Longrightarrow> sound K B {} v" "tip K B t q v \<Longrightarrow> sound K B {} v"
  by (simp_all add: bounds_def tip_def)

lemma bounds_cong:
  assumes "bounds K B t q f (S, i, n)" and "st_heads S' = st_heads S" and "st_manifests S' = st_manifests S"
    and "st_floors S' = st_floors S" and "st_journals S' = st_journals S"
  shows "bounds K B t q f (S', i, n)"
  using assms sound_cong [OF assms(2-5)] by (simp add: bounds_def tip_def floor_of_def)

lemma head_of_Inr: "head_of K S t = Inr h \<Longrightarrow> bt_get (st_heads S) t = Some (hs_head h)"
  by (auto simp: head_of_def result_simps eq_commute [of "Some _"] dest!: heads_read_Inr)

lemma resolve_tip:
  assumes "resolve K D S name at = Inr r" and "db_fork D = None"
  shows "\<exists>h. bt_get (st_heads S) (ce_table_id (rs_entry r)) = Some h \<and> hd_sequence h = rs_head_sequence r"
proof -
  obtain e h where "head_of K S (ce_table_id e) = Inr h" "rs_entry r = e" "rs_head_sequence r = hd_sequence (hs_head h)"
    using assms by (auto simp: resolve_def resolve_entry_def effective_head_def result_simps split: if_splits prod.splits)
  then show ?thesis using head_of_Inr by auto
qed

lemma index_frame:
  assumes "\<And>S i n x. P (S, i, n) \<Longrightarrow> P (S\<lparr>st_fork_index := x\<rparr>, i, n)"
  shows "keeps P (db_fork_index K D)"
  unfolding db_fork_index_def refresh_def index_store_def index_invalidate_def Let_def
  by (intro keeps_then keeps_pure keeps_cases keeps_put assms; assumption)

text \<open>A table stays sound under a higher floor and when only other slots change.\<close>

lemma table_ok_raise:
  assumes ok: "table_ok K S t h" and le: "floor_of S t \<le> floor_of S' t" "floor_of S' t \<le> hd_sequence h"
    and same: "\<And>k. floor_of S' t \<le> k \<Longrightarrow> k \<le> hd_sequence h \<Longrightarrow> slot S' t k = slot S t k"
  shows "table_ok K S' t h"
  unfolding table_ok_def
proof (intro conjI allI impI)
  fix k assume "floor_of S' t \<le> k \<and> k \<le> hd_sequence h"
  then show "\<exists>m. slot S' t k = Some m \<and> manifest_ok t k m" using table_ok_slot [OF ok, of k] same [of k] le by auto
next
  fix k m m' assume a: "floor_of S' t \<le> k \<and> k < hd_sequence h \<and> slot S' t k = Some m \<and> slot S' t (Suc k) = Some m'"
  then have "slot S t k = Some m" "slot S t (Suc k) = Some m'" using same [of k] same [of "Suc k"] by auto
  with a ok le show "follows K m m'" unfolding table_ok_def by (meson le_trans)
next
  fix m assume "slot S' t (hd_sequence h) = Some m"
  with same [of "hd_sequence h"] le ok show "sum_manifest K m = hd_manifest_checksum h" by (auto simp: table_ok_def)
qed (use ok le in \<open>auto simp: table_ok_def\<close>)

lemma sound_raise_floor:
  assumes "bounds K B t q f (S, i, n)" and "f \<le> rf_min_retained_sequence fl" and "rf_min_retained_sequence fl \<le> q"
  shows "sound K B {} (S\<lparr>st_floors := bt_insert t fl (st_floors S)\<rparr>, i, n)"
proof -
  let ?S = "S\<lparr>st_floors := bt_insert t fl (st_floors S)\<rparr>"
  obtain h where h: "bt_get (st_heads S) t = Some h" "hd_sequence h = q" and s: "sound K B {} (S, i, n)" and f: "floor_of S t = f"
    using assms(1) by (auto simp: bounds_def tip_def)
  have floor: "floor_of ?S u = (if u = t then rf_min_retained_sequence fl else floor_of S u)" for u by (simp add: floor_of_def)
  have "table_ok K ?S u g" if "bt_get (st_heads S) u = Some g" for u g
  proof -
    have "table_ok K S u g" using s that by (simp add: sound_def history_ok_def)
    moreover have "floor_of S u \<le> floor_of ?S u" "floor_of ?S u \<le> hd_sequence g"
      using floor [of u] assms(2,3) f h that calculation by (auto simp: table_ok_def)
    ultimately show ?thesis by (rule table_ok_raise) simp
  qed
  then have "history_ok K ?S" by (simp add: history_ok_def)
  moreover have "extends B ?S"
    by (rule extends_raise [of B S]) (use s floor f assms(2) in \<open>auto simp: sound_def\<close>)
  moreover have "\<forall>k \<ge> n. i k \<noteq> t" using s h by (auto simp: sound_def future_unused_def)
  ultimately show ?thesis using s by (auto simp: sound_def future_unused_def)
qed

lemma keeps_set_retention [keeps]: "keeps (sound K B {}) (set_retention K D name rc note_text)"
proof (cases "db_fork D")
  case (Some f)
  then show ?thesis unfolding set_retention_def ensure_base_def by (auto simp: triple_def act_then_def lift_def split: sum.splits)
next
  case None
  have resolve: "triple (sound K B {}) (sound K B {}) (ask (\<lambda>S. resolve K D S name Latest))
      (\<lambda>r. tip K B (ce_table_id (rs_entry r)) (rs_head_sequence r))"
    by (rule triple_ask) (auto simp: tip_def dest: resolve_tip [OF _ None])
  have ask: "triple (sound K B {}) (tip K B t q) (ask f) (\<lambda>_. tip K B t q)" for t q and f :: "store \<Rightarrow> nat sres"
    by (rule triple_ask) (auto simp: tip_def)
  have floor: "triple (sound K B {}) (tip K B t q) (ask (\<lambda>S. retention_min_seq K S t)) (\<lambda>f. bounds K B t q f)" for t q
    by (rule triple_ask) (auto simp: tip_def bounds_def dest: min_seq_floor)
  have still: "triple (sound K B {}) (bounds K B t q f) (ask g) (\<lambda>_. bounds K B t q f)" for t q f and g :: "store \<Rightarrow> unit sres"
    by (rule triple_ask) (auto simp: bounds_sound)
  have index: "triple (sound K B {}) (bounds K B t q f) (db_fork_index K D) (\<lambda>_. bounds K B t q f)" for t q f
    by (rule triple_weaken [OF index_frame [where P = "bounds K B t q f"]]) (auto intro: bounds_cong simp: bounds_sound)
  have now: "triple (sound K B {}) (bounds K B t q f) now (\<lambda>_. bounds K B t q f)" for t q f by (rule triple_now)
  have put: "triple (sound K B {}) (bounds K B t q f) (put (\<lambda>S. S\<lparr>st_floors := bt_insert t fl (st_floors S)\<rparr>)) (\<lambda>_. sound K B {})"
    if "f \<le> rf_min_retained_sequence fl" "rf_min_retained_sequence fl \<le> q" for t q f fl
    by (rule triple_put) (use that in \<open>auto simp: bounds_sound intro: sound_raise_floor\<close>)
  have ref: "triple (sound K B {}) (bounds K B t q f) (raise e) Q" for t q f e Q by (rule triple_raise) (rule bounds_sound)
  show ?thesis
    unfolding set_retention_def Let_def
    by (rule triple_then [OF keeps_pure(3)], rule triple_then [OF keeps_pure(3)], rule triple_then [OF resolve],
        rule triple_then [OF ask], rule triple_then [OF floor],
        intro triple_if ref triple_then [OF still] triple_then [OF index] triple_then [OF now] triple_then [OF put] keeps_pure)
      (auto simp: seal_floor_def)
qed

section \<open>Vacuum\<close>

lemma sound_drop_manifest:
  assumes "bounds K B t q f (S, i, n)" and "p > q \<or> p < f"
  shows "bounds K B t q f (S\<lparr>st_manifests := bt_remove (t, p) (st_manifests S)\<rparr>, i, n)"
proof -
  let ?S = "S\<lparr>st_manifests := bt_remove (t, p) (st_manifests S)\<rparr>"
  obtain h where h: "bt_get (st_heads S) t = Some h" "hd_sequence h = q" and s: "sound K B {} (S, i, n)" and f: "floor_of S t = f"
    using assms(1) by (auto simp: bounds_def tip_def)
  have floor: "floor_of ?S u = floor_of S u" for u by (simp add: floor_of_def)
  have outside: "(u, k) \<noteq> (t, p)" if "bt_get (st_heads S) u = Some g" "floor_of S u \<le> k" "k \<le> hd_sequence g" for u g k
    using that h f assms(2) by auto
  have "table_ok K ?S u g" if g: "bt_get (st_heads S) u = Some g" for u g
  proof -
    have ok: "table_ok K S u g" using s g by (simp add: sound_def history_ok_def)
    then show ?thesis using outside [OF g] floor by (intro table_ok_raise [OF ok]) (auto simp: table_ok_def)
  qed
  then have "history_ok K ?S" by (simp add: history_ok_def)
  moreover have "extends B ?S"
    by (rule extends_raise [of B S]) (use s floor outside in \<open>auto simp: sound_def\<close>)
  ultimately show ?thesis using s h f floor by (simp add: bounds_def tip_def sound_def future_unused_def)
qed

lemma roots_bounds:
  assumes "roots_of_table K wall S t = Inr r" and "sound K B {} (S, i, n)"
  shows "bounds K B t (tr_head_seq r) (tr_floor_seq r) (S, i, n)"
proof -
  obtain h f where "head_of K S t = Inr h" "retention_min_seq K S t = Inr f" "tr_head_seq r = hd_sequence (hs_head h)" "tr_floor_seq r = f"
    using assms(1) by (auto simp: roots_of_table_def result_simps)
  then show ?thesis using head_of_Inr min_seq_floor assms(2) by (auto simp: bounds_def tip_def)
qed

lemma bounds_debris:
  assumes "bounds K B t (tr_head_seq r) (tr_floor_seq r) (S, i, n)" and "is_debris wall S' r ob" and "obj_of t ob"
  shows "bounds K B t (tr_head_seq r) (tr_floor_seq r) (delete_obj ob S, i, n)"
proof (cases ob)
  case (ManifestObj u p)
  with assms show ?thesis by (auto simp: is_debris_def intro!: sound_drop_manifest)
qed (use assms in \<open>auto simp: is_debris_def elim!: bounds_cong\<close>)

lemma keeps_vacuum_table [keeps, intro]: "keeps (sound K B {}) (vacuum_table K L wall grace apply_it rep e)"
proof -
  let ?b = "\<lambda>r. bounds K B (ce_table_id e) (tr_head_seq r) (tr_floor_seq r)"
  have roots: "triple (sound K B {}) (sound K B {}) (ask (\<lambda>S. map_ok (\<lambda>r. (S, r)) (roots_of_table K wall S (ce_table_id e)))) (\<lambda>Sr. ?b (snd Sr))"
    by (rule triple_ask) (auto simp: result_simps intro: roots_bounds)
  have delete: "triple (sound K B {}) (?b r) (delete_many (filter (\<lambda>ob. old_enough L grace ob \<and> is_debris wall S r ob) (table_objects S (ce_table_id e))))
      (\<lambda>_. sound K B {})" for S r
    unfolding delete_many_def
    by (intro triple_then [OF triple_each [where P = "?b r"]] triple_put triple_give)
      (auto simp: bounds_sound dest: table_objects_of intro: bounds_debris)
  have dry: "triple (sound K B {}) (?b r) (give ()) (\<lambda>_. sound K B {})" for r by (rule triple_give) (simp add: bounds_sound)
  show ?thesis
    unfolding vacuum_table_def Let_def split_def
    by (intro triple_then [OF roots] triple_then [OF triple_if [OF delete dry]] keeps_pure)
qed

text \<open>The head of an unreachable table goes before what it names.\<close>

lemma keeps_delete_orphan: "triple (sound K B {}) (\<lambda>v. sound K B {} v \<and> table_objects (fst v) t = os) (delete_many os) (\<lambda>_. sound K B {})"
proof -
  let ?del = "act_map (\<lambda>ob. put (delete_obj ob))"
  have rest: "triple (sound K B {}) (headless K B {} t) (?del os') (\<lambda>_. sound K B {})" if "list_all (obj_of t) os'" for os'
    by (rule triple_conseq [OF triple_each [where P = "headless K B {} t"]])
      (use that in \<open>auto intro!: triple_put headless_delete simp: headless_sound list_all_iff\<close>)
  have head: "triple (sound K B {}) (sound K B {}) (?del (HeadObj t # os')) (\<lambda>_. sound K B {})" if "list_all (obj_of t) os'" for os'
    unfolding act_map.simps
    by (rule triple_then [OF triple_put [where Q = "\<lambda>_. headless K B {} t"]])
      (auto intro: sound_remove_head intro!: triple_then [OF rest [OF that]] keeps_pure)
  have policy: "triple (sound K B {}) (sound K B {}) (?del (DataPolicyObj t # os')) (\<lambda>_. sound K B {})"
    if "triple (sound K B {}) (sound K B {}) (?del os') (\<lambda>_. sound K B {})" for os'
    unfolding act_map.simps by (intro keeps_then keeps_pure that inv_put) simp_all
  have "triple (sound K B {}) (\<lambda>v. sound K B {} v \<and> table_objects (fst v) t = os) (?del os) (\<lambda>_. sound K B {})"
  proof -
    have "triple (sound K B {}) (\<lambda>v. v = (S, i, n)) (?del os) (\<lambda>_. sound K B {})"
      if s: "sound K B {} (S, i, n)" and os: "table_objects S t = os" for S i n
    proof (cases "bt_get (st_heads S) t")
      case None
      then have "headless K B {} t (S, i, n)" using s by (simp add: headless_def)
      moreover have "list_all (obj_of t) os" using os by (auto simp: list_all_iff dest: table_objects_of)
      ultimately show ?thesis by (intro triple_conseq [OF rest]) auto
    next
      case (Some h)
      then obtain os' where "os = HeadObj t # os' \<or> os = DataPolicyObj t # HeadObj t # os'" and o': "list_all (obj_of t) os'"
        using os table_objects_of [of _ S t] by (auto simp: table_objects_def list_all_iff split: if_splits)
      then have "triple (sound K B {}) (sound K B {}) (?del os) (\<lambda>_. sound K B {})"
        using head [OF o'] policy [OF head [OF o']] by auto
      then show ?thesis by (rule triple_conseq) (use s in auto)
    qed
    note each = this
    show ?thesis
    proof (rule triple_by_state)
      fix v assume "sound K B {} v \<and> table_objects (fst v) t = os"
      then show "triple (sound K B {}) (\<lambda>w. w = v) (?del os) (\<lambda>_. sound K B {})"
        using each [of "fst v" "fst (snd v)" "snd (snd v)"] by simp
    qed
  qed
  then show ?thesis unfolding delete_many_def by (rule triple_then) (rule keeps_pure)
qed

lemma keeps_sweep_table [keeps, intro]: "keeps (sound K B {}) (sweep_table L grace apply_it reachable rep t)"
proof -
  have read: "triple (sound K B {}) (sound K B {}) (ask (\<lambda>S. Inr (table_objects S t))) (\<lambda>os v. sound K B {} v \<and> table_objects (fst v) t = os)"
    by (rule triple_ask) auto
  have still: "triple (sound K B {}) (\<lambda>v. sound K B {} v \<and> C v) (give x) (\<lambda>_. sound K B {})" for C :: "view \<Rightarrow> bool" and x :: 'c
    by (rule triple_give) simp
  show ?thesis
    unfolding sweep_table_def
    by (intro triple_if keeps_pure triple_then [OF read] still triple_then [OF triple_if [OF keeps_delete_orphan still]])
qed

lemma keeps_vacuum [keeps]: "keeps (sound K B {}) (vacuum K L D table grace apply_it)"
  unfolding vacuum_def sweep_orphans_def Let_def
  by (intro keeps_then keeps_pure keeps_fold keeps_vacuum_table keeps_cases keeps_fork_index keeps_sweep_table)

section \<open>Plans\<close>

lemma keeps_finish_plan [keeps, intro]: "keeps (sound K B T) (finish_plan K' r name op opts segs summary before after lease)"
  unfolding finish_plan_def store_plan_def Let_def by (intro keeps_then keeps_pure keeps_fresh keeps_release inv_put) simp_all

lemma keeps_rewrite_boundary [keeps, intro]: "keeps (sound K B T) (rewrite_boundary K' A P tc start stop w seg)"
  unfolding rewrite_boundary_def by (intro keeps_then keeps_pure keeps_push_all)

lemma keeps_plans [keeps]:
  "keeps (sound K B T) (plan_write K' A P D name bs opts)"
  "keeps (sound K B T) (plan_replace_range K' A P D name start stop bs opts)"
  "keeps (sound K B T) (discard_plan K' name plan_id)"
  unfolding plan_write_def plan_replace_range_def discard_plan_def Let_def
  by (intro keeps_then keeps_pure keeps_cases keeps_writer_new keeps_push_all keeps_push_merged keeps_writer_finish keeps_dedup
      keeps_finish_plan keeps_fold keeps_rewrite_boundary inv_put; simp)+

lemma known_default [simp]: "ci_parent_committed_at_ns commit_inputs_default = None"
  by (simp add: commit_inputs_default_def)

text \<open>A commit onto the head as it is now.\<close>

lemma keeps_commit_onto:
  assumes "collision_free K" and "\<And>h. vm_sequence (m h) = Suc (hd_sequence (hs_head h))" and "\<And>h. vm_table_id (m h) = t"
    and "\<And>h. vm_format (m h) \<le> FORMAT_VERSION"
  shows "triple (sound K B T) (read_head_ok K B T t h) (commit_manifest_locked K D name t (Some h) (m h) added commit_inputs_default)
    (\<lambda>_. sound K B T)"
proof -
  have "keeps (sound K B T) (commit_manifest_locked K D name t (Some h) (m h) added commit_inputs_default)"
    if "hs_tag h = sum_head K (hs_head h)"
    by (rule commit_keeps) (use assms that in \<open>auto simp: staged_on_def\<close>)
  then have "triple (sound K B T) (\<lambda>v. sound K B T v \<and> hs_tag h = sum_head K (hs_head h))
      (commit_manifest_locked K D name t (Some h) (m h) added commit_inputs_default) (\<lambda>_. sound K B T)"
    by (rule triple_pre)
  then show ?thesis by (rule triple_conseq) (auto simp: read_head_ok_def at_head_def)
qed

lemma keeps_commit_planned [keeps]:
  assumes "collision_free K"
  shows "keeps (sound K B T) (commit_planned K D p)"
proof -
  have raise: "triple (sound K B T) (read_head_ok K B T t h) (raise e) Q" for t h e and Q :: "commit_result \<Rightarrow> view \<Rightarrow> bool"
    by (rule triple_raise) (auto simp: read_head_ok_def at_head_def)
  have commit: "triple (sound K B T) (read_head_ok K B T (mp_table_id p) h)
      (commit_manifest_locked K D name (mp_table_id p) (Some h) (planned_manifest p) added commit_inputs_default) (\<lambda>_. sound K B T)"
    if "hd_sequence (hs_head h) = mp_base_version p" for h name added
  proof -
    have "triple (sound K B T) (read_head_ok K B T (mp_table_id p) h) (commit_manifest_locked K D name (mp_table_id p) (Some h)
        ((\<lambda>h. (planned_manifest p)\<lparr>vm_sequence := Suc (hd_sequence (hs_head h))\<rparr>) h) added commit_inputs_default) (\<lambda>_. sound K B T)"
      by (rule keeps_commit_onto [OF assms]) (simp_all add: planned_manifest_def)
    moreover have "(planned_manifest p)\<lparr>vm_sequence := Suc (hd_sequence (hs_head h))\<rparr> = planned_manifest p"
      using that by (simp add: planned_manifest_def)
    ultimately show ?thesis by simp
  qed
  show ?thesis
    unfolding commit_planned_def
    by (intro triple_then [OF keeps_pure(3)] triple_then [OF head_of_triple] triple_if raise triple_then [OF commit] keeps_pure) auto
qed

lemma keeps_apply_plan [keeps]: "collision_free K \<Longrightarrow> keeps (sound K B T) (apply_plan K D p)"
  unfolding apply_plan_def by (intro keeps_then keeps_pure keeps_cases keeps_commit_planned keeps_attempt inv_put) simp_all

section \<open>Forks\<close>

lemma keeps_create_forks [keeps]: "keeps (sound K B T) (create_forks K' D names note_text as_of meta)"
  unfolding create_forks_def fork_create_def Let_def
  by (intro keeps_then keeps_pure keeps_cases keeps_map keeps_format inv_put) simp_all

lemma keeps_forks_depending_on [keeps, intro]: "keeps (sound K B T) (forks_depending_on K' D name)"
  unfolding forks_depending_on_def by (intro keeps_then keeps_fork_index keeps_pure)

lemma keeps_drop_fork_locked [keeps, intro]: "keeps (sound K B {}) (drop_fork_locked K' D name)"
  unfolding drop_fork_locked_def drop_owned_def
  by (intro keeps_then keeps_pure keeps_cases keeps_forks_depending_on keeps_map keeps_create_entry keeps_delete_table inv_put) simp_all

lemma keeps_collect_tree [keeps, intro]: "keeps (sound K B T) (collect_tree n K' D order stack)"
  by (induction n K' D order stack rule: collect_tree.induct) (auto intro!: keeps_then keeps_forks_depending_on)

lemma keeps_drop_forks [keeps]:
  "keeps (sound K B {}) (drop_fork K' D name)" "keeps (sound K B {}) (drop_forks K' D names)" "keeps (sound K B {}) (drop_fork_tree K' D name)"
  unfolding drop_fork_def drop_forks_def drop_fork_tree_def guard_drop_def
  by (intro keeps_then keeps_pure keeps_fold keeps_drop_fork_locked keeps_collect_tree)+

lemma keeps_copy_specs [keeps, intro]: "keeps (sound K B T) (copy_spec_revisions K' fr to name)"
  unfolding copy_spec_revisions_def copy_spec_revision_def by (intro keeps_then keeps_pure keeps_map keeps_cases keeps_put_spec)

lemma keeps_move_segment [keeps, intro]: "keeps (sound K B T) (move_segment D linkable own_prefix base_id q rebased seg)"
  unfolding move_segment_def link_or_copy_segment_def Let_def by (intro keeps_then keeps_pure keeps_cases inv_put) simp_all

lemma keeps_promote_created [keeps, intro]: "keeps (sound K B T) (promote_created K' fk fe m)"
  unfolding promote_created_def by (intro keeps_then keeps_pure keeps_cases keeps_create_entry keeps_fork_create_entry)

text \<open>The promoted manifest follows the head of the base that was read.\<close>

lemma keeps_promote_shadow [keeps]:
  assumes "collision_free K" and "vm_format fm \<le> FORMAT_VERSION"
  shows "keeps (sound K B T) (promote_shadow K D linkable fk table fe origin fork_seq fm)"
proof -
  have commit: "keeps (sound K B T) (commit_manifest_locked K D name t (Some bh) (recompute_rollups (m\<lparr>vm_user_meta := um\<rparr>)) added commit_inputs_default)"
    if "hs_tag bh = sum_head K (hs_head bh)" "vm_sequence m = hd_sequence (hs_head bh) + 1" "vm_table_id m = t" "vm_format m \<le> FORMAT_VERSION"
    for bh name t m um added
    by (rule commit_keeps [OF assms(1)]) (use that in \<open>auto simp: staged_on_def recompute_rollups_def\<close>)
  have head: "triple (sound K B T) (sound K B T) (ask (\<lambda>S. head_of K S t)) (\<lambda>h v. sound K B T v \<and> hs_tag h = sum_head K (hs_head h))" for t
    by (rule triple_conseq [OF head_of_triple]) (auto simp: read_head_ok_def at_head_def)
  show ?thesis
    unfolding promote_shadow_def Let_def
    by (intro triple_then [OF keeps_pure(3)] triple_then [OF head] triple_pre keeps_then keeps_pure keeps_cases keeps_map keeps_move_segment
        keeps_copy_specs commit) (use assms(2) in simp_all)
qed

lemma keeps_promote [keeps]:
  assumes "collision_free K"
  shows "keeps (sound K B T) (promote K D linkable fork_name table)"
proof -
  have read: "triple (sound K B T) (sound K B T) (ask (\<lambda>S. manifest_at S t q)) (\<lambda>m v. sound K B T v \<and> vm_format m \<le> FORMAT_VERSION)" for t q
    by (rule triple_ask) (auto simp: manifest_at_def parse_manifest_def split: option.splits if_splits)
  show ?thesis
    unfolding promote_def
    by (rule keeps_then, rule keeps_pure, rule keeps_then, rule keeps_pure, rule keeps_then, rule keeps_pure, rule keeps_then, rule keeps_pure,
        rule keeps_then, rule keeps_pure, rule triple_then [OF read], rule triple_pre)
      (intro keeps_cases keeps_promote_created keeps_promote_shadow assms)
qed

end
