(* ===== verification/Store_Recovery.thy ===== *)
theory Store_Recovery
  imports Store_Lifecycle
begin

text \<open>
  A multi-table transaction is atomic across crashes: wherever the journaled swap stops, and however
  often recovery is interrupted, once recovery completes either no head has moved or all of them
  have, and it always completes when it is let run.
\<close>

section \<open>Phases of a transaction\<close>

definition tid :: "staged_commit \<Rightarrow> uuid" where "tid sc = ce_table_id (sc_entry sc)"

definition base_seq :: "staged_commit \<Rightarrow> nat" where "base_seq sc = hd_sequence (hs_head (sc_head sc))"

definition moved :: "store \<Rightarrow> staged_commit \<Rightarrow> bool" where
  "moved S sc \<longleftrightarrow> (\<exists>h. bt_get (st_heads S) (tid sc) = Some h \<and> hd_sequence h = Suc (base_seq sc))"

text \<open>The swap of an entry is still to be done only onto the version it was published for.\<close>

definition entry_ready :: "codec \<Rightarrow> store \<Rightarrow> txn_entry \<Rightarrow> bool" where
  "entry_ready K S en \<longleftrightarrow> (\<forall>h. bt_get (st_heads S) (te_table_id en) = Some h \<and> hd_sequence h < hd_sequence (te_new_head en) \<longrightarrow>
     (\<exists>m pm. slot S (te_table_id en) (Suc (hd_sequence h)) = Some m \<and> te_new_head en = head_for K (te_table_id en) m
        \<and> manifest_ok (te_table_id en) (Suc (hd_sequence h)) m \<and> slot S (te_table_id en) (hd_sequence h) = Some pm \<and> follows K pm m))"

definition covers :: "codec \<Rightarrow> store \<Rightarrow> staged_commit \<Rightarrow> txn_entry \<Rightarrow> bool" where
  "covers K S sc en \<longleftrightarrow> te_table_id en = tid sc \<and> hd_sequence (te_new_head en) = Suc (base_seq sc) \<and> entry_ready K S en
     \<and> (\<exists>h. bt_get (st_heads S) (tid sc) = Some h \<and> hd_sequence h \<le> Suc (base_seq sc))"

definition journaled :: "codec \<Rightarrow> staged_commit list \<Rightarrow> store \<Rightarrow> uuid \<Rightarrow> txn_journal \<Rightarrow> bool" where
  "journaled K st S x j \<longleftrightarrow> st_journals S = [(x, j)] \<and> verify_journal K j = Inr () \<and> distinct (map te_table_id (tj_entries j))
     \<and> list_all2 (covers K S) st (tj_entries j)"

text \<open>History, leaving the journal out of account.\<close>

definition calm :: "store \<Rightarrow> store" where "calm S = S\<lparr>st_journals := []\<rparr>"

definition core :: "codec \<Rightarrow> store \<Rightarrow> view \<Rightarrow> bool" where
  "core K B v \<longleftrightarrow> sound K B {} (calm (fst v), snd v)"

text \<open>Nothing has happened, everything has, or the journal says what is left to do.\<close>

definition phase :: "codec \<Rightarrow> store \<Rightarrow> store \<Rightarrow> staged_commit list \<Rightarrow> view \<Rightarrow> bool" where
  "phase K B S0 st v \<longleftrightarrow> core K B v
     \<and> (st_journals (fst v) = [] \<and> (st_heads (fst v) = st_heads S0 \<or> list_all (moved (fst v)) st) \<or> (\<exists>x j. journaled K st (fst v) x j))"

lemma calm_simps [simp]:
  "st_heads (calm S) = st_heads S" "st_manifests (calm S) = st_manifests S" "st_floors (calm S) = st_floors S" "st_journals (calm S) = []"
  by (simp_all add: calm_def)

lemma calm_id: "st_journals S = [] \<Longrightarrow> calm S = S"
  by (simp add: calm_def)

lemma core_sound: "core K B (S, i, n) \<Longrightarrow> st_journals S = [] \<Longrightarrow> sound K B {} (S, i, n)"
  by (simp add: core_def calm_id)

lemma sound_core: "sound K B {} v \<Longrightarrow> core K B v"
  by (cases v) (auto simp: core_def sound_def calm_id)

lemma core_cong:
  assumes "st_heads S' = st_heads S" and "st_manifests S' = st_manifests S" and "st_floors S' = st_floors S"
  shows "core K B (S', i, n) = core K B (S, i, n)"
  using sound_cong [of "calm S'" "calm S"] assms by (simp add: core_def)

lemma covers_cong:
  assumes "st_heads S' = st_heads S" and "st_manifests S' = st_manifests S"
  shows "covers K S' sc en = covers K S sc en"
  by (simp add: covers_def entry_ready_def assms)

lemma phase_cong:
  assumes "st_heads S' = st_heads S" and "st_manifests S' = st_manifests S" and "st_floors S' = st_floors S"
    and "st_journals S' = st_journals S"
  shows "phase K B S0 st (S', i, n) = phase K B S0 st (S, i, n)"
proof -
  have "covers K S' = covers K S" by (intro ext covers_cong assms)
  moreover have "moved S' = moved S" by (intro ext) (simp add: moved_def assms)
  ultimately show ?thesis by (simp add: phase_def journaled_def core_cong [OF assms(1-3)] assms)
qed

lemma phase_sound: "phase K B S0 st v \<Longrightarrow> st_journals (fst v) = [] \<Longrightarrow> sound K B {} v"
  by (cases v) (auto simp: phase_def intro: core_sound)

lemma sound_phase: "sound K B {} v \<Longrightarrow> st_heads (fst v) = st_heads S0 \<Longrightarrow> phase K B S0 st v"
  by (auto simp: phase_def sound_core sound_def)

section \<open>One swap\<close>

text \<open>Swapping an entry that is due keeps the phase.\<close>

lemma swap_entry:
  assumes core: "core K B (S, i, n)" and j: "journaled K st S x j" and en: "en \<in> set (tj_entries j)"
    and h: "bt_get (st_heads S) (te_table_id en) = Some h" "hd_sequence h < hd_sequence (te_new_head en)"
  defines "S' \<equiv> S\<lparr>st_heads := bt_insert (te_table_id en) (te_new_head en) (st_heads S)\<rparr>"
  shows "core K B (S', i, n)" and "journaled K st S' x j" and "bt_get (st_heads S') (te_table_id en) = Some (te_new_head en)"
proof -
  let ?t = "te_table_id en"
  have ready: "entry_ready K S en"
    using j en by (auto simp: journaled_def covers_def list_all2_conv_all_nth in_set_conv_nth)
  obtain m pm where m: "slot S ?t (Suc (hd_sequence h)) = Some m" "te_new_head en = head_for K ?t m"
    "manifest_ok ?t (Suc (hd_sequence h)) m" "slot S ?t (hd_sequence h) = Some pm" "follows K pm m"
    using ready h by (auto simp: entry_ready_def)
  have "sound K B {} ((calm S)\<lparr>st_heads := bt_insert ?t (head_for K ?t m) (st_heads (calm S))\<rparr>, i, n)"
    by (rule inv_swap [where h = h and pm = pm]) (use core h m in \<open>auto simp: core_def\<close>)
  moreover have "(calm S)\<lparr>st_heads := bt_insert ?t (head_for K ?t m) (st_heads (calm S))\<rparr> = calm S'" using m by (simp add: calm_def S'_def)
  ultimately show "core K B (S', i, n)" by (simp add: core_def)
  have dist: "distinct (map te_table_id (tj_entries j))" and all: "list_all2 (covers K S) st (tj_entries j)"
    using j by (simp_all add: journaled_def)
  have "covers K S' sc e" if "covers K S sc e" "e \<in> set (tj_entries j)" for sc e
  proof (cases "te_table_id e = ?t")
    case True
    then have "e = en" using dist that(2) en by (meson distinct_map inj_onD)
    with that(1) show ?thesis by (auto simp: covers_def entry_ready_def S'_def)
  next
    case False
    with that(1) show ?thesis by (auto simp: covers_def entry_ready_def S'_def)
  qed
  with all have "list_all2 (covers K S') st (tj_entries j)" by (auto simp: list_all2_conv_all_nth)
  with j show "journaled K st S' x j" by (simp add: journaled_def S'_def)
  show "bt_get (st_heads S') ?t = Some (te_new_head en)" by (simp add: S'_def)
qed

section \<open>Recovery\<close>

definition rolling :: "codec \<Rightarrow> store \<Rightarrow> staged_commit list \<Rightarrow> uuid \<Rightarrow> txn_journal \<Rightarrow> view \<Rightarrow> bool" where
  "rolling K B st x j v \<longleftrightarrow> core K B v \<and> journaled K st (fst v) x j"

definition rolled :: "store \<Rightarrow> txn_entry \<Rightarrow> bool" where
  "rolled S en \<longleftrightarrow> (\<forall>h. bt_get (st_heads S) (te_table_id en) = Some h \<longrightarrow> hd_sequence (te_new_head en) \<le> hd_sequence h)"

lemma rolling_phase: "rolling K B st x j v \<Longrightarrow> phase K B S0 st v"
  by (auto simp: rolling_def phase_def)

lemma write_head_rolling:
  assumes "en \<in> set (tj_entries j)" and "set dn \<subseteq> set (tj_entries j)"
  shows "triple E (\<lambda>v. rolling K B st x j v \<and> list_all (rolled (fst v)) dn \<and> E v
      \<and> (\<exists>h. bt_get (st_heads (fst v)) (te_table_id en) = Some h \<and> hd_sequence h < hd_sequence (te_new_head en)))
    (write_head (te_table_id en) (te_new_head en)) (\<lambda>_ v. rolling K B st x j v \<and> list_all (rolled (fst v)) (dn @ [en]))"
  unfolding write_head_def
proof (rule triple_put)
  fix S i n
  assume a: "rolling K B st x j (S, i, n) \<and> list_all (rolled (fst (S, i, n))) dn \<and> E (S, i, n)
      \<and> (\<exists>h. bt_get (st_heads (fst (S, i, n))) (te_table_id en) = Some h \<and> hd_sequence h < hd_sequence (te_new_head en))"
  then obtain h where h: "bt_get (st_heads S) (te_table_id en) = Some h" "hd_sequence h < hd_sequence (te_new_head en)" by auto
  let ?S = "S\<lparr>st_heads := bt_insert (te_table_id en) (te_new_head en) (st_heads S)\<rparr>"
  have r: "core K B (S, i, n)" "journaled K st S x j" using a by (auto simp: rolling_def)
  note new = swap_entry [OF r assms(1) h]
  have still: "rolled ?S e" if "rolled S e" "e \<in> set (tj_entries j)" for e
  proof (cases "te_table_id e = te_table_id en")
    case True
    then have "e = en" using r(2) that(2) assms(1) by (meson distinct_map inj_onD journaled_def)
    then show ?thesis unfolding rolled_def by simp
  qed (use that in \<open>simp add: rolled_def\<close>)
  have "list_all (rolled S) dn" using a by simp
  then have "list_all (rolled ?S) dn" unfolding list_all_iff using still assms(2) by blast
  moreover have "rolled ?S en" unfolding rolled_def by simp
  ultimately have "list_all (rolled ?S) (dn @ [en])" by simp
  with new show "rolling K B st x j (?S, i, n) \<and> list_all (rolled (fst (?S, i, n))) (dn @ [en])" by (simp add: rolling_def)
qed simp

text \<open>Rolling one entry forward.\<close>

lemma roll_forward_triple:
  assumes K: "collision_free K" and en: "en \<in> set (tj_entries j)" and pre: "set dn \<subseteq> set (tj_entries j)"
  shows "triple (phase K B S0 st) (\<lambda>v. rolling K B st x j v \<and> list_all (rolled (fst v)) dn) (roll_forward K D en)
    (\<lambda>_ v. rolling K B st x j v \<and> list_all (rolled (fst v)) (dn @ [en]))"
proof -
  let ?P = "\<lambda>v. rolling K B st x j v \<and> list_all (rolled (fst v)) dn"
  let ?due = "\<lambda>h v. ?P v \<and> bt_get (st_heads (fst v)) (te_table_id en) = Some (hs_head h) \<and> hs_tag h = sum_head K (hs_head h)"
  have read: "triple (phase K B S0 st) ?P (ask (\<lambda>S. heads_read K S (te_table_id en)))
      (\<lambda>c v. case c of None \<Rightarrow> ?P v \<and> bt_get (st_heads (fst v)) (te_table_id en) = None | Some h \<Rightarrow> ?due h v)"
    by (rule triple_ask) (auto intro: rolling_phase dest!: heads_read_Inr split: option.splits)
  have check: "triple (phase K B S0 st) (?due h) (ask f) (\<lambda>_. ?due h)" for h and f :: "store \<Rightarrow> unit sres"
    by (rule triple_ask) (auto intro: rolling_phase)
  have pub: "triple (phase K B S0 st) (?due h) (give ()) (\<lambda>_. ?due h)" for h by (rule triple_give)
  have swap: "triple (phase K B S0 st) (?due h) (write_head (te_table_id en) (te_new_head en))
      (\<lambda>_ v. rolling K B st x j v \<and> list_all (rolled (fst v)) (dn @ [en]))"
    if "hd_sequence (hs_head h) < hd_sequence (te_new_head en)" for h
    by (rule triple_conseq [OF write_head_rolling [OF en pre]]) (use that in \<open>auto intro: rolling_phase\<close>)
  have commit: "triple (phase K B S0 st) (?due h) (heads_commit K D (te_table_id en) name (Some (hs_tag h)) (te_new_head en) (give ()))
      (\<lambda>_ v. rolling K B st x j v \<and> list_all (rolled (fst v)) (dn @ [en]))"
    if "hd_sequence (hs_head h) < hd_sequence (te_new_head en)" for h name
    unfolding heads_commit_def
    by (intro triple_then [OF check] triple_then [OF pub] triple_if swap that)
  have step: "triple (phase K B S0 st) (\<lambda>v. case c of None \<Rightarrow> ?P v \<and> bt_get (st_heads (fst v)) (te_table_id en) = None | Some h \<Rightarrow> ?due h v)
      (case c of None \<Rightarrow> give () | Some h \<Rightarrow>
         if hd_sequence (hs_head h) < hd_sequence (te_new_head en)
         then heads_commit K D (te_table_id en) (te_table_name en) (Some (hs_tag h)) (te_new_head en) (give ()) else give ())
      (\<lambda>_ v. rolling K B st x j v \<and> list_all (rolled (fst v)) (dn @ [en]))" for c
  proof (cases c)
    case None
    then show ?thesis by (auto intro!: triple_give simp: rolled_def)
  next
    case (Some h)
    have "triple (phase K B S0 st) (?due h) (give ()) (\<lambda>_ v. rolling K B st x j v \<and> list_all (rolled (fst v)) (dn @ [en]))"
      if "\<not> hd_sequence (hs_head h) < hd_sequence (te_new_head en)"
      by (rule triple_give) (use that in \<open>simp add: rolled_def\<close>)
    with Some commit [of h] show ?thesis by simp
  qed
  show ?thesis unfolding roll_forward_def by (rule triple_then [OF read step])
qed

text \<open>A journal whose entries are all done may go.\<close>

lemma delete_journal_triple:
  "triple (phase K B S0 st) (\<lambda>v. rolling K B st x j v \<and> list_all (rolled (fst v)) (tj_entries j)) (delete_journal x)
    (\<lambda>_ v. phase K B S0 st v \<and> st_journals (fst v) = [] \<and> list_all (moved (fst v)) st)"
  unfolding delete_journal_def
proof (rule triple_put)
  fix S i n assume a: "rolling K B st x j (S, i, n) \<and> list_all (rolled (fst (S, i, n))) (tj_entries j)"
  let ?S = "S\<lparr>st_journals := bt_remove x (st_journals S)\<rparr>"
  have j: "st_journals S = [(x, j)]" "list_all2 (covers K S) st (tj_entries j)" and "core K B (S, i, n)"
    using a by (auto simp: rolling_def journaled_def)
  then have "core K B (?S, i, n)" using core_cong [of ?S S] by simp
  moreover have "st_journals ?S = []" using j by (simp add: bt_remove_def)
  moreover have "list_all (moved ?S) st"
  proof (unfold list_all_length, intro allI impI)
    fix k assume k: "k < length st"
    then have "covers K S (st ! k) (tj_entries j ! k)" "rolled S (tj_entries j ! k)"
      using j(2) a by (auto simp: list_all2_conv_all_nth list_all_length)
    then show "moved ?S (st ! k)" by (auto simp: covers_def rolled_def moved_def intro: le_antisym)
  qed
  ultimately show "phase K B S0 st (?S, i, n) \<and> st_journals (fst (?S, i, n)) = [] \<and> list_all (moved (fst (?S, i, n))) st"
    by (simp add: phase_def)
qed (auto intro: rolling_phase)

lemma recover_journal_triple:
  assumes "collision_free K"
  shows "triple (phase K B S0 st) (\<lambda>v. rolling K B st x j v) (recover_journal K D x)
    (\<lambda>_ v. phase K B S0 st v \<and> st_journals (fst v) = [])"
proof -
  have read: "triple (phase K B S0 st) (rolling K B st x j) (ask (\<lambda>S. ok_or e (bt_get (st_journals S) x))) (\<lambda>j' v. rolling K B st x j v \<and> j' = j)" for e
    by (rule triple_ask) (auto intro: rolling_phase simp: rolling_def journaled_def)
  have check: "triple (phase K B S0 st) (rolling K B st x j) (lift r) (\<lambda>_. rolling K B st x j)" for r :: "unit sres"
    by (rule triple_lift) (auto intro: rolling_phase)
  have each: "triple (phase K B S0 st) (rolling K B st x j) (act_map (roll_forward K D) (tj_entries j))
      (\<lambda>_ v. rolling K B st x j v \<and> list_all (rolled (fst v)) (tj_entries j))"
    by (rule triple_conseq [OF triple_map [where I = "\<lambda>pre _ v. rolling K B st x j v \<and> list_all (rolled (fst v)) pre"]],
        rule roll_forward_triple [OF assms]) auto
  have last: "triple (phase K B S0 st) (\<lambda>v. rolling K B st x j v \<and> list_all (rolled (fst v)) (tj_entries j)) (delete_journal x)
      (\<lambda>_ v. phase K B S0 st v \<and> st_journals (fst v) = [])"
    by (rule triple_conseq [OF delete_journal_triple]) auto
  have "triple (phase K B S0 st) (rolling K B st x j) (act_then (lift (verify_journal K j)) (\<lambda>_.
      act_then (act_map (roll_forward K D) (tj_entries j)) (\<lambda>_. delete_journal x))) (\<lambda>_ v. phase K B S0 st v \<and> st_journals (fst v) = [])"
    by (intro triple_then [OF check] triple_then [OF each] last)
  then show ?thesis unfolding recover_journal_def by (intro triple_then [OF read] triple_pre) simp
qed

lemma recover_triple:
  assumes "collision_free K"
  shows "triple (phase K B S0 st) (phase K B S0 st) (recover K D) (\<lambda>_ v. phase K B S0 st v \<and> st_journals (fst v) = [])"
proof (rule triple_by_state)
  fix v assume v: "phase K B S0 st v"
  have list: "triple (phase K B S0 st) (\<lambda>w. w = v) (ask (\<lambda>S. Inr (map fst (st_journals S)))) (\<lambda>ids w. w = v \<and> ids = map fst (st_journals (fst v)))"
    by (rule triple_ask) (use v in auto)
  consider (none) "st_journals (fst v) = []" | (one) x j where "journaled K st (fst v) x j" using v by (auto simp: phase_def)
  then show "triple (phase K B S0 st) (\<lambda>w. w = v) (recover K D) (\<lambda>_ v. phase K B S0 st v \<and> st_journals (fst v) = [])"
  proof cases
    case none
    then show ?thesis
      unfolding recover_def
      by (intro triple_then [OF list] triple_pre) (use v in \<open>auto intro!: triple_then [OF triple_give [where Q = "\<lambda>_ w. w = v"]] triple_give\<close>)
  next
    case one
    then have "map fst (st_journals (fst v)) = [x]" "rolling K B st x j v" using v by (auto simp: journaled_def phase_def rolling_def)
    moreover have "triple (phase K B S0 st) (rolling K B st x j) (act_then (act_map (recover_journal K D) [x]) (\<lambda>_. give ()))
        (\<lambda>_ v. phase K B S0 st v \<and> st_journals (fst v) = [])"
    proof -
      let ?Q = "\<lambda>v. phase K B S0 st v \<and> st_journals (fst v) = []"
      have give: "triple (phase K B S0 st) ?Q (give y) (\<lambda>_. ?Q)" for y :: "unit list" by (rule triple_give)
      show ?thesis
        unfolding act_map.simps
        by (rule triple_then, rule triple_then [OF recover_journal_triple [OF assms]], rule triple_then [OF give give], rule triple_give)
    qed
    ultimately show ?thesis
      unfolding recover_def by (intro triple_then [OF list] triple_pre) (auto elim!: triple_conseq)
  qed
qed

section \<open>The journaled swap\<close>

lemma triple_conj:
  assumes "triple E P m Q" and "triple E P' m Q'"
  shows "triple E (\<lambda>v. P v \<and> P' v) m (\<lambda>x v. Q x v \<and> Q' x v)"
  unfolding triple_def
proof (intro allI impI)
  fix H assume "P (view H) \<and> P' (view H)"
  with assms have "case m H of (H', Inl e) \<Rightarrow> E (view H') | (H', Inr x) \<Rightarrow> Q x (view H')"
    "case m H of (H', Inl e) \<Rightarrow> E (view H') | (H', Inr x) \<Rightarrow> Q' x (view H')" by (simp_all add: triple_def)
  then show "case m H of (H', Inl e) \<Rightarrow> E (view H') | (H', Inr x) \<Rightarrow> Q x (view H') \<and> Q' x (view H')"
    by (auto split: prod.splits sum.splits)
qed

definition untouched :: "codec \<Rightarrow> store \<Rightarrow> store \<Rightarrow> view \<Rightarrow> bool" where
  "untouched K B S0 v \<longleftrightarrow> sound K B {} v \<and> st_heads (fst v) = st_heads S0"

definition at_base :: "store \<Rightarrow> staged_commit \<Rightarrow> bool" where
  "at_base S sc \<longleftrightarrow> bt_get (st_heads S) (tid sc) = Some (hs_head (sc_head sc))"

lemma untouched_phase: "untouched K B S0 v \<Longrightarrow> phase K B S0 st v"
  by (simp add: untouched_def sound_phase)

lemma validate_triple:
  assumes "collision_free K" and "staged_ok K sc"
  shows "triple (phase K B S0 st) (untouched K B S0) (ask (validate_base K sc)) (\<lambda>_ v. untouched K B S0 v \<and> at_base S0 sc)"
proof (rule triple_ask)
  fix u S i n assume v: "validate_base K sc S = Inr u" and s: "untouched K B S0 (S, i, n)"
  obtain c where c: "heads_read K S (tid sc) = Inr c" "map_option hs_tag c = Some (hs_tag (sc_head sc))"
    using v by (auto simp: validate_base_def tid_def result_simps split: if_splits)
  have "hs_tag (sc_head sc) = sum_head K (hs_head (sc_head sc))" using assms(2) by (simp add: staged_ok_def staged_on_def)
  with c heads_read_Inr [OF c(1)] assms(1) have "bt_get (st_heads S) (tid sc) = Some (hs_head (sc_head sc))"
    by (auto simp: collision_free_def inj_eq)
  with s show "untouched K B S0 (S, i, n) \<and> at_base S0 sc" by (simp add: untouched_def at_base_def)
qed (rule untouched_phase)

text \<open>A published manifest waits in the slot after the head it was staged on.\<close>

definition pub_ok :: "codec \<Rightarrow> store \<Rightarrow> staged_commit \<Rightarrow> staged_commit \<times> head \<Rightarrow> bool" where
  "pub_ok K S sc p \<longleftrightarrow> sc_entry (fst p) = sc_entry sc \<and> sc_head (fst p) = sc_head sc
     \<and> (\<exists>m pm. slot S (tid sc) (Suc (base_seq sc)) = Some m \<and> snd p = head_for K (tid sc) m
          \<and> manifest_ok (tid sc) (Suc (base_seq sc)) m \<and> slot S (tid sc) (base_seq sc) = Some pm \<and> follows K pm m)"

definition pubs_ok :: "codec \<Rightarrow> store \<Rightarrow> store \<Rightarrow> staged_commit list \<Rightarrow> (staged_commit \<times> head) list \<Rightarrow> view \<Rightarrow> bool" where
  "pubs_ok K B S0 pre pubs v \<longleftrightarrow> untouched K B S0 v \<and> list_all2 (pub_ok K (fst v)) pre pubs"

lemma publish_staged_triple:
  assumes K: "collision_free K" and ok: "staged_ok K sc" and base: "at_base S0 sc" and other: "tid sc \<notin> tid ` set pre"
  shows "triple (phase K B S0 st) (pubs_ok K B S0 pre pubs) (publish_staged K sc) (\<lambda>p. pubs_ok K B S0 (pre @ [sc]) (pubs @ [p]))"
proof -
  let ?t = "tid sc" and ?q = "base_seq sc"
  let ?parent = "\<lambda>pm v. pubs_ok K B S0 pre pubs v \<and> slot (fst v) ?t ?q = Some pm \<and> manifest_ok ?t ?q pm \<and> sum_manifest K pm = hd_manifest_checksum (hs_head (sc_head sc))"
  have early: "phase K B S0 st v" if "pubs_ok K B S0 pre pubs v" for v using that by (simp add: pubs_ok_def untouched_phase)
  have limit: "triple (phase K B S0 st) (pubs_ok K B S0 pre pubs) (ask f) (\<lambda>_. pubs_ok K B S0 pre pubs)" for f :: "store \<Rightarrow> unit sres"
    by (rule triple_ask) (auto intro: early)
  have parent: "triple (phase K B S0 st) (pubs_ok K B S0 pre pubs) (ask (\<lambda>S. manifest_at S ?t ?q)) ?parent"
  proof (rule triple_ask)
    fix pm S i n assume m: "manifest_at S ?t ?q = Inr pm" and p: "pubs_ok K B S0 pre pubs (S, i, n)"
    then have "at_head K B {} ?t (sc_head sc) (S, i, n)" using base by (simp add: pubs_ok_def untouched_def at_head_def at_base_def)
    then obtain pm' where "slot S ?t ?q = Some pm'" "manifest_ok ?t ?q pm'" "sum_manifest K pm' = hd_manifest_checksum (hs_head (sc_head sc))"
      unfolding base_seq_def by (rule at_head_slot)
    with m p show "?parent pm (S, i, n)" by (auto simp: manifest_at_def parse_manifest_def split: if_splits)
  qed (rule early)
  have now: "triple (phase K B S0 st) (?parent pm) now (\<lambda>_. ?parent pm)" for pm by (rule triple_now)
  have put: "triple (phase K B S0 st) (?parent pm) (put (\<lambda>S. S\<lparr>st_manifests := bt_insert (?t, vm_sequence m) m (st_manifests S)\<rparr>))
      (\<lambda>_. pubs_ok K B S0 (pre @ [sc]) (pubs @ [(sc\<lparr>sc_manifest := m\<rparr>, head_for K ?t m)]))"
    if m: "m = stamp wall (Some (sc_head sc)) (Some (vm_committed_at_ns pm)) (sc_manifest sc)" for pm m wall
  proof (rule triple_put)
    fix S i n assume p: "?parent pm (S, i, n)"
    have q: "vm_sequence m = Suc ?q" and okm: "manifest_ok ?t (Suc ?q) m"
      using ok stamped_ok [of "sc_manifest sc" ?t] by (auto simp: m staged_ok_def staged_on_def tid_def base_seq_def)
    have fol: "follows K pm m" unfolding m by (rule stamp_follows [of ?t ?q]) (use p in \<open>simp_all add: base_seq_def\<close>)
    let ?S = "S\<lparr>st_manifests := bt_insert (?t, vm_sequence m) m (st_manifests S)\<rparr>"
    have "sound K B {} (?S, i, n)"
      by (rule inv_put_manifest) (use p base q in \<open>auto simp: pubs_ok_def untouched_def at_base_def base_seq_def\<close>)
    then have "untouched K B S0 (?S, i, n)" using p by (simp add: untouched_def pubs_ok_def)
    moreover have keep: "pub_ok K ?S sc' x" if "pub_ok K S sc' x" "tid sc' \<noteq> ?t" for sc' x using that by (auto simp: pub_ok_def)
    have "list_all2 (pub_ok K S) pre pubs" using p by (simp add: pubs_ok_def)
    then have "list_all2 (pub_ok K ?S) pre pubs"
    proof (rule list.rel_mono_strong)
      fix sc' x assume "sc' \<in> set pre" "pub_ok K S sc' x"
      moreover have "tid sc' \<noteq> ?t" using other calculation(1) by (metis imageI)
      ultimately show "pub_ok K ?S sc' x" by (intro keep)
    qed
    moreover have "pub_ok K ?S sc (sc\<lparr>sc_manifest := m\<rparr>, head_for K ?t m)"
      using p q okm fol by (auto simp: pub_ok_def)
    ultimately show "pubs_ok K B S0 (pre @ [sc]) (pubs @ [(sc\<lparr>sc_manifest := m\<rparr>, head_for K ?t m)]) (?S, i, n)"
      by (auto simp: pubs_ok_def intro: list_all2_appendI)
  qed (auto intro: early)
  show ?thesis
    unfolding publish_staged_def Let_def tid_def [symmetric] base_seq_def [symmetric]
    by (rule triple_then [OF limit], rule triple_then [OF parent], rule triple_then [OF now], rule triple_then [OF put [OF refl]],
        rule triple_give)
qed

definition entry_for :: "staged_commit \<times> head \<Rightarrow> txn_entry" where
  "entry_for p = \<lparr>te_table_id = tid (fst p), te_table_name = ce_name (sc_entry (fst p)), te_base_sequence = base_seq (fst p), te_new_head = snd p\<rparr>"

lemma journal_entries: "tj_entries (journal_of K x wall pubs) = map entry_for pubs" "tj_txn_id (journal_of K x wall pubs) = x"
  by (auto simp: journal_of_def seal_journal_def entry_for_def tid_def base_seq_def)

lemma journal_verifies: "verify_journal K (journal_of K x wall pubs) = Inr ()"
  by (simp add: journal_of_def)

lemma pub_ids: "list_all2 (pub_ok K S) st pubs \<Longrightarrow> map (tid \<circ> fst) pubs = map tid st"
  by (induction rule: list_all2_induct) (auto simp: pub_ok_def tid_def)

text \<open>The swaps that are left are due.\<close>

definition due :: "store \<Rightarrow> (staged_commit \<times> head) list \<Rightarrow> bool" where
  "due S ps \<longleftrightarrow> list_all (\<lambda>p. hd_sequence (snd p) = Suc (base_seq (fst p)) \<and> at_base S (fst p)) ps"

lemma put_journal_triple:
  assumes base: "list_all (at_base S0) st" and dist: "distinct (map tid st)"
  shows "triple (phase K B S0 st) (pubs_ok K B S0 st pubs) (put_journal (journal_of K x wall pubs))
    (\<lambda>_ v. rolling K B st x (journal_of K x wall pubs) v \<and> due (fst v) pubs \<and> distinct (map (tid \<circ> fst) pubs))"
  unfolding put_journal_def
proof (rule triple_put)
  fix S i n assume p: "pubs_ok K B S0 st pubs (S, i, n)"
  let ?j = "journal_of K x wall pubs"
  let ?S = "S\<lparr>st_journals := bt_insert (tj_txn_id ?j) ?j (st_journals S)\<rparr>"
  have s: "sound K B {} (S, i, n)" and heads: "st_heads S = st_heads S0" and pubs: "list_all2 (pub_ok K S) st pubs"
    using p by (auto simp: pubs_ok_def untouched_def)
  have "core K B (?S, i, n)" using sound_core [OF s] core_cong [of ?S S] by simp
  moreover have "st_journals ?S = [(x, ?j)]" using s by (simp add: sound_def journal_entries)
  moreover have "covers K ?S sc (entry_for q)" if "pub_ok K S sc q" "at_base S0 sc" for sc q
    using that heads by (auto simp: covers_def entry_ready_def entry_for_def pub_ok_def at_base_def head_for_def manifest_ok_def base_seq_def tid_def)
  then have "list_all2 (covers K ?S) st (map entry_for pubs)"
    using pubs base by (auto simp: list_all2_conv_all_nth list_all_length)
  moreover have "map te_table_id (map entry_for pubs) = map tid st" using pub_ids [OF pubs] by (simp add: entry_for_def comp_def)
  ultimately have "rolling K B st x ?j (?S, i, n)"
    using dist by (simp add: rolling_def journaled_def journal_entries journal_verifies)
  moreover have "due ?S pubs"
    unfolding due_def list_all_length
  proof (intro allI impI)
    fix k assume k: "k < length pubs"
    then have "pub_ok K S (st ! k) (pubs ! k)" "at_base S0 (st ! k)" using pubs base by (auto simp: list_all2_conv_all_nth list_all_length)
    then show "hd_sequence (snd (pubs ! k)) = Suc (base_seq (fst (pubs ! k))) \<and> at_base ?S (fst (pubs ! k))"
      using heads by (auto simp: pub_ok_def at_base_def tid_def base_seq_def head_for_def manifest_ok_def)
  qed
  ultimately show "rolling K B st x ?j (?S, i, n) \<and> due (fst (?S, i, n)) pubs \<and> distinct (map (tid \<circ> fst) pubs)"
    using dist pub_ids [OF pubs] by simp
qed (simp add: pubs_ok_def untouched_phase)

lemma swaps_triple:
  assumes "distinct (map (tid \<circ> fst) pubs)" and "tj_entries j = map entry_for pubs"
  shows "triple (phase K B S0 st) (\<lambda>v. rolling K B st x j v \<and> due (fst v) pubs)
    (act_map (\<lambda>w. write_head (sw_table_id w) (sw_new_head w)) (map txn_swap pubs))
    (\<lambda>_ v. rolling K B st x j v \<and> list_all (rolled (fst v)) (tj_entries j))"
proof -
  let ?I = "\<lambda>pre v. rolling K B st x j v \<and> list_all (rolled (fst v)) (map entry_for pre) \<and> due (fst v) (drop (length pre) pubs)"
  have swap: "write_head (sw_table_id (txn_swap p)) (sw_new_head (txn_swap p)) = write_head (te_table_id (entry_for p)) (te_new_head (entry_for p))" for p
    by (cases p) (simp add: txn_swap_def entry_for_def tid_def)
  have step: "triple (phase K B S0 st) (?I pre) (write_head (te_table_id (entry_for p)) (te_new_head (entry_for p))) (\<lambda>_. ?I (pre @ [p]))"
    if pubs: "pubs = pre @ p # post" for pre p post
  proof -
    let ?due = "\<lambda>v. phase K B S0 st v \<and> due (fst v) post"
    have other: "tid (fst q) \<noteq> tid (fst p)" if "q \<in> set post" for q using assms(1) pubs that by (metis (no_types, lifting) comp_apply distinct.simps(2) distinct_append image_eqI list.set_map list.simps(9) map_append)
    have frame: "triple (phase K B S0 st) ?due (write_head (te_table_id (entry_for p)) (te_new_head (entry_for p))) (\<lambda>_ v. due (fst v) post)"
      unfolding write_head_def
      by (rule triple_put) (use other in \<open>auto simp: due_def list_all_iff at_base_def entry_for_def\<close>)
    have "entry_for p \<in> set (tj_entries j)" "set (map entry_for pre) \<subseteq> set (tj_entries j)" using assms(2) pubs by auto
    from triple_conj [OF write_head_rolling [OF this] frame] show ?thesis
      by (rule triple_conseq) (use pubs in \<open>auto simp: due_def at_base_def entry_for_def base_seq_def intro: rolling_phase\<close>)
  qed
  have "triple (phase K B S0 st) (?I []) (act_map (\<lambda>p. write_head (te_table_id (entry_for p)) (te_new_head (entry_for p))) pubs) (\<lambda>_. ?I pubs)"
    by (rule triple_map [where I = "\<lambda>pre _. ?I pre"]) (rule step)
  moreover have "act_map (\<lambda>w. write_head (sw_table_id w) (sw_new_head w)) (map txn_swap pubs)
      = act_map (\<lambda>p. write_head (te_table_id (entry_for p)) (te_new_head (entry_for p))) pubs"
    by (induction pubs) (simp_all add: swap)
  ultimately show ?thesis by (auto elim!: triple_conseq simp: assms(2))
qed

lemma inner_triple:
  assumes K: "collision_free K" and "db_local D" and ok: "list_all (staged_ok K) st" and dist: "distinct (map tid st)"
  shows "triple (phase K B S0 st) (untouched K B S0) (commit_staged_transaction_inner K D x st)
    (\<lambda>_ v. phase K B S0 st v \<and> st_journals (fst v) = [] \<and> list_all (moved (fst v)) st)"
proof -
  have validate: "triple (phase K B S0 st) (untouched K B S0) (act_map (\<lambda>sc. ask (validate_base K sc)) st) (\<lambda>_ v. untouched K B S0 v \<and> list_all (at_base S0) st)"
  proof (rule triple_conseq [OF triple_map [where I = "\<lambda>pre _ v. untouched K B S0 v \<and> list_all (at_base S0) pre"]])
    fix pre y post assume "st = pre @ y # post"
    then have "staged_ok K y" using ok by simp
    then show "triple (phase K B S0 st) (\<lambda>v. untouched K B S0 v \<and> list_all (at_base S0) pre) (ask (validate_base K y))
        (\<lambda>_ v. untouched K B S0 v \<and> list_all (at_base S0) (pre @ [y]))"
      by (intro triple_pre triple_conseq [OF validate_triple [OF K]]) auto
  qed auto
  have publish: "triple (phase K B S0 st) (untouched K B S0) (act_map (publish_staged K) st) (\<lambda>pubs. pubs_ok K B S0 st pubs)"
    if base: "list_all (at_base S0) st"
  proof (rule triple_conseq [OF triple_map [where I = "\<lambda>pre pubs. pubs_ok K B S0 pre pubs"]])
    fix pre y post and pubs :: "(staged_commit \<times> head) list" assume st: "st = pre @ y # post"
    then have "tid y \<notin> tid ` set pre" using dist by auto
    moreover have "staged_ok K y" "at_base S0 y" using st ok base by auto
    ultimately show "triple (phase K B S0 st) (pubs_ok K B S0 pre pubs) (publish_staged K y) (\<lambda>p. pubs_ok K B S0 (pre @ [y]) (pubs @ [p]))"
      by (intro publish_staged_triple K)
  qed (auto simp: pubs_ok_def)
  have now: "triple (phase K B S0 st) (pubs_ok K B S0 st pubs) now (\<lambda>_. pubs_ok K B S0 st pubs)" for pubs by (rule triple_now)
  let ?R = "\<lambda>pubs wall v. rolling K B st x (journal_of K x wall pubs) v \<and> due (fst v) pubs"
  have check: "triple (phase K B S0 st) (?R pubs wall) (act_map (\<lambda>w. ask (f w)) ws) (\<lambda>_. ?R pubs wall)" for pubs wall ws and f :: "head_swap \<Rightarrow> store \<Rightarrow> unit sres"
    by (rule triple_each, rule triple_ask) (auto intro: rolling_phase)
  have still: "triple (phase K B S0 st) (?R pubs wall) (give ()) (\<lambda>_. ?R pubs wall)" for pubs wall by (rule triple_give)
  have unit: "triple (phase K B S0 st) P (give y) (\<lambda>_. P)" for P and y :: 'c by (rule triple_give)
  have swaps: "triple (phase K B S0 st) (?R pubs wall) (heads_commit_batch K D (map txn_swap pubs) (give ()))
      (\<lambda>_ v. rolling K B st x (journal_of K x wall pubs) v \<and> list_all (rolled (fst v)) (tj_entries (journal_of K x wall pubs)))"
    if "distinct (map (tid \<circ> fst) pubs)" for pubs wall
  proof -
    note sw = swaps_triple [OF that journal_entries(1)]
    show ?thesis unfolding heads_commit_batch_def using \<open>db_local D\<close>
      by (simp, intro triple_then [OF check] triple_then [OF still] triple_then [OF sw] triple_give)
  qed
  have journal: "triple (phase K B S0 st) (pubs_ok K B S0 st pubs)
      (act_then (put_journal (journal_of K x wall pubs)) (\<lambda>_. act_then (heads_commit_batch K D (map txn_swap pubs) (give ())) (\<lambda>_. act_then (delete_journal x) (\<lambda>_. give r))))
      (\<lambda>_ v. phase K B S0 st v \<and> st_journals (fst v) = [] \<and> list_all (moved (fst v)) st)"
    if base: "list_all (at_base S0) st" for pubs wall and r :: "commit_result list"
  proof (rule triple_then [OF put_journal_triple [OF base dist]])
    have "triple (phase K B S0 st) (?R pubs wall)
        (act_then (heads_commit_batch K D (map txn_swap pubs) (give ())) (\<lambda>_. act_then (delete_journal x) (\<lambda>_. give r)))
        (\<lambda>_ v. phase K B S0 st v \<and> st_journals (fst v) = [] \<and> list_all (moved (fst v)) st)"
      if "distinct (map (tid \<circ> fst) pubs)"
      by (rule triple_then [OF swaps [OF that]], rule triple_then [OF delete_journal_triple], rule triple_give)
    from triple_pre [OF this] show "triple (phase K B S0 st)
        (\<lambda>v. rolling K B st x (journal_of K x wall pubs) v \<and> due (fst v) pubs \<and> distinct (map (tid \<circ> fst) pubs))
        (act_then (heads_commit_batch K D (map txn_swap pubs) (give ())) (\<lambda>_. act_then (delete_journal x) (\<lambda>_. give r)))
        (\<lambda>_ v. phase K B S0 st v \<and> st_journals (fst v) = [] \<and> list_all (moved (fst v)) st)" by (simp add: conj_assoc)
  qed
  show ?thesis
    unfolding commit_staged_transaction_inner_def
    by (rule triple_then [OF validate], rule triple_pre, rule triple_then [OF publish], assumption, rule triple_then [OF now], rule journal)
qed

lemma triple_outcome:
  assumes "triple E P m Q"
  shows "triple E' P (outcome m) (\<lambda>r v. case r of Inl _ \<Rightarrow> E v | Inr x \<Rightarrow> Q x v)"
  using assms unfolding triple_def outcome_def by (fastforce split: prod.splits sum.splits)

text \<open>Leases are not history.\<close>

lemma keeps_release_all:
  assumes "\<And>S i n l. I (S, i, n) \<Longrightarrow> I (S\<lparr>st_leases := l\<rparr>, i, n)"
  shows "keeps I (release_all sts)"
  unfolding release_all_def release_staging_def
  by (intro keeps_then keeps_map keeps_cases keeps_pure keeps_attempt keeps_put assms)

definition settled :: "codec \<Rightarrow> store \<Rightarrow> store \<Rightarrow> staged_commit list \<Rightarrow> 'a sres \<Rightarrow> view \<Rightarrow> bool" where
  "settled K B S0 st r v \<longleftrightarrow> phase K B S0 st v \<and> (is_ok r \<longrightarrow> st_journals (fst v) = [] \<and> list_all (moved (fst v)) st)"

lemma settled_leases: "settled K B S0 st r (S, i, n) \<Longrightarrow> settled K B S0 st r (S\<lparr>st_leases := l\<rparr>, i, n)"
  using phase_cong [of "S\<lparr>st_leases := l\<rparr>" S K B S0 st i n] by (auto simp: settled_def moved_def list_all_iff)

lemma transaction_triple:
  assumes "collision_free K" and "list_all (staged_ok K) st" and "distinct (map tid st)"
  shows "triple (phase K B S0 st) (untouched K B S0) (commit_staged_transaction K D st)
    (\<lambda>_ v. phase K B S0 st v \<and> st_journals (fst v) = [] \<and> list_all (moved (fst v)) st)"
proof (cases "db_local D")
  case False
  then show ?thesis unfolding commit_staged_transaction_def by (auto intro!: triple_raise untouched_phase)
next
  case True
  have fresh: "triple (phase K B S0 st) (untouched K B S0) fresh_id (\<lambda>_. untouched K B S0)"
    by (rule triple_fresh) (auto simp: untouched_def dest: sound_fresh(1) elim: inv_mono)
  have inner: "triple (phase K B S0 st) (untouched K B S0) (outcome (commit_staged_transaction_inner K D x st)) (settled K B S0 st)" for x
    by (rule triple_conseq [OF triple_outcome [OF inner_triple [OF assms(1) True assms(2,3)]]])
      (auto simp: settled_def split: sum.splits)
  have early: "\<And>v. settled K B S0 st r v \<Longrightarrow> phase K B S0 st v" for r :: "commit_result list sres" by (simp add: settled_def)
  have look: "triple (phase K B S0 st) (settled K B S0 st r) (ask f) (\<lambda>_. settled K B S0 st r)" for r :: "commit_result list sres" and f :: "store \<Rightarrow> bool sres"
    by (rule triple_ask) (auto simp: early)
  have release: "triple (phase K B S0 st) (settled K B S0 st r) (if c then release_all st else give ()) (\<lambda>_. settled K B S0 st r)"
    for r :: "commit_result list sres" and c
    by (rule triple_weaken [OF keeps_cases(1) [OF keeps_release_all [where I = "settled K B S0 st r"] keeps_pure(1)]]) (auto intro: settled_leases simp: early)
  have result: "triple (phase K B S0 st) (settled K B S0 st r) (lift r) (\<lambda>_ v. phase K B S0 st v \<and> st_journals (fst v) = [] \<and> list_all (moved (fst v)) st)"
    for r :: "commit_result list sres"
    by (rule triple_lift) (auto simp: settled_def)
  from True show ?thesis
    unfolding commit_staged_transaction_def
    by (simp, intro triple_then [OF fresh] triple_then [OF inner] triple_then [OF look] triple_then [OF release] result)
qed

section \<open>Recovery completes\<close>

text \<open>A computation that does not stop when it is let run.\<close>

definition works :: "(view \<Rightarrow> bool) \<Rightarrow> 'a act \<Rightarrow> ('a \<Rightarrow> view \<Rightarrow> bool) \<Rightarrow> bool" where
  "works P m Q \<longleftrightarrow> (\<forall>H. P (view H) \<and> ho_budget H = None \<longrightarrow>
     (\<exists>H' x. m H = (H', Inr x) \<and> Q x (view H') \<and> ho_budget H' = None))"

lemma works_then: "works P m Q \<Longrightarrow> (\<And>x. works (Q x) (k x) R) \<Longrightarrow> works P (act_then m k) R"
  unfolding works_def act_then_def by fastforce

lemma works_give: "(\<And>v. P v \<Longrightarrow> Q x v) \<Longrightarrow> works P (give x) Q"
  by (simp add: works_def give_def)

lemma works_ask: "(\<And>S i n. P (S, i, n) \<Longrightarrow> \<exists>x. f S = Inr x \<and> Q x (S, i, n)) \<Longrightarrow> works P (ask f) Q"
  by (simp add: works_def ask_def view_def)

lemma works_lift: "r = Inr x \<Longrightarrow> (\<And>v. P v \<Longrightarrow> Q x v) \<Longrightarrow> works P (lift r) Q"
  by (simp add: works_def lift_def)

lemma works_put: "(\<And>S i n. P (S, i, n) \<Longrightarrow> Q () (g S, i, n)) \<Longrightarrow> works P (put g) Q"
  by (simp add: works_def put_def view_def)

text \<open>What is kept wherever it stops is kept where it ends.\<close>

lemma works_triple:
  assumes "works P m (\<lambda>_ _. True)" and "triple E P m Q"
  shows "works P m Q"
  unfolding works_def
proof (intro allI impI)
  fix H assume h: "P (view H) \<and> ho_budget H = None"
  with assms(1) obtain H' x where m: "m H = (H', Inr x)" "ho_budget H' = None" unfolding works_def by blast
  with h assms(2) have "Q x (view H')" by (auto dest: tripleD)
  with m show "\<exists>H' x. m H = (H', Inr x) \<and> Q x (view H') \<and> ho_budget H' = None" by blast
qed

lemma works_weaken: "works P m Q \<Longrightarrow> (\<And>v. P' v \<Longrightarrow> P v) \<Longrightarrow> (\<And>x v. Q x v \<Longrightarrow> Q' x v) \<Longrightarrow> works P' m Q'"
  unfolding works_def by meson

lemma works_map: "(\<And>x. x \<in> set xs \<Longrightarrow> works P (f x) (\<lambda>_. P)) \<Longrightarrow> works P (act_map f xs) (\<lambda>_. P)"
  by (induction xs) (auto intro!: works_give works_then)

lemma heads_read_ok:
  assumes "core K B (S, i, n)"
  shows "heads_read K S t = Inr (map_option (\<lambda>h. \<lparr>hs_head = h, hs_tag = sum_head K h\<rparr>) (bt_get (st_heads S) t))"
proof -
  have "hd_format h \<le> FORMAT_VERSION" if "bt_get (st_heads S) t = Some h" for h
    using assms that unfolding core_def sound_def history_ok_def table_ok_def by simp
  then show ?thesis by (cases "bt_get (st_heads S) t") (auto simp: heads_read_def not_less)
qed

lemma roll_forward_works:
  assumes K: "collision_free K" and en: "en \<in> set (tj_entries j)"
  shows "works (rolling K B st x j) (roll_forward K D en) (\<lambda>_. rolling K B st x j)"
proof (rule works_triple [where E = "phase K B undefined st"])
  let ?at = "\<lambda>h v. rolling K B st x j v \<and> bt_get (st_heads (fst v)) (te_table_id en) = Some (hs_head h) \<and> hs_tag h = sum_head K (hs_head h)"
  have read: "works (rolling K B st x j) (ask (\<lambda>S. heads_read K S (te_table_id en)))
      (\<lambda>c v. case c of None \<Rightarrow> True | Some h \<Rightarrow> ?at h v)"
  proof (rule works_ask)
    fix S i n assume r: "rolling K B st x j (S, i, n)"
    then have "core K B (S, i, n)" by (simp add: rolling_def)
    from heads_read_ok [OF this] r show "\<exists>c. heads_read K S (te_table_id en) = Inr c \<and> (case c of None \<Rightarrow> True | Some h \<Rightarrow> ?at h (S, i, n))"
      by (cases "bt_get (st_heads S) (te_table_id en)") auto
  qed
  have check: "works (?at h) (ask (revalidate K (te_table_id en) name (Some (hs_tag h)) nh)) (\<lambda>_. ?at h)" for h name nh
    by (rule works_ask) (auto simp: rolling_def revalidate_def heads_read_ok swap_expected_def)
  have wr: "works (?at h) (write_head t nh) (\<lambda>_ _. True)" for h t nh unfolding write_head_def by (rule works_put) simp
  have pub: "works (?at h) (give ()) (\<lambda>_. ?at h)" for h by (rule works_give)
  have "works (?at h) (heads_commit K D (te_table_id en) name (Some (hs_tag h)) nh (give ())) (\<lambda>_ _. True)" for h name nh
    unfolding heads_commit_def
    by (rule works_then [OF check], rule works_then [OF pub]) (auto intro: wr works_then [OF check])
  then show "works (rolling K B st x j) (roll_forward K D en) (\<lambda>_ _. True)"
    unfolding roll_forward_def by (intro works_then [OF read]) (auto split: option.splits intro!: works_give)
  show "triple (phase K B undefined st) (rolling K B st x j) (roll_forward K D en) (\<lambda>_. rolling K B st x j)"
    by (rule triple_conseq [OF roll_forward_triple [OF K en, where dn = "[]"]]) auto
qed

lemma recover_works:
  assumes "collision_free K"
  shows "works (phase K B S0 st) (recover K D) (\<lambda>_ v. phase K B S0 st v \<and> st_journals (fst v) = [])"
proof (rule works_triple [OF _ recover_triple [OF assms]])
  have one: "works (rolling K B st x j) (recover_journal K D x) (\<lambda>_ _. True)" for x j
  proof -
    have read: "works (rolling K B st x j) (ask (\<lambda>S. ok_or e (bt_get (st_journals S) x))) (\<lambda>j' v. rolling K B st x j v \<and> j' = j \<and> verify_journal K j = Inr ())" for e
      by (rule works_ask) (auto simp: rolling_def journaled_def)
    have "works (rolling K B st x j) (act_then (lift (verify_journal K j)) (\<lambda>_.
        act_then (act_map (roll_forward K D) (tj_entries j)) (\<lambda>_. delete_journal x))) (\<lambda>_ _. True)"
      if "verify_journal K j = Inr ()"
      by (rule works_then [OF works_lift [OF that, where Q = "\<lambda>_. rolling K B st x j"]], assumption,
          rule works_then [OF works_map [OF roll_forward_works [OF assms]]], assumption)
        (simp add: delete_journal_def works_put)
    then have rest: "works (\<lambda>v. rolling K B st x j v \<and> j' = j \<and> verify_journal K j = Inr ()) (act_then (lift (verify_journal K j')) (\<lambda>_.
        act_then (act_map (roll_forward K D) (tj_entries j')) (\<lambda>_. delete_journal x))) (\<lambda>_ _. True)" for j'
      by (auto simp: works_def)
    show ?thesis unfolding recover_journal_def by (rule works_then [OF read rest])
  qed
  have list: "works (phase K B S0 st) (ask (\<lambda>S. Inr (map fst (st_journals S))))
      (\<lambda>ids v. ids = [] \<or> (\<exists>x j. ids = [x] \<and> rolling K B st x j v))"
    by (rule works_ask) (auto simp: phase_def rolling_def journaled_def)
  have each: "works (\<lambda>v. ids = [] \<or> (\<exists>x j. ids = [x] \<and> rolling K B st x j v)) (act_map (recover_journal K D) ids) (\<lambda>_ _. True)" for ids
  proof (cases ids)
    case Nil
    then show ?thesis by (auto intro: works_give)
  next
    case (Cons x xs)
    have "works (\<lambda>v. \<exists>j. rolling K B st x j v) (act_map (recover_journal K D) [x]) (\<lambda>_ _. True)"
      using one [of x] unfolding act_map.simps works_def act_then_def give_def by fastforce
    with Cons show ?thesis by (cases xs) (auto elim: works_weaken simp: works_def)
  qed
  show "works (phase K B S0 st) (recover K D) (\<lambda>_ _. True)"
    unfolding recover_def by (rule works_then [OF list], rule works_then [OF each], rule works_give)
qed

end
