(* ===== verification/Store_Reach.thy ===== *)
theory Store_Reach
  imports Store_Recovery
begin

text \<open>
  The store in use: requests served one after another, commits that were staged earlier, possibly on
  a head that has moved since, transactions, crashes at any write, and recovery. After a crash that
  left a journal, recovery runs before anything else does.
\<close>

section \<open>Requests\<close>

datatype request =
    CreateTables "(string \<times> schema \<times> table_options) list"
  | WriteRows string "batch list" write_options
  | AppendRows string "batch list" write_options nat
  | ReplaceRange string int int "batch list" write_options
  | DeleteRange string int int write_options
  | Restore string nat write_options
  | EvolveSchema string schema write_options
  | Compact string "nat option" write_options
  | DropTable string
  | RenameTable string string
  | CreateSnapshot string "string list" "string option"
  | DeleteSnapshot string
  | SetRetention string retention_cut "string option"
  | SetPolicy mutation_policy
  | SetDataPolicy string data_policy
  | ClearDataPolicy string
  | PlanWrite string "batch list" write_options
  | PlanReplaceRange string int int "batch list" write_options
  | ApplyPlan mutation_plan
  | DiscardPlan string uuid
  | Vacuum listing "string option" nat bool
  | CreateForks "string list" "string option" "int option" "(string, json) btree_map"
  | DropFork string
  | DropForks "string list"
  | DropForkTree string
  | Promote "string \<Rightarrow> bool" string string

definition ignoring :: "'a act \<Rightarrow> unit act" where
  "ignoring m = act_then m (\<lambda>_. give ())"

fun perform :: "codec \<Rightarrow> arrow \<Rightarrow> parquet \<Rightarrow> db \<Rightarrow> request \<Rightarrow> unit act" where
  "perform K A P D (CreateTables tables) = ignoring (create_tables K D tables)"
| "perform K A P D (WriteRows name bs opts) = ignoring (db_write K A P D name bs opts)"
| "perform K A P D (AppendRows name bs opts retries) = ignoring (append_with_retry K A P D name bs opts retries)"
| "perform K A P D (ReplaceRange name start stop bs opts) = ignoring (replace_range K A P D name start stop bs opts)"
| "perform K A P D (DeleteRange name start stop opts) = ignoring (delete_range K A P D name start stop opts)"
| "perform K A P D (Restore name version opts) = ignoring (restore K D name version opts)"
| "perform K A P D (EvolveSchema name sch opts) = ignoring (evolve_schema K D name sch opts)"
| "perform K A P D (Compact name target opts) = ignoring (compact_with K A P D name target opts)"
| "perform K A P D (DropTable name) = ignoring (drop_table K D name)"
| "perform K A P D (RenameTable fr to) = ignoring (rename_table K D fr to)"
| "perform K A P D (CreateSnapshot name tables nt) = ignoring (create_snapshot K D name tables nt)"
| "perform K A P D (DeleteSnapshot name) = ignoring (delete_snapshot K D name)"
| "perform K A P D (SetRetention name rc nt) = ignoring (set_retention K D name rc nt)"
| "perform K A P D (SetPolicy pol) = ignoring (set_policy D pol)"
| "perform K A P D (SetDataPolicy name dp) = ignoring (set_data_policy K D name dp)"
| "perform K A P D (ClearDataPolicy name) = ignoring (clear_data_policy K D name)"
| "perform K A P D (PlanWrite name bs opts) = ignoring (plan_write K A P D name bs opts)"
| "perform K A P D (PlanReplaceRange name start stop bs opts) = ignoring (plan_replace_range K A P D name start stop bs opts)"
| "perform K A P D (ApplyPlan p) = ignoring (apply_plan K D p)"
| "perform K A P D (DiscardPlan name plan_id) = ignoring (discard_plan K name plan_id)"
| "perform K A P D (Vacuum L table grace apply_it) = ignoring (vacuum K L D table grace apply_it)"
| "perform K A P D (CreateForks names nt as_of meta) = ignoring (create_forks K D names nt as_of meta)"
| "perform K A P D (DropFork name) = ignoring (drop_fork K D name)"
| "perform K A P D (DropForks names) = ignoring (drop_forks K D names)"
| "perform K A P D (DropForkTree name) = ignoring (drop_fork_tree K D name)"
| "perform K A P D (Promote linkable fork_name table) = ignoring (promote K D linkable fork_name table)"

lemma keeps_ignoring: "keeps I m \<Longrightarrow> keeps I (ignoring m)"
  unfolding ignoring_def by (intro keeps_then keeps_pure)

lemma keeps_perform: "collision_free K \<Longrightarrow> keeps (sound K B {}) (perform K A P D req)"
  by (cases req) (simp_all add: keeps keeps_ignoring)

section \<open>Steps\<close>

text \<open>A run starts with whatever clock and whatever number of writes before it dies.\<close>

definition running :: "nat option \<Rightarrow> (nat \<Rightarrow> int) \<Rightarrow> host \<Rightarrow> host" where
  "running b c H = H\<lparr>ho_budget := b, ho_clock := c\<rparr>"

definition add_staged :: "staged_commit sres \<Rightarrow> staged_commit list \<Rightarrow> staged_commit list" where
  "add_staged r pool = (case r of Inr sc \<Rightarrow> sc # pool | Inl _ \<Rightarrow> pool)"

inductive step :: "codec \<Rightarrow> arrow \<Rightarrow> parquet \<Rightarrow> host \<times> staged_commit list \<Rightarrow> host \<times> staged_commit list \<Rightarrow> bool"
  for K A P where
  serve: "st_journals (ho_store H) = [] \<Longrightarrow> step K A P (H, pool) (fst (perform K A P D req (running b c H)), pool)"
| stage: "st_journals (ho_store H) = [] \<Longrightarrow> stage_op K A P D opts named (running b c H) = (H', r) \<Longrightarrow>
    step K A P (H, pool) (H', add_staged r pool)"
| commit: "st_journals (ho_store H) = [] \<Longrightarrow> sc \<in> set pool \<Longrightarrow>
    step K A P (H, pool) (fst (commit_staged K D sc (running b c H)), pool)"
| transact: "st_journals (ho_store H) = [] \<Longrightarrow> set st \<subseteq> set pool \<Longrightarrow> distinct (map tid st) \<Longrightarrow>
    step K A P (H, pool) (fst (commit_staged_transaction K D st (running b c H)), pool)"
| restart: "step K A P (H, pool) (fst (recover K D (running b c H)), pool)"

inductive_cases stepE: "step K A P w w'"

definition healthy :: "codec \<Rightarrow> host \<Rightarrow> bool" where
  "healthy K H \<longleftrightarrow> sound K (ho_store H) {} (view H)"

definition fine :: "codec \<Rightarrow> store \<Rightarrow> host \<times> staged_commit list \<Rightarrow> bool" where
  "fine K B w \<longleftrightarrow> (\<exists>S0 st. phase K B S0 st (view (fst w))) \<and> list_all (staged_ok K) (snd w)"

lemma view_running [simp]: "view (running b c H) = view H"
  by (simp add: view_def running_def)

lemma stage_op_triple:
  assumes "collision_free K"
  shows "triple (sound K B T) (sound K B T) (stage_op K A P D opts named) (\<lambda>sc v. sound K B T v \<and> staged_ok K sc)"
  unfolding stage_op_def
  by (cases named; cases "snd named") (auto intro: stage_append_triple [OF assms] stage_write_triple [OF assms])

lemma triple_run:
  assumes "triple E P m Q" and "P (view H)" and "m H = (H', r)"
  shows "case r of Inl e \<Rightarrow> E (view H') | Inr x \<Rightarrow> Q x (view H')"
  using assms(1) [unfolded triple_def, rule_format, OF assms(2)] assms(3) by simp

lemma fine_sound: "fine K B (H, pool) \<Longrightarrow> st_journals (ho_store H) = [] \<Longrightarrow> sound K B {} (view H)"
  by (auto simp: fine_def view_def intro: phase_sound)

lemma sound_fine: "sound K B {} (view H) \<Longrightarrow> list_all (staged_ok K) pool \<Longrightarrow> fine K B (H, pool)"
  unfolding fine_def using sound_phase [of K B "view H" "ho_store H" "[]"] by (auto simp: view_def)

lemma fine_pool: "fine K B (H, pool) \<Longrightarrow> list_all (staged_ok K) pool"
  by (simp add: fine_def)

lemma phase_fst: "triple E P m (\<lambda>_. E) \<Longrightarrow> P (view H) \<Longrightarrow> E (view (fst (m H)))"
  unfolding triple_def by (cases "m H"; cases "snd (m H)") fastforce+

lemma step_fine:
  assumes K: "collision_free K" and "step K A P w w'" and "fine K B w"
  shows "fine K B w'"
  using assms(2)
proof (cases rule: step.cases)
  case (serve H pool D req b c)
  then have "sound K B {} (view (running b c H))" using assms(3) fine_sound by simp
  from keepsD [OF keeps_perform [OF K] this] serve assms(3) show ?thesis by (auto dest: fine_pool intro!: sound_fine)
next
  case (stage H D opts named b c H' r pool)
  then have s: "sound K B {} (view (running b c H))" using assms(3) fine_sound by simp
  have "sound K B {} (view H') \<and> (\<forall>sc. r = Inr sc \<longrightarrow> staged_ok K sc)"
    using triple_run [OF stage_op_triple [OF K] s stage(4)] by (auto split: sum.splits)
  with stage assms(3) show ?thesis by (auto simp: add_staged_def split: sum.splits dest: fine_pool intro!: sound_fine)
next
  case (commit H sc pool D b c)
  then have "sound K B {} (view (running b c H))" using assms(3) fine_sound by simp
  moreover have "staged_ok K sc" using commit assms(3) by (auto simp: fine_def list_all_iff)
  ultimately have "sound K B {} (view (fst (commit_staged K D sc (running b c H))))" by (intro keepsD [OF keeps_commit_staged [OF K]])
  with commit assms(3) show ?thesis by (auto dest: fine_pool intro!: sound_fine)
next
  case (transact H st pool D b c)
  then have u: "untouched K B (ho_store H) (view (running b c H))"
    using assms(3) fine_sound by (simp add: untouched_def) (simp add: view_def)
  have st: "list_all (staged_ok K) st" using transact assms(3) by (auto simp: fine_def list_all_iff)
  have tr: "triple (phase K B (ho_store H) st) (untouched K B (ho_store H)) (commit_staged_transaction K D st)
      (\<lambda>_. phase K B (ho_store H) st)"
    by (rule triple_conseq [OF transaction_triple [OF K st transact(5)]]) simp_all
  from phase_fst [OF tr u] have "phase K B (ho_store H) st (view (fst (commit_staged_transaction K D st (running b c H))))" .
  moreover have "list_all (staged_ok K) pool" using assms(3) transact(1) by (simp add: fine_def)
  ultimately have "fine K B (fst (commit_staged_transaction K D st (running b c H)), pool)" unfolding fine_def fst_conv snd_conv by blast
  then show ?thesis using transact(2) by (simp only:)
next
  case (restart H pool D b c)
  then obtain S0 st where ph: "phase K B S0 st (view (running b c H))" using assms(3) by (auto simp: fine_def)
  have "keeps (phase K B S0 st) (recover K D)" by (rule triple_conseq [OF recover_triple [OF K]]) simp_all
  from keepsD [OF this ph] have "phase K B S0 st (view (fst (recover K D (running b c H))))" .
  moreover have "list_all (staged_ok K) pool" using assms(3) restart(1) by (simp add: fine_def)
  ultimately have "fine K B (fst (recover K D (running b c H)), pool)" unfolding fine_def fst_conv snd_conv by blast
  then show ?thesis using restart(2) by (simp only:)
qed

lemma steps_fine:
  assumes "collision_free K" and "(step K A P)\<^sup>*\<^sup>* w w'" and "fine K B w"
  shows "fine K B w'"
  using assms(2,3) by (induction rule: rtranclp_induct) (auto intro: step_fine [OF assms(1)])

lemma fine_history: "fine K B (H, pool) \<Longrightarrow> history_ok K (ho_store H) \<and> extends B (ho_store H)"
proof -
  assume "fine K B (H, pool)"
  then have "core K B (view H)" by (auto simp: fine_def phase_def)
  then have "history_ok K (calm (ho_store H)) \<and> extends B (calm (ho_store H))" by (simp add: core_def sound_def view_def)
  moreover have "history_ok K (calm S) = history_ok K S" for S by (simp add: history_ok_def table_ok_def floor_of_def)
  ultimately show ?thesis using extends_cong [of "calm (ho_store H)" "ho_store H" B] by simp
qed

end
