(* ===== verification/Spec2Isabelle.thy ===== *)
theory Spec2Isabelle
  imports Clock Accounts Fees Venue_Models L3_Book Replays Settlements Execution Engine_Total Store_Reach
begin

text \<open>
  Verification of the backtest crate of h5i-db (\<open>crates/h5i-db-backtest/src\<close>).

  \<^bold>\<open>The program.\<close> h5i-db is a versioned time-series store with a backtester on top of it. The
  backtester replays recorded market data through an event loop: streams of records are merged into
  one deterministic order (\<open>replay.rs\<close>, \<open>event.rs\<close>), a virtual clock fires timers between records
  (\<open>clock.rs\<close>), book updates maintain price-level and order-by-order books (\<open>book.rs\<close>, \<open>l3.rs\<close>),
  orders are matched against them under latency, fill and fee models (\<open>order.rs\<close>, \<open>models.rs\<close>),
  instructions leave through an execution client (\<open>execution.rs\<close>), fills fold into positions and
  balances (\<open>position.rs\<close>, \<open>account.rs\<close>, \<open>currency.rs\<close>), corporate actions change the units of all
  of it (\<open>corporate.rs\<close>), and after the run a settlement policy values what is still open
  (\<open>settlement.rs\<close>). Everything is computed in 64-bit fixed point with nine decimals (\<open>types.rs\<close>).

  \<^bold>\<open>Theories and sources.\<close>

  \<^item> \<open>Prelude\<close>: results as sums, \<open>fold_r\<close> for loops that may return early, the ranges of the machine
    integers with \<open>wrap64\<close>, \<open>sat64\<close>, \<open>checked64\<close>, and division rounded half away from zero.
  \<^item> \<open>Containers\<close>: \<open>BTreeMap\<close> as a key-ordered association list and \<open>BinaryHeap\<close> as a sorted list,
    with the interfaces the clients use as the locales \<open>ordered_map\<close> and \<open>min_heap\<close>.
  \<^item> \<open>Errors\<close>: \<open>error.rs\<close>. \<open>FixedPoint\<close> and \<open>Display\<close>: \<open>types.rs\<close>.
  \<^item> \<open>Window\<close>: \<open>window.rs\<close>. \<open>Clock\<close>: \<open>clock.rs\<close>. \<open>Corporate\<close>: \<open>corporate.rs\<close>.
  \<^item> \<open>Book\<close>: \<open>book.rs\<close>. \<open>L3_Book\<close>: \<open>l3.rs\<close>.
  \<^item> \<open>Orders\<close>: \<open>order.rs\<close>. \<open>Positions\<close>: \<open>position.rs\<close>. \<open>Execution\<close>: \<open>execution.rs\<close>.
  \<^item> \<open>Currencies\<close>: \<open>currency.rs\<close>. \<open>Instruments\<close>: \<open>instrument.rs\<close>. \<open>Accounts\<close>: \<open>account.rs\<close>.
  \<^item> \<open>Fees\<close> and \<open>Venue_Models\<close>: \<open>models.rs\<close> (fees; latency, fill and slippage models).
  \<^item> \<open>Events\<close>: \<open>event.rs\<close>. \<open>Replays\<close>: \<open>replay.rs\<close>. \<open>Settlements\<close>: \<open>settlement.rs\<close>.

  \<^bold>\<open>How the code is read.\<close> A struct is a record, an enum a datatype, \<open>Result\<close> the sum type \<open>res\<close>
  over \<open>backtest_error\<close>, and a method that changes \<open>self\<close> returns the new state; where the code
  changes a field before a step that can fail, the model returns the changed state beside the error.
  A panic is \<open>None\<close>. Fixed-point values are integers: \<open>checked_\<close> operations fail outside the 64-bit
  range, plain operators wrap (\<open>wrap64\<close>, the behaviour of a release build) and \<open>saturating_\<close>
  operations clamp. Counters and identifiers (\<open>u64\<close>, \<open>u16\<close>) are natural numbers, with the truncating
  casts written out. Formatted messages of \<open>Invalid\<close> errors are short literals. Operations on \<open>f64\<close>
  are not modelled: a constructor that takes a float takes the result of its conversion to fixed
  point instead. State under a mutex is ordinary state. A lazy source of the replay is the list of
  results its iterator yields.

  \<^bold>\<open>What is shown.\<close>

  \<^item> Numbers: \<open>notional\<close> is the exact product rounded once, in the 64-bit build and in the split
    128-bit multiplication alike; printing loses nothing.
  \<^item> Time: windows are tiled exactly by their chunks and coverage counts the absent instants; the
    clock fires exactly the due timers in order, and its loop diverges only at the end of time.
  \<^item> Replay: draining a replay always ends, in the declared total order, or with an error when a
    stream failed or went backwards.
  \<^item> Books: a book refines the levels its feed defines and is trusted exactly after a snapshot with
    no later gap; walking it is best execution; the average stays within the fills; splits conserve
    displayed size; the queue position of the order-by-order book is arrival order and never worsens.
  \<^item> Orders, positions, portfolio: no order is overfilled; a position agrees with the fills it folded,
    profit and cash included; replaying rebuilds each position from its own fills.
  \<^item> Money: conversion never invents a rate, haircuts discount, collateral is within cash, and a
    position that can be opened is not at once liquidated. The contract of a margin model is the
    locale \<open>margin_rules\<close>, interpreted by the cash model; leverage models meet it for all rates that
    \<open>LinearMargin::new\<close> accepts and that are not negative.
  \<^item> Fees: every model meets the locale \<open>fee_schedule\<close> (an invariant every charge keeps, and
    closing one order changes no commission of another); Kalshi rounding costs less than a cent per order; tiers follow rolling volume.
  \<^item> Prediction markets: complete sets are priced and settled to exactly one, rounding to the grid
    gives accepted prices, and the settlement report accounts for every open position.
  \<^item> Execution: the locale \<open>execution_client\<close> and the simulator that meets it; what a fingerprint
    distinguishes and what it does not.

  \<^bold>\<open>Loops and fuel.\<close> Loops over data are structural recursion. The two loops whose end depends on
  the data, draining a replay and advancing the clock, are \<open>partial_function (option)\<close>: their
  theorems state that a result is returned, and for the clock also exactly when it is not. No fuel is
  used.

  \<^bold>\<open>Not modelled.\<close> The engine's event loop (\<open>engine.rs\<close>), the run driver and its float metrics
  (\<open>run.rs\<close>), the Arrow tables (\<open>schema.rs\<close>, \<open>decimal.rs\<close>, \<open>store.rs\<close>), and the other crates. The plan,
  in order: the engine's order admission, matching and margin enforcement over the components here;
  the commit protocol, forks, retention and schema evolution of \<open>h5i-db-core\<close>; the as-of join, gap
  filling and pruning of \<open>h5i-db-query\<close>.
\<close>

end
